(* ===== verification/Prelude.thy ===== *)
theory Prelude
  imports Main
begin

text \<open>
  Shared vocabulary of the development.

  \<^item> Pure code that may throw returns a value of the sum type \<open>'e + 'a\<close>: \<open>Inl\<close> is the
    thrown error, \<open>Inr\<close> the result. \<open>bindE\<close> sequences two such computations, \<open>guardE\<close> is
    a guard \<open>if (!b) fail(...)\<close>.
  \<^item> Code with side effects is a function of type \<open>'s \<Rightarrow> ('e + 'a) \<times> 's\<close> (the synonym
    \<open>eff\<close>). A throw keeps every effect made before it, as in the source language;
    \<open>catchM\<close> is \<open>try { ... } catch\<close>.
  \<^item> \<open>keeps I m\<close> says that \<open>m\<close> preserves \<open>I\<close> whether it returns or throws. Its rules are
    collected in \<open>keeps_intros\<close>, so the invariant of a long handler is proved from the
    invariants of its individual calls.
\<close>

named_theorems keeps_intros "preservation rules for effectful computations"
named_theorems eff_simps "unfolding rules of the effect combinators"

section \<open>Computations that may throw\<close>

fun bindE :: "'e + 'a \<Rightarrow> ('a \<Rightarrow> 'e + 'b) \<Rightarrow> 'e + 'b" where
  "bindE (Inl e) f = Inl e"
| "bindE (Inr x) f = f x"

definition guardE :: "bool \<Rightarrow> 'e \<Rightarrow> 'e + unit" where
  "guardE b e = (if b then Inr () else Inl e)"

lemma bindE_eq_Inr [simp]: "(bindE m f = Inr y) \<longleftrightarrow> (\<exists>x. m = Inr x \<and> f x = Inr y)"
  by (cases m) auto

lemma bindE_eq_Inl [simp]:
  "(bindE m f = Inl e) \<longleftrightarrow> (m = Inl e \<or> (\<exists>x. m = Inr x \<and> f x = Inl e))"
  by (cases m) auto

lemma guardE_eq_Inr [simp]: "(guardE b e = Inr u) \<longleftrightarrow> b"
  by (auto simp: guardE_def)

lemma guardE_eq_Inl [simp]: "(guardE b e = Inl e') \<longleftrightarrow> (\<not> b \<and> e' = e)"
  by (auto simp: guardE_def)

lemma guardE_True [simp]: "b \<Longrightarrow> guardE b e = Inr ()"
  by (simp add: guardE_def)

lemma guardE_False [simp]: "\<not> b \<Longrightarrow> guardE b e = Inl e"
  by (simp add: guardE_def)

lemma bindE_assoc: "bindE (bindE m f) g = bindE m (\<lambda>x. bindE (f x) g)"
  by (cases m) auto

fun mapE :: "('a \<Rightarrow> 'e + 'b) \<Rightarrow> 'a list \<Rightarrow> 'e + 'b list" where
  "mapE f [] = Inr []"
| "mapE f (x # xs) = bindE (f x) (\<lambda>y. bindE (mapE f xs) (\<lambda>ys. Inr (y # ys)))"

lemma mapE_length: "mapE f xs = Inr ys \<Longrightarrow> length ys = length xs"
  by (induction xs arbitrary: ys) auto

lemma mapE_all: "mapE f xs = Inr ys \<Longrightarrow> y \<in> set ys \<Longrightarrow> \<exists>x \<in> set xs. f x = Inr y"
  by (induction xs arbitrary: ys) auto

definition is_ok :: "'e + 'a \<Rightarrow> bool" where
  "is_ok r = (case r of Inl _ \<Rightarrow> False | Inr _ \<Rightarrow> True)"

lemma is_ok_simps [simp]: "is_ok (Inr x)" "\<not> is_ok (Inl e)"
  by (simp_all add: is_ok_def)

section \<open>Computations with state that may throw\<close>

type_synonym ('s, 'e, 'a) eff = "'s \<Rightarrow> ('e + 'a) \<times> 's"

definition returnM :: "'a \<Rightarrow> ('s, 'e, 'a) eff" where
  "returnM x = (\<lambda>s. (Inr x, s))"

definition throwM :: "'e \<Rightarrow> ('s, 'e, 'a) eff" where
  "throwM e = (\<lambda>s. (Inl e, s))"

definition liftM :: "'e + 'a \<Rightarrow> ('s, 'e, 'a) eff" where
  "liftM r = (\<lambda>s. (r, s))"

definition getM :: "('s \<Rightarrow> 'a) \<Rightarrow> ('s, 'e, 'a) eff" where
  "getM f = (\<lambda>s. (Inr (f s), s))"

definition modifyM :: "('s \<Rightarrow> 's) \<Rightarrow> ('s, 'e, unit) eff" where
  "modifyM f = (\<lambda>s. (Inr (), f s))"

definition requireM :: "bool \<Rightarrow> 'e \<Rightarrow> ('s, 'e, unit) eff" where
  "requireM b e = (\<lambda>s. (guardE b e, s))"

definition bindM :: "('s, 'e, 'a) eff \<Rightarrow> ('a \<Rightarrow> ('s, 'e, 'b) eff) \<Rightarrow> ('s, 'e, 'b) eff" where
  "bindM m f = (\<lambda>s. case m s of (Inl e, s') \<Rightarrow> (Inl e, s') | (Inr x, s') \<Rightarrow> f x s')"

definition catchM :: "('s, 'e, 'a) eff \<Rightarrow> ('e \<Rightarrow> ('s, 'f, 'a) eff) \<Rightarrow> ('s, 'f, 'a) eff" where
  "catchM m h = (\<lambda>s. case m s of (Inl e, s') \<Rightarrow> h e s' | (Inr x, s') \<Rightarrow> (Inr x, s'))"

fun forM :: "'a list \<Rightarrow> ('a \<Rightarrow> ('s, 'e, unit) eff) \<Rightarrow> ('s, 'e, unit) eff" where
  "forM [] f = returnM ()"
| "forM (x # xs) f = bindM (f x) (\<lambda>_. forM xs f)"

lemma returnM_run [eff_simps]: "returnM x s = (Inr x, s)"
  by (simp add: returnM_def)

lemma throwM_run [eff_simps]: "throwM e s = (Inl e, s)"
  by (simp add: throwM_def)

lemma liftM_run [eff_simps]: "liftM r s = (r, s)"
  by (simp add: liftM_def)

lemma getM_run [eff_simps]: "getM f s = (Inr (f s), s)"
  by (simp add: getM_def)

lemma modifyM_run [eff_simps]: "modifyM f s = (Inr (), f s)"
  by (simp add: modifyM_def)

lemma requireM_run [eff_simps]: "requireM b e s = ((if b then Inr () else Inl e), s)"
  by (simp add: requireM_def guardE_def)

lemma bindM_run [eff_simps]:
  "bindM m f s = (case m s of (r, s') \<Rightarrow> (case r of Inl e \<Rightarrow> (Inl e, s') | Inr x \<Rightarrow> f x s'))"
  by (simp add: bindM_def split: prod.splits sum.splits)

lemma catchM_run [eff_simps]:
  "catchM m h s = (case m s of (r, s') \<Rightarrow> (case r of Inl e \<Rightarrow> h e s' | Inr x \<Rightarrow> (Inr x, s')))"
  by (simp add: catchM_def split: prod.splits sum.splits)

lemma bindM_Inr_iff:
  "(bindM m f s = (Inr y, t)) \<longleftrightarrow> (\<exists>x s'. m s = (Inr x, s') \<and> f x s' = (Inr y, t))"
  by (auto simp: bindM_run split: prod.splits sum.splits)

lemma bindM_Inl_iff:
  "(bindM m f s = (Inl e, t)) \<longleftrightarrow>
     (m s = (Inl e, t) \<or> (\<exists>x s'. m s = (Inr x, s') \<and> f x s' = (Inl e, t)))"
  by (auto simp: bindM_run split: prod.splits sum.splits)

lemma catchM_Inr_iff:
  "(catchM m h s = (Inr y, t)) \<longleftrightarrow>
     (m s = (Inr y, t) \<or> (\<exists>e s'. m s = (Inl e, s') \<and> h e s' = (Inr y, t)))"
  by (auto simp: catchM_run split: prod.splits sum.splits)

lemma requireM_Inr_iff: "(requireM b e s = (Inr u, t)) \<longleftrightarrow> (b \<and> t = s)"
  by (auto simp: requireM_run)

lemma requireM_Inl_iff: "(requireM b e s = (Inl e', t)) \<longleftrightarrow> (\<not> b \<and> e' = e \<and> t = s)"
  by (auto simp: requireM_run)

lemma liftM_Inr_iff: "(liftM r s = (Inr y, t)) \<longleftrightarrow> (r = Inr y \<and> t = s)"
  by (auto simp: liftM_run)

lemma getM_Inr_iff: "(getM f s = (Inr y, t)) \<longleftrightarrow> (y = f s \<and> t = s)"
  by (auto simp: getM_run)

lemma modifyM_Inr_iff: "(modifyM f s = (Inr u, t)) \<longleftrightarrow> (t = f s)"
  by (auto simp: modifyM_run)

lemma returnM_Inr_iff: "(returnM x s = (Inr y, t)) \<longleftrightarrow> (y = x \<and> t = s)"
  by (auto simp: returnM_run)

lemma throwM_Inr_iff: "(throwM e s = (Inr y, t)) \<longleftrightarrow> False"
  by (simp add: throwM_run)

lemma catchM_Inl_iff:
  "(catchM m h s = (Inl e, t)) \<longleftrightarrow> (\<exists>e' s'. m s = (Inl e', s') \<and> h e' s' = (Inl e, t))"
  by (auto simp: catchM_run split: prod.splits sum.splits)

lemma liftM_Inl_iff: "(liftM r s = (Inl e, t)) \<longleftrightarrow> (r = Inl e \<and> t = s)"
  by (auto simp: liftM_run)

lemma throwM_Inl_iff: "(throwM x s = (Inl e, t)) \<longleftrightarrow> (e = x \<and> t = s)"
  by (auto simp: throwM_run)

lemma returnM_Inl_iff: "(returnM x s = (Inl e, t)) \<longleftrightarrow> False"
  by (simp add: returnM_run)

lemmas eff_Inl_iffs =
  bindM_Inl_iff catchM_Inl_iff requireM_Inl_iff liftM_Inl_iff throwM_Inl_iff returnM_Inl_iff

lemmas eff_Inr_iffs =
  bindM_Inr_iff catchM_Inr_iff requireM_Inr_iff liftM_Inr_iff getM_Inr_iff modifyM_Inr_iff
  returnM_Inr_iff throwM_Inr_iff

subsection \<open>Preservation of a state predicate\<close>

definition keeps :: "('s \<Rightarrow> bool) \<Rightarrow> ('s, 'e, 'a) eff \<Rightarrow> bool" where
  "keeps I m \<longleftrightarrow> (\<forall>s. I s \<longrightarrow> I (snd (m s)))"

lemma keepsI: "(\<And>s. I s \<Longrightarrow> I (snd (m s))) \<Longrightarrow> keeps I m"
  by (simp add: keeps_def)

lemma keepsD: "keeps I m \<Longrightarrow> I s \<Longrightarrow> I (snd (m s))"
  by (simp add: keeps_def)

lemma keeps_run: "keeps I m \<Longrightarrow> I s \<Longrightarrow> m s = (r, t) \<Longrightarrow> I t"
  by (metis keepsD snd_conv)

lemma keeps_returnM [keeps_intros]: "keeps I (returnM x)"
  by (simp add: keeps_def returnM_run)

lemma keeps_throwM [keeps_intros]: "keeps I (throwM e)"
  by (simp add: keeps_def throwM_run)

lemma keeps_liftM [keeps_intros]: "keeps I (liftM r)"
  by (simp add: keeps_def liftM_run)

lemma keeps_getM [keeps_intros]: "keeps I (getM f)"
  by (simp add: keeps_def getM_run)

lemma keeps_requireM [keeps_intros]: "keeps I (requireM b e)"
  by (simp add: keeps_def requireM_run)

lemma keeps_modifyM: "(\<And>s. I s \<Longrightarrow> I (f s)) \<Longrightarrow> keeps I (modifyM f)"
  by (simp add: keeps_def modifyM_run)

lemma keeps_bindM [keeps_intros]: "keeps I m \<Longrightarrow> (\<And>x. keeps I (f x)) \<Longrightarrow> keeps I (bindM m f)"
  unfolding keeps_def bindM_run by (force split: prod.splits sum.splits)

lemma keeps_bindM_dep:
  "keeps I m \<Longrightarrow> (\<And>x s s'. I s \<Longrightarrow> m s = (Inr x, s') \<Longrightarrow> keeps I (f x)) \<Longrightarrow> keeps I (bindM m f)"
  unfolding keeps_def bindM_run by (force split: prod.splits sum.splits)

lemma keeps_catchM [keeps_intros]: "keeps I m \<Longrightarrow> (\<And>e. keeps I (h e)) \<Longrightarrow> keeps I (catchM m h)"
  unfolding keeps_def catchM_run by (force split: prod.splits sum.splits)

lemma keeps_forM [keeps_intros]: "(\<And>x. keeps I (f x)) \<Longrightarrow> keeps I (forM xs f)"
  by (induction xs) (auto intro!: keeps_returnM keeps_bindM)

lemma keeps_if [keeps_intros]: "keeps I a \<Longrightarrow> keeps I b \<Longrightarrow> keeps I (if c then a else b)"
  by simp

lemma keeps_option [keeps_intros]:
  "keeps I a \<Longrightarrow> (\<And>x. keeps I (b x)) \<Longrightarrow>
     keeps I (case v of None \<Rightarrow> a | Some x \<Rightarrow> b x)"
  by (cases v) auto

section \<open>Lists\<close>

text \<open>\<open>Array.from(new Set(xs))\<close> keeps the first occurrence of every element.\<close>

fun uniq :: "'a list \<Rightarrow> 'a list" where
  "uniq [] = []"
| "uniq (x # xs) = x # filter (\<lambda>y. y \<noteq> x) (uniq xs)"

lemma set_uniq [simp]: "set (uniq xs) = set xs"
  by (induction xs) auto

lemma distinct_uniq [simp]: "distinct (uniq xs)"
  by (induction xs) auto

lemma uniq_id: "distinct xs \<Longrightarrow> uniq xs = xs"
  by (induction xs) (auto simp: filter_id_conv)

lemma length_uniq_le: "length (uniq xs) \<le> length xs"
proof (induction xs)
  case (Cons x xs)
  have "length (filter (\<lambda>y. y \<noteq> x) (uniq xs)) \<le> length (uniq xs)"
    by (rule length_filter_le)
  with Cons show ?case by (simp only: uniq.simps list.size)
qed simp

text \<open>
  \<open>new Set(xs).size === xs.length\<close>, the source's test for distinct elements.
\<close>

lemma length_uniq_eq_iff: "(length (uniq xs) = length xs) \<longleftrightarrow> distinct xs"
proof (induction xs)
  case (Cons x xs)
  have le: "length (filter (\<lambda>y. y \<noteq> x) (uniq xs)) \<le> length (uniq xs)" by simp
  show ?case
  proof
    assume "length (uniq (x # xs)) = length (x # xs)"
    then have eq: "length (filter (\<lambda>y. y \<noteq> x) (uniq xs)) = length xs" by simp
    from eq le length_uniq_le [of xs] have a: "length (uniq xs) = length xs" by linarith
    from eq a have b: "length (filter (\<lambda>y. y \<noteq> x) (uniq xs)) = length (uniq xs)" by linarith
    from b have "x \<notin> set (uniq xs)"
      by (metis (mono_tags, lifting) length_filter_less less_irrefl)
    with a Cons show "distinct (x # xs)" by simp
  next
    assume "distinct (x # xs)"
    then show "length (uniq (x # xs)) = length (x # xs)"
      by (simp only: uniq_id)
  qed
qed simp

lemma find_Some_iff': "find P xs = Some x \<Longrightarrow> x \<in> set xs \<and> P x"
  by (auto simp: find_Some_iff)

end
