(* ===== verification/JsValue.thy ===== *)
theory JsValue
  imports Prelude "HOL-Library.Char_ord"
begin

text \<open>
  The values of the source language, as far as the modelled code inspects values of
  unknown type (\<open>unknown\<close>, parsed JSON, database columns).

  \<^item> A string is a list of characters; a character is a code unit below 256. Code units above
    255 are outside the model.
  \<^item> A number is \<open>NaN\<close>, an integer or an exact decimal fraction \<open>Frac m k\<close> (that is
    \<open>m / 10^k\<close> with \<open>k > 0\<close> and \<open>m\<close> not divisible by ten). Rounding to double precision and
    the infinities are outside the model.
  \<^item> An object is the list of its own properties in order.

  The conversions are those of the language: \<open>to_str\<close> is \<open>String(v)\<close>, \<open>to_num\<close> is
  \<open>Number(v)\<close>, \<open>truthy\<close> is \<open>Boolean(v)\<close>, \<open>coalesce\<close> is \<open>??\<close>, \<open>jget\<close> is a property read
  (a missing property reads as undefined).
\<close>

section \<open>Values\<close>

datatype jsnum = NaN | Num int | Frac int nat

datatype js =
    JUndef
  | JNull
  | JBool bool
  | JNum jsnum
  | JStr string
  | JArr "js list"
  | JObj "(string \<times> js) list"

abbreviation JInt :: "int \<Rightarrow> js" where
  "JInt n \<equiv> JNum (Num n)"

definition jget :: "js \<Rightarrow> string \<Rightarrow> js" where
  "jget v k = (case v of
      JObj ps \<Rightarrow> (case map_of ps k of None \<Rightarrow> JUndef | Some x \<Rightarrow> x)
    | _ \<Rightarrow> JUndef)"

definition plain_object :: "js \<Rightarrow> bool" where
  "plain_object v = (case v of JObj _ \<Rightarrow> True | _ \<Rightarrow> False)"

definition is_array :: "js \<Rightarrow> bool" where
  "is_array v = (case v of JArr _ \<Rightarrow> True | _ \<Rightarrow> False)"

definition jkeys :: "js \<Rightarrow> string list" where
  "jkeys v = (case v of JObj ps \<Rightarrow> map fst ps | _ \<Rightarrow> [])"

fun truthy :: "js \<Rightarrow> bool" where
  "truthy JUndef = False"
| "truthy JNull = False"
| "truthy (JBool b) = b"
| "truthy (JNum n) = (n \<noteq> NaN \<and> n \<noteq> Num 0)"
| "truthy (JStr s) = (s \<noteq> [])"
| "truthy (JArr _) = True"
| "truthy (JObj _) = True"

definition nullish :: "js \<Rightarrow> bool" where
  "nullish v = (v = JUndef \<or> v = JNull)"

definition coalesce :: "js \<Rightarrow> js \<Rightarrow> js" where
  "coalesce a b = (if nullish a then b else a)"

lemma coalesce_simps [simp]:
  "coalesce JUndef b = b" "coalesce JNull b = b" "coalesce (JStr s) b = JStr s"
  "coalesce (JNum n) b = JNum n" "coalesce (JBool c) b = JBool c"
  "coalesce (JArr xs) b = JArr xs" "coalesce (JObj ps) b = JObj ps"
  by (simp_all add: coalesce_def nullish_def)

lemma jget_JObj [simp]:
  "jget (JObj ps) k = (case map_of ps k of None \<Rightarrow> JUndef | Some x \<Rightarrow> x)"
  by (simp add: jget_def)

lemma plain_object_iff: "plain_object v \<longleftrightarrow> (\<exists>ps. v = JObj ps)"
  by (cases v) (auto simp: plain_object_def)

section \<open>Characters and strings\<close>

abbreviation code :: "char \<Rightarrow> nat" where
  "code c \<equiv> of_char c"

definition is_digit :: "char \<Rightarrow> bool" where
  "is_digit c = (48 \<le> code c \<and> code c \<le> 57)"

definition digit_val :: "char \<Rightarrow> nat" where
  "digit_val c = code c - 48"

definition digit_char :: "nat \<Rightarrow> char" where
  "digit_char d = char_of (48 + d)"

lemma digit_char_props [simp]:
  "d < 10 \<Longrightarrow> is_digit (digit_char d)" "d < 10 \<Longrightarrow> digit_val (digit_char d) = d"
  by (simp_all add: is_digit_def digit_val_def digit_char_def)

text \<open>White space of \<open>String.prototype.trim\<close> below code unit 256.\<close>

definition is_space :: "char \<Rightarrow> bool" where
  "is_space c = (code c \<in> {9, 10, 11, 12, 13, 32, 160})"

definition js_trim :: "string \<Rightarrow> string" where
  "js_trim s = rev (dropWhile is_space (rev (dropWhile is_space s)))"

definition lower_char :: "char \<Rightarrow> char" where
  "lower_char c =
     (if (65 \<le> code c \<and> code c \<le> 90) \<or> (192 \<le> code c \<and> code c \<le> 222 \<and> code c \<noteq> 215)
      then char_of (code c + 32) else c)"

definition js_lower :: "string \<Rightarrow> string" where
  "js_lower s = map lower_char s"

lemma lower_char_idem [simp]: "lower_char (lower_char c) = lower_char c"
proof -
  show ?thesis
  proof (cases "(65 \<le> code c \<and> code c \<le> 90) \<or> (192 \<le> code c \<and> code c \<le> 222 \<and> code c \<noteq> 215)")
    case True
    then have "lower_char c = char_of (code c + 32)" and b: "code c + 32 < 256"
      by (auto simp: lower_char_def)
    moreover have "code (char_of (code c + 32)) = code c + 32"
      using b by (simp add: of_char_of)
    ultimately show ?thesis
      using True by (auto simp: lower_char_def)
  next
    case False
    then have "lower_char c = c" unfolding lower_char_def by (rule if_not_P)
    then show ?thesis by simp
  qed
qed

lemma js_lower_idem [simp]: "js_lower (js_lower s) = js_lower s"
  by (simp add: js_lower_def)

lemma length_js_lower [simp]: "length (js_lower s) = length s"
  by (simp add: js_lower_def)

lemma dropWhile_hd_neq: "dropWhile P xs = y # ys \<Longrightarrow> \<not> P y"
  by (metis dropWhile_eq_Cons_conv)

definition starts_with :: "string \<Rightarrow> string \<Rightarrow> bool" where
  "starts_with p s = (take (length p) s = p)"

fun js_includes :: "string \<Rightarrow> string \<Rightarrow> bool" where
  "js_includes p [] = (p = [])"
| "js_includes p (c # s) = (starts_with p (c # s) \<or> js_includes p s)"

text \<open>\<open>s.split(c)\<close> for a one-character separator; the result is never empty.\<close>

fun js_split :: "char \<Rightarrow> string \<Rightarrow> string list" where
  "js_split c [] = [[]]"
| "js_split c (x # xs) =
     (if x = c then [] # js_split c xs
      else (case js_split c xs of [] \<Rightarrow> [[x]] | w # ws \<Rightarrow> (x # w) # ws))"

fun js_join :: "string \<Rightarrow> string list \<Rightarrow> string" where
  "js_join sep [] = []"
| "js_join sep [x] = x"
| "js_join sep (x # y # zs) = x @ sep @ js_join sep (y # zs)"

lemma js_split_nonempty [simp]: "js_split c s \<noteq> []"
  by (induction s) (auto split: list.splits)

lemma js_join_Cons_head: "js_join sep ((x # w) # ws) = x # js_join sep (w # ws)"
  by (cases ws) auto

lemma js_join_split: "js_join [c] (js_split c s) = s"
proof (induction s)
  case (Cons x xs)
  obtain w ws where sp: "js_split c xs = w # ws"
    using js_split_nonempty [of c xs] by (metis neq_Nil_conv)
  show ?case
  proof (cases "x = c")
    case True
    with sp Cons show ?thesis by simp
  next
    case False
    with sp Cons show ?thesis by (simp add: js_join_Cons_head)
  qed
qed simp

subsection \<open>Character classes of the source's patterns\<close>

definition is_hex_lower :: "char \<Rightarrow> bool" where
  "is_hex_lower c = (is_digit c \<or> (97 \<le> code c \<and> code c \<le> 102))"

definition is_hex_any :: "char \<Rightarrow> bool" where
  "is_hex_any c = (is_hex_lower c \<or> (65 \<le> code c \<and> code c \<le> 70))"

definition is_upper :: "char \<Rightarrow> bool" where
  "is_upper c = (65 \<le> code c \<and> code c \<le> 90)"

definition is_lower :: "char \<Rightarrow> bool" where
  "is_lower c = (97 \<le> code c \<and> code c \<le> 122)"

text \<open>A pattern that fixes the length: one predicate per character.\<close>

definition matches :: "(char \<Rightarrow> bool) list \<Rightarrow> string \<Rightarrow> bool" where
  "matches ps s = list_all2 (\<lambda>p c. p c) ps s"

lemma matches_length: "matches ps s \<Longrightarrow> length s = length ps"
  by (auto simp: matches_def dest: list_all2_lengthD)

text \<open>\<open>/^[a-f0-9]{64}$/\<close>\<close>

definition hash_pattern :: "string \<Rightarrow> bool" where
  "hash_pattern s = (length s = 64 \<and> list_all is_hex_lower s)"

text \<open>
  \<open>/^<prefix>_[0-9a-f]{8}-[0-9a-f]{4}-[1-5][0-9a-f]{3}-[89ab][0-9a-f]{3}-[0-9a-f]{12}$/i\<close>: the
  identifiers of maintenance, migration and recovery operations. The case-insensitive flag
  is applied by lowering the text first.
\<close>

definition uuid_shape :: "(char \<Rightarrow> bool) list" where
  "uuid_shape =
     replicate 8 is_hex_lower @ [\<lambda>c. c = CHR ''-''] @
     replicate 4 is_hex_lower @ [\<lambda>c. c = CHR ''-''] @
     [\<lambda>c. c \<in> set ''12345''] @ replicate 3 is_hex_lower @ [\<lambda>c. c = CHR ''-''] @
     [\<lambda>c. c \<in> set ''89ab''] @ replicate 3 is_hex_lower @ [\<lambda>c. c = CHR ''-''] @
     replicate 12 is_hex_lower"

definition prefixed_uuid :: "string \<Rightarrow> string \<Rightarrow> bool" where
  "prefixed_uuid p s = (starts_with p s \<and> matches uuid_shape (drop (length p) s))"

definition prefixed_uuid_ci :: "string \<Rightarrow> string \<Rightarrow> bool" where
  "prefixed_uuid_ci p s = prefixed_uuid (js_lower p) (js_lower s)"

lemma prefixed_uuid_length: "prefixed_uuid p s \<Longrightarrow> length s = length p + 36"
proof -
  assume a: "prefixed_uuid p s"
  then have "matches uuid_shape (drop (length p) s)" by (simp add: prefixed_uuid_def)
  then have "length (drop (length p) s) = length uuid_shape" by (rule matches_length)
  moreover have "length uuid_shape = 36" by (simp add: uuid_shape_def)
  ultimately show ?thesis by simp
qed

lemma prefixed_uuid_nonempty: "prefixed_uuid p s \<Longrightarrow> s \<noteq> []"
  using prefixed_uuid_length by force

lemma prefixed_uuid_ci_nonempty: "prefixed_uuid_ci p s \<Longrightarrow> s \<noteq> []"
  by (auto simp: prefixed_uuid_ci_def js_lower_def dest: prefixed_uuid_nonempty)

lemma hash_pattern_nonempty: "hash_pattern s \<Longrightarrow> s \<noteq> []"
  by (auto simp: hash_pattern_def)

section \<open>Numbers\<close>

definition max_safe :: int where
  "max_safe = 9007199254740991"

definition safe_integer :: "jsnum \<Rightarrow> bool" where
  "safe_integer n = (case n of Num k \<Rightarrow> - max_safe \<le> k \<and> k \<le> max_safe | _ \<Rightarrow> False)"

fun trunc_num :: "jsnum \<Rightarrow> jsnum" where
  "trunc_num NaN = NaN"
| "trunc_num (Num n) = Num n"
| "trunc_num (Frac m k) = Num (sgn m * (\<bar>m\<bar> div 10 ^ k))"

fun mk_frac :: "int \<Rightarrow> nat \<Rightarrow> jsnum" where
  "mk_frac m 0 = Num m"
| "mk_frac m (Suc k) = (if m mod 10 = 0 then mk_frac (m div 10) k else Frac m (Suc k))"

fun nat_to_str :: "nat \<Rightarrow> string" where
  "nat_to_str n = (if n < 10 then [digit_char n] else nat_to_str (n div 10) @ [digit_char (n mod 10)])"

declare nat_to_str.simps [simp del]

definition int_to_str :: "int \<Rightarrow> string" where
  "int_to_str n = (if n < 0 then CHR ''-'' # nat_to_str (nat (- n)) else nat_to_str (nat n))"

fun num_to_str :: "jsnum \<Rightarrow> string" where
  "num_to_str NaN = ''NaN''"
| "num_to_str (Num n) = int_to_str n"
| "num_to_str (Frac m k) =
     (let ds = nat_to_str (nat \<bar>m\<bar>);
          padded = replicate (Suc k - length ds) (CHR ''0'') @ ds;
          ip = take (length padded - k) padded;
          fp = drop (length padded - k) padded
      in (if m < 0 then ''-'' else '''') @ ip @ ''.'' @ fp)"

definition digits_val :: "string \<Rightarrow> nat" where
  "digits_val ds = foldl (\<lambda>a c. 10 * a + digit_val c) 0 ds"

lemma digits_val_snoc [simp]: "digits_val (ds @ [c]) = 10 * digits_val ds + digit_val c"
  by (simp add: digits_val_def)

lemma nat_to_str_digits: "list_all is_digit (nat_to_str n)"
proof (induction n rule: nat_to_str.induct)
  case (1 n)
  then show ?case by (subst nat_to_str.simps) auto
qed

lemma nat_to_str_nonempty [simp]: "nat_to_str n \<noteq> []"
  by (subst nat_to_str.simps) simp

lemma digits_val_nat_to_str [simp]: "digits_val (nat_to_str n) = n"
proof (induction n rule: nat_to_str.induct)
  case (1 n)
  show ?case
  proof (cases "n < 10")
    case True
    then show ?thesis by (subst nat_to_str.simps) (simp add: digits_val_def)
  next
    case False
    with 1 have "digits_val (nat_to_str (n div 10)) = n div 10" by simp
    with False show ?thesis by (subst nat_to_str.simps) simp
  qed
qed

lemma nat_to_str_inject: "nat_to_str m = nat_to_str n \<Longrightarrow> m = n"
  by (metis digits_val_nat_to_str)

lemma length_nat_to_str: "n < 10 ^ k \<Longrightarrow> 0 < k \<Longrightarrow> length (nat_to_str n) \<le> k"
proof (induction n arbitrary: k rule: nat_to_str.induct)
  case (1 n)
  show ?case
  proof (cases "n < 10")
    case True
    then show ?thesis using 1 by (subst nat_to_str.simps) simp
  next
    case False
    then obtain j where j: "k = Suc j" using 1 by (cases k) auto
    have "0 < j" using False 1(2) j by (cases j) auto
    moreover have "n div 10 < 10 ^ j" using 1(2) j by (simp add: less_mult_imp_div_less mult.commute)
    ultimately have "length (nat_to_str (n div 10)) \<le> j" using 1(1) False by blast
    with False j show ?thesis by (subst nat_to_str.simps) simp
  qed
qed

text \<open>
  \<open>StringToNumber\<close>: surrounding white space is ignored, the empty text is zero, a radix prefix
  takes digits only, a decimal literal may have a sign, a fraction and an exponent, and any
  other text is \<open>NaN\<close>.
\<close>

definition hex_val :: "char \<Rightarrow> nat" where
  "hex_val c = (if is_digit c then code c - 48 else if code c \<ge> 97 then code c - 87 else code c - 55)"

definition radix_val :: "nat \<Rightarrow> string \<Rightarrow> jsnum" where
  "radix_val r ds =
     (if ds \<noteq> [] \<and> list_all (\<lambda>c. is_hex_any c \<and> hex_val c < r) ds
      then Num (int (foldl (\<lambda>a c. r * a + hex_val c) 0 ds)) else NaN)"

definition parse_exponent :: "string \<Rightarrow> int option" where
  "parse_exponent s = (case s of
      [] \<Rightarrow> Some 0
    | c # t \<Rightarrow>
       (if c = CHR ''e'' \<or> c = CHR ''E'' then
          (let (neg, ds) = (case t of
               [] \<Rightarrow> (False, [])
             | x # u \<Rightarrow> if x = CHR ''-'' then (True, u) else if x = CHR ''+'' then (False, u) else (False, t))
           in if ds \<noteq> [] \<and> list_all is_digit ds
              then Some (if neg then - int (digits_val ds) else int (digits_val ds)) else None)
        else None))"

definition decimal_val :: "bool \<Rightarrow> string \<Rightarrow> jsnum" where
  "decimal_val neg s =
     (let ip = takeWhile is_digit s; r1 = dropWhile is_digit s;
          (fp, r2) = (case r1 of
              [] \<Rightarrow> ([], [])
            | c # t \<Rightarrow> if c = CHR ''.'' then (takeWhile is_digit t, dropWhile is_digit t) else ([], r1))
      in if ip @ fp = [] then NaN
         else (case parse_exponent r2 of
             None \<Rightarrow> NaN
           | Some e \<Rightarrow>
              (let m = (if neg then - 1 else 1) * int (digits_val (ip @ fp)); x = e - int (length fp)
               in if 0 \<le> x then Num (m * 10 ^ nat x) else mk_frac m (nat (- x)))))"

definition str_to_num :: "string \<Rightarrow> jsnum" where
  "str_to_num s0 =
     (let s = js_trim s0 in
      if s = [] then Num 0
      else if starts_with ''0x'' s \<or> starts_with ''0X'' s then radix_val 16 (drop 2 s)
      else if starts_with ''0o'' s \<or> starts_with ''0O'' s then radix_val 8 (drop 2 s)
      else if starts_with ''0b'' s \<or> starts_with ''0B'' s then radix_val 2 (drop 2 s)
      else if hd s = CHR ''-'' then decimal_val True (tl s)
      else if hd s = CHR ''+'' then decimal_val False (tl s)
      else decimal_val False s)"

fun to_str :: "js \<Rightarrow> string" where
  "to_str JUndef = ''undefined''"
| "to_str JNull = ''null''"
| "to_str (JBool b) = (if b then ''true'' else ''false'')"
| "to_str (JNum n) = num_to_str n"
| "to_str (JStr s) = s"
| "to_str (JArr xs) = js_join '','' (map (\<lambda>x. if nullish x then [] else to_str x) xs)"
| "to_str (JObj ps) = ''[object Object]''"

definition to_num :: "js \<Rightarrow> jsnum" where
  "to_num v = (case v of
      JUndef \<Rightarrow> NaN
    | JNull \<Rightarrow> Num 0
    | JBool b \<Rightarrow> Num (if b then 1 else 0)
    | JNum n \<Rightarrow> n
    | JStr s \<Rightarrow> str_to_num s
    | JArr xs \<Rightarrow> str_to_num (to_str v)
    | JObj _ \<Rightarrow> NaN)"

lemma to_num_simps [simp]:
  "to_num (JNum n) = n" "to_num JUndef = NaN" "to_num JNull = Num 0"
  by (simp_all add: to_num_def)

text \<open>\<open>Number(v)\<close> when it is a safe integer in \<open>[lo, hi]\<close>, the source's most common check.\<close>

definition safe_int_in :: "int \<Rightarrow> int \<Rightarrow> js \<Rightarrow> int option" where
  "safe_int_in lo hi v = (case to_num v of
      Num n \<Rightarrow> if safe_integer (Num n) \<and> lo \<le> n \<and> n \<le> hi then Some n else None
    | _ \<Rightarrow> None)"

lemma safe_int_in_Some:
  "safe_int_in lo hi v = Some n \<Longrightarrow> lo \<le> n \<and> n \<le> hi \<and> - max_safe \<le> n \<and> n \<le> max_safe"
  by (auto simp: safe_int_in_def safe_integer_def split: jsnum.splits if_splits)

lemma safe_int_in_JInt [simp]:
  "safe_int_in lo hi (JInt n) =
     (if - max_safe \<le> n \<and> n \<le> max_safe \<and> lo \<le> n \<and> n \<le> hi then Some n else None)"
  by (auto simp: safe_int_in_def safe_integer_def)

end
