(* ===== verification/Json.thy ===== *)
theory Json
  imports JsValue
begin

text \<open>
  \<open>JSON.stringify\<close> and \<open>JSON.parse\<close> of the language's standard library, used by every
  component that keeps JSON text in a database column or a file. The parser runs on fuel;
  \<open>pval_adequate\<close> shows that the fuel given by \<open>json_parse\<close> is never what makes it fail, and
  \<open>json_parse_print\<close> is the round trip the components rely on.
\<close>

section \<open>Printing\<close>

definition hex_digit :: "nat \<Rightarrow> char" where
  "hex_digit d = (if d < 10 then char_of (48 + d) else char_of (87 + d))"

definition esc_char :: "char \<Rightarrow> string" where
  "esc_char c =
     (if c = CHR 0x22 then [CHR 0x5C, CHR 0x22]
      else if c = CHR 0x5C then [CHR 0x5C, CHR 0x5C]
      else if c = CHR 0x08 then [CHR 0x5C, CHR ''b'']
      else if c = CHR 0x0C then [CHR 0x5C, CHR ''f'']
      else if c = CHR 0x0A then [CHR 0x5C, CHR ''n'']
      else if c = CHR 0x0D then [CHR 0x5C, CHR ''r'']
      else if c = CHR 0x09 then [CHR 0x5C, CHR ''t'']
      else if code c < 32
        then [CHR 0x5C, CHR ''u'', CHR ''0'', CHR ''0'', hex_digit (code c div 16), hex_digit (code c mod 16)]
      else [c])"

definition json_quote :: "string \<Rightarrow> string" where
  "json_quote s = CHR 0x22 # concat (map esc_char s) @ [CHR 0x22]"

fun json_print :: "js \<Rightarrow> string" where
  "json_print JUndef = ''null''"
| "json_print JNull = ''null''"
| "json_print (JBool b) = (if b then ''true'' else ''false'')"
| "json_print (JNum n) = (if n = NaN then ''null'' else num_to_str n)"
| "json_print (JStr s) = json_quote s"
| "json_print (JArr xs) = ''['' @ js_join '','' (map json_print xs) @ '']''"
| "json_print (JObj ps) =
     ''{'' @ js_join '',''
        (concat (map (\<lambda>(k, v). if v = JUndef then [] else [json_quote k @ '':'' @ json_print v]) ps)) @ ''}''"

section \<open>Parsing\<close>

definition json_ws :: "char \<Rightarrow> bool" where
  "json_ws c = (code c \<in> {9, 10, 13, 32})"

definition skip_ws :: "string \<Rightarrow> string" where
  "skip_ws s = dropWhile json_ws s"

definition unesc :: "char \<Rightarrow> char option" where
  "unesc e =
     (if e = CHR 0x22 \<or> e = CHR 0x5C \<or> e = CHR ''/'' then Some e
      else if e = CHR ''b'' then Some (CHR 0x08)
      else if e = CHR ''f'' then Some (CHR 0x0C)
      else if e = CHR ''n'' then Some (CHR 0x0A)
      else if e = CHR ''r'' then Some (CHR 0x0D)
      else if e = CHR ''t'' then Some (CHR 0x09)
      else None)"

fun parse_chars :: "string \<Rightarrow> (string \<times> string) option" where
  "parse_chars [] = None"
| "parse_chars (c # cs) =
     (if c = CHR 0x22 then Some ([], cs)
      else if c = CHR 0x5C then
        (case cs of
           [] \<Rightarrow> None
         | e # ds \<Rightarrow>
            (if e = CHR ''u'' then
               (case ds of
                  h1 # h2 # h3 # h4 # r \<Rightarrow>
                   (if h1 = CHR ''0'' \<and> h2 = CHR ''0'' \<and> is_hex_any h3 \<and> is_hex_any h4
                    then (case parse_chars r of
                            None \<Rightarrow> None
                          | Some (x, r') \<Rightarrow> Some (char_of (16 * hex_val h3 + hex_val h4) # x, r'))
                    else None)
                | _ \<Rightarrow> None)
             else (case unesc e of
                     None \<Rightarrow> None
                   | Some d \<Rightarrow> (case parse_chars ds of None \<Rightarrow> None | Some (x, r') \<Rightarrow> Some (d # x, r')))))
      else if code c < 32 then None
      else (case parse_chars cs of None \<Rightarrow> None | Some (x, r') \<Rightarrow> Some (c # x, r')))"

definition parse_frac :: "string \<Rightarrow> string option" where
  "parse_frac r = (case r of
      [] \<Rightarrow> Some []
    | c # t \<Rightarrow> if c = CHR ''.'' then (if takeWhile is_digit t = [] then None else Some (dropWhile is_digit t))
              else Some r)"

definition parse_exp :: "string \<Rightarrow> string option" where
  "parse_exp r = (case r of
      [] \<Rightarrow> Some []
    | c # t \<Rightarrow>
        if c = CHR ''e'' \<or> c = CHR ''E'' then
          (let u = (case t of x # u \<Rightarrow> if x = CHR ''+'' \<or> x = CHR ''-'' then u else t | [] \<Rightarrow> [])
           in if takeWhile is_digit u = [] then None else Some (dropWhile is_digit u))
        else Some r)"

definition parse_number :: "string \<Rightarrow> (jsnum \<times> string) option" where
  "parse_number s0 =
     (let neg = (case s0 of c # _ \<Rightarrow> c = CHR ''-'' | [] \<Rightarrow> False);
          s = (if neg then tl s0 else s0);
          ip = takeWhile is_digit s;
          r1 = dropWhile is_digit s
      in if ip = [] \<or> (hd ip = CHR ''0'' \<and> length ip > 1) then None
         else (case parse_frac r1 of
             None \<Rightarrow> None
           | Some r2 \<Rightarrow> (case parse_exp r2 of
               None \<Rightarrow> None
             | Some r3 \<Rightarrow> Some (decimal_val neg (take (length s - length r3) s), r3))))"

text \<open>A repeated key keeps its first position and takes the last value.\<close>

fun obj_set :: "string \<Rightarrow> js \<Rightarrow> (string \<times> js) list \<Rightarrow> (string \<times> js) list" where
  "obj_set k v [] = [(k, v)]"
| "obj_set k v ((k', v') # ps) = (if k' = k then (k, v) # ps else (k', v') # obj_set k v ps)"

definition mk_obj :: "(string \<times> js) list \<Rightarrow> js" where
  "mk_obj ps = JObj (foldl (\<lambda>acc (k, v). obj_set k v acc) [] ps)"

fun pval :: "nat \<Rightarrow> string \<Rightarrow> (js \<times> string) option"
  and pelems :: "nat \<Rightarrow> string \<Rightarrow> (js list \<times> string) option"
  and pmembers :: "nat \<Rightarrow> string \<Rightarrow> ((string \<times> js) list \<times> string) option" where
  "pval 0 s = None"
| "pval (Suc n) s = (case skip_ws s of
      [] \<Rightarrow> None
    | c # t \<Rightarrow>
       (if c = CHR 0x22 then (case parse_chars t of None \<Rightarrow> None | Some (x, r) \<Rightarrow> Some (JStr x, r))
        else if c = CHR ''['' then
          (case skip_ws t of
             [] \<Rightarrow> None
           | d # r \<Rightarrow> if d = CHR '']'' then Some (JArr [], r)
                     else (case pelems n t of None \<Rightarrow> None | Some (xs, r') \<Rightarrow> Some (JArr xs, r')))
        else if c = CHR ''{'' then
          (case skip_ws t of
             [] \<Rightarrow> None
           | d # r \<Rightarrow> if d = CHR ''}'' then Some (JObj [], r)
                     else (case pmembers n t of None \<Rightarrow> None | Some (ps, r') \<Rightarrow> Some (mk_obj ps, r')))
        else if starts_with ''null'' (c # t) then Some (JNull, drop 3 t)
        else if starts_with ''true'' (c # t) then Some (JBool True, drop 3 t)
        else if starts_with ''false'' (c # t) then Some (JBool False, drop 4 t)
        else (case parse_number (c # t) of None \<Rightarrow> None | Some (x, r) \<Rightarrow> Some (JNum x, r))))"
| "pelems 0 s = None"
| "pelems (Suc n) s = (case pval n s of
      None \<Rightarrow> None
    | Some (v, r) \<Rightarrow> (case skip_ws r of
        [] \<Rightarrow> None
      | c # t \<Rightarrow> (if c = CHR '','' then (case pelems n t of None \<Rightarrow> None | Some (vs, r') \<Rightarrow> Some (v # vs, r'))
                 else if c = CHR '']'' then Some ([v], t)
                 else None)))"
| "pmembers 0 s = None"
| "pmembers (Suc n) s = (case skip_ws s of
      [] \<Rightarrow> None
    | q # s1 \<Rightarrow> (if q \<noteq> CHR 0x22 then None
       else (case parse_chars s1 of
          None \<Rightarrow> None
        | Some (k, s2) \<Rightarrow> (case skip_ws s2 of
            [] \<Rightarrow> None
          | co # s3 \<Rightarrow> (if co \<noteq> CHR '':'' then None
             else (case pval n s3 of
                None \<Rightarrow> None
              | Some (v, s4) \<Rightarrow> (case skip_ws s4 of
                  [] \<Rightarrow> None
                | c # t \<Rightarrow> (if c = CHR '','' then
                               (case pmembers n t of None \<Rightarrow> None | Some (ps, r') \<Rightarrow> Some ((k, v) # ps, r'))
                           else if c = CHR ''}'' then Some ([(k, v)], t)
                           else None))))))))"

definition json_parse :: "string \<Rightarrow> js option" where
  "json_parse s = (case pval (2 * length s + 2) s of
      None \<Rightarrow> None
    | Some (v, r) \<Rightarrow> if skip_ws r = [] then Some v else None)"

section \<open>The fuel is enough\<close>

lemma skip_ws_length: "length (skip_ws s) \<le> length s"
  by (simp add: skip_ws_def length_dropWhile_le)

lemma skip_ws_Cons: "skip_ws s = c # t \<Longrightarrow> length t < length s"
  using skip_ws_length [of s] by simp

lemma parse_chars_length: "parse_chars s = Some (x, r) \<Longrightarrow> length r < length s"
proof (induction s arbitrary: x r rule: parse_chars.induct)
  case (2 c cs)
  then show ?case
    by (fastforce split: if_splits list.splits option.splits prod.splits)
qed simp

lemma parse_frac_length: "parse_frac s = Some r \<Longrightarrow> length r \<le> length s"
  by (auto simp: parse_frac_def length_dropWhile_le le_SucI split: list.splits if_splits)

lemma parse_exp_length: "parse_exp s = Some r \<Longrightarrow> length r \<le> length s"
  by (auto simp: parse_exp_def Let_def length_dropWhile_le le_SucI split: list.splits if_splits
      intro: le_trans [OF length_dropWhile_le])

lemma parse_number_length:
  assumes "parse_number s = Some (x, r)"
  shows "length r < length s"
proof -
  define u where "u = (if (case s of c # _ \<Rightarrow> c = CHR ''-'' | [] \<Rightarrow> False) then tl s else s)"
  have u: "length u \<le> length s" by (auto simp: u_def)
  from assms obtain r2 where ip: "takeWhile is_digit u \<noteq> []"
    and f: "parse_frac (dropWhile is_digit u) = Some r2" and e: "parse_exp r2 = Some r"
    by (auto simp: parse_number_def Let_def u_def [symmetric] split: option.splits if_splits)
  have "length r \<le> length (dropWhile is_digit u)"
    using parse_frac_length [OF f] parse_exp_length [OF e] by linarith
  moreover have "length (dropWhile is_digit u) < length u"
    using ip by (metis length_append length_greater_0_conv less_add_same_cancel2 takeWhile_dropWhile_id)
  ultimately show ?thesis using u by linarith
qed

text \<open>
  A parse that succeeds with some fuel succeeds, with the same result, with any fuel of twice
  the number of characters it consumed.
\<close>

definition fuel_ok :: "(nat \<Rightarrow> string \<Rightarrow> ('a \<times> string) option) \<Rightarrow> string \<Rightarrow> 'a \<Rightarrow> string \<Rightarrow> bool" where
  "fuel_ok p s v r \<longleftrightarrow>
     length r < length s \<and> (\<forall>m. 2 * (length s - length r) \<le> m \<longrightarrow> p m s = Some (v, r))"

lemma fuel_okI:
  assumes "length r < length s"
    and "\<And>k. 2 * (length s - length r) \<le> Suc k \<Longrightarrow> p (Suc k) s = Some (v, r)"
  shows "fuel_ok p s v r"
  unfolding fuel_ok_def
proof (intro conjI allI impI)
  fix m assume m: "2 * (length s - length r) \<le> m"
  with assms(1) obtain k where "m = Suc k" by (cases m) auto
  with assms(2) m show "p m s = Some (v, r)" by simp
qed (rule assms(1))

lemma fuel_okD: "fuel_ok p s v r \<Longrightarrow> 2 * (length s - length r) \<le> m \<Longrightarrow> p m s = Some (v, r)"
  by (simp add: fuel_ok_def)

lemma fuel_ok_length: "fuel_ok p s v r \<Longrightarrow> length r < length s"
  by (simp add: fuel_ok_def)

lemma pval_step:
  assumes ok: "pval (Suc n) s = Some (v, r)"
    and el: "\<And>t vs r'. pelems n t = Some (vs, r') \<Longrightarrow> fuel_ok pelems t vs r'"
    and me: "\<And>t ps r'. pmembers n t = Some (ps, r') \<Longrightarrow> fuel_ok pmembers t ps r'"
  shows "fuel_ok pval s v r"
proof -
  from ok obtain c t where sk: "skip_ws s = c # t" by (auto split: list.splits)
  note lt = skip_ws_Cons [OF sk]
  consider (str) "c = CHR 0x22" | (arr) "c = CHR ''[''" | (obj) "c = CHR ''{''"
    | (other) "c \<noteq> CHR 0x22" "c \<noteq> CHR ''[''" "c \<noteq> CHR ''{''" by blast
  then show ?thesis
  proof cases
    case str
    with ok sk obtain x where p: "parse_chars t = Some (x, r)" "v = JStr x"
      by (auto split: option.splits)
    from parse_chars_length [OF p(1)] lt p str sk show ?thesis by (intro fuel_okI) auto
  next
    case arr
    with ok sk obtain d u where sk2: "skip_ws t = d # u" by (auto split: list.splits)
    note lt2 = skip_ws_Cons [OF sk2]
    show ?thesis
    proof (cases "d = CHR '']''")
      case True
      with ok sk sk2 arr lt lt2 show ?thesis by (intro fuel_okI) auto
    next
      case False
      with ok sk sk2 arr obtain vs where p: "pelems n t = Some (vs, r)" "v = JArr vs"
        by (auto split: option.splits)
      note fe = el [OF p(1)]
      show ?thesis
      proof (rule fuel_okI)
        show "length r < length s" using fuel_ok_length [OF fe] lt by linarith
        fix k assume k: "2 * (length s - length r) \<le> Suc k"
        have "pelems k t = Some (vs, r)" using k fuel_ok_length [OF fe] lt by (auto intro!: fuel_okD [OF fe])
        with p sk sk2 arr False show "pval (Suc k) s = Some (v, r)" by simp
      qed
    qed
  next
    case obj
    with ok sk obtain d u where sk2: "skip_ws t = d # u" by (auto split: list.splits)
    note lt2 = skip_ws_Cons [OF sk2]
    show ?thesis
    proof (cases "d = CHR ''}''")
      case True
      with ok sk sk2 obj lt lt2 show ?thesis by (intro fuel_okI) auto
    next
      case False
      with ok sk sk2 obj obtain ps where p: "pmembers n t = Some (ps, r)" "v = mk_obj ps"
        by (auto split: option.splits)
      note fe = me [OF p(1)]
      show ?thesis
      proof (rule fuel_okI)
        show "length r < length s" using fuel_ok_length [OF fe] lt by linarith
        fix k assume k: "2 * (length s - length r) \<le> Suc k"
        have "pmembers k t = Some (ps, r)" using k fuel_ok_length [OF fe] lt by (auto intro!: fuel_okD [OF fe])
        with p sk sk2 obj False show "pval (Suc k) s = Some (v, r)" by simp
      qed
    qed
  next
    case other
    have eq: "pval (Suc k) s = pval (Suc n) s" for k
      using sk other by simp
    have "length r \<le> length t"
    proof -
      from ok sk other have "length r \<le> length t \<or> (\<exists>x. parse_number (c # t) = Some (x, r))"
        by (auto split: if_splits option.splits)
      then show ?thesis
      proof
        assume "\<exists>x. parse_number (c # t) = Some (x, r)"
        then obtain x where "parse_number (c # t) = Some (x, r)" by blast
        from parse_number_length [OF this] show ?thesis by simp
      qed
    qed
    with lt ok eq show ?thesis by (intro fuel_okI) auto
  qed
qed

lemma pelems_step:
  assumes ok: "pelems (Suc n) s = Some (vs, r)"
    and va: "\<And>t v r'. pval n t = Some (v, r') \<Longrightarrow> fuel_ok pval t v r'"
    and el: "\<And>t vs r'. pelems n t = Some (vs, r') \<Longrightarrow> fuel_ok pelems t vs r'"
  shows "fuel_ok pelems s vs r"
proof -
  from ok obtain v w where v: "pval n s = Some (v, w)" by (auto split: option.splits)
  from ok v obtain c t where sk: "skip_ws w = c # t" by (auto split: list.splits)
  note fv = va [OF v] and lt = skip_ws_Cons [OF sk]
  note lv = fuel_ok_length [OF fv]
  show ?thesis
  proof (cases "c = CHR '',''")
    case True
    with ok v sk obtain us where p: "pelems n t = Some (us, r)" "vs = v # us"
      by (auto split: option.splits)
    note fe = el [OF p(1)]
    show ?thesis
    proof (rule fuel_okI)
      show "length r < length s" using fuel_ok_length [OF fe] lt lv by linarith
      fix k assume k: "2 * (length s - length r) \<le> Suc k"
      have "pval k s = Some (v, w)" "pelems k t = Some (us, r)"
        using k fuel_ok_length [OF fe] lt lv by (auto intro!: fuel_okD [OF fv] fuel_okD [OF fe])
      with sk True p show "pelems (Suc k) s = Some (vs, r)" by simp
    qed
  next
    case False
    with ok v sk have p: "c = CHR '']''" "vs = [v]" "r = t" by (auto split: if_splits)
    show ?thesis
    proof (rule fuel_okI)
      show "length r < length s" using p lt lv by simp
      fix k assume k: "2 * (length s - length r) \<le> Suc k"
      have "pval k s = Some (v, w)" using k p lt lv by (auto intro!: fuel_okD [OF fv])
      with sk p show "pelems (Suc k) s = Some (vs, r)" by simp
    qed
  qed
qed

lemma pmembers_step:
  assumes ok: "pmembers (Suc n) s = Some (ps, r)"
    and va: "\<And>t v r'. pval n t = Some (v, r') \<Longrightarrow> fuel_ok pval t v r'"
    and me: "\<And>t ps r'. pmembers n t = Some (ps, r') \<Longrightarrow> fuel_ok pmembers t ps r'"
  shows "fuel_ok pmembers s ps r"
proof -
  from ok obtain s1 where sk: "skip_ws s = CHR 0x22 # s1" by (auto split: list.splits if_splits)
  from ok sk obtain k s2 where kc: "parse_chars s1 = Some (k, s2)" by (auto split: option.splits)
  from ok sk kc obtain s3 where sk2: "skip_ws s2 = CHR '':'' # s3" by (auto split: list.splits if_splits)
  from ok sk kc sk2 obtain v w where v: "pval n s3 = Some (v, w)" by (auto split: option.splits)
  from ok sk kc sk2 v obtain c t where sk3: "skip_ws w = c # t" by (auto split: list.splits)
  note fv = va [OF v]
  note lens = skip_ws_Cons [OF sk] parse_chars_length [OF kc] skip_ws_Cons [OF sk2]
    fuel_ok_length [OF fv] skip_ws_Cons [OF sk3]
  show ?thesis
  proof (cases "c = CHR '',''")
    case True
    with ok sk kc sk2 v sk3 obtain us where p: "pmembers n t = Some (us, r)" "ps = (k, v) # us"
      by (auto split: option.splits)
    note fe = me [OF p(1)]
    show ?thesis
    proof (rule fuel_okI)
      show "length r < length s" using fuel_ok_length [OF fe] lens by linarith
      fix j assume j: "2 * (length s - length r) \<le> Suc j"
      have "pval j s3 = Some (v, w)" "pmembers j t = Some (us, r)"
        using j fuel_ok_length [OF fe] lens by (auto intro!: fuel_okD [OF fv] fuel_okD [OF fe])
      with sk kc sk2 sk3 True p show "pmembers (Suc j) s = Some (ps, r)" by simp
    qed
  next
    case False
    with ok sk kc sk2 v sk3 have p: "c = CHR ''}''" "ps = [(k, v)]" "r = t"
      by (auto split: if_splits)
    show ?thesis
    proof (rule fuel_okI)
      show "length r < length s" using p lens by simp
      fix j assume j: "2 * (length s - length r) \<le> Suc j"
      have "pval j s3 = Some (v, w)" using j p lens by (auto intro!: fuel_okD [OF fv])
      with sk kc sk2 sk3 p show "pmembers (Suc j) s = Some (ps, r)" by simp
    qed
  qed
qed

lemma parse_adequate:
  "(\<forall>s v r. pval n s = Some (v, r) \<longrightarrow> fuel_ok pval s v r) \<and>
   (\<forall>s vs r. pelems n s = Some (vs, r) \<longrightarrow> fuel_ok pelems s vs r) \<and>
   (\<forall>s ps r. pmembers n s = Some (ps, r) \<longrightarrow> fuel_ok pmembers s ps r)"
proof (induction n)
  case (Suc n)
  then have "pval n s = Some (v, r) \<Longrightarrow> fuel_ok pval s v r"
    and "pelems n s = Some (vs, r) \<Longrightarrow> fuel_ok pelems s vs r"
    and "pmembers n s = Some (ps, r) \<Longrightarrow> fuel_ok pmembers s ps r" for s v vs ps r
    by blast+
  then show ?case using pval_step [of n] pelems_step [of n] pmembers_step [of n] by blast
qed simp

lemma adequate_bound: "2 * (length s - length r) \<le> 2 * length (s::string) + 2"
  for r :: string
  by simp

lemma pval_adequate: "pval n s = Some (v, r) \<Longrightarrow> pval (2 * length s + 2) s = Some (v, r)"
  using parse_adequate [of n] by (blast intro: fuel_okD [where m = "2 * length s + 2"] adequate_bound)

section \<open>Round trip\<close>

fun json_plain :: "js \<Rightarrow> bool" where
  "json_plain JUndef = False"
| "json_plain JNull = True"
| "json_plain (JBool b) = True"
| "json_plain (JNum n) = (case n of Num _ \<Rightarrow> True | _ \<Rightarrow> False)"
| "json_plain (JStr s) = True"
| "json_plain (JArr xs) = list_all json_plain xs"
| "json_plain (JObj ps) = (distinct (map fst ps) \<and> list_all (\<lambda>(k, v). json_plain v) ps)"

definition stops :: "string \<Rightarrow> bool" where
  "stops r = (case r of [] \<Rightarrow> True
     | c # _ \<Rightarrow> \<not> is_digit c \<and> c \<noteq> CHR ''.'' \<and> c \<noteq> CHR ''e'' \<and> c \<noteq> CHR ''E'')"

lemma stops_simps [simp]:
  "stops []" "stops (CHR '','' # r)" "stops (CHR '']'' # r)" "stops (CHR ''}'' # r)"
  by (simp_all add: stops_def is_digit_def)

lemma hex_digit_props: "d < 16 \<Longrightarrow> is_hex_any (hex_digit d) \<and> hex_val (hex_digit d) = d"
  by (auto simp: hex_digit_def is_hex_any_def is_hex_lower_def is_digit_def hex_val_def)

lemma parse_chars_u:
  assumes "is_hex_any a" "is_hex_any b" "char_of (16 * hex_val a + hex_val b) = c"
  shows "parse_chars ([CHR 0x5C, CHR ''u'', CHR ''0'', CHR ''0'', a, b] @ xs) =
     (case parse_chars xs of None \<Rightarrow> None | Some (x, r) \<Rightarrow> Some (c # x, r))"
  using assms by (simp split: option.splits)

lemma parse_chars_esc:
  "parse_chars (esc_char c @ xs) =
     (case parse_chars xs of None \<Rightarrow> None | Some (x, r) \<Rightarrow> Some (c # x, r))"
proof -
  consider (q) "c = CHR 0x22" | (b) "c = CHR 0x5C" | (n) "c = CHR 0x08" | (f) "c = CHR 0x0C"
    | (l) "c = CHR 0x0A" | (r) "c = CHR 0x0D" | (t) "c = CHR 0x09"
    | (ctl) "code c < 32" "c \<noteq> CHR 0x08" "c \<noteq> CHR 0x0C" "c \<noteq> CHR 0x0A" "c \<noteq> CHR 0x0D" "c \<noteq> CHR 0x09"
        "c \<noteq> CHR 0x22" "c \<noteq> CHR 0x5C"
    | (plain) "\<not> code c < 32" "c \<noteq> CHR 0x22" "c \<noteq> CHR 0x5C"
    by blast
  then show ?thesis
  proof cases
    case ctl
    have "code c div 16 < 16" "code c mod 16 < 16" using ctl(1) by auto
    note h = this [THEN hex_digit_props]
    have v: "char_of (16 * hex_val (hex_digit (code c div 16)) + hex_val (hex_digit (code c mod 16))) = c"
      using h by simp
    have e: "esc_char c = [CHR 0x5C, CHR ''u'', CHR ''0'', CHR ''0'',
        hex_digit (code c div 16), hex_digit (code c mod 16)]"
      using ctl by (simp add: esc_char_def)
    from h v show ?thesis unfolding e by (intro parse_chars_u) simp_all
  next
    case plain
    then have "c \<noteq> CHR 0x08" "c \<noteq> CHR 0x0C" "c \<noteq> CHR 0x0A" "c \<noteq> CHR 0x0D" "c \<noteq> CHR 0x09" by auto
    with plain have "esc_char c = [c]" by (simp add: esc_char_def)
    with plain show ?thesis by simp
  qed (simp_all add: esc_char_def unesc_def split: option.splits)
qed

lemma parse_chars_quote: "parse_chars (concat (map esc_char s) @ CHR 0x22 # r) = Some (s, r)"
  by (induction s) (simp_all add: parse_chars_esc)

lemma takeWhile_digits:
  assumes "list_all is_digit ds" "stops r"
  shows "takeWhile is_digit (ds @ r) = ds" "dropWhile is_digit (ds @ r) = r"
proof -
  have d: "\<forall>x \<in> set ds. is_digit x" using assms(1) by (simp add: list_all_iff)
  have "takeWhile is_digit r = []" "dropWhile is_digit r = r"
    using assms(2) by (cases r; simp add: stops_def)+
  with d show "takeWhile is_digit (ds @ r) = ds" "dropWhile is_digit (ds @ r) = r"
    by (simp_all add: takeWhile_append2 dropWhile_append2)
qed

lemma digit_char_zero: "d < 10 \<Longrightarrow> digit_char d = CHR ''0'' \<Longrightarrow> d = 0"
proof -
  assume "d < 10" "digit_char d = CHR ''0''"
  then have "digit_val (digit_char d) = 0" by (simp add: digit_val_def)
  with \<open>d < 10\<close> show "d = 0" by simp
qed

lemma hd_nat_to_str: "hd (nat_to_str n) = CHR ''0'' \<Longrightarrow> n = 0"
proof (induction n rule: nat_to_str.induct)
  case (1 n)
  show ?case
  proof (cases "n < 10")
    case True
    with 1 have "digit_char n = CHR ''0''" by (subst (asm) (2) nat_to_str.simps) simp
    with True show ?thesis by (rule digit_char_zero)
  next
    case False
    then have "nat_to_str n = nat_to_str (n div 10) @ [digit_char (n mod 10)]"
      by (subst nat_to_str.simps) simp
    with 1(2) have "hd (nat_to_str (n div 10)) = CHR ''0''" by simp
    with 1(1) False show ?thesis by simp
  qed
qed

lemma nat_to_str_no_lead: "\<not> (hd (nat_to_str n) = CHR ''0'' \<and> 1 < length (nat_to_str n))"
proof
  assume a: "hd (nat_to_str n) = CHR ''0'' \<and> 1 < length (nat_to_str n)"
  then have "n = 0" using hd_nat_to_str by blast
  with a show False by (simp add: nat_to_str.simps)
qed

lemma hd_nat_to_str_digit: "is_digit (hd (nat_to_str n))"
  using nat_to_str_digits [of n] nat_to_str_nonempty [of n] by (cases "nat_to_str n") auto

lemma decimal_val_nat: "decimal_val neg (nat_to_str n) = Num ((if neg then - 1 else 1) * int n)"
proof -
  have tw: "takeWhile is_digit (nat_to_str n) = nat_to_str n" "dropWhile is_digit (nat_to_str n) = []"
    using nat_to_str_digits [of n] by (simp_all add: list_all_iff)
  show ?thesis unfolding decimal_val_def Let_def tw by (simp add: parse_exponent_def)
qed

lemma parse_number_nat:
  assumes "stops r"
  shows "parse_number (nat_to_str n @ r) = Some (Num (int n), r)"
    and "parse_number (CHR ''-'' # nat_to_str n @ r) = Some (Num (- int n), r)"
proof -
  note tw = takeWhile_digits [OF nat_to_str_digits [of n] assms]
  have fr: "parse_frac r = Some r" "parse_exp r = Some r"
    using assms by (auto simp: parse_frac_def parse_exp_def stops_def split: list.splits)
  obtain c ds where cd: "nat_to_str n = c # ds" using nat_to_str_nonempty by (metis neq_Nil_conv)
  have nd: "c \<noteq> CHR ''-''" using hd_nat_to_str_digit [of n] cd by (auto simp: is_digit_def)
  show "parse_number (nat_to_str n @ r) = Some (Num (int n), r)"
    using tw fr nd nat_to_str_no_lead [of n] cd decimal_val_nat [of False n]
    by (simp add: parse_number_def Let_def)
  show "parse_number (CHR ''-'' # nat_to_str n @ r) = Some (Num (- int n), r)"
    using tw fr nat_to_str_no_lead [of n] cd decimal_val_nat [of True n]
    by (simp add: parse_number_def Let_def)
qed

lemma parse_number_int: "stops r \<Longrightarrow> parse_number (int_to_str n @ r) = Some (Num n, r)"
  using parse_number_nat [of r "nat n"] parse_number_nat [of r "nat (- n)"]
  by (auto simp: int_to_str_def)

lemma obj_set_fresh: "k \<notin> set (map fst ps) \<Longrightarrow> obj_set k v ps = ps @ [(k, v)]"
  by (induction ps) auto

lemma mk_obj_distinct: "distinct (map fst ps) \<Longrightarrow> mk_obj ps = JObj ps"
proof -
  have "distinct (map fst (acc @ ps)) \<Longrightarrow> foldl (\<lambda>acc (k, v). obj_set k v acc) acc ps = acc @ ps" for acc
    by (induction ps arbitrary: acc) (auto simp: obj_set_fresh split: prod.splits)
  from this [of "[]"] show "distinct (map fst ps) \<Longrightarrow> mk_obj ps = JObj ps" by (simp add: mk_obj_def)
qed

lemma skip_ws_id: "\<not> json_ws c \<Longrightarrow> skip_ws (c # t) = c # t"
  by (simp add: skip_ws_def)

lemma int_to_str_hd:
  "\<exists>c t. int_to_str n = c # t \<and> (is_digit c \<or> c = CHR ''-'')"
  using hd_nat_to_str_digit [of "nat n"] nat_to_str_nonempty [of "nat n"]
  by (cases "nat_to_str (nat n)") (auto simp: int_to_str_def)

lemma json_print_hd:
  assumes "json_plain v"
  shows "\<exists>c t. json_print v = c # t \<and> \<not> json_ws c \<and> c \<noteq> CHR '']'' \<and> c \<noteq> CHR ''}''"
proof (cases v)
  case (JNum n)
  with assms obtain k where k: "n = Num k" by (auto split: jsnum.splits)
  from int_to_str_hd [of k] show ?thesis
    using JNum k by (auto simp: json_ws_def is_digit_def)
qed (use assms in \<open>auto simp: json_ws_def json_quote_def\<close>)

lemma fuel_ok_pval: "fuel_ok pval s v r \<longleftrightarrow> (\<exists>n. pval n s = Some (v, r))"
proof
  show "fuel_ok pval s v r \<Longrightarrow> \<exists>n. pval n s = Some (v, r)"
    by (auto simp: fuel_ok_def intro: exI [of _ "2 * length s"])
  assume "\<exists>n. pval n s = Some (v, r)"
  then obtain n where "pval n s = Some (v, r)" ..
  with parse_adequate [of n] show "fuel_ok pval s v r" by simp
qed

lemma fuel_ok_pelems: "fuel_ok pelems s v r \<longleftrightarrow> (\<exists>n. pelems n s = Some (v, r))"
proof
  show "fuel_ok pelems s v r \<Longrightarrow> \<exists>n. pelems n s = Some (v, r)"
    by (auto simp: fuel_ok_def intro: exI [of _ "2 * length s"])
  assume "\<exists>n. pelems n s = Some (v, r)"
  then obtain n where "pelems n s = Some (v, r)" ..
  with parse_adequate [of n] show "fuel_ok pelems s v r" by simp
qed

lemma fuel_ok_pmembers: "fuel_ok pmembers s v r \<longleftrightarrow> (\<exists>n. pmembers n s = Some (v, r))"
proof
  show "fuel_ok pmembers s v r \<Longrightarrow> \<exists>n. pmembers n s = Some (v, r)"
    by (auto simp: fuel_ok_def intro: exI [of _ "2 * length s"])
  assume "\<exists>n. pmembers n s = Some (v, r)"
  then obtain n where "pmembers n s = Some (v, r)" ..
  with parse_adequate [of n] show "fuel_ok pmembers s v r" by simp
qed

lemma fuel_ok_common:
  "fuel_ok p s v r \<Longrightarrow> fuel_ok q t w u \<Longrightarrow> \<exists>n. p n s = Some (v, r) \<and> q n t = Some (w, u)"
  by (rule exI [of _ "2 * length s + 2 * length t"]) (auto simp: fuel_ok_def)

lemma pelems_last:
  assumes "fuel_ok pval s v (CHR '']'' # r)"
  shows "fuel_ok pelems s [v] r"
proof -
  from assms obtain n where "pval n s = Some (v, CHR '']'' # r)" unfolding fuel_ok_pval by blast
  then have "pelems (Suc n) s = Some ([v], r)" by (simp add: skip_ws_id json_ws_def)
  then show ?thesis unfolding fuel_ok_pelems by blast
qed

lemma pelems_more:
  assumes "fuel_ok pval s v (CHR '','' # t)" "fuel_ok pelems t vs r"
  shows "fuel_ok pelems s (v # vs) r"
proof -
  from fuel_ok_common [OF assms] obtain n
    where "pval n s = Some (v, CHR '','' # t)" "pelems n t = Some (vs, r)" by blast
  then have "pelems (Suc n) s = Some (v # vs, r)" by (simp add: skip_ws_id json_ws_def)
  then show ?thesis unfolding fuel_ok_pelems by blast
qed

lemma pmembers_last:
  assumes "fuel_ok pval s v (CHR ''}'' # r)"
  shows "fuel_ok pmembers (json_quote k @ CHR '':'' # s) [(k, v)] r"
proof -
  from assms obtain n where "pval n s = Some (v, CHR ''}'' # r)" unfolding fuel_ok_pval by blast
  then have "pmembers (Suc n) (json_quote k @ CHR '':'' # s) = Some ([(k, v)], r)"
    by (simp add: skip_ws_id json_ws_def json_quote_def parse_chars_quote)
  then show ?thesis unfolding fuel_ok_pmembers by blast
qed

lemma pmembers_more:
  assumes "fuel_ok pval s v (CHR '','' # t)" "fuel_ok pmembers t ps r"
  shows "fuel_ok pmembers (json_quote k @ CHR '':'' # s) ((k, v) # ps) r"
proof -
  from fuel_ok_common [OF assms] obtain n
    where "pval n s = Some (v, CHR '','' # t)" "pmembers n t = Some (ps, r)" by blast
  then have "pmembers (Suc n) (json_quote k @ CHR '':'' # s) = Some ((k, v) # ps, r)"
    by (simp add: skip_ws_id json_ws_def json_quote_def parse_chars_quote)
  then show ?thesis unfolding fuel_ok_pmembers by blast
qed

lemma pelems_print:
  assumes "\<And>v r. v \<in> set vs \<Longrightarrow> stops r \<Longrightarrow> fuel_ok pval (json_print v @ r) v r" and "vs \<noteq> []"
  shows "fuel_ok pelems (js_join '','' (map json_print vs) @ '']'' @ r) vs r"
  using assms
proof (induction vs)
  case (Cons v vs)
  show ?case
  proof (cases vs)
    case Nil
    with Cons.prems show ?thesis by (auto intro!: pelems_last)
  next
    case (Cons w ws)
    let ?rest = "js_join '','' (map json_print vs) @ '']'' @ r"
    have ih: "fuel_ok pelems ?rest vs r" by (rule Cons.IH) (use Cons.prems Cons in auto)
    have "fuel_ok pval (json_print v @ CHR '','' # ?rest) v (CHR '','' # ?rest)"
      by (rule Cons.prems(1)) simp_all
    from pelems_more [OF this ih] Cons show ?thesis by simp
  qed
qed simp

lemma pmembers_print:
  assumes "\<And>k v r. (k, v) \<in> set ps \<Longrightarrow> stops r \<Longrightarrow> fuel_ok pval (json_print v @ r) v r"
    and "ps \<noteq> []"
  shows "fuel_ok pmembers
    (js_join '','' (map (\<lambda>(k, v). json_quote k @ '':'' @ json_print v) ps) @ ''}'' @ r) ps r"
  using assms
proof (induction ps)
  case (Cons p ps)
  obtain k v where p: "p = (k, v)" by (cases p)
  show ?case
  proof (cases ps)
    case Nil
    with Cons.prems p show ?thesis
      using pmembers_last [of "json_print v @ ''}'' @ r" v r k] by simp
  next
    case (Cons q qs)
    have ih: "fuel_ok pmembers
        (js_join '','' (map (\<lambda>(k, v). json_quote k @ '':'' @ json_print v) ps) @ ''}'' @ r) ps r"
      by (rule Cons.IH) (use Cons.prems Cons in auto)
    let ?rest = "js_join '','' (map (\<lambda>(k, v). json_quote k @ '':'' @ json_print v) ps) @ ''}'' @ r"
    have "fuel_ok pval (json_print v @ CHR '','' # ?rest) v (CHR '','' # ?rest)"
      by (rule Cons.prems(1) [of k]) (simp_all add: p)
    from pmembers_more [OF this ih, of k] p Cons show ?thesis by simp
  qed
qed simp

lemma json_members_print:
  assumes "list_all (\<lambda>(k, v). json_plain v) ps"
  shows "concat (map (\<lambda>(k, v). if v = JUndef then [] else [json_quote k @ '':'' @ json_print v]) ps)
       = map (\<lambda>(k, v). json_quote k @ '':'' @ json_print v) ps"
  using assms by (induction ps) auto

lemma number_hd_neq:
  assumes "is_digit c \<or> c = CHR ''-''"
  shows "c \<noteq> CHR 0x22 \<and> c \<noteq> CHR ''['' \<and> c \<noteq> CHR ''{'' \<and> c \<noteq> CHR ''n'' \<and> c \<noteq> CHR ''t'' \<and> c \<noteq> CHR ''f''
    \<and> \<not> json_ws c"
  using assms
proof
  assume "is_digit c"
  then have "48 \<le> code c" "code c \<le> 57" by (simp_all add: is_digit_def)
  then show ?thesis by (auto simp: json_ws_def)
qed (simp add: json_ws_def)

lemma pval_number:
  assumes "parse_number (c # t) = Some (x, r)" "is_digit c \<or> c = CHR ''-''"
  shows "pval (Suc 0) (c # t) = Some (JNum x, r)"
proof -
  note ne = number_hd_neq [OF assms(2)]
  then have "skip_ws (c # t) = c # t" by (simp add: skip_ws_id)
  with assms(1) ne show ?thesis by (simp add: starts_with_def)
qed

theorem pval_print: "json_plain v \<Longrightarrow> stops r \<Longrightarrow> fuel_ok pval (json_print v @ r) v r"
proof (induction v arbitrary: r)
  case (JNum n)
  then obtain k where k: "n = Num k" by (auto split: jsnum.splits)
  from int_to_str_hd [of k] obtain c t where ct: "int_to_str k = c # t" "is_digit c \<or> c = CHR ''-''"
    by blast
  have "pval (Suc 0) (int_to_str k @ r) = Some (JNum (Num k), r)"
    using parse_number_int [OF JNum(2), of k] ct(2) unfolding ct(1) append_Cons by (rule pval_number)
  then have "fuel_ok pval (int_to_str k @ r) (JInt k) r" unfolding fuel_ok_pval by blast
  with k show ?case by simp
next
  case (JStr s)
  have "pval (Suc 0) (json_print (JStr s) @ r) = Some (JStr s, r)"
    by (simp add: json_quote_def skip_ws_id json_ws_def parse_chars_quote)
  then show ?case unfolding fuel_ok_pval by blast
next
  case (JArr vs)
  show ?case
  proof (cases vs)
    case Nil
    have "pval (Suc 0) (json_print (JArr []) @ r) = Some (JArr [], r)" by (simp add: skip_ws_id json_ws_def)
    with Nil show ?thesis unfolding fuel_ok_pval by blast
  next
    case (Cons w ws)
    have el: "fuel_ok pelems (js_join '','' (map json_print vs) @ '']'' @ r) vs r"
      using JArr Cons by (intro pelems_print) (auto simp: list_all_iff)
    from JArr(2) Cons have "json_plain w" by simp
    from json_print_hd [OF this] obtain c t where "json_print w = c # t" "\<not> json_ws c" "c \<noteq> CHR '']''" by blast
    then have hd: "\<exists>u. js_join '','' (map json_print vs) @ '']'' @ r = c # u \<and> \<not> json_ws c \<and> c \<noteq> CHR '']''"
      using Cons by (cases ws) auto
    from el obtain n where "pelems n (js_join '','' (map json_print vs) @ '']'' @ r) = Some (vs, r)"
      by (auto simp: fuel_ok_pelems)
    with hd have "pval (Suc n) (json_print (JArr vs) @ r) = Some (JArr vs, r)"
      by (auto simp: skip_ws_id json_ws_def)
    then show ?thesis unfolding fuel_ok_pval by blast
  qed
next
  case (JObj ps)
  have pl: "list_all (\<lambda>(k, v). json_plain v) ps" and di: "distinct (map fst ps)" using JObj(2) by auto
  show ?case
  proof (cases ps)
    case Nil
    have "pval (Suc 0) (json_print (JObj []) @ r) = Some (JObj [], r)" by (simp add: skip_ws_id json_ws_def)
    with Nil show ?thesis unfolding fuel_ok_pval by blast
  next
    case (Cons q qs)
    let ?m = "js_join '','' (map (\<lambda>(k, v). json_quote k @ '':'' @ json_print v) ps) @ ''}'' @ r"
    have "fuel_ok pmembers ?m ps r"
    proof (rule pmembers_print)
      fix k v r' assume kv: "(k, v) \<in> set ps" and st: "stops r'"
      from pl kv have "json_plain v" by (auto simp: list_all_iff)
      from JObj(1) [OF kv _ this st] show "fuel_ok pval (json_print v @ r') v r'" by simp
    qed (use Cons in simp)
    then obtain n where "pmembers n ?m = Some (ps, r)" by (auto simp: fuel_ok_pmembers)
    moreover have "\<exists>u. ?m = CHR 0x22 # u"
      using Cons by (cases qs) (auto simp: json_quote_def split: prod.splits)
    ultimately have "pval (Suc n) (json_print (JObj ps) @ r) = Some (JObj ps, r)"
      using mk_obj_distinct [OF di]
      by (auto simp: skip_ws_id json_ws_def json_members_print [OF pl])
    then show ?thesis unfolding fuel_ok_pval by blast
  qed
next
  case (JBool b)
  have "pval (Suc 0) (json_print (JBool b) @ r) = Some (JBool b, r)"
    by (simp add: skip_ws_id json_ws_def starts_with_def)
  then show ?case unfolding fuel_ok_pval by blast
next
  case JNull
  have "pval (Suc 0) (json_print JNull @ r) = Some (JNull, r)"
    by (simp add: skip_ws_id json_ws_def starts_with_def)
  then show ?case unfolding fuel_ok_pval by blast
qed simp

theorem json_parse_print: "json_plain v \<Longrightarrow> json_parse (json_print v) = Some v"
  using fuel_okD [OF pval_print [of v "[]"], of "2 * length (json_print v) + 2"]
  by (simp add: json_parse_def skip_ws_def)

end
