(* ===== verification/Permissions.thy ===== *)
theory Permissions
  imports Json
begin

text \<open>
  Portal roles and permissions: \<open>src/auth/portal-permissions.ts\<close>. A role is ordered by what it
  may do, so the library's order applies to it; \<open>resolvePortalRole\<close> reads a role assignment
  from JSON text.
\<close>

section \<open>Roles and permissions\<close>

datatype portal_role = Viewer | Operator | Admin

datatype portal_permission =
    DirectoryRead
  | FreeipaWrite
  | FreeipaDelete
  | XyopsRun
  | XyopsApprove
  | SettingsManage
  | BackupExport
  | BackupExportEncrypted
  | BackupRestorePreview
  | BackupRestoreTest
  | BackupRestorePrepare
  | BackupRestoreCommit
  | BackupRestoreCancel
  | MaintenanceManage

definition portalRoles :: "portal_role list" where
  "portalRoles = [Viewer, Operator, Admin]"

definition portalPermissionOrder :: "portal_permission list" where
  "portalPermissionOrder =
     [DirectoryRead, FreeipaWrite, FreeipaDelete, XyopsRun, XyopsApprove, SettingsManage,
      BackupExport, BackupExportEncrypted, BackupRestorePreview, BackupRestoreTest,
      BackupRestorePrepare, BackupRestoreCommit, BackupRestoreCancel, MaintenanceManage]"

fun portalRolePermissions :: "portal_role \<Rightarrow> portal_permission list" where
  "portalRolePermissions Viewer = [DirectoryRead]"
| "portalRolePermissions Operator = [DirectoryRead, FreeipaWrite, XyopsRun]"
| "portalRolePermissions Admin =
     [DirectoryRead, FreeipaWrite, FreeipaDelete, XyopsRun, XyopsApprove, SettingsManage,
      BackupExport, BackupExportEncrypted, BackupRestorePreview, BackupRestoreTest,
      BackupRestorePrepare, BackupRestoreCommit, BackupRestoreCancel, MaintenanceManage]"

datatype permission_scope = ScopePortal | ScopeFreeIPA | ScopeXYOps

text \<open>The scope of a permission; its titles are display text and are not modelled.\<close>

fun permissionScope :: "portal_permission \<Rightarrow> permission_scope" where
  "permissionScope FreeipaWrite = ScopeFreeIPA"
| "permissionScope FreeipaDelete = ScopeFreeIPA"
| "permissionScope XyopsRun = ScopeXYOps"
| "permissionScope XyopsApprove = ScopeXYOps"
| "permissionScope _ = ScopePortal"

definition roleHasPermission :: "portal_role \<Rightarrow> portal_permission \<Rightarrow> bool" where
  "roleHasPermission role permission = (permission \<in> set (portalRolePermissions role))"

subsection \<open>The order of roles\<close>

fun role_rank :: "portal_role \<Rightarrow> nat" where
  "role_rank Viewer = 0"
| "role_rank Operator = 1"
| "role_rank Admin = 2"

lemma role_rank_inject [simp]: "role_rank a = role_rank b \<longleftrightarrow> a = b"
  by (cases a; cases b) auto

instantiation portal_role :: linorder
begin

definition less_eq_portal_role :: "portal_role \<Rightarrow> portal_role \<Rightarrow> bool" where
  "a \<le> b \<longleftrightarrow> role_rank a \<le> role_rank b"

definition less_portal_role :: "portal_role \<Rightarrow> portal_role \<Rightarrow> bool" where
  "a < b \<longleftrightarrow> role_rank a < role_rank b"

instance
  by standard (auto simp: less_eq_portal_role_def less_portal_role_def)

end

lemma role_cases_le: "a \<le> b \<longleftrightarrow> a = Viewer \<or> b = Admin \<or> a = b" for a b :: portal_role
  by (cases a; cases b) (auto simp: less_eq_portal_role_def)

lemma permissions_mono: "a \<le> b \<Longrightarrow> set (portalRolePermissions a) \<subseteq> set (portalRolePermissions b)"
  by (cases a; cases b) (auto simp: less_eq_portal_role_def)

text \<open>
  The interface a client of the permission table relies on: a larger role can do whatever a
  smaller one can, and the largest role can do everything.
\<close>

locale graded_access =
  fixes grants :: "'r::linorder \<Rightarrow> 'p \<Rightarrow> bool"
    and top_role :: 'r
  assumes grants_mono: "a \<le> b \<Longrightarrow> grants a p \<Longrightarrow> grants b p"
    and top_grants: "grants top_role p"
    and top_greatest: "a \<le> top_role"
begin

definition all_granted :: "'r \<Rightarrow> 'p list \<Rightarrow> bool" where
  "all_granted r ps = list_all (grants r) ps"

lemma all_granted_mono: "a \<le> b \<Longrightarrow> all_granted a ps \<Longrightarrow> all_granted b ps"
  by (auto simp: all_granted_def list_all_iff intro: grants_mono)

lemma top_all_granted: "all_granted top_role ps"
  by (simp add: all_granted_def list_all_iff top_grants)

lemma denied_mono: "a \<le> b \<Longrightarrow> \<not> grants b p \<Longrightarrow> \<not> grants a p"
  by (blast intro: grants_mono)

end

interpretation roles: graded_access roleHasPermission Admin
proof
  show "roleHasPermission b p" if "a \<le> b" "roleHasPermission a p" for a b p
    using that permissions_mono by (auto simp: roleHasPermission_def)
  show "roleHasPermission Admin p" for p
    by (cases p) (auto simp: roleHasPermission_def)
  show "a \<le> Admin" for a
    by (simp add: role_cases_le)
qed

section \<open>Reading a role\<close>

definition parse_role :: "string \<Rightarrow> portal_role option" where
  "parse_role s = (if s = ''viewer'' then Some Viewer else if s = ''operator'' then Some Operator
     else if s = ''admin'' then Some Admin else None)"

fun role_name :: "portal_role \<Rightarrow> string" where
  "role_name Viewer = ''viewer''"
| "role_name Operator = ''operator''"
| "role_name Admin = ''admin''"

text \<open>\<open>isPortalRole\<close> with the role it recognises.\<close>

definition isPortalRole :: "js \<Rightarrow> portal_role option" where
  "isPortalRole v = (case v of JStr s \<Rightarrow> parse_role s | _ \<Rightarrow> None)"

lemma parse_role_name [simp]: "parse_role (role_name r) = Some r"
  by (cases r) (auto simp: parse_role_def)

lemma parse_role_Some: "parse_role s = Some r \<longleftrightarrow> s = role_name r"
  by (cases r) (auto simp: parse_role_def)

definition normalize_key :: "string \<Rightarrow> string" where
  "normalize_key s = js_lower (js_trim s)"

text \<open>\<open>Object.fromEntries\<close>: a later entry with the same key replaces the value.\<close>

definition normalized_assignments :: "(string \<times> js) list \<Rightarrow> js" where
  "normalized_assignments ps = mk_obj (map (\<lambda>(k, v). (normalize_key k, v)) ps)"

definition resolvePortalRole :: "string \<Rightarrow> js \<Rightarrow> string option \<Rightarrow> portal_role \<Rightarrow> portal_role" where
  "resolvePortalRole identity defaultRole assignmentsJson fallbackRole =
     (let normalizedDefault = normalize_key (to_str (coalesce defaultRole (JStr [])));
          role = (case parse_role normalizedDefault of Some r \<Rightarrow> r | None \<Rightarrow> fallbackRole)
      in (case assignmentsJson of
            None \<Rightarrow> role
          | Some text \<Rightarrow>
             (if text = [] then role
              else (case json_parse text of
                  Some (JObj ps) \<Rightarrow>
                    (let normalized = normalized_assignments ps in
                     case isPortalRole (jget normalized (normalize_key identity)) of
                       Some r \<Rightarrow> r
                     | None \<Rightarrow> (case isPortalRole (jget normalized ''*'') of Some r \<Rightarrow> r | None \<Rightarrow> role))
                | _ \<Rightarrow> role))))"

section \<open>Lemmas\<close>

text \<open>What a key of the normalised assignments reads: the last entry whose key normalises to it.\<close>

lemma map_of_obj_set: "map_of (obj_set k v ps) x = (if x = k then Some v else map_of ps x)"
  by (induction ps) auto

lemma map_of_foldl_obj_set:
  "map_of (foldl (\<lambda>acc (k, v). obj_set k v acc) acc ps) x =
     (case map_of (rev ps) x of Some v \<Rightarrow> Some v | None \<Rightarrow> map_of acc x)"
  by (induction ps arbitrary: acc) (auto simp: map_of_obj_set map_add_def split: option.splits)

lemma jget_mk_obj: "jget (mk_obj ps) x = (case map_of (rev ps) x of Some v \<Rightarrow> v | None \<Rightarrow> JUndef)"
  by (simp add: mk_obj_def map_of_foldl_obj_set split: option.splits)

lemma jget_normalized:
  "jget (normalized_assignments ps) x =
     (case find (\<lambda>(k, v). normalize_key k = x) (rev ps) of Some (k, v) \<Rightarrow> v | None \<Rightarrow> JUndef)"
proof -
  have "map_of (map (\<lambda>(k, v). (normalize_key k, v)) qs) x =
      map_option snd (find (\<lambda>(k, v). normalize_key k = x) qs)" for qs
    by (induction qs) auto
  from this [of "rev ps"] show ?thesis
    by (auto simp: normalized_assignments_def jget_mk_obj rev_map split: option.splits)
qed

lemma isPortalRole_undef [simp]: "isPortalRole JUndef = None"
  by (simp add: isPortalRole_def)

text \<open>The role the assignments give to an identity, if they give one.\<close>

definition assigned_role :: "(string \<times> js) list \<Rightarrow> string \<Rightarrow> portal_role option" where
  "assigned_role ps x =
     (case find (\<lambda>(k, v). normalize_key k = x) (rev ps) of Some (k, v) \<Rightarrow> isPortalRole v | None \<Rightarrow> None)"

lemma resolvePortalRole_assigned:
  assumes "json_parse text = Some (JObj ps)" "text \<noteq> []"
  shows "resolvePortalRole identity d (Some text) f =
     (case assigned_role ps (normalize_key identity) of
        Some r \<Rightarrow> r
      | None \<Rightarrow> (case assigned_role ps ''*'' of
          Some r \<Rightarrow> r
        | None \<Rightarrow> resolvePortalRole identity d None f))"
  using assms
  by (auto simp: resolvePortalRole_def jget_normalized assigned_role_def Let_def split: option.splits)

end
