(* ===== verification/JsSort.thy ===== *)
theory JsSort
  imports JsValue "HOL-Library.Multiset"
begin

text \<open>
  \<open>Array.prototype.sort\<close> with a comparison function. The language requires the sort to be
  stable; \<open>js_sort\<close> is the stable insertion sort. The locale \<open>comparator\<close> is the interface
  a comparison function has to meet; the components interpret it on the source's comparison
  functions and obtain that their sort is an ordered, stable rearrangement.
\<close>

fun insert_by :: "('a \<Rightarrow> 'a \<Rightarrow> int) \<Rightarrow> 'a \<Rightarrow> 'a list \<Rightarrow> 'a list" where
  "insert_by cmp x [] = [x]"
| "insert_by cmp x (y # ys) = (if cmp x y \<le> 0 then x # y # ys else y # insert_by cmp x ys)"

fun js_sort :: "('a \<Rightarrow> 'a \<Rightarrow> int) \<Rightarrow> 'a list \<Rightarrow> 'a list" where
  "js_sort cmp [] = []"
| "js_sort cmp (x # xs) = insert_by cmp x (js_sort cmp xs)"

lemma mset_insert_by [simp]: "mset (insert_by cmp x ys) = add_mset x (mset ys)"
  by (induction ys) auto

lemma mset_js_sort [simp]: "mset (js_sort cmp xs) = mset xs"
  by (induction xs) auto

lemma set_insert_by [simp]: "set (insert_by cmp x ys) = insert x (set ys)"
  by (induction ys) auto

lemma set_js_sort [simp]: "set (js_sort cmp xs) = set xs"
  by (induction xs) auto

lemma length_js_sort [simp]: "length (js_sort cmp xs) = length xs"
  by (metis mset_js_sort size_mset)

locale comparator =
  fixes cmp :: "'a \<Rightarrow> 'a \<Rightarrow> int"
  assumes cmp_swap: "cmp x y < 0 \<longleftrightarrow> 0 < cmp y x"
    and cmp_trans: "cmp x y \<le> 0 \<Longrightarrow> cmp y z \<le> 0 \<Longrightarrow> cmp x z \<le> 0"
begin

abbreviation ordered :: "'a list \<Rightarrow> bool" where
  "ordered \<equiv> sorted_wrt (\<lambda>x y. cmp x y \<le> 0)"

lemma cmp_refl: "cmp x x = 0"
  using cmp_swap [of x x] by linarith

lemma cmp_total: "cmp x y \<le> 0 \<or> cmp y x \<le> 0"
  using cmp_swap [of y x] by linarith

lemma ordered_insert_by: "ordered ys \<Longrightarrow> ordered (insert_by cmp x ys)"
proof (induction ys)
  case (Cons y ys)
  show ?case
  proof (cases "cmp x y \<le> 0")
    case True
    with Cons.prems show ?thesis by (auto intro: cmp_trans)
  next
    case False
    with Cons cmp_total [of x y] show ?thesis by auto
  qed
qed simp

lemma ordered_js_sort: "ordered (js_sort cmp xs)"
  by (induction xs) (auto intro: ordered_insert_by)

lemma filter_insert_by:
  "ordered ys \<Longrightarrow>
   filter (\<lambda>z. cmp a z = 0) (insert_by cmp x ys) = filter (\<lambda>z. cmp a z = 0) (x # ys)"
proof (induction ys)
  case (Cons y ys)
  show ?case
  proof (cases "cmp x y \<le> 0")
    case False
    then have pos: "0 < cmp x y" by simp
    have "\<not> (cmp a x = 0 \<and> cmp a y = 0)"
    proof
      assume e: "cmp a x = 0 \<and> cmp a y = 0"
      then have "cmp x a \<le> 0" using cmp_swap [of a x] by linarith
      with e cmp_trans [of x a y] pos show False by linarith
    qed
    with Cons False show ?thesis by auto
  qed simp
qed simp

lemma insert_by_first: "(\<And>y. y \<in> set ys \<Longrightarrow> cmp x y \<le> 0) \<Longrightarrow> insert_by cmp x ys = x # ys"
  by (cases ys) auto

lemma js_sort_ordered: "ordered xs \<Longrightarrow> js_sort cmp xs = xs"
  by (induction xs) (auto simp: insert_by_first)

lemma js_sort_idem: "js_sort cmp (js_sort cmp xs) = js_sort cmp xs"
  by (rule js_sort_ordered) (rule ordered_js_sort)

text \<open>Elements the comparison cannot tell apart keep their order.\<close>

lemma stable_js_sort: "filter (\<lambda>z. cmp a z = 0) (js_sort cmp xs) = filter (\<lambda>z. cmp a z = 0) xs"
  by (induction xs) (auto simp: filter_insert_by [OF ordered_js_sort])

text \<open>The first element of the sorted list that satisfies \<open>P\<close> is minimal among those that do.\<close>

lemma find_js_sort_least:
  assumes "find P (js_sort cmp xs) = Some x" and "y \<in> set xs" and "P y"
  shows "cmp x y \<le> 0"
proof -
  from assms(1) obtain i where i: "i < length (js_sort cmp xs)" "js_sort cmp xs ! i = x"
    and before: "\<forall>j<i. \<not> P (js_sort cmp xs ! j)"
    by (auto simp: find_Some_iff)
  from assms(2) obtain j where j: "j < length (js_sort cmp xs)" "js_sort cmp xs ! j = y"
    by (metis in_set_conv_nth set_js_sort)
  show ?thesis
  proof (cases "i < j")
    case True
    with ordered_js_sort [of xs] i j show ?thesis by (auto simp: sorted_wrt_iff_nth_less)
  next
    case False
    with before assms(3) j have "i = j" by (metis linorder_neqE_nat)
    with i j cmp_refl show ?thesis by simp
  qed
qed

end

text \<open>A lexicographic comparison: the second one decides ties of the first.\<close>

definition cmp_then :: "('a \<Rightarrow> 'a \<Rightarrow> int) \<Rightarrow> ('a \<Rightarrow> 'a \<Rightarrow> int) \<Rightarrow> 'a \<Rightarrow> 'a \<Rightarrow> int" where
  "cmp_then c d x y = (if c x y \<noteq> 0 then c x y else d x y)"

lemma comparator_cmp_then:
  assumes "comparator c" "comparator d"
  shows "comparator (cmp_then c d)"
proof -
  note cs = comparator.cmp_swap [OF assms(1)] and ct = comparator.cmp_trans [OF assms(1)]
  note ds = comparator.cmp_swap [OF assms(2)] and dt = comparator.cmp_trans [OF assms(2)]
  have zero: "c x y = 0 \<longleftrightarrow> c y x = 0" for x y
    using cs [of x y] cs [of y x] by linarith
  show ?thesis
  proof
    show "cmp_then c d x y < 0 \<longleftrightarrow> 0 < cmp_then c d y x" for x y
      using cs [of x y] ds [of x y] zero [of x y] by (auto simp: cmp_then_def)
  next
    fix x y z
    assume a: "cmp_then c d x y \<le> 0" "cmp_then c d y z \<le> 0"
    then have le: "c x y \<le> 0" "c y z \<le> 0"
      by (auto simp: cmp_then_def split: if_splits)
    from ct [OF le] have xz: "c x z \<le> 0" .
    show "cmp_then c d x z \<le> 0"
    proof (cases "c x z = 0")
      case False
      with xz show ?thesis by (simp add: cmp_then_def)
    next
      case True
      then have zx: "c z x \<le> 0" using zero [of x z] by simp
      have "c y x \<le> 0" using ct [OF le(2) zx] .
      then have "c x y = 0" using le(1) cs [of x y] by linarith
      moreover have "c z y \<le> 0" using ct [OF zx le(1)] .
      then have "c y z = 0" using le(2) cs [of y z] by linarith
      ultimately show ?thesis using a True dt by (auto simp: cmp_then_def)
    qed
  qed
qed

lemma comparator_by_key: "comparator (\<lambda>x y. f x - f y :: int)"
  by unfold_locales auto

lemma comparator_by_key_desc: "comparator (\<lambda>x y. f y - f x :: int)"
  by unfold_locales auto

text \<open>The default order of \<open>sort()\<close> without a comparison function: by code units.\<close>

fun str_cmp :: "string \<Rightarrow> string \<Rightarrow> int" where
  "str_cmp [] [] = 0"
| "str_cmp [] (d # ds) = - 1"
| "str_cmp (c # cs) [] = 1"
| "str_cmp (c # cs) (d # ds) =
     (if code c < code d then - 1 else if code d < code c then 1 else str_cmp cs ds)"

lemma str_cmp_swap: "str_cmp x y = - str_cmp y x"
proof (induction x y rule: str_cmp.induct)
  case (4 c cs d ds)
  consider "code c < code d" | "code d < code c" | "code c = code d" by linarith
  then show ?case using 4 by cases (simp_all del: of_char_eq_iff)
qed simp_all

lemma str_cmp_step: "str_cmp (c # cs) (d # ds) \<le> 0 \<longleftrightarrow>
    code c < code d \<or> (code c = code d \<and> str_cmp cs ds \<le> 0)"
  by (simp del: of_char_eq_iff)

lemma str_cmp_trans: "str_cmp x y \<le> 0 \<Longrightarrow> str_cmp y z \<le> 0 \<Longrightarrow> str_cmp x z \<le> 0"
proof (induction x arbitrary: y z)
  case Nil
  then show ?case by (cases z) simp_all
next
  case (Cons c cs)
  from Cons.prems(1) obtain d ds where y: "y = d # ds" by (cases y) auto
  from Cons.prems(2) y obtain e es where z: "z = e # es" by (cases z) auto
  have 1: "code c < code d \<or> (code c = code d \<and> str_cmp cs ds \<le> 0)"
    using Cons.prems(1) unfolding y str_cmp_step .
  have 2: "code d < code e \<or> (code d = code e \<and> str_cmp ds es \<le> 0)"
    using Cons.prems(2) unfolding y z str_cmp_step .
  have "code c < code e \<or> (code c = code e \<and> str_cmp cs es \<le> 0)"
    using 1 2 Cons.IH [of ds es] by (metis less_trans)
  then show ?case unfolding z str_cmp_step .
qed

interpretation code_units: comparator str_cmp
proof
  show "str_cmp x y < 0 \<longleftrightarrow> 0 < str_cmp y x" for x y
    using str_cmp_swap [of x y] by linarith
qed (rule str_cmp_trans)

definition sort_strings :: "string list \<Rightarrow> string list" where
  "sort_strings xs = js_sort str_cmp xs"

lemma set_sort_strings [simp]: "set (sort_strings xs) = set xs"
  by (simp add: sort_strings_def)

lemma distinct_sort_strings [simp]: "distinct (sort_strings xs) = distinct xs"
  unfolding sort_strings_def by (metis mset_js_sort mset_eq_imp_distinct_iff)

lemma length_sort_strings [simp]: "length (sort_strings xs) = length xs"
  by (simp add: sort_strings_def)

lemma sort_strings_idem [simp]: "sort_strings (sort_strings xs) = sort_strings xs"
  by (simp add: sort_strings_def code_units.js_sort_idem)

text \<open>Sorting the entries of an object by key sorts its keys.\<close>

lemma map_fst_insert_by:
  "map fst (insert_by (\<lambda>a b. str_cmp (fst a) (fst b)) x ys) = insert_by str_cmp (fst x) (map fst ys)"
  by (induction ys) auto

lemma map_fst_js_sort:
  "map fst (js_sort (\<lambda>a b. str_cmp (fst a) (fst b)) ps) = sort_strings (map fst ps)"
  by (induction ps) (auto simp: sort_strings_def map_fst_insert_by)

end
