(* ===== verification/RouteContract.thy ===== *)
theory RouteContract
  imports Permissions JsSort "HOL-Library.AList"
begin

text \<open>
  The route registry of the portal and its router: \<open>src/auth/portal-route-contract.ts\<close>,
  \<open>src/auth/portal-route-router.ts\<close> and \<open>src/auth/portal-route-security-plan.ts\<close>.
  \<open>portalRouteContracts\<close> is the table, in the source's order; \<open>matchPortalRoute\<close> compiles it,
  sorts it by specificity and takes the first match; \<open>portalRouteSecurityPlan\<close> is the list of
  middleware stages a route asks for.
\<close>

section \<open>The contract table\<close>

datatype route_method = GET | POST | PUT | DELETE

datatype auth_boundary = Public | LocalSession | AdminSession | ServiceAdmin | AdminOrServiceAdmin

datatype route_mutation = Read | Mutation

record route_contract =
  rc_id :: string
  rc_method :: route_method
  rc_path :: string
  rc_owner :: string
  rc_auth :: auth_boundary
  rc_permission :: "portal_permission option"
  rc_conditionalPermissions :: "portal_permission list"
  rc_requiresAdmin :: bool
  rc_mutation :: route_mutation
  rc_sameOrigin :: bool

definition mk_route :: "string \<Rightarrow> route_method \<Rightarrow> string \<Rightarrow> string \<Rightarrow> auth_boundary \<Rightarrow> portal_permission option \<Rightarrow>
    portal_permission list \<Rightarrow> bool \<Rightarrow> route_mutation \<Rightarrow> bool \<Rightarrow> route_contract" where
  "mk_route i m p w a pm cp adm mu so =
     \<lparr>rc_id = i, rc_method = m, rc_path = p, rc_owner = w, rc_auth = a, rc_permission = pm,
      rc_conditionalPermissions = cp, rc_requiresAdmin = adm, rc_mutation = mu, rc_sameOrigin = so\<rparr>"

definition portalRouteContracts :: "route_contract list" where
  "portalRouteContracts = [
  mk_route ''health.live'' GET ''/health/live'' ''worker/health-contracts.ts''
    Public None [] False Read False,
  mk_route ''health.ready'' GET ''/health/ready'' ''worker/health-contracts.ts''
    Public None [] False Read False,
  mk_route ''integration.health.compat'' GET ''/api/integrations/health'' ''worker/health-contracts.ts''
    Public None [] False Read False,
  mk_route ''schema.status'' GET ''/api/schema/status'' ''worker/schema-migrations-entry.ts''
    ServiceAdmin None [] False Read False,
  mk_route ''auth.session'' GET ''/api/auth/session'' ''worker/local-secure-entry.ts''
    Public None [] False Read False,
  mk_route ''auth.login'' POST ''/api/auth/login'' ''worker/local-secure-entry.ts''
    Public None [] False Mutation False,
  mk_route ''auth.logout'' POST ''/api/auth/logout'' ''worker/local-secure-entry.ts''
    LocalSession None [] False Mutation True,
  mk_route ''auth.users.list'' GET ''/api/auth/users'' ''worker/local-secure-entry.ts''
    AdminSession None [] False Read False,
  mk_route ''auth.users.create'' POST ''/api/auth/users'' ''worker/local-secure-entry.ts''
    AdminSession None [] False Mutation True,
  mk_route ''auth.users.update'' PUT ''/api/auth/users/:userId'' ''worker/local-secure-entry.ts''
    AdminSession None [] False Mutation True,
  mk_route ''auth.users.delete'' DELETE ''/api/auth/users/:userId'' ''worker/local-secure-entry.ts''
    AdminSession None [] False Mutation True,
  mk_route ''auth.users.password-reset'' POST ''/api/auth/users/:userId/password'' ''worker/local-secure-entry.ts''
    AdminSession None [] False Mutation True,
  mk_route ''auth.users.sessions-revoke'' DELETE ''/api/auth/users/:userId/sessions'' ''worker/local-secure-entry.ts''
    AdminSession None [] False Mutation True,
  mk_route ''settings.read'' GET ''/api/integrations/settings'' ''worker/settings-http.ts''
    AdminOrServiceAdmin (Some SettingsManage) [] False Read False,
  mk_route ''settings.update'' PUT ''/api/integrations/settings'' ''worker/settings-http.ts''
    AdminOrServiceAdmin (Some SettingsManage) [] False Mutation True,
  mk_route ''settings.test'' POST ''/api/integrations/settings/test'' ''worker/settings-http.ts''
    AdminOrServiceAdmin (Some SettingsManage) [] False Mutation True,
  mk_route ''settings.effective'' GET ''/api/integrations/settings/effective'' ''worker/settings-lifecycle-entry.ts''
    AdminOrServiceAdmin (Some SettingsManage) [] False Read False,
  mk_route ''settings.drafts.create'' POST ''/api/integrations/settings/drafts'' ''worker/settings-lifecycle-entry.ts''
    AdminOrServiceAdmin (Some SettingsManage) [] False Mutation True,
  mk_route ''settings.drafts.read'' GET ''/api/integrations/settings/drafts/:draftId'' ''worker/settings-lifecycle-entry.ts''
    AdminOrServiceAdmin (Some SettingsManage) [] False Read False,
  mk_route ''settings.drafts.validate'' POST ''/api/integrations/settings/drafts/:draftId/validate'' ''worker/settings-lifecycle-entry.ts''
    AdminOrServiceAdmin (Some SettingsManage) [] False Mutation True,
  mk_route ''settings.drafts.apply'' POST ''/api/integrations/settings/drafts/:draftId/apply'' ''worker/settings-lifecycle-entry.ts''
    AdminOrServiceAdmin (Some SettingsManage) [] False Mutation True,
  mk_route ''settings.drafts.cancel'' POST ''/api/integrations/settings/drafts/:draftId/cancel'' ''worker/settings-lifecycle-entry.ts''
    AdminOrServiceAdmin (Some SettingsManage) [] False Mutation True,
  mk_route ''settings.revisions.list'' GET ''/api/integrations/settings/revisions'' ''worker/settings-lifecycle-entry.ts''
    AdminOrServiceAdmin (Some SettingsManage) [] False Read False,
  mk_route ''settings.revisions.read'' GET ''/api/integrations/settings/revisions/:revision'' ''worker/settings-lifecycle-entry.ts''
    AdminOrServiceAdmin (Some SettingsManage) [] False Read False,
  mk_route ''freeipa.users.list'' GET ''/api/integrations/users'' ''worker/freeipa-http-entry.ts''
    LocalSession (Some DirectoryRead) [] False Read False,
  mk_route ''freeipa.users.export'' GET ''/api/integrations/users/export.csv'' ''worker/freeipa-http-entry.ts''
    LocalSession (Some DirectoryRead) [] False Read False,
  mk_route ''freeipa.groups.list'' GET ''/api/integrations/groups'' ''worker/freeipa-http-entry.ts''
    LocalSession (Some DirectoryRead) [] False Read False,
  mk_route ''freeipa.groups.members'' GET ''/api/integrations/groups/members'' ''worker/freeipa-http-entry.ts''
    LocalSession (Some DirectoryRead) [] False Read False,
  mk_route ''freeipa.actions'' POST ''/api/integrations/freeipa/actions'' ''worker/freeipa-http-entry.ts''
    LocalSession (Some FreeipaWrite) [FreeipaDelete] False Mutation False,
  mk_route ''freeipa.bulk'' POST ''/api/integrations/freeipa/bulk'' ''worker/freeipa-http-entry.ts''
    LocalSession (Some FreeipaWrite) [] False Mutation False,
  mk_route ''integration.status'' GET ''/api/integrations/status'' ''worker/integration-status-http.ts''
    LocalSession None [] False Read False,
  mk_route ''integration.audit'' GET ''/api/integrations/audit'' ''worker/integration-audit-http.ts''
    AdminOrServiceAdmin (Some SettingsManage) [] False Read False,
  mk_route ''xyops.catalog.read'' GET ''/api/integrations/catalog'' ''worker/operations-http-entry.ts''
    LocalSession None [] False Read False,
  mk_route ''xyops.catalog.history'' GET ''/api/integrations/catalog/history'' ''worker/operations-http-entry.ts''
    LocalSession None [] False Read False,
  mk_route ''xyops.catalog.options'' GET ''/api/integrations/catalog/options'' ''worker/operations-http-entry.ts''
    LocalSession None [] False Read False,
  mk_route ''xyops.catalog.run'' POST ''/api/integrations/catalog/run'' ''worker/operations-http-entry.ts''
    LocalSession (Some XyopsRun) [] False Mutation False,
  mk_route ''xyops.runs.list'' GET ''/api/integrations/runs'' ''worker/operations-http-entry.ts''
    LocalSession None [] False Read False,
  mk_route ''xyops.runs.file'' GET ''/api/integrations/runs/:runId/files/:fileId'' ''worker/operations-http-entry.ts''
    LocalSession (Some DirectoryRead) [] False Read False,
  mk_route ''xyops.runs.cancel'' POST ''/api/integrations/runs/:runId/cancel'' ''worker/operations-http-entry.ts''
    LocalSession (Some XyopsRun) [] False Mutation False,
  mk_route ''xyops.runs.rerun'' POST ''/api/integrations/runs/:runId/rerun'' ''worker/operations-http-entry.ts''
    LocalSession (Some XyopsRun) [] False Mutation False,
  mk_route ''xyops.approvals.list'' GET ''/api/integrations/approvals'' ''worker/operations-http-entry.ts''
    LocalSession (Some DirectoryRead) [] False Read False,
  mk_route ''xyops.approvals.approve'' POST ''/api/integrations/approvals/:approvalId/approve'' ''worker/operations-http-entry.ts''
    LocalSession (Some XyopsApprove) [] False Mutation False,
  mk_route ''xyops.approvals.reject'' POST ''/api/integrations/approvals/:approvalId/reject'' ''worker/operations-http-entry.ts''
    LocalSession (Some XyopsApprove) [] False Mutation False,
  mk_route ''xyops.approvals.cancel'' POST ''/api/integrations/approvals/:approvalId/cancel'' ''worker/operations-http-entry.ts''
    LocalSession (Some XyopsRun) [] False Mutation False,
  mk_route ''xyops.approvals.execute'' POST ''/api/integrations/approvals/:approvalId/execute'' ''worker/operations-http-entry.ts''
    LocalSession (Some XyopsRun) [] False Mutation False,
  mk_route ''xyops.notifications.list'' GET ''/api/integrations/notifications'' ''worker/operations-http-entry.ts''
    LocalSession (Some DirectoryRead) [] False Read False,
  mk_route ''xyops.notifications.read'' POST ''/api/integrations/notifications/read'' ''worker/operations-http-entry.ts''
    LocalSession (Some DirectoryRead) [] False Mutation False,
  mk_route ''xyops.routes.read'' GET ''/api/integrations/routes'' ''worker/xyops-admin-http.ts''
    AdminOrServiceAdmin (Some SettingsManage) [] False Read False,
  mk_route ''xyops.routes.update'' PUT ''/api/integrations/routes'' ''worker/xyops-admin-http.ts''
    AdminOrServiceAdmin (Some SettingsManage) [] False Mutation True,
  mk_route ''xyops.presentation.read'' GET ''/api/integrations/catalog/presentation'' ''worker/xyops-admin-http.ts''
    AdminOrServiceAdmin (Some SettingsManage) [] False Read False,
  mk_route ''xyops.presentation.update'' PUT ''/api/integrations/catalog/presentation'' ''worker/xyops-admin-http.ts''
    AdminOrServiceAdmin (Some SettingsManage) [] False Mutation True,
  mk_route ''xyops.catalog-policies.read'' GET ''/api/integrations/catalog/policies'' ''worker/xyops-admin-http.ts''
    AdminOrServiceAdmin (Some SettingsManage) [] False Read False,
  mk_route ''xyops.catalog-policies.update'' PUT ''/api/integrations/catalog/policies'' ''worker/xyops-admin-http.ts''
    AdminOrServiceAdmin (Some SettingsManage) [] False Mutation True,
  mk_route ''xyops.approval-policies.read'' GET ''/api/integrations/approval/policies'' ''worker/xyops-admin-http.ts''
    AdminOrServiceAdmin (Some SettingsManage) [] False Read False,
  mk_route ''xyops.approval-policies.update'' PUT ''/api/integrations/approval/policies'' ''worker/xyops-admin-http.ts''
    AdminOrServiceAdmin (Some SettingsManage) [] False Mutation True,
  mk_route ''xyops.catalog-sync.read'' GET ''/api/integrations/catalog/sync'' ''worker/secure-entry.ts''
    AdminOrServiceAdmin None [] True Read False,
  mk_route ''xyops.catalog-sync.run'' POST ''/api/integrations/catalog/sync'' ''worker/secure-entry.ts''
    AdminOrServiceAdmin None [] True Mutation True,
  mk_route ''backup.export.sanitized'' POST ''/api/admin/backups/export'' ''worker/backup-http-entry.ts''
    LocalSession (Some BackupExport) [] False Mutation False,
  mk_route ''backup.export.encrypted'' POST ''/api/admin/backups/export/encrypted'' ''worker/backup-encrypted-root-entry.ts''
    AdminOrServiceAdmin (Some BackupExportEncrypted) [] False Mutation True,
  mk_route ''backup.preview.sanitized'' POST ''/api/admin/backups/import/preview'' ''worker/backup-import-preview-root-entry.ts''
    AdminOrServiceAdmin (Some BackupRestorePreview) [] False Mutation True,
  mk_route ''backup.preview.encrypted'' POST ''/api/admin/backups/import/encrypted/preview'' ''worker/backup-encrypted-root-entry.ts''
    AdminOrServiceAdmin (Some BackupRestorePreview) [] False Mutation True,
  mk_route ''backup.restore.test'' POST ''/api/admin/backups/import/encrypted/test-restore'' ''worker/backup-encrypted-root-entry.ts''
    AdminOrServiceAdmin (Some BackupRestoreTest) [] False Mutation True,
  mk_route ''backup.restore.prepare'' POST ''/api/admin/backups/import/encrypted/prepare-commit'' ''worker/backup-selective-restore-dispatch.ts''
    AdminOrServiceAdmin (Some BackupRestorePrepare) [] True Mutation True,
  mk_route ''backup.restore.commit'' POST ''/api/admin/backups/import/encrypted/commit'' ''worker/backup-selective-restore-dispatch.ts''
    AdminOrServiceAdmin (Some BackupRestoreCommit) [] True Mutation True,
  mk_route ''backup.restore.cancel'' POST ''/api/admin/backups/import/encrypted/cancel'' ''worker/backup-selective-restore-dispatch.ts''
    AdminOrServiceAdmin (Some BackupRestoreCancel) [] True Mutation True,
  mk_route ''storage.status'' GET ''/api/admin/storage/status'' ''worker/storage-status-entry.ts''
    AdminOrServiceAdmin None [] True Read False,
  mk_route ''storage.integrity'' POST ''/api/admin/storage/integrity/check'' ''worker/storage-integrity-entry.ts''
    AdminOrServiceAdmin None [] True Mutation True,
  mk_route ''storage.migrations.preflight'' POST ''/api/admin/storage/migrations/preflight'' ''worker/storage-migration-preflight-entry.ts''
    AdminOrServiceAdmin None [] True Mutation True,
  mk_route ''storage.migrations.apply'' POST ''/api/admin/storage/migrations/apply'' ''worker/storage-migration-apply-entry.ts''
    AdminOrServiceAdmin None [] True Mutation True,
  mk_route ''storage.migrations.apply-status'' GET ''/api/admin/storage/migrations/apply/status'' ''worker/storage-migration-apply-entry.ts''
    AdminOrServiceAdmin None [] True Read False,
  mk_route ''storage.migrations.reconcile'' POST ''/api/admin/storage/migrations/apply/reconcile'' ''worker/storage-migration-apply-entry.ts''
    AdminOrServiceAdmin None [] True Mutation True,
  mk_route ''maintenance.status'' GET ''/api/admin/maintenance/status'' ''worker/maintenance-control-entry.ts''
    AdminOrServiceAdmin (Some MaintenanceManage) [] True Read False,
  mk_route ''maintenance.prepare'' POST ''/api/admin/maintenance/prepare'' ''worker/maintenance-control-entry.ts''
    AdminOrServiceAdmin (Some MaintenanceManage) [] True Mutation True,
  mk_route ''maintenance.enter'' POST ''/api/admin/maintenance/enter'' ''worker/maintenance-control-entry.ts''
    AdminOrServiceAdmin (Some MaintenanceManage) [] True Mutation True,
  mk_route ''maintenance.verification.start'' POST ''/api/admin/maintenance/verification/start'' ''worker/maintenance-control-entry.ts''
    AdminOrServiceAdmin (Some MaintenanceManage) [] True Mutation True,
  mk_route ''maintenance.verification.smoke'' POST ''/api/admin/maintenance/verification/smoke'' ''worker/maintenance-verification-smoke-entry.ts''
    ServiceAdmin None [] True Mutation True,
  mk_route ''maintenance.exit'' POST ''/api/admin/maintenance/exit'' ''worker/maintenance-control-entry.ts''
    AdminOrServiceAdmin (Some MaintenanceManage) [] True Mutation True,
  mk_route ''maintenance.complete'' POST ''/api/admin/maintenance/complete'' ''worker/maintenance-control-entry.ts''
    AdminOrServiceAdmin (Some MaintenanceManage) [] True Mutation True,
  mk_route ''maintenance.cancel'' POST ''/api/admin/maintenance/cancel'' ''worker/maintenance-control-entry.ts''
    AdminOrServiceAdmin (Some MaintenanceManage) [] True Mutation True]"

definition findPortalRouteContract :: "route_method \<Rightarrow> string \<Rightarrow> route_contract option" where
  "findPortalRouteContract method path =
     find (\<lambda>route. rc_method route = method \<and> rc_path route = path) portalRouteContracts"

section \<open>The router\<close>

record compiled_route =
  cr_contract :: route_contract
  cr_segments :: "string list"
  cr_staticSegments :: nat

definition pathSegments :: "string \<Rightarrow> string list option" where
  "pathSegments path =
     (if \<not> starts_with ''/'' path \<or> js_includes ''?'' path \<or> js_includes ''#'' path then None
      else if path = ''/'' then Some []
      else Some (js_split (CHR ''/'') (drop 1 path)))"

definition is_param :: "string \<Rightarrow> bool" where
  "is_param segment = starts_with '':'' segment"

definition compile_route :: "route_contract \<Rightarrow> compiled_route" where
  "compile_route contract =
     (let segments = (case pathSegments (rc_path contract) of None \<Rightarrow> [] | Some ss \<Rightarrow> ss)
      in \<lparr>cr_contract = contract, cr_segments = segments,
          cr_staticSegments = length (filter (\<lambda>segment. \<not> is_param segment) segments)\<rparr>)"

text \<open>The comparison function handed to \<open>sort\<close>: more static segments first, then longer patterns.\<close>

definition route_cmp :: "compiled_route \<Rightarrow> compiled_route \<Rightarrow> int" where
  "route_cmp left right =
     (if cr_staticSegments right \<noteq> cr_staticSegments left
      then int (cr_staticSegments right) - int (cr_staticSegments left)
      else int (length (cr_segments right)) - int (length (cr_segments left)))"

definition compiledRoutes :: "compiled_route list" where
  "compiledRoutes = js_sort route_cmp (map compile_route portalRouteContracts)"

fun match_loop :: "(string \<times> string) list \<Rightarrow> string list \<Rightarrow> string list \<Rightarrow> (string \<times> string) list option" where
  "match_loop params (expected # pattern) (v # actual) =
     (if is_param expected then
        (if v = [] then None else match_loop (AList.update (drop 1 expected) v params) pattern actual)
      else if expected \<noteq> v then None
      else match_loop params pattern actual)"
| "match_loop params pattern actual = Some params"

definition matchSegments :: "string list \<Rightarrow> string list \<Rightarrow> (string \<times> string) list option" where
  "matchSegments pattern actual =
     (if length pattern \<noteq> length actual then None else match_loop [] pattern actual)"

fun first_match :: "route_method \<Rightarrow> string list \<Rightarrow> compiled_route list \<Rightarrow>
    (route_contract \<times> (string \<times> string) list) option" where
  "first_match method actual [] = None"
| "first_match method actual (route # routes) =
     (if rc_method (cr_contract route) \<noteq> method then first_match method actual routes
      else (case matchSegments (cr_segments route) actual of
          Some params \<Rightarrow> Some (cr_contract route, params)
        | None \<Rightarrow> first_match method actual routes))"

definition matchPortalRoute :: "route_method \<Rightarrow> string \<Rightarrow> (route_contract \<times> (string \<times> string) list) option" where
  "matchPortalRoute method pathname = (case pathSegments pathname of
      None \<Rightarrow> None
    | Some actual \<Rightarrow> first_match method actual compiledRoutes)"

section \<open>The security plan\<close>

datatype security_stage = RequestContext | Authentication | Authorization | SameOrigin

record security_plan =
  sp_routeId :: string
  sp_auth :: auth_boundary
  sp_permission :: "portal_permission option"
  sp_conditionalPermissions :: "portal_permission list"
  sp_requiresAdmin :: bool
  sp_mutation :: route_mutation
  sp_sameOrigin :: bool
  sp_stages :: "security_stage list"

definition portalRouteSecurityPlan :: "route_contract \<Rightarrow> security_plan" where
  "portalRouteSecurityPlan contract =
     \<lparr>sp_routeId = rc_id contract,
      sp_auth = rc_auth contract,
      sp_permission = rc_permission contract,
      sp_conditionalPermissions = rc_conditionalPermissions contract,
      sp_requiresAdmin = rc_requiresAdmin contract,
      sp_mutation = rc_mutation contract,
      sp_sameOrigin = rc_sameOrigin contract,
      sp_stages = [RequestContext]
        @ (if rc_auth contract \<noteq> Public then [Authentication, Authorization] else [])
        @ (if rc_sameOrigin contract then [SameOrigin] else [])\<rparr>"

section \<open>Lemmas\<close>

lemma route_cmp_alt:
  "route_cmp = cmp_then (\<lambda>x y. int (cr_staticSegments y) - int (cr_staticSegments x))
      (\<lambda>x y. int (length (cr_segments y)) - int (length (cr_segments x)))"
  by (intro ext) (auto simp: route_cmp_def cmp_then_def)

interpretation routes_cmp: comparator route_cmp
  unfolding route_cmp_alt
  by (rule comparator_cmp_then) (rule comparator_by_key_desc)+

text \<open>The path a pattern denotes once its parameters have values.\<close>

definition fill :: "(string \<times> string) list \<Rightarrow> string \<Rightarrow> string" where
  "fill params segment =
     (if is_param segment then (case map_of params (drop 1 segment) of Some v \<Rightarrow> v | None \<Rightarrow> []) else segment)"

definition param_names :: "string list \<Rightarrow> string list" where
  "param_names pattern = map (drop 1) (filter is_param pattern)"

lemma match_loop_keeps:
  "match_loop params pattern actual = Some result \<Longrightarrow> k \<notin> set (param_names pattern) \<Longrightarrow>
   map_of result k = map_of params k"
  by (induction params pattern actual rule: match_loop.induct)
    (auto simp: param_names_def update_conv' split: if_splits)

lemma match_loop_fill:
  "match_loop params pattern actual = Some result \<Longrightarrow> length pattern = length actual \<Longrightarrow>
   distinct (param_names pattern) \<Longrightarrow> map (fill result) pattern = actual"
proof (induction params pattern actual rule: match_loop.induct)
  case (1 params expected pattern v actual)
  show ?case
  proof (cases "is_param expected")
    case True
    with 1 have r: "match_loop (AList.update (drop 1 expected) v params) pattern actual = Some result"
      and d: "drop 1 expected \<notin> set (param_names pattern)" "distinct (param_names pattern)"
      by (auto simp: param_names_def split: if_splits)
    from match_loop_keeps [OF r d(1)] have "map_of result (drop 1 expected) = Some v"
      by (simp add: update_conv')
    with 1 r d True show ?thesis by (auto simp: fill_def split: if_splits)
  next
    case False
    with 1 show ?thesis by (auto simp: fill_def param_names_def split: if_splits)
  qed
qed auto

lemma pathSegments_join:
  "pathSegments p = Some ss \<Longrightarrow> p = ''/'' @ js_join ''/'' ss"
  by (cases p) (auto simp: pathSegments_def starts_with_def js_join_split split: if_splits)

lemma first_match_Some:
  "first_match m actual rs = Some (c, params) \<Longrightarrow>
   \<exists>r. find (\<lambda>r. rc_method (cr_contract r) = m \<and> matchSegments (cr_segments r) actual \<noteq> None) rs = Some r \<and>
       c = cr_contract r \<and> rc_method c = m \<and> matchSegments (cr_segments r) actual = Some params"
  by (induction rs) (auto split: if_splits option.splits)

lemma first_match_None:
  "first_match m actual rs = None \<longleftrightarrow>
   (\<forall>r \<in> set rs. rc_method (cr_contract r) = m \<longrightarrow> matchSegments (cr_segments r) actual = None)"
  by (induction rs) (auto split: option.splits)

lemma compiledRoutes_set: "r \<in> set compiledRoutes \<longleftrightarrow> r \<in> compile_route ` set portalRouteContracts"
  by (simp add: compiledRoutes_def)

lemma compile_route_contract [simp]: "cr_contract (compile_route c) = c"
  by (simp add: compile_route_def Let_def)

definition patterns_distinct :: bool where
  "patterns_distinct = list_all (\<lambda>c. distinct (param_names (cr_segments (compile_route c)))) portalRouteContracts"

lemma patterns_distinct: patterns_distinct
  by code_simp

text \<open>What the registry promises of a route, one route at a time.\<close>

definition admin_boundary :: "auth_boundary \<Rightarrow> bool" where
  "admin_boundary a = (a \<in> {AdminSession, ServiceAdmin, AdminOrServiceAdmin})"

definition route_policy_ok :: "route_contract \<Rightarrow> bool" where
  "route_policy_ok c =
     ((rc_sameOrigin c \<longrightarrow> rc_mutation c = Mutation)
      \<and> (admin_boundary (rc_auth c) \<and> rc_mutation c = Mutation \<longrightarrow> rc_sameOrigin c)
      \<and> (rc_auth c = Public \<longrightarrow> rc_permission c = None \<and> \<not> rc_requiresAdmin c)
      \<and> (starts_with ''/api/admin/'' (rc_path c) \<longrightarrow>
           rc_auth c \<noteq> Public \<and> (rc_permission c \<noteq> None \<or> rc_requiresAdmin c))
      \<and> (rc_method c = GET \<longleftrightarrow> rc_mutation c = Read))"

definition route_resolves :: "route_contract \<Rightarrow> bool" where
  "route_resolves c = (map_option fst (matchPortalRoute (rc_method c) (rc_path c)) = Some c
     \<and> findPortalRouteContract (rc_method c) (rc_path c) = Some c)"

lemma policy_table: "list_all route_policy_ok portalRouteContracts"
  by code_simp

lemma matchPortalRoute_Some:
  assumes "matchPortalRoute m p = Some (c, params)"
  obtains r actual where "pathSegments p = Some actual" "r \<in> set compiledRoutes" "cr_contract r = c"
    "rc_method c = m" "matchSegments (cr_segments r) actual = Some params" "c \<in> set portalRouteContracts"
    "r = compile_route c"
    "find (\<lambda>r. rc_method (cr_contract r) = m \<and> matchSegments (cr_segments r) actual \<noteq> None) compiledRoutes = Some r"
proof -
  from assms obtain actual where a: "pathSegments p = Some actual"
    and f: "first_match m actual compiledRoutes = Some (c, params)"
    by (auto simp: matchPortalRoute_def split: option.splits)
  from first_match_Some [OF f] obtain r
    where r: "find (\<lambda>r. rc_method (cr_contract r) = m \<and> matchSegments (cr_segments r) actual \<noteq> None) compiledRoutes = Some r"
      "c = cr_contract r" "rc_method c = m" "matchSegments (cr_segments r) actual = Some params" by blast
  from find_Some_iff' [OF r(1)] have "r \<in> set compiledRoutes" by simp
  moreover from this obtain c' where "c' \<in> set portalRouteContracts" "r = compile_route c'"
    by (auto simp: compiledRoutes_set)
  ultimately show thesis using that a r by simp
qed

text \<open>
  Two contracts with the same method differ in their skeletons (their patterns with the parameter
  names erased). The keys are compared back to front, where the paths differ soonest.
\<close>

definition skeleton :: "string list \<Rightarrow> string list" where
  "skeleton segments = map (\<lambda>segment. if is_param segment then '':'' else segment) segments"

definition contract_segments :: "route_contract \<Rightarrow> string list" where
  "contract_segments c = (case pathSegments (rc_path c) of None \<Rightarrow> [] | Some ss \<Rightarrow> ss)"

definition back_key :: "route_contract \<Rightarrow> route_method \<times> string list" where
  "back_key c = (rc_method c, rev (map rev (skeleton (contract_segments c))))"

lemma back_keys_distinct: "distinct (map back_key portalRouteContracts)"
  by code_simp

lemma all_paths_valid: "list_all (\<lambda>c. pathSegments (rc_path c) \<noteq> None) portalRouteContracts"
  by code_simp

definition statics :: "string list \<Rightarrow> nat" where
  "statics ss = length (filter (\<lambda>segment. \<not> is_param segment) ss)"

lemma compile_route_simps [simp]:
  "cr_segments (compile_route c) = contract_segments c"
  "cr_staticSegments (compile_route c) = statics (contract_segments c)"
  by (simp_all add: compile_route_def contract_segments_def statics_def Let_def)

definition seg_ok :: "string \<Rightarrow> string \<Rightarrow> bool" where
  "seg_ok e v = (if is_param e then v \<noteq> [] else e = v)"

lemma match_loop_iff:
  "length pattern = length actual \<Longrightarrow> (match_loop params pattern actual \<noteq> None) \<longleftrightarrow>
     list_all2 seg_ok pattern actual"
  by (induction params pattern actual rule: match_loop.induct) (auto simp: seg_ok_def)

lemma matchSegments_iff:
  "(matchSegments pattern actual \<noteq> None) \<longleftrightarrow>
     list_all2 seg_ok pattern actual"
  by (auto simp: matchSegments_def match_loop_iff [simplified] dest: list_all2_lengthD)

lemma is_param_nonempty: "is_param s \<Longrightarrow> s \<noteq> []"
  by (auto simp: is_param_def starts_with_def)

lemma match_self: "matchSegments ss ss \<noteq> None"
  unfolding matchSegments_iff
  by (induction ss) (auto simp: seg_ok_def dest: is_param_nonempty)

lemma skeleton_of_specific:
  assumes "list_all2 seg_ok pattern actual"
  shows "statics pattern \<le> statics actual \<and>
    (statics pattern = statics actual \<longrightarrow> skeleton pattern = skeleton actual)"
  using assms
  by (induction rule: list_all2_induct) (auto simp: seg_ok_def statics_def skeleton_def split: if_splits)

lemma same_skeleton:
  assumes "c \<in> set portalRouteContracts" "c' \<in> set portalRouteContracts" "rc_method c = rc_method c'"
    "skeleton (contract_segments c) = skeleton (contract_segments c')"
  shows "c = c'"
proof -
  have "back_key c = back_key c'" using assms(3,4) by (simp add: back_key_def)
  with back_keys_distinct assms(1,2) show ?thesis by (auto simp: distinct_map dest: inj_onD)
qed

lemma specific_match:
  assumes "pathSegments p = Some actual" and "c' \<in> set portalRouteContracts" and "rc_method c' = m"
    and "matchSegments (contract_segments c') actual \<noteq> None"
  shows "\<exists>c params. matchPortalRoute m p = Some (c, params) \<and>
    statics (contract_segments c') \<le> statics (contract_segments c)"
proof -
  have c': "compile_route c' \<in> set compiledRoutes" using assms(2) by (simp add: compiledRoutes_set)
  have "first_match m actual compiledRoutes \<noteq> None"
    unfolding first_match_None using c' assms(3,4) by (auto intro!: bexI [of _ "compile_route c'"])
  then obtain c params where m: "matchPortalRoute m p = Some (c, params)"
    using assms(1) by (auto simp: matchPortalRoute_def)
  then obtain r where r: "r = compile_route c"
    "find (\<lambda>r. rc_method (cr_contract r) = m \<and> matchSegments (cr_segments r) actual \<noteq> None) compiledRoutes = Some r"
    using assms(1) by (auto elim: matchPortalRoute_Some)
  from routes_cmp.find_js_sort_least [OF r(2) [unfolded compiledRoutes_def], of "compile_route c'"] assms
  have "route_cmp r (compile_route c') \<le> 0" by auto
  then have "statics (contract_segments c') \<le> statics (contract_segments c)"
    using r(1) by (auto simp: route_cmp_def split: if_splits)
  with m show ?thesis by blast
qed

lemma resolves_itself:
  assumes c: "c \<in> set portalRouteContracts"
  shows "\<exists>params. matchPortalRoute (rc_method c) (rc_path c) = Some (c, params) \<and>
    matchSegments (contract_segments c) (contract_segments c) = Some params"
proof -
  have p: "pathSegments (rc_path c) = Some (contract_segments c)"
    using all_paths_valid c by (auto simp: list_all_iff contract_segments_def)
  from specific_match [OF p c refl match_self] obtain d params
    where m: "matchPortalRoute (rc_method c) (rc_path c) = Some (d, params)"
      and le: "statics (contract_segments c) \<le> statics (contract_segments d)" by blast
  from m obtain r actual where h: "pathSegments (rc_path c) = Some actual" "r = compile_route d"
    "matchSegments (cr_segments r) actual = Some params" "d \<in> set portalRouteContracts"
    "rc_method d = rc_method c"
    by (rule matchPortalRoute_Some)
  with p have d: "d \<in> set portalRouteContracts" "rc_method d = rc_method c"
    "matchSegments (contract_segments d) (contract_segments c) = Some params" by simp_all
  then have "list_all2 seg_ok (contract_segments d) (contract_segments c)"
    using matchSegments_iff [of "contract_segments d" "contract_segments c"] by simp
  from skeleton_of_specific [OF this] le same_skeleton [OF d(1) c d(2)] have "d = c" by linarith
  with m d(3) show ?thesis by simp
qed

lemma find_contract_itself:
  assumes c: "c \<in> set portalRouteContracts"
  shows "findPortalRouteContract (rc_method c) (rc_path c) = Some c"
proof (cases "findPortalRouteContract (rc_method c) (rc_path c)")
  case None
  with c show ?thesis by (auto simp: findPortalRouteContract_def find_None_iff)
next
  case (Some d)
  from find_Some_iff' [OF Some [unfolded findPortalRouteContract_def]]
  have "d \<in> set portalRouteContracts" "rc_method d = rc_method c" "rc_path d = rc_path c" by auto
  with same_skeleton [of d c] c Some show ?thesis by (simp add: contract_segments_def)
qed

section \<open>Properties\<close>

text \<open>A request path that the router resolves belongs to a contract of the registry with the
  request's method, and putting the extracted parameters back into the contract's pattern gives
  exactly the request path.\<close>

lemma matchPortalRoute_sound:
  assumes "matchPortalRoute m p = Some (c, params)"
  shows "c \<in> set portalRouteContracts \<and> rc_method c = m \<and>
    p = ''/'' @ js_join ''/'' (map (fill params) (cr_segments (compile_route c)))"
proof -
  from assms obtain r actual where h: "pathSegments p = Some actual" "rc_method c = m"
    "matchSegments (cr_segments r) actual = Some params" "c \<in> set portalRouteContracts" "r = compile_route c"
    by (rule matchPortalRoute_Some)
  have "distinct (param_names (cr_segments r))"
    using patterns_distinct h(4,5) by (simp add: patterns_distinct_def list_all_iff)
  with h(3) have "map (fill params) (cr_segments r) = actual"
    by (auto simp: matchSegments_def intro: match_loop_fill split: if_splits)
  with h pathSegments_join [OF h(1)] show ?thesis by simp
qed

definition sessions_revoke_route :: route_contract where
  "sessions_revoke_route = mk_route ''auth.users.sessions-revoke'' DELETE ''/api/auth/users/:userId/sessions''
     ''worker/local-secure-entry.ts'' AdminSession None [] False Mutation True"

lemma sessions_revoke_route_in: "sessions_revoke_route \<in> set portalRouteContracts"
  unfolding sessions_revoke_route_def portalRouteContracts_def by simp

lemma sessions_revoke_route_fields:
  "rc_method sessions_revoke_route = DELETE"
  "rc_path sessions_revoke_route = ''/api/auth/users/:userId/sessions''"
  "rc_auth sessions_revoke_route = AdminSession"
  by (simp_all add: sessions_revoke_route_def mk_route_def)

lemma sessions_revoke_route_match:
  "\<exists>params. matchPortalRoute DELETE ''/api/auth/users/:userId/sessions'' = Some (sessions_revoke_route, params)"
  using resolves_itself [OF sessions_revoke_route_in] by (auto simp: sessions_revoke_route_fields)

theorem matchPortalRoute_sound_witness:
  "\<exists>params. matchPortalRoute DELETE ''/api/auth/users/:userId/sessions'' = Some (sessions_revoke_route, params) \<and>
     ''/api/auth/users/:userId/sessions'' =
       ''/'' @ js_join ''/'' (map (fill params) (cr_segments (compile_route sessions_revoke_route)))"
  using sessions_revoke_route_match matchPortalRoute_sound by blast

text \<open>What it is for a pattern to match: as many segments, each equal to its own, or to a parameter and not empty.\<close>

definition fits :: "string list \<Rightarrow> string list \<Rightarrow> bool" where
  "fits pattern actual = list_all2 seg_ok pattern actual"

lemma matchSegments_fits: "matchSegments pattern actual \<noteq> None \<longleftrightarrow> fits pattern actual"
  unfolding fits_def by (rule matchSegments_iff)

text \<open>C23: the router takes the most specific contract: what it returns for a path is a contract of the registry with the
  request's method whose pattern matches the segments of the path, with the parameters read off them, and no contract with that
  method whose pattern also matches has more static segments; it returns nothing exactly when no contract
  with the method matches.\<close>

theorem matchPortalRoute_most_specific:
  assumes "pathSegments p = Some actual"
  shows "case matchPortalRoute m p of
      Some (c, params) \<Rightarrow> c \<in> set portalRouteContracts \<and> rc_method c = m \<and> fits (cr_segments (compile_route c)) actual
        \<and> matchSegments (cr_segments (compile_route c)) actual = Some params
        \<and> (\<forall>c' \<in> set portalRouteContracts. rc_method c' = m \<and> fits (cr_segments (compile_route c')) actual
              \<longrightarrow> cr_staticSegments (compile_route c') \<le> cr_staticSegments (compile_route c))
    | None \<Rightarrow> \<forall>c' \<in> set portalRouteContracts. rc_method c' = m \<longrightarrow> \<not> fits (cr_segments (compile_route c')) actual"
proof (cases "matchPortalRoute m p")
  case None
  then show ?thesis using specific_match [OF assms] by (fastforce simp: matchSegments_fits [symmetric])
next
  case (Some cp)
  obtain c params where cp: "cp = (c, params)" by (cases cp)
  from Some cp obtain r ss where "pathSegments p = Some ss" "rc_method c = m" "matchSegments (cr_segments r) ss = Some params"
    "c \<in> set portalRouteContracts" "r = compile_route c"
    using matchPortalRoute_Some [of m p c params] by metis
  with assms have found: "c \<in> set portalRouteContracts \<and> rc_method c = m \<and> matchSegments (cr_segments (compile_route c)) actual = Some params"
    by simp
  have "cr_staticSegments (compile_route c') \<le> cr_staticSegments (compile_route c)"
    if "c' \<in> set portalRouteContracts" "rc_method c' = m" "fits (cr_segments (compile_route c')) actual" for c'
    using specific_match [OF assms that(1,2)] that(3) Some cp by (auto simp: matchSegments_fits [symmetric])
  with found Some cp matchSegments_fits [of "cr_segments (compile_route c)" actual] show ?thesis by simp
qed

theorem matchPortalRoute_most_specific_witness:
  "case matchPortalRoute DELETE ''/api/auth/users/u-7/sessions'' of
      Some (c, params) \<Rightarrow> cr_staticSegments (compile_route sessions_revoke_route) \<le> cr_staticSegments (compile_route c) | None \<Rightarrow> False"
proof -
  let ?ss = "[''api'', ''auth'', ''users'', ''u-7'', ''sessions'']"
  have p: "pathSegments ''/api/auth/users/u-7/sessions'' = Some ?ss" by code_simp
  have "fits (cr_segments (compile_route sessions_revoke_route)) ?ss" by code_simp
  with matchPortalRoute_most_specific [OF p, of DELETE] sessions_revoke_route_in sessions_revoke_route_fields show ?thesis
    by (auto split: option.splits prod.splits)
qed

text \<open>The registry has no shadowed entry: every contract's own method and path resolve, through
  the router and through \<open>findPortalRouteContract\<close>, to that contract.\<close>

lemma registry_resolves: "list_all route_resolves portalRouteContracts"
  using resolves_itself find_contract_itself by (fastforce simp: list_all_iff route_resolves_def)

text \<open>Any request that resolves to a state-changing route behind an administrator boundary is
  planned through all four stages, the same-origin guard last.\<close>

lemma admin_mutation_plan:
  assumes "matchPortalRoute m p = Some (c, params)" and "admin_boundary (rc_auth c)" and "m \<noteq> GET"
  shows "sp_stages (portalRouteSecurityPlan c) = [RequestContext, Authentication, Authorization, SameOrigin]"
proof -
  from assms(1) have c: "c \<in> set portalRouteContracts" "rc_method c = m"
    by (auto elim: matchPortalRoute_Some)
  with policy_table have "route_policy_ok c" by (simp add: list_all_iff)
  with assms c show ?thesis
    by (cases "rc_mutation c") (auto simp: route_policy_ok_def portalRouteSecurityPlan_def admin_boundary_def)
qed

theorem admin_mutation_plan_witness:
  "sp_stages (portalRouteSecurityPlan sessions_revoke_route) =
     [RequestContext, Authentication, Authorization, SameOrigin]"
proof -
  from sessions_revoke_route_match obtain params
    where "matchPortalRoute DELETE ''/api/auth/users/:userId/sessions'' = Some (sessions_revoke_route, params)" ..
  from admin_mutation_plan [OF this] show ?thesis
    by (simp add: sessions_revoke_route_fields admin_boundary_def)
qed

end
