(* ===== verification/ConstantTime.thy ===== *)
theory ConstantTime
  imports JsValue "HOL-Library.Word"
begin

unbundle bit_operations_syntax

text \<open>
  The constant-time comparison that the source writes out wherever it checks a secret or a
  digest: the differences of all positions are collected with \<open>|=\<close> and \<open>^\<close> in a 32-bit
  integer, and the texts are equal when nothing was collected.
\<close>

type_synonym i32 = "32 word"

definition collect_diff :: "i32 \<Rightarrow> i32 list \<Rightarrow> i32 list \<Rightarrow> i32" where
  "collect_diff d xs ys = foldl (\<lambda>acc (x, y). acc OR (x XOR y)) d (zip xs ys)"

lemma or_eq_zero: "((x::i32) OR y = 0) \<longleftrightarrow> (x = 0 \<and> y = 0)"
  by (simp add: bit_eq_iff bit_or_iff) blast

lemma xor_eq_zero: "((x::i32) XOR y = 0) \<longleftrightarrow> (x = y)"
  by (metis xor.assoc xor.left_neutral xor_self_eq xor.right_neutral)

lemma collect_diff_zero:
  "length xs = length ys \<Longrightarrow> (collect_diff d xs ys = 0) \<longleftrightarrow> (d = 0 \<and> xs = ys)"
proof (induction xs ys arbitrary: d rule: list_induct2)
  case (Cons x xs y ys)
  then show ?case
    by (auto simp: collect_diff_def or_eq_zero xor_eq_zero)
qed (simp add: collect_diff_def)

definition char_code :: "char \<Rightarrow> i32" where
  "char_code c = of_nat (code c)"

lemma char_code_inj: "char_code c = char_code d \<longleftrightarrow> c = d"
proof
  assume "char_code c = char_code d"
  then have "unat (char_code c) = unat (char_code d)" by simp
  moreover have lt: "code e < 256" for e :: char
    using of_char_mod_256 [of e, where 'a = nat] by (metis mod_less_divisor zero_less_numeral)
  have "unat (char_code e) = code e" for e
  proof -
    have "code e < 2 ^ 32" by (rule less_trans [OF lt]) simp
    then show ?thesis by (simp add: char_code_def unsigned_of_nat take_bit_nat_eq_self)
  qed
  ultimately show "c = d" by simp
qed simp

lemma map_char_code_eq: "(map char_code xs = map char_code ys) \<longleftrightarrow> xs = ys"
  by (rule inj_map_eq_map) (simp add: inj_def char_code_inj)

text \<open>
  \<open>new TextEncoder().encode(s)\<close>: one byte below code unit 128, two bytes above.
\<close>

definition utf8_char :: "char \<Rightarrow> nat list" where
  "utf8_char c = (if code c < 128 then [code c] else [192 + code c div 64, 128 + code c mod 64])"

definition utf8 :: "string \<Rightarrow> nat list" where
  "utf8 s = concat (map utf8_char s)"

lemma code_bound: "code c < 256" for c :: char
  using of_char_mod_256 [of c, where 'a = nat] by (metis mod_less_divisor zero_less_numeral)

lemma code_inj: "(code c :: nat) = code d \<Longrightarrow> c = d"
  by (metis char_of_char)

lemma utf8_char_head:
  assumes "utf8_char c @ x = utf8_char d @ y" shows "c = d \<and> x = y"
proof -
  have "code c = (code d :: nat)"
  proof (cases "code c < (128 :: nat)"; cases "code d < (128 :: nat)")
    assume a: "\<not> code c < (128 :: nat)" "\<not> code d < (128 :: nat)"
    with assms have "code c div 64 = (code d div 64 :: nat)" "code c mod 64 = (code d mod 64 :: nat)"
      by (simp_all add: utf8_char_def)
    then show ?thesis by (metis div_mult_mod_eq)
  qed (use assms in \<open>simp_all add: utf8_char_def\<close>)
  then have "c = d" by (rule code_inj)
  with assms show ?thesis by simp
qed

lemma utf8_inj: "utf8 s = utf8 t \<Longrightarrow> s = t"
proof (induction s arbitrary: t)
  case Nil
  then show ?case by (cases t) (auto simp: utf8_def utf8_char_def split: if_splits)
next
  case (Cons c s)
  then obtain d t' where t: "t = d # t'" by (cases t) (auto simp: utf8_def utf8_char_def split: if_splits)
  with Cons.prems have "utf8_char c @ utf8 s = utf8_char d @ utf8 t'" by (simp add: utf8_def)
  from utf8_char_head [OF this] Cons.IH t show ?case by simp
qed

lemma utf8_char_bytes: "b \<in> set (utf8_char c) \<Longrightarrow> b < 256"
proof -
  have "code c div 64 < (4 :: nat)" using code_bound [of c] by (simp add: less_mult_imp_div_less)
  moreover have "code c mod 64 < (64 :: nat)" by simp
  moreover assume "b \<in> set (utf8_char c)"
  ultimately show "b < 256" using code_bound [of c] by (auto simp: utf8_char_def split: if_splits)
qed

lemma utf8_bytes: "b \<in> set (utf8 s) \<Longrightarrow> b < 256"
  by (auto simp: utf8_def dest: utf8_char_bytes)

lemma utf8_empty [simp]: "utf8 s = [] \<longleftrightarrow> s = []"
  by (cases s) (simp_all add: utf8_def utf8_char_def)

end
