(* ===== verification/MaintenanceMode.thy ===== *)
theory MaintenanceMode
  imports ConstantTime Json
begin

text \<open>
  The vocabulary of maintenance mode: \<open>src/recovery/maintenance/maintenance-mode.ts\<close>.
  The SHA-256 digest of the platform (as lower-case hexadecimal text) is the parameter \<open>sha\<close>.
\<close>

section \<open>States, rows and errors\<close>

datatype maintenance_state = Inactive | Entering | Active | Verifying | Exiting | Failed

definition MAINTENANCE_STATES :: "maintenance_state list" where
  "MAINTENANCE_STATES = [Inactive, Entering, Active, Verifying, Exiting, Failed]"

fun state_name :: "maintenance_state \<Rightarrow> string" where
  "state_name Inactive = ''inactive''"
| "state_name Entering = ''entering''"
| "state_name Active = ''active''"
| "state_name Verifying = ''verifying''"
| "state_name Exiting = ''exiting''"
| "state_name Failed = ''failed''"

definition parse_state :: "string \<Rightarrow> maintenance_state option" where
  "parse_state s = find (\<lambda>st. state_name st = s) MAINTENANCE_STATES"

lemma parse_state_name [simp]: "parse_state (state_name st) = Some st"
  by (cases st) (simp_all add: parse_state_def MAINTENANCE_STATES_def)

lemma parse_state_Some: "parse_state s = Some st \<longleftrightarrow> s = state_name st"
proof
  assume "parse_state s = Some st"
  then show "s = state_name st" by (auto simp: parse_state_def dest: find_Some_iff')
qed simp

lemma state_name_inject [simp]: "state_name a = state_name b \<longleftrightarrow> a = b"
  by (cases a; cases b) simp_all

text \<open>A \<open>Partial<MaintenanceVerification>\<close>: the checks that are recorded as \<open>"ok"\<close>.\<close>

datatype verification_key = Integrity | SchemaOk | AdministratorAccess | SettingsDecryption | AuditWrite

definition verificationKeys :: "verification_key list" where
  "verificationKeys = [Integrity, SchemaOk, AdministratorAccess, SettingsDecryption, AuditWrite]"

fun key_name :: "verification_key \<Rightarrow> string" where
  "key_name Integrity = ''integrity''"
| "key_name SchemaOk = ''schema''"
| "key_name AdministratorAccess = ''administratorAccess''"
| "key_name SettingsDecryption = ''settingsDecryption''"
| "key_name AuditWrite = ''auditWrite''"

definition parse_key :: "string \<Rightarrow> verification_key option" where
  "parse_key s = find (\<lambda>k. key_name k = s) verificationKeys"

lemma parse_key_name [simp]: "parse_key (key_name k) = Some k"
  by (cases k) (simp_all add: parse_key_def verificationKeys_def)

lemma parse_key_Some: "parse_key s = Some k \<longleftrightarrow> s = key_name k"
proof
  assume "parse_key s = Some k"
  then show "s = key_name k" by (auto simp: parse_key_def dest: find_Some_iff')
qed simp

lemma key_name_inject [simp]: "key_name a = key_name b \<longleftrightarrow> a = b"
  by (cases a; cases b) simp_all

record maintenance_row =
  m_state :: maintenance_state
  m_operationId :: "string option"
  m_actorIdentity :: "string option"
  m_actorGroups :: "string list"
  m_controllerSecretHash :: "string option"
  m_createdAt :: "int option"
  m_updatedAt :: "int option"
  m_expiresAt :: "int option"
  m_completedAt :: "int option"
  m_failureCode :: "string option"
  m_verification :: "verification_key list"

text \<open>
  What is thrown: an error of the repository, an error of this module, or anything else (a
  failing database call). An error carries its code and its HTTP status.
\<close>

datatype thrown = RepositoryError string int | ModeError string int | OtherError

definition MAINTENANCE_PREFIX :: string where
  "MAINTENANCE_PREFIX = ''maintenance_''"

definition operationIdPattern :: "string \<Rightarrow> bool" where
  "operationIdPattern s = prefixed_uuid_ci MAINTENANCE_PREFIX s"

definition controllerSecretPattern :: "string \<Rightarrow> bool" where
  "controllerSecretPattern s =
     (length s = 43 \<and> list_all (\<lambda>c. is_upper c \<or> is_lower c \<or> is_digit c \<or> c = CHR ''_'' \<or> c = CHR ''-'') s)"

definition safeFailureCodes :: "string list" where
  "safeFailureCodes = [''maintenance_state_unavailable'', ''maintenance_transition_failed'',
     ''maintenance_verification_failed'', ''maintenance_recovery_failed'']"

section \<open>Projection of a row for display\<close>

definition safeTimestamp :: "js \<Rightarrow> int option" where
  "safeTimestamp v = (if nullish v then None else safe_int_in 0 max_safe v)"

definition safeOperationId :: "js \<Rightarrow> string option" where
  "safeOperationId v = (case v of JStr s \<Rightarrow> if operationIdPattern s then Some s else None | _ \<Rightarrow> None)"

definition safeFailureCode :: "js \<Rightarrow> string option" where
  "safeFailureCode v = (case v of JStr s \<Rightarrow> if s \<in> set safeFailureCodes then Some s else None | _ \<Rightarrow> None)"

definition safeVerification :: "js \<Rightarrow> verification_key list" where
  "safeVerification v =
     (if \<not> plain_object v then []
      else filter (\<lambda>k. jget v (key_name k) = JStr ''ok'') verificationKeys)"

record normalized_status =
  n_state :: maintenance_state
  n_operationId :: "string option"
  n_createdAt :: "int option"
  n_updatedAt :: "int option"
  n_expiresAt :: "int option"
  n_completedAt :: "int option"
  n_failureCode :: "string option"
  n_verification :: "verification_key list"

definition normalizedStatus :: "js \<Rightarrow> normalized_status" where
  "normalizedStatus v =
     (if nullish v then
        \<lparr>n_state = Inactive, n_operationId = None, n_createdAt = None, n_updatedAt = None,
         n_expiresAt = None, n_completedAt = None, n_failureCode = None, n_verification = []\<rparr>
      else if \<not> plain_object v then
        \<lparr>n_state = Failed, n_operationId = None, n_createdAt = None, n_updatedAt = None,
         n_expiresAt = None, n_completedAt = None,
         n_failureCode = Some ''maintenance_state_unavailable'', n_verification = []\<rparr>
      else
        (let rawState = (case jget v ''state'' of JStr s \<Rightarrow> s | _ \<Rightarrow> []);
             state = (case parse_state rawState of Some st \<Rightarrow> st | None \<Rightarrow> Failed);
             failure = safeFailureCode (jget v ''failureCode'')
         in \<lparr>n_state = state,
             n_operationId = safeOperationId (jget v ''operationId''),
             n_createdAt = safeTimestamp (jget v ''createdAt''),
             n_updatedAt = safeTimestamp (jget v ''updatedAt''),
             n_expiresAt = safeTimestamp (jget v ''expiresAt''),
             n_completedAt = safeTimestamp (jget v ''completedAt''),
             n_failureCode = (if state = Failed
               then (case failure of Some c \<Rightarrow> Some c | None \<Rightarrow> Some ''maintenance_state_unavailable'')
               else failure),
             n_verification = safeVerification (jget v ''verification'')\<rparr>))"

record public_status =
  ps_maintenance :: bool
  ps_state :: maintenance_state
  ps_updatedAt :: "int option"
  ps_recoveryRequired :: bool

definition publicMaintenanceStatus :: "js \<Rightarrow> public_status" where
  "publicMaintenanceStatus v =
     (let n = normalizedStatus v
      in \<lparr>ps_maintenance = (n_state n \<noteq> Inactive), ps_state = n_state n,
          ps_updatedAt = n_updatedAt n, ps_recoveryRequired = (n_state n \<noteq> Inactive)\<rparr>)"

record admin_status = public_status +
  as_operationId :: "string option"
  as_createdAt :: "int option"
  as_expiresAt :: "int option"
  as_completedAt :: "int option"
  as_failureCode :: "string option"
  as_verification :: "verification_key list"

definition adminMaintenanceStatus :: "js \<Rightarrow> admin_status" where
  "adminMaintenanceStatus v =
     (let n = normalizedStatus v
      in \<lparr>ps_maintenance = (n_state n \<noteq> Inactive), ps_state = n_state n,
          ps_updatedAt = n_updatedAt n, ps_recoveryRequired = (n_state n \<noteq> Inactive),
          as_operationId = n_operationId n, as_createdAt = n_createdAt n,
          as_expiresAt = n_expiresAt n, as_completedAt = n_completedAt n,
          as_failureCode = n_failureCode n, as_verification = n_verification n\<rparr>)"

text \<open>A loaded row as the object the projections receive.\<close>

definition js_opt_str :: "string option \<Rightarrow> js" where
  "js_opt_str v = (case v of None \<Rightarrow> JNull | Some s \<Rightarrow> JStr s)"

definition js_opt_int :: "int option \<Rightarrow> js" where
  "js_opt_int v = (case v of None \<Rightarrow> JNull | Some n \<Rightarrow> JInt n)"

definition verification_js :: "verification_key list \<Rightarrow> js" where
  "verification_js ks = JObj (map (\<lambda>k. (key_name k, JStr ''ok'')) ks)"

definition row_js :: "maintenance_row \<Rightarrow> js" where
  "row_js r = JObj
     [(''id'', JStr ''main''), (''state'', JStr (state_name (m_state r))),
      (''operationId'', js_opt_str (m_operationId r)), (''actorIdentity'', js_opt_str (m_actorIdentity r)),
      (''actorGroups'', JArr (map JStr (m_actorGroups r))),
      (''controllerSecretHash'', js_opt_str (m_controllerSecretHash r)),
      (''createdAt'', js_opt_int (m_createdAt r)), (''updatedAt'', js_opt_int (m_updatedAt r)),
      (''expiresAt'', js_opt_int (m_expiresAt r)), (''completedAt'', js_opt_int (m_completedAt r)),
      (''failureCode'', js_opt_str (m_failureCode r)), (''verification'', verification_js (m_verification r))]"

section \<open>Secrets and confirmations\<close>

definition hashMaintenanceControllerSecret :: "(string \<Rightarrow> string) \<Rightarrow> js \<Rightarrow> thrown + string" where
  "hashMaintenanceControllerSecret sha secret = (case secret of
      JStr s \<Rightarrow> if controllerSecretPattern s then Inr (sha s)
                else Inl (ModeError ''maintenance_controller_invalid'' 400)
    | _ \<Rightarrow> Inl (ModeError ''maintenance_controller_invalid'' 400))"

text \<open>The loop over 64 character codes; both texts have passed the 64-digit pattern.\<close>

definition fixed_difference :: "string \<Rightarrow> string \<Rightarrow> i32" where
  "fixed_difference expected actual =
     collect_diff 0 (map char_code (take 64 expected)) (map char_code (take 64 actual))"

definition verifyMaintenanceControllerSecret :: "(string \<Rightarrow> string) \<Rightarrow> js \<Rightarrow> js \<Rightarrow> bool" where
  "verifyMaintenanceControllerSecret sha expectedHash secret = (case (expectedHash, secret) of
      (JStr h, JStr s) \<Rightarrow>
        if hash_pattern h \<and> controllerSecretPattern s then fixed_difference h (sha s) = 0 else False
    | _ \<Rightarrow> False)"

datatype confirmation_action = AEnter | AVerify | AExit | AComplete | ACancel

fun action_name :: "confirmation_action \<Rightarrow> string" where
  "action_name AEnter = ''enter''"
| "action_name AVerify = ''verify''"
| "action_name AExit = ''exit''"
| "action_name AComplete = ''complete''"
| "action_name ACancel = ''cancel''"

definition confirmation_prefixes :: "(string \<times> string) list" where
  "confirmation_prefixes = [(''enter'', ''ENTER''), (''verify'', ''VERIFY''), (''exit'', ''EXIT''),
     (''complete'', ''RESUME''), (''cancel'', ''CANCEL'')]"

definition maintenanceConfirmation :: "js \<Rightarrow> js \<Rightarrow> thrown + string" where
  "maintenanceConfirmation action operationId = (case operationId of
      JStr i \<Rightarrow>
       (if \<not> operationIdPattern i then Inl (ModeError ''maintenance_request_invalid'' 400)
        else (case action of
            JStr a \<Rightarrow> (case map_of confirmation_prefixes a of
                Some prefix \<Rightarrow> Inr (prefix @ '':'' @ i)
              | None \<Rightarrow> Inl (ModeError ''maintenance_request_invalid'' 400))
          | _ \<Rightarrow> Inl (ModeError ''maintenance_request_invalid'' 400)))
    | _ \<Rightarrow> Inl (ModeError ''maintenance_request_invalid'' 400))"

definition validateMaintenanceVerification :: "js \<Rightarrow> thrown + verification_key list" where
  "validateMaintenanceVerification v =
     (if \<not> plain_object v
        \<or> length (jkeys v) \<noteq> length verificationKeys
        \<or> \<not> list_all (\<lambda>k. k \<in> set (map key_name verificationKeys)) (jkeys v)
        \<or> \<not> list_all (\<lambda>k. jget v (key_name k) = JStr ''ok'') verificationKeys
      then Inl (ModeError ''maintenance_verification_invalid'' 422)
      else Inr verificationKeys)"

section \<open>Lemmas\<close>

lemma fixed_difference_zero:
  assumes "length a = 64" "length b = 64"
  shows "fixed_difference a b = 0 \<longleftrightarrow> a = b"
  using assms by (simp add: fixed_difference_def collect_diff_zero map_char_code_eq)

lemma maintenanceConfirmation_action:
  "operationIdPattern i \<Longrightarrow>
   maintenanceConfirmation (JStr (action_name a)) (JStr i) =
     Inr (the (map_of confirmation_prefixes (action_name a)) @ '':'' @ i)"
  by (cases a) (simp_all add: maintenanceConfirmation_def confirmation_prefixes_def)

lemma maintenanceConfirmation_Inr:
  "maintenanceConfirmation a i = Inr c \<Longrightarrow> \<exists>s. i = JStr s \<and> operationIdPattern s"
  by (auto simp: maintenanceConfirmation_def split: js.splits if_splits)

lemma normalizedStatus_row [simp]: "n_state (normalizedStatus (row_js r)) = m_state r"
  by (simp add: normalizedStatus_def row_js_def nullish_def plain_object_def Let_def)

lemma publicStatus_row: "ps_state (publicMaintenanceStatus (row_js r)) = m_state r"
  by (simp add: publicMaintenanceStatus_def Let_def)

lemma verification_js_plain: "distinct ks \<Longrightarrow> json_plain (verification_js ks)"
  by (induction ks) (auto simp: verification_js_def list_all_iff)

end
