(* ===== verification/Database.thy ===== *)
theory Database
  imports JsValue
begin

text \<open>
  The database as the handlers see it: \<open>db.prepare(sql).bind(..).first()/run()\<close> and
  \<open>db.batch([..])\<close>. One such call is atomic; nothing else is.

  \<^item> Before a call runs, any number of other requests may have changed the tables. The
    schedule of the world says, for each call in turn, what the others did (a function on
    the tables) and whether the call is delivered, not executed, or executed with its reply
    lost (in the last two cases the call throws).
  \<^item> \<open>follows R m\<close> is a rely-guarantee judgement: when the others only make steps of \<open>R\<close>,
    then so does \<open>m\<close>, on every path, return or throw. Its rules are collected in
    \<open>follows_intros\<close>.
  \<^item> \<open>changes_once R S m\<close> separates what \<open>m\<close> does from what the others do: between steps of \<open>R\<close>, \<open>m\<close>
    itself makes at most one change, and that one is related by \<open>S\<close>.
  \<^item> The locale \<open>table_protocol\<close> is what a component promises about the rows it keeps: an
    invariant that every step of its protocol preserves. A handler that follows the protocol
    then keeps the invariant, whatever the schedule.
\<close>

named_theorems follows_intros "rely-guarantee rules for database code"

datatype delivery = Delivered | NotExecuted | ReplyLost

record 't database =
  db_tables :: 't
  db_schedule :: "(('t \<Rightarrow> 't) \<times> delivery) list"

definition d1_call :: "'e \<Rightarrow> ('t \<Rightarrow> 'a \<times> 't) \<Rightarrow> ('t database, 'e, 'a) eff" where
  "d1_call err f = (\<lambda>w. case db_schedule w of
      [] \<Rightarrow> (let (x, t) = f (db_tables w) in (Inr x, w\<lparr>db_tables := t\<rparr>))
    | (others, d) # rest \<Rightarrow>
        (let t0 = others (db_tables w); (x, t1) = f t0
         in case d of
              Delivered \<Rightarrow> (Inr x, \<lparr>db_tables = t1, db_schedule = rest\<rparr>)
            | NotExecuted \<Rightarrow> (Inl err, \<lparr>db_tables = t0, db_schedule = rest\<rparr>)
            | ReplyLost \<Rightarrow> (Inl err, \<lparr>db_tables = t1, db_schedule = rest\<rparr>)))"

definition d1_read :: "'e \<Rightarrow> ('t \<Rightarrow> 'a) \<Rightarrow> ('t database, 'e, 'a) eff" where
  "d1_read err f = d1_call err (\<lambda>t. (f t, t))"

text \<open>The result object of one write statement, and the reader the repositories share.\<close>

definition d1_result :: "int \<Rightarrow> js" where
  "d1_result n = JObj [(''meta'', JObj [(''changes'', JInt n)])]"

definition resultChanges :: "js \<Rightarrow> int" where
  "resultChanges v =
     (if \<not> truthy v then 0
      else (case to_num (coalesce (jget (jget v ''meta'') ''changes'')
                        (coalesce (jget v ''changes'') (JInt 0))) of
          Num n \<Rightarrow> if safe_integer (Num n) \<and> 0 \<le> n then n else 0
        | _ \<Rightarrow> 0))"

lemma resultChanges_d1_result [simp]: "0 \<le> n \<Longrightarrow> n \<le> max_safe \<Longrightarrow> resultChanges (d1_result n) = n"
  by (simp add: resultChanges_def d1_result_def safe_integer_def)

lemma max_safe_pos [simp]: "0 \<le> max_safe" "1 \<le> max_safe" "- max_safe \<le> 0" "- max_safe \<le> 1"
  by (simp_all add: max_safe_def)

text \<open>
  \<open>db.batch([s1, ..])\<close> runs its statements in one transaction. A statement maps the tables to
  the number of rows it changed and the new tables.
\<close>

fun d1_batch :: "('t \<Rightarrow> int \<times> 't) list \<Rightarrow> 't \<Rightarrow> js list \<times> 't" where
  "d1_batch [] t = ([], t)"
| "d1_batch (s # ss) t =
     (let (n, t1) = s t; (rs, t2) = d1_batch ss t1 in (d1_result n # rs, t2))"

text \<open>Comparisons of a column with a bound integer: a null never compares, text is above numbers.\<close>

definition sql_gt :: "js \<Rightarrow> int \<Rightarrow> bool" where
  "sql_gt c n = (case c of
      JNum (Num k) \<Rightarrow> n < k
    | JNum (Frac m k) \<Rightarrow> n * 10 ^ k < m
    | JStr _ \<Rightarrow> True
    | _ \<Rightarrow> False)"

section \<open>Rely and guarantee\<close>

definition env_follows :: "('t \<Rightarrow> 't \<Rightarrow> bool) \<Rightarrow> 't database \<Rightarrow> bool" where
  "env_follows R w \<longleftrightarrow> (\<forall>(g, d) \<in> set (db_schedule w). \<forall>t. R\<^sup>*\<^sup>* t (g t))"

definition follows :: "('t \<Rightarrow> 't \<Rightarrow> bool) \<Rightarrow> ('t database, 'e, 'a) eff \<Rightarrow> bool" where
  "follows R m \<longleftrightarrow> (\<forall>w. env_follows R w \<longrightarrow>
      R\<^sup>*\<^sup>* (db_tables w) (db_tables (snd (m w))) \<and> env_follows R (snd (m w)))"

lemma env_follows_quiet [simp]: "env_follows R \<lparr>db_tables = t, db_schedule = []\<rparr>"
  by (simp add: env_follows_def)

lemma followsD:
  assumes "follows R m" "env_follows R w" "m w = (r, w')"
  shows "R\<^sup>*\<^sup>* (db_tables w) (db_tables w')" "env_follows R w'"
  using assms by (force simp: follows_def)+

lemma follows_d1_call [follows_intros]:
  assumes "\<And>t. R\<^sup>*\<^sup>* t (snd (f t))"
  shows "follows R (d1_call err f)"
  unfolding follows_def
proof (intro allI impI)
  fix w :: "'a database"
  assume e: "env_follows R w"
  show "R\<^sup>*\<^sup>* (db_tables w) (db_tables (snd (d1_call err f w))) \<and> env_follows R (snd (d1_call err f w))"
  proof (cases "db_schedule w")
    case Nil
    with assms [of "db_tables w"] e show ?thesis
      by (cases "f (db_tables w)") (simp add: d1_call_def env_follows_def)
  next
    case (Cons gd rest)
    obtain g d where gd: "gd = (g, d)" by (cases gd)
    have 1: "R\<^sup>*\<^sup>* (db_tables w) (g (db_tables w))"
      using e Cons gd by (auto simp: env_follows_def)
    have 2: "R\<^sup>*\<^sup>* (db_tables w) (snd (f (g (db_tables w))))"
      using 1 assms [of "g (db_tables w)"] by (rule rtranclp_trans)
    have 3: "env_follows R \<lparr>db_tables = t, db_schedule = rest\<rparr>" for t
      using e Cons by (auto simp: env_follows_def)
    obtain x t1 where f: "f (g (db_tables w)) = (x, t1)" by (cases "f (g (db_tables w))")
    from 1 2 3 Cons gd f show ?thesis
      by (cases d) (simp_all add: d1_call_def)
  qed
qed

lemma follows_d1_read [follows_intros]: "follows R (d1_read err f)"
  unfolding d1_read_def by (rule follows_d1_call) simp

lemma follows_pure:
  assumes "\<And>w. snd (m w) = w" shows "follows R m"
  using assms by (simp add: follows_def)

lemma follows_returnM [follows_intros]: "follows R (returnM x)"
  by (rule follows_pure) (simp add: returnM_run)

lemma follows_throwM [follows_intros]: "follows R (throwM x)"
  by (rule follows_pure) (simp add: throwM_run)

lemma follows_liftM [follows_intros]: "follows R (liftM x)"
  by (rule follows_pure) (simp add: liftM_run)

lemma follows_requireM [follows_intros]: "follows R (requireM b x)"
  by (rule follows_pure) (simp add: requireM_run)

lemma follows_bindM:
  assumes "follows R m" "\<And>x w w'. m w = (Inr x, w') \<Longrightarrow> follows R (f x)"
  shows "follows R (bindM m f)"
  unfolding follows_def
proof (intro allI impI)
  fix w assume e: "env_follows R w"
  obtain r w1 where m: "m w = (r, w1)" by (cases "m w")
  note s = followsD [OF assms(1) e m]
  show "R\<^sup>*\<^sup>* (db_tables w) (db_tables (snd (bindM m f w))) \<and> env_follows R (snd (bindM m f w))"
  proof (cases r)
    case (Inl x)
    with m s show ?thesis by (simp add: bindM_run)
  next
    case (Inr x)
    obtain r2 w2 where f: "f x w1 = (r2, w2)" by (cases "f x w1")
    have fx: "follows R (f x)" using assms(2) m Inr by blast
    from followsD [OF fx s(2) f] s m f Inr show ?thesis by (simp add: bindM_run)
  qed
qed

lemma follows_bindM' [follows_intros]:
  "follows R m \<Longrightarrow> (\<And>x. follows R (f x)) \<Longrightarrow> follows R (bindM m f)"
  by (rule follows_bindM)

lemma follows_catchM [follows_intros]:
  assumes "follows R m" "\<And>e. follows R (h e)"
  shows "follows R (catchM m h)"
  unfolding follows_def
proof (intro allI impI)
  fix w assume e: "env_follows R w"
  obtain r w1 where m: "m w = (r, w1)" by (cases "m w")
  note s = followsD [OF assms(1) e m]
  show "R\<^sup>*\<^sup>* (db_tables w) (db_tables (snd (catchM m h w))) \<and> env_follows R (snd (catchM m h w))"
  proof (cases r)
    case (Inl x)
    obtain r2 w2 where f: "h x w1 = (r2, w2)" by (cases "h x w1")
    from followsD [OF assms(2) s(2) f] s m f Inl show ?thesis by (simp add: catchM_run)
  next
    case (Inr x)
    with m s show ?thesis by (simp add: catchM_run)
  qed
qed

lemma follows_if [follows_intros]: "follows R a \<Longrightarrow> follows R b \<Longrightarrow> follows R (if c then a else b)"
  by simp

lemma follows_option [follows_intros]:
  "follows R a \<Longrightarrow> (\<And>x. follows R (b x)) \<Longrightarrow> follows R (case v of None \<Rightarrow> a | Some x \<Rightarrow> b x)"
  by (cases v) auto

lemma env_follows_mono: "env_follows R w \<Longrightarrow> (\<And>t t'. R t t' \<Longrightarrow> S t t') \<Longrightarrow> env_follows S w"
  unfolding env_follows_def by (blast intro: rtranclp_mono [THEN predicate2D])

text \<open>
  \<open>changes_once R S m\<close>: all that \<open>m\<close> does to the tables itself is at most one atomic change \<open>S\<close>; what
  comes before and after it are steps of the others, which \<open>R\<close> bounds.
\<close>

definition changes_once :: "('t \<Rightarrow> 't \<Rightarrow> bool) \<Rightarrow> ('t \<Rightarrow> 't \<Rightarrow> bool) \<Rightarrow> ('t database, 'e, 'a) eff \<Rightarrow> bool" where
  "changes_once R S m \<longleftrightarrow> (\<forall>w. env_follows R w \<longrightarrow>
     (\<exists>t t'. R\<^sup>*\<^sup>* (db_tables w) t \<and> (t' = t \<or> S t t') \<and> R\<^sup>*\<^sup>* t' (db_tables (snd (m w)))) \<and> env_follows R (snd (m w)))"

lemma changes_onceD:
  assumes "changes_once R S m" "env_follows R w" "m w = (r, w')"
  obtains t t' where "R\<^sup>*\<^sup>* (db_tables w) t" "t' = t \<or> S t t'" "R\<^sup>*\<^sup>* t' (db_tables w')" "env_follows R w'"
  using assms unfolding changes_once_def by (metis snd_conv)

lemma once_follows: "follows R m \<Longrightarrow> changes_once R S m"
  unfolding changes_once_def follows_def by blast

lemma once_call:
  assumes "\<And>t. snd (f t) = t \<or> S t (snd (f t))"
  shows "changes_once R S (d1_call err f)"
  unfolding changes_once_def
proof (intro allI impI)
  fix w :: "'a database"
  assume e: "env_follows R w"
  let ?m = "d1_call err f"
  show "(\<exists>t t'. R\<^sup>*\<^sup>* (db_tables w) t \<and> (t' = t \<or> S t t') \<and> R\<^sup>*\<^sup>* t' (db_tables (snd (?m w)))) \<and> env_follows R (snd (?m w))"
  proof (cases "db_schedule w")
    case Nil
    with assms [of "db_tables w"] e show ?thesis
      by (cases "f (db_tables w)") (auto simp: d1_call_def env_follows_def)
  next
    case (Cons gd rest)
    obtain g d where gd: "gd = (g, d)" by (cases gd)
    have 1: "R\<^sup>*\<^sup>* (db_tables w) (g (db_tables w))" using e Cons gd by (auto simp: env_follows_def)
    have 3: "env_follows R \<lparr>db_tables = t, db_schedule = rest\<rparr>" for t using e Cons by (auto simp: env_follows_def)
    obtain x t1 where f: "f (g (db_tables w)) = (x, t1)" by (cases "f (g (db_tables w))")
    with assms [of "g (db_tables w)"] have 2: "t1 = g (db_tables w) \<or> S (g (db_tables w)) t1" by auto
    have "snd (?m w) = \<lparr>db_tables = (if d = NotExecuted then g (db_tables w) else t1), db_schedule = rest\<rparr>"
      using Cons gd f by (cases d) (simp_all add: d1_call_def)
    with 1 2 3 show ?thesis by auto
  qed
qed

lemma once_after:
  assumes "follows R m" "\<And>x w w'. m w = (Inr x, w') \<Longrightarrow> changes_once R S (f x)"
  shows "changes_once R S (bindM m f)"
  unfolding changes_once_def
proof (intro allI impI)
  fix w assume e: "env_follows R w"
  obtain r w1 where m: "m w = (r, w1)" by (cases "m w")
  note s = followsD [OF assms(1) e m]
  show "(\<exists>t t'. R\<^sup>*\<^sup>* (db_tables w) t \<and> (t' = t \<or> S t t') \<and> R\<^sup>*\<^sup>* t' (db_tables (snd (bindM m f w)))) \<and> env_follows R (snd (bindM m f w))"
  proof (cases r)
    case (Inl x)
    with m s show ?thesis by (auto simp: bindM_run)
  next
    case (Inr x)
    obtain r2 w2 where f: "f x w1 = (r2, w2)" by (cases "f x w1")
    have fx: "changes_once R S (f x)" using assms(2) m Inr by blast
    obtain t t' where "R\<^sup>*\<^sup>* (db_tables w1) t" "t' = t \<or> S t t'" "R\<^sup>*\<^sup>* t' (db_tables w2)" "env_follows R w2"
      by (rule changes_onceD [OF fx s(2) f])
    with s(1) m Inr f show ?thesis by (auto simp: bindM_run intro: rtranclp_trans)
  qed
qed

lemma once_then:
  assumes "changes_once R S m" "\<And>x. follows R (f x)"
  shows "changes_once R S (bindM m f)"
  unfolding changes_once_def
proof (intro allI impI)
  fix w assume e: "env_follows R w"
  obtain r w1 where m: "m w = (r, w1)" by (cases "m w")
  obtain t t' where s: "R\<^sup>*\<^sup>* (db_tables w) t" "t' = t \<or> S t t'" "R\<^sup>*\<^sup>* t' (db_tables w1)" "env_follows R w1"
    by (rule changes_onceD [OF assms(1) e m])
  show "(\<exists>t t'. R\<^sup>*\<^sup>* (db_tables w) t \<and> (t' = t \<or> S t t') \<and> R\<^sup>*\<^sup>* t' (db_tables (snd (bindM m f w)))) \<and> env_follows R (snd (bindM m f w))"
  proof (cases r)
    case (Inl x)
    with m s show ?thesis by (auto simp: bindM_run)
  next
    case (Inr x)
    obtain r2 w2 where f: "f x w1 = (r2, w2)" by (cases "f x w1")
    from followsD [OF assms(2) s(4) f] s m Inr f show ?thesis by (auto simp: bindM_run intro: rtranclp_trans)
  qed
qed

lemma once_catch:
  assumes "changes_once R S m" "\<And>e. follows R (h e)"
  shows "changes_once R S (catchM m h)"
  unfolding changes_once_def
proof (intro allI impI)
  fix w assume e: "env_follows R w"
  obtain r w1 where m: "m w = (r, w1)" by (cases "m w")
  obtain t t' where s: "R\<^sup>*\<^sup>* (db_tables w) t" "t' = t \<or> S t t'" "R\<^sup>*\<^sup>* t' (db_tables w1)" "env_follows R w1"
    by (rule changes_onceD [OF assms(1) e m])
  show "(\<exists>t t'. R\<^sup>*\<^sup>* (db_tables w) t \<and> (t' = t \<or> S t t') \<and> R\<^sup>*\<^sup>* t' (db_tables (snd (catchM m h w)))) \<and> env_follows R (snd (catchM m h w))"
  proof (cases r)
    case (Inr x)
    with m s show ?thesis by (auto simp: catchM_run)
  next
    case (Inl x)
    obtain r2 w2 where h: "h x w1 = (r2, w2)" by (cases "h x w1")
    from followsD [OF assms(2) s(4) h] s m Inl h show ?thesis by (auto simp: catchM_run intro: rtranclp_trans)
  qed
qed

lemma once_if: "changes_once R S a \<Longrightarrow> changes_once R S b \<Longrightarrow> changes_once R S (if c then a else b)"
  by simp

lemma once_mono:
  assumes "changes_once R S m" "\<And>t t'. S t t' \<Longrightarrow> S' t t'"
  shows "changes_once R S' m"
  using assms unfolding changes_once_def by blast

text \<open>A call that was delivered ran on the tables its turn found.\<close>

lemma d1_call_Inr:
  assumes "d1_call err f w = (Inr x, w')" "env_follows R w"
  shows "\<exists>t. R\<^sup>*\<^sup>* (db_tables w) t \<and> f t = (x, db_tables w') \<and> env_follows R w'"
proof (cases "db_schedule w")
  case Nil
  with assms show ?thesis
    by (auto simp: d1_call_def env_follows_def split: prod.splits intro!: exI [of _ "db_tables w"])
next
  case (Cons gd rest)
  obtain g d where gd: "gd = (g, d)" by (cases gd)
  have 1: "R\<^sup>*\<^sup>* (db_tables w) (g (db_tables w))"
    using assms(2) Cons gd by (auto simp: env_follows_def)
  have 3: "env_follows R \<lparr>db_tables = t, db_schedule = rest\<rparr>" for t
    using assms(2) Cons by (auto simp: env_follows_def)
  obtain y t1 where f: "f (g (db_tables w)) = (y, t1)" by (cases "f (g (db_tables w))")
  from assms(1) Cons gd f have "d = Delivered" "y = x" "w' = \<lparr>db_tables = t1, db_schedule = rest\<rparr>"
    by (cases d; simp add: d1_call_def)+
  with 1 3 f show ?thesis by auto
qed

lemma d1_read_Inr:
  assumes "d1_read err f w = (Inr x, w')" "env_follows R w"
  shows "R\<^sup>*\<^sup>* (db_tables w) (db_tables w') \<and> x = f (db_tables w') \<and> env_follows R w'"
  using d1_call_Inr [OF assms(1) [unfolded d1_read_def] assms(2)] by auto

lemma d1_call_quiet:
  "d1_call err f \<lparr>db_tables = t, db_schedule = []\<rparr> =
     (Inr (fst (f t)), \<lparr>db_tables = snd (f t), db_schedule = []\<rparr>)"
  by (simp add: d1_call_def split: prod.splits)

lemma d1_read_quiet:
  "d1_read err f \<lparr>db_tables = t, db_schedule = []\<rparr> = (Inr (f t), \<lparr>db_tables = t, db_schedule = []\<rparr>)"
  by (simp add: d1_read_def d1_call_quiet)

lemmas d1_quiet = d1_call_quiet d1_read_quiet

section \<open>Protocols on tables\<close>

locale table_protocol =
  fixes step :: "'t \<Rightarrow> 't \<Rightarrow> bool" and inv :: "'t \<Rightarrow> bool"
  assumes step_inv: "inv t \<Longrightarrow> step t t' \<Longrightarrow> inv t'"
begin

lemma steps_inv: "step\<^sup>*\<^sup>* t t' \<Longrightarrow> inv t \<Longrightarrow> inv t'"
  by (induction rule: rtranclp_induct) (auto intro: step_inv)

lemma follows_inv:
  assumes "follows step m" "env_follows step w" "inv (db_tables w)" "m w = (r, w')"
  shows "inv (db_tables w')"
  using followsD(1) [OF assms(1,2,4)] assms(3) by (rule steps_inv)

end

text \<open>A protocol implements an abstract one through a view of the tables.\<close>

locale refined_protocol = table_protocol step inv
  for step :: "'t \<Rightarrow> 't \<Rightarrow> bool" and inv :: "'t \<Rightarrow> bool" +
  fixes view :: "'t \<Rightarrow> 'v" and astep :: "'v \<Rightarrow> 'v \<Rightarrow> bool"
  assumes step_view: "inv t \<Longrightarrow> step t t' \<Longrightarrow> astep\<^sup>*\<^sup>* (view t) (view t')"
begin

lemma steps_view: "step\<^sup>*\<^sup>* t t' \<Longrightarrow> inv t \<Longrightarrow> astep\<^sup>*\<^sup>* (view t) (view t')"
proof (induction rule: rtranclp_induct)
  case (step y z)
  from step.prems step.hyps(1) have "inv y" by (metis steps_inv)
  with step show ?case by (meson rtranclp_trans step_view)
qed simp

lemma follows_view:
  assumes "follows step m" "env_follows step w" "inv (db_tables w)" "m w = (r, w')"
  shows "astep\<^sup>*\<^sup>* (view (db_tables w)) (view (db_tables w'))"
  using followsD(1) [OF assms(1,2,4)] assms(3) by (rule steps_view)

end

end
