(* ===== verification/MaintenanceRepository.thy ===== *)
theory MaintenanceRepository
  imports MaintenanceMode Database JsSort
begin

text \<open>
  The maintenance row in the database: \<open>src/recovery/maintenance/maintenance-repository.ts\<close>
  over the table of \<open>db/portal-maintenance-schema.ts\<close>.

  A row is read column by column (\<open>maint_raw\<close>) and normalised; every operation is modelled
  whole, from the checks of its input to the row it reads back. The SQL statements are
  functions on the tables, one per statement, with the conditions of their WHERE clauses.
  The protocol \<open>maint_step\<close> collects the batches the operations commit; the invariant
  \<open>maint_inv\<close> says that the stored row is the encoding of a well-formed one, and
  \<open>mode_step\<close> is the abstract state machine it implements.
\<close>

section \<open>Tables and rows\<close>

record maint_raw =
  c_id :: js
  c_state :: js
  c_operation_id :: js
  c_actor_identity :: js
  c_actor_groups_json :: js
  c_controller_secret_hash :: js
  c_created_at :: js
  c_updated_at :: js
  c_expires_at :: js
  c_completed_at :: js
  c_failure_code :: js
  c_verification_json :: js

text \<open>The row with id \<open>'main'\<close>, and the table of sessions.\<close>

record tables =
  t_maintenance :: "maint_raw option"
  t_sessions :: "string list"

type_synonym 'a maint_eff = "(tables database, thrown, 'a) eff"

definition unavailable :: thrown where
  "unavailable = RepositoryError ''maintenance_state_unavailable'' 503"

definition request_invalid :: thrown where
  "request_invalid = RepositoryError ''maintenance_request_invalid'' 400"

definition safeInteger :: "js \<Rightarrow> thrown + int" where
  "safeInteger v = (case safe_int_in 1 max_safe v of Some n \<Rightarrow> Inr n | None \<Rightarrow> Inl request_invalid)"

definition optionalInteger :: "js \<Rightarrow> thrown + int option" where
  "optionalInteger v =
     (if nullish v then Inr None
      else (case safe_int_in 0 max_safe v of Some n \<Rightarrow> Inr (Some n) | None \<Rightarrow> Inl unavailable))"

definition clean_text :: "js \<Rightarrow> string" where
  "clean_text v = js_trim (to_str (coalesce v (JStr [])))"

definition actorContext :: "js \<Rightarrow> thrown + (string \<times> string list)" where
  "actorContext v =
     (if \<not> plain_object v then Inl request_invalid
      else (let identity = clean_text (jget v ''identity'') in
        (case jget v ''groups'' of
           JArr gs \<Rightarrow>
             (if identity = [] \<or> 320 < length identity \<or> 128 < length gs then Inl request_invalid
              else (let groups = sort_strings (filter (\<lambda>g. g \<noteq> []) (uniq (map clean_text gs))) in
                if list_ex (\<lambda>g. 320 < length g) groups then Inl request_invalid
                else Inr (identity, groups)))
         | _ \<Rightarrow> Inl request_invalid)))"

definition operationId :: "js \<Rightarrow> thrown + string" where
  "operationId v = (case v of
      JStr s \<Rightarrow> if operationIdPattern s then Inr s else Inl request_invalid
    | _ \<Rightarrow> Inl request_invalid)"

definition controllerSecret :: "js \<Rightarrow> thrown + string" where
  "controllerSecret v = (case v of
      JStr s \<Rightarrow> if controllerSecretPattern s then Inr s
                else Inl (RepositoryError ''maintenance_controller_invalid'' 409)
    | _ \<Rightarrow> Inl (RepositoryError ''maintenance_controller_invalid'' 409))"

definition controllerHash :: "js \<Rightarrow> thrown + string" where
  "controllerHash v = (case v of
      JStr s \<Rightarrow> if hash_pattern s then Inr s
                else Inl (RepositoryError ''maintenance_transition_failed'' 500)
    | _ \<Rightarrow> Inl (RepositoryError ''maintenance_transition_failed'' 500))"

definition fixedHashEqual :: "string \<Rightarrow> string \<Rightarrow> bool" where
  "fixedHashEqual expected actual =
     (if \<not> hash_pattern expected \<or> \<not> hash_pattern actual then False
      else fixed_difference expected actual = 0)"

definition parseJsonObject :: "js \<Rightarrow> thrown + js" where
  "parseJsonObject v = (case v of
      JStr s \<Rightarrow>
        (if 16384 < length s then Inl unavailable
         else (case json_parse s of
             Some p \<Rightarrow> if plain_object p then Inr p else Inl unavailable
           | None \<Rightarrow> Inl unavailable))
    | _ \<Rightarrow> Inl unavailable)"

definition parseGroups :: "js \<Rightarrow> thrown + string list" where
  "parseGroups v = (case v of
      JStr s \<Rightarrow>
        (if 65536 < length s then Inl unavailable
         else (case json_parse s of
             Some (JArr xs) \<Rightarrow>
               (let groups = map clean_text xs in
                if 128 < length xs \<or> list_ex (\<lambda>g. g = [] \<or> 320 < length g) groups
                   \<or> length (uniq groups) \<noteq> length groups
                then Inl unavailable else Inr groups)
           | _ \<Rightarrow> Inl unavailable))
    | _ \<Rightarrow> Inl unavailable)"

definition parse_entry :: "string \<times> js \<Rightarrow> thrown + verification_key" where
  "parse_entry = (\<lambda>(k, v). case parse_key k of
      None \<Rightarrow> Inl unavailable
    | Some key \<Rightarrow> if v = JStr ''ok'' then Inr key else Inl unavailable)"

definition parseVerification :: "js \<Rightarrow> thrown + verification_key list" where
  "parseVerification v = bindE (parseJsonObject v) (\<lambda>p. case p of
      JObj ps \<Rightarrow> mapE parse_entry ps
    | _ \<Rightarrow> Inr [])"

definition parse_failure_code :: "js \<Rightarrow> thrown + string option" where
  "parse_failure_code v =
     (if v = JNull then Inr None
      else (case v of
          JStr s \<Rightarrow> if s \<in> set safeFailureCodes then Inr (Some s) else Inl unavailable
        | _ \<Rightarrow> Inl unavailable))"

definition null_or :: "(js \<Rightarrow> thrown + 'a) \<Rightarrow> js \<Rightarrow> thrown + 'a option" where
  "null_or f v = (if v = JNull then Inr None else bindE (f v) (\<lambda>x. Inr (Some x)))"

definition empty_opt :: "string option \<Rightarrow> bool" where
  "empty_opt v = (v = None \<or> v = Some [])"

definition normalizeRow :: "maint_raw \<Rightarrow> thrown + maintenance_row" where
  "normalizeRow raw =
     bindE (case c_state raw of
         JStr s \<Rightarrow> if c_id raw = JStr ''main''
           then (case parse_state s of Some st \<Rightarrow> Inr st | None \<Rightarrow> Inl unavailable) else Inl unavailable
       | _ \<Rightarrow> Inl unavailable) (\<lambda>st.
     bindE (null_or operationId (c_operation_id raw)) (\<lambda>opId.
     let actor = (if c_actor_identity raw = JNull then None else Some (clean_text (c_actor_identity raw))) in
     bindE (null_or controllerHash (c_controller_secret_hash raw)) (\<lambda>secretHash.
     bindE (optionalInteger (c_created_at raw)) (\<lambda>createdAt.
     bindE (optionalInteger (c_updated_at raw)) (\<lambda>updatedAt.
     bindE (optionalInteger (c_expires_at raw)) (\<lambda>expiresAt.
     bindE (optionalInteger (c_completed_at raw)) (\<lambda>completedAt.
     bindE (parse_failure_code (c_failure_code raw)) (\<lambda>failureCode.
     bindE (parseGroups (c_actor_groups_json raw)) (\<lambda>actorGroups.
     bindE (parseVerification (c_verification_json raw)) (\<lambda>verification.
     bindE (guardE (\<not> (updatedAt = None \<or> (case actor of None \<Rightarrow> False | Some a \<Rightarrow> a = [] \<or> 320 < length a)))
        unavailable) (\<lambda>_.
     bindE (guardE
        (if st = Inactive
         then opId = None \<and> actor = None \<and> secretHash = None \<and> createdAt = None \<and> expiresAt = None
         else \<not> empty_opt opId \<and> \<not> empty_opt actor \<and> \<not> empty_opt secretHash \<and> createdAt \<noteq> None)
        unavailable) (\<lambda>_.
     Inr \<lparr>m_state = st, m_operationId = opId, m_actorIdentity = actor, m_actorGroups = actorGroups,
          m_controllerSecretHash = secretHash, m_createdAt = createdAt, m_updatedAt = updatedAt,
          m_expiresAt = expiresAt, m_completedAt = completedAt, m_failureCode = failureCode,
          m_verification = verification\<rparr>))))))))))))"

section \<open>Loading\<close>

definition loadRawMaintenanceState :: "maintenance_row option maint_eff" where
  "loadRawMaintenanceState =
     bindM (d1_read OtherError t_maintenance) (\<lambda>raw. case raw of
         None \<Rightarrow> returnM None
       | Some r \<Rightarrow> bindM (liftM (normalizeRow r)) (\<lambda>row. returnM (Some row)))"

definition loadMaintenanceState :: "maintenance_row option maint_eff" where
  "loadMaintenanceState = catchM loadRawMaintenanceState (\<lambda>e. case e of
      RepositoryError c n \<Rightarrow> throwM e
    | _ \<Rightarrow> throwM unavailable)"

definition transitionError :: "thrown \<Rightarrow> thrown" where
  "transitionError e = (case e of
      RepositoryError c n \<Rightarrow>
        if c = ''maintenance_state_unavailable'' then RepositoryError ''maintenance_transition_failed'' 500 else e
    | ModeError c n \<Rightarrow> RepositoryError c n
    | OtherError \<Rightarrow> RepositoryError ''maintenance_transition_failed'' 500)"

definition normalizedNow :: "int \<Rightarrow> js \<Rightarrow> thrown + int" where
  "normalizedNow clock v = safeInteger (coalesce v (JInt clock))"

definition safeTtl :: "js \<Rightarrow> thrown + int" where
  "safeTtl v = (case safe_int_in 60000 3600000 (coalesce v (JInt 900000)) of
      Some n \<Rightarrow> Inr n | None \<Rightarrow> Inl request_invalid)"

section \<open>Statements\<close>

definition inactive_raw :: "int \<Rightarrow> maint_raw" where
  "inactive_raw now =
     \<lparr>c_id = JStr ''main'', c_state = JStr ''inactive'', c_operation_id = JNull, c_actor_identity = JNull,
      c_actor_groups_json = JStr ''[]'', c_controller_secret_hash = JNull, c_created_at = JNull,
      c_updated_at = JInt now, c_expires_at = JNull, c_completed_at = JNull, c_failure_code = JNull,
      c_verification_json = JStr ''{}''\<rparr>"

text \<open>\<open>INSERT OR IGNORE\<close>: the row is only made when there is none.\<close>

definition initialize :: "int \<Rightarrow> tables \<Rightarrow> int \<times> tables" where
  "initialize now t = (case t_maintenance t of
      None \<Rightarrow> (1, t\<lparr>t_maintenance := Some (inactive_raw now)\<rparr>)
    | Some _ \<Rightarrow> (0, t))"

text \<open>\<open>UPDATE portal_maintenance_state SET .. WHERE id = 'main' AND ..\<close>\<close>

definition update_main :: "(maint_raw \<Rightarrow> bool) \<Rightarrow> (maint_raw \<Rightarrow> maint_raw) \<Rightarrow> tables \<Rightarrow> int \<times> tables" where
  "update_main cond f t = (case t_maintenance t of
      None \<Rightarrow> (0, t)
    | Some raw \<Rightarrow> if cond raw then (1, t\<lparr>t_maintenance := Some (f raw)\<rparr>) else (0, t))"

definition claim :: "string \<Rightarrow> string \<Rightarrow> string list \<Rightarrow> string \<Rightarrow> int \<Rightarrow> int \<Rightarrow> tables \<Rightarrow> int \<times> tables" where
  "claim i identity groups hash now expires =
     update_main (\<lambda>r. c_state r = JStr ''inactive'')
       (\<lambda>r. r\<lparr>c_state := JStr ''entering'', c_operation_id := JStr i, c_actor_identity := JStr identity,
             c_actor_groups_json := JStr (json_print (JArr (map JStr groups))),
             c_controller_secret_hash := JStr hash, c_created_at := JInt now, c_updated_at := JInt now,
             c_expires_at := JInt expires, c_completed_at := JNull, c_failure_code := JNull,
             c_verification_json := JStr ''{}''\<rparr>)"

definition owned :: "maintenance_state \<Rightarrow> string \<Rightarrow> string \<Rightarrow> maint_raw \<Rightarrow> bool" where
  "owned st i hash r = (c_state r = JStr (state_name st) \<and> c_operation_id r = JStr i
     \<and> c_controller_secret_hash r = JStr hash)"

definition activate :: "string \<Rightarrow> string \<Rightarrow> int \<Rightarrow> tables \<Rightarrow> int \<times> tables" where
  "activate i hash now =
     update_main (\<lambda>r. owned Entering i hash r \<and> sql_gt (c_expires_at r) now)
       (\<lambda>r. r\<lparr>c_state := JStr ''active'', c_updated_at := JInt now, c_expires_at := JNull\<rparr>)"

definition revoke :: "string \<Rightarrow> string \<Rightarrow> tables \<Rightarrow> int \<times> tables" where
  "revoke i hash t = (case t_maintenance t of
      Some r \<Rightarrow> if owned Active i hash r then (int (length (t_sessions t)), t\<lparr>t_sessions := []\<rparr>) else (0, t)
    | None \<Rightarrow> (0, t))"

definition begin_verification :: "string \<Rightarrow> string \<Rightarrow> int \<Rightarrow> tables \<Rightarrow> int \<times> tables" where
  "begin_verification i hash now =
     update_main (owned Active i hash) (\<lambda>r. r\<lparr>c_state := JStr ''verifying'', c_updated_at := JInt now\<rparr>)"

definition begin_exit :: "string \<Rightarrow> string \<Rightarrow> verification_key list \<Rightarrow> int \<Rightarrow> tables \<Rightarrow> int \<times> tables" where
  "begin_exit i hash verification now =
     update_main (owned Verifying i hash)
       (\<lambda>r. r\<lparr>c_state := JStr ''exiting'',
             c_verification_json := JStr (json_print (verification_js verification)), c_updated_at := JInt now\<rparr>)"

definition reset_row :: "int \<Rightarrow> maint_raw \<Rightarrow> maint_raw" where
  "reset_row now r =
     r\<lparr>c_state := JStr ''inactive'', c_operation_id := JNull, c_actor_identity := JNull,
       c_actor_groups_json := JStr ''[]'', c_controller_secret_hash := JNull, c_created_at := JNull,
       c_updated_at := JInt now, c_expires_at := JNull, c_completed_at := JInt now,
       c_failure_code := JNull, c_verification_json := JStr ''{}''\<rparr>"

definition finish :: "string \<Rightarrow> string \<Rightarrow> int \<Rightarrow> tables \<Rightarrow> int \<times> tables" where
  "finish i hash now = update_main (owned Exiting i hash) (reset_row now)"

definition abandon :: "string \<Rightarrow> string \<Rightarrow> int \<Rightarrow> tables \<Rightarrow> int \<times> tables" where
  "abandon i hash now =
     update_main (\<lambda>r. owned Entering i hash r \<and> sql_gt (c_expires_at r) now) (reset_row now)"

section \<open>Operations\<close>

record transition_input =
  in_operationId :: js
  in_controllerSecret :: js
  in_confirmation :: js
  in_now :: js
  in_verification :: js

definition prepareMaintenance ::
  "(string \<Rightarrow> string) \<Rightarrow> int \<Rightarrow> js \<Rightarrow> js \<Rightarrow> js \<Rightarrow> js \<Rightarrow> js \<Rightarrow> (maintenance_row \<times> string) maint_eff" where
  "prepareMaintenance sha clock actorValue nowOption ttlMs newId newSecret =
     catchM
      (bindM (liftM (actorContext actorValue)) (\<lambda>(identity, groups).
       bindM (liftM (normalizedNow clock nowOption)) (\<lambda>now.
       bindM (liftM (safeTtl ttlMs)) (\<lambda>ttl.
       let expires = now + ttl in
       bindM (liftM (operationId newId)) (\<lambda>i.
       bindM (liftM (controllerSecret newSecret)) (\<lambda>secret.
       bindM (liftM (bindE (hashMaintenanceControllerSecret sha (JStr secret)) (\<lambda>h. controllerHash (JStr h)))) (\<lambda>hash.
       bindM (d1_call OtherError (d1_batch [initialize now, claim i identity groups hash now expires])) (\<lambda>results.
       bindM (requireM (length results = 2 \<and> resultChanges (results ! 1) = 1)
               (RepositoryError ''maintenance_operation_conflict'' 409)) (\<lambda>_.
       bindM loadRawMaintenanceState (\<lambda>loaded.
       (case loaded of
          Some row \<Rightarrow>
            bindM (requireM (m_state row = Entering \<and> m_operationId row = Some i
                     \<and> m_controllerSecretHash row = Some hash)
                   (RepositoryError ''maintenance_transition_failed'' 500)) (\<lambda>_.
            returnM (row, secret))
        | None \<Rightarrow> throwM (RepositoryError ''maintenance_transition_failed'' 500))))))))))))
      (\<lambda>e. throwM (case transitionError e of
          RepositoryError c n \<Rightarrow> if c = ''maintenance_state_unavailable'' then unavailable else RepositoryError c n
        | other \<Rightarrow> other))"

definition authorizeTransition ::
  "(string \<Rightarrow> string) \<Rightarrow> int \<Rightarrow> transition_input \<Rightarrow> confirmation_action \<Rightarrow> maintenance_state \<Rightarrow>
     (string \<times> string \<times> int) maint_eff" where
  "authorizeTransition sha clock input action expectedState =
     bindM (liftM (operationId (in_operationId input))) (\<lambda>i.
     bindM (liftM (controllerSecret (in_controllerSecret input))) (\<lambda>secret.
     bindM (liftM (maintenanceConfirmation (JStr (action_name action)) (JStr i))) (\<lambda>expectedConfirmation.
     bindM (requireM (in_confirmation input = JStr expectedConfirmation)
             (RepositoryError ''maintenance_confirmation_required'' 422)) (\<lambda>_.
     bindM (liftM (normalizedNow clock (in_now input))) (\<lambda>now.
     bindM loadRawMaintenanceState (\<lambda>loaded.
     (case loaded of
        None \<Rightarrow> throwM (RepositoryError ''maintenance_transition_invalid'' 409)
      | Some row \<Rightarrow>
         bindM (requireM (m_state row = expectedState \<and> m_operationId row = Some i
                  \<and> \<not> empty_opt (m_controllerSecretHash row))
                (RepositoryError ''maintenance_transition_invalid'' 409)) (\<lambda>_.
         bindM (requireM (\<not> (expectedState = Entering \<and>
                   (case m_expiresAt row of None \<Rightarrow> True | Some x \<Rightarrow> x \<le> now)))
                (RepositoryError ''maintenance_prepare_expired'' 409)) (\<lambda>_.
         bindM (liftM (bindE (hashMaintenanceControllerSecret sha (JStr secret)) (\<lambda>h. controllerHash (JStr h)))) (\<lambda>hash.
         bindM (requireM (fixedHashEqual (case m_controllerSecretHash row of Some h \<Rightarrow> h | None \<Rightarrow> []) hash)
                (RepositoryError ''maintenance_controller_invalid'' 409)) (\<lambda>_.
         returnM (i, hash, now))))))))))))"

definition finishTransition :: "js list \<Rightarrow> maintenance_state \<Rightarrow> maintenance_row maint_eff" where
  "finishTransition results expectedState =
     bindM (requireM (1 \<le> length results \<and> resultChanges (results ! 0) = 1)
             (RepositoryError ''maintenance_transition_invalid'' 409)) (\<lambda>_.
     bindM loadRawMaintenanceState (\<lambda>loaded.
     (case loaded of
        Some row \<Rightarrow>
          bindM (requireM (m_state row = expectedState)
                  (RepositoryError ''maintenance_transition_failed'' 500)) (\<lambda>_. returnM row)
      | None \<Rightarrow> throwM (RepositoryError ''maintenance_transition_failed'' 500))))"

definition enterMaintenance :: "(string \<Rightarrow> string) \<Rightarrow> int \<Rightarrow> transition_input \<Rightarrow> maintenance_row maint_eff" where
  "enterMaintenance sha clock input =
     catchM (bindM (authorizeTransition sha clock input AEnter Entering) (\<lambda>(i, hash, now).
             bindM (d1_call OtherError (d1_batch [activate i hash now, revoke i hash])) (\<lambda>results.
             finishTransition results Active)))
       (\<lambda>e. throwM (transitionError e))"

definition startMaintenanceVerification ::
  "(string \<Rightarrow> string) \<Rightarrow> int \<Rightarrow> transition_input \<Rightarrow> maintenance_row maint_eff" where
  "startMaintenanceVerification sha clock input =
     catchM (bindM (authorizeTransition sha clock input AVerify Active) (\<lambda>(i, hash, now).
             bindM (d1_call OtherError (d1_batch [begin_verification i hash now])) (\<lambda>results.
             finishTransition results Verifying)))
       (\<lambda>e. throwM (transitionError e))"

definition exitMaintenance :: "(string \<Rightarrow> string) \<Rightarrow> int \<Rightarrow> transition_input \<Rightarrow> maintenance_row maint_eff" where
  "exitMaintenance sha clock input =
     catchM (bindM (authorizeTransition sha clock input AExit Verifying) (\<lambda>(i, hash, now).
             bindM (liftM (validateMaintenanceVerification (in_verification input))) (\<lambda>verification.
             bindM (d1_call OtherError (d1_batch [begin_exit i hash verification now])) (\<lambda>results.
             finishTransition results Exiting))))
       (\<lambda>e. throwM (transitionError e))"

definition completeMaintenance ::
  "(string \<Rightarrow> string) \<Rightarrow> int \<Rightarrow> transition_input \<Rightarrow> maintenance_row maint_eff" where
  "completeMaintenance sha clock input =
     catchM (bindM (authorizeTransition sha clock input AComplete Exiting) (\<lambda>(i, hash, now).
             bindM (d1_call OtherError (d1_batch [finish i hash now])) (\<lambda>results.
             finishTransition results Inactive)))
       (\<lambda>e. throwM (transitionError e))"

definition cancelMaintenance :: "(string \<Rightarrow> string) \<Rightarrow> int \<Rightarrow> transition_input \<Rightarrow> maintenance_row maint_eff" where
  "cancelMaintenance sha clock input =
     catchM (bindM (authorizeTransition sha clock input ACancel Entering) (\<lambda>(i, hash, now).
             bindM (d1_call OtherError (d1_batch [abandon i hash now])) (\<lambda>results.
             finishTransition results Inactive)))
       (\<lambda>e. throwM (transitionError e))"

end
