(* ===== verification/MaintenanceProtocol.thy ===== *)
theory MaintenanceProtocol
  imports MaintenanceRepository
begin

text \<open>
  What the maintenance repository guarantees: stored rows are encodings of well-formed rows
  (\<open>encode_row\<close>, \<open>row_wf\<close>), every batch is a step of \<open>maint_step\<close>, every step implements the
  abstract machine \<open>mode_step\<close>, and every operation follows the protocol under any schedule
  of faults and interference.
\<close>

section \<open>Well-formed rows and their columns\<close>

definition stamp :: "int \<Rightarrow> bool" where
  "stamp n = (0 \<le> n \<and> n \<le> max_safe)"

definition opt_stamp :: "int option \<Rightarrow> bool" where
  "opt_stamp v = (case v of None \<Rightarrow> True | Some n \<Rightarrow> stamp n)"

definition clean :: "nat \<Rightarrow> string \<Rightarrow> bool" where
  "clean n s = (js_trim s = s \<and> s \<noteq> [] \<and> length s \<le> n)"

definition groups_json :: "string list \<Rightarrow> string" where
  "groups_json gs = json_print (JArr (map JStr gs))"

definition groups_wf :: "string list \<Rightarrow> bool" where
  "groups_wf gs = (list_all (clean 320) gs \<and> distinct gs \<and> length gs \<le> 128
     \<and> length (groups_json gs) \<le> 65536)"

definition row_wf :: "maintenance_row \<Rightarrow> bool" where
  "row_wf r = (groups_wf (m_actorGroups r) \<and> distinct (m_verification r)
     \<and> opt_stamp (m_updatedAt r) \<and> m_updatedAt r \<noteq> None \<and> opt_stamp (m_completedAt r)
     \<and> m_failureCode r = None
     \<and> (if m_state r = Inactive
        then m_operationId r = None \<and> m_actorIdentity r = None \<and> m_controllerSecretHash r = None
          \<and> m_createdAt r = None \<and> m_expiresAt r = None
        else (\<exists>i. m_operationId r = Some i \<and> operationIdPattern i)
          \<and> (\<exists>a. m_actorIdentity r = Some a \<and> clean 320 a)
          \<and> (\<exists>h. m_controllerSecretHash r = Some h \<and> hash_pattern h)
          \<and> opt_stamp (m_createdAt r) \<and> m_createdAt r \<noteq> None \<and> opt_stamp (m_expiresAt r)))"

definition encode_row :: "maintenance_row \<Rightarrow> maint_raw" where
  "encode_row r =
     \<lparr>c_id = JStr ''main'', c_state = JStr (state_name (m_state r)),
      c_operation_id = js_opt_str (m_operationId r), c_actor_identity = js_opt_str (m_actorIdentity r),
      c_actor_groups_json = JStr (groups_json (m_actorGroups r)),
      c_controller_secret_hash = js_opt_str (m_controllerSecretHash r),
      c_created_at = js_opt_int (m_createdAt r), c_updated_at = js_opt_int (m_updatedAt r),
      c_expires_at = js_opt_int (m_expiresAt r), c_completed_at = js_opt_int (m_completedAt r),
      c_failure_code = js_opt_str (m_failureCode r),
      c_verification_json = JStr (json_print (verification_js (m_verification r)))\<rparr>"

lemma js_opt_simps [simp]:
  "js_opt_str None = JNull" "js_opt_str (Some s) = JStr s"
  "js_opt_int None = JNull" "js_opt_int (Some n) = JInt n"
  by (simp_all add: js_opt_str_def js_opt_int_def)

lemma js_opt_str_eq [simp]:
  "js_opt_str v = JNull \<longleftrightarrow> v = None" "js_opt_str v = JStr s \<longleftrightarrow> v = Some s"
  by (cases v; simp)+

lemma optionalInteger_opt: "opt_stamp v \<Longrightarrow> optionalInteger (js_opt_int v) = Inr v"
  by (cases v) (simp_all add: optionalInteger_def nullish_def opt_stamp_def stamp_def max_safe_def)

lemma optionalInteger_JNull [simp]: "optionalInteger JNull = Inr None"
  by (simp add: optionalInteger_def nullish_def)

lemma parse_inactive [simp]: "parse_state ''inactive'' = Some Inactive"
  using parse_state_name [of Inactive] by (simp only: state_name.simps)

lemma clean_clean_text: "js_trim s = s \<Longrightarrow> clean_text (JStr s) = s"
  by (simp add: clean_text_def)

lemma parseGroups_json:
  assumes "groups_wf gs" shows "parseGroups (JStr (groups_json gs)) = Inr gs"
proof -
  have j: "json_parse (groups_json gs) = Some (JArr (map JStr gs))"
    unfolding groups_json_def by (rule json_parse_print) (simp add: list_all_iff)
  have m: "map clean_text (map JStr gs) = gs"
    using assms by (auto simp: groups_wf_def clean_def list_all_iff clean_clean_text intro!: map_idI)
  have u: "length (uniq gs) = length gs"
    using assms by (simp add: groups_wf_def length_uniq_eq_iff)
  have e: "\<not> list_ex (\<lambda>g. g = [] \<or> 320 < length g) gs"
    using assms by (auto simp: groups_wf_def clean_def list_all_iff list_ex_iff)
  show ?thesis
    using assms j m u e by (simp add: parseGroups_def groups_wf_def Let_def)
qed

lemma verification_json_length:
  assumes "distinct ks" shows "length (json_print (verification_js ks)) \<le> 16384"
proof -
  have step: "length (js_join '','' (map f ks)) \<le> 40 * length ks" if "\<And>k. length (f k) \<le> 39" for f :: "verification_key \<Rightarrow> string" and ks
  proof (induction ks)
    case (Cons k ks)
    from Cons that [of k] show ?case by (cases ks) auto
  qed simp
  have "finite (UNIV :: verification_key set)" "card (UNIV :: verification_key set) \<le> 5"
  proof -
    have u: "(UNIV :: verification_key set) = set verificationKeys"
      by (auto simp: verificationKeys_def intro: verification_key.exhaust)
    show "finite (UNIV :: verification_key set)" unfolding u by simp
    show "card (UNIV :: verification_key set) \<le> 5"
      unfolding u using card_length [of verificationKeys] by (simp add: verificationKeys_def)
  qed
  then have "card (set ks) \<le> 5" by (meson card_mono order_trans subset_UNIV)
  with assms have n: "length ks \<le> 5" by (simp add: distinct_card)
  have "length (json_quote (key_name k) @ '':'' @ json_quote ''ok'') \<le> 39" for k
    by (cases k) (simp_all add: json_quote_def esc_char_def)
  from step [of "\<lambda>k. json_quote (key_name k) @ '':'' @ json_quote ''ok''" ks, OF this] n
  show ?thesis by (simp add: verification_js_def comp_def)
qed

lemma parse_entries: "mapE parse_entry (map (\<lambda>k. (key_name k, JStr ''ok'')) ks) = Inr ks"
  by (induction ks) (simp_all add: parse_entry_def)

lemma parseVerification_json:
  assumes "distinct ks"
  shows "parseVerification (JStr (json_print (verification_js ks))) = Inr ks"
proof -
  have "json_parse (json_print (verification_js ks)) = Some (verification_js ks)"
    by (rule json_parse_print) (rule verification_js_plain [OF assms])
  with verification_json_length [OF assms] show ?thesis
    by (simp add: parseVerification_def parseJsonObject_def verification_js_def plain_object_def parse_entries)
qed

lemma operationIdPattern_nonempty: "operationIdPattern s \<Longrightarrow> s \<noteq> []"
  by (auto simp: operationIdPattern_def dest: prefixed_uuid_ci_nonempty)

lemma normalizeRow_encode:
  assumes wf: "row_wf r" shows "normalizeRow (encode_row r) = Inr r"
proof -
  have g: "parseGroups (JStr (groups_json (m_actorGroups r))) = Inr (m_actorGroups r)"
    using wf by (intro parseGroups_json) (simp add: row_wf_def)
  have v: "parseVerification (JStr (json_print (verification_js (m_verification r)))) = Inr (m_verification r)"
    using wf by (intro parseVerification_json) (simp add: row_wf_def)
  have st: "opt_stamp (m_updatedAt r)" "opt_stamp (m_completedAt r)" "opt_stamp (m_createdAt r)"
       "opt_stamp (m_expiresAt r)" "m_updatedAt r \<noteq> None" "m_failureCode r = None"
    using wf by (auto simp: row_wf_def opt_stamp_def split: if_splits)
  have base: "normalizeRow (encode_row r) = Inr r"
    if "null_or operationId (js_opt_str (m_operationId r)) = Inr (m_operationId r)"
       "(if m_actorIdentity r = None then None else Some (clean_text (js_opt_str (m_actorIdentity r)))) = m_actorIdentity r"
       "null_or controllerHash (js_opt_str (m_controllerSecretHash r)) = Inr (m_controllerSecretHash r)"
       "\<not> (case m_actorIdentity r of None \<Rightarrow> False | Some a \<Rightarrow> a = [] \<or> 320 < length a)"
       "if m_state r = Inactive
         then m_operationId r = None \<and> m_actorIdentity r = None \<and> m_controllerSecretHash r = None \<and> m_createdAt r = None \<and> m_expiresAt r = None
         else \<not> empty_opt (m_operationId r) \<and> \<not> empty_opt (m_actorIdentity r) \<and> \<not> empty_opt (m_controllerSecretHash r) \<and> m_createdAt r \<noteq> None"
    using that st g v
    by (cases r; cases "m_actorIdentity r"; cases "m_state r = Inactive")
      (simp_all add: normalizeRow_def encode_row_def optionalInteger_opt parse_failure_code_def
        Let_def empty_opt_def)
  show ?thesis
  proof (cases "m_state r = Inactive")
    case True
    with wf show ?thesis by (intro base) (simp_all add: row_wf_def null_or_def)
  next
    case False
    with wf obtain i a h where e: "m_operationId r = Some i" "operationIdPattern i"
        "m_actorIdentity r = Some a" "clean 320 a" "m_controllerSecretHash r = Some h" "hash_pattern h"
        "m_createdAt r \<noteq> None"
      by (auto simp: row_wf_def)
    with False show ?thesis
      by (intro base)
        (auto simp: null_or_def operationId_def controllerHash_def clean_def clean_clean_text empty_opt_def
          dest: operationIdPattern_nonempty hash_pattern_nonempty)
  qed
qed

section \<open>The protocol\<close>

definition claim_ok :: "string \<Rightarrow> string \<Rightarrow> string list \<Rightarrow> string \<Rightarrow> int \<Rightarrow> int \<Rightarrow> bool" where
  "claim_ok i identity groups hash now expires =
     (operationIdPattern i \<and> clean 320 identity \<and> groups_wf groups \<and> hash_pattern hash
      \<and> stamp now \<and> stamp expires)"

inductive maint_step :: "tables \<Rightarrow> tables \<Rightarrow> bool" where
  claimed: "claim_ok i identity groups hash now expires \<Longrightarrow>
    maint_step t (snd (d1_batch [initialize now, claim i identity groups hash now expires] t))"
| activated: "stamp now \<Longrightarrow> maint_step t (snd (d1_batch [activate i h now, revoke i h] t))"
| verification_begun: "stamp now \<Longrightarrow> maint_step t (snd (d1_batch [begin_verification i h now] t))"
| exit_begun: "stamp now \<Longrightarrow> distinct ks \<Longrightarrow> maint_step t (snd (d1_batch [begin_exit i h ks now] t))"
| finished: "stamp now \<Longrightarrow> maint_step t (snd (d1_batch [finish i h now] t))"
| abandoned: "stamp now \<Longrightarrow> maint_step t (snd (d1_batch [abandon i h now] t))"
| sessions_changed: "maint_step t (t\<lparr>t_sessions := ss\<rparr>)"

definition maint_inv :: "tables \<Rightarrow> bool" where
  "maint_inv t = (case t_maintenance t of
      None \<Rightarrow> True
    | Some raw \<Rightarrow> (\<exists>r. row_wf r \<and> raw = encode_row r))"

text \<open>The abstract machine: nothing is running, or an operation with its secret's hash is.\<close>

datatype mode = Idle | Running maintenance_state string string

definition row_mode :: "maintenance_row \<Rightarrow> mode" where
  "row_mode r = (case (m_operationId r, m_controllerSecretHash r) of
      (Some i, Some h) \<Rightarrow> Running (m_state r) i h
    | _ \<Rightarrow> Idle)"

definition view :: "tables \<Rightarrow> mode" where
  "view t = (case t_maintenance t of
      None \<Rightarrow> Idle
    | Some raw \<Rightarrow> (case normalizeRow raw of Inr r \<Rightarrow> row_mode r | Inl _ \<Rightarrow> Idle))"

inductive mode_step :: "mode \<Rightarrow> mode \<Rightarrow> bool" where
  prepare: "mode_step Idle (Running Entering i h)"
| enter: "mode_step (Running Entering i h) (Running Active i h)"
| verify: "mode_step (Running Active i h) (Running Verifying i h)"
| exit: "mode_step (Running Verifying i h) (Running Exiting i h)"
| complete: "mode_step (Running Exiting i h) Idle"
| cancel: "mode_step (Running Entering i h) Idle"

inductive_simps mode_step_simps [simp]:
  "mode_step Idle m" "mode_step (Running st i h) m"

section \<open>Effect of the statements on an encoded row\<close>

lemma encode_row_columns [simp]:
  "c_state (encode_row r) = JStr (state_name (m_state r))"
  "c_operation_id (encode_row r) = js_opt_str (m_operationId r)"
  "c_controller_secret_hash (encode_row r) = js_opt_str (m_controllerSecretHash r)"
  "c_expires_at (encode_row r) = js_opt_int (m_expiresAt r)"
  by (simp_all add: encode_row_def)

lemma owned_encode [simp]:
  "owned st i h (encode_row r) \<longleftrightarrow>
     m_state r = st \<and> m_operationId r = Some i \<and> m_controllerSecretHash r = Some h"
  by (auto simp: owned_def)

lemma sql_gt_opt [simp]: "sql_gt (js_opt_int v) n \<longleftrightarrow> (case v of None \<Rightarrow> False | Some k \<Rightarrow> n < k)"
  by (cases v) (simp_all add: sql_gt_def)

lemma empty_json [simp]: "json_print (verification_js []) = ''{}''" "groups_json [] = ''[]''"
  by (simp_all add: verification_js_def groups_json_def)

lemma state_inactive [simp]: "state_name st = ''inactive'' \<longleftrightarrow> st = Inactive"
  by (cases st) simp_all

definition inactive_row :: "int \<Rightarrow> int option \<Rightarrow> maintenance_row" where
  "inactive_row now completed =
     \<lparr>m_state = Inactive, m_operationId = None, m_actorIdentity = None, m_actorGroups = [],
      m_controllerSecretHash = None, m_createdAt = None, m_updatedAt = Some now, m_expiresAt = None,
      m_completedAt = completed, m_failureCode = None, m_verification = []\<rparr>"

definition entering_row :: "string \<Rightarrow> string \<Rightarrow> string list \<Rightarrow> string \<Rightarrow> int \<Rightarrow> int \<Rightarrow> maintenance_row" where
  "entering_row i identity groups hash now expires =
     \<lparr>m_state = Entering, m_operationId = Some i, m_actorIdentity = Some identity, m_actorGroups = groups,
      m_controllerSecretHash = Some hash, m_createdAt = Some now, m_updatedAt = Some now,
      m_expiresAt = Some expires, m_completedAt = None, m_failureCode = None, m_verification = []\<rparr>"

lemma groups_wf_Nil [simp]: "groups_wf []"
  by (simp add: groups_wf_def)

lemma inactive_row_wf [simp]: "stamp now \<Longrightarrow> opt_stamp c \<Longrightarrow> row_wf (inactive_row now c)"
  by (simp add: row_wf_def inactive_row_def opt_stamp_def)

lemma entering_row_wf [simp]:
  "claim_ok i identity groups hash now expires \<Longrightarrow> row_wf (entering_row i identity groups hash now expires)"
  by (simp add: row_wf_def entering_row_def opt_stamp_def claim_ok_def)

lemma inactive_raw_encode: "inactive_raw now = encode_row (inactive_row now None)"
  by (simp add: inactive_raw_def encode_row_def inactive_row_def)

lemma reset_encode: "reset_row now (encode_row r) = encode_row (inactive_row now (Some now))"
  by (simp add: reset_row_def encode_row_def inactive_row_def)

definition advance :: "maintenance_state \<Rightarrow> int \<Rightarrow> maintenance_row \<Rightarrow> maintenance_row" where
  "advance st now r = r\<lparr>m_state := st, m_updatedAt := Some now\<rparr>"

lemma advance_wf:
  "row_wf r \<Longrightarrow> m_state r \<noteq> Inactive \<Longrightarrow> st \<noteq> Inactive \<Longrightarrow> stamp now \<Longrightarrow> row_wf (advance st now r)"
  by (simp add: row_wf_def advance_def opt_stamp_def)

lemma advance_expires_wf:
  "row_wf r \<Longrightarrow> m_state r \<noteq> Inactive \<Longrightarrow> st \<noteq> Inactive \<Longrightarrow> stamp now \<Longrightarrow>
     row_wf ((advance st now r)\<lparr>m_expiresAt := None\<rparr>)"
  by (simp add: row_wf_def advance_def opt_stamp_def)

lemma advance_verification_wf:
  "row_wf r \<Longrightarrow> m_state r \<noteq> Inactive \<Longrightarrow> st \<noteq> Inactive \<Longrightarrow> stamp now \<Longrightarrow> distinct ks \<Longrightarrow>
     row_wf ((advance st now r)\<lparr>m_verification := ks\<rparr>)"
  by (simp add: row_wf_def advance_def opt_stamp_def)

lemma encode_updates:
  "(encode_row r)\<lparr>c_state := JStr ''active'', c_updated_at := JInt now, c_expires_at := JNull\<rparr>
     = encode_row ((advance Active now r)\<lparr>m_expiresAt := None\<rparr>)"
  "(encode_row r)\<lparr>c_state := JStr ''verifying'', c_updated_at := JInt now\<rparr>
     = encode_row (advance Verifying now r)"
  "(encode_row r)\<lparr>c_state := JStr ''exiting'',
      c_verification_json := JStr (json_print (verification_js ks)), c_updated_at := JInt now\<rparr>
     = encode_row ((advance Exiting now r)\<lparr>m_verification := ks\<rparr>)"
  "(encode_row r)\<lparr>c_state := JStr ''entering'', c_operation_id := JStr i, c_actor_identity := JStr identity,
      c_actor_groups_json := JStr (json_print (JArr (map JStr groups))),
      c_controller_secret_hash := JStr hash, c_created_at := JInt now, c_updated_at := JInt now,
      c_expires_at := JInt expires, c_completed_at := JNull, c_failure_code := JNull,
      c_verification_json := JStr ''{}''\<rparr>
     = encode_row (entering_row i identity groups hash now expires)"
  by (simp_all add: encode_row_def advance_def entering_row_def groups_json_def)

lemma update_main_run [simp]:
  "t_maintenance t = Some raw \<Longrightarrow>
     update_main cond f t = (if cond raw then (1, t\<lparr>t_maintenance := Some (f raw)\<rparr>) else (0, t))"
  "t_maintenance t = None \<Longrightarrow> update_main cond f t = (0, t)"
  by (simp_all add: update_main_def)

lemmas statement_defs = claim_def activate_def begin_verification_def begin_exit_def finish_def abandon_def

lemma initialize_run [simp]:
  "t_maintenance t = Some raw \<Longrightarrow> initialize now t = (0, t)"
  "t_maintenance t = None \<Longrightarrow>
     initialize now t = (1, t\<lparr>t_maintenance := Some (encode_row (inactive_row now None))\<rparr>)"
  by (simp_all add: initialize_def inactive_raw_encode)

text \<open>What a batch leaves: the row it wrote, or the tables as they were.\<close>

lemma claim_batch:
  assumes "maint_inv t"
  shows "d1_batch [initialize now, claim i identity groups hash now expires] t =
    (case t_maintenance t of
       None \<Rightarrow> ([d1_result 1, d1_result 1],
                t\<lparr>t_maintenance := Some (encode_row (entering_row i identity groups hash now expires))\<rparr>)
     | Some raw \<Rightarrow>
         if c_state raw = JStr ''inactive''
         then ([d1_result 0, d1_result 1],
                t\<lparr>t_maintenance := Some (encode_row (entering_row i identity groups hash now expires))\<rparr>)
         else ([d1_result 0, d1_result 0], t))"
  using assms
  by (cases "t_maintenance t")
    (auto simp: maint_inv_def claim_def encode_updates inactive_row_def simp del: json_print.simps)

lemma owned_update_batch:
  assumes "t_maintenance t = Some (encode_row r)"
  shows "d1_batch [activate i h now, revoke i h] t =
      (if m_state r = Entering \<and> m_operationId r = Some i \<and> m_controllerSecretHash r = Some h
          \<and> (case m_expiresAt r of None \<Rightarrow> False | Some k \<Rightarrow> now < k)
       then ([d1_result 1, d1_result (int (length (t_sessions t)))],
             t\<lparr>t_maintenance := Some (encode_row ((advance Active now r)\<lparr>m_expiresAt := None\<rparr>)), t_sessions := []\<rparr>)
       else if m_state r = Active \<and> m_operationId r = Some i \<and> m_controllerSecretHash r = Some h
       then ([d1_result 0, d1_result (int (length (t_sessions t)))], t\<lparr>t_sessions := []\<rparr>)
       else ([d1_result 0, d1_result 0], t))"
  and "d1_batch [begin_verification i h now] t =
      (if m_state r = Active \<and> m_operationId r = Some i \<and> m_controllerSecretHash r = Some h
       then ([d1_result 1], t\<lparr>t_maintenance := Some (encode_row (advance Verifying now r))\<rparr>)
       else ([d1_result 0], t))"
  and "d1_batch [begin_exit i h ks now] t =
      (if m_state r = Verifying \<and> m_operationId r = Some i \<and> m_controllerSecretHash r = Some h
       then ([d1_result 1], t\<lparr>t_maintenance := Some (encode_row ((advance Exiting now r)\<lparr>m_verification := ks\<rparr>))\<rparr>)
       else ([d1_result 0], t))"
  and "d1_batch [finish i h now] t =
      (if m_state r = Exiting \<and> m_operationId r = Some i \<and> m_controllerSecretHash r = Some h
       then ([d1_result 1], t\<lparr>t_maintenance := Some (encode_row (inactive_row now (Some now)))\<rparr>)
       else ([d1_result 0], t))"
  and "d1_batch [abandon i h now] t =
      (if m_state r = Entering \<and> m_operationId r = Some i \<and> m_controllerSecretHash r = Some h
          \<and> (case m_expiresAt r of None \<Rightarrow> False | Some k \<Rightarrow> now < k)
       then ([d1_result 1], t\<lparr>t_maintenance := Some (encode_row (inactive_row now (Some now)))\<rparr>)
       else ([d1_result 0], t))"
  using assms
  by (auto simp: statement_defs revoke_def encode_updates reset_encode advance_def simp del: json_print.simps)

lemma no_row_batch:
  assumes "t_maintenance t = None"
  shows "d1_batch [activate i h now, revoke i h] t = ([d1_result 0, d1_result 0], t)"
    and "d1_batch [begin_verification i h now] t = ([d1_result 0], t)"
    and "d1_batch [begin_exit i h ks now] t = ([d1_result 0], t)"
    and "d1_batch [finish i h now] t = ([d1_result 0], t)"
    and "d1_batch [abandon i h now] t = ([d1_result 0], t)"
  using assms by (simp_all add: statement_defs revoke_def)

declare d1_batch.simps [simp del]

lemmas batch_effects = owned_update_batch no_row_batch

lemma maint_inv_cases:
  assumes "maint_inv t"
  obtains "t_maintenance t = None" | r where "t_maintenance t = Some (encode_row r)" "row_wf r"
  using assms by (auto simp: maint_inv_def split: option.splits)

lemma maint_invI: "row_wf r \<Longrightarrow> t_maintenance t = Some (encode_row r) \<Longrightarrow> maint_inv t"
  by (auto simp: maint_inv_def)

lemma maint_inv_sessions [simp]: "maint_inv (t\<lparr>t_sessions := ss\<rparr>) = maint_inv t"
  by (simp add: maint_inv_def)

lemma maint_inv_row: "row_wf r \<Longrightarrow> maint_inv (t\<lparr>t_maintenance := Some (encode_row r)\<rparr>)"
  by (auto simp: maint_inv_def)

lemma maint_step_inv:
  assumes "maint_inv t" "maint_step t t'" shows "maint_inv t'"
  using assms(2)
proof cases
  case (claimed i identity groups hash now expires)
  then show ?thesis
    using assms(1) by (auto simp: claim_batch split: option.splits intro!: maint_inv_row [OF entering_row_wf])
next
  case (sessions_changed ss)
  with assms(1) show ?thesis by simp
next
  case (activated now i h)
  from assms(1) show ?thesis
  proof (cases rule: maint_inv_cases)
    case 1 with assms(1) activated show ?thesis by (simp add: batch_effects)
  next
    case (2 r)
    then show ?thesis unfolding activated(1) owned_update_batch [OF 2(1)]
      using activated(2) assms(1) by (auto intro!: maint_inv_row advance_expires_wf)
  qed
next
  case (verification_begun now i h)
  from assms(1) show ?thesis
  proof (cases rule: maint_inv_cases)
    case 1 with assms(1) verification_begun show ?thesis by (simp add: batch_effects)
  next
    case (2 r)
    then show ?thesis unfolding verification_begun(1) owned_update_batch [OF 2(1)]
      using verification_begun(2) assms(1) by (auto intro!: maint_inv_row advance_wf)
  qed
next
  case (exit_begun now ks i h)
  from assms(1) show ?thesis
  proof (cases rule: maint_inv_cases)
    case 1 with assms(1) exit_begun show ?thesis by (simp add: batch_effects)
  next
    case (2 r)
    then show ?thesis unfolding exit_begun(1) owned_update_batch [OF 2(1)]
      using exit_begun(2,3) assms(1) by (auto intro!: maint_inv_row advance_verification_wf)
  qed
next
  case (finished now i h)
  from assms(1) show ?thesis
  proof (cases rule: maint_inv_cases)
    case 1 with assms(1) finished show ?thesis by (simp add: batch_effects)
  next
    case (2 r)
    then show ?thesis unfolding finished(1) owned_update_batch [OF 2(1)]
      using finished(2) assms(1) by (auto intro!: maint_inv_row inactive_row_wf simp: opt_stamp_def)
  qed
next
  case (abandoned now i h)
  from assms(1) show ?thesis
  proof (cases rule: maint_inv_cases)
    case 1 with assms(1) abandoned show ?thesis by (simp add: batch_effects)
  next
    case (2 r)
    then show ?thesis unfolding abandoned(1) owned_update_batch [OF 2(1)]
      using abandoned(2) assms(1) by (auto intro!: maint_inv_row inactive_row_wf simp: opt_stamp_def)
  qed
qed

lemma view_None: "t_maintenance t = None \<Longrightarrow> view t = Idle"
  by (simp add: view_def)

lemma view_encode: "t_maintenance t = Some (encode_row r) \<Longrightarrow> row_wf r \<Longrightarrow> view t = row_mode r"
  by (simp add: view_def normalizeRow_encode)

lemma row_mode_simps [simp]:
  "row_mode (inactive_row now c) = Idle"
  "row_mode (entering_row i identity groups hash now expires) = Running Entering i hash"
  by (simp_all add: row_mode_def inactive_row_def entering_row_def)

lemma row_mode_advance:
  "m_operationId r = Some i \<Longrightarrow> m_controllerSecretHash r = Some h \<Longrightarrow> row_mode r = Running (m_state r) i h"
  "m_operationId r = Some i \<Longrightarrow> m_controllerSecretHash r = Some h \<Longrightarrow> row_mode (advance st now r) = Running st i h"
  "m_operationId r = Some i \<Longrightarrow> m_controllerSecretHash r = Some h \<Longrightarrow>
     row_mode ((advance st now r)\<lparr>m_expiresAt := e\<rparr>) = Running st i h"
  "m_operationId r = Some i \<Longrightarrow> m_controllerSecretHash r = Some h \<Longrightarrow>
     row_mode ((advance st now r)\<lparr>m_verification := ks\<rparr>) = Running st i h"
  by (simp_all add: row_mode_def advance_def)

lemma row_mode_inactive: "row_wf r \<Longrightarrow> m_state r = Inactive \<Longrightarrow> row_mode r = Idle"
  by (simp add: row_mode_def row_wf_def)

text \<open>What every step writes, and the step of the abstract machine it implements.\<close>

definition mode_le :: "mode \<Rightarrow> mode \<Rightarrow> bool" where
  "mode_le m m' \<longleftrightarrow> m = m' \<or> mode_step m m'"

lemma mode_le_rtranclp: "mode_le m m' \<Longrightarrow> mode_step\<^sup>*\<^sup>* m m'"
  by (auto simp: mode_le_def)

lemma maint_step_mode:
  assumes "maint_inv t" "maint_step t t'" shows "mode_le (view t) (view t')"
proof -
  have inv': "maint_inv t'" using assms by (rule maint_step_inv)
  show ?thesis using assms(2)
  proof cases
    case (claimed i identity groups hash now expires)
    note w = entering_row_wf [OF claimed(2)]
    from assms(1) show ?thesis
    proof (cases rule: maint_inv_cases)
      case 1
      with claimed w show ?thesis
        by (simp add: claim_batch [OF assms(1)] view_None view_encode mode_le_def)
    next
      case (2 r)
      with claimed w show ?thesis
        by (auto simp: claim_batch [OF assms(1)] view_encode mode_le_def row_mode_inactive)
    qed
  next
    case (sessions_changed ss)
    then show ?thesis by (simp add: view_def mode_le_def)
  next
    case (activated now i h)
    from assms(1) show ?thesis
    proof (cases rule: maint_inv_cases)
      case 1 with activated show ?thesis by (simp add: batch_effects mode_le_def)
    next
      case (2 r)
      have "row_wf ((advance Active now r)\<lparr>m_expiresAt := None\<rparr>)" if "m_state r = Entering"
        using 2(2) activated(2) that by (intro advance_expires_wf) simp_all
      with 2 show ?thesis unfolding activated(1) owned_update_batch [OF 2(1)]
        by (auto simp: view_encode mode_le_def row_mode_advance)
    qed
  next
    case (verification_begun now i h)
    from assms(1) show ?thesis
    proof (cases rule: maint_inv_cases)
      case 1 with verification_begun show ?thesis by (simp add: batch_effects mode_le_def)
    next
      case (2 r)
      have "row_wf (advance Verifying now r)" if "m_state r = Active"
        using 2(2) verification_begun(2) that by (intro advance_wf) simp_all
      with 2 show ?thesis unfolding verification_begun(1) owned_update_batch [OF 2(1)]
        by (auto simp: view_encode mode_le_def row_mode_advance)
    qed
  next
    case (exit_begun now ks i h)
    from assms(1) show ?thesis
    proof (cases rule: maint_inv_cases)
      case 1 with exit_begun show ?thesis by (simp add: batch_effects mode_le_def)
    next
      case (2 r)
      have "row_wf ((advance Exiting now r)\<lparr>m_verification := ks\<rparr>)" if "m_state r = Verifying"
        using 2(2) exit_begun(2,3) that by (intro advance_verification_wf) simp_all
      with 2 show ?thesis unfolding exit_begun(1) owned_update_batch [OF 2(1)]
        by (auto simp: view_encode mode_le_def row_mode_advance)
    qed
  next
    case (finished now i h)
    from assms(1) show ?thesis
    proof (cases rule: maint_inv_cases)
      case 1 with finished show ?thesis by (simp add: batch_effects mode_le_def)
    next
      case (2 r)
      with finished(2) show ?thesis unfolding finished(1) owned_update_batch [OF 2(1)]
        by (auto simp: view_encode mode_le_def row_mode_advance opt_stamp_def)
    qed
  next
    case (abandoned now i h)
    from assms(1) show ?thesis
    proof (cases rule: maint_inv_cases)
      case 1 with abandoned show ?thesis by (simp add: batch_effects mode_le_def)
    next
      case (2 r)
      with abandoned(2) show ?thesis unfolding abandoned(1) owned_update_batch [OF 2(1)]
        by (auto simp: view_encode mode_le_def row_mode_advance opt_stamp_def)
    qed
  qed
qed

interpretation maint: refined_protocol maint_step maint_inv view mode_step
  by unfold_locales (auto intro: maint_step_inv mode_le_rtranclp maint_step_mode)

end
