(* ===== verification/MaintenanceSafety.thy ===== *)
theory MaintenanceSafety
  imports MaintenanceProtocol
begin

text \<open>
  The operations of \<open>src/recovery/maintenance/maintenance-repository.ts\<close> against the protocol:
  every operation follows it and makes at most the one change it asks for (\<open>own_change\<close>), a successful
  transition was authorised by the controller's secret and took place in one step, and what the
  operations do when nobody interferes.
\<close>

section \<open>Inputs the operations accept\<close>

lemma dropWhile_idem [simp]: "dropWhile P (dropWhile P xs) = dropWhile P xs"
  by (induction xs) auto

lemma js_trim_idem [simp]: "js_trim (js_trim s) = js_trim s"
proof -
  let ?d = "dropWhile is_space"
  obtain u where u: "rev (?d (rev (?d s))) = u" by simp
  have "?d u = u"
  proof (cases u)
    case (Cons c cs)
    from u have "?d s = u @ rev (takeWhile is_space (rev (?d s)))"
      by (metis rev_append rev_rev_ident takeWhile_dropWhile_id)
    with Cons have "?d s = c # (cs @ rev (takeWhile is_space (rev (?d s))))" by simp
    then have "\<not> is_space c" by (rule dropWhile_hd_neq)
    with Cons show ?thesis by simp
  qed simp
  moreover have "rev (?d (rev u)) = u" using u by (metis dropWhile_idem rev_rev_ident)
  ultimately show ?thesis using u by (simp add: js_trim_def)
qed

lemma clean_text_trimmed [simp]: "js_trim (clean_text v) = clean_text v"
  by (simp add: clean_text_def)

lemma actorContext_Inr:
  assumes "actorContext v = Inr (identity, groups)"
  shows "clean 320 identity" "list_all (clean 320) groups" "distinct groups" "length groups \<le> 128"
proof -
  from assms obtain gs where
      g: "groups = sort_strings (filter (\<lambda>g. g \<noteq> []) (uniq (map clean_text gs)))"
    and i: "identity = clean_text (jget v ''identity'')" "identity \<noteq> []" "length identity \<le> 320"
    and n: "length gs \<le> 128" and l: "\<not> list_ex (\<lambda>g. 320 < length g) groups"
    by (auto simp: actorContext_def Let_def split: js.splits if_splits)
  show "clean 320 identity" using i by (simp add: clean_def)
  show "list_all (clean 320) groups"
    using l unfolding list_all_iff list_ex_iff clean_def g by auto
  show "distinct groups" by (simp add: g)
  have "length groups \<le> length (uniq (map clean_text gs))" by (simp add: g)
  also have "\<dots> \<le> length gs" by (metis length_map length_uniq_le)
  finally show "length groups \<le> 128" using n by simp
qed

lemma safeInteger_Inr: "safeInteger v = Inr n \<Longrightarrow> 1 \<le> n \<and> stamp n"
  by (auto simp: safeInteger_def stamp_def split: option.splits dest!: safe_int_in_Some)

lemma normalizedNow_Inr: "normalizedNow clock v = Inr n \<Longrightarrow> 1 \<le> n \<and> stamp n"
  by (simp add: normalizedNow_def safeInteger_Inr)

lemma safeTtl_Inr: "safeTtl v = Inr n \<Longrightarrow> 60000 \<le> n \<and> n \<le> 3600000"
  by (auto simp: safeTtl_def split: option.splits dest!: safe_int_in_Some)

lemma operationId_Inr [simp]: "operationId v = Inr i \<longleftrightarrow> v = JStr i \<and> operationIdPattern i"
  by (cases v) (auto simp: operationId_def)

lemma controllerSecret_Inr [simp]: "controllerSecret v = Inr s \<longleftrightarrow> v = JStr s \<and> controllerSecretPattern s"
  by (cases v) (auto simp: controllerSecret_def)

lemma controllerHash_Inr [simp]: "controllerHash v = Inr s \<longleftrightarrow> v = JStr s \<and> hash_pattern s"
  by (cases v) (auto simp: controllerHash_def)

lemma hashSecret_Inr [simp]:
  "hashMaintenanceControllerSecret sha (JStr s) = Inr h \<longleftrightarrow> controllerSecretPattern s \<and> h = sha s"
  by (auto simp: hashMaintenanceControllerSecret_def)

lemma fixedHashEqual_iff: "fixedHashEqual a b \<longleftrightarrow> hash_pattern a \<and> a = b"
  using fixed_difference_zero [of a b] by (auto simp: fixedHashEqual_def hash_pattern_def)

section \<open>Requests\<close>

datatype maintenance_request =
    Prepare js js js js js
  | Transition confirmation_action transition_input

definition run_request ::
  "(string \<Rightarrow> string) \<Rightarrow> int \<Rightarrow> maintenance_request \<Rightarrow> maintenance_row maint_eff" where
  "run_request sha clock req = (case req of
      Prepare actor now ttl i secret \<Rightarrow>
        bindM (prepareMaintenance sha clock actor now ttl i secret) (\<lambda>(row, s). returnM row)
    | Transition a input \<Rightarrow> (case a of
          AEnter \<Rightarrow> enterMaintenance sha clock input
        | AVerify \<Rightarrow> startMaintenanceVerification sha clock input
        | AExit \<Rightarrow> exitMaintenance sha clock input
        | AComplete \<Rightarrow> completeMaintenance sha clock input
        | ACancel \<Rightarrow> cancelMaintenance sha clock input))"

text \<open>
  What is asked of a request: the actor's group list fits the column the reader accepts, and the
  time leaves room for the longest time to live. Every other defect is caught by the code.
\<close>

definition request_ok :: "int \<Rightarrow> maintenance_request \<Rightarrow> bool" where
  "request_ok clock req = (case req of
      Prepare actor now ttl i secret \<Rightarrow>
        (case actorContext actor of Inr (identity, groups) \<Rightarrow> length (groups_json groups) \<le> 65536 | Inl _ \<Rightarrow> True)
        \<and> (case normalizedNow clock now of Inr n \<Rightarrow> n + 3600000 \<le> max_safe | Inl _ \<Rightarrow> True)
    | Transition a input \<Rightarrow> True)"

lemma follows_load [follows_intros]: "follows R loadRawMaintenanceState"
  unfolding loadRawMaintenanceState_def by (intro follows_intros)

lemma follows_authorize [follows_intros]: "follows R (authorizeTransition sha clock input a st)"
  unfolding authorizeTransition_def by (intro follows_intros)

lemma follows_finish [follows_intros]: "follows R (finishTransition results st)"
  unfolding finishTransition_def by (intro follows_intros)

text \<open>What an authorised transition has established.\<close>

definition confirmation_text :: "confirmation_action \<Rightarrow> string \<Rightarrow> string" where
  "confirmation_text a i = the (map_of confirmation_prefixes (action_name a)) @ '':'' @ i"

definition authorized :: "(string \<Rightarrow> string) \<Rightarrow> transition_input \<Rightarrow> confirmation_action \<Rightarrow> string \<Rightarrow> string \<Rightarrow> bool" where
  "authorized sha input a i h \<longleftrightarrow> (case (in_operationId input, in_controllerSecret input, in_confirmation input) of
      (JStr j, JStr s, JStr c) \<Rightarrow> j = i \<and> controllerSecretPattern s \<and> sha s = h \<and> c = confirmation_text a i
    | _ \<Rightarrow> False)"

lemma authorize_Inr:
  assumes "authorizeTransition sha clock input a st w = (Inr (i, h, now), w1)"
  shows "\<exists>s row. in_operationId input = JStr i \<and> operationIdPattern i
     \<and> in_controllerSecret input = JStr s \<and> controllerSecretPattern s \<and> h = sha s
     \<and> in_confirmation input = JStr (confirmation_text a i)
     \<and> normalizedNow clock (in_now input) = Inr now
     \<and> loadRawMaintenanceState w = (Inr (Some row), w1)
     \<and> m_state row = st \<and> m_operationId row = Some i \<and> m_controllerSecretHash row = Some h
     \<and> (st = Entering \<longrightarrow> (\<exists>e. m_expiresAt row = Some e \<and> now < e))"
proof -
  from assms obtain s n loaded w2 j c where
      1: "in_operationId input = JStr j" "operationIdPattern j"
    and 2: "in_controllerSecret input = JStr s" "controllerSecretPattern s"
    and c: "maintenanceConfirmation (JStr (action_name a)) (JStr j) = Inr c" "in_confirmation input = JStr c"
    and 3: "normalizedNow clock (in_now input) = Inr n"
    and l: "loadRawMaintenanceState w = (Inr loaded, w2)"
    and r: "(case loaded of
        None \<Rightarrow> throwM (RepositoryError ''maintenance_transition_invalid'' 409)
      | Some row \<Rightarrow>
         bindM (requireM (m_state row = st \<and> m_operationId row = Some j
                  \<and> \<not> empty_opt (m_controllerSecretHash row))
                (RepositoryError ''maintenance_transition_invalid'' 409)) (\<lambda>_.
         bindM (requireM (\<not> (st = Entering \<and>
                   (case m_expiresAt row of None \<Rightarrow> True | Some x \<Rightarrow> x \<le> n)))
                (RepositoryError ''maintenance_prepare_expired'' 409)) (\<lambda>_.
         bindM (liftM (bindE (hashMaintenanceControllerSecret sha (JStr s)) (\<lambda>h. controllerHash (JStr h)))) (\<lambda>hash.
         bindM (requireM (fixedHashEqual (case m_controllerSecretHash row of Some h \<Rightarrow> h | None \<Rightarrow> []) hash)
                (RepositoryError ''maintenance_controller_invalid'' 409)) (\<lambda>_.
         returnM (j, hash, n)))))) w2 = (Inr (i, h, now), w1)"
    unfolding authorizeTransition_def eff_Inr_iffs by auto
  from r obtain row where row: "loaded = Some row" by (cases loaded) (auto simp: throwM_run)
  from r have "m_state row = st" "m_operationId row = Some j" "\<not> empty_opt (m_controllerSecretHash row)"
     "\<not> (st = Entering \<and> (case m_expiresAt row of None \<Rightarrow> True | Some x \<Rightarrow> x \<le> n))"
     "fixedHashEqual (case m_controllerSecretHash row of Some h \<Rightarrow> h | None \<Rightarrow> []) h"
     "h = sha s" "i = j" "now = n" "w1 = w2"
    unfolding row by (auto simp: eff_Inr_iffs)
  with 1 2 3 c l row show ?thesis
    by (auto simp: confirmation_text_def maintenanceConfirmation_action fixedHashEqual_iff empty_opt_def
        split: option.splits)
qed

lemma authorize_basic:
  assumes "authorizeTransition sha clock input a st w = (Inr (i, h, now), w1)"
  shows "authorized sha input a i h" "stamp now"
  using authorize_Inr [OF assms] by (auto simp: authorized_def dest: normalizedNow_Inr)

lemma validate_verification_distinct: "validateMaintenanceVerification v = Inr ks \<Longrightarrow> ks = verificationKeys"
  by (auto simp: validateMaintenanceVerification_def split: if_splits)

lemma distinct_verificationKeys [simp]: "distinct verificationKeys"
  by (simp add: verificationKeys_def)

lemma steps_keep_inv:
  assumes "\<And>t t'. R t t' \<Longrightarrow> maint_step t t'" "R\<^sup>*\<^sup>* t t'" "maint_inv t"
  shows "maint_inv t'"
  using maint.steps_inv [OF rtranclp_mono [THEN predicate2D, of R maint_step] assms(3)] assms(1,2) by blast

section \<open>A successful transition\<close>

fun source :: "confirmation_action \<Rightarrow> maintenance_state" where
  "source AEnter = Entering"
| "source AVerify = Active"
| "source AExit = Verifying"
| "source AComplete = Exiting"
| "source ACancel = Entering"

fun target :: "confirmation_action \<Rightarrow> maintenance_state" where
  "target AEnter = Active"
| "target AVerify = Verifying"
| "target AExit = Exiting"
| "target AComplete = Inactive"
| "target ACancel = Inactive"

definition target_mode :: "confirmation_action \<Rightarrow> string \<Rightarrow> string \<Rightarrow> mode" where
  "target_mode a i h = (if target a = Inactive then Idle else Running (target a) i h)"

lemma finish_Inr:
  assumes "finishTransition results st w = (Inr row, w')"
  shows "resultChanges (results ! 0) = 1 \<and> m_state row = st \<and> loadRawMaintenanceState w = (Inr (Some row), w')"
proof -
  from assms obtain loaded w1 where l: "resultChanges (results ! 0) = 1" "loadRawMaintenanceState w = (Inr loaded, w1)"
    and r: "(case loaded of
        Some row \<Rightarrow> bindM (requireM (m_state row = st)
                  (RepositoryError ''maintenance_transition_failed'' 500)) (\<lambda>_. returnM row)
      | None \<Rightarrow> throwM (RepositoryError ''maintenance_transition_failed'' 500)) w1 = (Inr row, w')"
    unfolding finishTransition_def eff_Inr_iffs by auto
  from l r show ?thesis by (cases loaded) (auto simp: eff_Inr_iffs)
qed

definition own_batch :: "confirmation_action \<Rightarrow> string \<Rightarrow> string \<Rightarrow> int \<Rightarrow> (tables \<Rightarrow> int \<times> tables) list" where
  "own_batch a i h now = (case a of
      AEnter \<Rightarrow> [activate i h now, revoke i h]
    | AVerify \<Rightarrow> [begin_verification i h now]
    | AExit \<Rightarrow> [begin_exit i h verificationKeys now]
    | AComplete \<Rightarrow> [finish i h now]
    | ACancel \<Rightarrow> [abandon i h now])"

lemma own_batch_step: "stamp now \<Longrightarrow> maint_step t (snd (d1_batch (own_batch a i h now) t))"
  by (cases a) (auto simp: own_batch_def intro: maint_step.intros)

lemma own_batch_changed:
  assumes "maint_inv t" "d1_batch (own_batch a i h now) t = (res, t')" "resultChanges (res ! 0) = 1" "stamp now"
  shows "view t = Running (source a) i h \<and> view t' = target_mode a i h
    \<and> t_sessions t' = (if a = AEnter then [] else t_sessions t)"
  using assms(1)
proof (cases rule: maint_inv_cases)
  case 1
  with assms(2,3) show ?thesis by (cases a) (auto simp: own_batch_def batch_effects)
next
  case (2 r)
  have st: "maint_step t t'" using own_batch_step [OF assms(4), of t a i h] assms(2) by simp
  have own: "m_state r = source a \<and> m_operationId r = Some i \<and> m_controllerSecretHash r = Some h"
    using assms(2,3) by (cases a) (auto simp: own_batch_def owned_update_batch [OF 2(1)] split: if_splits)
  then have v: "view t = Running (source a) i h"
    using 2 by (simp add: view_encode row_mode_advance)
  have inv': "maint_inv t'" using assms(1) st by (rule maint_step_inv)
  from inv' obtain r' where r': "t_maintenance t' = Some (encode_row r')" "row_wf r'"
  proof (cases rule: maint_inv_cases)
    case 1
    with assms(2,3) \<open>t_maintenance t = Some (encode_row r)\<close> show ?thesis
      by (cases a) (auto simp: own_batch_def owned_update_batch [OF 2(1)] split: if_splits)
  qed blast
  have "view t' = target_mode a i h \<and> t_sessions t' = (if a = AEnter then [] else t_sessions t)"
  proof (cases a)
    case AEnter
    have "row_wf ((advance Active now r)\<lparr>m_expiresAt := None\<rparr>)"
      using 2 own AEnter assms(4) by (intro advance_expires_wf) simp_all
    with AEnter assms(2,3) own show ?thesis
      by (auto simp: own_batch_def owned_update_batch [OF 2(1)] target_mode_def view_encode row_mode_advance split: if_splits)
  next
    case AVerify
    have "row_wf (advance Verifying now r)"
      using 2 own AVerify assms(4) by (intro advance_wf) simp_all
    with AVerify assms(2,3) own show ?thesis
      by (auto simp: own_batch_def owned_update_batch [OF 2(1)] target_mode_def view_encode row_mode_advance split: if_splits)
  next
    case AExit
    have "row_wf ((advance Exiting now r)\<lparr>m_verification := verificationKeys\<rparr>)"
      using 2 own AExit assms(4) by (intro advance_verification_wf) simp_all
    with AExit assms(2,3) own show ?thesis
      by (auto simp: own_batch_def owned_update_batch [OF 2(1)] target_mode_def view_encode row_mode_advance split: if_splits)
  next
    case AComplete
    with assms(2,3,4) own show ?thesis
      by (auto simp: own_batch_def owned_update_batch [OF 2(1)] target_mode_def view_encode opt_stamp_def split: if_splits)
  next
    case ACancel
    with assms(2,3,4) own show ?thesis
      by (auto simp: own_batch_def owned_update_batch [OF 2(1)] target_mode_def view_encode opt_stamp_def split: if_splits)
  qed
  with v show ?thesis by simp
qed

text \<open>All five transitions have the same shape.\<close>

lemma run_transition_Inr:
  assumes "run_request sha clock (Transition a input) w = (Inr row, w')"
  obtains i h now w1 w2 res where
    "authorizeTransition sha clock input a (source a) w = (Inr (i, h, now), w1)"
    "d1_call OtherError (d1_batch (own_batch a i h now)) w1 = (Inr res, w2)"
    "finishTransition res (target a) w2 = (Inr row, w')"
proof (cases a)
  case AExit
  with assms that show ?thesis
    by (fastforce simp: run_request_def exitMaintenance_def eff_Inr_iffs own_batch_def
        dest: validate_verification_distinct)
qed (use assms that in \<open>fastforce simp: run_request_def enterMaintenance_def
   startMaintenanceVerification_def completeMaintenance_def cancelMaintenance_def eff_Inr_iffs own_batch_def\<close>)+

text \<open>C8: A maintenance transition that succeeds, under any schedule of database faults and of others that keep to the
  protocol, was authorised: its controller secret hashes to the hash of the very operation that was running, and its
  confirmation names the action and that operation. It took effect in one atomic change of the tables, from the state
  the action starts in to the state it leads to, and entering maintenance left no session; before and after that
  change the tables differ only by what the others did.\<close>

theorem transition_success:
  assumes "\<And>t t'. R t t' \<Longrightarrow> maint_step t t'" "env_follows R w" "maint_inv (db_tables w)"
    and "run_request sha clock (Transition a input) w = (Inr row, w')"
  shows "\<exists>i h t t'. authorized sha input a i h \<and> R\<^sup>*\<^sup>* (db_tables w) t
    \<and> view t = Running (source a) i h \<and> view t' = target_mode a i h \<and> t_sessions t' = (if a = AEnter then [] else t_sessions t)
    \<and> R\<^sup>*\<^sup>* t' (db_tables w') \<and> m_state row = target a"
proof -
  from assms(4) obtain i h now w1 w2 res where
      au: "authorizeTransition sha clock input a (source a) w = (Inr (i, h, now), w1)"
    and d: "d1_call OtherError (d1_batch (own_batch a i h now)) w1 = (Inr res, w2)"
    and f: "finishTransition res (target a) w2 = (Inr row, w')"
    by (rule run_transition_Inr)
  note s1 = followsD [OF follows_authorize assms(2) au]
  from d1_call_Inr [OF d s1(2)] obtain t where
      t: "R\<^sup>*\<^sup>* (db_tables w1) t" "d1_batch (own_batch a i h now) t = (res, db_tables w2)" "env_follows R w2" by blast
  have wt: "R\<^sup>*\<^sup>* (db_tables w) t" using s1(1) t(1) by (rule rtranclp_trans)
  have inv: "maint_inv t" by (rule steps_keep_inv [OF assms(1) wt assms(3)])
  note s2 = followsD [OF follows_finish t(3) f]
  from own_batch_changed [OF inv t(2) _ authorize_basic(2) [OF au]] finish_Inr [OF f] authorize_basic(1) [OF au] wt s2(1)
  show ?thesis by blast
qed

section \<open>What a request does to the tables\<close>

text \<open>
  The one change a request may make itself: preparing turns an idle portal into the operation it names; a
  transition moves the operation it was authorised for. Entering revokes sessions once more when another request
  with the same secret has entered in between.
\<close>

definition own_change :: "(string \<Rightarrow> string) \<Rightarrow> maintenance_request \<Rightarrow> tables \<Rightarrow> tables \<Rightarrow> bool" where
  "own_change sha req t t' \<longleftrightarrow> (case req of
      Prepare actor now ttl newId newSecret \<Rightarrow> (\<exists>i s. newId = JStr i \<and> newSecret = JStr s
        \<and> view t = Idle \<and> view t' = Running Entering i (sha s) \<and> t_sessions t' = t_sessions t)
    | Transition a input \<Rightarrow> (\<exists>i h. authorized sha input a i h
        \<and> (view t = Running (source a) i h \<and> view t' = target_mode a i h \<and> t_sessions t' = (if a = AEnter then [] else t_sessions t)
           \<or> a = AEnter \<and> view t = Running Active i h \<and> view t' = view t \<and> t_sessions t' = [])))"

lemma own_batch_change:
  assumes "maint_inv t" "authorized sha input a i h" "stamp now"
  shows "snd (d1_batch (own_batch a i h now) t) = t \<or> own_change sha (Transition a input) t (snd (d1_batch (own_batch a i h now) t))"
proof -
  obtain res t' where b: "d1_batch (own_batch a i h now) t = (res, t')" by (cases "d1_batch (own_batch a i h now) t")
  show ?thesis
  proof (cases "resultChanges (res ! 0) = 1")
    case True
    with own_batch_changed [OF assms(1) b _ assms(3)] assms(2) b show ?thesis by (auto simp: own_change_def)
  next
    case False
    from assms(1) have "t' = t \<or> a = AEnter \<and> view t = Running Active i h \<and> view t' = view t \<and> t_sessions t' = []"
    proof (cases rule: maint_inv_cases)
      case 1
      with b show ?thesis by (cases a) (simp_all add: own_batch_def batch_effects)
    next
      case (2 r)
      with b False show ?thesis
        by (cases a) (auto simp: own_batch_def owned_update_batch [OF 2(1)] view_encode row_mode_advance split: if_splits)
    qed
    with assms(2) b show ?thesis by (auto simp: own_change_def)
  qed
qed

definition kept_or_changed :: "(string \<Rightarrow> string) \<Rightarrow> maintenance_request \<Rightarrow> tables \<Rightarrow> tables \<Rightarrow> bool" where
  "kept_or_changed sha req t t' \<longleftrightarrow> (maint_inv t \<longrightarrow> t' = t \<or> own_change sha req t t') \<and> maint_step t t'"

lemma once_batch:
  assumes "authorized sha input a i h" "stamp now"
  shows "changes_once R (kept_or_changed sha (Transition a input)) (d1_call OtherError (d1_batch (own_batch a i h now)))"
  by (rule once_call) (use own_batch_change [OF _ assms] own_batch_step [OF assms(2)] in \<open>auto simp: kept_or_changed_def\<close>)

lemma once_transition:
  "changes_once R (kept_or_changed sha (Transition a input)) (run_request sha clock (Transition a input))"
proof -
  have plain: "changes_once R (kept_or_changed sha (Transition a input))
      (catchM (bindM (authorizeTransition sha clock input a st) (\<lambda>(i, hash, now).
         bindM (d1_call OtherError (d1_batch (own_batch a i hash now))) (\<lambda>results. finishTransition results st')))
       (\<lambda>e. throwM (transitionError e)))" for st st'
    by (intro once_catch once_after [OF follows_authorize] follows_throwM)
      (auto intro!: once_then once_batch follows_finish dest: authorize_basic)
  have verified: "changes_once R (kept_or_changed sha (Transition AExit input))
      (bindM (liftM (validateMaintenanceVerification (in_verification input))) (\<lambda>verification.
         bindM (d1_call OtherError (d1_batch [begin_exit i h verification now])) (\<lambda>results. finishTransition results Exiting)))"
    if "authorized sha input AExit i h" "stamp now" for i h now
    by (rule once_after [OF follows_liftM])
      (use once_batch [OF that, of R] in \<open>auto simp: liftM_run own_batch_def intro!: once_then follows_finish dest!: validate_verification_distinct\<close>)
  have exiting: "changes_once R (kept_or_changed sha (Transition AExit input)) (exitMaintenance sha clock input)"
    unfolding exitMaintenance_def
    by (intro once_catch once_after [OF follows_authorize] follows_throwM) (auto intro!: verified dest: authorize_basic)
  show ?thesis
    using plain exiting
    by (cases a) (simp_all add: run_request_def enterMaintenance_def startMaintenanceVerification_def completeMaintenance_def
      cancelMaintenance_def own_batch_def)
qed

lemma prepare_claim_ok:
  assumes "request_ok clock (Prepare actor nowOpt ttlMs newId newSecret)"
    and "actorContext actor = Inr (identity, groups)" "normalizedNow clock nowOpt = Inr now" "safeTtl ttlMs = Inr ttl"
    and "operationIdPattern i" "hash_pattern h"
  shows "claim_ok i identity groups h now (now + ttl)"
  using assms actorContext_Inr [OF assms(2)] normalizedNow_Inr [OF assms(3)] safeTtl_Inr [OF assms(4)]
  by (simp add: claim_ok_def request_ok_def groups_wf_def stamp_def)

lemma claim_change:
  assumes "maint_inv t" "claim_ok i identity groups h now e" "d1_batch [initialize now, claim i identity groups h now e] t = (res, t')" "h = sha s"
  shows "t' = t \<or> own_change sha (Prepare actor nowOpt ttlMs (JStr i) (JStr s)) t t'"
  using assms(1)
proof (cases rule: maint_inv_cases)
  case 1
  with assms(3,4) entering_row_wf [OF assms(2)] show ?thesis
    by (auto simp: claim_batch [OF assms(1)] own_change_def view_None view_encode)
next
  case (2 r)
  with assms(3,4) entering_row_wf [OF assms(2)] show ?thesis
    by (auto simp: claim_batch [OF assms(1)] own_change_def view_encode row_mode_inactive split: if_splits)
qed

lemma once_prepare:
  assumes "request_ok clock (Prepare actor now ttl newId newSecret)"
  shows "changes_once R (kept_or_changed sha (Prepare actor now ttl newId newSecret)) (prepareMaintenance sha clock actor now ttl newId newSecret)"
proof -
  let ?S = "\<lambda>i s. kept_or_changed sha (Prepare actor now ttl (JStr i) (JStr s))"
  have batch: "changes_once R (?S i s) (d1_call OtherError (d1_batch [initialize n, claim i identity groups (sha s) n (n + m)]))"
    if "actorContext actor = Inr (identity, groups)" "normalizedNow clock now = Inr n" "safeTtl ttl = Inr m" "operationIdPattern i"
      "hash_pattern (sha s)" for identity groups n m i s
  proof (rule once_call)
    fix t
    note ok = prepare_claim_ok [OF assms that]
    obtain res t' where b: "d1_batch [initialize n, claim i identity groups (sha s) n (n + m)] t = (res, t')"
      by (cases "d1_batch [initialize n, claim i identity groups (sha s) n (n + m)] t")
    have "maint_step t t'" using maint_step.claimed [OF ok, of t] b by simp
    with claim_change [OF _ ok b, of sha s actor now ttl] b
    show "snd (d1_batch [initialize n, claim i identity groups (sha s) n (n + m)] t) = t
      \<or> ?S i s t (snd (d1_batch [initialize n, claim i identity groups (sha s) n (n + m)] t))"
      by (auto simp: kept_or_changed_def)
  qed
  have after: "follows R (bindM (requireM b x) (\<lambda>_. bindM loadRawMaintenanceState (\<lambda>loaded. case loaded of
        Some row \<Rightarrow> bindM (requireM (m_state row = Entering \<and> m_operationId row = Some i \<and> m_controllerSecretHash row = Some hash) y) (\<lambda>_. returnM (row, secret))
      | None \<Rightarrow> throwM y)))" for b x i hash y and secret :: string
    by (intro follows_intros)
  show ?thesis
    unfolding prepareMaintenance_def Let_def
    by (intro once_catch follows_throwM once_after [OF follows_liftM])
      (auto simp: liftM_run intro!: once_after [OF follows_liftM] once_then batch after)
qed

lemma once_request:
  assumes "request_ok clock req" shows "changes_once R (kept_or_changed sha req) (run_request sha clock req)"
proof (cases req)
  case (Prepare actor now ttl i secret)
  with assms show ?thesis
    by (auto simp: run_request_def intro!: once_then once_prepare follows_returnM)
qed (simp add: once_transition)

text \<open>What one change of the right kind means for a world the others keep well formed.\<close>

lemma once_outcome:
  assumes "changes_once R S m" "\<And>t t'. S t t' \<Longrightarrow> maint_step t t'" "\<And>t t'. R t t' \<Longrightarrow> maint_step t t'"
    and "env_follows R w" "maint_inv (db_tables w)" "m w = (r, w')"
  shows "maint_inv (db_tables w') \<and> (\<exists>t t'. R\<^sup>*\<^sup>* (db_tables w) t \<and> maint_inv t \<and> (t' = t \<or> S t t') \<and> R\<^sup>*\<^sup>* t' (db_tables w'))"
proof -
  obtain t t' where s: "R\<^sup>*\<^sup>* (db_tables w) t" "t' = t \<or> S t t'" "R\<^sup>*\<^sup>* t' (db_tables w')"
    by (rule changes_onceD [OF assms(1,4,6)])
  have inv: "maint_inv t" by (rule steps_keep_inv [OF assms(3) s(1) assms(5)])
  then have "maint_inv t'" using s(2) assms(2) maint_step_inv by blast
  from steps_keep_inv [OF assms(3) s(3) this] inv s show ?thesis by blast
qed

text \<open>C12: Whatever the schedule of faults and of others that keep to the protocol, a maintenance request keeps the stored
  row the encoding of a well-formed row, and of its own it makes at most one atomic change, of the kind it asks for: preparing
  claims an idle portal, never one with an operation, for the new operation and the hash of the new secret; a transition
  moves only the operation it was authorised for, one step on; the one exception is an entering that meets this operation
  active already, which may end the sessions once more and leaves the row as it is. This also holds when the request throws half
  way or loses the reply of a committed batch. The time of a preparation must leave an hour below the largest safe
  integer, and its actor's groups, printed, must fit the 65536 characters the reader accepts.\<close>

theorem maintenance_request_safe:
  assumes "request_ok clock req" "\<And>t t'. R t t' \<Longrightarrow> maint_step t t'" "env_follows R w" "maint_inv (db_tables w)"
    and "run_request sha clock req w = (r, w')"
  shows "maint_inv (db_tables w')
    \<and> (\<exists>t t'. R\<^sup>*\<^sup>* (db_tables w) t \<and> (t' = t \<or> own_change sha req t t') \<and> R\<^sup>*\<^sup>* t' (db_tables w'))"
  using once_outcome [OF once_request [OF assms(1)] _ assms(2-5)] unfolding kept_or_changed_def by blast

section \<open>Requests without interference\<close>

abbreviation quiet :: "tables \<Rightarrow> tables database" where
  "quiet t \<equiv> \<lparr>db_tables = t, db_schedule = []\<rparr>"

lemma load_quiet:
  "t_maintenance t = Some (encode_row r) \<Longrightarrow> row_wf r \<Longrightarrow>
     loadRawMaintenanceState (quiet t) = (Inr (Some r), quiet t)"
  by (simp add: loadRawMaintenanceState_def bindM_run d1_quiet normalizeRow_encode liftM_run returnM_run)

lemma load_quiet_None: "t_maintenance t = None \<Longrightarrow> loadRawMaintenanceState (quiet t) = (Inr None, quiet t)"
  by (simp add: loadRawMaintenanceState_def bindM_run d1_quiet returnM_run)

text \<open>
  The stored operation is in the state the action starts in, and the caller presents what
  the code asks for.
\<close>

definition ready :: "(string \<Rightarrow> string) \<Rightarrow> int \<Rightarrow> confirmation_action \<Rightarrow> transition_input \<Rightarrow> maintenance_row \<Rightarrow> bool" where
  "ready sha clock a input r = (case (m_operationId r, m_controllerSecretHash r, in_controllerSecret input,
        normalizedNow clock (in_now input)) of
      (Some i, Some h, JStr s, Inr now) \<Rightarrow>
        m_state r = source a \<and> in_operationId input = JStr i \<and> controllerSecretPattern s \<and> sha s = h
        \<and> in_confirmation input = JStr (confirmation_text a i)
        \<and> (source a = Entering \<longrightarrow> (case m_expiresAt r of Some e \<Rightarrow> now < e | None \<Rightarrow> False))
        \<and> (a = AExit \<longrightarrow> is_ok (validateMaintenanceVerification (in_verification input)))
    | _ \<Rightarrow> False)"

lemma authorize_quiet:
  assumes "t_maintenance t = Some (encode_row r)" "row_wf r" "ready sha clock a input r"
  obtains i h now where "m_operationId r = Some i" "m_controllerSecretHash r = Some h" "m_state r = source a"
    "stamp now" "source a = Entering \<Longrightarrow> \<exists>e. m_expiresAt r = Some e \<and> now < e"
    "authorizeTransition sha clock input a (source a) (quiet t) = (Inr (i, h, now), quiet t)"
proof -
  from assms(3) obtain i h s now where
      m: "m_operationId r = Some i" "m_controllerSecretHash r = Some h" "m_state r = source a"
    and i: "in_controllerSecret input = JStr s" "normalizedNow clock (in_now input) = Inr now"
      "in_operationId input = JStr i" "controllerSecretPattern s" "sha s = h"
      "in_confirmation input = JStr (confirmation_text a i)"
    and e: "source a = Entering \<Longrightarrow> \<exists>e. m_expiresAt r = Some e \<and> now < e"
    by (auto simp: ready_def split: option.splits js.splits sum.splits)
  have "source a \<noteq> Inactive" by (cases a) simp_all
  with assms(2) m have p: "operationIdPattern i" "hash_pattern h" by (auto simp: row_wf_def)
  have ne: "h \<noteq> []" using p(2) by (rule hash_pattern_nonempty)
  have "authorizeTransition sha clock input a (source a) (quiet t) = (Inr (i, h, now), quiet t)"
    using m i e p ne
    by (auto simp: authorizeTransition_def bindM_run liftM_run requireM_run returnM_run operationId_def
        controllerSecret_def maintenanceConfirmation_action confirmation_text_def load_quiet [OF assms(1,2)]
        empty_opt_def fixedHashEqual_iff hashMaintenanceControllerSecret_def controllerHash_def)
  with m e show ?thesis using that normalizedNow_Inr [OF i(2)] by blast
qed

lemma finish_quiet:
  assumes "resultChanges (results ! 0) = 1" "results \<noteq> []"
    and "t_maintenance t = Some (encode_row r)" "row_wf r" "m_state r = st"
  shows "finishTransition results st (quiet t) = (Inr r, quiet t)"
  using assms
  by (cases results) (simp_all add: finishTransition_def bindM_run requireM_run load_quiet returnM_run)

lemma own_batch_quiet:
  assumes "t_maintenance t = Some (encode_row r)" "row_wf r" "stamp now"
    and "m_state r = source a" "m_operationId r = Some i" "m_controllerSecretHash r = Some h"
    and "source a = Entering \<Longrightarrow> \<exists>e. m_expiresAt r = Some e \<and> now < e"
  obtains res r' t' where "d1_batch (own_batch a i h now) t = (res, t')" "resultChanges (res ! 0) = 1" "res \<noteq> []"
    "t_maintenance t' = Some (encode_row r')" "row_wf r'" "m_state r' = target a"
proof (cases a)
  case AEnter
  have "row_wf ((advance Active now r)\<lparr>m_expiresAt := None\<rparr>)"
    using assms AEnter by (intro advance_expires_wf) simp_all
  with AEnter assms(4,5,6) assms(7) show ?thesis
    by (intro that [of _ _ "(advance Active now r)\<lparr>m_expiresAt := None\<rparr>"])
      (auto simp: own_batch_def owned_update_batch [OF assms(1)] advance_def)
next
  case AVerify
  have "row_wf (advance Verifying now r)" using assms AVerify by (intro advance_wf) simp_all
  with AVerify assms(4,5,6) show ?thesis
    by (intro that [of _ _ "advance Verifying now r"])
      (auto simp: own_batch_def owned_update_batch [OF assms(1)] advance_def)
next
  case AExit
  have "row_wf ((advance Exiting now r)\<lparr>m_verification := verificationKeys\<rparr>)"
    using assms AExit by (intro advance_verification_wf) simp_all
  with AExit assms(4,5,6) show ?thesis
    by (intro that [of _ _ "(advance Exiting now r)\<lparr>m_verification := verificationKeys\<rparr>"])
      (auto simp: own_batch_def owned_update_batch [OF assms(1)] advance_def)
next
  case AComplete
  with assms(3,4,5,6) show ?thesis
    by (intro that [of _ _ "inactive_row now (Some now)"])
      (auto simp: own_batch_def owned_update_batch [OF assms(1)] opt_stamp_def inactive_row_def row_wf_def)
next
  case ACancel
  with assms(3,4,5,6) assms(7) show ?thesis
    by (intro that [of _ _ "inactive_row now (Some now)"])
      (auto simp: own_batch_def owned_update_batch [OF assms(1)] opt_stamp_def inactive_row_def row_wf_def)
qed

lemma run_transition_eq:
  assumes "authorizeTransition sha clock input a (source a) w = (Inr (i, h, now), w1)"
    and "a = AExit \<Longrightarrow> is_ok (validateMaintenanceVerification (in_verification input))"
    and "d1_call OtherError (d1_batch (own_batch a i h now)) w1 = (Inr res, w2)"
    and "finishTransition res (target a) w2 = (Inr row, w')"
  shows "run_request sha clock (Transition a input) w = (Inr row, w')"
proof (cases a)
  case AExit
  have v: "validateMaintenanceVerification (in_verification input) = Inr verificationKeys"
    using assms(2) [OF AExit] validate_verification_distinct
    by (cases "validateMaintenanceVerification (in_verification input)") auto
  show ?thesis using assms AExit v
    by (simp add: run_request_def exitMaintenance_def eff_Inr_iffs own_batch_def)
qed (use assms in \<open>simp_all add: run_request_def enterMaintenance_def startMaintenanceVerification_def
   completeMaintenance_def cancelMaintenance_def eff_Inr_iffs own_batch_def\<close>)

text \<open>When nobody interferes and the caller presents the stored operation's secret, the
  action's confirmation and, for entering and cancelling, is not late, the transition succeeds
  and leaves a well-formed row in the state the action leads to.\<close>

lemma transition_completes:
  assumes "t_maintenance t = Some (encode_row r)" "row_wf r" "ready sha clock a input r"
  shows "\<exists>r' t'. run_request sha clock (Transition a input) (quiet t) = (Inr r', quiet t')
    \<and> t_maintenance t' = Some (encode_row r') \<and> row_wf r' \<and> m_state r' = target a"
proof -
  obtain i h now where
      m: "m_operationId r = Some i" "m_controllerSecretHash r = Some h" "m_state r = source a" "stamp now"
    and e: "source a = Entering \<Longrightarrow> \<exists>e. m_expiresAt r = Some e \<and> now < e"
    and au: "authorizeTransition sha clock input a (source a) (quiet t) = (Inr (i, h, now), quiet t)"
    by (rule authorize_quiet [OF assms]) blast
  from own_batch_quiet [OF assms(1,2) m(4,3,1,2) e] obtain res r' t' where
      b: "d1_batch (own_batch a i h now) t = (res, t')" "resultChanges (res ! 0) = 1" "res \<noteq> []"
      "t_maintenance t' = Some (encode_row r')" "row_wf r'" "m_state r' = target a" by blast
  have d: "d1_call OtherError (d1_batch (own_batch a i h now)) (quiet t) = (Inr res, quiet t')"
    by (simp add: d1_quiet b)
  have x: "a = AExit \<Longrightarrow> is_ok (validateMaintenanceVerification (in_verification input))"
    using assms(3) by (auto simp: ready_def split: option.splits js.splits sum.splits)
  from run_transition_eq [OF au x d finish_quiet [OF b(2,3,4,5,6)]] b show ?thesis by blast
qed

section \<open>Preparing\<close>

lemma prepare_Inr:
  assumes "prepareMaintenance sha clock actor nowOpt ttlMs newId newSecret w = (Inr (row, secret), w')"
  obtains identity groups now ttl i res w2 where
    "actorContext actor = Inr (identity, groups)" "normalizedNow clock nowOpt = Inr now" "safeTtl ttlMs = Inr ttl"
    "newId = JStr i" "operationIdPattern i" "newSecret = JStr secret" "hash_pattern (sha secret)"
    "d1_call OtherError (d1_batch [initialize now, claim i identity groups (sha secret) now (now + ttl)]) w = (Inr res, w2)"
    "resultChanges (res ! 1) = 1" "loadRawMaintenanceState w2 = (Inr (Some row), w')"
    "m_state row = Entering" "m_operationId row = Some i"
proof -
  from assms obtain identity groups now ttl i s res w2 w3 loaded where
      1: "actorContext actor = Inr (identity, groups)" "normalizedNow clock nowOpt = Inr now" "safeTtl ttlMs = Inr ttl"
        "newId = JStr i" "operationIdPattern i" "newSecret = JStr s" "hash_pattern (sha s)"
        "d1_call OtherError (d1_batch [initialize now, claim i identity groups (sha s) now (now + ttl)]) w = (Inr res, w2)"
        "resultChanges (res ! 1) = 1" "loadRawMaintenanceState w2 = (Inr loaded, w3)"
    and r: "(case loaded of
          Some row \<Rightarrow>
            bindM (requireM (m_state row = Entering \<and> m_operationId row = Some i
                     \<and> m_controllerSecretHash row = Some (sha s))
                   (RepositoryError ''maintenance_transition_failed'' 500)) (\<lambda>_.
            returnM (row, s))
        | None \<Rightarrow> throwM (RepositoryError ''maintenance_transition_failed'' 500)) w3 = (Inr (row, secret), w')"
    unfolding prepareMaintenance_def Let_def eff_Inr_iffs
    by (auto simp: eff_Inr_iffs split: prod.splits)
  from r have "loaded = Some row" "m_state row = Entering" "m_operationId row = Some i" "s = secret" "w3 = w'"
    by (cases loaded; auto simp: eff_Inr_iffs)+
  with 1 that show ?thesis by blast
qed

lemma claim_batch_changed:
  assumes "maint_inv t" "claim_ok i identity groups h now e"
    and "d1_batch [initialize now, claim i identity groups h now e] t = (res, t')" "resultChanges (res ! 1) = 1"
  shows "view t = Idle \<and> view t' = Running Entering i h \<and> t_sessions t' = t_sessions t"
  using assms(1)
proof (cases rule: maint_inv_cases)
  case 1
  with assms(3) entering_row_wf [OF assms(2)] show ?thesis
    by (auto simp: claim_batch [OF assms(1)] view_None view_encode)
next
  case (2 r)
  with assms(3,4) entering_row_wf [OF assms(2)] show ?thesis
    by (auto simp: claim_batch [OF assms(1)] view_encode row_mode_inactive split: if_splits)
qed

text \<open>Preparing maintenance succeeds only by claiming an idle portal in one atomic step: two
  concurrent preparations cannot both succeed from the same idle state, and the returned secret
  is the one whose hash is stored.\<close>

lemma prepare_success:
  assumes "env_follows maint_step w" "maint_inv (db_tables w)"
    and "request_ok clock (Prepare actor nowOpt ttlMs newId newSecret)"
    and "prepareMaintenance sha clock actor nowOpt ttlMs newId newSecret w = (Inr (row, secret), w')"
  shows "\<exists>i t t'. newId = JStr i \<and> newSecret = JStr secret \<and> maint_step\<^sup>*\<^sup>* (db_tables w) t
    \<and> view t = Idle \<and> maint_step t t' \<and> view t' = Running Entering i (sha secret)
    \<and> t_sessions t' = t_sessions t \<and> maint_step\<^sup>*\<^sup>* t' (db_tables w') \<and> m_operationId row = Some i"
proof -
  obtain identity groups now ttl i res w2 where
      1: "actorContext actor = Inr (identity, groups)" "normalizedNow clock nowOpt = Inr now" "safeTtl ttlMs = Inr ttl"
        "newId = JStr i" "operationIdPattern i" "newSecret = JStr secret" "hash_pattern (sha secret)"
    and d: "d1_call OtherError (d1_batch [initialize now, claim i identity groups (sha secret) now (now + ttl)]) w = (Inr res, w2)"
    and r: "resultChanges (res ! 1) = 1" "loadRawMaintenanceState w2 = (Inr (Some row), w')" "m_operationId row = Some i"
    by (rule prepare_Inr [OF assms(4)])
  note ok = prepare_claim_ok [OF assms(3) 1(1,2,3,5,7)]
  from d1_call_Inr [OF d assms(1)] obtain t where
      t: "maint_step\<^sup>*\<^sup>* (db_tables w) t" "env_follows maint_step w2"
        "d1_batch [initialize now, claim i identity groups (sha secret) now (now + ttl)] t = (res, db_tables w2)" by blast
  have st: "maint_step t (db_tables w2)"
    using maint_step.claimed [OF ok, of t] t(3) by simp
  have inv: "maint_inv t" using t(1) assms(2) by (rule maint.steps_inv)
  from claim_batch_changed [OF inv ok t(3) r(1)] followsD(1) [OF follows_load t(2) r(2)] st t(1) 1 r(3)
  show ?thesis by blast
qed

definition prepare_input_ok :: "(string \<Rightarrow> string) \<Rightarrow> int \<Rightarrow> js \<Rightarrow> js \<Rightarrow> js \<Rightarrow> js \<Rightarrow> js \<Rightarrow> bool" where
  "prepare_input_ok sha clock actor nowOpt ttlMs newId newSecret =
     (is_ok (actorContext actor) \<and> is_ok (normalizedNow clock nowOpt) \<and> is_ok (safeTtl ttlMs)
      \<and> is_ok (operationId newId)
      \<and> (case controllerSecret newSecret of Inr s \<Rightarrow> hash_pattern (sha s) | Inl _ \<Rightarrow> False)
      \<and> request_ok clock (Prepare actor nowOpt ttlMs newId newSecret))"

lemma idle_cases:
  assumes "maint_inv t"
  obtains "view t = Idle" "t_maintenance t = None"
  | r where "view t = Idle" "t_maintenance t = Some (encode_row r)" "row_wf r" "m_state r = Inactive"
  | r where "view t \<noteq> Idle" "t_maintenance t = Some (encode_row r)" "row_wf r" "m_state r \<noteq> Inactive"
  using assms
proof (cases rule: maint_inv_cases)
  case 1
  then show ?thesis using that(1) by (simp add: view_None)
next
  case (2 r)
  show ?thesis
  proof (cases "m_state r = Inactive")
    case True
    then show ?thesis using that(2) 2 by (simp add: view_encode row_mode_inactive)
  next
    case False
    with 2 have "view t \<noteq> Idle" by (auto simp: view_encode row_mode_advance row_wf_def)
    then show ?thesis using that(3) 2 False by blast
  qed
qed

text \<open>With nobody interfering, preparing succeeds on an idle portal, and on any other state it
  answers with a conflict and changes nothing.\<close>

lemma prepare_outcome:
  assumes "maint_inv t" "prepare_input_ok sha clock actor nowOpt ttlMs newId newSecret"
  shows "if view t = Idle
    then \<exists>row secret t'. prepareMaintenance sha clock actor nowOpt ttlMs newId newSecret (quiet t)
           = (Inr (row, secret), quiet t') \<and> m_state row = Entering
           \<and> t_maintenance t' = Some (encode_row row) \<and> row_wf row
    else prepareMaintenance sha clock actor nowOpt ttlMs newId newSecret (quiet t)
           = (Inl (RepositoryError ''maintenance_operation_conflict'' 409), quiet t)"
proof -
  from assms(2) obtain identity groups now ttl i s where
      1: "actorContext actor = Inr (identity, groups)" "normalizedNow clock nowOpt = Inr now" "safeTtl ttlMs = Inr ttl"
        "operationId newId = Inr i" "controllerSecret newSecret = Inr s" "hash_pattern (sha s)"
    and ro: "request_ok clock (Prepare actor nowOpt ttlMs newId newSecret)"
    by (auto simp: prepare_input_ok_def is_ok_def split: sum.splits)
  have p: "operationIdPattern i" "controllerSecretPattern s" using 1 by simp_all
  note ok = prepare_claim_ok [OF ro 1(1,2,3) p(1) 1(6)]
  let ?row = "entering_row i identity groups (sha s) now (now + ttl)"
  let ?ss = "[initialize now, claim i identity groups (sha s) now (now + ttl)]"
  note inputs = operationId_def controllerSecret_def controllerHash_def hashMaintenanceControllerSecret_def
  have e: "newId = JStr i" "newSecret = JStr s" using 1(4,5) by simp_all
  have good: "prepareMaintenance sha clock actor nowOpt ttlMs newId newSecret (quiet t) = (Inr (?row, s), quiet t')"
    if "d1_batch ?ss t = (res, t')" "length res = 2" "resultChanges (res ! 1) = 1"
       "t_maintenance t' = Some (encode_row ?row)" for res t'
    using 1(1,2,3,6) e p that entering_row_wf [OF ok]
    by (simp add: prepareMaintenance_def catchM_run bindM_run liftM_run requireM_run returnM_run Let_def
        d1_quiet load_quiet inputs) (simp add: entering_row_def)
  from assms(1) show ?thesis
  proof (cases rule: idle_cases)
    case 1
    then show ?thesis
      using good [OF claim_batch [OF assms(1), of now i identity groups "sha s" "now + ttl", unfolded 1 option.case]]
        entering_row_wf [OF ok] by (auto simp: entering_row_def)
  next
    case (2 r)
    have b: "d1_batch ?ss t = ([d1_result 0, d1_result 1], t\<lparr>t_maintenance := Some (encode_row ?row)\<rparr>)"
      using 2 by (simp add: claim_batch [OF assms(1)])
    show ?thesis using good [OF b] 2(1) entering_row_wf [OF ok] by (auto simp: entering_row_def)
  next
    case (3 r)
    have b: "d1_batch ?ss t = ([d1_result 0, d1_result 0], t)"
      using 3 by (simp add: claim_batch [OF assms(1)])
    have "prepareMaintenance sha clock actor nowOpt ttlMs newId newSecret (quiet t)
           = (Inl (RepositoryError ''maintenance_operation_conflict'' 409), quiet t)"
      using \<open>actorContext actor = _\<close> \<open>normalizedNow clock nowOpt = _\<close> \<open>safeTtl ttlMs = _\<close>
        \<open>hash_pattern (sha s)\<close> e p b
      by (simp add: prepareMaintenance_def catchM_run bindM_run liftM_run requireM_run throwM_run Let_def
          d1_quiet transitionError_def inputs)
    with 3(1) show ?thesis by simp
  qed
qed

section \<open>Two consequences of the code as written\<close>

definition request_now :: "int \<Rightarrow> maintenance_request \<Rightarrow> thrown + int" where
  "request_now clock req = (case req of
      Prepare actor now ttl i secret \<Rightarrow> normalizedNow clock now
    | Transition a input \<Rightarrow> normalizedNow clock (in_now input))"

definition no_earlier :: "int \<Rightarrow> thrown + int \<Rightarrow> bool" where
  "no_earlier e r = (case r of Inr n \<Rightarrow> e \<le> n | Inl _ \<Rightarrow> True)"

lemma keeps_d1_call: "(\<And>w. I w \<Longrightarrow> I (snd (d1_call err f w))) \<Longrightarrow> keeps I (d1_call err f)"
  by (rule keepsI)

lemma keeps_load_quiet: "keeps (\<lambda>w. w = quiet t) loadRawMaintenanceState"
  unfolding loadRawMaintenanceState_def
  by (intro keeps_intros) (simp add: keeps_def d1_quiet)

lemma keeps_authorize_quiet: "keeps (\<lambda>w. w = quiet t) (authorizeTransition sha clock input a st)"
  unfolding authorizeTransition_def by (intro keeps_intros keeps_load_quiet)

lemma keeps_finish_quiet: "keeps (\<lambda>w. w = quiet t) (finishTransition res st)"
  unfolding finishTransition_def by (intro keeps_intros keeps_load_quiet)

lemma keeps_transition_quiet:
  assumes "\<And>i h now. authorizeTransition sha clock input a (source a) (quiet t) = (Inr (i, h, now), quiet t) \<Longrightarrow> False"
  shows "run_request sha clock (Transition a input) (quiet t) = (r, w') \<Longrightarrow> w' = quiet t \<and> \<not> is_ok r"
proof -
  assume run: "run_request sha clock (Transition a input) (quiet t) = (r, w')"
  obtain ra wa where au: "authorizeTransition sha clock input a (source a) (quiet t) = (ra, wa)"
    by (cases "authorizeTransition sha clock input a (source a) (quiet t)")
  have wa: "wa = quiet t" using keeps_run [OF keeps_authorize_quiet refl au] by simp
  from assms au wa obtain x where ra: "ra = Inl x" by (cases ra) auto
  have "run_request sha clock (Transition a input) (quiet t) = (Inl (transitionError x), quiet t)"
    using au [unfolded wa ra]
    by (cases a) (simp_all add: run_request_def enterMaintenance_def startMaintenanceVerification_def
        exitMaintenance_def completeMaintenance_def cancelMaintenance_def catchM_run bindM_run throwM_run)
  with run show ?thesis by auto
qed

text \<open>A request that has nothing wrong but that it comes too late; of the secret, only its form counts.\<close>

definition well_formed_late :: "(string \<Rightarrow> string) \<Rightarrow> int \<Rightarrow> maintenance_row \<Rightarrow> maintenance_request \<Rightarrow> bool" where
  "well_formed_late sha clock r req \<longleftrightarrow> (case req of
      Prepare actor nowOpt ttlMs newId newSecret \<Rightarrow> prepare_input_ok sha clock actor nowOpt ttlMs newId newSecret
    | Transition a input \<Rightarrow> (\<exists>i s. m_operationId r = Some i \<and> in_operationId input = JStr i
        \<and> in_controllerSecret input = JStr s \<and> controllerSecretPattern s \<and> in_confirmation input = JStr (confirmation_text a i)
        \<and> is_ok (normalizedNow clock (in_now input))))"

definition late_answer :: "maintenance_request \<Rightarrow> thrown" where
  "late_answer req = (case req of
      Prepare actor nowOpt ttlMs newId newSecret \<Rightarrow> RepositoryError ''maintenance_operation_conflict'' 409
    | Transition a input \<Rightarrow>
        if source a = Entering then RepositoryError ''maintenance_prepare_expired'' 409 else RepositoryError ''maintenance_transition_invalid'' 409)"

lemma run_refused:
  assumes "authorizeTransition sha clock input a (source a) w = (Inl x, w')"
  shows "run_request sha clock (Transition a input) w = (Inl (transitionError x), w')"
  using assms by (cases a) (simp_all add: run_request_def enterMaintenance_def startMaintenanceVerification_def
    exitMaintenance_def completeMaintenance_def cancelMaintenance_def catchM_run bindM_run throwM_run)

lemma late_transition:
  assumes "t_maintenance t = Some (encode_row r)" "row_wf r" "m_state r = Entering" "m_expiresAt r = Some e"
    and "normalizedNow clock (in_now input) = Inr now" "e \<le> now" "well_formed_late sha clock r (Transition a input)"
  shows "run_request sha clock (Transition a input) (quiet t) = (Inl (late_answer (Transition a input)), quiet t)"
proof -
  from assms(7) obtain i s where m: "m_operationId r = Some i"
    and i: "in_operationId input = JStr i" "in_controllerSecret input = JStr s" "controllerSecretPattern s"
      "in_confirmation input = JStr (confirmation_text a i)"
    by (auto simp: well_formed_late_def)
  from assms(2,3) m obtain h where h: "operationIdPattern i" "m_controllerSecretHash r = Some h" "hash_pattern h" by (auto simp: row_wf_def)
  have ne: "h \<noteq> []" using h(3) by (rule hash_pattern_nonempty)
  have "authorizeTransition sha clock input a (source a) (quiet t) = (Inl (late_answer (Transition a input)), quiet t)"
    using assms(3-6) m i h ne
    by (auto simp: authorizeTransition_def bindM_run liftM_run requireM_run throwM_run operationId_def
        controllerSecret_def maintenanceConfirmation_action confirmation_text_def load_quiet [OF assms(1,2)]
        empty_opt_def late_answer_def)
  from run_refused [OF this] show ?thesis by (simp add: late_answer_def transitionError_def)
qed

text \<open>C26: An operation that is still entering when its time runs out can no longer be moved: while nobody else acts, every
  request made from then on fails and leaves the tables as they are, so the portal remains in maintenance. A request with
  nothing else wrong is told why: entering and cancelling are refused with \<open>maintenance_prepare_expired\<close>, preparing with
  \<open>maintenance_operation_conflict\<close>, the later transitions with \<open>maintenance_transition_invalid\<close>, each with status 409.\<close>

theorem expired_entering_stuck:
  assumes "t_maintenance t = Some (encode_row r)" "row_wf r" "m_state r = Entering" "m_expiresAt r = Some e"
    and "no_earlier e (request_now clock req)"
    and "run_request sha clock req (quiet t) = (res, w')"
  shows "w' = quiet t \<and> \<not> is_ok res \<and> (well_formed_late sha clock r req \<longrightarrow> res = Inl (late_answer req))"
proof (cases req)
  case (Transition a input)
  have "False" if au: "authorizeTransition sha clock input a (source a) (quiet t) = (Inr (i, h, now), quiet t)" for i h now
    using authorize_Inr [OF au] assms Transition
    by (auto simp: load_quiet request_now_def no_earlier_def)
  moreover have "res = Inl (late_answer req)" if late: "well_formed_late sha clock r req"
  proof -
    from late Transition obtain now where now: "normalizedNow clock (in_now input) = Inr now"
      by (cases "normalizedNow clock (in_now input)") (auto simp: well_formed_late_def)
    with assms(5) Transition have "e \<le> now" by (simp add: no_earlier_def request_now_def)
    from late_transition [OF assms(1-4) now this late [unfolded Transition]] assms(6) Transition show ?thesis by simp
  qed
  ultimately show ?thesis using assms(6) Transition keeps_transition_quiet by blast
next
  case (Prepare actor nowOpt ttlMs newId newSecret)
  have inv: "maint_inv t" using assms(1,2) by (simp add: maint_inv_def) blast
  have b: "d1_batch [initialize now, claim i identity groups h now x] t = ([d1_result 0, d1_result 0], t)"
    for now i identity groups h x
    using assms(1,3) by (simp add: claim_batch [OF inv])
  have k: "keeps (\<lambda>w. w = quiet t) (prepareMaintenance sha clock actor nowOpt ttlMs newId newSecret)"
    unfolding prepareMaintenance_def Let_def
    by (intro keeps_catchM keeps_throwM keeps_bindM keeps_liftM)
      (auto split: prod.splits option.splits intro!: keeps_intros keeps_d1_call keeps_load_quiet simp: d1_quiet b)
  obtain pr pw where p: "prepareMaintenance sha clock actor nowOpt ttlMs newId newSecret (quiet t) = (pr, pw)"
    by (cases "prepareMaintenance sha clock actor nowOpt ttlMs newId newSecret (quiet t)")
  have pw: "pw = quiet t" using keeps_run [OF k refl p] by simp
  have "\<not> is_ok pr"
  proof
    assume "is_ok pr"
    then obtain row s where "pr = Inr (row, s)" by (cases pr) auto
    with p obtain identity groups now ttl i res w2 where
      "d1_call OtherError (d1_batch [initialize now, claim i identity groups (sha s) now (now + ttl)]) (quiet t) = (Inr res, w2)"
      "resultChanges (res ! 1) = 1"
      by (auto elim: prepare_Inr)
    then show False by (auto simp: d1_quiet b)
  qed
  then obtain x where x: "pr = Inl x" by (cases pr) auto
  have "view t \<noteq> Idle"
    using assms(1-3) by (auto simp: view_encode row_mode_advance row_wf_def)
  with prepare_outcome [OF inv] p x Prepare have "x = late_answer req" if "well_formed_late sha clock r req"
    using that by (auto simp: well_formed_late_def late_answer_def)
  with x p pw assms(6) Prepare show ?thesis by (auto simp: run_request_def bindM_run)
qed

definition mode_free :: "'a maint_eff \<Rightarrow> bool" where
  "mode_free m \<longleftrightarrow> (\<forall>w c n w'. m w \<noteq> (Inl (ModeError c n), w'))"

lemma mode_free_bind: "mode_free m \<Longrightarrow> (\<And>x w w'. m w = (Inr x, w') \<Longrightarrow> mode_free (f x)) \<Longrightarrow> mode_free (bindM m f)"
  unfolding mode_free_def bindM_Inl_iff by blast

lemma mode_free_basic:
  "mode_free (returnM x)" "mode_free (throwM (RepositoryError c n))" "mode_free (requireM b (RepositoryError c n))"
  "mode_free (d1_call OtherError f)" "mode_free (d1_read OtherError g)"
  by (auto simp: mode_free_def returnM_run throwM_run requireM_run liftM_run d1_read_def d1_call_def Let_def
      split: list.splits prod.splits delivery.splits)

definition pure_mode_free :: "thrown + 'a \<Rightarrow> bool" where
  "pure_mode_free r \<longleftrightarrow> (\<forall>c n. r \<noteq> Inl (ModeError c n))"

lemma pure_mode_free_rules:
  "pure_mode_free r \<Longrightarrow> (\<And>x. pure_mode_free (f x)) \<Longrightarrow> pure_mode_free (bindE r f)"
  "pure_mode_free (Inr x)" "pure_mode_free (Inl (RepositoryError c n))" "pure_mode_free (guardE b (RepositoryError c n))"
  "pure_mode_free r \<Longrightarrow> pure_mode_free r' \<Longrightarrow> pure_mode_free (if b then r else r')"
  by (auto simp: pure_mode_free_def)

lemma pure_mode_free_readers:
  "pure_mode_free (operationId v)" "pure_mode_free (controllerHash v)" "pure_mode_free (optionalInteger v)"
  "pure_mode_free (parse_failure_code v)" "pure_mode_free (parseGroups v)" "pure_mode_free (parseJsonObject v)"
  "pure_mode_free (parse_entry kv)" "pure_mode_free (actorContext v)" "pure_mode_free (normalizedNow clock v)"
  "pure_mode_free (safeTtl v)" "pure_mode_free (controllerSecret v)"
  by (auto simp: pure_mode_free_def operationId_def controllerHash_def optionalInteger_def parse_failure_code_def
      parseGroups_def parseJsonObject_def parse_entry_def actorContext_def normalizedNow_def safeInteger_def
      safeTtl_def controllerSecret_def unavailable_def request_invalid_def Let_def
      split: js.splits option.splits prod.splits if_splits)

lemma pure_mode_free_mapE: "(\<And>x. pure_mode_free (f x)) \<Longrightarrow> pure_mode_free (mapE f xs)"
  by (induction xs) (auto intro!: pure_mode_free_rules)

lemma pure_mode_free_normalizeRow: "pure_mode_free (normalizeRow raw)"
proof -
  have v: "pure_mode_free (parseVerification v)" for v
    unfolding parseVerification_def
    by (intro pure_mode_free_rules pure_mode_free_readers)
      (auto intro!: pure_mode_free_mapE pure_mode_free_readers pure_mode_free_rules split: js.splits)
  have n: "pure_mode_free (null_or f v)" if "\<And>v. pure_mode_free (f v)" for f :: "js \<Rightarrow> thrown + 'b" and v
    using that by (auto simp: null_or_def intro!: pure_mode_free_rules)
  show ?thesis
    unfolding normalizeRow_def Let_def unavailable_def
    by (intro pure_mode_free_rules n pure_mode_free_readers v)
      (auto intro!: pure_mode_free_rules split: js.splits option.splits)
qed

lemma mode_free_liftM: "pure_mode_free r \<Longrightarrow> mode_free (liftM r)"
  by (auto simp: mode_free_def pure_mode_free_def liftM_run)

lemma mode_free_load: "mode_free loadRawMaintenanceState"
  unfolding loadRawMaintenanceState_def
  by (intro mode_free_bind mode_free_basic)
    (auto intro!: mode_free_bind mode_free_basic mode_free_liftM pure_mode_free_normalizeRow split: option.splits)

lemma mode_free_caught:
  assumes "mode_free m"
  shows "catchM m (\<lambda>e. throwM (case transitionError e of
          RepositoryError c n \<Rightarrow> if c = ''maintenance_state_unavailable'' then unavailable else RepositoryError c n
        | other \<Rightarrow> other)) w \<noteq> (Inl (RepositoryError ''maintenance_state_unavailable'' k), w')"
proof
  assume "catchM m (\<lambda>e. throwM (case transitionError e of
          RepositoryError c n \<Rightarrow> if c = ''maintenance_state_unavailable'' then unavailable else RepositoryError c n
        | other \<Rightarrow> other)) w = (Inl (RepositoryError ''maintenance_state_unavailable'' k), w')"
  then obtain e s' where "m w = (Inl e, s')"
    and e: "(case transitionError e of
          RepositoryError c n \<Rightarrow> if c = ''maintenance_state_unavailable'' then unavailable else RepositoryError c n
        | other \<Rightarrow> other) = RepositoryError ''maintenance_state_unavailable'' k"
    unfolding catchM_Inl_iff throwM_Inl_iff by auto
  with assms have "\<And>c n. e \<noteq> ModeError c n" by (auto simp: mode_free_def)
  with e show False by (cases e) (auto simp: transitionError_def split: if_splits)
qed

lemma hash_chain_mode_free:
  "controllerSecret v = Inr s \<Longrightarrow>
     pure_mode_free (bindE (hashMaintenanceControllerSecret sha (JStr s)) (\<lambda>h. controllerHash (JStr h)))"
  by (simp add: hashMaintenanceControllerSecret_def pure_mode_free_readers)

text \<open>Preparing never answers that the maintenance state is unavailable: the handler turns that
  error into a failed transition before the branch that would have reported it.\<close>

lemma prepare_never_unavailable:
  "prepareMaintenance sha clock actor nowOpt ttlMs newId newSecret w
     \<noteq> (Inl (RepositoryError ''maintenance_state_unavailable'' n), w')"
  unfolding prepareMaintenance_def Let_def
  by (rule mode_free_caught, intro mode_free_bind mode_free_liftM pure_mode_free_readers)
    (auto simp: liftM_run intro!: mode_free_bind mode_free_liftM mode_free_basic mode_free_load
      pure_mode_free_readers hash_chain_mode_free split: prod.splits option.splits
      simp del: controllerSecret_Inr)

section \<open>A concrete operation\<close>

definition sample_id :: string where
  "sample_id = ''maintenance_00000000-0000-4000-8000-000000000000''"

definition sample_secret :: string where
  "sample_secret = replicate 43 (CHR ''A'')"

definition sample_sha :: "string \<Rightarrow> string" where
  "sample_sha s = replicate 64 (CHR ''a'')"

definition sample_row :: maintenance_row where
  "sample_row = entering_row sample_id ''admin'' [] (sample_sha sample_secret) 1000 901000"

definition sample_tables :: tables where
  "sample_tables = \<lparr>t_maintenance = Some (encode_row sample_row), t_sessions = [''s1'']\<rparr>"

definition sample_input :: "confirmation_action \<Rightarrow> int \<Rightarrow> transition_input" where
  "sample_input a now = \<lparr>in_operationId = JStr sample_id, in_controllerSecret = JStr sample_secret,
     in_confirmation = JStr (confirmation_text a sample_id), in_now = JInt now, in_verification = JUndef\<rparr>"

definition sample_actor :: js where
  "sample_actor = JObj [(''identity'', JStr '' admin ''), (''groups'', JArr [JStr ''b'', JStr ''a'', JStr ''b''])]"

lemma sample_id_ok [simp]: "operationIdPattern sample_id"
  by code_simp

lemma sample_secret_ok [simp]: "controllerSecretPattern sample_secret"
  by code_simp

lemma sample_sha_ok [simp]: "hash_pattern (sample_sha s)"
  by (simp add: hash_pattern_def sample_sha_def list_all_iff is_hex_lower_def)

lemma sample_row_ok [simp]: "row_wf sample_row"
proof -
  have "js_trim ''admin'' = ''admin''" by code_simp
  then have "claim_ok sample_id ''admin'' [] (sample_sha sample_secret) 1000 901000"
    by (simp add: claim_ok_def clean_def stamp_def max_safe_def)
  then show ?thesis unfolding sample_row_def by (rule entering_row_wf)
qed

lemma sample_tables_ok [simp]: "maint_inv sample_tables"
  "t_maintenance sample_tables = Some (encode_row sample_row)"
  by (auto simp: sample_tables_def intro: maint_invI [OF sample_row_ok])

lemma sample_now [simp]: "1 \<le> n \<Longrightarrow> n \<le> max_safe \<Longrightarrow> normalizedNow clock (JInt n) = Inr n"
  by (simp add: normalizedNow_def safeInteger_def)

lemma sample_ready: "ready sample_sha 0 AEnter (sample_input AEnter 2000) sample_row"
  by (simp add: ready_def sample_row_def entering_row_def sample_input_def max_safe_def)

lemma sample_actor_context: "actorContext sample_actor = Inr (''admin'', [''a'', ''b''])"
proof -
  have i: "clean_text (JStr '' admin '') = ''admin''" by code_simp
  have g: "clean_text (JStr ''a'') = ''a''" "clean_text (JStr ''b'') = ''b''" by code_simp+
  have s: "sort_strings [''b'', ''a''] = [''a'', ''b'']" by (simp add: sort_strings_def)
  show ?thesis by (simp add: actorContext_def sample_actor_def plain_object_def i g s)
qed

lemma sample_prepare_ok:
  "prepare_input_ok sample_sha 1000 sample_actor JUndef JUndef (JStr sample_id) (JStr sample_secret)"
proof -
  have "length (groups_json [''a'', ''b'']) \<le> 65536"
    by (simp add: groups_json_def json_quote_def esc_char_def)
  moreover have "safeTtl JUndef = Inr 900000" by code_simp
  moreover have "normalizedNow 1000 JUndef = Inr 1000"
    by (simp add: normalizedNow_def safeInteger_def max_safe_def)
  ultimately show ?thesis
    by (simp add: prepare_input_ok_def sample_actor_context request_ok_def operationId_def controllerSecret_def max_safe_def)
qed

text \<open>The schedule of the witnesses: another login first, then a lost reply on the batch.\<close>

definition sample_world :: "delivery \<Rightarrow> tables database" where
  "sample_world d = \<lparr>db_tables = sample_tables,
     db_schedule = [(\<lambda>t. t\<lparr>t_sessions := [''s2'']\<rparr>, Delivered), (id, d)]\<rparr>"

lemma sample_world_env [simp]: "env_follows maint_step (sample_world d)"
proof -
  have "maint_step t (t\<lparr>t_sessions := [''s2'']\<rparr>)" for t by (rule sessions_changed)
  then show ?thesis by (auto simp: env_follows_def sample_world_def)
qed

lemma maintenance_request_safe_witness:
  "\<exists>t t'. maint_step\<^sup>*\<^sup>* sample_tables t \<and> (t' = t \<or> own_change sample_sha (Transition AEnter (sample_input AEnter 2000)) t t')
     \<and> maint_step\<^sup>*\<^sup>* t' (db_tables (snd (run_request sample_sha 0 (Transition AEnter (sample_input AEnter 2000)) (sample_world ReplyLost))))"
proof -
  let ?m = "run_request sample_sha 0 (Transition AEnter (sample_input AEnter 2000)) (sample_world ReplyLost)"
  obtain r w' where e: "?m = (r, w')" by (cases ?m)
  have "request_ok 0 (Transition AEnter (sample_input AEnter 2000))" by (simp add: request_ok_def)
  moreover have "maint_inv (db_tables (sample_world ReplyLost))" by (simp add: sample_world_def)
  moreover have "db_tables (sample_world ReplyLost) = sample_tables" by (simp add: sample_world_def)
  ultimately show ?thesis
    using maintenance_request_safe [OF _ _ sample_world_env _ e] by (simp add: e)
qed

lemma transition_completes_witness:
  "\<exists>r' t'. run_request sample_sha 0 (Transition AEnter (sample_input AEnter 2000)) (quiet sample_tables) = (Inr r', quiet t')
     \<and> m_state r' = Active"
  using transition_completes [OF sample_tables_ok(2) sample_row_ok sample_ready] by auto

lemma sample_enter: "\<exists>r' t'. run_request sample_sha 0 (Transition AEnter (sample_input AEnter 2000)) (quiet sample_tables) = (Inr r', quiet t')"
proof -
  obtain i h now where
      m: "m_operationId sample_row = Some i" "m_controllerSecretHash sample_row = Some h"
        "m_state sample_row = source AEnter" "stamp now"
    and e: "source AEnter = Entering \<Longrightarrow> \<exists>e. m_expiresAt sample_row = Some e \<and> now < e"
    and au: "authorizeTransition sample_sha 0 (sample_input AEnter 2000) AEnter (source AEnter) (quiet sample_tables) = (Inr (i, h, now), quiet sample_tables)"
    by (rule authorize_quiet [OF sample_tables_ok(2) sample_row_ok sample_ready]) blast
  from own_batch_quiet [OF sample_tables_ok(2) sample_row_ok m(4,3,1,2) e] obtain res r' t' where
      b: "d1_batch (own_batch AEnter i h now) sample_tables = (res, t')" "resultChanges (res ! 0) = 1" "res \<noteq> []"
      "t_maintenance t' = Some (encode_row r')" "row_wf r'" "m_state r' = target AEnter" by blast
  have d: "d1_call OtherError (d1_batch (own_batch AEnter i h now)) (quiet sample_tables) = (Inr res, quiet t')"
    by (simp add: d1_quiet b)
  from run_transition_eq [OF au _ d finish_quiet [OF b(2,3,4,5,6)]] show ?thesis by auto
qed

lemma transition_success_witness:
  "\<exists>t t'. (\<lambda>_ _. False)\<^sup>*\<^sup>* sample_tables t \<and> view t = Running Entering sample_id (sample_sha sample_secret)
     \<and> view t' = Running Active sample_id (sample_sha sample_secret) \<and> t_sessions t' = []"
proof -
  from sample_enter obtain r' t1 where
    run: "run_request sample_sha 0 (Transition AEnter (sample_input AEnter 2000)) (quiet sample_tables) = (Inr r', quiet t1)"
    by blast
  from transition_success [OF _ _ _ run, of "\<lambda>_ _. False"] obtain i h t t' where
    "authorized sample_sha (sample_input AEnter 2000) AEnter i h" "(\<lambda>_ _. False)\<^sup>*\<^sup>* sample_tables t" "view t = Running Entering i h"
    "view t' = target_mode AEnter i h" "t_sessions t' = []" by auto
  then show ?thesis
    by (intro exI [of _ t] exI [of _ t']) (auto simp: authorized_def sample_input_def target_mode_def)
qed

lemma prepare_outcome_witness:
  "prepareMaintenance sample_sha 1000 sample_actor JUndef JUndef (JStr sample_id) (JStr sample_secret) (quiet sample_tables)
     = (Inl (RepositoryError ''maintenance_operation_conflict'' 409), quiet sample_tables)"
proof -
  have "view sample_tables \<noteq> Idle"
    by (simp add: view_encode [OF sample_tables_ok(2) sample_row_ok]) (simp add: sample_row_def)
  with prepare_outcome [OF sample_tables_ok(1) sample_prepare_ok] show ?thesis by simp
qed

lemma sample_prepare:
  "\<exists>row w'. prepareMaintenance sample_sha 1000 sample_actor JUndef JUndef (JStr sample_id) (JStr sample_secret)
     (quiet \<lparr>t_maintenance = None, t_sessions = []\<rparr>) = (Inr (row, sample_secret), w')"
proof -
  have n: "normalizedNow 1000 JUndef = Inr 1000"
    by (simp add: normalizedNow_def safeInteger_def max_safe_def)
  have t: "safeTtl JUndef = Inr 900000" by code_simp
  have ro: "request_ok 1000 (Prepare sample_actor JUndef JUndef (JStr sample_id) (JStr sample_secret))"
    using sample_prepare_ok by (simp add: prepare_input_ok_def)
  note ok = prepare_claim_ok [OF ro sample_actor_context n t sample_id_ok sample_sha_ok [of sample_secret]]
  have i: "maint_inv \<lparr>t_maintenance = None, t_sessions = []\<rparr>" by (simp add: maint_inv_def)
  show ?thesis
    using n t entering_row_wf [OF ok]
    by (simp add: prepareMaintenance_def catchM_run bindM_run liftM_run requireM_run returnM_run Let_def
        sample_actor_context operationId_def controllerSecret_def controllerHash_def
        hashMaintenanceControllerSecret_def d1_quiet claim_batch [OF i] load_quiet)
      (simp add: entering_row_def)
qed

lemma prepare_success_witness:
  "\<exists>t'. maint_step\<^sup>*\<^sup>* \<lparr>t_maintenance = None, t_sessions = []\<rparr> t'
     \<and> view t' = Running Entering sample_id (sample_sha sample_secret)"
proof -
  from sample_prepare obtain row w' where
    run: "prepareMaintenance sample_sha 1000 sample_actor JUndef JUndef (JStr sample_id) (JStr sample_secret)
     (quiet \<lparr>t_maintenance = None, t_sessions = []\<rparr>) = (Inr (row, sample_secret), w')" by blast
  have ro: "request_ok 1000 (Prepare sample_actor JUndef JUndef (JStr sample_id) (JStr sample_secret))"
    using sample_prepare_ok by (simp add: prepare_input_ok_def)
  have "env_follows maint_step (quiet \<lparr>t_maintenance = None, t_sessions = []\<rparr>)"
    "maint_inv (db_tables (quiet \<lparr>t_maintenance = None, t_sessions = []\<rparr>))" by (simp_all add: maint_inv_def)
  from prepare_success [OF this ro run] show ?thesis
    by (auto intro: rtranclp.rtrancl_into_rtrancl)
qed

lemma expired_entering_stuck_witness:
  "run_request sample_sha 0 (Transition ACancel (sample_input ACancel 901000)) (quiet sample_tables)
     = (Inl (RepositoryError ''maintenance_prepare_expired'' 409), quiet sample_tables)"
proof -
  let ?req = "Transition ACancel (sample_input ACancel 901000)"
  obtain r w' where e: "run_request sample_sha 0 ?req (quiet sample_tables) = (r, w')"
    by (cases "run_request sample_sha 0 ?req (quiet sample_tables)")
  have "m_state sample_row = Entering" "m_expiresAt sample_row = Some 901000"
    by (simp_all add: sample_row_def entering_row_def)
  moreover have "no_earlier 901000 (request_now 0 ?req)"
    by (simp add: no_earlier_def request_now_def sample_input_def max_safe_def)
  moreover have "well_formed_late sample_sha 0 sample_row ?req"
    by (simp add: well_formed_late_def sample_row_def entering_row_def sample_input_def max_safe_def)
  ultimately have "w' = quiet sample_tables \<and> r = Inl (late_answer ?req)"
    using expired_entering_stuck [OF sample_tables_ok(2) sample_row_ok _ _ _ e] by blast
  with e show ?thesis by (simp add: late_answer_def)
qed

end
