(* ===== verification/Base64.thy ===== *)
theory Base64
  imports JsValue
begin

text \<open>
  \<open>btoa\<close>/\<open>Buffer.toString("base64")\<close> and the decoder, on lists of bytes (naturals below 256),
  and the URL alphabet \<open>base64Url\<close> of the source
  (\<open>src/recovery/maintenance/maintenance-mode.ts\<close>). Decoding what was encoded gives the bytes back, so
  an encoded secret loses nothing of its entropy.
\<close>

definition b64_alphabet :: string where
  "b64_alphabet = ''ABCDEFGHIJKLMNOPQRSTUVWXYZabcdefghijklmnopqrstuvwxyz0123456789+/''"

definition b64_char :: "nat \<Rightarrow> char" where
  "b64_char n = b64_alphabet ! n"

fun find_index :: "char \<Rightarrow> string \<Rightarrow> nat option" where
  "find_index c [] = None"
| "find_index c (d # ds) = (if c = d then Some 0 else map_option Suc (find_index c ds))"

definition b64_val :: "char \<Rightarrow> nat option" where
  "b64_val c = find_index c b64_alphabet"

definition bytes_ok :: "nat list \<Rightarrow> bool" where
  "bytes_ok bs = list_all (\<lambda>b. b < 256) bs"

fun btoa :: "nat list \<Rightarrow> string" where
  "btoa [] = []"
| "btoa [a] = [b64_char (a div 4), b64_char ((a mod 4) * 16), CHR ''='', CHR ''='']"
| "btoa [a, b] =
     [b64_char (a div 4), b64_char ((a mod 4) * 16 + b div 16), b64_char ((b mod 16) * 4), CHR ''='']"
| "btoa (a # b # c # rest) =
     b64_char (a div 4) # b64_char ((a mod 4) * 16 + b div 16)
     # b64_char ((b mod 16) * 4 + c div 64) # b64_char (c mod 64) # btoa rest"

fun atob :: "string \<Rightarrow> nat list option" where
  "atob [] = Some []"
| "atob (w # x # y # z # rest) = (case (b64_val w, b64_val x) of
      (Some p, Some q) \<Rightarrow>
        (if y = CHR ''='' then
           (if z = CHR ''='' \<and> rest = [] then Some [(p * 4 + q div 16) mod 256] else None)
         else (case b64_val y of
             None \<Rightarrow> None
           | Some r \<Rightarrow>
              (if z = CHR ''='' then
                 (if rest = [] then Some [(p * 4 + q div 16) mod 256, ((q mod 16) * 16 + r div 4) mod 256] else None)
               else (case (b64_val z, atob rest) of
                   (Some s, Some bs) \<Rightarrow>
                     Some ((p * 4 + q div 16) # ((q mod 16) * 16 + r div 4) # ((r mod 4) * 64 + s) # bs)
                 | _ \<Rightarrow> None))))
    | _ \<Rightarrow> None)"
| "atob _ = None"

lemma find_index_nth:
  "distinct xs \<Longrightarrow> n < length xs \<Longrightarrow> find_index (xs ! n) xs = Some n"
proof (induction xs arbitrary: n)
  case (Cons x xs)
  then show ?case by (cases n) auto
qed simp

lemma length_b64_alphabet: "length b64_alphabet = 64"
  by (simp add: b64_alphabet_def)

lemma distinct_b64_alphabet: "distinct b64_alphabet"
  by (simp add: b64_alphabet_def)

lemma b64_val_char [simp]: "n < 64 \<Longrightarrow> b64_val (b64_char n) = Some n"
  by (simp add: b64_val_def b64_char_def find_index_nth distinct_b64_alphabet length_b64_alphabet)

lemma b64_char_set: "n < 64 \<Longrightarrow> b64_char n \<in> set b64_alphabet"
  by (simp add: b64_char_def length_b64_alphabet)

lemma b64_char_not_pad [simp]: "n < 64 \<Longrightarrow> b64_char n \<noteq> CHR ''=''"
proof
  assume "n < 64" "b64_char n = CHR ''=''"
  then have "CHR ''='' \<in> set b64_alphabet" by (metis b64_char_set)
  then show False by (simp add: b64_alphabet_def)
qed

lemma split_digits: "q < k \<Longrightarrow> (p * k + q) div k = p" "q < k \<Longrightarrow> (p * k + q) mod k = q" for q :: nat
  by simp_all

lemma sextets:
  fixes a b c :: nat
  assumes "a < 256" "b < 256" "c < 256"
  shows "a div 4 < 64" "a mod 4 * 16 + b div 16 < 64" "b mod 16 * 4 + c div 64 < 64" "c mod 64 < 64"
    "a mod 4 * 16 < 64" "b mod 16 * 4 < 64" "b div 16 < 16" "c div 64 < 4"
proof -
  have 1: "a mod 4 < 4" "b mod 16 < 16" by simp_all
  show 2: "a div 4 < 64" "b div 16 < 16" "c div 64 < 4" "c mod 64 < 64"
    using assms by (simp_all add: less_mult_imp_div_less)
  show "a mod 4 * 16 + b div 16 < 64" "b mod 16 * 4 + c div 64 < 64" "a mod 4 * 16 < 64" "b mod 16 * 4 < 64"
    using 1 2 by linarith+
qed

lemma atob_btoa: "bytes_ok bs \<Longrightarrow> atob (btoa bs) = Some bs"
proof (induction bs rule: btoa.induct)
  case (2 a)
  then have l: "a < 256" by (simp add: bytes_ok_def)
  with sextets [OF l l l] show ?case by simp
next
  case (3 a b)
  then have l: "a < 256" "b < 256" by (simp_all add: bytes_ok_def)
  note s = sextets [OF l l(1)]
  show ?case using s l by (simp add: split_digits [OF s(7)])
next
  case (4 a b c rest)
  then have l: "a < 256" "b < 256" "c < 256" "bytes_ok rest" by (simp_all add: bytes_ok_def)
  note s = sextets [OF l(1-3)]
  from s l 4(1) [OF l(4)] show ?case by (simp add: split_digits [OF s(7)] split_digits [OF s(8)])
qed simp

lemma length_btoa: "length (btoa bs) = 4 * ((length bs + 2) div 3)"
proof (induction bs rule: btoa.induct)
  case (4 a b c rest)
  have "(length (a # b # c # rest) + 2) div 3 = Suc ((length rest + 2) div 3)" by simp
  with 4 show ?case by simp
qed auto

text \<open>\<open>replaceAll("+", "-").replaceAll("/", "_").replace(/=+$/u, "")\<close>\<close>

definition url_char :: "char \<Rightarrow> char" where
  "url_char c = (if c = CHR ''+'' then CHR ''-'' else if c = CHR ''/'' then CHR ''_'' else c)"

definition base64Url :: "nat list \<Rightarrow> string" where
  "base64Url bs = rev (dropWhile (\<lambda>c. c = CHR ''='') (rev (map url_char (btoa bs))))"

definition url_safe :: "char \<Rightarrow> bool" where
  "url_safe c = (is_upper c \<or> is_lower c \<or> is_digit c \<or> c = CHR ''_'' \<or> c = CHR ''-'')"

lemma url_char_safe: "c \<in> set b64_alphabet \<Longrightarrow> url_safe (url_char c)"
proof -
  have "list_all (\<lambda>c. url_safe (url_char c)) b64_alphabet" by code_simp
  then show "c \<in> set b64_alphabet \<Longrightarrow> url_safe (url_char c)" by (simp add: list_all_iff)
qed

lemma url_safe_not_pad: "url_safe c \<Longrightarrow> c \<noteq> CHR ''=''"
  by (auto simp: url_safe_def is_upper_def is_lower_def is_digit_def)

lemma url_char_inj: "c \<in> set b64_alphabet \<Longrightarrow> d \<in> set b64_alphabet \<Longrightarrow> url_char c = url_char d \<Longrightarrow> c = d"
proof -
  have "CHR ''-'' \<notin> set b64_alphabet" "CHR ''_'' \<notin> set b64_alphabet" by (simp_all add: b64_alphabet_def)
  then show "c \<in> set b64_alphabet \<Longrightarrow> d \<in> set b64_alphabet \<Longrightarrow> url_char c = url_char d \<Longrightarrow> c = d"
    by (auto simp: url_char_def split: if_splits)
qed

text \<open>Full groups of three bytes encode without padding; two more bytes add one pad.\<close>

definition unpadded :: "string \<Rightarrow> bool" where
  "unpadded s = list_all (\<lambda>c. c \<in> set b64_alphabet) s"

lemma btoa_append: "length xs mod 3 = 0 \<Longrightarrow> btoa (xs @ ys) = btoa xs @ btoa ys"
proof (induction xs rule: btoa.induct)
  case (4 a b c rest)
  then have "length rest mod 3 = 0" by (metis (no_types) One_nat_def add.commute add_Suc length_Cons mod_add_self2 numeral_3_eq_3 plus_1_eq_Suc)
  with 4(1) show ?case by simp
qed auto

lemma btoa_unpadded: "bytes_ok xs \<Longrightarrow> length xs mod 3 = 0 \<Longrightarrow> unpadded (btoa xs)"
proof (induction xs rule: btoa.induct)
  case (4 a b c rest)
  then have l: "a < 256" "b < 256" "c < 256" "bytes_ok rest" by (simp_all add: bytes_ok_def)
  from 4(3) have m: "length rest mod 3 = 0"
    by (metis (no_types) One_nat_def add.commute add_Suc length_Cons mod_add_self2 numeral_3_eq_3 plus_1_eq_Suc)
  note s = sextets [OF l(1-3)]
  with 4(1) [OF l(4) m] show ?case by (simp add: unpadded_def b64_char_set)
qed (auto simp: unpadded_def)

lemma strip_pad:
  "list_all (\<lambda>c. c \<noteq> CHR ''='') t \<Longrightarrow> rev (dropWhile (\<lambda>c. c = CHR ''='') (rev (t @ ''=''))) = t"
  by (cases t rule: rev_cases) auto

lemma base64Url_32:
  assumes "length bs = 32" "bytes_ok bs"
  shows "length (base64Url bs) = 43" "list_all url_safe (base64Url bs)"
    "base64Url bs = map url_char (butlast (btoa bs))" "unpadded (butlast (btoa bs))" "btoa bs = butlast (btoa bs) @ ''=''"
proof -
  let ?xs = "take 30 bs"
  have split: "bs = ?xs @ [bs ! 30, bs ! 31]"
  proof -
    have "drop 30 bs = [bs ! 30, bs ! 31]"
      using assms(1) by (simp add: Cons_nth_drop_Suc [symmetric] numeral_eq_Suc)
    then show ?thesis by (metis append_take_drop_id)
  qed
  have ok: "bytes_ok ?xs" "bs ! 30 < 256" "bs ! 31 < 256"
    using assms by (auto simp: bytes_ok_def list_all_length dest: in_set_takeD)
  have l30: "length ?xs mod 3 = 0" using assms(1) by simp
  let ?b = "btoa ?xs @ [b64_char (bs ! 30 div 4), b64_char ((bs ! 30 mod 4) * 16 + bs ! 31 div 16), b64_char ((bs ! 31 mod 16) * 4)]"
  have e: "btoa bs = ?b @ ''=''"
    using btoa_append [OF l30, of "[bs ! 30, bs ! 31]"] split by simp
  have "bs ! 30 div 4 < 64" "(bs ! 30 mod 4) * 16 + bs ! 31 div 16 < 64" "(bs ! 31 mod 16) * 4 < 64"
    using sextets [OF ok(2,3,2)] by simp_all
  with btoa_unpadded [OF ok(1) l30] have u: "unpadded ?b" by (simp add: unpadded_def b64_char_set)
  have bl: "butlast (btoa bs) = ?b" by (simp add: e butlast_append)
  show "unpadded (butlast (btoa bs))" "btoa bs = butlast (btoa bs) @ ''=''" using u bl e by simp_all
  have safe: "list_all url_safe (map url_char ?b)"
    using u url_char_safe unfolding unpadded_def list_all_iff set_map by blast
  have "list_all (\<lambda>c. c \<noteq> CHR ''='') (map url_char ?b)"
    using safe url_safe_not_pad unfolding list_all_iff by blast
  note strip = strip_pad [OF this]
  have pad: "map url_char ''='' = ''=''" by (simp add: url_char_def)
  show eq: "base64Url bs = map url_char (butlast (btoa bs))"
    unfolding bl unfolding base64Url_def e map_append [of _ ?b] pad by (rule strip)
  show "list_all url_safe (base64Url bs)" using safe by (simp add: eq bl)
  have "length (btoa bs) = 44" using assms(1) by (simp add: length_btoa)
  then show "length (base64Url bs) = 43" by (simp add: eq)
qed

lemma map_url_char_inj:
  "unpadded a \<Longrightarrow> unpadded b \<Longrightarrow> map url_char a = map url_char b \<Longrightarrow> a = b"
  by (rule map_inj_on [of url_char]) (auto simp: unpadded_def list_all_iff inj_on_def intro: url_char_inj)

lemma base64Url_32_inj:
  assumes "length as = 32" "bytes_ok as" "length bs = 32" "bytes_ok bs" "base64Url as = base64Url bs"
  shows "as = bs"
proof -
  have "butlast (btoa as) = butlast (btoa bs)"
    using assms base64Url_32 [OF assms(1,2)] base64Url_32 [OF assms(3,4)] by (metis map_url_char_inj)
  then have "btoa as = btoa bs"
    using base64Url_32(5) [OF assms(1,2)] base64Url_32(5) [OF assms(3,4)] by metis
  then show ?thesis using atob_btoa assms(2,4) by (metis option.inject)
qed

end
