(* ===== verification/MaintenanceGate.thy ===== *)
theory MaintenanceGate
  imports MaintenanceSafety Base64
begin

text \<open>
  The HTTP side of maintenance mode: \<open>worker/maintenance-mode-gate.ts\<close> (the gate in front of
  every request and of the scheduled handler), \<open>worker/maintenance-control-entry.ts\<close> (the
  control operations) and \<open>src/auth/admin-session-authorization.ts\<close> (the origin check).

  A request carries its path, method, headers and body. The handler behind the gate is a
  parameter: a computation on the same database. \<open>new URL(text).origin\<close> is the parameter
  \<open>url_origin\<close> (it returns nothing where the constructor throws). The audit log is outside
  the transaction and its failures are swallowed, so the handler returns the events it
  attempted to append.
\<close>

section \<open>Requests and responses\<close>

record http_request =
  rq_path :: string
  rq_method :: string
  rq_url :: string
  rq_origin :: "string option"
  rq_contentLength :: "string option"
  rq_body :: string

record http_response =
  rs_status :: int
  rs_body :: js
  rs_retry :: bool
  rs_maintenance :: "string option"

definition jsonResponse :: "js \<Rightarrow> int \<Rightarrow> bool \<Rightarrow> http_response" where
  "jsonResponse v status retry =
     \<lparr>rs_status = status, rs_body = v, rs_retry = retry, rs_maintenance = None\<rparr>"

definition upper_ascii :: "string \<Rightarrow> string" where
  "upper_ascii s = map (\<lambda>c. if is_lower c then char_of (code c - 32) else c) s"

definition isReadOnlyMethod :: "string \<Rightarrow> bool" where
  "isReadOnlyMethod m = (upper_ascii m \<in> set [''GET'', ''HEAD'', ''OPTIONS''])"

definition sameOriginAdminMutation :: "(string \<Rightarrow> string option) \<Rightarrow> http_request \<Rightarrow> bool" where
  "sameOriginAdminMutation url_origin rq =
     (if isReadOnlyMethod (rq_method rq) then True
      else (case rq_origin rq of
          None \<Rightarrow> False
        | Some origin \<Rightarrow>
           (if origin = [] then False
            else (case (url_origin origin, url_origin (rq_url rq)) of
                (Some a, Some b) \<Rightarrow> a = b
              | _ \<Rightarrow> False))))"

text \<open>
  \<open>secretsMatch\<close> on the digests of the two texts (lists of bytes as 32-bit integers). Where the
  provided digest is shorter, the missing bytes read as zero.
\<close>

definition digests_differ :: "i32 list \<Rightarrow> i32 list \<Rightarrow> i32" where
  "digests_differ actual wanted =
     collect_diff (of_nat (length actual) XOR of_nat (length wanted)) wanted
       (map (\<lambda>k. if k < length actual then actual ! k else 0) [0..<length wanted])"

definition secretsMatch :: "(string \<Rightarrow> i32 list) \<Rightarrow> string option \<Rightarrow> string option \<Rightarrow> bool" where
  "secretsMatch digest provided expected = (case (provided, expected) of
      (Some p, Some e) \<Rightarrow>
        (if p = [] \<or> e = [] then False else digests_differ (digest p) (digest e) = 0)
    | _ \<Rightarrow> False)"

section \<open>Paths\<close>

definition MAINTENANCE_STATUS_PATH :: string where
  "MAINTENANCE_STATUS_PATH = ''/api/admin/maintenance/status''"

definition MAINTENANCE_PREPARE_PATH :: string where
  "MAINTENANCE_PREPARE_PATH = ''/api/admin/maintenance/prepare''"

definition MAINTENANCE_ENTER_PATH :: string where
  "MAINTENANCE_ENTER_PATH = ''/api/admin/maintenance/enter''"

definition MAINTENANCE_VERIFICATION_START_PATH :: string where
  "MAINTENANCE_VERIFICATION_START_PATH = ''/api/admin/maintenance/verification/start''"

definition MAINTENANCE_EXIT_PATH :: string where
  "MAINTENANCE_EXIT_PATH = ''/api/admin/maintenance/exit''"

definition MAINTENANCE_COMPLETE_PATH :: string where
  "MAINTENANCE_COMPLETE_PATH = ''/api/admin/maintenance/complete''"

definition MAINTENANCE_CANCEL_PATH :: string where
  "MAINTENANCE_CANCEL_PATH = ''/api/admin/maintenance/cancel''"

definition MAINTENANCE_CONTROL_PATHS :: "string list" where
  "MAINTENANCE_CONTROL_PATHS =
     [MAINTENANCE_STATUS_PATH, MAINTENANCE_PREPARE_PATH, MAINTENANCE_ENTER_PATH,
      MAINTENANCE_VERIFICATION_START_PATH, MAINTENANCE_EXIT_PATH, MAINTENANCE_COMPLETE_PATH,
      MAINTENANCE_CANCEL_PATH]"

lemmas path_defs = MAINTENANCE_STATUS_PATH_def MAINTENANCE_PREPARE_PATH_def MAINTENANCE_ENTER_PATH_def
  MAINTENANCE_VERIFICATION_START_PATH_def MAINTENANCE_EXIT_PATH_def MAINTENANCE_COMPLETE_PATH_def
  MAINTENANCE_CANCEL_PATH_def

definition PUBLIC_MAINTENANCE_STATUS_PATH :: string where
  "PUBLIC_MAINTENANCE_STATUS_PATH = ''/api/maintenance/status''"

definition HEALTH_PATH :: string where
  "HEALTH_PATH = ''/api/integrations/health''"

definition immediatelyAllowedApiPaths :: "string list" where
  "immediatelyAllowedApiPaths = MAINTENANCE_CONTROL_PATHS @
     [''/api/admin/maintenance/verification/smoke'', ''/api/schema/status'', ''/api/admin/storage/status'',
      ''/api/admin/storage/integrity/check'', ''/api/admin/storage/migrations/preflight'']"

section \<open>The gate\<close>

definition unavailableStatus :: public_status where
  "unavailableStatus =
     \<lparr>ps_maintenance = True, ps_state = Failed, ps_updatedAt = None, ps_recoveryRequired = True\<rparr>"

text \<open>
  \<open>readMaintenance\<close>: the status, and whether it could not be read. Without a database it cannot.
\<close>

definition readMaintenance :: "bool \<Rightarrow> (public_status \<times> bool) maint_eff" where
  "readMaintenance hasDB =
     catchM (bindM (requireM hasDB OtherError) (\<lambda>_.
             bindM loadMaintenanceState (\<lambda>row.
             returnM (publicMaintenanceStatus (case row of None \<Rightarrow> JNull | Some r \<Rightarrow> row_js r), False))))
       (\<lambda>_. returnM (unavailableStatus, True))"

definition public_status_js :: "public_status \<Rightarrow> js" where
  "public_status_js s = JObj
     [(''maintenance'', JBool (ps_maintenance s)), (''state'', JStr (state_name (ps_state s))),
      (''updatedAt'', js_opt_int (ps_updatedAt s)), (''recoveryRequired'', JBool (ps_recoveryRequired s))]"

definition activeResponse :: "public_status \<times> bool \<Rightarrow> http_response" where
  "activeResponse r = jsonResponse
     (JObj [(''error'', JStr (if snd r then ''maintenance_state_unavailable'' else ''portal_maintenance_active'')),
            (''maintenance'', JObj [(''state'', JStr (state_name (ps_state (fst r)))), (''recoveryRequired'', JBool True)])])
     503 True"

definition withMaintenanceHeaders :: "http_response \<Rightarrow> maintenance_state \<Rightarrow> http_response" where
  "withMaintenanceHeaders r st = r\<lparr>rs_maintenance := Some (state_name st)\<rparr>"

definition handleMaintenanceGate ::
  "http_request \<Rightarrow> bool \<Rightarrow> bool \<Rightarrow> http_response maint_eff \<Rightarrow> http_response maint_eff" where
  "handleMaintenanceGate rq hasDB testBypass nextFetch =
     (let pathname = rq_path rq in
      if \<not> starts_with ''/api/'' pathname then nextFetch
      else if pathname \<in> set immediatelyAllowedApiPaths then nextFetch
      else if \<not> hasDB \<and> testBypass then nextFetch
      else bindM (readMaintenance hasDB) (\<lambda>read.
        if pathname = PUBLIC_MAINTENANCE_STATUS_PATH then returnM (jsonResponse (public_status_js (fst read)) 200 False)
        else if pathname = HEALTH_PATH then
          bindM nextFetch (\<lambda>response. returnM (withMaintenanceHeaders response (ps_state (fst read))))
        else if ps_state (fst read) \<noteq> Inactive then returnM (activeResponse read)
        else nextFetch))"

definition handleMaintenanceScheduledGate ::
  "bool \<Rightarrow> bool \<Rightarrow> unit maint_eff \<Rightarrow> unit maint_eff" where
  "handleMaintenanceScheduledGate hasDB testBypass nextScheduled =
     (if \<not> hasDB \<and> testBypass then nextScheduled
      else bindM (readMaintenance hasDB) (\<lambda>read.
        if ps_state (fst read) \<noteq> Inactive then returnM () else nextScheduled))"

section \<open>The control handler\<close>

definition safeErrors :: "(string \<times> int \<times> string) list" where
  "safeErrors =
     [(''maintenance_request_invalid'', 400, ''Maintenance request is invalid''),
      (''maintenance_request_too_large'', 413, ''Maintenance request is too large''),
      (''maintenance_origin_forbidden'', 403, ''Maintenance mutation requires same-origin authorization''),
      (''maintenance_method_not_allowed'', 405, ''Maintenance method is not allowed''),
      (''maintenance_state_unavailable'', 503, ''Maintenance state is unavailable''),
      (''maintenance_operation_conflict'', 409, ''Maintenance operation conflicts with current state''),
      (''maintenance_controller_invalid'', 409, ''Maintenance controller is invalid''),
      (''maintenance_confirmation_required'', 422, ''Maintenance confirmation is required''),
      (''maintenance_prepare_expired'', 409, ''Maintenance prepare operation expired''),
      (''maintenance_transition_invalid'', 409, ''Maintenance transition is invalid''),
      (''maintenance_verification_invalid'', 422, ''Maintenance verification is invalid''),
      (''maintenance_transition_failed'', 500, ''Maintenance transition failed'')]"

text \<open>\<open>safeErrors.get(code) ?? safeErrors.get("maintenance_transition_failed")\<close>\<close>

definition safe_error :: "string \<Rightarrow> int \<times> string" where
  "safe_error c = (case map_of safeErrors c of
      Some e \<Rightarrow> e | None \<Rightarrow> (500, ''Maintenance transition failed''))"

definition errorResponse :: "string \<Rightarrow> http_response" where
  "errorResponse c = (case safe_error c of (st, message) \<Rightarrow>
      jsonResponse (JObj [(''error'', JStr message), (''code'', JStr c)]) st False)"

definition normalizedError :: "thrown \<Rightarrow> string" where
  "normalizedError e =
     (let c = (case e of RepositoryError c n \<Rightarrow> c | ModeError c n \<Rightarrow> c | OtherError \<Rightarrow> [])
      in if c \<in> set (map fst safeErrors) then c else ''maintenance_transition_failed'')"

definition maximumBodyBytes :: int where
  "maximumBodyBytes = 16384"

fun num_in :: "jsnum \<Rightarrow> int \<Rightarrow> bool" where
  "num_in NaN hi = False"
| "num_in (Num n) hi = (0 \<le> n \<and> n \<le> hi)"
| "num_in (Frac m k) hi = (0 \<le> m \<and> m \<le> hi * 10 ^ k)"

definition contentLengthTooLarge :: "http_request \<Rightarrow> bool" where
  "contentLengthTooLarge rq = (case rq_contentLength rq of
      None \<Rightarrow> False
    | Some v \<Rightarrow> \<not> num_in (str_to_num v) maximumBodyBytes)"

text \<open>The length of the text in UTF-8.\<close>

definition utf8_length :: "string \<Rightarrow> nat" where
  "utf8_length s = sum_list (map (\<lambda>c. if code c < 128 then 1 else 2) s)"

definition parseBody :: "http_request \<Rightarrow> thrown + js" where
  "parseBody rq =
     (if contentLengthTooLarge rq \<or> maximumBodyBytes < int (utf8_length (rq_body rq))
      then Inl (RepositoryError ''maintenance_request_too_large'' 413)
      else (case json_parse (if rq_body rq = [] then ''{}'' else rq_body rq) of
          Some p \<Rightarrow> if plain_object p then Inr p else Inl request_invalid
        | None \<Rightarrow> Inl request_invalid))"

definition exactKeys :: "js \<Rightarrow> string list \<Rightarrow> bool" where
  "exactKeys v ks = (sort_strings (jkeys v) = sort_strings ks)"

definition parseTransitionBody :: "js \<Rightarrow> bool \<Rightarrow> int \<Rightarrow> thrown + transition_input" where
  "parseTransitionBody body withVerification now =
     (let ks = (if withVerification then [''operationId'', ''controllerSecret'', ''confirmation'', ''verification'']
                else [''operationId'', ''controllerSecret'', ''confirmation'']) in
      case (exactKeys body ks, jget body ''operationId'', jget body ''controllerSecret'', jget body ''confirmation'') of
        (True, JStr i, JStr s, JStr c) \<Rightarrow>
          Inr \<lparr>in_operationId = JStr i, in_controllerSecret = JStr s, in_confirmation = JStr c, in_now = JInt now,
               in_verification = (if withVerification then jget body ''verification'' else JUndef)\<rparr>
      | _ \<Rightarrow> Inl request_invalid)"

definition auditAction :: "string \<Rightarrow> string" where
  "auditAction p =
     (if p = MAINTENANCE_PREPARE_PATH then ''maintenance.prepare''
      else if p = MAINTENANCE_ENTER_PATH then ''maintenance.enter''
      else if p = MAINTENANCE_VERIFICATION_START_PATH then ''maintenance.verification.start''
      else if p = MAINTENANCE_EXIT_PATH then ''maintenance.exit''
      else if p = MAINTENANCE_COMPLETE_PATH then ''maintenance.complete''
      else ''maintenance.cancel'')"

definition expectedFromState :: "string \<Rightarrow> maintenance_state" where
  "expectedFromState p =
     (if p = MAINTENANCE_PREPARE_PATH then Inactive
      else if p = MAINTENANCE_ENTER_PATH \<or> p = MAINTENANCE_CANCEL_PATH then Entering
      else if p = MAINTENANCE_VERIFICATION_START_PATH then Active
      else if p = MAINTENANCE_EXIT_PATH then Verifying
      else Exiting)"

definition path_action :: "string \<Rightarrow> confirmation_action" where
  "path_action p =
     (if p = MAINTENANCE_ENTER_PATH then AEnter
      else if p = MAINTENANCE_VERIFICATION_START_PATH then AVerify
      else if p = MAINTENANCE_EXIT_PATH then AExit
      else if p = MAINTENANCE_COMPLETE_PATH then AComplete
      else ACancel)"

record audit_event =
  ae_action :: string
  ae_resourceId :: "string option"
  ae_outcome :: string
  ae_errorCode :: "string option"
  ae_toState :: "maintenance_state option"

definition admin_status_js :: "admin_status \<Rightarrow> js" where
  "admin_status_js s = JObj
     [(''maintenance'', JBool (ps_maintenance s)), (''state'', JStr (state_name (ps_state s))),
      (''operationId'', js_opt_str (as_operationId s)), (''createdAt'', js_opt_int (as_createdAt s)),
      (''updatedAt'', js_opt_int (ps_updatedAt s)), (''expiresAt'', js_opt_int (as_expiresAt s)),
      (''completedAt'', js_opt_int (as_completedAt s)), (''recoveryRequired'', JBool (ps_recoveryRequired s)),
      (''failureCode'', js_opt_str (as_failureCode s)), (''verification'', verification_js (as_verification s))]"

definition transitionProjection :: "maintenance_row \<Rightarrow> js" where
  "transitionProjection r = JObj
     [(''state'', JStr (state_name (m_state r))), (''operationId'', js_opt_str (m_operationId r)),
      (''updatedAt'', js_opt_int (m_updatedAt r)), (''completedAt'', js_opt_int (m_completedAt r)),
      (''recoveryRequired'', JBool (m_state r \<noteq> Inactive))]"

text \<open>What the platform draws for one request: the UUID and the 32 random bytes.\<close>

definition createMaintenanceOperationId :: "string \<Rightarrow> string" where
  "createMaintenanceOperationId uuid = ''maintenance_'' @ uuid"

definition createMaintenanceControllerSecret :: "nat list \<Rightarrow> string" where
  "createMaintenanceControllerSecret bytes = base64Url bytes"

definition prepare_reply :: "maintenance_row \<times> string \<Rightarrow> string \<Rightarrow> js" where
  "prepare_reply p confirmation = JObj
     [(''prepared'', JBool True), (''state'', JStr (state_name (m_state (fst p)))),
      (''operationId'', js_opt_str (m_operationId (fst p))), (''controllerSecret'', JStr (snd p)),
      (''expiresAt'', js_opt_int (m_expiresAt (fst p))), (''confirmation'', JStr confirmation)]"

definition control_failure :: "string \<Rightarrow> string option \<Rightarrow> thrown \<Rightarrow> http_response \<times> audit_event list" where
  "control_failure pathname operation e =
     (errorResponse (normalizedError e),
      [\<lparr>ae_action = auditAction pathname, ae_resourceId = operation, ae_outcome = ''failure'',
        ae_errorCode = Some (normalizedError e), ae_toState = None\<rparr>])"

definition handleMaintenanceControlRequest ::
  "(string \<Rightarrow> string) \<Rightarrow> (string \<Rightarrow> string option) \<Rightarrow> int \<Rightarrow> string \<Rightarrow> nat list \<Rightarrow> js \<Rightarrow> bool \<Rightarrow> http_request \<Rightarrow>
     (http_response \<times> audit_event list) maint_eff" where
  "handleMaintenanceControlRequest sha url_origin clock uuid bytes actor hasDB rq =
     (let pathname = rq_path rq in
      if \<not> hasDB then returnM (errorResponse ''maintenance_state_unavailable'', [])
      else if pathname = MAINTENANCE_STATUS_PATH then
        (if rq_method rq \<noteq> ''GET'' then returnM (errorResponse ''maintenance_method_not_allowed'', [])
         else catchM (bindM loadMaintenanceState (\<lambda>row. returnM (jsonResponse
                (admin_status_js (adminMaintenanceStatus (case row of None \<Rightarrow> JNull | Some r \<Rightarrow> row_js r))) 200 False, [])))
              (\<lambda>e. returnM (errorResponse (normalizedError e), [])))
      else if pathname \<notin> set MAINTENANCE_CONTROL_PATHS then
        returnM (jsonResponse (JObj [(''error'', JStr ''Not found'')]) 404 False, [])
      else if rq_method rq \<noteq> ''POST'' then returnM (errorResponse ''maintenance_method_not_allowed'', [])
      else if \<not> sameOriginAdminMutation url_origin rq then returnM (errorResponse ''maintenance_origin_forbidden'', [])
      else catchM
        (bindM (liftM (parseBody rq)) (\<lambda>body.
         if pathname = MAINTENANCE_PREPARE_PATH then
           bindM (requireM (exactKeys body []) request_invalid) (\<lambda>_.
           bindM (prepareMaintenance sha clock actor (JInt clock) JUndef
                   (JStr (createMaintenanceOperationId uuid)) (JStr (createMaintenanceControllerSecret bytes))) (\<lambda>prepared.
           let pending = \<lparr>ae_action = auditAction pathname, ae_resourceId = m_operationId (fst prepared),
                 ae_outcome = ''pending'', ae_errorCode = None, ae_toState = Some (m_state (fst prepared))\<rparr> in
           case maintenanceConfirmation (JStr ''enter'') (js_opt_str (m_operationId (fst prepared))) of
             Inr confirmation \<Rightarrow> returnM (jsonResponse (prepare_reply prepared confirmation) 200 False, [pending])
           | Inl e \<Rightarrow> (let (r, evs) = control_failure pathname (m_operationId (fst prepared)) e
                       in returnM (r, pending # evs))))
         else
           bindM (liftM (parseTransitionBody body (pathname = MAINTENANCE_EXIT_PATH) clock)) (\<lambda>input.
           let operation = (case in_operationId input of JStr i \<Rightarrow> Some i | _ \<Rightarrow> None) in
           catchM (bindM (run_request sha clock (Transition (path_action pathname) input)) (\<lambda>row.
             returnM (jsonResponse (transitionProjection row) 200 False,
               [\<lparr>ae_action = auditAction pathname, ae_resourceId = operation, ae_outcome = ''success'',
                 ae_errorCode = None, ae_toState = Some (m_state row)\<rparr>])))
             (\<lambda>e. returnM (control_failure pathname operation e)))))
        (\<lambda>e. returnM (control_failure pathname None e)))"

section \<open>The gate is closed unless the portal is idle\<close>

lemma follows_loadState [follows_intros]: "follows R loadMaintenanceState"
  unfolding loadMaintenanceState_def
  by (intro follows_catchM follows_load) (auto intro!: follows_intros split: thrown.splits)

lemma follows_read [follows_intros]: "follows R (readMaintenance hasDB)"
  unfolding readMaintenance_def by (intro follows_intros)

lemma loadState_Inr:
  "loadMaintenanceState w = (Inr row, w') \<Longrightarrow> loadRawMaintenanceState w = (Inr row, w')"
  unfolding loadMaintenanceState_def catchM_Inr_iff
  by (elim disjE exE conjE) (simp_all add: throwM_run split: thrown.splits)

lemma status_state:
  "ps_state (publicMaintenanceStatus (case row of None \<Rightarrow> JNull | Some r \<Rightarrow> row_js r))
     = (case row of None \<Rightarrow> Inactive | Some r \<Rightarrow> m_state r)"
proof (cases row)
  case None
  then show ?thesis by (simp add: publicMaintenanceStatus_def normalizedStatus_def nullish_def Let_def)
qed (simp add: publicStatus_row)

lemma row_mode_idle_iff: "row_wf r \<Longrightarrow> row_mode r = Idle \<longleftrightarrow> m_state r = Inactive"
  by (auto simp: row_mode_inactive row_mode_advance row_wf_def split: if_splits)

lemma readMaintenance_total: "\<exists>s u w'. readMaintenance hasDB w = (Inr (s, u), w')"
  unfolding readMaintenance_def catchM_run
  by (auto simp: returnM_run split: prod.splits sum.splits)

text \<open>
  What the row of the database says by itself, whoever wrote it: it reads as inactive when there is none or when the
  reader accepts it and its state is inactive. A row the reader does not accept does not.
\<close>

definition reads_inactive :: "tables \<Rightarrow> bool" where
  "reads_inactive t \<longleftrightarrow> (case t_maintenance t of
      None \<Rightarrow> True
    | Some raw \<Rightarrow> (case normalizeRow raw of Inr row \<Rightarrow> m_state row = Inactive | Inl _ \<Rightarrow> False))"

lemma load_Inr_raw:
  assumes "env_follows R w" "loadRawMaintenanceState w = (Inr row, w')"
  shows "R\<^sup>*\<^sup>* (db_tables w) (db_tables w') \<and> (case t_maintenance (db_tables w') of None \<Rightarrow> row = None
    | Some raw \<Rightarrow> \<exists>y. normalizeRow raw = Inr y \<and> row = Some y)"
proof -
  from assms(2) obtain raw where raw: "d1_read OtherError t_maintenance w = (Inr raw, w')"
    and r: "(case raw of None \<Rightarrow> row = None | Some x \<Rightarrow> \<exists>y. normalizeRow x = Inr y \<and> row = Some y)"
    unfolding loadRawMaintenanceState_def eff_Inr_iffs
    by (auto simp: eff_Inr_iffs split: option.splits)
  from d1_read_Inr [OF raw assms(1)] r show ?thesis by simp
qed

lemma readMaintenance_inactive:
  assumes "env_follows R w" "readMaintenance hasDB w = (Inr (s, u), w')" "ps_state s = Inactive"
  shows "R\<^sup>*\<^sup>* (db_tables w) (db_tables w') \<and> reads_inactive (db_tables w')"
proof -
  from assms(2,3) obtain row where l: "loadMaintenanceState w = (Inr row, w')"
    and s: "s = publicMaintenanceStatus (case row of None \<Rightarrow> JNull | Some r \<Rightarrow> row_js r)"
    unfolding readMaintenance_def catchM_Inr_iff
    by (auto simp: eff_Inr_iffs unavailableStatus_def)
  from load_Inr_raw [OF assms(1) loadState_Inr [OF l]] assms(3) [unfolded s status_state] show ?thesis
    by (auto simp: reads_inactive_def split: option.splits)
qed

text \<open>The paths the gate decides on.\<close>

definition gated :: "http_request \<Rightarrow> bool" where
  "gated rq = (starts_with ''/api/'' (rq_path rq) \<and> rq_path rq \<notin> set immediatelyAllowedApiPaths
     \<and> rq_path rq \<noteq> PUBLIC_MAINTENANCE_STATUS_PATH \<and> rq_path rq \<noteq> HEALTH_PATH)"

definition refused :: "('t, 'e, http_response) eff \<Rightarrow> 't \<Rightarrow> bool" where
  "refused m w = (case m w of (Inr r, _) \<Rightarrow> rs_status r = 503 \<and> rs_retry r | _ \<Rightarrow> False)"

text \<open>C21: On a gated path the handler behind the gate runs only from tables that the gate has read and in which there is
  no row of maintenance or one that the reader accepts and that is inactive. In every other case - a database that fails
  or is missing, a row that the reader does not accept, whoever wrote it, an operation in any other state - the answer is
  503 with a retry hint and the handler does not run at all. The bypass that lets tests run without a database is
  taken to be off, or a database to be there.\<close>

theorem gate_fails_closed:
  assumes "gated rq" "env_follows R w" "hasDB \<or> \<not> bypass"
  shows "(\<exists>w1. hasDB \<and> R\<^sup>*\<^sup>* (db_tables w) (db_tables w1) \<and> reads_inactive (db_tables w1)
            \<and> (\<forall>nextFetch. handleMaintenanceGate rq hasDB bypass nextFetch w = nextFetch w1))
       \<or> (\<exists>r w1. (\<forall>nextFetch. handleMaintenanceGate rq hasDB bypass nextFetch w = (Inr r, w1))
            \<and> rs_status r = 503 \<and> rs_retry r)"
proof -
  obtain s u w1 where r: "readMaintenance hasDB w = (Inr (s, u), w1)"
    using readMaintenance_total by blast
  have g: "handleMaintenanceGate rq hasDB bypass nextFetch w
     = (if ps_state s \<noteq> Inactive then (Inr (activeResponse (s, u)), w1) else nextFetch w1)" for nextFetch
    using assms(1,3) r by (auto simp: handleMaintenanceGate_def gated_def bindM_run returnM_run Let_def)
  show ?thesis
  proof (cases "ps_state s = Inactive")
    case True
    have "hasDB"
      using r True by (auto simp: readMaintenance_def catchM_Inr_iff eff_Inr_iffs unavailableStatus_def)
    with True g readMaintenance_inactive [OF assms(2) r] show ?thesis by auto
  next
    case False
    with g show ?thesis by (intro disjI2) (auto simp: activeResponse_def jsonResponse_def)
  qed
qed

text \<open>With the database answering, a gated request reaches the handler behind the gate exactly
  when no maintenance operation is running.\<close>

lemma gate_quiet:
  assumes "gated rq" "maint_inv t"
  shows "handleMaintenanceGate rq True bypass nextFetch (quiet t) =
     (if view t = Idle then nextFetch (quiet t)
      else (Inr (jsonResponse (JObj
               [(''error'', JStr ''portal_maintenance_active''),
                (''maintenance'', JObj [(''state'', JStr (case view t of Running st i h \<Rightarrow> state_name st | Idle \<Rightarrow> [])),
                                       (''recoveryRequired'', JBool True)])]) 503 True), quiet t))"
  using assms(2)
proof (cases rule: maint_inv_cases)
  case 1
  have l: "loadMaintenanceState (quiet t) = (Inr None, quiet t)"
    by (simp add: loadMaintenanceState_def catchM_run load_quiet_None [OF 1])
  with assms(1) 1 show ?thesis
    by (simp add: handleMaintenanceGate_def gated_def bindM_run returnM_run Let_def readMaintenance_def
        catchM_run requireM_run status_state [of None, simplified] view_None)
next
  case (2 r)
  have l: "loadMaintenanceState (quiet t) = (Inr (Some r), quiet t)"
    by (simp add: loadMaintenanceState_def catchM_run load_quiet [OF 2])
  have v: "view t = row_mode r" using 2 by (simp add: view_encode)
  have rm: "m_state r \<noteq> Inactive \<Longrightarrow> \<exists>i h. row_mode r = Running (m_state r) i h"
    using 2 by (auto simp: row_wf_def row_mode_advance)
  show ?thesis
    using assms(1) l rm row_mode_idle_iff [OF 2(2)]
    by (auto simp: handleMaintenanceGate_def gated_def bindM_run returnM_run Let_def readMaintenance_def
        catchM_run requireM_run publicStatus_row v activeResponse_def)
qed

lemma sample_gated: "gated \<lparr>rq_path = ''/api/automations'', rq_method = ''GET'', rq_url = [], rq_origin = None,
    rq_contentLength = None, rq_body = []\<rparr>"
  by (simp add: gated_def starts_with_def immediatelyAllowedApiPaths_def MAINTENANCE_CONTROL_PATHS_def path_defs
      PUBLIC_MAINTENANCE_STATUS_PATH_def HEALTH_PATH_def)

text \<open>A row no operation writes: the reader does not accept it, and the gate is closed.\<close>

definition spoilt_tables :: tables where
  "spoilt_tables = \<lparr>t_maintenance = Some ((encode_row (inactive_row 1000 None))\<lparr>c_updated_at := JNull\<rparr>), t_sessions = []\<rparr>"

lemma normalizeRow_updated: "normalizeRow raw = Inr row \<Longrightarrow> c_updated_at raw \<noteq> JNull"
  by (auto simp: normalizeRow_def Let_def guardE_def split: if_splits)

lemma spoilt_row: "\<not> reads_inactive spoilt_tables"
  using normalizeRow_updated [of "(encode_row (inactive_row 1000 None))\<lparr>c_updated_at := JNull\<rparr>"]
  by (auto simp: reads_inactive_def spoilt_tables_def split: sum.splits)

lemma gate_fails_closed_witness:
  "let rq = \<lparr>rq_path = ''/api/automations'', rq_method = ''GET'', rq_url = [], rq_origin = None,
      rq_contentLength = None, rq_body = []\<rparr>
   in \<exists>r w1. (\<forall>nextFetch. handleMaintenanceGate rq True False nextFetch (quiet spoilt_tables) = (Inr r, w1))
            \<and> rs_status r = 503 \<and> rs_retry r"
proof -
  have "\<not> ((\<lambda>_ _. False)\<^sup>*\<^sup>* spoilt_tables t \<and> reads_inactive t)" for t
    using spoilt_row by (auto elim: converse_rtranclpE)
  with gate_fails_closed [OF sample_gated, of "\<lambda>_ _. False" "quiet spoilt_tables" True False] show ?thesis by (auto simp: Let_def)
qed

lemma gate_quiet_witness:
  "rs_status (projr (fst (handleMaintenanceGate \<lparr>rq_path = ''/api/automations'', rq_method = ''GET'', rq_url = [],
      rq_origin = None, rq_contentLength = None, rq_body = []\<rparr> True False (throwM OtherError) (quiet sample_tables)))) = 503"
proof -
  have "view sample_tables = Running Entering sample_id (sample_sha sample_secret)"
    by (simp add: view_encode [OF sample_tables_ok(2) sample_row_ok]) (simp add: sample_row_def)
  then show ?thesis
    using gate_quiet [OF sample_gated sample_tables_ok(1), of False "throwM OtherError"]
    by (simp add: jsonResponse_def)
qed

section \<open>The control handler\<close>

definition mutation_allowed :: "(string \<Rightarrow> string option) \<Rightarrow> bool \<Rightarrow> http_request \<Rightarrow> bool" where
  "mutation_allowed url_origin hasDB rq = (hasDB \<and> rq_method rq = ''POST''
     \<and> sameOriginAdminMutation url_origin rq
     \<and> rq_path rq \<in> set MAINTENANCE_CONTROL_PATHS \<and> rq_path rq \<noteq> MAINTENANCE_STATUS_PATH
     \<and> is_ok (parseBody rq))"

lemma follows_same_tables:
  assumes "follows (\<lambda>_ _. False) m" "env_follows (\<lambda>_ _. False) w"
  shows "db_tables (snd (m w)) = db_tables w"
proof -
  have "(\<lambda>_ _. False)\<^sup>*\<^sup>* (db_tables w) (db_tables (snd (m w)))"
    using assms by (simp add: follows_def)
  then show ?thesis by (cases rule: rtranclp.cases) auto
qed

lemma follows_bind_fail: "follows R (bindM (liftM (Inl e)) f)"
  by (rule follows_pure) (simp add: bindM_run liftM_run)

text \<open>A control request changes no table unless it is a POST from the portal's own origin to one of
  the six transition paths with a body that parses, also when database calls fail.\<close>

lemma control_guards:
  assumes "\<not> mutation_allowed url_origin hasDB rq" "env_follows (\<lambda>_ _. False) w"
  shows "db_tables (snd (handleMaintenanceControlRequest sha url_origin clock uuid bytes actor hasDB rq w)) = db_tables w"
proof -
  have "follows (\<lambda>_ _. False) (handleMaintenanceControlRequest sha url_origin clock uuid bytes actor hasDB rq)"
  proof (cases "hasDB \<and> rq_path rq \<noteq> MAINTENANCE_STATUS_PATH \<and> rq_path rq \<in> set MAINTENANCE_CONTROL_PATHS
      \<and> rq_method rq = ''POST'' \<and> sameOriginAdminMutation url_origin rq")
    case True
    with assms(1) obtain e where e: "parseBody rq = Inl e"
      by (cases "parseBody rq") (auto simp: mutation_allowed_def)
    show ?thesis
      unfolding handleMaintenanceControlRequest_def Let_def e
      by (intro follows_if follows_catchM follows_returnM follows_bind_fail follows_bindM' follows_loadState)
  next
    case False
    then show ?thesis
      unfolding handleMaintenanceControlRequest_def Let_def
      by (auto intro!: follows_intros)
  qed
  then show ?thesis using assms(2) by (rule follows_same_tables)
qed

lemma control_guards_witness:
  "db_tables (snd (handleMaintenanceControlRequest sample_sha (\<lambda>u. Some u) 0 [] [] sample_actor True
     \<lparr>rq_path = MAINTENANCE_CANCEL_PATH, rq_method = ''POST'', rq_url = ''https://portal'', rq_origin = Some ''https://evil'',
      rq_contentLength = None, rq_body = []\<rparr> (quiet sample_tables))) = sample_tables"
  by (subst control_guards)
    (auto simp: mutation_allowed_def sameOriginAdminMutation_def isReadOnlyMethod_def upper_ascii_def is_lower_def)

definition control_ok :: "int \<Rightarrow> js \<Rightarrow> bool" where
  "control_ok clock actor = (clock + 3600000 \<le> max_safe \<and>
     (case actorContext actor of Inr (identity, groups) \<Rightarrow> length (groups_json groups) \<le> 65536 | Inl _ \<Rightarrow> True))"

lemma normalizedNow_clock: "normalizedNow clock (JInt clock) = Inr n \<Longrightarrow> n = clock"
  by (auto simp: normalizedNow_def safeInteger_def split: option.splits if_splits)

text \<open>The change a control request asks for: of preparation, or of the transition its path and body name.\<close>

definition control_change ::
  "(string \<Rightarrow> string) \<Rightarrow> (string \<Rightarrow> string option) \<Rightarrow> int \<Rightarrow> string \<Rightarrow> nat list \<Rightarrow> js \<Rightarrow> bool \<Rightarrow> http_request \<Rightarrow> tables \<Rightarrow> tables \<Rightarrow> bool" where
  "control_change sha url_origin clock uuid bytes actor hasDB rq t t' \<longleftrightarrow>
     mutation_allowed url_origin hasDB rq
     \<and> (if rq_path rq = MAINTENANCE_PREPARE_PATH
        then own_change sha (Prepare actor (JInt clock) JUndef (JStr (createMaintenanceOperationId uuid))
               (JStr (createMaintenanceControllerSecret bytes))) t t'
        else (\<exists>body input. parseBody rq = Inr body \<and> parseTransitionBody body (rq_path rq = MAINTENANCE_EXIT_PATH) clock = Inr input
               \<and> own_change sha (Transition (path_action (rq_path rq)) input) t t'))"

definition control_step ::
  "(string \<Rightarrow> string) \<Rightarrow> (string \<Rightarrow> string option) \<Rightarrow> int \<Rightarrow> string \<Rightarrow> nat list \<Rightarrow> js \<Rightarrow> bool \<Rightarrow> http_request \<Rightarrow> tables \<Rightarrow> tables \<Rightarrow> bool" where
  "control_step sha url_origin clock uuid bytes actor hasDB rq t t' \<longleftrightarrow>
     (maint_inv t \<longrightarrow> t' = t \<or> control_change sha url_origin clock uuid bytes actor hasDB rq t t') \<and> maint_step t t'"

lemma once_control:
  assumes "control_ok clock actor"
  shows "changes_once R (control_step sha url_origin clock uuid bytes actor hasDB rq)
    (handleMaintenanceControlRequest sha url_origin clock uuid bytes actor hasDB rq)"
proof -
  let ?S = "control_step sha url_origin clock uuid bytes actor hasDB rq"
  let ?id = "JStr (createMaintenanceOperationId uuid)" and ?secret = "JStr (createMaintenanceControllerSecret bytes)"
  have asked: "request_ok clock (Prepare actor (JInt clock) JUndef ?id ?secret)"
    using assms by (auto simp: control_ok_def request_ok_def split: sum.splits prod.splits dest: normalizedNow_clock)
  have prepare: "changes_once R ?S (prepareMaintenance sha clock actor (JInt clock) JUndef ?id ?secret)"
    if "mutation_allowed url_origin hasDB rq" "rq_path rq = MAINTENANCE_PREPARE_PATH"
    by (rule once_mono [OF once_prepare [OF asked]]) (use that in \<open>auto simp: kept_or_changed_def control_step_def control_change_def\<close>)
  have transition: "changes_once R ?S (run_request sha clock (Transition (path_action (rq_path rq)) input))"
    if "mutation_allowed url_origin hasDB rq" "rq_path rq \<noteq> MAINTENANCE_PREPARE_PATH" "parseBody rq = Inr body"
      "parseTransitionBody body (rq_path rq = MAINTENANCE_EXIT_PATH) clock = Inr input" for body input
    by (rule once_mono [OF once_transition]) (use that in \<open>auto simp: kept_or_changed_def control_step_def control_change_def\<close>)
  show ?thesis
  proof (cases "hasDB \<and> rq_path rq \<noteq> MAINTENANCE_STATUS_PATH \<and> rq_path rq \<in> set MAINTENANCE_CONTROL_PATHS
      \<and> rq_method rq = ''POST'' \<and> sameOriginAdminMutation url_origin rq")
    case False
    then have "follows R (handleMaintenanceControlRequest sha url_origin clock uuid bytes actor hasDB rq)"
      unfolding handleMaintenanceControlRequest_def Let_def by (auto intro!: follows_intros)
    then show ?thesis by (rule once_follows)
  next
    case True
    then have skip: "(if \<not> hasDB then a else if rq_path rq = MAINTENANCE_STATUS_PATH then b else if rq_path rq \<notin> set MAINTENANCE_CONTROL_PATHS then c
        else if rq_method rq \<noteq> ''POST'' then d else if \<not> sameOriginAdminMutation url_origin rq then e else m) = m"
      for a b c d e and m :: "(http_response \<times> audit_event list) maint_eff" by simp
    show ?thesis
      unfolding handleMaintenanceControlRequest_def Let_def skip
    proof (rule once_catch [OF once_after [OF follows_liftM] follows_returnM], goal_cases)
      case (1 body w w')
      then have body: "parseBody rq = Inr body" by (simp add: liftM_run)
      with True have allowed: "mutation_allowed url_origin hasDB rq" by (simp add: mutation_allowed_def)
      show ?case
      proof (cases "rq_path rq = MAINTENANCE_PREPARE_PATH")
        case path: True
        show ?thesis
          unfolding if_P [OF path]
          by (rule once_after [OF follows_requireM], rule once_then [OF prepare [OF allowed path]])
            (simp add: follows_returnM split: sum.splits prod.splits)
      next
        case path: False
        show ?thesis
          unfolding if_not_P [OF path]
        proof (rule once_after [OF follows_liftM], goal_cases)
          case (1 input w w')
          then have "parseTransitionBody body (rq_path rq = MAINTENANCE_EXIT_PATH) clock = Inr input" by (simp add: liftM_run)
          then show ?case by (intro once_catch once_then [OF transition [OF allowed path body]] follows_returnM)
        qed
      qed
    qed
  qed
qed

text \<open>C24: Whatever a control request carries, and whatever fails or is done by others that keep to the protocol, the stored
  row stays well formed, and the request itself makes at most one atomic change: none unless it is a POST
  from the portal's own origin to a transition path with a body that parses, and otherwise the one its path names - a preparation
  claims an idle portal for the new operation and its new secret, a transition moves the operation that its body names and
  whose secret and confirmation it holds one step on, or, when it enters one that is active already, at most ends the sessions
  once more. The clock must leave an hour below the largest safe integer, and the groups of
  the actor, printed, must fit the 65536 characters the reader accepts.\<close>

theorem control_safe:
  assumes "control_ok clock actor" "\<And>t t'. R t t' \<Longrightarrow> maint_step t t'" "env_follows R w" "maint_inv (db_tables w)"
    and "handleMaintenanceControlRequest sha url_origin clock uuid bytes actor hasDB rq w = (r, w')"
  shows "maint_inv (db_tables w')
    \<and> (\<exists>t t'. R\<^sup>*\<^sup>* (db_tables w) t \<and> (t' = t \<or> control_change sha url_origin clock uuid bytes actor hasDB rq t t') \<and> R\<^sup>*\<^sup>* t' (db_tables w'))"
  using once_outcome [OF once_control [OF assms(1)] _ assms(2-5)] unfolding control_step_def by blast

section \<open>Secrets\<close>

text \<open>The controller secret made from 32 random bytes is always one the operations accept, and
  two different draws never give the same secret.\<close>

lemma controller_secret_valid:
  assumes "length bytes = 32" "bytes_ok bytes" "length bytes' = 32" "bytes_ok bytes'"
  shows "controllerSecretPattern (createMaintenanceControllerSecret bytes)
    \<and> (createMaintenanceControllerSecret bytes = createMaintenanceControllerSecret bytes' \<longleftrightarrow> bytes = bytes')"
proof -
  have "controllerSecretPattern (base64Url bytes)"
    using base64Url_32(1,2) [OF assms(1,2)]
    unfolding controllerSecretPattern_def url_safe_def list_all_iff by blast
  with base64Url_32_inj [OF assms] show ?thesis
    unfolding createMaintenanceControllerSecret_def by blast
qed

lemma controller_secret_valid_witness:
  "controllerSecretPattern (createMaintenanceControllerSecret (replicate 32 7))"
  using controller_secret_valid [of "replicate 32 7" "replicate 32 7"] by (simp add: bytes_ok_def list_all_iff)

definition digest_length_ok :: "(string \<Rightarrow> i32 list) \<Rightarrow> bool" where
  "digest_length_ok digest \<longleftrightarrow> (\<forall>s. length (digest s) = 32)"

lemma digests_differ_zero:
  "length a = 32 \<Longrightarrow> length b = 32 \<Longrightarrow> digests_differ a b = 0 \<longleftrightarrow> a = b"
proof -
  assume l: "length a = 32" "length b = 32"
  then have "map (\<lambda>k. if k < length a then a ! k else 0) [0..<length b] = a"
    by (intro nth_equalityI) auto
  with l show ?thesis by (auto simp: digests_differ_def collect_diff_zero)
qed

text \<open>The admin token check accepts exactly a non-empty token whose digest equals that of the
  configured, non-empty one; a missing token or setting is never accepted.\<close>

lemma secretsMatch_iff:
  assumes "digest_length_ok digest"
  shows "secretsMatch digest provided expected \<longleftrightarrow>
    (\<exists>p e. provided = Some p \<and> expected = Some e \<and> p \<noteq> [] \<and> e \<noteq> [] \<and> digest p = digest e)"
  using assms digests_differ_zero
  by (cases provided; cases expected) (auto simp: secretsMatch_def digest_length_ok_def)

lemma secretsMatch_iff_witness:
  "\<not> secretsMatch (\<lambda>s. replicate 32 (of_nat (length s))) (Some ''ab'') (Some ''abc'')"
  by (subst secretsMatch_iff) (simp_all add: digest_length_ok_def)

lemma control_safe_witness:
  "maint_inv (db_tables (snd (handleMaintenanceControlRequest sample_sha (\<lambda>u. Some u) 2000 [] [] sample_actor True
     \<lparr>rq_path = MAINTENANCE_CANCEL_PATH, rq_method = ''POST'', rq_url = ''https://portal'', rq_origin = Some ''https://portal'',
      rq_contentLength = None, rq_body = []\<rparr> (sample_world ReplyLost))))"
proof -
  let ?m = "handleMaintenanceControlRequest sample_sha (\<lambda>u. Some u) 2000 [] [] sample_actor True
     \<lparr>rq_path = MAINTENANCE_CANCEL_PATH, rq_method = ''POST'', rq_url = ''https://portal'', rq_origin = Some ''https://portal'',
      rq_contentLength = None, rq_body = []\<rparr> (sample_world ReplyLost)"
  obtain r w' where e: "?m = (r, w')" by (cases ?m)
  have "length (groups_json [''a'', ''b'']) \<le> 65536"
    by (simp add: groups_json_def json_quote_def esc_char_def)
  then have "control_ok 2000 sample_actor"
    by (simp add: control_ok_def sample_actor_context max_safe_def)
  moreover have "maint_inv (db_tables (sample_world ReplyLost))" by (simp add: sample_world_def)
  ultimately show ?thesis using control_safe [OF _ _ sample_world_env _ e] by (simp add: e)
qed

end
