(* ===== verification/IsoTime.thy ===== *)
theory IsoTime
  imports JsValue
begin

text \<open>
  \<open>new Date(ms).toISOString()\<close> and the reading of such a text by \<open>Date.parse\<close>, for the times
  from 1970 to the year 9999 (the receipts hold nothing else; earlier dates and the extended
  six-digit years are outside the model). A date is counted year by year and month by month.
  \<open>iso_parse_to_iso\<close> is the round trip the receipts rely on: a text that \<open>toISOString\<close>
  produced denotes exactly one instant.
\<close>

section \<open>Fixed-width numbers\<close>

definition pad :: "nat \<Rightarrow> nat \<Rightarrow> string" where
  "pad k n = replicate (k - length (nat_to_str n)) (CHR ''0'') @ nat_to_str n"

lemma length_pad [simp]: "n < 10 ^ k \<Longrightarrow> 0 < k \<Longrightarrow> length (pad k n) = k"
  using length_nat_to_str [of n k] by (simp add: pad_def)

lemma digits_val_zeros: "digits_val (replicate j (CHR ''0'') @ s) = digits_val s"
proof (induction j)
  case (Suc j)
  have "digits_val (CHR ''0'' # t) = digits_val t" for t
    by (simp add: digits_val_def digit_val_def)
  with Suc show ?case by simp
qed simp

lemma digits_val_pad [simp]: "digits_val (pad k n) = n"
  by (simp add: pad_def digits_val_zeros)

lemma pad_digits [simp]: "list_all is_digit (pad k n)"
  using nat_to_str_digits [of n] by (auto simp: pad_def list_all_iff is_digit_def)

section \<open>The calendar\<close>

definition leap :: "nat \<Rightarrow> bool" where
  "leap y = (y mod 4 = 0 \<and> (y mod 100 \<noteq> 0 \<or> y mod 400 = 0))"

definition year_length :: "nat \<Rightarrow> nat" where
  "year_length y = (if leap y then 366 else 365)"

definition month_lengths :: "nat \<Rightarrow> nat list" where
  "month_lengths y = [31, if leap y then 29 else 28, 31, 30, 31, 30, 31, 31, 30, 31, 30, 31]"

function year_day :: "nat \<Rightarrow> nat \<Rightarrow> nat \<times> nat" where
  "year_day y d = (if d < year_length y then (y, d) else year_day (Suc y) (d - year_length y))"
  by auto
termination by (relation "measure snd") (auto simp: year_length_def split: if_splits)

declare year_day.simps [simp del]

definition days_before_year :: "nat \<Rightarrow> nat" where
  "days_before_year y = sum_list (map year_length [1970..<y])"

lemma year_day_sum:
  "year_day y d = (y', r) \<Longrightarrow> y \<le> y' \<and> r < year_length y' \<and> sum_list (map year_length [y..<y']) + r = d"
proof (induction y d rule: year_day.induct)
  case (1 y d)
  show ?case
  proof (cases "d < year_length y")
    case True
    with 1(2) show ?thesis by (subst (asm) year_day.simps) simp
  next
    case False
    with 1(2) have e: "year_day (Suc y) (d - year_length y) = (y', r)"
      by (subst (asm) year_day.simps) simp
    from 1(1) [OF False e] have i: "Suc y \<le> y'" "r < year_length y'"
        "sum_list (map year_length [Suc y..<y']) + r = d - year_length y" by auto
    from i(1) have "[y..<y'] = y # [Suc y..<y']" by (simp add: upt_conv_Cons)
    with i False show ?thesis by simp
  qed
qed

lemma year_day_unique:
  "r < year_length y' \<Longrightarrow> y \<le> y' \<Longrightarrow> year_day y (sum_list (map year_length [y..<y']) + r) = (y', r)"
proof (induction "y' - y" arbitrary: y)
  case 0
  then show ?case by (subst year_day.simps) simp
next
  case (Suc k)
  then have l: "[y..<y'] = y # [Suc y..<y']" by (simp add: upt_conv_Cons)
  from Suc have "year_day (Suc y) (sum_list (map year_length [Suc y..<y']) + r) = (y', r)" by simp
  with l show ?case by (subst year_day.simps) simp
qed

fun month_day :: "nat \<Rightarrow> nat list \<Rightarrow> nat \<Rightarrow> nat \<times> nat" where
  "month_day m [] d = (m, d)"
| "month_day m (l # ls) d = (if d < l then (m, d) else month_day (Suc m) ls (d - l))"

lemma month_day_sum:
  "month_day m ls d = (m', r) \<Longrightarrow> d < sum_list ls \<Longrightarrow>
     m \<le> m' \<and> m' - m < length ls \<and> r < ls ! (m' - m) \<and> sum_list (take (m' - m) ls) + r = d"
proof (induction m ls d rule: month_day.induct)
  case (2 m l ls d)
  show ?case
  proof (cases "d < l")
    case True
    with 2 show ?thesis by simp
  next
    case False
    with 2 have i: "Suc m \<le> m'" "m' - Suc m < length ls" "r < ls ! (m' - Suc m)"
        "sum_list (take (m' - Suc m) ls) + r = d - l" by auto
    from i(1) have "m' - m = Suc (m' - Suc m)" by simp
    with i False show ?thesis by simp
  qed
qed simp

lemma year_length_months: "year_length y = sum_list (month_lengths y)"
  by (simp add: year_length_def month_lengths_def)

section \<open>Text\<close>

definition max_iso :: int where
  "max_iso = 253202543999999"

definition to_iso :: "int \<Rightarrow> string" where
  "to_iso ms =
     (let n = nat ms; t = n mod 86400000; (y, yd) = year_day 1970 (n div 86400000);
          (m, d) = month_day 1 (month_lengths y) yd
      in pad 4 y @ ''-'' @ pad 2 m @ ''-'' @ pad 2 (Suc d) @ ''T'' @ pad 2 (t div 3600000) @ '':'' @
         pad 2 (t div 60000 mod 60) @ '':'' @ pad 2 (t div 1000 mod 60) @ ''.'' @ pad 3 (t mod 1000) @ ''Z'')"

definition iso_shape :: "(char \<Rightarrow> bool) list" where
  "iso_shape =
     replicate 4 is_digit @ [\<lambda>c. c = CHR ''-''] @ replicate 2 is_digit @ [\<lambda>c. c = CHR ''-''] @
     replicate 2 is_digit @ [\<lambda>c. c = CHR ''T''] @ replicate 2 is_digit @ [\<lambda>c. c = CHR '':''] @
     replicate 2 is_digit @ [\<lambda>c. c = CHR '':''] @ replicate 2 is_digit @ [\<lambda>c. c = CHR ''.''] @
     replicate 3 is_digit @ [\<lambda>c. c = CHR ''Z'']"

definition field :: "nat \<Rightarrow> nat \<Rightarrow> string \<Rightarrow> nat" where
  "field i k s = digits_val (take k (drop i s))"

definition iso_parse :: "string \<Rightarrow> int option" where
  "iso_parse s =
     (if \<not> matches iso_shape s then None
      else (let y = field 0 4 s; m = field 5 2 s; d = field 8 2 s; hh = field 11 2 s; mi = field 14 2 s;
                ss = field 17 2 s; ms = field 20 3 s in
        if 1970 \<le> y \<and> 1 \<le> m \<and> m \<le> 12 \<and> 1 \<le> d \<and> d \<le> month_lengths y ! (m - 1)
           \<and> hh < 24 \<and> mi < 60 \<and> ss < 60
        then Some (int ((days_before_year y + sum_list (take (m - 1) (month_lengths y)) + (d - 1)) * 86400000
               + hh * 3600000 + mi * 60000 + ss * 1000 + ms))
        else None))"

section \<open>Round trip\<close>

lemma digits_shape:
  "length s = k \<Longrightarrow> list_all is_digit s \<Longrightarrow> list_all2 (\<lambda>p c. p c) (replicate k is_digit) s"
  by (auto simp: list_all2_conv_all_nth list_all_length)

text \<open>The text as a concatenation of fields of known widths, and its fields.\<close>

definition iso_text :: "string \<Rightarrow> string \<Rightarrow> string \<Rightarrow> string \<Rightarrow> string \<Rightarrow> string \<Rightarrow> string \<Rightarrow> string" where
  "iso_text y m d hh mi ss ms =
     y @ ''-'' @ m @ ''-'' @ d @ ''T'' @ hh @ '':'' @ mi @ '':'' @ ss @ ''.'' @ ms @ ''Z''"

lemma iso_text_fields:
  assumes "length y = 4" "length m = 2" "length d = 2" "length hh = 2" "length mi = 2" "length ss = 2" "length ms = 3"
  shows "field 0 4 (iso_text y m d hh mi ss ms) = digits_val y" "field 5 2 (iso_text y m d hh mi ss ms) = digits_val m"
    "field 8 2 (iso_text y m d hh mi ss ms) = digits_val d" "field 11 2 (iso_text y m d hh mi ss ms) = digits_val hh"
    "field 14 2 (iso_text y m d hh mi ss ms) = digits_val mi" "field 17 2 (iso_text y m d hh mi ss ms) = digits_val ss"
    "field 20 3 (iso_text y m d hh mi ss ms) = digits_val ms"
  using assms by (simp_all add: field_def iso_text_def)

lemma iso_text_shape:
  assumes "length y = 4" "length m = 2" "length d = 2" "length hh = 2" "length mi = 2" "length ss = 2" "length ms = 3"
    and "list_all is_digit y" "list_all is_digit m" "list_all is_digit d" "list_all is_digit hh"
      "list_all is_digit mi" "list_all is_digit ss" "list_all is_digit ms"
  shows "matches iso_shape (iso_text y m d hh mi ss ms)"
  unfolding matches_def iso_shape_def iso_text_def
  by (intro list_all2_appendI digits_shape assms) simp_all

lemma sum_year_length_ge: "365 * (y' - y) \<le> sum_list (map year_length [y..<y'])"
proof (induction y')
  case (Suc k)
  have "365 \<le> year_length k" by (simp add: year_length_def)
  with Suc show ?case by (cases "y \<le> k") auto
qed simp

lemma take_months_le: "k \<le> 12 \<Longrightarrow> length (month_lengths y) = 12"
  by (simp add: month_lengths_def)

lemma month_lengths_le: "k < 12 \<Longrightarrow> month_lengths y ! k \<le> 31"
proof -
  have "list_all (\<lambda>l. l \<le> 31) (month_lengths y)" by (simp add: month_lengths_def)
  moreover assume "k < 12"
  ultimately show ?thesis by (simp add: list_all_length month_lengths_def)
qed

theorem iso_parse_to_iso:
  assumes "0 \<le> ms" "ms \<le> max_iso"
  shows "iso_parse (to_iso ms) = Some ms"
proof -
  define n where "n = nat ms"
  have n: "int n = ms" using assms(1) by (simp add: n_def)
  define t where "t = n mod 86400000"
  obtain y yd where y: "year_day 1970 (n div 86400000) = (y, yd)" by (cases "year_day 1970 (n div 86400000)")
  obtain m d where m: "month_day 1 (month_lengths y) yd = (m, d)" by (cases "month_day 1 (month_lengths y) yd")
  from year_day_sum [OF y] have ys: "1970 \<le> y" "yd < year_length y" "days_before_year y + yd = n div 86400000"
    by (simp_all add: days_before_year_def)
  from month_day_sum [OF m] ys(2) have ms: "1 \<le> m" "m - 1 < 12" "d < month_lengths y ! (m - 1)"
      "sum_list (take (m - 1) (month_lengths y)) + d = yd"
    by (simp_all add: year_length_months month_lengths_def [THEN arg_cong [of _ _ length]])
  have "n div 86400000 \<le> 2930584"
  proof -
    have "int n \<le> 253202543999999" using assms(2) n by (simp add: max_iso_def)
    then have "n < 2930585 * 86400000" by simp
    then have "n div 86400000 < 2930585" by (rule less_mult_imp_div_less)
    then show ?thesis by simp
  qed
  with ys(3) sum_year_length_ge [of y 1970] have "365 * (y - 1970) \<le> 2930584"
    by (simp add: days_before_year_def)
  then have y4: "y < 10 ^ 4" by simp
  have d31: "d < 31" using ms(2,3) month_lengths_le [of "m - 1" y] by linarith
  have lens: "length (pad 4 y) = 4" "length (pad 2 m) = 2" "length (pad 2 (Suc d)) = 2"
      "length (pad 2 (t div 3600000)) = 2" "length (pad 2 (t div 60000 mod 60)) = 2"
      "length (pad 2 (t div 1000 mod 60)) = 2" "length (pad 3 (t mod 1000)) = 3"
  proof -
    have "t < 86400000" by (simp add: t_def)
    then have "t div 3600000 < 10 ^ 2" by (simp add: less_mult_imp_div_less)
    moreover have "t div 60000 mod 60 < 10 ^ 2" "t div 1000 mod 60 < 10 ^ 2" "t mod 1000 < 10 ^ 3"
      by (simp_all add: less_le_trans [OF pos_mod_bound] order_less_le_trans [of _ 60])
    moreover have "m < 10 ^ 2" "Suc d < 10 ^ 2" using ms(1,2) d31 by simp_all
    ultimately show "length (pad 4 y) = 4" "length (pad 2 m) = 2" "length (pad 2 (Suc d)) = 2"
      "length (pad 2 (t div 3600000)) = 2" "length (pad 2 (t div 60000 mod 60)) = 2"
      "length (pad 2 (t div 1000 mod 60)) = 2" "length (pad 3 (t mod 1000)) = 3"
      using y4 by (simp_all only: length_pad zero_less_numeral)
  qed
  have iso: "to_iso ms = iso_text (pad 4 y) (pad 2 m) (pad 2 (Suc d)) (pad 2 (t div 3600000))
     (pad 2 (t div 60000 mod 60)) (pad 2 (t div 1000 mod 60)) (pad 3 (t mod 1000))"
    using y m by (simp add: to_iso_def iso_text_def Let_def n_def [symmetric] t_def [symmetric])
  have shape: "matches iso_shape (to_iso ms)"
    unfolding iso by (intro iso_text_shape lens pad_digits)
  have hours: "t div 3600000 < 24"
    by (rule less_mult_imp_div_less) (simp add: t_def)
  have tsum: "t div 3600000 * 3600000 + (t div 60000 mod 60) * 60000 + (t div 1000 mod 60) * 1000 + t mod 1000 = t"
  proof -
    have 1: "t = t div 1000 * 1000 + t mod 1000" by simp
    have 2: "t div 1000 = t div 60000 * 60 + t div 1000 mod 60"
      using div_mult_mod_eq [of "t div 1000" 60] by (simp add: div_mult2_eq [symmetric])
    have 3: "t div 60000 = t div 3600000 * 60 + t div 60000 mod 60"
      using div_mult_mod_eq [of "t div 60000" 60] by (simp add: div_mult2_eq [symmetric])
    from 1 2 3 show ?thesis by linarith
  qed
  have day: "(days_before_year y + sum_list (take (m - 1) (month_lengths y)) + (Suc d - 1)) * 86400000 + t = n"
  proof -
    have "days_before_year y + sum_list (take (m - 1) (month_lengths y)) + d = n div 86400000"
      using ys(3) ms(4) by simp
    then show ?thesis by (simp add: t_def)
  qed
  have bounds: "1970 \<le> y" "1 \<le> m" "m \<le> 12" "Suc d \<le> month_lengths y ! (m - 1)"
    using ys(1) ms(1,2,3) by simp_all
  have tot: "(days_before_year y + sum_list (take (m - 1) (month_lengths y)) + (Suc d - 1)) * 86400000
      + t div 3600000 * 3600000 + (t div 60000 mod 60) * 60000 + (t div 1000 mod 60) * 1000 + t mod 1000 = n"
    using day tsum by linarith
  have "iso_parse (to_iso ms) = Some (int n)"
    unfolding iso_parse_def Let_def using shape unfolding iso iso_text_fields [OF lens] digits_val_pad
    using bounds hours tot by (simp only: if_True if_False simp_thms HOL.simp_thms) simp
  with n show ?thesis by simp
qed

end
