(* ===== verification/RecoveryReceipt.thy ===== *)
theory RecoveryReceipt
  imports IsoTime Json JsSort
begin

text \<open>
  The receipt of an offline recovery: \<open>src/recovery/foundation/recovery-receipt.ts\<close> and the
  error type of \<open>recovery-errors.ts\<close>. A receipt is the durable record of how far a recovery
  has come; its phases form a state machine and its file is canonical JSON.

  \<open>validateRecoveryReceipt\<close> is modelled in two parts, the decoding of the unknown value into
  typed fields (\<open>decode_receipt\<close>) and the conditions on the fields (\<open>receipt_valid\<close>); every
  failure is the same error in the source, so the order of the checks is not observable.
  \<open>receipt_js\<close> is the object the code works on. The names of the checks are kept in the order
  in which \<open>localeCompare\<close> sorts them (\<open>check_order\<close>).
\<close>

section \<open>Phases and fields\<close>

datatype recovery_error = RecoveryError string int | IoError | Crashed

datatype phase = PointReady | CandidateReady | SwapStarted | Swapped | Verified
  | RollbackStarted | RolledBack | RecoveryFailed | PostCompleteFailed

definition RECOVERY_RECEIPT_PHASES :: "phase list" where
  "RECOVERY_RECEIPT_PHASES = [PointReady, CandidateReady, SwapStarted, Swapped, Verified,
     RollbackStarted, RolledBack, RecoveryFailed, PostCompleteFailed]"

fun phase_name :: "phase \<Rightarrow> string" where
  "phase_name PointReady = ''recovery_point_ready''"
| "phase_name CandidateReady = ''candidate_ready''"
| "phase_name SwapStarted = ''swap_started''"
| "phase_name Swapped = ''swapped''"
| "phase_name Verified = ''verified''"
| "phase_name RollbackStarted = ''rollback_started''"
| "phase_name RolledBack = ''rolled_back''"
| "phase_name RecoveryFailed = ''failed''"
| "phase_name PostCompleteFailed = ''post_complete_failed''"

definition parse_phase :: "string \<Rightarrow> phase option" where
  "parse_phase s = find (\<lambda>p. phase_name p = s) RECOVERY_RECEIPT_PHASES"

lemma parse_phase_name [simp]: "parse_phase (phase_name p) = Some p"
  by (cases p) (simp_all add: parse_phase_def RECOVERY_RECEIPT_PHASES_def)

fun phaseTransitions :: "phase \<Rightarrow> phase list" where
  "phaseTransitions PointReady = [CandidateReady, RecoveryFailed]"
| "phaseTransitions CandidateReady = [SwapStarted, RecoveryFailed]"
| "phaseTransitions SwapStarted = [Swapped, RecoveryFailed, RollbackStarted]"
| "phaseTransitions Swapped = [Verified, RecoveryFailed, PostCompleteFailed, RollbackStarted]"
| "phaseTransitions Verified = []"
| "phaseTransitions RollbackStarted = [RolledBack, RecoveryFailed]"
| "phaseTransitions RolledBack = []"
| "phaseTransitions RecoveryFailed = [RollbackStarted]"
| "phaseTransitions PostCompleteFailed = [RollbackStarted]"

definition candidateRequiredPhases :: "phase list" where
  "candidateRequiredPhases = [CandidateReady, SwapStarted, Swapped, Verified, RollbackStarted, RolledBack,
     PostCompleteFailed]"

record binding =
  b_candidate :: string
  b_sha :: string
  b_bytes :: int
  b_rollback :: string

record receipt =
  r_operationId :: string
  r_createdAt :: string
  r_updatedAt :: string
  r_phase :: phase
  r_live :: string
  r_liveSha :: string
  r_liveBytes :: int
  r_schemaVersion :: int
  r_maintenanceOperationId :: string
  r_manifestSha :: string
  r_point :: string
  r_pointSha :: string
  r_pointBytes :: int
  r_binding :: "binding option"
  r_confirmation :: string
  r_checks :: "string list"

definition receiptKeys :: "string list" where
  "receiptKeys = [''format'', ''version'', ''operationId'', ''createdAt'', ''updatedAt'', ''phase'',
     ''liveDatabaseRelativePath'', ''liveDatabaseSha256'', ''liveDatabaseBytes'', ''schemaVersion'',
     ''maintenanceOperationId'', ''backupManifestSha256'', ''recoveryPointRelativePath'',
     ''recoveryPointSha256'', ''recoveryPointBytes'', ''candidateRelativePath'', ''candidateSha256'',
     ''candidateBytes'', ''rollbackRelativePath'', ''confirmation'', ''checks'']"

definition check_order :: "string list" where
  "check_order = [''candidateAdministrator'', ''candidateAudit'', ''candidateEncryption'',
     ''candidateIntegrity'', ''candidateSchema'', ''checkpoint'', ''encryptedRoundTrip'',
     ''onlineVerification'', ''recoveryPointIntegrity'', ''recoveryPointSchema'', ''rollback'',
     ''sourceIntegrity'', ''sourceSchema'', ''swap'']"

definition candidateChecks :: "string list" where
  "candidateChecks = [''candidateIntegrity'', ''candidateSchema'', ''candidateAdministrator'',
     ''candidateEncryption'', ''candidateAudit'']"

definition receipt_invalid :: recovery_error where
  "receipt_invalid = RecoveryError ''recovery_receipt_invalid'' 7"

definition receipt_phase_invalid :: recovery_error where
  "receipt_phase_invalid = RecoveryError ''recovery_receipt_phase_invalid'' 7"

section \<open>Checks on single fields\<close>

definition validTimestamp :: "string \<Rightarrow> int \<Rightarrow> bool" where
  "validTimestamp s now = (case iso_parse s of
      None \<Rightarrow> False
    | Some ms \<Rightarrow> ms \<le> now \<and> to_iso ms = s)"

text \<open>\<open>value.split(/[\\/]+/u)\<close>: a run of separators is one separator.\<close>

definition is_separator :: "char \<Rightarrow> bool" where
  "is_separator c = (c = CHR ''/'' \<or> c = CHR 0x5C)"

fun split_segments :: "string \<Rightarrow> string list" where
  "split_segments [] = [[]]"
| "split_segments (c # cs) =
     (if is_separator c then (case cs of
          d # ds \<Rightarrow> if is_separator d then split_segments cs else [] # split_segments cs
        | [] \<Rightarrow> [[], []])
      else (case split_segments cs of [] \<Rightarrow> [[c]] | w # ws \<Rightarrow> (c # w) # ws))"

definition validRelativePath :: "string \<Rightarrow> bool" where
  "validRelativePath s =
     (if s = [] \<or> 4096 < length s \<or> CHR 0x00 \<in> set s \<or> hd s = CHR ''/'' then False
      else list_all (\<lambda>w. w \<noteq> [] \<and> w \<noteq> ''.'' \<and> w \<noteq> ''..'') (split_segments s))"

definition confirmation_for :: "string \<Rightarrow> string" where
  "confirmation_for i = ''RESTORE PORTAL DATABASE '' @ i"

section \<open>Decoding\<close>

definition get_str :: "js \<Rightarrow> string \<Rightarrow> string option" where
  "get_str v k = (case jget v k of JStr s \<Rightarrow> Some s | _ \<Rightarrow> None)"

text \<open>\<open>Number.isSafeInteger\<close>: a number value that is a safe integer.\<close>

definition get_int :: "js \<Rightarrow> string \<Rightarrow> int option" where
  "get_int v k = (case jget v k of
      JNum (Num n) \<Rightarrow> if safe_integer (Num n) then Some n else None
    | _ \<Rightarrow> None)"

text \<open>\<open>candidateBindingState\<close>: absent, present with its fields, or invalid.\<close>

datatype binding_state = BAbsent | BPresent binding | BInvalid

definition candidateBindingState :: "js \<Rightarrow> binding_state" where
  "candidateBindingState v =
     (if jget v ''candidateRelativePath'' = JNull \<and> jget v ''candidateSha256'' = JNull
        \<and> jget v ''candidateBytes'' = JNull \<and> jget v ''rollbackRelativePath'' = JNull then BAbsent
      else (case (get_str v ''candidateRelativePath'', get_str v ''candidateSha256'', get_int v ''candidateBytes'',
                  get_str v ''rollbackRelativePath'') of
          (Some c, Some h, Some n, Some r) \<Rightarrow>
            if validRelativePath c \<and> hash_pattern h \<and> 0 < n \<and> validRelativePath r
               \<and> Some c \<noteq> get_str v ''liveDatabaseRelativePath'' \<and> Some r \<noteq> get_str v ''liveDatabaseRelativePath''
               \<and> r \<noteq> c
            then BPresent \<lparr>b_candidate = c, b_sha = h, b_bytes = n, b_rollback = r\<rparr> else BInvalid
        | _ \<Rightarrow> BInvalid))"

definition validateChecks :: "js \<Rightarrow> string list option" where
  "validateChecks v = (case v of
      JObj ps \<Rightarrow>
        if 1 \<le> length ps \<and> length ps \<le> length check_order
           \<and> list_all (\<lambda>(k, x). k \<in> set check_order \<and> x = JStr ''ok'') ps
        then Some (filter (\<lambda>k. k \<in> set (map fst ps)) check_order) else None
    | _ \<Rightarrow> None)"

text \<open>An invalid binding fails; an absent one is no binding.\<close>

definition binding_option :: "binding_state \<Rightarrow> binding option option" where
  "binding_option s = (case s of BAbsent \<Rightarrow> Some None | BPresent b \<Rightarrow> Some (Some b) | BInvalid \<Rightarrow> None)"

definition decode_receipt :: "js \<Rightarrow> receipt option" where
  "decode_receipt v =
     (if \<not> plain_object v \<or> sort_strings (jkeys v) \<noteq> sort_strings receiptKeys
        \<or> jget v ''format'' \<noteq> JStr ''portal-offline-recovery-receipt'' \<or> jget v ''version'' \<noteq> JInt 1 then None
      else
      Option.bind (get_str v ''operationId'') (\<lambda>i.
      Option.bind (get_str v ''createdAt'') (\<lambda>ca.
      Option.bind (get_str v ''updatedAt'') (\<lambda>ua.
      Option.bind (get_str v ''phase'') (\<lambda>pn.
      Option.bind (parse_phase pn) (\<lambda>p.
      Option.bind (get_str v ''liveDatabaseRelativePath'') (\<lambda>l.
      Option.bind (get_str v ''liveDatabaseSha256'') (\<lambda>lh.
      Option.bind (get_int v ''liveDatabaseBytes'') (\<lambda>lb.
      Option.bind (get_int v ''schemaVersion'') (\<lambda>sv.
      Option.bind (get_str v ''maintenanceOperationId'') (\<lambda>mo.
      Option.bind (get_str v ''backupManifestSha256'') (\<lambda>bm.
      Option.bind (get_str v ''recoveryPointRelativePath'') (\<lambda>rp.
      Option.bind (get_str v ''recoveryPointSha256'') (\<lambda>rh.
      Option.bind (get_int v ''recoveryPointBytes'') (\<lambda>rb.
      Option.bind (get_str v ''confirmation'') (\<lambda>cf.
      Option.bind (validateChecks (jget v ''checks'')) (\<lambda>cs.
      Option.bind (binding_option (candidateBindingState v)) (\<lambda>b.
      Some \<lparr>r_operationId = i, r_createdAt = ca, r_updatedAt = ua, r_phase = p, r_live = l, r_liveSha = lh,
        r_liveBytes = lb, r_schemaVersion = sv, r_maintenanceOperationId = mo, r_manifestSha = bm,
        r_point = rp, r_pointSha = rh, r_pointBytes = rb, r_binding = b, r_confirmation = cf,
        r_checks = cs\<rparr>))))))))))))))))))"

definition receipt_valid :: "int \<Rightarrow> receipt \<Rightarrow> bool" where
  "receipt_valid now r =
     (safe_integer (Num now) \<and> 0 \<le> now
      \<and> prefixed_uuid ''recovery_'' (r_operationId r)
      \<and> validTimestamp (r_createdAt r) now \<and> validTimestamp (r_updatedAt r) now
      \<and> (case (iso_parse (r_createdAt r), iso_parse (r_updatedAt r)) of (Some c, Some u) \<Rightarrow> c \<le> u | _ \<Rightarrow> False)
      \<and> validRelativePath (r_live r) \<and> hash_pattern (r_liveSha r) \<and> 1 \<le> r_liveBytes r
      \<and> 1 \<le> r_schemaVersion r \<and> prefixed_uuid ''maintenance_'' (r_maintenanceOperationId r)
      \<and> hash_pattern (r_manifestSha r) \<and> validRelativePath (r_point r) \<and> hash_pattern (r_pointSha r)
      \<and> 1 \<le> r_pointBytes r \<and> r_confirmation r = confirmation_for (r_operationId r)
      \<and> (r_phase r \<in> set candidateRequiredPhases \<longrightarrow> r_binding r \<noteq> None)
      \<and> (r_binding r \<noteq> None \<longrightarrow> list_all (\<lambda>k. k \<in> set (r_checks r)) candidateChecks))"

definition validateRecoveryReceipt :: "int \<Rightarrow> js \<Rightarrow> recovery_error + receipt" where
  "validateRecoveryReceipt now v = (case decode_receipt v of
      Some r \<Rightarrow> if receipt_valid now r then Inr r else Inl receipt_invalid
    | None \<Rightarrow> Inl receipt_invalid)"

section \<open>Receipts as objects\<close>

definition checks_js :: "string list \<Rightarrow> js" where
  "checks_js cs = JObj (map (\<lambda>k. (k, JStr ''ok'')) cs)"

definition receipt_js :: "receipt \<Rightarrow> js" where
  "receipt_js r = JObj
     [(''format'', JStr ''portal-offline-recovery-receipt''), (''version'', JInt 1),
      (''operationId'', JStr (r_operationId r)), (''createdAt'', JStr (r_createdAt r)),
      (''updatedAt'', JStr (r_updatedAt r)), (''phase'', JStr (phase_name (r_phase r))),
      (''liveDatabaseRelativePath'', JStr (r_live r)), (''liveDatabaseSha256'', JStr (r_liveSha r)),
      (''liveDatabaseBytes'', JInt (r_liveBytes r)), (''schemaVersion'', JInt (r_schemaVersion r)),
      (''maintenanceOperationId'', JStr (r_maintenanceOperationId r)),
      (''backupManifestSha256'', JStr (r_manifestSha r)),
      (''recoveryPointRelativePath'', JStr (r_point r)), (''recoveryPointSha256'', JStr (r_pointSha r)),
      (''recoveryPointBytes'', JInt (r_pointBytes r)),
      (''candidateRelativePath'', case r_binding r of Some b \<Rightarrow> JStr (b_candidate b) | None \<Rightarrow> JNull),
      (''candidateSha256'', case r_binding r of Some b \<Rightarrow> JStr (b_sha b) | None \<Rightarrow> JNull),
      (''candidateBytes'', case r_binding r of Some b \<Rightarrow> JInt (b_bytes b) | None \<Rightarrow> JNull),
      (''rollbackRelativePath'', case r_binding r of Some b \<Rightarrow> JStr (b_rollback b) | None \<Rightarrow> JNull),
      (''confirmation'', JStr (r_confirmation r)), (''checks'', checks_js (r_checks r))]"

section \<open>Operations\<close>

text \<open>
  \<open>createRecoveryReceipt\<close>: the fields of the input are those of a receipt without binding; its
  phase and update time are overwritten. The time of validation is the creation time.
\<close>

definition createRecoveryReceipt :: "receipt \<Rightarrow> recovery_error + receipt" where
  "createRecoveryReceipt input =
     (case iso_parse (r_createdAt input) of
        None \<Rightarrow> Inl receipt_invalid
      | Some now \<Rightarrow> validateRecoveryReceipt now
          (receipt_js (input\<lparr>r_binding := None, r_updatedAt := r_createdAt input, r_phase := PointReady\<rparr>)))"

definition transitionRecoveryReceipt :: "js \<Rightarrow> phase \<Rightarrow> string \<Rightarrow> recovery_error + receipt" where
  "transitionRecoveryReceipt v p updatedAt =
     (case iso_parse updatedAt of
        None \<Rightarrow> Inl receipt_invalid
      | Some now \<Rightarrow>
          bindE (validateRecoveryReceipt now v) (\<lambda>r.
          bindE (guardE (p \<noteq> CandidateReady \<and> p \<in> set (phaseTransitions (r_phase r))
                   \<and> validTimestamp updatedAt now
                   \<and> (case iso_parse (r_updatedAt r) of Some u \<Rightarrow> u < now | None \<Rightarrow> False))
                 receipt_phase_invalid) (\<lambda>_.
          validateRecoveryReceipt now (receipt_js (r\<lparr>r_phase := p, r_updatedAt := updatedAt\<rparr>)))))"

text \<open>\<open>{...checks, [check]: "ok"}\<close>, in the order the validation gives the result.\<close>

definition add_check :: "string \<Rightarrow> receipt \<Rightarrow> receipt" where
  "add_check c r = r\<lparr>r_checks := (if c \<in> set (r_checks r) then r_checks r else r_checks r @ [c])\<rparr>"

text \<open>The binding and its checks as the candidate builder reports them.\<close>

record candidate_binding =
  cb_binding :: binding
  cb_checks :: "(string \<times> js) list"

definition bindRecoveryCandidateReceipt ::
  "js \<Rightarrow> candidate_binding \<Rightarrow> string \<Rightarrow> recovery_error + receipt" where
  "bindRecoveryCandidateReceipt v cb updatedAt =
     (case iso_parse updatedAt of
        None \<Rightarrow> Inl receipt_invalid
      | Some now \<Rightarrow>
          bindE (validateRecoveryReceipt now v) (\<lambda>r.
          let b = cb_binding cb in
          bindE (guardE (r_phase r = PointReady
                   \<and> validRelativePath (b_candidate b) \<and> hash_pattern (b_sha b) \<and> safe_integer (Num (b_bytes b))
                   \<and> 1 \<le> b_bytes b \<and> validRelativePath (b_rollback b) \<and> validTimestamp updatedAt now
                   \<and> (case iso_parse (r_updatedAt r) of Some u \<Rightarrow> u < now | None \<Rightarrow> False))
                 receipt_phase_invalid) (\<lambda>_.
          let bound = r\<lparr>r_phase := CandidateReady, r_updatedAt := updatedAt, r_binding := Some b\<rparr>;
              checks = foldl (\<lambda>ps k. obj_set k (jget (JObj (cb_checks cb)) k) ps)
                         (map (\<lambda>k. (k, JStr ''ok'')) (r_checks r)) candidateChecks
          in validateRecoveryReceipt now (case receipt_js bound of
                JObj ps \<Rightarrow> JObj (obj_set ''checks'' (JObj checks) ps) | other \<Rightarrow> other))))"

text \<open>\<open>monotonicTimestamp\<close> of the swap: never before the receipt's last update.\<close>

definition monotonicTimestamp :: "string \<Rightarrow> string \<Rightarrow> recovery_error + string" where
  "monotonicTimestamp previous proposed = (case (iso_parse previous, iso_parse proposed) of
      (Some p, Some n) \<Rightarrow> Inr (to_iso (max n (p + 1)))
    | _ \<Rightarrow> Inl (RecoveryError ''recovery_timestamp_invalid'' 11))"

section \<open>The receipt file\<close>

function canon :: "js \<Rightarrow> js" where
  "canon (JArr xs) = JArr (map canon xs)"
| "canon (JObj ps) = JObj (js_sort (\<lambda>a b. str_cmp (fst a) (fst b)) (map (\<lambda>(k, v). (k, canon v)) ps))"
| "canon JUndef = JUndef"
| "canon JNull = JNull"
| "canon (JBool b) = JBool b"
| "canon (JNum n) = JNum n"
| "canon (JStr s) = JStr s"
  by pat_completeness auto
termination by size_change

definition canonicalJson :: "js \<Rightarrow> string" where
  "canonicalJson v = json_print (canon v)"

definition receipt_contents :: "receipt \<Rightarrow> string" where
  "receipt_contents r = canonicalJson (receipt_js r) @ [CHR 0x0A]"

text \<open>
  The contents part of \<open>loadRecoveryReceipt\<close>; the path and permission checks in front of it
  are part of the file system model.
\<close>

definition parse_receipt_contents :: "int \<Rightarrow> string \<Rightarrow> recovery_error + receipt" where
  "parse_receipt_contents now contents =
     (if contents = [] \<or> last contents \<noteq> CHR 0x0A \<or> 1048576 < length contents then Inl receipt_invalid
      else (case json_parse (butlast contents) of
          None \<Rightarrow> Inl receipt_invalid
        | Some v \<Rightarrow>
            bindE (validateRecoveryReceipt now v) (\<lambda>r.
            if receipt_contents r = contents then Inr r else Inl receipt_invalid)))"

section \<open>Validated receipts\<close>

definition binding_wf :: "string \<Rightarrow> binding \<Rightarrow> bool" where
  "binding_wf live b = (validRelativePath (b_candidate b) \<and> hash_pattern (b_sha b) \<and> 0 < b_bytes b
     \<and> safe_integer (Num (b_bytes b)) \<and> validRelativePath (b_rollback b)
     \<and> b_candidate b \<noteq> live \<and> b_rollback b \<noteq> live \<and> b_rollback b \<noteq> b_candidate b)"

definition checks_wf :: "string list \<Rightarrow> bool" where
  "checks_wf cs = (cs \<noteq> [] \<and> cs = filter (\<lambda>k. k \<in> set cs) check_order)"

definition receipt_wf :: "receipt \<Rightarrow> bool" where
  "receipt_wf r = (checks_wf (r_checks r) \<and> safe_integer (Num (r_liveBytes r))
     \<and> safe_integer (Num (r_schemaVersion r)) \<and> safe_integer (Num (r_pointBytes r))
     \<and> (case r_binding r of None \<Rightarrow> True | Some b \<Rightarrow> binding_wf (r_live r) b))"

lemma check_order_distinct: "distinct check_order"
  by (simp add: check_order_def)

lemma checks_wf_props:
  assumes "checks_wf cs"
  shows "distinct cs" "set cs \<subseteq> set check_order" "1 \<le> length cs" "length cs \<le> length check_order"
proof -
  from assms have e: "cs = filter (\<lambda>k. k \<in> set cs) check_order" by (simp add: checks_wf_def)
  show "distinct cs" by (subst e) (simp add: check_order_distinct)
  show "set cs \<subseteq> set check_order" by (subst e) auto
  show "length cs \<le> length check_order" by (subst e) (rule length_filter_le)
  have "cs \<noteq> []" using assms by (simp add: checks_wf_def)
  then show "1 \<le> length cs" by (cases cs) simp_all
qed

lemma validateChecks_js: "checks_wf cs \<Longrightarrow> validateChecks (checks_js cs) = Some cs"
  using checks_wf_props [of cs]
  by (auto simp: validateChecks_def checks_js_def list_all_iff checks_wf_def comp_def)

lemma validateChecks_wf: "validateChecks v = Some cs \<Longrightarrow> checks_wf cs"
proof -
  assume "validateChecks v = Some cs"
  then obtain ps where ps: "1 \<le> length ps" "list_all (\<lambda>(k, x). k \<in> set check_order \<and> x = JStr ''ok'') ps"
    and cs: "cs = filter (\<lambda>k. k \<in> set (map fst ps)) check_order"
    by (auto simp: validateChecks_def split: js.splits if_splits)
  from ps obtain k x qs where "ps = (k, x) # qs" "k \<in> set check_order" by (cases ps) auto
  then have "k \<in> set cs" by (simp add: cs)
  then have "cs \<noteq> []" by auto
  moreover have "filter (\<lambda>k. k \<in> set cs) check_order = cs"
    unfolding cs by (rule filter_cong) auto
  ultimately show ?thesis by (simp add: checks_wf_def)
qed

lemma jkeys_receipt_js: "jkeys (receipt_js r) = receiptKeys"
  by (simp add: jkeys_def receipt_js_def receiptKeys_def)

lemma decode_receipt_cong:
  assumes "plain_object v" "plain_object w" "sort_strings (jkeys v) = sort_strings (jkeys w)"
    and "\<And>k. k \<in> set (butlast receiptKeys) \<Longrightarrow> jget v k = jget w k"
    and "validateChecks (jget v ''checks'') = validateChecks (jget w ''checks'')"
  shows "decode_receipt v = decode_receipt w"
proof -
  have g: "list_all (\<lambda>k. jget v k = jget w k) (butlast receiptKeys)"
    using assms(4) by (simp add: list_all_iff)
  then have "get_str v k = get_str w k \<and> get_int v k = get_int w k" if "k \<in> set (butlast receiptKeys)" for k
    using that by (simp add: get_str_def get_int_def list_all_iff)
  then have s: "list_all (\<lambda>k. get_str v k = get_str w k \<and> get_int v k = get_int w k) (butlast receiptKeys)"
    by (simp add: list_all_iff)
  from g have gs: "jget v ''candidateRelativePath'' = jget w ''candidateRelativePath''"
    "jget v ''candidateSha256'' = jget w ''candidateSha256''" "jget v ''candidateBytes'' = jget w ''candidateBytes''"
    "jget v ''rollbackRelativePath'' = jget w ''rollbackRelativePath''"
    by (simp_all add: receiptKeys_def)
  from s have ss: "get_str v ''candidateRelativePath'' = get_str w ''candidateRelativePath''"
    "get_str v ''candidateSha256'' = get_str w ''candidateSha256''" "get_int v ''candidateBytes'' = get_int w ''candidateBytes''"
    "get_str v ''rollbackRelativePath'' = get_str w ''rollbackRelativePath''"
    "get_str v ''liveDatabaseRelativePath'' = get_str w ''liveDatabaseRelativePath''"
    by (simp_all add: receiptKeys_def)
  have b: "candidateBindingState v = candidateBindingState w"
    unfolding candidateBindingState_def gs ss by (rule refl)
  show ?thesis
    using assms(1,2,3,5) g s b by (simp add: decode_receipt_def receiptKeys_def)
qed

lemma receipt_js_strings:
  "get_str (receipt_js r) ''operationId'' = Some (r_operationId r)"
  "get_str (receipt_js r) ''createdAt'' = Some (r_createdAt r)"
  "get_str (receipt_js r) ''updatedAt'' = Some (r_updatedAt r)"
  "get_str (receipt_js r) ''phase'' = Some (phase_name (r_phase r))"
  "get_str (receipt_js r) ''liveDatabaseRelativePath'' = Some (r_live r)"
  "get_str (receipt_js r) ''liveDatabaseSha256'' = Some (r_liveSha r)"
  "get_str (receipt_js r) ''maintenanceOperationId'' = Some (r_maintenanceOperationId r)"
  "get_str (receipt_js r) ''backupManifestSha256'' = Some (r_manifestSha r)"
  "get_str (receipt_js r) ''recoveryPointRelativePath'' = Some (r_point r)"
  "get_str (receipt_js r) ''recoveryPointSha256'' = Some (r_pointSha r)"
  "get_str (receipt_js r) ''confirmation'' = Some (r_confirmation r)"
  by (simp_all add: get_str_def receipt_js_def)

lemma receipt_js_ints:
  "safe_integer (Num (r_liveBytes r)) \<Longrightarrow> get_int (receipt_js r) ''liveDatabaseBytes'' = Some (r_liveBytes r)"
  "safe_integer (Num (r_schemaVersion r)) \<Longrightarrow> get_int (receipt_js r) ''schemaVersion'' = Some (r_schemaVersion r)"
  "safe_integer (Num (r_pointBytes r)) \<Longrightarrow> get_int (receipt_js r) ''recoveryPointBytes'' = Some (r_pointBytes r)"
  by (simp_all add: get_int_def receipt_js_def)

lemma receipt_js_binding:
  assumes "case r_binding r of None \<Rightarrow> True | Some b \<Rightarrow> binding_wf (r_live r) b"
  shows "binding_option (candidateBindingState (receipt_js r)) = Some (r_binding r)"
proof (cases "r_binding r")
  case None
  then show ?thesis by (simp add: candidateBindingState_def receipt_js_def binding_option_def)
next
  case (Some b)
  then have f: "get_str (receipt_js r) ''candidateRelativePath'' = Some (b_candidate b)"
      "get_str (receipt_js r) ''candidateSha256'' = Some (b_sha b)"
      "get_str (receipt_js r) ''rollbackRelativePath'' = Some (b_rollback b)"
      "get_int (receipt_js r) ''candidateBytes'' = Some (b_bytes b)"
      "jget (receipt_js r) ''candidateRelativePath'' \<noteq> JNull"
    using assms by (simp_all add: get_str_def get_int_def receipt_js_def binding_wf_def)
  have "binding_wf (r_live r) b" using assms Some by simp
  then show ?thesis
    using Some f receipt_js_strings(5) [of r]
    by (simp add: candidateBindingState_def binding_option_def binding_wf_def)
qed

text \<open>The decoding of a receipt's object, whatever its checks are.\<close>

lemma decode_receipt_js_checks:
  assumes "safe_integer (Num (r_liveBytes r))" "safe_integer (Num (r_schemaVersion r))" "safe_integer (Num (r_pointBytes r))"
    and "case r_binding r of None \<Rightarrow> True | Some b \<Rightarrow> binding_wf (r_live r) b"
  shows "decode_receipt (receipt_js r) = map_option (\<lambda>cs. r\<lparr>r_checks := cs\<rparr>) (validateChecks (checks_js (r_checks r)))"
proof -
  have c: "jget (receipt_js r) ''checks'' = checks_js (r_checks r)" by (simp add: receipt_js_def)
  have shape: "plain_object (receipt_js r)" "jget (receipt_js r) ''format'' = JStr ''portal-offline-recovery-receipt''"
      "jget (receipt_js r) ''version'' = JInt 1"
    by (simp_all add: receipt_js_def plain_object_def)
  show ?thesis
    by (cases "validateChecks (checks_js (r_checks r))")
      (simp_all add: decode_receipt_def shape jkeys_receipt_js receipt_js_strings receipt_js_ints assms
        receipt_js_binding c)
qed

lemma decode_receipt_js: "receipt_wf r \<Longrightarrow> decode_receipt (receipt_js r) = Some r"
  by (simp add: receipt_wf_def decode_receipt_js_checks validateChecks_js)

lemma decode_receipt_wf: "decode_receipt v = Some r \<Longrightarrow> receipt_wf r"
proof -
  assume "decode_receipt v = Some r"
  then obtain cs b lb sv rb where
      "validateChecks (jget v ''checks'') = Some cs" "binding_option (candidateBindingState v) = Some b"
      "get_int v ''liveDatabaseBytes'' = Some lb" "get_int v ''schemaVersion'' = Some sv"
      "get_int v ''recoveryPointBytes'' = Some rb" "get_str v ''liveDatabaseRelativePath'' = Some (r_live r)"
      "r_checks r = cs" "r_binding r = b" "r_liveBytes r = lb" "r_schemaVersion r = sv" "r_pointBytes r = rb"
    by (auto simp: decode_receipt_def bind_eq_Some_conv split: if_splits)
  moreover have "safe_integer (Num n)" if "get_int v k = Some n" for k n
    using that by (auto simp: get_int_def split: js.splits jsnum.splits if_splits)
  moreover have "binding_wf l x" if "candidateBindingState v = BPresent x" "get_str v ''liveDatabaseRelativePath'' = Some l" for x l
    using that by (auto simp: candidateBindingState_def binding_wf_def get_int_def
        split: option.splits if_splits js.splits jsnum.splits)
  ultimately show ?thesis
    by (auto simp: receipt_wf_def binding_option_def dest: validateChecks_wf split: option.splits binding_state.splits)
qed

text \<open>A validated receipt, and the round trip of validation.\<close>

definition valid_receipt :: "int \<Rightarrow> receipt \<Rightarrow> bool" where
  "valid_receipt now r = (receipt_wf r \<and> receipt_valid now r)"

lemma validate_Inr: "validateRecoveryReceipt now v = Inr r \<Longrightarrow> valid_receipt now r"
  by (auto simp: validateRecoveryReceipt_def valid_receipt_def dest: decode_receipt_wf split: option.splits if_splits)

lemma validate_receipt_js: "valid_receipt now r \<Longrightarrow> validateRecoveryReceipt now (receipt_js r) = Inr r"
  by (simp add: validateRecoveryReceipt_def valid_receipt_def decode_receipt_js)

lemma validate_receipt_js_iff: "validateRecoveryReceipt now (receipt_js r) = Inr r \<longleftrightarrow> valid_receipt now r"
  by (metis validate_Inr validate_receipt_js)

lemma valid_receipt_later:
  "valid_receipt now r \<Longrightarrow> now \<le> now' \<Longrightarrow> now' \<le> max_safe \<Longrightarrow> valid_receipt now' r"
  by (auto simp: valid_receipt_def receipt_valid_def validTimestamp_def safe_integer_def split: option.splits)

section \<open>The canonical file\<close>

lemma canon_obj_map_of:
  assumes "distinct (map fst ps)"
  shows "map_of (js_sort (\<lambda>a b. str_cmp (fst a) (fst b)) (map (\<lambda>(k, v). (k, canon v)) ps)) k
    = map_option canon (map_of ps k)"
proof -
  let ?qs = "map (\<lambda>(k, v). (k, canon v)) ps"
  have f: "map fst ?qs = map fst ps" by (induction ps) auto
  have d: "distinct (map fst ?qs)" unfolding f by (rule assms)
  have "distinct (map fst (js_sort (\<lambda>a b. str_cmp (fst a) (fst b)) ?qs))"
    unfolding map_fst_js_sort using d by simp
  then have "map_of (js_sort (\<lambda>a b. str_cmp (fst a) (fst b)) ?qs) = map_of ?qs"
    using d by (intro map_of_inject_set [THEN iffD2]) simp_all
  then show ?thesis by (simp add: map_of_map)
qed

lemma jget_canon:
  assumes "distinct (map fst ps)"
  shows "jget (canon (JObj ps)) k = (case map_of ps k of None \<Rightarrow> JUndef | Some v \<Rightarrow> canon v)"
  by (simp add: canon_obj_map_of [OF assms] split: option.splits)

lemma canon_plain: "json_plain v \<Longrightarrow> json_plain (canon v)"
proof (induction v rule: canon.induct)
  case (1 xs)
  then show ?case by (simp add: list_all_iff)
next
  case (2 ps)
  have f: "map fst (map (\<lambda>(k, v). (k, canon v)) ps) = map fst ps" by (induction ps) auto
  have "distinct (map fst (js_sort (\<lambda>a b. str_cmp (fst a) (fst b)) (map (\<lambda>(k, v). (k, canon v)) ps)))"
    unfolding map_fst_js_sort f using 2(2) by simp
  with 2 show ?case by (fastforce simp: list_all_iff)
qed simp_all

lemma jkeys_canon: "jkeys (canon (JObj ps)) = sort_strings (map fst ps)"
proof -
  have f: "map fst (map (\<lambda>(k, v). (k, canon v)) ps) = map fst ps" by (induction ps) auto
  show ?thesis unfolding canon.simps jkeys_def js.case map_fst_js_sort f ..
qed

lemma validateChecks_canon: "validateChecks (canon (checks_js cs)) = validateChecks (checks_js cs)"
proof -
  have m: "map (\<lambda>(k, v). (k, canon v)) (map (\<lambda>k. (k, JStr ''ok'')) cs) = map (\<lambda>k. (k, JStr ''ok'')) cs"
    by simp
  show ?thesis
    unfolding checks_js_def canon.simps m validateChecks_def js.case
    by (simp add: list_all_iff image_image)
qed

lemma receiptKeys_distinct: "distinct receiptKeys"
  by (simp add: receiptKeys_def)

lemma receipt_js_plain: "checks_wf (r_checks r) \<Longrightarrow> json_plain (receipt_js r)"
proof -
  assume "checks_wf (r_checks r)"
  then have "distinct (r_checks r)" by (rule checks_wf_props)
  then have "json_plain (checks_js (r_checks r))"
    by (simp add: checks_js_def list_all_iff comp_def)
  then show ?thesis by (simp add: receipt_js_def split: option.splits)
qed

lemma decode_canon_receipt: "decode_receipt (canon (receipt_js r)) = decode_receipt (receipt_js r)"
proof -
  obtain ps where ps: "receipt_js r = JObj ps" by (simp add: receipt_js_def)
  have keys: "map fst ps = receiptKeys" using jkeys_receipt_js [of r] ps by (simp add: jkeys_def)
  then have d: "distinct (map fst ps)" by (simp add: receiptKeys_distinct)
  have c: "map_of ps ''checks'' = Some (checks_js (r_checks r))" using ps by (auto simp: receipt_js_def)
  have "list_all (\<lambda>(k, v). k \<noteq> ''checks'' \<longrightarrow> canon v = v) ps"
    using ps by (cases "r_binding r") (auto simp: receipt_js_def)
  then have scal: "canon v = v" if "(k, v) \<in> set ps" "k \<noteq> ''checks''" for k v
    using that unfolding list_all_iff by blast
  show ?thesis
  proof (rule decode_receipt_cong)
    show "plain_object (canon (receipt_js r))" "plain_object (receipt_js r)"
      by (simp_all add: plain_object_def ps)
    show "sort_strings (jkeys (canon (receipt_js r))) = sort_strings (jkeys (receipt_js r))"
      by (simp only: ps jkeys_canon sort_strings_idem) (simp add: jkeys_def)
    show "validateChecks (jget (canon (receipt_js r)) ''checks'') = validateChecks (jget (receipt_js r) ''checks'')"
      unfolding ps jget_canon [OF d] c option.case validateChecks_canon by (simp add: c)
    fix k assume k: "k \<in> set (butlast receiptKeys)"
    then have kc: "k \<noteq> ''checks''" by (auto simp: receiptKeys_def)
    show "jget (canon (receipt_js r)) k = jget (receipt_js r) k"
    proof (cases "map_of ps k")
      case None
      then show ?thesis unfolding ps jget_canon [OF d] by simp
    next
      case (Some v)
      then have "canon v = v" using scal kc by (auto dest: map_of_SomeD)
      with Some show ?thesis unfolding ps jget_canon [OF d] by simp
    qed
  qed
qed

text \<open>A bound on the length of printed JSON that does not depend on the order of keys.\<close>

fun json_bound :: "js \<Rightarrow> nat" where
  "json_bound JUndef = 5"
| "json_bound JNull = 5"
| "json_bound (JBool b) = 5"
| "json_bound (JNum n) = length (num_to_str n) + 5"
| "json_bound (JStr s) = 6 * length s + 2"
| "json_bound (JArr xs) = 2 + sum_list (map (\<lambda>x. json_bound x + 1) xs)"
| "json_bound (JObj ps) = 2 + sum_list (map (\<lambda>(k, v). 6 * length k + 4 + json_bound v) ps)"

lemma length_quote: "length (json_quote s) \<le> 6 * length s + 2"
proof -
  have "length (concat (map esc_char s)) \<le> 6 * length s"
    by (induction s) (auto simp: esc_char_def)
  then show ?thesis by (simp add: json_quote_def)
qed

lemma length_join: "length (js_join '','' xs) \<le> sum_list (map (\<lambda>x. length x + 1) xs)"
  by (induction "'',''" xs rule: js_join.induct) auto

lemma length_members:
  "\<forall>(k, v) \<in> set ps. length (json_print v) \<le> json_bound v \<Longrightarrow>
   sum_list (map (\<lambda>x. length x + 1) (concat (map (\<lambda>(k, v). if v = JUndef then []
      else [json_quote k @ '':'' @ json_print v]) ps)))
     \<le> sum_list (map (\<lambda>(k, v). 6 * length k + 4 + json_bound v) ps)"
proof (induction ps)
  case (Cons kv ps)
  obtain k v where e: "kv = (k, v)" by (cases kv)
  have "length (json_print v) \<le> json_bound v" using Cons.prems e by simp
  with length_quote [of k] Cons e show ?case by auto
qed simp

lemma length_json_print: "length (json_print v) \<le> json_bound v"
proof (induction v rule: canon.induct)
  case (1 xs)
  have "sum_list (map (\<lambda>x. length x + 1) (map json_print xs)) \<le> sum_list (map (\<lambda>x. json_bound x + 1) xs)"
    unfolding map_map comp_def by (rule sum_list_mono) (simp add: 1)
  with length_join [of "map json_print xs"] show ?case by simp
next
  case (2 ps)
  have "\<forall>(k, v) \<in> set ps. length (json_print v) \<le> json_bound v" using 2 by blast
  from length_members [OF this] length_join [of "concat (map (\<lambda>(k, v). if v = JUndef then []
      else [json_quote k @ '':'' @ json_print v]) ps)"]
  show ?case by simp
next
  case (7 s)
  show ?case using length_quote [of s] by simp
qed simp_all

lemma json_bound_canon: "json_bound (canon v) = json_bound v"
proof (induction v rule: canon.induct)
  case (1 xs)
  then have "map (\<lambda>x. json_bound x + 1) (map canon xs) = map (\<lambda>x. json_bound x + 1) xs" by simp
  then show ?case by (simp only: canon.simps json_bound.simps)
next
  case (2 ps)
  let ?g = "\<lambda>(k, v). 6 * length k + 4 + json_bound v"
  let ?qs = "map (\<lambda>(k, v). (k, canon v)) ps"
  have "sum_list (map ?g (js_sort (\<lambda>a b. str_cmp (fst a) (fst b)) ?qs)) = sum_list (map ?g ?qs)"
  proof -
    have "mset (map ?g (js_sort (\<lambda>a b. str_cmp (fst a) (fst b)) ?qs)) = mset (map ?g ?qs)"
      unfolding mset_map mset_js_sort ..
    then have "sum_mset (mset (map ?g (js_sort (\<lambda>a b. str_cmp (fst a) (fst b)) ?qs))) = sum_mset (mset (map ?g ?qs))"
      by (rule arg_cong)
    then show ?thesis unfolding sum_mset_sum_list .
  qed
  also have "map ?g ?qs = map ?g ps"
    unfolding map_map
  proof (intro map_cong refl)
    fix kv assume kv: "kv \<in> set ps"
    obtain k v where e: "kv = (k, v)" by (cases kv)
    have "json_bound (canon v) = json_bound v" by (rule 2) (use kv e in auto)
    then show "(?g \<circ> (\<lambda>(k, v). (k, canon v))) kv = ?g kv" by (simp add: e)
  qed
  finally show ?case by (simp only: canon.simps json_bound.simps)
qed simp_all

lemma length_int_to_str: "safe_integer (Num n) \<Longrightarrow> length (int_to_str n) \<le> 17"
proof -
  assume "safe_integer (Num n)"
  then have "nat n \<le> 9007199254740991" "nat (- n) \<le> 9007199254740991"
    by (simp_all add: safe_integer_def max_safe_def nat_le_iff)
  then have "nat n < 10 ^ 16" "nat (- n) < 10 ^ 16" by simp_all
  then show ?thesis
    using length_nat_to_str [of "nat n" 16] length_nat_to_str [of "nat (- n)" 16] by (simp add: int_to_str_def)
qed

lemma validRelativePath_length: "validRelativePath s \<Longrightarrow> length s \<le> 4096"
  by (simp add: validRelativePath_def split: if_splits)

lemma validTimestamp_length: "validTimestamp s now \<Longrightarrow> length s = 24"
  by (auto simp: validTimestamp_def iso_parse_def iso_shape_def split: option.splits if_splits dest!: matches_length)

lemma phase_name_length: "length (phase_name p) \<le> 24"
  by (cases p) simp_all

lemma checks_bound: "checks_wf cs \<Longrightarrow> json_bound (checks_js cs) \<le> 5000"
proof -
  assume w: "checks_wf cs"
  have short: "length k \<le> 25" if "k \<in> set check_order" for k
    using that by (auto simp: check_order_def)
  have "sum_list (map (\<lambda>k. 6 * length k + 18) cs) \<le> sum_list (map (\<lambda>k. 168) cs)"
    by (rule sum_list_mono) (use short checks_wf_props(2) [OF w] in fastforce)
  also have "\<dots> = 168 * length cs" by (simp add: sum_list_triv)
  also have "\<dots> \<le> 168 * 14"
    using checks_wf_props(4) [OF w] by (simp add: check_order_def)
  finally show ?thesis by (simp add: checks_js_def comp_def add.commute)
qed

lemma receipt_contents_length:
  assumes "valid_receipt now r" shows "length (receipt_contents r) \<le> 1048576"
proof -
  have v: "receipt_wf r" "receipt_valid now r" using assms by (simp_all add: valid_receipt_def)
  have paths: "length (r_live r) \<le> 4096" "length (r_point r) \<le> 4096"
    using v(2) validRelativePath_length by (simp_all add: receipt_valid_def)
  have ids: "length (r_operationId r) = 45" "length (r_maintenanceOperationId r) = 48"
    using v(2) by (auto simp: receipt_valid_def dest: prefixed_uuid_length)
  have hashes: "length (r_liveSha r) = 64" "length (r_manifestSha r) = 64" "length (r_pointSha r) = 64"
    using v(2) by (simp_all add: receipt_valid_def hash_pattern_def)
  have times: "length (r_createdAt r) = 24" "length (r_updatedAt r) = 24"
    using v(2) by (auto simp: receipt_valid_def dest: validTimestamp_length)
  have ints: "length (int_to_str (r_liveBytes r)) \<le> 17" "length (int_to_str (r_schemaVersion r)) \<le> 17"
      "length (int_to_str (r_pointBytes r)) \<le> 17"
    using v(1) by (simp_all add: receipt_wf_def length_int_to_str)
  have conf: "length (r_confirmation r) = 69"
    using v(2) ids by (simp add: receipt_valid_def confirmation_for_def)
  have ck: "json_bound (checks_js (r_checks r)) \<le> 5000" using v(1) by (simp add: receipt_wf_def checks_bound)
  have one: "length (int_to_str 1) \<le> 17" by (rule length_int_to_str) (simp add: safe_integer_def max_safe_def)
  have "json_bound (receipt_js r) \<le> 1000000"
  proof (cases "r_binding r")
    case None
    with paths ids hashes times ints one conf ck phase_name_length [of "r_phase r"] show ?thesis
      by (simp add: receipt_js_def)
  next
    case (Some b)
    then have "binding_wf (r_live r) b" using v(1) by (simp add: receipt_wf_def)
    then have "length (b_candidate b) \<le> 4096" "length (b_rollback b) \<le> 4096" "length (b_sha b) = 64"
      "length (int_to_str (b_bytes b)) \<le> 17"
      by (auto simp: binding_wf_def hash_pattern_def length_int_to_str dest: validRelativePath_length)
    with Some paths ids hashes times ints one conf ck phase_name_length [of "r_phase r"] show ?thesis
      by (simp add: receipt_js_def)
  qed
  then show ?thesis
    using length_json_print [of "canon (receipt_js r)"]
    by (simp add: receipt_contents_def canonicalJson_def json_bound_canon)
qed

lemma parse_written:
  assumes "valid_receipt now r" "now \<le> now'" "now' \<le> max_safe"
  shows "parse_receipt_contents now' (receipt_contents r) = Inr r"
proof -
  have v: "valid_receipt now' r" using valid_receipt_later [OF assms(1-3)] .
  then have w: "receipt_wf r" by (simp add: valid_receipt_def)
  have "json_plain (canon (receipt_js r))"
    using w by (intro canon_plain receipt_js_plain) (simp add: receipt_wf_def)
  then have j: "json_parse (canonicalJson (receipt_js r)) = Some (canon (receipt_js r))"
    unfolding canonicalJson_def by (rule json_parse_print)
  have "validateRecoveryReceipt now' (canon (receipt_js r)) = Inr r"
    using validate_receipt_js [OF v] by (simp add: validateRecoveryReceipt_def decode_canon_receipt)
  with j receipt_contents_length [OF assms(1)] show ?thesis
    by (simp add: parse_receipt_contents_def receipt_contents_def)
qed

text \<open>C22: What is written to a receipt file is read back as the same receipt: the canonical text of a
  valid receipt stays below the reader's size limit, parses, validates at any later time and compares equal
  to the text the reader reproduces.\<close>

theorem receipt_file_roundtrip:
  assumes "valid_receipt now r" "now \<le> now'" "now' \<le> max_safe"
  shows "parse_receipt_contents now' (receipt_contents r) = Inr r"
  by (rule parse_written [OF assms])

section \<open>The phases as a state machine\<close>

inductive phase_step :: "phase \<Rightarrow> phase \<Rightarrow> bool" where
  "q \<in> set (phaseTransitions p) \<Longrightarrow> phase_step p q"

inductive_simps phase_step_iff: "phase_step p q"

definition same_operation :: "receipt \<Rightarrow> receipt \<Rightarrow> bool" where
  "same_operation r r' \<longleftrightarrow>
     r' = r\<lparr>r_phase := r_phase r', r_updatedAt := r_updatedAt r', r_binding := r_binding r', r_checks := r_checks r'\<rparr>"

definition later :: "string \<Rightarrow> string \<Rightarrow> bool" where
  "later a b = (case (iso_parse a, iso_parse b) of (Some x, Some y) \<Rightarrow> x < y | _ \<Rightarrow> False)"

lemma transition_Inr:
  assumes "transitionRecoveryReceipt v p t = Inr r'"
  obtains now r where "iso_parse t = Some now" "validateRecoveryReceipt now v = Inr r"
    "p \<noteq> CandidateReady" "p \<in> set (phaseTransitions (r_phase r))" "validTimestamp t now" "later (r_updatedAt r) t"
    "r' = r\<lparr>r_phase := p, r_updatedAt := t\<rparr>" "valid_receipt now r'"
proof -
  from assms obtain now r where 1: "iso_parse t = Some now" "validateRecoveryReceipt now v = Inr r"
      "p \<noteq> CandidateReady" "p \<in> set (phaseTransitions (r_phase r))" "validTimestamp t now"
      "case iso_parse (r_updatedAt r) of Some u \<Rightarrow> u < now | None \<Rightarrow> False"
    and v: "validateRecoveryReceipt now (receipt_js (r\<lparr>r_phase := p, r_updatedAt := t\<rparr>)) = Inr r'"
    by (auto simp: transitionRecoveryReceipt_def split: option.splits)
  have w: "receipt_wf (r\<lparr>r_phase := p, r_updatedAt := t\<rparr>)"
    using validate_Inr [OF 1(2)] by (cases "r_binding r") (simp_all add: valid_receipt_def receipt_wf_def)
  from v w have "r' = r\<lparr>r_phase := p, r_updatedAt := t\<rparr>"
    by (simp add: validateRecoveryReceipt_def decode_receipt_js split: if_splits)
  with 1 v that show ?thesis by (auto simp: later_def split: option.splits dest: validate_Inr)
qed

text \<open>A phase transition of a receipt follows the phase table, is dated strictly later, changes
  nothing but the phase and the date, and yields a receipt that is valid at its own date.\<close>

lemma receipt_transition_sound:
  assumes "transitionRecoveryReceipt (receipt_js r) p t = Inr r'" "receipt_wf r"
  shows "phase_step (r_phase r) (r_phase r') \<and> r_phase r' = p \<and> later (r_updatedAt r) (r_updatedAt r')
    \<and> r' = r\<lparr>r_phase := p, r_updatedAt := t\<rparr>
    \<and> (\<exists>now. iso_parse t = Some now \<and> valid_receipt now r')"
proof -
  obtain now r0 where 1: "iso_parse t = Some now" "validateRecoveryReceipt now (receipt_js r) = Inr r0"
    "p \<in> set (phaseTransitions (r_phase r0))" "later (r_updatedAt r0) t"
    "r' = r0\<lparr>r_phase := p, r_updatedAt := t\<rparr>" "valid_receipt now r'"
    by (rule transition_Inr [OF assms(1)])
  from 1(2) assms(2) have "r0 = r"
    by (simp add: validateRecoveryReceipt_def decode_receipt_js split: if_splits)
  with 1 show ?thesis by (auto simp: phase_step_iff)
qed

text \<open>The conditions under which a transition succeeds.\<close>

lemma transition_succeeds:
  assumes "valid_receipt now r" "to_iso now = t" "iso_parse t = Some now" "later (r_updatedAt r) t"
    and "p \<noteq> CandidateReady" "p \<in> set (phaseTransitions (r_phase r))"
    and "p \<in> set candidateRequiredPhases \<Longrightarrow> r_binding r \<noteq> None"
  shows "transitionRecoveryReceipt (receipt_js r) p t = Inr (r\<lparr>r_phase := p, r_updatedAt := t\<rparr>)"
proof -
  have vt: "validTimestamp t now" using assms(2,3) by (simp add: validTimestamp_def)
  have "valid_receipt now (r\<lparr>r_phase := p, r_updatedAt := t\<rparr>)"
    using assms(1,3,4,7) vt
    by (auto simp: valid_receipt_def receipt_wf_def receipt_valid_def later_def split: option.splits)
  from validate_receipt_js [OF this] validate_receipt_js [OF assms(1)] assms(3-6) vt show ?thesis
    by (auto simp: transitionRecoveryReceipt_def later_def split: option.splits)
qed

text \<open>A transition of a receipt with one more check.\<close>

definition with_check :: "string \<Rightarrow> receipt \<Rightarrow> receipt" where
  "with_check c r = r\<lparr>r_checks := filter (\<lambda>k. k = c \<or> k \<in> set (r_checks r)) check_order\<rparr>"

lemma validateChecks_add:
  assumes "checks_wf cs" "c \<in> set check_order"
  shows "validateChecks (checks_js (if c \<in> set cs then cs else cs @ [c]))
    = Some (filter (\<lambda>k. k = c \<or> k \<in> set cs) check_order)"
proof (cases "c \<in> set cs")
  case True
  then have "filter (\<lambda>k. k = c \<or> k \<in> set cs) check_order = filter (\<lambda>k. k \<in> set cs) check_order"
    by (intro filter_cong) auto
  with True assms(1) show ?thesis by (simp add: validateChecks_js) (simp add: checks_wf_def)
next
  case False
  let ?cs = "cs @ [c]"
  have "distinct ?cs" "set ?cs \<subseteq> set check_order"
    using checks_wf_props [OF assms(1)] False assms(2) by auto
  then have "length ?cs \<le> length check_order"
    by (metis card_mono distinct_card check_order_distinct List.finite_set)
  with \<open>set ?cs \<subseteq> set check_order\<close> False show ?thesis
    by (simp add: validateChecks_def checks_js_def list_all_iff image_image disj_commute) blast
qed

lemma decode_add_check:
  assumes "receipt_wf r" "c \<in> set check_order"
  shows "decode_receipt (receipt_js (add_check c r)) = Some (with_check c r)"
proof -
  have "decode_receipt (receipt_js (add_check c r))
      = map_option (\<lambda>cs. (add_check c r)\<lparr>r_checks := cs\<rparr>) (validateChecks (checks_js (r_checks (add_check c r))))"
    using assms(1) by (intro decode_receipt_js_checks; cases "r_binding r") (simp_all add: receipt_wf_def add_check_def)
  then show ?thesis
    using validateChecks_add [of "r_checks r" c] assms
    by (simp add: add_check_def with_check_def receipt_wf_def)
qed

lemma with_check_simps [simp]:
  "r_phase (with_check c r) = r_phase r" "r_updatedAt (with_check c r) = r_updatedAt r"
  "r_binding (with_check c r) = r_binding r" "r_liveSha (with_check c r) = r_liveSha r"
  by (simp_all add: with_check_def)

lemma with_check_valid:
  assumes "valid_receipt now r" "c \<in> set check_order" shows "valid_receipt now (with_check c r)"
proof -
  have w: "receipt_wf (with_check c r)"
    using decode_receipt_wf decode_add_check assms by (metis valid_receipt_def)
  have sub: "set (r_checks r) \<subseteq> set check_order"
    using assms(1) checks_wf_props(2) by (simp add: valid_receipt_def receipt_wf_def)
  with assms(1) have "receipt_valid now (with_check c r)"
    by (auto simp: valid_receipt_def receipt_valid_def with_check_def list_all_iff)
  with w show ?thesis by (simp add: valid_receipt_def)
qed

lemma transition_add_check:
  assumes "receipt_wf r" "c \<in> set check_order"
  shows "transitionRecoveryReceipt (receipt_js (add_check c r)) p t = transitionRecoveryReceipt (receipt_js (with_check c r)) p t"
proof -
  have "decode_receipt (receipt_js (add_check c r)) = decode_receipt (receipt_js (with_check c r))"
    using assms decode_add_check [OF assms] decode_receipt_wf decode_receipt_js by metis
  then have "validateRecoveryReceipt now (receipt_js (add_check c r)) = validateRecoveryReceipt now (receipt_js (with_check c r))"
    for now by (simp add: validateRecoveryReceipt_def)
  then show ?thesis unfolding transitionRecoveryReceipt_def by presburger
qed

section \<open>A receipt at work\<close>

definition sample_uuid :: string where
  "sample_uuid = ''123e4567-e89b-42d3-a456-426614174000''"

definition sample_hash :: "char \<Rightarrow> string" where
  "sample_hash c = replicate 64 c"

definition sample_receipt :: receipt where
  "sample_receipt = \<lparr>r_operationId = ''recovery_'' @ sample_uuid,
     r_createdAt = to_iso 0, r_updatedAt = to_iso 1000,
     r_phase = CandidateReady, r_live = ''data/portal.sqlite'', r_liveSha = sample_hash (CHR ''a''),
     r_liveBytes = 4096, r_schemaVersion = 12, r_maintenanceOperationId = ''maintenance_'' @ sample_uuid,
     r_manifestSha = sample_hash (CHR ''b''), r_point = ''recovery/point.enc'', r_pointSha = sample_hash (CHR ''c''),
     r_pointBytes = 5000,
     r_binding = Some \<lparr>b_candidate = ''data/candidate.sqlite'', b_sha = sample_hash (CHR ''d''), b_bytes = 4096,
       b_rollback = ''data/rollback.sqlite''\<rparr>,
     r_confirmation = confirmation_for (''recovery_'' @ sample_uuid),
     r_checks = [''candidateAdministrator'', ''candidateAudit'', ''candidateEncryption'', ''candidateIntegrity'', ''candidateSchema'']\<rparr>"

lemma sample_times [simp]:
  "iso_parse (to_iso 0) = Some 0" "iso_parse (to_iso 1000) = Some 1000" "iso_parse (to_iso 2000) = Some 2000"
  by (rule iso_parse_to_iso; simp add: max_iso_def)+

lemma sample_paths:
  "validRelativePath ''data/portal.sqlite''" "validRelativePath ''recovery/point.enc''"
  "validRelativePath ''data/candidate.sqlite''" "validRelativePath ''data/rollback.sqlite''"
  "prefixed_uuid ''recovery_'' (''recovery_'' @ sample_uuid)" "prefixed_uuid ''maintenance_'' (''maintenance_'' @ sample_uuid)"
  by code_simp+

lemma sample_hashes: "hash_pattern (sample_hash (CHR ''a''))" "hash_pattern (sample_hash (CHR ''b''))" "hash_pattern (sample_hash (CHR ''c''))"
  "hash_pattern (sample_hash (CHR ''d''))"
  by code_simp+

lemma sample_wf: "receipt_wf sample_receipt"
  using sample_paths sample_hashes
  by (simp add: receipt_wf_def sample_receipt_def checks_wf_def check_order_def binding_wf_def safe_integer_def max_safe_def)

lemma sample_valid: "valid_receipt 2000 sample_receipt"
  using sample_wf sample_paths sample_hashes
  by (simp add: valid_receipt_def receipt_valid_def sample_receipt_def validTimestamp_def candidateChecks_def safe_integer_def max_safe_def)

lemma sample_transition: "transitionRecoveryReceipt (receipt_js sample_receipt) SwapStarted (to_iso 2000)
   = Inr (sample_receipt\<lparr>r_phase := SwapStarted, r_updatedAt := to_iso 2000\<rparr>)"
  by (rule transition_succeeds [OF sample_valid])
    (simp_all add: later_def sample_receipt_def)

theorem receipt_file_roundtrip_witness:
  "parse_receipt_contents 9000 (receipt_contents sample_receipt) = Inr sample_receipt"
  by (rule receipt_file_roundtrip [OF sample_valid]) (simp_all add: max_safe_def)

theorem receipt_transition_sound_witness:
  "phase_step CandidateReady SwapStarted \<and> later (to_iso 1000) (to_iso 2000)"
  using receipt_transition_sound [OF sample_transition sample_wf] by (simp add: sample_receipt_def)

end
