(* ===== verification/RecoveryFiles.thy ===== *)
theory RecoveryFiles
  imports RecoveryReceipt
begin

text \<open>
  The file system the offline recovery works on, and the file operations of
  \<open>recovery-swap.ts\<close>, \<open>recovery-reconcile.ts\<close> and of \<open>loadRecoveryReceipt\<close> /
  \<open>writeRecoveryReceiptAtomic\<close> in \<open>recovery-receipt.ts\<close>.

  Every system call consults a schedule: it runs, it fails (and throws), or the process stops
  before it (\<open>Crashed\<close>, which no handler catches). \<open>rename\<close> is atomic and replaces its
  destination; a receipt is written to a temporary file that is renamed over the old one, so a
  reader sees the old or the new text. What is on disk after a power loss, that is the effect
  of the \<open>fsync\<close> calls, is not modelled; they are calls that can fail. A file is known by its
  digest, size and device. \<open>triple P m Q E\<close> is a Hoare triple with a second postcondition for
  the errors, crash included.
\<close>

section \<open>World\<close>

record fs_file =
  f_regular :: bool
  f_sha :: string
  f_bytes :: int
  f_dev :: int

record receipt_file =
  rf_regular :: bool
  rf_private :: bool
  rf_canonical :: bool
  rf_contents :: string

datatype io = IoOk | IoFails | Crash

record world =
  w_files :: "string \<Rightarrow> fs_file option"
  w_receipts :: "string \<Rightarrow> receipt_file option"
  w_directory :: "string \<Rightarrow> bool"
  w_locks :: "string list"
  w_schedule :: "io list"
  w_clock :: "nat \<Rightarrow> int"
  w_ticks :: nat

type_synonym 'a rec_eff = "(world, recovery_error, 'a) eff"

definition io :: "(world \<Rightarrow> (recovery_error + 'a) \<times> world) \<Rightarrow> 'a rec_eff" where
  "io f = (\<lambda>w. case w_schedule w of
      [] \<Rightarrow> f w
    | a # rest \<Rightarrow> (let w1 = w\<lparr>w_schedule := rest\<rparr> in
        case a of IoOk \<Rightarrow> f w1 | IoFails \<Rightarrow> (Inl IoError, w1) | Crash \<Rightarrow> (Inl Crashed, w1)))"

text \<open>\<open>try { m } catch (e) { h(e) }\<close>: a crash is not caught.\<close>

definition tryM :: "'a rec_eff \<Rightarrow> (recovery_error \<Rightarrow> 'a rec_eff) \<Rightarrow> 'a rec_eff" where
  "tryM m h = catchM m (\<lambda>e. if e = Crashed then throwM Crashed else h e)"

text \<open>The frequent handler: recovery errors pass, anything else becomes the given error.\<close>

definition orFail :: "'a rec_eff \<Rightarrow> recovery_error \<Rightarrow> 'a rec_eff" where
  "orFail m err = tryM m (\<lambda>e. case e of RecoveryError c n \<Rightarrow> throwM e | _ \<Rightarrow> throwM err)"

definition read_clock :: "int rec_eff" where
  "read_clock = (\<lambda>w. (Inr (w_clock w (w_ticks w)), w\<lparr>w_ticks := Suc (w_ticks w)\<rparr>))"

definition now_text :: "string rec_eff" where
  "now_text = bindM read_clock (\<lambda>ms. returnM (to_iso ms))"

section \<open>Paths\<close>

definition validPath :: "string \<Rightarrow> bool" where
  "validPath p = (p \<noteq> [] \<and> length p \<le> 4096 \<and> hd p = CHR ''/'' \<and> CHR 0x00 \<notin> set p)"

text \<open>\<open>dirname\<close> of the platform's path module.\<close>

definition dirname :: "string \<Rightarrow> string" where
  "dirname p =
     (let r = dropWhile (\<lambda>c. c \<noteq> CHR ''/'') (dropWhile (\<lambda>c. c = CHR ''/'') (rev p));
          d = rev (tl r)
      in if r = [] then (if p \<noteq> [] \<and> hd p = CHR ''/'' then ''/'' else ''.'')
         else if d = [] then ''/''
         else if length d = 1 \<and> hd p = CHR ''/'' then ''//''
         else d)"

section \<open>File operations\<close>

datatype file_info = Absent | Present bool "string option" int int

definition rename :: "string \<Rightarrow> string \<Rightarrow> unit rec_eff" where
  "rename source destination = io (\<lambda>w. case w_files w source of
      None \<Rightarrow> (Inl IoError, w)
    | Some f \<Rightarrow> (Inr (), w\<lparr>w_files := (w_files w)(source := None, destination := Some f)\<rparr>))"

definition remove_file :: "string \<Rightarrow> unit rec_eff" where
  "remove_file p = io (\<lambda>w. (Inr (), w\<lparr>w_files := (w_files w)(p := None)\<rparr>))"

definition fingerprintFile :: "int \<Rightarrow> string \<Rightarrow> (string \<times> int) rec_eff" where
  "fingerprintFile x p =
     tryM (bindM (io (\<lambda>w. (case w_files w p of None \<Rightarrow> Inl IoError | Some f \<Rightarrow> Inr (f_sha f, f_bytes f), w))) (\<lambda>fp.
           bindM (requireM (safe_integer (Num (snd fp)) \<and> 1 \<le> snd fp) IoError) (\<lambda>_. returnM fp)))
       (\<lambda>_. throwM (RecoveryError ''recovery_filesystem_inspection_failed'' x))"

definition inspectFile :: "int \<Rightarrow> string \<Rightarrow> file_info rec_eff" where
  "inspectFile x p =
     orFail (bindM (io (\<lambda>w. (Inr (w_files w p), w))) (\<lambda>file. case file of
          None \<Rightarrow> returnM Absent
        | Some f \<Rightarrow>
            bindM (requireM (f_regular f) (RecoveryError ''recovery_filesystem_ambiguous'' x)) (\<lambda>_.
            bindM (fingerprintFile x p) (\<lambda>(sha, bytes).
            returnM (Present True (Some sha) bytes (f_dev f))))))
       (RecoveryError ''recovery_filesystem_inspection_failed'' x)"

definition assertLockHeld :: "int \<Rightarrow> string \<Rightarrow> unit rec_eff" where
  "assertLockHeld x p =
     tryM (io (\<lambda>w. (if p \<in> set (w_locks w) then Inr () else Inl IoError, w)))
       (\<lambda>_. throwM (RecoveryError ''recovery_lock_required'' x))"

definition fsyncFile :: "int \<Rightarrow> string \<Rightarrow> unit rec_eff" where
  "fsyncFile x p =
     tryM (io (\<lambda>w. (case w_files w p of None \<Rightarrow> Inl IoError | Some _ \<Rightarrow> Inr (), w)))
       (\<lambda>_. throwM (RecoveryError ''recovery_filesystem_sync_failed'' x))"

definition fsyncDirectory :: "int \<Rightarrow> string \<Rightarrow> unit rec_eff" where
  "fsyncDirectory x p =
     tryM (io (\<lambda>w. (if w_directory w p then Inr () else Inl IoError, w)))
       (\<lambda>_. throwM (RecoveryError ''recovery_filesystem_sync_failed'' x))"

section \<open>Receipt files\<close>

definition loadRecoveryReceipt :: "string \<Rightarrow> receipt rec_eff" where
  "loadRecoveryReceipt p =
     bindM (requireM (validPath p) receipt_invalid) (\<lambda>_.
     orFail
      (bindM (io (\<lambda>w. (case w_receipts w p of None \<Rightarrow> Inl IoError | Some f \<Rightarrow> Inr f, w))) (\<lambda>f.
       bindM (requireM (rf_regular f) receipt_invalid) (\<lambda>_.
       bindM (requireM (rf_private f) (RecoveryError ''recovery_receipt_permissions_invalid'' 7)) (\<lambda>_.
       bindM (requireM (rf_canonical f) receipt_invalid) (\<lambda>_.
       bindM (io (\<lambda>w. (case w_receipts w p of None \<Rightarrow> Inl IoError | Some g \<Rightarrow> Inr (rf_contents g), w))) (\<lambda>contents.
       bindM read_clock (\<lambda>now.
       liftM (parse_receipt_contents now contents))))))))
      receipt_invalid)"

definition writeRecoveryReceiptAtomic :: "string \<Rightarrow> receipt \<Rightarrow> receipt rec_eff" where
  "writeRecoveryReceiptAtomic p r =
     bindM read_clock (\<lambda>now.
     bindM (liftM (validateRecoveryReceipt now (receipt_js r))) (\<lambda>valid.
     bindM (requireM (validPath p) receipt_invalid) (\<lambda>_.
     orFail
      (bindM (io (\<lambda>w. (Inr (w_directory w (dirname p)), w))) (\<lambda>isDirectory.
       bindM (requireM isDirectory receipt_invalid) (\<lambda>_.
       bindM (io (\<lambda>w. (Inr (w_receipts w p), w))) (\<lambda>target.
       bindM (requireM (case target of None \<Rightarrow> True | Some f \<Rightarrow> rf_regular f) receipt_invalid) (\<lambda>_.
       bindM (requireM (case target of None \<Rightarrow> True | Some f \<Rightarrow> rf_private f)
               (RecoveryError ''recovery_receipt_permissions_invalid'' 7)) (\<lambda>_.
       bindM (io (\<lambda>w. (Inr (), w))) (\<lambda>_. \<comment> \<open>create, write and sync the temporary file\<close>
       bindM (io (\<lambda>w. (Inr (), w\<lparr>w_receipts := (w_receipts w)(p := Some
               \<lparr>rf_regular = True, rf_private = True,
                rf_canonical = (case w_receipts w p of None \<Rightarrow> True | Some f \<Rightarrow> rf_canonical f),
                rf_contents = receipt_contents valid\<rparr>)\<rparr>))) (\<lambda>_.
       bindM (io (\<lambda>w. (Inr (), w))) (\<lambda>_. returnM valid)))))))))
      (RecoveryError ''recovery_receipt_write_failed'' 7))))"

section \<open>Triples\<close>

definition triple :: "('s \<Rightarrow> bool) \<Rightarrow> ('s, 'e, 'a) eff \<Rightarrow> ('a \<Rightarrow> 's \<Rightarrow> bool) \<Rightarrow> ('s \<Rightarrow> bool) \<Rightarrow> bool" where
  "triple P m Q E \<longleftrightarrow> (\<forall>w. P w \<longrightarrow> (case m w of (Inr x, w') \<Rightarrow> Q x w' | (Inl e, w') \<Rightarrow> E w'))"

named_theorems triple_intros "rules for triples"

lemma tripleI:
  assumes "\<And>w r w'. P w \<Longrightarrow> m w = (r, w') \<Longrightarrow> (case r of Inr x \<Rightarrow> Q x w' | Inl e \<Rightarrow> E w')"
  shows "triple P m Q E"
  unfolding triple_def
proof (intro allI impI)
  fix w assume "P w"
  obtain r w' where m: "m w = (r, w')" by (cases "m w")
  from assms [OF \<open>P w\<close> m] m show "case m w of (Inr x, w') \<Rightarrow> Q x w' | (Inl e, w') \<Rightarrow> E w'"
    by (cases r) simp_all
qed

lemma tripleD:
  assumes "triple P m Q E" "P w" "m w = (r, w')"
  shows "case r of Inr x \<Rightarrow> Q x w' | Inl e \<Rightarrow> E w'"
  using assms unfolding triple_def by (cases r) force+

lemma triple_bind:
  assumes "triple P m Q E" "\<And>x. triple (Q x) (f x) R E"
  shows "triple P (bindM m f) R E"
proof (rule tripleI)
  fix w r w' assume p: "P w" and b: "bindM m f w = (r, w')"
  obtain r1 w1 where m: "m w = (r1, w1)" by (cases "m w")
  note q = tripleD [OF assms(1) p m]
  show "case r of Inr x \<Rightarrow> R x w' | Inl e \<Rightarrow> E w'"
  proof (cases r1)
    case (Inl e)
    with b m q show ?thesis by (auto simp: bindM_run)
  next
    case (Inr x)
    with b m have "f x w1 = (r, w')" by (simp add: bindM_run)
    with tripleD [OF assms(2)] q Inr show ?thesis by simp
  qed
qed

lemma triple_weaken:
  assumes "triple P' m Q' E'" "\<And>w. P w \<Longrightarrow> P' w" "\<And>x w. Q' x w \<Longrightarrow> Q x w" "\<And>w. E' w \<Longrightarrow> E w"
  shows "triple P m Q E"
proof (rule tripleI)
  fix w r w' assume "P w" "m w = (r, w')"
  from tripleD [OF assms(1) assms(2) [OF this(1)] this(2)] assms(3,4)
  show "case r of Inr x \<Rightarrow> Q x w' | Inl e \<Rightarrow> E w'" by (cases r) simp_all
qed

text \<open>
  What a run can leave behind: the files, the receipts and the fixed parts of the world. A
  predicate is stable when it depends on nothing else; a call that only reads leaves the disk.
\<close>

definition disk ::
  "world \<Rightarrow> (string \<Rightarrow> fs_file option) \<times> (string \<Rightarrow> receipt_file option) \<times> (string \<Rightarrow> bool) \<times> string list \<times> (nat \<Rightarrow> int)"
where
  "disk w = (w_files w, w_receipts w, w_directory w, w_locks w, w_clock w)"

lemma disk_simps [simp]:
  "disk (w\<lparr>w_schedule := s\<rparr>) = disk w" "disk (w\<lparr>w_ticks := t\<rparr>) = disk w"
  by (simp_all add: disk_def)

definition stable :: "(world \<Rightarrow> bool) \<Rightarrow> bool" where
  "stable P \<longleftrightarrow> (\<forall>w w'. disk w = disk w' \<longrightarrow> P w \<longrightarrow> P w')"

definition reads_only :: "'a rec_eff \<Rightarrow> bool" where
  "reads_only m \<longleftrightarrow> (\<forall>w r w'. m w = (r, w') \<longrightarrow> disk w' = disk w)"

named_theorems reads_intros "calls that only read"

lemma reads_basic [reads_intros]:
  "reads_only (returnM x)" "reads_only (throwM e)" "reads_only (liftM r)" "reads_only (requireM b e)"
  "reads_only read_clock"
  by (simp_all add: reads_only_def returnM_run throwM_run liftM_run requireM_run read_clock_def)

lemma reads_io [reads_intros]: "(\<And>w. snd (f w) = w) \<Longrightarrow> reads_only (io f)"
proof -
  assume f: "\<And>w. snd (f w) = w"
  have "disk w' = disk w" if "io f w = (r, w')" for w r w'
  proof (cases "w_schedule w")
    case Nil
    with that have "f w = (r, w')" by (simp add: io_def)
    with f [of w] show ?thesis by simp
  next
    case (Cons a rest)
    with that f [of "w\<lparr>w_schedule := rest\<rparr>"] show ?thesis
      by (cases a; cases "f (w\<lparr>w_schedule := rest\<rparr>)") (auto simp: io_def)
  qed
  then show ?thesis unfolding reads_only_def by blast
qed

lemma reads_bind [reads_intros]: "reads_only m \<Longrightarrow> (\<And>x. reads_only (f x)) \<Longrightarrow> reads_only (bindM m f)"
  unfolding reads_only_def bindM_run by (fastforce split: prod.splits sum.splits)

lemma reads_catch [reads_intros]: "reads_only m \<Longrightarrow> (\<And>e. reads_only (h e)) \<Longrightarrow> reads_only (catchM m h)"
  unfolding reads_only_def catchM_run by (fastforce split: prod.splits sum.splits)

lemma reads_if [reads_intros]: "reads_only a \<Longrightarrow> reads_only b \<Longrightarrow> reads_only (if c then a else b)"
  by simp

lemma reads_try [reads_intros]: "reads_only m \<Longrightarrow> (\<And>e. reads_only (h e)) \<Longrightarrow> reads_only (tryM m h)"
  unfolding tryM_def by (intro reads_intros)

lemma reads_orFail [reads_intros]: "reads_only m \<Longrightarrow> reads_only (orFail m err)"
  unfolding orFail_def by (intro reads_try) (auto intro: reads_intros split: recovery_error.splits)

lemma reads_option [reads_intros]:
  "reads_only a \<Longrightarrow> (\<And>x. reads_only (b x)) \<Longrightarrow> reads_only (case v of None \<Rightarrow> a | Some x \<Rightarrow> b x)"
  by (cases v) auto

lemma reads_pair [reads_intros]: "(\<And>x y. reads_only (f x y)) \<Longrightarrow> reads_only (case p of (x, y) \<Rightarrow> f x y)"
  by (cases p) simp

lemma reads_fingerprint [reads_intros]: "reads_only (fingerprintFile x p)"
  unfolding fingerprintFile_def by (intro reads_intros) simp

lemma reads_inspect [reads_intros]: "reads_only (inspectFile x p)"
  unfolding inspectFile_def by (intro reads_intros) simp

lemma reads_lock [reads_intros]: "reads_only (assertLockHeld x p)"
  unfolding assertLockHeld_def by (intro reads_intros) simp

lemma reads_fsync [reads_intros]: "reads_only (fsyncFile x p)" "reads_only (fsyncDirectory x p)"
  unfolding fsyncFile_def fsyncDirectory_def by (intro reads_intros; simp)+

lemma reads_load [reads_intros]: "reads_only (loadRecoveryReceipt p)"
  unfolding loadRecoveryReceipt_def by (intro reads_intros) simp_all

lemma reads_now [reads_intros]: "reads_only now_text"
  unfolding now_text_def by (intro reads_intros)

lemma triple_reads:
  assumes "reads_only m" "stable P" shows "triple P m (\<lambda>_. P) P"
proof (rule tripleI)
  fix w r w' assume "P w" "m w = (r, w')"
  moreover have "disk w = disk w'" using assms(1) \<open>m w = (r, w')\<close> unfolding reads_only_def by metis
  ultimately have "P w'" using assms(2) unfolding stable_def by blast
  then show "case r of Inr x \<Rightarrow> P w' | Inl e \<Rightarrow> P w'" by (cases r) simp_all
qed

lemma triple_throw: "(\<And>w. P w \<Longrightarrow> E w) \<Longrightarrow> triple P (throwM e) Q E"
  by (simp add: triple_def throwM_run)

lemma triple_return: "(\<And>w. P w \<Longrightarrow> Q x w) \<Longrightarrow> triple P (returnM x) Q E"
  by (simp add: triple_def returnM_run)

lemma triple_require: "(b \<Longrightarrow> triple P m Q E) \<Longrightarrow> (\<And>w. P w \<Longrightarrow> E w) \<Longrightarrow> triple P (bindM (requireM b e) (\<lambda>_. m)) Q E"
  by (auto simp: triple_def bindM_run requireM_run)

lemma triple_try:
  assumes "triple P m Q E" "\<And>e. e \<noteq> Crashed \<Longrightarrow> triple E (h e) Q E"
  shows "triple P (tryM m h) Q E"
proof (rule tripleI)
  fix w r w' assume p: "P w" and t: "tryM m h w = (r, w')"
  obtain r1 w1 where m: "m w = (r1, w1)" by (cases "m w")
  note q = tripleD [OF assms(1) p m]
  show "case r of Inr x \<Rightarrow> Q x w' | Inl e \<Rightarrow> E w'"
  proof (cases r1)
    case (Inr x)
    with t m q show ?thesis by (auto simp: tryM_def catchM_run)
  next
    case (Inl e)
    show ?thesis
    proof (cases "e = Crashed")
      case True
      with t m q Inl show ?thesis by (auto simp: tryM_def catchM_run throwM_run)
    next
      case False
      with t m Inl have "h e w1 = (r, w')" by (simp add: tryM_def catchM_run)
      with tripleD [OF assms(2) [OF False]] q Inl show ?thesis by simp
    qed
  qed
qed

lemma triple_orFail: "triple P m Q E \<Longrightarrow> triple P (orFail m err) Q E"
  unfolding orFail_def
  by (rule triple_try) (auto intro: triple_throw split: recovery_error.splits)

text \<open>A call that changes the disk: before it, after it, or the change itself.\<close>

lemma triple_io:
  assumes "\<And>w. P w \<Longrightarrow> (case f w of (Inr x, w') \<Rightarrow> Q x w' | (Inl e, w') \<Rightarrow> E w')"
    and "stable P" "\<And>w. P w \<Longrightarrow> E w"
  shows "triple P (io f) Q E"
proof (rule tripleI)
  fix w r w' assume p: "P w" and r: "io f w = (r, w')"
  have p': "P (w\<lparr>w_schedule := s\<rparr>)" for s
    using p assms(2) disk_simps(1) [of s w] unfolding stable_def by metis
  show "case r of Inr x \<Rightarrow> Q x w' | Inl e \<Rightarrow> E w'"
  proof (cases "w_schedule w")
    case Nil
    with r have "f w = (r, w')" by (simp add: io_def)
    with assms(1) [OF p] show ?thesis by (cases r) simp_all
  next
    case (Cons a rest)
    note q = assms(1) [OF p' [of rest]] and e = assms(3) [OF p' [of rest]]
    show ?thesis
    proof (cases a)
      case IoOk
      with Cons r have "f (w\<lparr>w_schedule := rest\<rparr>) = (r, w')" by (simp add: io_def)
      with q show ?thesis by (cases r) simp_all
    qed (use Cons r e in \<open>auto simp: io_def\<close>)
  qed
qed

text \<open>The rules that drive a proof along a handler, one statement at a time.\<close>

lemma triple_bind_read:
  assumes "reads_only m" "stable P" "\<And>w. P w \<Longrightarrow> E w"
    and "\<And>x w w'. P w \<Longrightarrow> m w = (Inr x, w') \<Longrightarrow> triple P (f x) R E"
  shows "triple P (bindM m f) R E"
proof (rule tripleI)
  fix w r w' assume p: "P w" and b: "bindM m f w = (r, w')"
  obtain r1 w1 where m: "m w = (r1, w1)" by (cases "m w")
  have d: "disk w = disk w1" using assms(1) m unfolding reads_only_def by metis
  then have p1: "P w1" using assms(2) p unfolding stable_def by blast
  show "case r of Inr x \<Rightarrow> R x w' | Inl e \<Rightarrow> E w'"
  proof (cases r1)
    case (Inl e)
    with b m p1 assms(3) show ?thesis by (auto simp: bindM_run)
  next
    case (Inr x)
    with b m have "f x w1 = (r, w')" by (simp add: bindM_run)
    with tripleD [OF assms(4) [OF p m [unfolded Inr]] p1] show ?thesis by blast
  qed
qed

lemma triple_bind_lift:
  "(\<And>x. r = Inr x \<Longrightarrow> triple P (f x) R E) \<Longrightarrow> (\<And>w. P w \<Longrightarrow> E w) \<Longrightarrow> triple P (bindM (liftM r) f) R E"
  by (cases r) (auto simp: triple_def bindM_run liftM_run)

lemma triple_bind_require:
  "(b \<Longrightarrow> triple P (f ()) R E) \<Longrightarrow> (\<And>w. P w \<Longrightarrow> E w) \<Longrightarrow> triple P (bindM (requireM b e) f) R E"
  by (auto simp: triple_def bindM_run requireM_run)

lemma triple_lift: "(\<And>x w. r = Inr x \<Longrightarrow> P w \<Longrightarrow> Q x w) \<Longrightarrow> (\<And>w. P w \<Longrightarrow> E w) \<Longrightarrow> triple P (liftM r) Q E"
  by (cases r) (simp_all add: triple_def liftM_run)

lemma io_get:
  assumes "io (\<lambda>w. (g w, w)) w = (Inr x, w')"
  shows "disk w' = disk w \<and> (\<exists>w1. disk w1 = disk w \<and> g w1 = Inr x)"
proof (cases "w_schedule w")
  case Nil
  with assms show ?thesis by (auto simp: io_def)
next
  case (Cons a rest)
  with assms show ?thesis by (cases a) (auto simp: io_def Let_def intro!: exI [of _ "w\<lparr>w_schedule := rest\<rparr>"])
qed

lemma tryM_Inr: "tryM m h w = (Inr x, w') \<longleftrightarrow>
    m w = (Inr x, w') \<or> (\<exists>e w1. m w = (Inl e, w1) \<and> e \<noteq> Crashed \<and> h e w1 = (Inr x, w'))"
  by (auto simp: tryM_def catchM_Inr_iff throwM_run)

lemma orFail_Inr: "orFail m err w = (Inr x, w') \<longleftrightarrow> m w = (Inr x, w')"
proof -
  have "(case e of RecoveryError c n \<Rightarrow> throwM e | _ \<Rightarrow> throwM err) w1 \<noteq> (Inr x, w')" for e w1
    by (cases e) (simp_all add: throwM_run)
  then show ?thesis by (simp add: orFail_def tryM_Inr)
qed

end
