(* ===== verification/RecoverySwap.thy ===== *)
theory RecoverySwap
  imports RecoveryFiles
begin

text \<open>
  Replacing the live database by a restored candidate, rolling that back, and finding out
  after a crash what state the files are in: \<open>recovery-swap.ts\<close> and
  \<open>recovery-reconcile.ts\<close> of \<open>src/recovery/orchestration/\<close>. The commands that call them are not
  modelled. The dependencies are the default ones. Calls the source starts together
  (\<open>Promise.all\<close> of reads) are made one after the other.
\<close>

section \<open>Inputs\<close>

record swap_input =
  si_receipt :: string
  si_live :: string
  si_candidate :: string
  si_rollback :: string
  si_liveSha :: string
  si_candidateSha :: string
  si_lock :: string

record rollback_input =
  ri_receipt :: string
  ri_live :: string
  ri_rollback :: string
  ri_failed :: string
  ri_point :: string
  ri_password :: string
  ri_temp :: string
  ri_currentSha :: string
  ri_originalSha :: string
  ri_lock :: string

definition swap_input_ok :: "swap_input \<Rightarrow> bool" where
  "swap_input_ok i =
     (validPath (si_receipt i) \<and> validPath (si_live i) \<and> validPath (si_candidate i) \<and> validPath (si_rollback i)
      \<and> validPath (si_lock i) \<and> length (uniq [si_live i, si_candidate i, si_rollback i]) = 3
      \<and> dirname (si_live i) = dirname (si_candidate i) \<and> dirname (si_live i) = dirname (si_rollback i)
      \<and> hash_pattern (si_liveSha i) \<and> hash_pattern (si_candidateSha i) \<and> si_liveSha i \<noteq> si_candidateSha i)"

definition validateSwapInput :: "swap_input \<Rightarrow> recovery_error + unit" where
  "validateSwapInput i = guardE (swap_input_ok i) (RecoveryError ''recovery_swap_request_invalid'' 2)"

definition validateRollbackInput :: "rollback_input \<Rightarrow> recovery_error + unit" where
  "validateRollbackInput i = guardE
     (validPath (ri_receipt i) \<and> validPath (ri_live i) \<and> validPath (ri_rollback i) \<and> validPath (ri_failed i)
      \<and> validPath (ri_point i) \<and> validPath (ri_temp i) \<and> validPath (ri_lock i)
      \<and> length (uniq [ri_live i, ri_rollback i, ri_failed i, ri_temp i]) = 4
      \<and> list_all (\<lambda>p. dirname p = dirname (ri_live i)) [ri_rollback i, ri_failed i, ri_temp i]
      \<and> 1 \<le> length (ri_password i) \<and> length (ri_password i) \<le> 1024
      \<and> hash_pattern (ri_currentSha i) \<and> hash_pattern (ri_originalSha i) \<and> ri_currentSha i \<noteq> ri_originalSha i)
     (RecoveryError ''recovery_rollback_request_invalid'' 2)"

text \<open>\<open>requireRegular\<close>: the digest and device of a file that must be there.\<close>

definition requireRegular :: "file_info \<Rightarrow> string \<Rightarrow> recovery_error + (string \<times> int)" where
  "requireRegular v err = (case v of
      Present regular (Some sha) bytes dev \<Rightarrow>
        if regular \<and> hash_pattern sha \<and> 1 \<le> bytes then Inr (sha, dev) else Inl (RecoveryError err 11)
    | _ \<Rightarrow> Inl (RecoveryError err 11))"

definition swap_phase_error :: recovery_error where
  "swap_phase_error = RecoveryError ''recovery_receipt_phase_invalid'' 11"

section \<open>Swap\<close>

text \<open>The part after the receipt says \<open>swap_started\<close>: two renames, a sync, a check, the receipt.\<close>

definition swap_commit :: "swap_input \<Rightarrow> receipt \<Rightarrow> receipt rec_eff" where
  "swap_commit i r =
     bindM (rename (si_live i) (si_rollback i)) (\<lambda>_.
     bindM (rename (si_candidate i) (si_live i)) (\<lambda>_.
     bindM (fsyncDirectory 11 (dirname (si_live i))) (\<lambda>_.
     bindM (fingerprintFile 11 (si_live i)) (\<lambda>newLive.
     bindM (fingerprintFile 11 (si_rollback i)) (\<lambda>original.
     bindM (requireM (fst newLive = si_candidateSha i \<and> fst original = si_liveSha i)
             (RecoveryError ''recovery_swap_verification_failed'' 11)) (\<lambda>_.
     bindM now_text (\<lambda>t.
     bindM (liftM (monotonicTimestamp (r_updatedAt r) t)) (\<lambda>u.
     bindM (liftM (transitionRecoveryReceipt (receipt_js (add_check ''swap'' r)) Swapped u)) (\<lambda>swapped.
     writeRecoveryReceiptAtomic (si_receipt i) swapped)))))))))"

definition swap_prepare :: "swap_input \<Rightarrow> receipt rec_eff" where
  "swap_prepare i =
     bindM (loadRecoveryReceipt (si_receipt i)) (\<lambda>r.
     bindM (requireM (r_phase r = CandidateReady \<and> r_liveSha r = si_liveSha i) swap_phase_error) (\<lambda>_.
     bindM (assertLockHeld 11 (si_lock i)) (\<lambda>_.
     bindM (inspectFile 11 (si_live i)) (\<lambda>live0.
     bindM (inspectFile 11 (si_candidate i)) (\<lambda>candidate0.
     bindM (inspectFile 11 (si_rollback i)) (\<lambda>rollback.
     bindM (liftM (requireRegular live0 ''recovery_live_database_invalid'')) (\<lambda>live.
     bindM (liftM (requireRegular candidate0 ''recovery_candidate_invalid'')) (\<lambda>candidate.
     bindM (requireM (rollback = Absent) (RecoveryError ''recovery_rollback_exists'' 11)) (\<lambda>_.
     bindM (requireM (snd live = snd candidate \<and> fst live = si_liveSha i \<and> fst candidate = si_candidateSha i)
             (RecoveryError ''recovery_swap_binding_invalid'' 11)) (\<lambda>_.
     bindM (fsyncFile 11 (si_candidate i)) (\<lambda>_.
     bindM now_text (\<lambda>t.
     bindM (liftM (monotonicTimestamp (r_updatedAt r) t)) (\<lambda>u.
     liftM (transitionRecoveryReceipt (receipt_js r) SwapStarted u))))))))))))))"

definition swapRecoveryCandidate :: "swap_input \<Rightarrow> receipt rec_eff" where
  "swapRecoveryCandidate i =
     bindM (liftM (validateSwapInput i)) (\<lambda>_.
     bindM (orFail (bindM (swap_prepare i) (\<lambda>started. writeRecoveryReceiptAtomic (si_receipt i) started))
             (RecoveryError ''recovery_swap_failed'' 11)) (\<lambda>r.
     orFail (swap_commit i r) (RecoveryError ''recovery_swap_incomplete'' 11)))"

section \<open>Rollback\<close>

definition rollbackPhases :: "phase list" where
  "rollbackPhases = [SwapStarted, Swapped, RecoveryFailed, PostCompleteFailed]"

text \<open>
  Decrypting the recovery point into a temporary file is the recovery point component's work;
  here it is a call that puts a file there, given by the parameter \<open>materialize\<close> (the file it
  produces for a source and a password, or nothing when the decryption fails).
\<close>

type_synonym materializer = "string \<Rightarrow> string \<Rightarrow> fs_file option"

definition materializeRecoveryPoint :: "materializer \<Rightarrow> string \<Rightarrow> string \<Rightarrow> string \<Rightarrow> (string \<times> int) rec_eff" where
  "materializeRecoveryPoint materialize source destination password =
     io (\<lambda>w. case materialize source password of
          None \<Rightarrow> (Inl (RecoveryError ''recovery_point_decryption_failed'' 11), w)
        | Some f \<Rightarrow> (Inr (f_sha f, f_bytes f), w\<lparr>w_files := (w_files w)(destination := Some f)\<rparr>))"

definition binding_error :: recovery_error where
  "binding_error = RecoveryError ''recovery_rollback_binding_invalid'' 11"

text \<open>
  The handler keeps three flags: the file to restore from, whether a temporary copy is there, and
  how far the renames got. They are threaded through as the progress a failure leaves.
\<close>

datatype progress = NotStarted | Materialized | Started bool | FirstRenamed bool | Restored

definition best_effort :: "unit rec_eff \<Rightarrow> unit rec_eff" where
  "best_effort m = tryM m (\<lambda>_. returnM ())"

definition inspect_or_absent :: "string \<Rightarrow> file_info rec_eff" where
  "inspect_or_absent p = tryM (inspectFile 11 p) (\<lambda>_. returnM Absent)"

definition rollback_cleanup :: "rollback_input \<Rightarrow> progress \<Rightarrow> unit rec_eff" where
  "rollback_cleanup i pr =
     bindM (if pr \<in> {FirstRenamed False, FirstRenamed True, Restored} then
        bindM (inspect_or_absent (ri_live i)) (\<lambda>current.
        bindM (inspect_or_absent (ri_failed i)) (\<lambda>failed.
        if current = Absent \<and> failed \<noteq> Absent then
          bindM (best_effort (rename (ri_failed i) (ri_live i))) (\<lambda>_.
          best_effort (fsyncDirectory 11 (dirname (ri_live i))))
        else returnM ()))
      else returnM ()) (\<lambda>_.
     if pr \<in> {Materialized, Started True, FirstRenamed True}
     then best_effort (remove_file (ri_temp i)) else returnM ())"

definition rollback_error :: "progress \<Rightarrow> recovery_error \<Rightarrow> recovery_error" where
  "rollback_error pr e = (case e of
      RecoveryError c n \<Rightarrow> e
    | _ \<Rightarrow> if pr \<in> {NotStarted, Materialized} then RecoveryError ''recovery_rollback_failed'' 11
          else RecoveryError ''recovery_rollback_incomplete'' 11)"

text \<open>\<open>step_at i pr m\<close>: \<open>m\<close> inside the handler's try block, when the progress is \<open>pr\<close>.\<close>

definition step_at :: "rollback_input \<Rightarrow> progress \<Rightarrow> 'a rec_eff \<Rightarrow> 'a rec_eff" where
  "step_at i pr m = tryM m (\<lambda>e. bindM (rollback_cleanup i pr) (\<lambda>_. throwM (rollback_error pr e)))"

definition rollback_checks :: "rollback_input \<Rightarrow> (receipt \<times> file_info \<times> string \<times> int) rec_eff" where
  "rollback_checks i =
     bindM (loadRecoveryReceipt (ri_receipt i)) (\<lambda>r.
     bindM (requireM (r_phase r \<in> set rollbackPhases \<and> r_liveSha r = ri_originalSha i) swap_phase_error) (\<lambda>_.
     bindM (assertLockHeld 11 (ri_lock i)) (\<lambda>_.
     bindM (inspectFile 11 (ri_live i)) (\<lambda>live0.
     bindM (inspectFile 11 (ri_rollback i)) (\<lambda>retained.
     bindM (inspectFile 11 (ri_failed i)) (\<lambda>failed.
     bindM (inspectFile 11 (ri_temp i)) (\<lambda>recoveryTemp.
     bindM (liftM (requireRegular live0 ''recovery_live_database_invalid'')) (\<lambda>(sha, dev).
     bindM (requireM (sha = ri_currentSha i) binding_error) (\<lambda>_.
     bindM (requireM (failed = Absent \<and> recoveryTemp = Absent)
             (RecoveryError ''recovery_rollback_destination_exists'' 11)) (\<lambda>_.
     returnM (r, retained, sha, dev)))))))))))"

definition check_source :: "rollback_input \<Rightarrow> file_info \<Rightarrow> int \<Rightarrow> unit rec_eff" where
  "check_source i v dev =
     bindM (liftM (requireRegular v ''recovery_rollback_source_invalid'')) (\<lambda>(sha, d).
     requireM (sha = ri_originalSha i \<and> d = dev) binding_error)"

definition rollback_begin :: "rollback_input \<Rightarrow> receipt \<Rightarrow> string \<Rightarrow> receipt rec_eff" where
  "rollback_begin i r source =
     bindM (fsyncFile 11 source) (\<lambda>_.
     bindM now_text (\<lambda>t.
     bindM (liftM (monotonicTimestamp (r_updatedAt r) t)) (\<lambda>u.
     bindM (liftM (transitionRecoveryReceipt (receipt_js r) RollbackStarted u)) (\<lambda>started.
     writeRecoveryReceiptAtomic (ri_receipt i) started))))"

definition rollback_finish :: "rollback_input \<Rightarrow> receipt \<Rightarrow> receipt rec_eff" where
  "rollback_finish i r =
     bindM (fsyncDirectory 11 (dirname (ri_live i))) (\<lambda>_.
     bindM (fingerprintFile 11 (ri_live i)) (\<lambda>restored.
     bindM (fingerprintFile 11 (ri_failed i)) (\<lambda>failedDatabase.
     bindM (requireM (fst restored = ri_originalSha i \<and> fst failedDatabase = ri_currentSha i)
             (RecoveryError ''recovery_rollback_verification_failed'' 11)) (\<lambda>_.
     bindM now_text (\<lambda>t.
     bindM (liftM (monotonicTimestamp (r_updatedAt r) t)) (\<lambda>u.
     bindM (liftM (transitionRecoveryReceipt (receipt_js (add_check ''rollback'' r)) RolledBack u)) (\<lambda>rolledBack.
     writeRecoveryReceiptAtomic (ri_receipt i) rolledBack)))))))"

definition rollbackRecoverySwap :: "materializer \<Rightarrow> rollback_input \<Rightarrow> receipt rec_eff" where
  "rollbackRecoverySwap materialize i =
     bindM (liftM (validateRollbackInput i)) (\<lambda>_.
     bindM (step_at i NotStarted (rollback_checks i)) (\<lambda>(r, retained, sha, dev).
     bindM (if retained \<noteq> Absent
            then step_at i NotStarted (bindM (check_source i retained dev) (\<lambda>_. returnM (ri_rollback i, False)))
            else bindM (step_at i NotStarted
                   (materializeRecoveryPoint materialize (ri_point i) (ri_temp i) (ri_password i))) (\<lambda>(psha, pbytes).
                 step_at i Materialized
                   (bindM (requireM (psha = ri_originalSha i \<and> 1 \<le> pbytes)
                            (RecoveryError ''recovery_rollback_source_invalid'' 11)) (\<lambda>_.
                    bindM (inspectFile 11 (ri_temp i)) (\<lambda>v.
                    bindM (check_source i v dev) (\<lambda>_. returnM (ri_temp i, True))))))) (\<lambda>(source, mat).
     bindM (step_at i (if mat then Materialized else NotStarted) (rollback_begin i r source)) (\<lambda>started.
     bindM (step_at i (Started mat) (rename (ri_live i) (ri_failed i))) (\<lambda>_.
     bindM (step_at i (FirstRenamed mat) (rename source (ri_live i))) (\<lambda>_.
     step_at i Restored (rollback_finish i started)))))))"

section \<open>Reconciliation\<close>

datatype reconcile_action = ReadyToSwap | FinishSwap | RestoreOriginal | ContinueVerification

definition allowedPhases :: "phase list" where
  "allowedPhases = [CandidateReady, SwapStarted, Swapped]"

definition validFile :: "file_info \<Rightarrow> bool" where
  "validFile v = (case v of
      Absent \<Rightarrow> True
    | Present regular sha bytes dev \<Rightarrow>
        regular \<and> (case sha of None \<Rightarrow> True | Some h \<Rightarrow> hash_pattern h)
        \<and> safe_integer (Num bytes) \<and> 0 \<le> bytes \<and> safe_integer (Num dev) \<and> 0 \<le> dev)"

definition isHash :: "file_info \<Rightarrow> string \<Rightarrow> bool" where
  "isHash v h = (case v of Absent \<Rightarrow> False | Present regular sha bytes dev \<Rightarrow> regular \<and> sha = Some h)"

definition ambiguous :: recovery_error where
  "ambiguous = RecoveryError ''recovery_filesystem_ambiguous'' 10"

definition classifyRecoveryFilesystem ::
  "phase \<Rightarrow> file_info \<Rightarrow> file_info \<Rightarrow> file_info \<Rightarrow> string \<Rightarrow> string \<Rightarrow> recovery_error + reconcile_action" where
  "classifyRecoveryFilesystem p live candidate rollback original new =
     (if p \<notin> set allowedPhases \<or> \<not> hash_pattern original \<or> \<not> hash_pattern new \<or> original = new
         \<or> \<not> validFile live \<or> \<not> validFile candidate \<or> \<not> validFile rollback then Inl ambiguous
      else if (p = CandidateReady \<or> p = SwapStarted)
         \<and> isHash live original \<and> isHash candidate new \<and> rollback = Absent then Inr ReadyToSwap
      else if p = SwapStarted \<and> live = Absent \<and> isHash candidate new \<and> isHash rollback original then Inr FinishSwap
      else if p = SwapStarted \<and> live = Absent \<and> candidate = Absent \<and> isHash rollback original then Inr RestoreOriginal
      else if (p = SwapStarted \<or> p = Swapped)
         \<and> isHash live new \<and> candidate = Absent \<and> isHash rollback original then Inr ContinueVerification
      else Inl ambiguous)"

text \<open>The input of a reconciliation has the fields of a swap's input.\<close>

definition record_swapped :: "swap_input \<Rightarrow> receipt \<Rightarrow> (reconcile_action \<times> receipt) rec_eff" where
  "record_swapped i r =
     bindM now_text (\<lambda>t.
     bindM (liftM (transitionRecoveryReceipt (receipt_js (add_check ''swap'' r)) Swapped t)) (\<lambda>swapped.
     bindM (writeRecoveryReceiptAtomic (si_receipt i) swapped) (\<lambda>written.
     returnM (ContinueVerification, written))))"

definition check_swapped :: "swap_input \<Rightarrow> unit rec_eff" where
  "check_swapped i =
     bindM (fingerprintFile 10 (si_live i)) (\<lambda>newLive.
     bindM (fingerprintFile 10 (si_rollback i)) (\<lambda>original.
     requireM (fst newLive = si_candidateSha i \<and> fst original = si_liveSha i) ambiguous))"

definition finish_swap :: "swap_input \<Rightarrow> receipt \<Rightarrow> (reconcile_action \<times> receipt) rec_eff" where
  "finish_swap i r =
     bindM (rename (si_candidate i) (si_live i)) (\<lambda>_.
     bindM (fsyncDirectory 10 (dirname (si_live i))) (\<lambda>_.
     bindM (check_swapped i) (\<lambda>_. record_swapped i r)))"

definition restore_original :: "swap_input \<Rightarrow> receipt \<Rightarrow> (reconcile_action \<times> receipt) rec_eff" where
  "restore_original i r =
     bindM (rename (si_rollback i) (si_live i)) (\<lambda>_.
     bindM (fsyncDirectory 10 (dirname (si_live i))) (\<lambda>_.
     bindM (fingerprintFile 10 (si_live i)) (\<lambda>restored.
     bindM (requireM (fst restored = si_liveSha i) ambiguous) (\<lambda>_.
     bindM now_text (\<lambda>t.
     bindM (liftM (transitionRecoveryReceipt (receipt_js r) RecoveryFailed t)) (\<lambda>failed.
     bindM (writeRecoveryReceiptAtomic (si_receipt i) failed) (\<lambda>written.
     returnM (RestoreOriginal, written))))))))"

definition continue_verification :: "swap_input \<Rightarrow> receipt \<Rightarrow> (reconcile_action \<times> receipt) rec_eff" where
  "continue_verification i r =
     bindM (check_swapped i) (\<lambda>_.
     if r_phase r = Swapped then returnM (ContinueVerification, r) else record_swapped i r)"

fun take_action :: "swap_input \<Rightarrow> receipt \<Rightarrow> reconcile_action \<Rightarrow> (reconcile_action \<times> receipt) rec_eff" where
  "take_action i r ReadyToSwap = returnM (ReadyToSwap, r)"
| "take_action i r FinishSwap = finish_swap i r"
| "take_action i r RestoreOriginal = restore_original i r"
| "take_action i r ContinueVerification = continue_verification i r"

definition reconcile_body :: "swap_input \<Rightarrow> (reconcile_action \<times> receipt) rec_eff" where
  "reconcile_body i =
     bindM (loadRecoveryReceipt (si_receipt i)) (\<lambda>r.
     bindM (requireM (r_phase r \<in> set allowedPhases \<and> r_liveSha r = si_liveSha i)
             (RecoveryError ''recovery_receipt_phase_invalid'' 10)) (\<lambda>_.
     bindM (assertLockHeld 10 (si_lock i)) (\<lambda>_.
     bindM (inspectFile 10 (si_live i)) (\<lambda>live.
     bindM (inspectFile 10 (si_candidate i)) (\<lambda>candidate.
     bindM (inspectFile 10 (si_rollback i)) (\<lambda>rollback.
     bindM (liftM (classifyRecoveryFilesystem (r_phase r) live candidate rollback (si_liveSha i) (si_candidateSha i)))
       (take_action i r)))))))"

definition reconcileRecoveryReceipt :: "swap_input \<Rightarrow> (reconcile_action \<times> receipt) rec_eff" where
  "reconcileRecoveryReceipt i =
     bindM (requireM (swap_input_ok i) (RecoveryError ''recovery_reconcile_request_invalid'' 10)) (\<lambda>_.
     orFail (reconcile_body i) (RecoveryError ''recovery_reconcile_failed'' 10))"

end
