(* ===== verification/RecoveryCrash.thy ===== *)
theory RecoveryCrash
  imports RecoverySwap
begin

text \<open>
  What a crash at any point of a swap leaves behind: the files and the receipt are always in one of
  the stages of \<open>swap_stage\<close>. The proof goes along the handler with the triples of
  \<open>RecoveryFiles\<close>; \<open>triple_swap\<close> is its result, used by \<open>RecoveryRestart\<close>.
\<close>

section \<open>Receipts on disk\<close>

definition stored :: "string \<Rightarrow> receipt \<Rightarrow> world \<Rightarrow> bool" where
  "stored p r w = (receipt_wf r \<and> (case w_receipts w p of
      None \<Rightarrow> False
    | Some f \<Rightarrow> rf_regular f \<and> rf_private f \<and> rf_canonical f \<and> rf_contents f = receipt_contents r))"

lemma parse_own_contents:
  assumes "receipt_wf r" "parse_receipt_contents now (receipt_contents r) = Inr r'"
  shows "r' = r"
proof -
  have "json_plain (canon (receipt_js r))"
    using assms(1) by (intro canon_plain receipt_js_plain) (simp add: receipt_wf_def)
  then have j: "json_parse (canonicalJson (receipt_js r)) = Some (canon (receipt_js r))"
    unfolding canonicalJson_def by (rule json_parse_print)
  from assms(2) j have "validateRecoveryReceipt now (canon (receipt_js r)) = Inr r'"
    by (auto simp: parse_receipt_contents_def receipt_contents_def split: if_splits)
  then show ?thesis
    using assms(1) by (simp add: validateRecoveryReceipt_def decode_canon_receipt decode_receipt_js split: if_splits)
qed

lemma disk_parts:
  assumes "disk w = disk w'"
  shows "w_receipts w = w_receipts w'" "w_files w = w_files w'" "w_directory w = w_directory w'"
    "w_locks w = w_locks w'" "w_clock w = w_clock w'"
  using assms unfolding disk_def prod.inject by - (elim conjE, assumption)+

lemmas disk_receipts = disk_parts(1) and disk_files = disk_parts(2)

lemma stored_disk: assumes "disk w = disk w'" shows "stored p r w = stored p r w'"
  unfolding stored_def disk_receipts [OF assms] ..

lemma triple_load:
  assumes "stable P" "\<And>w. P w \<Longrightarrow> stored p r w"
  shows "triple P (loadRecoveryReceipt p) (\<lambda>v w. v = r \<and> P w) P"
  unfolding loadRecoveryReceipt_def
proof (rule triple_bind_require, rule triple_orFail, rule triple_bind_read [OF reads_io assms(1)])
  fix f
  show "triple P (bindM (requireM (rf_regular f) receipt_invalid) (\<lambda>_.
       bindM (requireM (rf_private f) (RecoveryError ''recovery_receipt_permissions_invalid'' 7)) (\<lambda>_.
       bindM (requireM (rf_canonical f) receipt_invalid) (\<lambda>_.
       bindM (io (\<lambda>w. (case w_receipts w p of None \<Rightarrow> Inl IoError | Some g \<Rightarrow> Inr (rf_contents g), w))) (\<lambda>contents.
       bindM read_clock (\<lambda>now.
       liftM (parse_receipt_contents now contents)))))))
     (\<lambda>v w. v = r \<and> P w) P"
  proof (rule triple_bind_require, rule triple_bind_require, rule triple_bind_require,
      rule triple_bind_read [OF reads_io assms(1)])
    fix contents w w'
    assume "P w" and io: "io (\<lambda>w. (case w_receipts w p of None \<Rightarrow> Inl IoError | Some g \<Rightarrow> Inr (rf_contents g), w)) w
        = (Inr contents, w')"
    then have st: "stored p r w" using assms(2) by blast
    from io_get [OF io] obtain w1 where "disk w1 = disk w"
        "(case w_receipts w1 p of None \<Rightarrow> Inl IoError | Some g \<Rightarrow> Inr (rf_contents g)) = Inr contents" by blast
    then have c: "contents = receipt_contents r" and wf: "receipt_wf r"
      using st disk_receipts [of w1 w] by (auto simp: stored_def split: option.splits)
    show "triple P (bindM read_clock (\<lambda>now. liftM (parse_receipt_contents now contents))) (\<lambda>v w. v = r \<and> P w) P"
      by (rule triple_bind_read [OF reads_basic(5) assms(1)], assumption, rule triple_lift)
        (auto simp: c intro: parse_own_contents [OF wf])
  qed simp_all
qed simp_all

text \<open>A write leaves the old receipt or the new one, and the new one when it succeeds.\<close>

definition put_receipt :: "string \<Rightarrow> receipt \<Rightarrow> world \<Rightarrow> world" where
  "put_receipt p r w = w\<lparr>w_receipts := (w_receipts w)(p := Some
     \<lparr>rf_regular = True, rf_private = True,
      rf_canonical = (case w_receipts w p of None \<Rightarrow> True | Some f \<Rightarrow> rf_canonical f),
      rf_contents = receipt_contents r\<rparr>)\<rparr>"

lemma put_stored: "stored p r0 w \<Longrightarrow> receipt_wf r \<Longrightarrow> stored p r (put_receipt p r w)"
  by (auto simp: stored_def put_receipt_def split: option.splits)

lemma put_files [simp]: "w_files (put_receipt p r w) = w_files w"
  by (simp add: put_receipt_def)

lemma stable_stored: "stable (stored p r)"
  unfolding stable_def using stored_disk by blast

lemma validate_own: "receipt_wf r \<Longrightarrow> validateRecoveryReceipt now (receipt_js r) = Inr v \<Longrightarrow> v = r"
  by (simp add: validateRecoveryReceipt_def decode_receipt_js split: if_splits)

definition clock_le :: "int \<Rightarrow> world \<Rightarrow> bool" where
  "clock_le T w = (T \<le> max_safe \<and> (\<forall>k. w_clock w k \<le> T))"

lemma clock_le_disk: assumes "disk w = disk w'" shows "clock_le T w = clock_le T w'"
  unfolding clock_le_def disk_parts(5) [OF assms] ..

lemma stable_clock: "stable (clock_le T)"
  unfolding stable_def using clock_le_disk by blast

lemma stable_conj: "stable P \<Longrightarrow> stable Q \<Longrightarrow> stable (\<lambda>w. P w \<and> Q w)"
  unfolding stable_def by blast

lemma put_clock [simp]: "clock_le T (put_receipt p r w) = clock_le T w"
  by (simp add: put_receipt_def clock_le_def)

lemma triple_write:
  assumes "receipt_wf r" "stable P" "stable Q" "\<And>w. P w \<Longrightarrow> clock_le T w"
    and "\<And>w. P w \<Longrightarrow> valid_receipt T r \<Longrightarrow> Q (put_receipt p r w)"
  shows "triple P (writeRecoveryReceiptAtomic p r) (\<lambda>v w. v = r \<and> Q w) (\<lambda>w. P w \<or> Q w)"
proof -
  have put: "triple P (io (\<lambda>w. (Inr (), put_receipt p v w))) (\<lambda>_. Q) (\<lambda>w. P w \<or> Q w)" if "v = r" "valid_receipt T r" for v
    by (rule triple_io) (simp_all add: assms that)
  have last: "triple Q (bindM (io (\<lambda>w. (Inr (), w))) (\<lambda>_. returnM v)) (\<lambda>v w. v = r \<and> Q w) (\<lambda>w. P w \<or> Q w)" if "v = r" for v
    by (rule triple_bind_read [OF reads_io assms(3)]) (auto intro: triple_return that)
  have valid: "v = r \<and> valid_receipt T r"
    if "P w" "read_clock w = (Inr now, w')" "validateRecoveryReceipt now (receipt_js r) = Inr v" for w w' now v
  proof -
    have "now \<le> T" "T \<le> max_safe"
      using assms(4) [OF that(1)] that(2) by (auto simp: read_clock_def clock_le_def)
    with validate_Inr [OF that(3)] validate_own [OF assms(1) that(3)] show ?thesis
      by (auto intro: valid_receipt_later)
  qed
  show ?thesis
    unfolding writeRecoveryReceiptAtomic_def put_receipt_def [symmetric]
    apply (rule triple_bind_read [OF reads_basic(5) assms(2)], simp)
    apply (rule triple_bind_lift)
     apply (drule (2) valid, elim conjE)
     apply (rule triple_bind_require)
      apply (rule triple_orFail)
      apply (rule triple_bind_read [OF reads_io assms(2)], simp, simp)
      apply (rule triple_bind_require)
       apply (rule triple_bind_read [OF reads_io assms(2)], simp, simp)
       apply (rule triple_bind_require)
        apply (rule triple_bind_require)
         apply (rule triple_bind_read [OF reads_io assms(2)], simp, simp)
         apply (rule triple_bind [OF put last]; assumption)
        apply simp_all
    done
qed

section \<open>The stages of a swap\<close>

datatype layout = Untouched | Moved | Replaced

text \<open>What is at the live, the candidate and the rollback path.\<close>

fun layout_files :: "fs_file \<Rightarrow> fs_file \<Rightarrow> layout \<Rightarrow> fs_file option \<times> fs_file option \<times> fs_file option" where
  "layout_files original new Untouched = (Some original, Some new, None)"
| "layout_files original new Moved = (None, Some new, Some original)"
| "layout_files original new Replaced = (Some new, None, Some original)"

definition laid_out :: "swap_input \<Rightarrow> fs_file \<Rightarrow> fs_file \<Rightarrow> layout \<Rightarrow> world \<Rightarrow> bool" where
  "laid_out i original new l w =
     ((w_files w (si_live i), w_files w (si_candidate i), w_files w (si_rollback i)) = layout_files original new l)"

definition at_stage :: "swap_input \<Rightarrow> int \<Rightarrow> receipt \<Rightarrow> fs_file \<Rightarrow> fs_file \<Rightarrow> layout \<Rightarrow> world \<Rightarrow> bool" where
  "at_stage i T r original new l w =
     (stored (si_receipt i) r w \<and> valid_receipt T r \<and> laid_out i original new l w)"

inductive swap_stage :: "phase \<Rightarrow> layout \<Rightarrow> bool" where
  "swap_stage CandidateReady Untouched"
| "swap_stage SwapStarted l"
| "swap_stage Swapped Replaced"

inductive_simps swap_stage_iff: "swap_stage p l"

definition swap_state :: "swap_input \<Rightarrow> int \<Rightarrow> receipt \<Rightarrow> fs_file \<Rightarrow> fs_file \<Rightarrow> world \<Rightarrow> bool" where
  "swap_state i T r0 original new w \<longleftrightarrow>
     (\<exists>r l. at_stage i T r original new l w \<and> same_operation r0 r \<and> r_binding r = r_binding r0
        \<and> swap_stage (r_phase r) l)"

lemma stable_at: "stable (at_stage i T r original new l)"
  unfolding stable_def at_stage_def laid_out_def using stored_disk disk_files by metis

lemma stable_both: "stable (\<lambda>w. at_stage i T r original new l w \<and> clock_le T w)"
  by (intro stable_conj stable_at stable_clock)

lemma same_operation_refl [simp]: "same_operation r r"
  by (simp add: same_operation_def)

lemma same_operation_simps:
  assumes "same_operation r0 r"
  shows "r_liveSha r = r_liveSha r0" "same_operation r0 (r\<lparr>r_phase := p, r_updatedAt := t\<rparr>)"
    "same_operation r0 (with_check c r)"
  using assms by (cases r0; cases r; simp add: same_operation_def with_check_def)+

lemma swap_input_paths:
  assumes "swap_input_ok i"
  shows "si_live i \<noteq> si_candidate i" "si_live i \<noteq> si_rollback i" "si_candidate i \<noteq> si_rollback i"
    "validPath (si_receipt i)" "hash_pattern (si_liveSha i)" "hash_pattern (si_candidateSha i)" "si_liveSha i \<noteq> si_candidateSha i"
  using assms length_uniq_eq_iff [of "[si_live i, si_candidate i, si_rollback i]"]
  by (auto simp: swap_input_ok_def)

text \<open>The two renames.\<close>

lemma laid_files:
  "w_files w' = w_files w \<Longrightarrow> laid_out i original new l w' = laid_out i original new l w"
  by (simp add: laid_out_def)

lemma stored_files: "stored p r (w\<lparr>w_files := f\<rparr>) = stored p r w" "clock_le T (w\<lparr>w_files := f\<rparr>) = clock_le T w"
  by (simp_all add: stored_def clock_le_def)

lemma at_put:
  "at_stage i T r original new l w \<Longrightarrow> valid_receipt T r' \<Longrightarrow> at_stage i T r' original new l (put_receipt (si_receipt i) r' w)"
  by (auto simp: at_stage_def laid_out_def put_stored valid_receipt_def)

lemma triple_move_live:
  assumes "swap_input_ok i"
  shows "triple (\<lambda>w. at_stage i T r original new Untouched w \<and> clock_le T w) (rename (si_live i) (si_rollback i))
    (\<lambda>_ w. at_stage i T r original new Moved w \<and> clock_le T w)
    (\<lambda>w. at_stage i T r original new Untouched w \<and> clock_le T w)"
  unfolding rename_def
  by (rule triple_io [OF _ stable_both])
    (use swap_input_paths [OF assms] in \<open>auto simp: at_stage_def laid_out_def stored_files split: option.splits\<close>)

lemma triple_move_candidate:
  assumes "swap_input_ok i"
  shows "triple (\<lambda>w. at_stage i T r original new Moved w \<and> clock_le T w) (rename (si_candidate i) (si_live i))
    (\<lambda>_ w. at_stage i T r original new Replaced w \<and> clock_le T w)
    (\<lambda>w. at_stage i T r original new Moved w \<and> clock_le T w)"
  unfolding rename_def
  by (rule triple_io [OF _ stable_both])
    (use swap_input_paths [OF assms] in \<open>auto simp: at_stage_def laid_out_def stored_files split: option.splits\<close>)


lemma triple_pure: "(b \<Longrightarrow> triple P m Q E) \<Longrightarrow> triple (\<lambda>w. b \<and> P w) m Q E"
  by (auto simp: triple_def)

lemma own_transition:
  assumes "receipt_wf r" "transitionRecoveryReceipt (receipt_js r) p t = Inr r'"
  shows "r' = r\<lparr>r_phase := p, r_updatedAt := t\<rparr>" "receipt_wf r'"
proof -
  obtain now r0 where "validateRecoveryReceipt now (receipt_js r) = Inr r0"
    "r' = r0\<lparr>r_phase := p, r_updatedAt := t\<rparr>" "valid_receipt now r'"
    by (rule transition_Inr [OF assms(2)])
  then show "r' = r\<lparr>r_phase := p, r_updatedAt := t\<rparr>" "receipt_wf r'"
    using validate_own [OF assms(1)] by (auto simp: valid_receipt_def)
qed

lemma checked_transition:
  assumes "receipt_wf r" "c \<in> set check_order" "transitionRecoveryReceipt (receipt_js (add_check c r)) p t = Inr r'"
  shows "r' = (with_check c r)\<lparr>r_phase := p, r_updatedAt := t\<rparr>" "receipt_wf r'"
proof -
  have w: "receipt_wf (with_check c r)"
    using decode_add_check [OF assms(1,2)] by (rule decode_receipt_wf)
  from own_transition [OF w] assms(3)
  show "r' = (with_check c r)\<lparr>r_phase := p, r_updatedAt := t\<rparr>" "receipt_wf r'"
    by (simp_all add: transition_add_check [OF assms(1,2)])
qed

lemma swap_check [simp]: "''swap'' \<in> set check_order"
  by (simp add: check_order_def)

definition started :: "receipt \<Rightarrow> receipt \<Rightarrow> bool" where
  "started r r' \<longleftrightarrow> receipt_wf r' \<and> (\<exists>t. r' = r\<lparr>r_phase := SwapStarted, r_updatedAt := t\<rparr>)"

definition swapped :: "receipt \<Rightarrow> receipt \<Rightarrow> bool" where
  "swapped r r' \<longleftrightarrow> receipt_wf r' \<and> (\<exists>t. r' = (with_check ''swap'' r)\<lparr>r_phase := Swapped, r_updatedAt := t\<rparr>)"

lemmas triple_step = triple_bind_require [rotated] triple_bind_lift [rotated]

lemma triple_prepare:
  fixes i T original new
  assumes "receipt_wf r"
  defines "P \<equiv> \<lambda>w. at_stage i T r original new Untouched w \<and> clock_le T w"
  shows "triple P (swap_prepare i) (\<lambda>r' w. (started r r' \<and> r_phase r = CandidateReady) \<and> P w) P"
proof -
  have st: "stable P" unfolding P_def by (rule stable_both)
  have load: "triple P (loadRecoveryReceipt (si_receipt i)) (\<lambda>v w. v = r \<and> P w) P"
    by (rule triple_load [OF st]) (simp add: P_def at_stage_def)
  show ?thesis
    unfolding swap_prepare_def
    apply (rule triple_bind [OF load], rule triple_pure)
    apply ((rule triple_step | rule triple_bind_read [OF _ st], rule reads_intros), assumption)+
     apply (rule triple_lift)
    using own_transition [OF assms(1)] apply (auto simp: started_def)
    done
qed


lemma swap_stateI:
  "at_stage i T r original new l w \<Longrightarrow> same_operation r0 r \<Longrightarrow> r_binding r = r_binding r0 \<Longrightarrow> swap_stage (r_phase r) l
     \<Longrightarrow> swap_state i T r0 original new w"
  unfolding swap_state_def by blast

lemma started_state:
  assumes "started r0 r" shows "same_operation r0 r" "r_binding r = r_binding r0" "r_phase r = SwapStarted" "receipt_wf r"
  using assms by (auto simp: started_def intro: same_operation_simps)

lemma swapped_state:
  assumes "started r0 r" "swapped r r'"
  shows "same_operation r0 r'" "r_binding r' = r_binding r0" "r_phase r' = Swapped"
  using assms started_state [OF assms(1)] by (auto simp: swapped_def intro!: same_operation_simps)

definition complete :: "swap_input \<Rightarrow> int \<Rightarrow> receipt \<Rightarrow> fs_file \<Rightarrow> fs_file \<Rightarrow> receipt \<Rightarrow> world \<Rightarrow> bool" where
  "complete i T r0 original new r w = (at_stage i T r original new Replaced w \<and> same_operation r0 r
     \<and> r_binding r = r_binding r0 \<and> r_phase r = Swapped)"

lemma complete_state: "complete i T r0 original new r w \<Longrightarrow> swap_state i T r0 original new w"
  by (auto simp: complete_def swap_stage_iff intro: swap_stateI)

lemma triple_commit:
  assumes "swap_input_ok i" "started r0 r"
  shows "triple (\<lambda>w. at_stage i T r original new Untouched w \<and> clock_le T w) (swap_commit i r)
    (\<lambda>r' w. complete i T r0 original new r' w) (swap_state i T r0 original new)"
proof -
  let ?P = "\<lambda>l w. at_stage i T r original new l w \<and> clock_le T w"
  note st = started_state [OF assms(2)]
  have state: "swap_state i T r0 original new w" if "?P l w" for l w
    using that st by (auto simp: swap_stage_iff intro: swap_stateI)
  have put: "triple (?P Replaced) (writeRecoveryReceiptAtomic (si_receipt i) r')
      (\<lambda>v w. complete i T r0 original new v w) (swap_state i T r0 original new)" if "swapped r r'" for r'
    by (rule triple_weaken [OF triple_write [where T = T and P = "?P Replaced" and Q = "at_stage i T r' original new Replaced"]])
      (use that swapped_state [OF assms(2) that] in \<open>auto simp: swapped_def complete_def swap_stage_iff
        intro: at_put state swap_stateI stable_both stable_at\<close>)
  show ?thesis
    unfolding swap_commit_def
    apply (rule triple_bind [OF triple_weaken [OF triple_move_live [OF assms(1)]]], assumption, assumption, erule state)
    apply (rule triple_bind [OF triple_weaken [OF triple_move_candidate [OF assms(1)]]], assumption, assumption, erule state)
    apply ((rule triple_step [OF state] | rule triple_bind_read [OF _ stable_both state], rule reads_intros), assumption)+
    apply (rule put)
    using checked_transition [OF st(4) swap_check] apply (auto simp: swapped_def)
    done
qed

lemma triple_swap:
  assumes "receipt_wf r0"
  shows "triple (\<lambda>w. at_stage i T r0 original new Untouched w \<and> clock_le T w) (swapRecoveryCandidate i)
    (\<lambda>r w. complete i T r0 original new r w)
    (\<lambda>w. at_stage i T r0 original new Untouched w \<or> swap_state i T r0 original new w)"
proof -
  let ?P = "\<lambda>l w. at_stage i T r0 original new l w \<and> clock_le T w"
  have first: "triple (?P Untouched) (bindM (swap_prepare i) (\<lambda>started. writeRecoveryReceiptAtomic (si_receipt i) started))
      (\<lambda>r w. started r0 r \<and> at_stage i T r original new Untouched w \<and> clock_le T w)
      (\<lambda>w. at_stage i T r0 original new Untouched w \<or> swap_state i T r0 original new w)"
  proof (rule triple_bind [OF triple_weaken [OF triple_prepare [OF assms]]], assumption, assumption)
    fix r
    show "triple (\<lambda>w. (started r0 r \<and> r_phase r0 = CandidateReady) \<and> ?P Untouched w) (writeRecoveryReceiptAtomic (si_receipt i) r)
      (\<lambda>r w. started r0 r \<and> at_stage i T r original new Untouched w \<and> clock_le T w)
      (\<lambda>w. at_stage i T r0 original new Untouched w \<or> swap_state i T r0 original new w)"
      apply (rule triple_pure)
      apply (rule triple_weaken [OF triple_write [where T = T and P = "?P Untouched"
          and Q = "\<lambda>w. at_stage i T r original new Untouched w \<and> clock_le T w"]])
             apply (use started_state [of r0 r] in \<open>auto simp: swap_stage_iff intro: at_put swap_stateI stable_both\<close>)
      done
  qed simp
  show ?thesis
    unfolding swapRecoveryCandidate_def validateSwapInput_def
    apply (rule triple_bind_lift)
     apply (rule triple_bind [OF triple_orFail [OF first]])
     apply (rule triple_pure, rule triple_orFail)
     apply (rule triple_weaken [OF triple_commit])
    apply auto
    done
qed

end
