(* ===== verification/RecoveryRestart.thy ===== *)
theory RecoveryRestart
  imports RecoveryCrash
begin

text \<open>
  The restart after a crash. The first part runs the file operations, the reconciliation and the
  swap on a schedule without faults (\<open>fresh\<close>); the second states that the original database is
  never lost, that one undisturbed reconciliation brings every stage to a consistent end, that an
  undisturbed swap completes, and where the recovery commands get stuck. The last section runs a
  swap that crashes in the middle.
\<close>

section \<open>One undisturbed reconciliation\<close>

definition file_ok :: "fs_file \<Rightarrow> bool" where
  "file_ok f = (f_regular f \<and> hash_pattern (f_sha f) \<and> 1 \<le> f_bytes f \<and> safe_integer (Num (f_bytes f))
     \<and> 0 \<le> f_dev f \<and> safe_integer (Num (f_dev f)))"

text \<open>A restarted process: no fault, the lock held, the directories there, and a clock that runs on from \<open>T\<close>.\<close>

definition fresh :: "swap_input \<Rightarrow> int \<Rightarrow> world \<Rightarrow> bool" where
  "fresh i T w \<longleftrightarrow> w_schedule w = [] \<and> si_lock i \<in> set (w_locks w) \<and> w_directory w (dirname (si_live i))
     \<and> w_directory w (dirname (si_receipt i)) \<and> 0 \<le> T \<and> mono (w_clock w)
     \<and> (\<forall>k \<ge> w_ticks w. T < w_clock w k \<and> w_clock w k \<le> max_iso)"

definition tick :: "world \<Rightarrow> world" where
  "tick w = w\<lparr>w_ticks := Suc (w_ticks w)\<rparr>"

lemma tick_simps [simp]:
  "w_files (tick w) = w_files w" "w_receipts (tick w) = w_receipts w" "w_schedule (tick w) = w_schedule w"
  "w_locks (tick w) = w_locks w" "w_directory (tick w) = w_directory w" "w_clock (tick w) = w_clock w"
  "w_ticks (tick w) = Suc (w_ticks w)" "stored p r (tick w) = stored p r w"
  by (simp_all add: tick_def stored_def)

lemma io_run: "w_schedule w = [] \<Longrightarrow> io f w = f w"
  by (simp add: io_def)

lemma tryM_ok: "m w = (Inr x, w') \<Longrightarrow> tryM m h w = (Inr x, w')"
  by (simp add: tryM_Inr)

lemma orFail_ok: "m w = (Inr x, w') \<Longrightarrow> orFail m err w = (Inr x, w')"
  by (simp add: orFail_Inr)

lemma clock_run: "read_clock w = (Inr (w_clock w (w_ticks w)), tick w)"
  by (simp add: read_clock_def tick_def)

lemma now_run: "now_text w = (Inr (to_iso (w_clock w (w_ticks w))), tick w)"
  by (simp add: now_text_def bindM_run clock_run returnM_run)

lemma fingerprint_run:
  assumes "w_schedule w = []" "w_files w p = Some f" "file_ok f"
  shows "fingerprintFile x p w = (Inr (f_sha f, f_bytes f), w)"
  unfolding fingerprintFile_def
  by (rule tryM_ok) (use assms in \<open>simp add: bindM_run io_run requireM_run returnM_run file_ok_def\<close>)

lemma inspect_run:
  assumes "w_schedule w = []" "\<And>f. w_files w p = Some f \<Longrightarrow> file_ok f"
  shows "inspectFile x p w = (Inr (case w_files w p of None \<Rightarrow> Absent
     | Some f \<Rightarrow> Present True (Some (f_sha f)) (f_bytes f) (f_dev f)), w)"
  unfolding inspectFile_def
proof (rule orFail_ok, cases "w_files w p")
  case (Some f)
  with assms(2) fingerprint_run [OF assms(1) Some, of x] show "bindM (io (\<lambda>w. (Inr (w_files w p), w)))
      (\<lambda>file. case file of None \<Rightarrow> returnM Absent
        | Some f \<Rightarrow> bindM (requireM (f_regular f) (RecoveryError ''recovery_filesystem_ambiguous'' x))
            (\<lambda>_. bindM (fingerprintFile x p) (\<lambda>(sha, bytes). returnM (Present True (Some sha) bytes (f_dev f))))) w
      = (Inr (case w_files w p of None \<Rightarrow> Absent | Some f \<Rightarrow> Present True (Some (f_sha f)) (f_bytes f) (f_dev f)), w)"
    by (simp add: bindM_run io_run [OF assms(1)] requireM_run returnM_run file_ok_def)
qed (simp add: bindM_run io_run [OF assms(1)] returnM_run)

lemma lock_run: "w_schedule w = [] \<Longrightarrow> p \<in> set (w_locks w) \<Longrightarrow> assertLockHeld x p w = (Inr (), w)"
  unfolding assertLockHeld_def by (rule tryM_ok) (simp add: io_run)

lemma fsync_dir_run: "w_schedule w = [] \<Longrightarrow> w_directory w p \<Longrightarrow> fsyncDirectory x p w = (Inr (), w)"
  unfolding fsyncDirectory_def by (rule tryM_ok) (simp add: io_run)

lemma fsync_file_run: "w_schedule w = [] \<Longrightarrow> w_files w p = Some f \<Longrightarrow> fsyncFile x p w = (Inr (), w)"
  unfolding fsyncFile_def by (rule tryM_ok) (simp add: io_run)

lemma rename_run: "w_schedule w = [] \<Longrightarrow> w_files w a = Some f
    \<Longrightarrow> rename a b w = (Inr (), w\<lparr>w_files := (w_files w)(a := None, b := Some f)\<rparr>)"
  by (simp add: rename_def io_run)

lemma load_run:
  assumes "w_schedule w = []" "validPath p" "stored p r w" "valid_receipt T r"
    and "T \<le> w_clock w (w_ticks w)" "w_clock w (w_ticks w) \<le> max_safe"
  shows "loadRecoveryReceipt p w = (Inr r, tick w)"
proof -
  from assms(3) obtain f where f: "w_receipts w p = Some f" "rf_regular f" "rf_private f" "rf_canonical f"
    "rf_contents f = receipt_contents r" by (auto simp: stored_def split: option.splits)
  note parsed = parse_written [OF assms(4-6)]
  show ?thesis
    unfolding loadRecoveryReceipt_def bindM_run [of "requireM _ _"] requireM_run
    by (simp add: assms(2), rule orFail_ok)
      (simp add: bindM_run io_run [OF assms(1)] requireM_run f clock_run liftM_run parsed)
qed

lemma write_run:
  assumes "w_schedule w = []" "validPath p" "stored p r0 w" "w_directory w (dirname p)"
    and "valid_receipt (w_clock w (w_ticks w)) r"
  shows "writeRecoveryReceiptAtomic p r w = (Inr r, put_receipt p r (tick w))"
proof -
  from assms(3) obtain f where f: "w_receipts w p = Some f" "rf_regular f" "rf_private f"
    by (auto simp: stored_def split: option.splits)
  have s: "w_schedule (tick w) = []" "w_schedule (put_receipt p r (tick w)) = []"
    by (simp_all add: assms(1) put_receipt_def)
  show ?thesis
    unfolding writeRecoveryReceiptAtomic_def put_receipt_def [symmetric]
    by (simp add: bindM_run clock_run liftM_run validate_receipt_js [OF assms(5)] requireM_run assms(2), rule orFail_ok)
      (simp add: bindM_run io_run [OF s(1)] io_run [OF s(2)] requireM_run returnM_run f assms(4))
qed

lemma max_iso_safe: "max_iso \<le> max_safe"
  by (simp add: max_iso_def max_safe_def)

lemma valid_updated:
  assumes "valid_receipt T r" obtains u where "iso_parse (r_updatedAt r) = Some u" "u \<le> T"
  using assms by (auto simp: valid_receipt_def receipt_valid_def validTimestamp_def split: option.splits)

text \<open>A transition dated by a clock that runs on from the receipt's validity.\<close>

lemma transition_clock:
  assumes "valid_receipt T r" "0 \<le> T" "T < now" "now \<le> max_iso"
    and "p \<noteq> CandidateReady" "p \<in> set (phaseTransitions (r_phase r))" "r_binding r \<noteq> None"
  shows "transitionRecoveryReceipt (receipt_js r) p (to_iso now) = Inr (r\<lparr>r_phase := p, r_updatedAt := to_iso now\<rparr>)"
    "valid_receipt now (r\<lparr>r_phase := p, r_updatedAt := to_iso now\<rparr>)"
proof -
  have now: "iso_parse (to_iso now) = Some now" using assms by (intro iso_parse_to_iso) simp_all
  obtain u where u: "iso_parse (r_updatedAt r) = Some u" "u \<le> T" by (rule valid_updated [OF assms(1)])
  have v: "valid_receipt now r" using assms max_iso_safe by (intro valid_receipt_later [OF assms(1)]) simp_all
  show t: "transitionRecoveryReceipt (receipt_js r) p (to_iso now) = Inr (r\<lparr>r_phase := p, r_updatedAt := to_iso now\<rparr>)"
    by (rule transition_succeeds [OF v refl now _ assms(5,6)]) (use u assms in \<open>auto simp: later_def now\<close>)
  from t show "valid_receipt now (r\<lparr>r_phase := p, r_updatedAt := to_iso now\<rparr>)"
    by (rule transition_Inr) (simp add: now)
qed

definition bound_files :: "swap_input \<Rightarrow> receipt \<Rightarrow> fs_file \<Rightarrow> fs_file \<Rightarrow> bool" where
  "bound_files i r0 original new = (file_ok original \<and> file_ok new \<and> f_sha original = si_liveSha i
     \<and> f_sha new = si_candidateSha i \<and> r_liveSha r0 = si_liveSha i \<and> r_binding r0 \<noteq> None)"

lemma fresh_clock:
  assumes "fresh i T w" "w_ticks w \<le> k" shows "0 \<le> T" "T < w_clock w k" "w_clock w k \<le> max_iso" "w_clock w k \<le> max_safe"
    "w_clock w k \<le> w_clock w (Suc k)"
proof -
  from assms show "0 \<le> T" "T < w_clock w k" "w_clock w k \<le> max_iso" by (simp_all add: fresh_def)
  with max_iso_safe show "w_clock w k \<le> max_safe" by linarith
  from assms show "w_clock w k \<le> w_clock w (Suc k)" by (simp add: fresh_def monoD)
qed

lemma fresh_tick: "fresh i T w \<Longrightarrow> fresh i T (tick w)"
  by (simp add: fresh_def)

lemma record_run:
  assumes "fresh i T w" "swap_input_ok i" "at_stage i T r original new Replaced w" "r_phase r = SwapStarted" "r_binding r \<noteq> None"
  obtains r' w' T' where "record_swapped i r w = (Inr (ContinueVerification, r'), w')" "at_stage i T' r' original new Replaced w'"
    "r' = (with_check ''swap'' r)\<lparr>r_phase := Swapped, r_updatedAt := to_iso (w_clock w (w_ticks w))\<rparr>" "T' \<le> max_iso"
proof -
  let ?now = "w_clock w (w_ticks w)"
  let ?r = "(with_check ''swap'' r)\<lparr>r_phase := Swapped, r_updatedAt := to_iso ?now\<rparr>"
  let ?w = "put_receipt (si_receipt i) ?r (tick (tick w))"
  note f = fresh_clock [OF assms(1), of "w_ticks w", simplified] fresh_clock [OF assms(1), of "Suc (w_ticks w)", simplified]
  have v: "valid_receipt T r" "receipt_wf r" and st: "stored (si_receipt i) r w"
    using assms(3) by (simp_all add: at_stage_def valid_receipt_def)
  have t: "transitionRecoveryReceipt (receipt_js (with_check ''swap'' r)) Swapped (to_iso ?now) = Inr ?r" "valid_receipt ?now ?r"
    using transition_clock [OF with_check_valid [OF v(1) swap_check] f(1-3), of Swapped] assms(4,5)
    by simp_all
  have v2: "valid_receipt (w_clock w (Suc (w_ticks w))) ?r"
    by (rule valid_receipt_later [OF t(2)]) (use f in simp_all)
  have "writeRecoveryReceiptAtomic (si_receipt i) ?r (tick w) = (Inr ?r, ?w)"
    using write_run [of "tick w" "si_receipt i" r ?r] assms(1) swap_input_paths(4) [OF assms(2)] st v2
    by (simp add: fresh_def)
  then have "record_swapped i r w = (Inr (ContinueVerification, ?r), ?w)"
    by (simp add: record_swapped_def bindM_run now_run liftM_run returnM_run transition_add_check [OF v(2) swap_check] t(1))
  moreover have "at_stage i ?now ?r original new Replaced ?w"
    using assms(3) t(2) st by (auto simp: at_stage_def laid_out_def put_stored valid_receipt_def)
  ultimately show ?thesis using that f(3) by blast
qed

lemma check_run:
  assumes "w_schedule w = []" "laid_out i original new Replaced w" "bound_files i r0 original new"
  shows "check_swapped i w = (Inr (), w)"
  using assms fingerprint_run [OF assms(1), of "si_live i" new] fingerprint_run [OF assms(1), of "si_rollback i" original]
  by (simp add: check_swapped_def bindM_run laid_out_def bound_files_def requireM_run)

text \<open>What the classification answers in each stage.\<close>

definition info :: "fs_file option \<Rightarrow> file_info" where
  "info v = (case v of None \<Rightarrow> Absent | Some f \<Rightarrow> Present True (Some (f_sha f)) (f_bytes f) (f_dev f))"

lemma classify_stage:
  assumes "swap_input_ok i" "bound_files i r0 original new" "swap_stage p l" "layout_files original new l = (a, b, c)"
  shows "classifyRecoveryFilesystem p (info a) (info b) (info c) (si_liveSha i) (si_candidateSha i)
    = Inr (case l of Untouched \<Rightarrow> ReadyToSwap | Moved \<Rightarrow> FinishSwap | Replaced \<Rightarrow> ContinueVerification)"
proof -
  have h: "hash_pattern (si_liveSha i)" "hash_pattern (si_candidateSha i)" "si_liveSha i \<noteq> si_candidateSha i"
    using swap_input_paths [OF assms(1)] by simp_all
  from assms(2) have b: "validFile (info (Some original))" "validFile (info (Some new))" "validFile (info None)"
    "isHash (info (Some original)) (si_liveSha i)" "isHash (info (Some new)) (si_candidateSha i)"
    "\<not> isHash (info (Some original)) (si_candidateSha i)" "\<not> isHash (info (Some new)) (si_liveSha i)"
    "info None = Absent" "info (Some original) \<noteq> Absent" "info (Some new) \<noteq> Absent"
    "\<not> isHash Absent x" for x
    using h by (auto simp: bound_files_def file_ok_def validFile_def isHash_def info_def)
  from assms(3,4) h b show ?thesis
    by (cases l) (auto simp: classifyRecoveryFilesystem_def swap_stage_iff allowedPhases_def)
qed

fun stage_action :: "layout \<Rightarrow> reconcile_action" where
  "stage_action Untouched = ReadyToSwap"
| "stage_action Moved = FinishSwap"
| "stage_action Replaced = ContinueVerification"

lemma reconcile_acts:
  assumes "swap_input_ok i" "fresh i T w" "at_stage i T r original new l w" "swap_stage (r_phase r) l"
    and "bound_files i r original new"
  shows "reconcile_body i w = take_action i r (stage_action l) (tick w)"
proof -
  note f = fresh_clock [OF assms(2) order_refl]
  note p = swap_input_paths [OF assms(1)]
  have sched: "w_schedule w = []" using assms(2) by (simp add: fresh_def)
  have st: "stored (si_receipt i) r w" "valid_receipt T r" "laid_out i original new l w"
    using assms(3) by (simp_all add: at_stage_def)
  have load: "loadRecoveryReceipt (si_receipt i) w = (Inr r, tick w)"
    by (rule load_run [OF sched p(4) st(1,2)]) (use f in simp_all)
  have ok: "file_ok original" "file_ok new" using assms(5) by (simp_all add: bound_files_def)
  obtain a b c where abc: "layout_files original new l = (a, b, c)" by (cases "layout_files original new l")
  then have files: "w_files w (si_live i) = a" "w_files w (si_candidate i) = b" "w_files w (si_rollback i) = c"
    using st(3) by (simp_all add: laid_out_def)
  have okf: "a = Some x \<Longrightarrow> file_ok x" "b = Some x \<Longrightarrow> file_ok x" "c = Some x \<Longrightarrow> file_ok x" for x
    using abc ok by (cases l; auto)+
  have inspect: "inspectFile 10 (si_live i) (tick w) = (Inr (info a), tick w)"
    "inspectFile 10 (si_candidate i) (tick w) = (Inr (info b), tick w)"
    "inspectFile 10 (si_rollback i) (tick w) = (Inr (info c), tick w)"
    using inspect_run [of "tick w" "si_live i" 10] inspect_run [of "tick w" "si_candidate i" 10]
      inspect_run [of "tick w" "si_rollback i" 10] sched files okf by (simp_all add: info_def)
  have lock: "assertLockHeld 10 (si_lock i) (tick w) = (Inr (), tick w)"
    using assms(2) by (intro lock_run) (simp_all add: fresh_def)
  have phase: "r_phase r \<in> set allowedPhases" "r_liveSha r = si_liveSha i"
    using assms(4,5) by (auto simp: swap_stage_iff allowedPhases_def bound_files_def)
  have "(case l of Untouched \<Rightarrow> ReadyToSwap | Moved \<Rightarrow> FinishSwap | Replaced \<Rightarrow> ContinueVerification) = stage_action l"
    by (cases l) simp_all
  with classify_stage [OF assms(1,5,4) abc] show ?thesis
    by (simp add: reconcile_body_def bindM_run load requireM_run phase inspect lock liftM_run)
qed

lemma finish_run:
  assumes "swap_input_ok i" "fresh i T w" "at_stage i T r original new Moved w" "r_phase r = SwapStarted"
    and "bound_files i r original new"
  obtains r' w' T' where "finish_swap i r w = (Inr (ContinueVerification, r'), w')" "at_stage i T' r' original new Replaced w'"
    "\<exists>t. r' = (with_check ''swap'' r)\<lparr>r_phase := Swapped, r_updatedAt := t\<rparr>" "T' \<le> max_iso"
proof -
  let ?w = "w\<lparr>w_files := (w_files w)(si_candidate i := None, si_live i := Some new)\<rparr>"
  have sched: "w_schedule w = []" using assms(2) by (simp add: fresh_def)
  have m: "rename (si_candidate i) (si_live i) w = (Inr (), ?w)"
    using rename_run [OF sched, of "si_candidate i" new "si_live i"] assms(3) by (simp add: at_stage_def laid_out_def)
  have at2: "at_stage i T r original new Replaced ?w"
    using assms(3) swap_input_paths(1-3) [OF assms(1)] by (auto simp: at_stage_def laid_out_def stored_files)
  have fr2: "fresh i T ?w" using assms(2) by (simp add: fresh_def)
  have d: "fsyncDirectory 10 (dirname (si_live i)) ?w = (Inr (), ?w)"
    using fr2 by (intro fsync_dir_run) (simp_all add: fresh_def)
  have chk: "check_swapped i ?w = (Inr (), ?w)"
    by (rule check_run [OF _ _ assms(5)]) (use sched at2 in \<open>simp_all add: at_stage_def\<close>)
  have "r_binding r \<noteq> None" using assms(5) by (simp add: bound_files_def)
  then obtain r' w' T'
    where rec: "record_swapped i r ?w = (Inr (ContinueVerification, r'), w')" "at_stage i T' r' original new Replaced w'"
      "r' = (with_check ''swap'' r)\<lparr>r_phase := Swapped, r_updatedAt := to_iso (w_clock ?w (w_ticks ?w))\<rparr>" "T' \<le> max_iso"
    using record_run [OF fr2 assms(1) at2 assms(4)] by metis
  have "finish_swap i r w = (Inr (ContinueVerification, r'), w')"
    by (simp add: finish_swap_def bindM_run m d chk rec(1))
  with that rec(2-4) show ?thesis by blast
qed

lemma continue_run:
  assumes "swap_input_ok i" "fresh i T w" "at_stage i T r original new Replaced w" "swap_stage (r_phase r) Replaced"
    and "bound_files i r original new"
  obtains r' w' T' where "continue_verification i r w = (Inr (ContinueVerification, r'), w')" "at_stage i T' r' original new Replaced w'"
    "r_phase r' = Swapped" "r' = r \<or> (\<exists>t. r' = (with_check ''swap'' r)\<lparr>r_phase := Swapped, r_updatedAt := t\<rparr>)" "T' \<le> max_iso"
proof -
  have chk: "check_swapped i w = (Inr (), w)"
    by (rule check_run [OF _ _ assms(5)]) (use assms(2,3) in \<open>simp_all add: at_stage_def fresh_def\<close>)
  show ?thesis
  proof (cases "r_phase r = Swapped")
    case True
    then have "continue_verification i r w = (Inr (ContinueVerification, r), w)"
      by (simp add: continue_verification_def bindM_run chk returnM_run)
    moreover have "T \<le> max_iso" using fresh_clock(2,3) [OF assms(2) order_refl] by simp
    ultimately show ?thesis using that assms(3) True by blast
  next
    case False
    then have sp: "r_phase r = SwapStarted" using assms(4) by (auto simp: swap_stage_iff)
    have "r_binding r \<noteq> None" using assms(5) by (simp add: bound_files_def)
    then obtain r' w' T'
      where rec: "record_swapped i r w = (Inr (ContinueVerification, r'), w')" "at_stage i T' r' original new Replaced w'"
        "r' = (with_check ''swap'' r)\<lparr>r_phase := Swapped, r_updatedAt := to_iso (w_clock w (w_ticks w))\<rparr>" "T' \<le> max_iso"
      using record_run [OF assms(2,1,3) sp] by metis
    have "continue_verification i r w = (Inr (ContinueVerification, r'), w')"
      using sp by (simp add: continue_verification_def bindM_run chk rec(1))
    moreover have "r_phase r' = Swapped" using rec(3) by simp
    ultimately show ?thesis using that rec(2-4) by blast
  qed
qed

lemma reconcile_run:
  assumes "swap_input_ok i" "fresh i T w" "at_stage i T r original new l w" "swap_stage (r_phase r) l"
    and "bound_files i r original new"
  obtains a r' w' T' where "reconcileRecoveryReceipt i w = (Inr (a, r'), w')" "T' \<le> max_iso"
    "at_stage i T' r' original new (if l = Untouched then Untouched else Replaced) w'"
    "if l = Untouched then a = ReadyToSwap \<and> r' = r \<and> disk w' = disk w
     else a = ContinueVerification \<and> r_phase r' = Swapped
       \<and> (r' = r \<or> (\<exists>t. r' = (with_check ''swap'' r)\<lparr>r_phase := Swapped, r_updatedAt := t\<rparr>))"
proof -
  have fr: "fresh i T (tick w)" using assms(2) by (rule fresh_tick)
  have at: "at_stage i T r original new l (tick w)" using assms(3) by (simp add: at_stage_def laid_out_def)
  have T: "T \<le> max_iso" using fresh_clock(2,3) [OF assms(2) order_refl] by simp
  have run: "reconcileRecoveryReceipt i w = (Inr x, w')" if "take_action i r (stage_action l) (tick w) = (Inr x, w')" for x w'
    by (simp add: reconcileRecoveryReceipt_def bindM_run requireM_run assms(1) orFail_Inr reconcile_acts [OF assms] that)
  show ?thesis
  proof (cases l)
    case Untouched
    have "disk (tick w) = disk w" by (simp add: tick_def)
    with Untouched at T that [of ReadyToSwap r "tick w" T] run show ?thesis by (simp add: returnM_run)
  next
    case Moved
    then have "r_phase r = SwapStarted" using assms(4) by (auto simp: swap_stage_iff)
    from finish_run [OF assms(1) fr at [unfolded Moved] this assms(5)] obtain r' w' T'
      where "finish_swap i r (tick w) = (Inr (ContinueVerification, r'), w')" "at_stage i T' r' original new Replaced w'"
        "\<exists>t. r' = (with_check ''swap'' r)\<lparr>r_phase := Swapped, r_updatedAt := t\<rparr>" "T' \<le> max_iso" .
    with that [of ContinueVerification r' w' T'] run Moved show ?thesis by auto
  next
    case Replaced
    from continue_run [OF assms(1) fr at [unfolded Replaced] assms(4) [unfolded Replaced] assms(5)] obtain r' w' T'
      where "continue_verification i r (tick w) = (Inr (ContinueVerification, r'), w')" "at_stage i T' r' original new Replaced w'"
        "r_phase r' = Swapped" "r' = r \<or> (\<exists>t. r' = (with_check ''swap'' r)\<lparr>r_phase := Swapped, r_updatedAt := t\<rparr>)" "T' \<le> max_iso" .
    with that [of ContinueVerification r' w' T'] run Replaced show ?thesis by auto
  qed
qed

section \<open>A crash and the restart\<close>

lemma swap_crash_state:
  assumes "at_stage i T r0 original new Untouched w" "clock_le T w" "r_phase r0 = CandidateReady"
    and "swapRecoveryCandidate i w = (res, w')"
  shows "swap_state i T r0 original new w'" "case res of Inr r \<Rightarrow> complete i T r0 original new r w' | Inl e \<Rightarrow> True"
proof -
  have wf: "receipt_wf r0" using assms(1) by (simp add: at_stage_def stored_def)
  from tripleD [OF triple_swap [OF wf, where original = original and new = new and T = T and i = i] _ assms(4)] assms(1,2)
  have r: "case res of Inr r \<Rightarrow> complete i T r0 original new r w'
      | Inl e \<Rightarrow> at_stage i T r0 original new Untouched w' \<or> swap_state i T r0 original new w'" by blast
  have "at_stage i T r0 original new Untouched w' \<Longrightarrow> swap_state i T r0 original new w'"
    using assms(3) by (auto simp: swap_stage_iff intro: swap_stateI)
  with r complete_state show "swap_state i T r0 original new w'" by (cases res) auto
  from r show "case res of Inr r \<Rightarrow> complete i T r0 original new r w' | Inl e \<Rightarrow> True" by (cases res) simp_all
qed

text \<open>C2: Whatever fails and wherever the process stops, a swap leaves the receipt and the three
  files in one of the five consistent stages: the original database is complete at the live or at the
  rollback path, and a swap that returns has installed the candidate and recorded it.\<close>

theorem swap_crash_safe:
  assumes "at_stage i T r0 original new Untouched w" "clock_le T w" "r_phase r0 = CandidateReady"
    and "swapRecoveryCandidate i w = (res, w')"
  shows "swap_state i T r0 original new w'
    \<and> (w_files w' (si_live i) = Some original \<or> w_files w' (si_rollback i) = Some original)
    \<and> (case res of Inr r \<Rightarrow> complete i T r0 original new r w' | Inl e \<Rightarrow> True)"
proof -
  note s = swap_crash_state [OF assms]
  from s(1) have "w_files w' (si_live i) = Some original \<or> w_files w' (si_rollback i) = Some original"
    unfolding swap_state_def at_stage_def laid_out_def by (elim exE conjE) (rename_tac r l, case_tac l; simp)
  with s show ?thesis by simp
qed

text \<open>C1: After any swap, crashed or not, one undisturbed reconciliation in a restarted process
  succeeds. It answers either that nothing was moved yet, and then the original is still live beside the untouched
  candidate and the reconciliation has left every file and the receipt, before the swap or at its start, as they were; or
  it ends with the candidate installed, the original retained and the receipt at \<open>swapped\<close>.\<close>

theorem crash_then_reconcile:
  assumes "at_stage i T r0 original new Untouched w" "clock_le T w" "r_phase r0 = CandidateReady"
    and "swapRecoveryCandidate i w = (res, w')"
    and "swap_input_ok i" "bound_files i r0 original new"
    and "fresh i T w2" "w_files w2 = w_files w'" "w_receipts w2 = w_receipts w'"
  shows "\<exists>a r w3 T'. reconcileRecoveryReceipt i w2 = (Inr (a, r), w3)
    \<and> (a = ReadyToSwap \<and> w_files w3 = w_files w2 \<and> w_receipts w3 = w_receipts w2 \<and> at_stage i T' r original new Untouched w3
         \<and> same_operation r0 r \<and> r_binding r = r_binding r0 \<and> r_phase r \<in> {CandidateReady, SwapStarted}
       \<or> a = ContinueVerification \<and> complete i T' r0 original new r w3)"
proof -
  have "swap_state i T r0 original new w'" by (rule swap_crash_state(1) [OF assms(1-4)])
  then obtain r l where s: "at_stage i T r original new l w2" "same_operation r0 r" "r_binding r = r_binding r0" "swap_stage (r_phase r) l"
    using assms(8,9) unfolding swap_state_def by (auto simp: at_stage_def laid_out_def stored_def)
  have b: "bound_files i r original new"
    using assms(6) s(2,3) by (simp add: bound_files_def same_operation_simps(1))
  from reconcile_run [OF assms(5,7) s(1,4) b] obtain a r' w3 T'
    where rec: "reconcileRecoveryReceipt i w2 = (Inr (a, r'), w3)"
      "at_stage i T' r' original new (if l = Untouched then Untouched else Replaced) w3"
      "if l = Untouched then a = ReadyToSwap \<and> r' = r \<and> disk w3 = disk w2
       else a = ContinueVerification \<and> r_phase r' = Swapped
         \<and> (r' = r \<or> (\<exists>t. r' = (with_check ''swap'' r)\<lparr>r_phase := Swapped, r_updatedAt := t\<rparr>))" .
  show ?thesis
  proof (cases "l = Untouched")
    case True
    with s(4) have "r_phase r \<in> {CandidateReady, SwapStarted}" by (auto simp: swap_stage_iff)
    with True rec s(2,3) show ?thesis by (auto simp: disk_def)
  next
    case False
    with rec(3) s(2,3) have "same_operation r0 r' \<and> r_binding r' = r_binding r0"
      by (auto intro: same_operation_simps)
    with rec False show ?thesis by (auto simp: complete_def)
  qed
qed

section \<open>Where recovery gets stuck\<close>

lemma refused_phase:
  assumes "stable P" "\<And>w. P w \<Longrightarrow> stored p r w" "\<And>v. v = r \<Longrightarrow> \<not> b v"
  shows "triple P (bindM (loadRecoveryReceipt p) (\<lambda>v. bindM (requireM (b v) e) (f v))) (\<lambda>_ _. False) P"
  by (rule triple_bind [OF triple_load [OF assms(1,2)]], assumption, rule triple_pure, rule triple_bind_require)
    (simp_all add: assms(3))

lemma fails_unchanged:
  assumes "triple (\<lambda>w. stored p r w \<and> disk w = disk w0) m (\<lambda>_ _. False) (\<lambda>w. stored p r w \<and> disk w = disk w0)"
    and "stored p r w0"
  shows "\<not> is_ok (fst (m w0)) \<and> disk (snd (m w0)) = disk w0"
proof -
  obtain res w' where m: "m w0 = (res, w')" by (cases "m w0")
  from tripleD [OF assms(1) _ m] assms(2) m show ?thesis by (cases res) auto
qed

lemma stable_kept: "stable (\<lambda>w. stored p r w \<and> disk w = disk w0)"
  unfolding stable_def using stored_disk by metis

lemma swap_refused:
  assumes "stored (si_receipt i) r w" "r_phase r \<noteq> CandidateReady"
  shows "\<not> is_ok (fst (swapRecoveryCandidate i w)) \<and> disk (snd (swapRecoveryCandidate i w)) = disk w"
proof (rule fails_unchanged [OF _ assms(1)])
  let ?P = "\<lambda>v. stored (si_receipt i) r v \<and> disk v = disk w"
  have "triple ?P (swap_prepare i) (\<lambda>_ _. False) ?P"
    unfolding swap_prepare_def by (rule refused_phase [OF stable_kept, where r = r]) (use assms(2) in simp_all)
  then have "triple ?P (bindM (swap_prepare i) (\<lambda>s. writeRecoveryReceiptAtomic (si_receipt i) s)) (\<lambda>_ _. False) ?P"
    by (rule triple_bind) (simp add: triple_def)
  then show "triple ?P (swapRecoveryCandidate i) (\<lambda>_ _. False) ?P"
    unfolding swapRecoveryCandidate_def
    by (intro triple_bind_lift triple_bind [OF triple_orFail]) (auto simp: triple_def)
qed

lemma reconcile_refused:
  assumes "stored (si_receipt i) r w" "r_phase r \<notin> set allowedPhases"
  shows "\<not> is_ok (fst (reconcileRecoveryReceipt i w)) \<and> disk (snd (reconcileRecoveryReceipt i w)) = disk w"
proof (rule fails_unchanged [OF _ assms(1)])
  let ?P = "\<lambda>v. stored (si_receipt i) r v \<and> disk v = disk w"
  have "triple ?P (reconcile_body i) (\<lambda>_ _. False) ?P"
    unfolding reconcile_body_def by (rule refused_phase [OF stable_kept, where r = r]) (use assms(2) in simp_all)
  then show "triple ?P (reconcileRecoveryReceipt i) (\<lambda>_ _. False) ?P"
    unfolding reconcileRecoveryReceipt_def by (intro triple_bind_require triple_orFail) simp_all
qed


lemma step_refused:
  assumes "triple P m (\<lambda>_ _. False) P"
  shows "triple P (step_at i NotStarted m) (\<lambda>_ _. False) P"
  unfolding step_at_def rollback_cleanup_def
  by (rule triple_try [OF assms]) (simp add: triple_def bindM_run returnM_run throwM_run)

lemma rollback_refused:
  assumes "stored (ri_receipt i) r w" "triple (\<lambda>v. stored (ri_receipt i) r v \<and> disk v = disk w) (rollback_checks i)
      (\<lambda>_ _. False) (\<lambda>v. stored (ri_receipt i) r v \<and> disk v = disk w)"
  shows "\<not> is_ok (fst (rollbackRecoverySwap mat i w)) \<and> disk (snd (rollbackRecoverySwap mat i w)) = disk w"
  unfolding rollbackRecoverySwap_def
  by (rule fails_unchanged [OF triple_bind_lift [OF triple_bind [OF step_refused [OF assms(2)]]] assms(1)])
    (auto simp: triple_def)

text \<open>C27: When a rollback stops right after it has recorded \<open>rollback_started\<close>, no operation of the
  recovery accepts the receipt any more, whatever the files and the schedule: rolling back, swapping and
  reconciling all fail without touching the disk.\<close>

theorem rollback_started_stuck:
  assumes "stored p r w" "r_phase r = RollbackStarted" "si_receipt i = p" "ri_receipt j = p"
  shows "\<not> is_ok (fst (swapRecoveryCandidate i w)) \<and> disk (snd (swapRecoveryCandidate i w)) = disk w
    \<and> \<not> is_ok (fst (reconcileRecoveryReceipt i w)) \<and> disk (snd (reconcileRecoveryReceipt i w)) = disk w
    \<and> \<not> is_ok (fst (rollbackRecoverySwap mat j w)) \<and> disk (snd (rollbackRecoverySwap mat j w)) = disk w"
proof -
  have "triple (\<lambda>v. stored (ri_receipt j) r v \<and> disk v = disk w) (rollback_checks j)
      (\<lambda>_ _. False) (\<lambda>v. stored (ri_receipt j) r v \<and> disk v = disk w)"
    unfolding rollback_checks_def
    by (rule refused_phase [OF stable_kept, where r = r]) (use assms(2) in \<open>simp_all add: rollbackPhases_def\<close>)
  from swap_refused [of i r w] reconcile_refused [of i r w] rollback_refused [OF _ this, of mat] assms
  show ?thesis by (simp add: allowedPhases_def)
qed

lemma bindM_InrE:
  assumes "bindM m f s = (Inr y, t)"
  obtains x s' where "m s = (Inr x, s')" "f x s' = (Inr y, t)"
  using assms unfolding bindM_Inr_iff by (elim exE conjE)

lemma inspect_sha:
  assumes "inspectFile x p w = (Inr v, w')" "w_files w p = Some f" "requireRegular v err = Inr (sha, dev)"
  shows "sha = f_sha f"
proof -
  have fp: "fst a = f_sha f" if "fingerprintFile x p w1 = (Inr a, w2)" "w_files w1 p = Some f" for a w1 w2
  proof -
    from that(1) have "\<exists>w3. io (\<lambda>w. (case w_files w p of None \<Rightarrow> Inl IoError | Some f \<Rightarrow> Inr (f_sha f, f_bytes f), w)) w1 = (Inr a, w3)"
      unfolding fingerprintFile_def tryM_Inr by (auto simp: eff_Inr_iffs)
    then obtain w3 where "io (\<lambda>w. (case w_files w p of None \<Rightarrow> Inl IoError | Some f \<Rightarrow> Inr (f_sha f, f_bytes f), w)) w1 = (Inr a, w3)" ..
    from io_get [OF this] obtain w4 where "disk w4 = disk w1"
        "(case w_files w4 p of None \<Rightarrow> Inl IoError | Some f \<Rightarrow> Inr (f_sha f, f_bytes f)) = Inr a" by blast
    with that(2) disk_files [of w4 w1] show ?thesis by auto
  qed
  from assms(1) obtain fl w1 where i: "io (\<lambda>w. (Inr (w_files w p), w)) w = (Inr fl, w1)"
    and k: "(case fl of None \<Rightarrow> returnM Absent
        | Some f \<Rightarrow> bindM (requireM (f_regular f) (RecoveryError ''recovery_filesystem_ambiguous'' x))
            (\<lambda>_. bindM (fingerprintFile x p) (\<lambda>(sha, bytes). returnM (Present True (Some sha) bytes (f_dev f))))) w1 = (Inr v, w')"
    unfolding inspectFile_def orFail_Inr by (rule bindM_InrE)
  from io_get [OF i] obtain w3 where d: "disk w1 = disk w" "disk w3 = disk w" "fl = w_files w3 p" by auto
  have f: "fl = Some f" "w_files w1 p = Some f"
    using assms(2) d(3) disk_files [OF d(1)] disk_files [OF d(2)] by simp_all
  with k obtain a w2 where a: "fingerprintFile x p w1 = (Inr a, w2)" "v = Present True (Some (fst a)) (snd a) (f_dev f)"
    by (auto simp: eff_Inr_iffs split: prod.splits)
  with fp [OF a(1) f(2)] assms(3) show ?thesis by (auto simp: requireRegular_def split: if_splits)
qed


lemma rollback_checks_refused:
  assumes "f_sha original = r_liveSha r" "ri_currentSha j \<noteq> ri_originalSha j"
    and "w_files w (ri_live j) = Some original" "stored (ri_receipt j) r w"
  shows "triple (\<lambda>v. stored (ri_receipt j) r v \<and> disk v = disk w) (rollback_checks j)
      (\<lambda>_ _. False) (\<lambda>v. stored (ri_receipt j) r v \<and> disk v = disk w)"
    (is "triple ?P _ _ _")
proof -
  have fl: "w_files v (ri_live j) = Some original" if "?P v" for v
    using that assms(3) disk_files [of v w] by simp
  have load: "triple ?P (loadRecoveryReceipt (ri_receipt j)) (\<lambda>v w. v = r \<and> ?P w) ?P"
    by (rule triple_load [OF stable_kept]) simp
  show ?thesis
    unfolding rollback_checks_def
    apply (rule triple_bind [OF load], rule triple_pure, rule triple_bind_require)
     apply (rule triple_bind_read [OF _ stable_kept], rule reads_intros, assumption)
     apply (rule triple_bind_read [OF _ stable_kept], rule reads_intros, assumption)
     apply ((rule triple_bind_read [OF _ stable_kept], rule reads_intros, assumption)+)[1]
     apply (rename_tac v a b, case_tac v)
     apply (simp only: prod.case, rule triple_bind_require)
    using inspect_sha [OF _ fl] assms(1,2) apply (auto simp: liftM_run)
    done
qed

section \<open>An undisturbed swap\<close>

lemma monotonic_run:
  assumes "valid_receipt T r" "0 \<le> T" "T < now" "now \<le> max_iso"
  shows "monotonicTimestamp (r_updatedAt r) (to_iso now) = Inr (to_iso now)"
proof -
  have "iso_parse (to_iso now) = Some now" using assms by (intro iso_parse_to_iso) simp_all
  moreover obtain u where "iso_parse (r_updatedAt r) = Some u" "u \<le> T" by (rule valid_updated [OF assms(1)])
  moreover from this(2) assms(3) have "max now (u + 1) = now" by simp
  ultimately show ?thesis by (simp add: monotonicTimestamp_def)
qed

lemma swap_starts:
  assumes "swap_input_ok i" "fresh i T w" "at_stage i T r original new Untouched w" "r_phase r = CandidateReady"
    and "bound_files i r original new" "f_dev original = f_dev new"
  obtains r' w' where "bindM (swap_prepare i) (\<lambda>s. writeRecoveryReceiptAtomic (si_receipt i) s) w = (Inr r', w')"
    "started r r'" "at_stage i (w_clock w (Suc (w_ticks w))) r' original new Untouched w'"
    "w' = put_receipt (si_receipt i) r' (tick (tick (tick w)))"
proof -
  let ?t = "w_clock w (Suc (w_ticks w))"
  let ?r = "r\<lparr>r_phase := SwapStarted, r_updatedAt := to_iso ?t\<rparr>"
  let ?w = "put_receipt (si_receipt i) ?r (tick (tick (tick w)))"
  note c = fresh_clock [OF assms(2), of "w_ticks w", simplified] fresh_clock [OF assms(2), of "Suc (w_ticks w)", simplified]
    fresh_clock [OF assms(2), of "Suc (Suc (w_ticks w))", simplified]
  have sched: "w_schedule w = []" "w_schedule (tick w) = []" using assms(2) by (simp_all add: fresh_def)
  have st: "stored (si_receipt i) r w" "valid_receipt T r" using assms(3) by (simp_all add: at_stage_def)
  have files: "w_files w (si_live i) = Some original" "w_files w (si_candidate i) = Some new" "w_files w (si_rollback i) = None"
    using assms(3) by (simp_all add: at_stage_def laid_out_def)
  have ok: "file_ok original" "file_ok new" using assms(5) by (simp_all add: bound_files_def)
  have load: "loadRecoveryReceipt (si_receipt i) w = (Inr r, tick w)"
    by (rule load_run [OF sched(1) swap_input_paths(4) [OF assms(1)] st]) (use c in simp_all)
  have reads: "inspectFile 11 (si_live i) (tick w) = (Inr (info (Some original)), tick w)"
    "inspectFile 11 (si_candidate i) (tick w) = (Inr (info (Some new)), tick w)"
    "inspectFile 11 (si_rollback i) (tick w) = (Inr Absent, tick w)"
    "fsyncFile 11 (si_candidate i) (tick w) = (Inr (), tick w)"
    "assertLockHeld 11 (si_lock i) (tick w) = (Inr (), tick w)"
    using inspect_run [OF sched(2), of "si_live i" 11] inspect_run [OF sched(2), of "si_candidate i" 11]
      inspect_run [OF sched(2), of "si_rollback i" 11] fsync_file_run [OF sched(2), of "si_candidate i" new 11]
      lock_run [OF sched(2), of "si_lock i" 11] files ok assms(2) by (simp_all add: info_def fresh_def)
  have t: "transitionRecoveryReceipt (receipt_js r) SwapStarted (to_iso ?t) = Inr ?r" "valid_receipt ?t ?r"
    using transition_clock [OF st(2), of ?t SwapStarted] c assms(4,5) by (simp_all add: bound_files_def)
  have prep: "swap_prepare i w = (Inr ?r, tick (tick w))"
    using ok assms(4-6) t(1) monotonic_run [OF st(2), of ?t] c
    by (simp add: swap_prepare_def bindM_run load reads requireM_run liftM_run now_run info_def requireRegular_def
      bound_files_def file_ok_def)
  have "valid_receipt (w_clock w (Suc (Suc (w_ticks w)))) ?r"
    by (rule valid_receipt_later [OF t(2)]) (use c in simp_all)
  then have "writeRecoveryReceiptAtomic (si_receipt i) ?r (tick (tick w)) = (Inr ?r, ?w)"
    using write_run [of "tick (tick w)" "si_receipt i" r ?r] sched swap_input_paths(4) [OF assms(1)] st(1) assms(2)
    by (simp add: fresh_def)
  then have run: "bindM (swap_prepare i) (\<lambda>s. writeRecoveryReceiptAtomic (si_receipt i) s) w = (Inr ?r, ?w)"
    by (simp add: bindM_run prep)
  have wf: "receipt_wf ?r" using t(2) by (simp add: valid_receipt_def)
  then have "at_stage i ?t ?r original new Untouched ?w"
    using assms(3) t(2) by (auto simp: at_stage_def laid_out_def put_stored)
  moreover have "started r ?r" unfolding started_def using wf by blast
  ultimately show ?thesis using that run by blast
qed

lemma commit_completes:
  assumes "swap_input_ok i" "fresh i T w" "at_stage i T r original new Untouched w" "r_phase r = SwapStarted"
    and "bound_files i r original new"
  obtains r' w' T' where "swap_commit i r w = (Inr r', w')" "swapped r r'" "at_stage i T' r' original new Replaced w'"
proof -
  define w1 where "w1 = w\<lparr>w_files := (w_files w)(si_live i := None, si_rollback i := Some original)\<rparr>"
  define w2 where "w2 = w1\<lparr>w_files := (w_files w1)(si_candidate i := None, si_live i := Some new)\<rparr>"
  let ?t = "w_clock w (w_ticks w)"
  let ?r = "(with_check ''swap'' r)\<lparr>r_phase := Swapped, r_updatedAt := to_iso ?t\<rparr>"
  let ?w3 = "put_receipt (si_receipt i) ?r (tick (tick w2))"
  note c = fresh_clock [OF assms(2), of "w_ticks w", simplified] fresh_clock [OF assms(2), of "Suc (w_ticks w)", simplified]
  note p = swap_input_paths [OF assms(1)]
  have w2: "w_clock w2 = w_clock w" "w_ticks w2 = w_ticks w" "w_directory w2 = w_directory w" "stored q s w2 = stored q s w" for q s
    by (simp_all add: w1_def w2_def stored_files)
  have sched: "w_schedule w = []" "w_schedule w1 = []" "w_schedule w2 = []" unfolding w1_def w2_def using assms(2) by (simp_all add: fresh_def)
  have files: "w_files w (si_live i) = Some original" "w_files w (si_candidate i) = Some new"
    using assms(3) by (simp_all add: at_stage_def laid_out_def)
  have st: "stored (si_receipt i) r w" "valid_receipt T r" "receipt_wf r"
    using assms(3) by (simp_all add: at_stage_def valid_receipt_def)
  have ok: "file_ok original" "file_ok new" using assms(5) by (simp_all add: bound_files_def)
  have at2: "at_stage i T r original new Replaced w2"
    using assms(3) p(1-3) files by (auto simp: at_stage_def laid_out_def stored_files w1_def w2_def)
  have moves: "rename (si_live i) (si_rollback i) w = (Inr (), w1)"
    "rename (si_candidate i) (si_live i) w1 = (Inr (), w2)"
    "fsyncDirectory 11 (dirname (si_live i)) w2 = (Inr (), w2)"
    using rename_run [of w "si_live i" original "si_rollback i"] rename_run [of w1 "si_candidate i" new "si_live i"]
      fsync_dir_run [of w2 "dirname (si_live i)" 11] sched files p(1-3) assms(2)
    by (simp_all add: fresh_def w1_def [symmetric] w2_def [symmetric] w2(3)) (simp_all add: w1_def)
  have prints: "fingerprintFile 11 (si_live i) w2 = (Inr (f_sha new, f_bytes new), w2)"
    "fingerprintFile 11 (si_rollback i) w2 = (Inr (f_sha original, f_bytes original), w2)"
    by (rule fingerprint_run; use sched ok p(1-3) in \<open>simp add: w1_def w2_def\<close>)+
  have t: "transitionRecoveryReceipt (receipt_js (with_check ''swap'' r)) Swapped (to_iso ?t) = Inr ?r" "valid_receipt ?t ?r"
    using transition_clock [OF with_check_valid [OF st(2) swap_check] c(1-3), of Swapped] assms(4,5)
    by (simp_all add: bound_files_def)
  have "valid_receipt (w_clock w (Suc (w_ticks w))) ?r"
    by (rule valid_receipt_later [OF t(2)]) (use c in simp_all)
  then have wr: "writeRecoveryReceiptAtomic (si_receipt i) ?r (tick w2) = (Inr ?r, ?w3)"
    using write_run [of "tick w2" "si_receipt i" r ?r] sched p(4) st(1) assms(2) by (simp add: fresh_def w2)
  have "swap_commit i r w = (Inr ?r, ?w3)"
    using assms(5) monotonic_run [OF st(2) c(1-3)]
    by (simp add: swap_commit_def bindM_run moves prints requireM_run now_run liftM_run w2
      transition_add_check [OF st(3) swap_check] t(1) wr bound_files_def)
  moreover have "swapped r ?r" using t(2) by (auto simp: swapped_def valid_receipt_def)
  moreover have "at_stage i ?t ?r original new Replaced ?w3"
    using at2 t(2) by (auto simp: at_stage_def laid_out_def put_stored valid_receipt_def stored_files)
  ultimately show ?thesis using that by blast
qed


text \<open>With nothing failing and a clock that has advanced once the start is
  recorded, a swap that is prepared completes: the
  candidate is live, the original is at the rollback path and the receipt says \<open>swapped\<close>.\<close>

lemma swap_completes:
  assumes "swap_input_ok i" "fresh i T w" "w_clock w (w_ticks w + 1) < w_clock w (w_ticks w + 3)"
    and "at_stage i T r0 original new Untouched w" "r_phase r0 = CandidateReady"
    and "bound_files i r0 original new" "f_dev original = f_dev new"
  shows "\<exists>r w' T'. swapRecoveryCandidate i w = (Inr r, w') \<and> complete i T' r0 original new r w'"
proof -
  from swap_starts [OF assms(1,2,4-7)] obtain r w1
    where s: "bindM (swap_prepare i) (\<lambda>s. writeRecoveryReceiptAtomic (si_receipt i) s) w = (Inr r, w1)" "started r0 r"
      "at_stage i (w_clock w (Suc (w_ticks w))) r original new Untouched w1"
      "w1 = put_receipt (si_receipt i) r (tick (tick (tick w)))" .
  have "w_clock w (Suc (w_ticks w)) < w_clock w k" if "Suc (Suc (Suc (w_ticks w))) \<le> k" for k
    using assms(3) monoD [of "w_clock w" "w_ticks w + 3" k] assms(2) that by (simp add: fresh_def)
  moreover have "0 \<le> w_clock w (Suc (w_ticks w))" using fresh_clock(1,2) [OF assms(2), of "Suc (w_ticks w)"] by simp
  ultimately have fr: "fresh i (w_clock w (Suc (w_ticks w))) w1"
    using assms(2) by (auto simp: fresh_def s(4) put_receipt_def)
  have b: "bound_files i r original new"
    using assms(6) s(2) by (auto simp: bound_files_def started_def)
  from commit_completes [OF assms(1) fr s(3) started_state(3) [OF s(2)] b] obtain r' w' T'
    where c: "swap_commit i r w1 = (Inr r', w')" "swapped r r'" "at_stage i T' r' original new Replaced w'" .
  have "swapRecoveryCandidate i w = (Inr r', w')"
    using assms(1) s(1) c(1)
    by (auto simp: swapRecoveryCandidate_def bindM_Inr_iff [of "liftM _"] bindM_Inr_iff [of "orFail _ _"] liftM_run orFail_Inr
      validateSwapInput_def)
  with c swapped_state [OF s(2) c(2)] show ?thesis by (auto simp: complete_def)
qed

text \<open>A receipt at \<open>swap_started\<close> whose files were never moved is a dead end: reconciling
  answers \<open>ready_to_swap\<close> and changes nothing, but swapping refuses the phase and rolling back refuses
  the live database.\<close>

lemma started_untouched_stuck:
  assumes "at_stage i T r original new Untouched w" "r_phase r = SwapStarted" "bound_files i r original new"
    and "swap_input_ok i" "fresh i T w" "ri_receipt j = si_receipt i" "ri_live j = si_live i"
  shows "(\<exists>w'. reconcileRecoveryReceipt i w = (Inr (ReadyToSwap, r), w') \<and> disk w' = disk w)
    \<and> \<not> is_ok (fst (swapRecoveryCandidate i w)) \<and> disk (snd (swapRecoveryCandidate i w)) = disk w
    \<and> \<not> is_ok (fst (rollbackRecoverySwap mat j w)) \<and> disk (snd (rollbackRecoverySwap mat j w)) = disk w"
proof -
  have st: "stored (si_receipt i) r w" "w_files w (si_live i) = Some original"
    using assms(1) by (simp_all add: at_stage_def laid_out_def)
  have "reconcile_body i w = (Inr (ReadyToSwap, r), tick w)"
    using reconcile_acts [OF assms(4,5,1) _ assms(3)] assms(2) by (simp add: swap_stage_iff returnM_run)
  then have rec: "reconcileRecoveryReceipt i w = (Inr (ReadyToSwap, r), tick w)"
    by (simp add: reconcileRecoveryReceipt_def bindM_run requireM_run assms(4) orFail_Inr)
  have sha: "f_sha original = r_liveSha r" using assms(3) by (simp add: bound_files_def)
  have roll: "\<not> is_ok (fst (rollbackRecoverySwap mat j w)) \<and> disk (snd (rollbackRecoverySwap mat j w)) = disk w"
  proof (cases "ri_currentSha j = ri_originalSha j")
    case True
    then have "validateRollbackInput j = Inl (RecoveryError ''recovery_rollback_request_invalid'' 2)"
      by (simp add: validateRollbackInput_def)
    then show ?thesis by (simp add: rollbackRecoverySwap_def bindM_run liftM_run)
  next
    case False
    with sha st assms(6,7) show ?thesis
      by (intro rollback_refused rollback_checks_refused [where original = original]) simp_all
  qed
  have "disk (tick w) = disk w" by (simp add: tick_def)
  with rec roll swap_refused [OF st(1)] assms(2) show ?thesis by simp
qed


section \<open>A swap at work\<close>

definition sample_swap :: swap_input where
  "sample_swap = \<lparr>si_receipt = ''/data/receipt.json'', si_live = ''/data/portal.sqlite'', si_candidate = ''/data/candidate.sqlite'',
     si_rollback = ''/data/rollback.sqlite'', si_liveSha = sample_hash (CHR ''a''), si_candidateSha = sample_hash (CHR ''d''),
     si_lock = ''/data/recovery.lock''\<rparr>"

definition sample_file :: "char \<Rightarrow> fs_file" where
  "sample_file c = \<lparr>f_regular = True, f_sha = sample_hash c, f_bytes = 4096, f_dev = 1\<rparr>"

definition sample_disk :: "receipt \<Rightarrow> io list \<Rightarrow> (nat \<Rightarrow> int) \<Rightarrow> world" where
  "sample_disk r s c = \<lparr>w_files = [''/data/portal.sqlite'' \<mapsto> sample_file (CHR ''a''), ''/data/candidate.sqlite'' \<mapsto> sample_file (CHR ''d'')],
     w_receipts = [''/data/receipt.json'' \<mapsto> \<lparr>rf_regular = True, rf_private = True, rf_canonical = True, rf_contents = receipt_contents r\<rparr>],
     w_directory = (\<lambda>_. True), w_locks = [''/data/recovery.lock''], w_schedule = s, w_clock = c, w_ticks = 0\<rparr>"

lemma sample_swap_ok: "swap_input_ok sample_swap"
  using sample_hashes
  by (simp add: sample_swap_def swap_input_ok_def validPath_def dirname_def sample_hash_def)

lemma sample_file_ok: "file_ok (sample_file (CHR ''a''))" "file_ok (sample_file (CHR ''d''))"
  using sample_hashes by (simp_all add: file_ok_def sample_file_def safe_integer_def max_safe_def)

lemma sample_bound:
  "r_liveSha r = sample_hash (CHR ''a'') \<Longrightarrow> r_binding r \<noteq> None
     \<Longrightarrow> bound_files sample_swap r (sample_file (CHR ''a'')) (sample_file (CHR ''d''))"
  using sample_file_ok by (simp add: bound_files_def sample_swap_def sample_file_def)

lemma sample_at:
  "valid_receipt T r \<Longrightarrow>
     at_stage sample_swap T r (sample_file (CHR ''a'')) (sample_file (CHR ''d'')) Untouched (sample_disk r s c)"
  by (simp add: at_stage_def stored_def laid_out_def sample_disk_def sample_swap_def valid_receipt_def)

lemma sample_clock: "clock_le 2000 (sample_disk r s (\<lambda>_. 2000))"
  by (simp add: clock_le_def sample_disk_def max_safe_def)

lemma sample_fresh:
  "0 \<le> T \<Longrightarrow> T < a \<Longrightarrow> a \<le> b \<Longrightarrow> b \<le> max_iso \<Longrightarrow> fresh sample_swap T ((sample_disk r [] (\<lambda>k. if k < 3 then a else b))\<lparr>w_files := f, w_receipts := g\<rparr>)"
  by (auto simp: fresh_def sample_disk_def sample_swap_def mono_def)

lemma sample_fresh':
  "0 \<le> T \<Longrightarrow> T < a \<Longrightarrow> a \<le> b \<Longrightarrow> b \<le> max_iso \<Longrightarrow> fresh sample_swap T (sample_disk r [] (\<lambda>k. if k < 3 then a else b))"
  by (auto simp: fresh_def sample_disk_def sample_swap_def mono_def)

lemma sample_phase: "r_phase sample_receipt = CandidateReady" "r_liveSha sample_receipt = sample_hash (CHR ''a'')"
  "r_binding sample_receipt \<noteq> None"
  by (simp_all add: sample_receipt_def)

text \<open>A crash in the middle of the swap, after twelve calls.\<close>

definition sample_crash :: world where
  "sample_crash = sample_disk sample_receipt (replicate 12 IoOk @ [Crash]) (\<lambda>_. 2000)"

lemma swap_crash_safe_witness:
  "swap_state sample_swap 2000 sample_receipt (sample_file (CHR ''a'')) (sample_file (CHR ''d''))
     (snd (swapRecoveryCandidate sample_swap sample_crash))"
  using swap_crash_safe [OF sample_at [OF sample_valid] sample_clock sample_phase(1), of "replicate 12 IoOk @ [Crash]"
    "fst (swapRecoveryCandidate sample_swap sample_crash)" "snd (swapRecoveryCandidate sample_swap sample_crash)"]
  by (simp add: sample_crash_def)

lemma crash_then_reconcile_witness:
  "\<exists>a r w3. reconcileRecoveryReceipt sample_swap ((sample_disk sample_receipt [] (\<lambda>k. if k < 3 then 3000 else 4000))
     \<lparr>w_files := w_files (snd (swapRecoveryCandidate sample_swap sample_crash)),
      w_receipts := w_receipts (snd (swapRecoveryCandidate sample_swap sample_crash))\<rparr>) = (Inr (a, r), w3)"
  using crash_then_reconcile [OF sample_at [OF sample_valid] sample_clock sample_phase(1), of "replicate 12 IoOk @ [Crash]"
    "fst (swapRecoveryCandidate sample_swap sample_crash)" "snd (swapRecoveryCandidate sample_swap sample_crash)",
    OF _ sample_swap_ok sample_bound [OF sample_phase(2,3)] sample_fresh [where T = 2000 and a = 3000 and b = 4000 and r = sample_receipt]]
  by (fastforce simp: sample_crash_def max_iso_def)

lemma swap_completes_witness:
  "\<exists>r w'. swapRecoveryCandidate sample_swap (sample_disk sample_receipt [] (\<lambda>k. if k < 3 then 3000 else 4000)) = (Inr r, w')"
  using swap_completes [OF sample_swap_ok sample_fresh' [where T = 2000 and a = 3000 and b = 4000] _ sample_at [OF sample_valid] sample_phase(1)
    sample_bound [OF sample_phase(2,3)]]
  by (auto simp: sample_disk_def sample_file_def max_iso_def)

definition sample_started :: receipt where
  "sample_started = sample_receipt\<lparr>r_phase := SwapStarted, r_updatedAt := to_iso 2000\<rparr>"

lemma sample_started_valid: "valid_receipt 2000 sample_started"
  unfolding sample_started_def by (rule transition_Inr [OF sample_transition]) simp

lemma sample_started_phase: "r_phase sample_started = SwapStarted" "r_liveSha sample_started = sample_hash (CHR ''a'')"
  "r_binding sample_started \<noteq> None"
  using sample_phase by (simp_all add: sample_started_def)

definition sample_rollback :: rollback_input where
  "sample_rollback = \<lparr>ri_receipt = ''/data/receipt.json'', ri_live = ''/data/portal.sqlite'', ri_rollback = ''/data/rollback.sqlite'',
     ri_failed = ''/data/failed.sqlite'', ri_point = ''/data/point.enc'', ri_password = ''secret'', ri_temp = ''/data/restore.sqlite'',
     ri_currentSha = sample_hash (CHR ''d''), ri_originalSha = sample_hash (CHR ''a''), ri_lock = ''/data/recovery.lock''\<rparr>"

lemma started_untouched_stuck_witness:
  "\<not> is_ok (fst (swapRecoveryCandidate sample_swap (sample_disk sample_started [] (\<lambda>k. if k < 3 then 3000 else 4000))))
   \<and> \<not> is_ok (fst (rollbackRecoverySwap (\<lambda>_ _. None) sample_rollback (sample_disk sample_started [] (\<lambda>k. if k < 3 then 3000 else 4000))))"
  using started_untouched_stuck [OF sample_at [OF sample_started_valid] sample_started_phase(1) sample_bound [OF sample_started_phase(2,3)]
    sample_swap_ok sample_fresh' [where T = 2000 and a = 3000 and b = 4000], of sample_rollback "\<lambda>_ _. None"]
  by (simp add: max_iso_def sample_rollback_def sample_swap_def)

definition sample_rolling :: receipt where
  "sample_rolling = sample_started\<lparr>r_phase := RollbackStarted, r_updatedAt := to_iso 3000\<rparr>"

lemma sample_rolling_valid: "valid_receipt 3000 sample_rolling"
  unfolding sample_rolling_def
  by (rule transition_clock(2) [OF sample_started_valid]) (use sample_started_phase in \<open>simp_all add: max_iso_def\<close>)

lemma rollback_started_stuck_witness:
  "\<not> is_ok (fst (rollbackRecoverySwap (\<lambda>_ _. None) sample_rollback (sample_disk sample_rolling [] (\<lambda>_. 4000))))
   \<and> \<not> is_ok (fst (reconcileRecoveryReceipt sample_swap (sample_disk sample_rolling [] (\<lambda>_. 4000))))"
  using rollback_started_stuck [of "''/data/receipt.json''" sample_rolling "sample_disk sample_rolling [] (\<lambda>_. 4000)" sample_swap
      sample_rollback "\<lambda>_ _. None"] sample_rolling_valid
  by (simp add: sample_swap_def sample_rollback_def stored_def sample_disk_def valid_receipt_def sample_rolling_def)

end
