(* ===== verification/LoginRateLimit.thy ===== *)
theory LoginRateLimit
  imports Database ConstantTime
begin

text \<open>
  The login rate limiter, \<open>login-rate-limit.ts\<close>: failures are counted per client address and per
  user name in fixed windows; at the limit a subject is blocked for a time that doubles with
  every further failure. The table is a map from scope and digest to a row; every call of the
  database is atomic and may fail, and other requests run between two calls (\<open>Database\<close>). The
  clock, the digest function and the 16-bit random draw are arguments. The source computes the
  jitter \<open>floor((e / 65535) * spread)\<close> in floating point; for the one spread that occurs (250)
  it is the integer quotient for each of the 65536 draws.
\<close>

section \<open>Subjects\<close>

datatype rate_scope = Client | Username

definition CLIENT_WINDOW_MS :: int where "CLIENT_WINDOW_MS = 60000"
definition CLIENT_LIMIT :: int where "CLIENT_LIMIT = 20"
definition USERNAME_WINDOW_MS :: int where "USERNAME_WINDOW_MS = 5 * 60000"
definition USERNAME_LIMIT :: int where "USERNAME_LIMIT = 8"
definition BASE_COOLDOWN_MS :: int where "BASE_COOLDOWN_MS = 1000"
definition MAX_COOLDOWN_MS :: int where "MAX_COOLDOWN_MS = 60000"
definition MAX_JITTER_MS :: int where "MAX_JITTER_MS = 250"
definition RETENTION_MS :: int where "RETENTION_MS = 24 * 60 * 60000"
definition UNKNOWN_CLIENT :: string where "UNKNOWN_CLIENT = ''unidentified-client''"

lemmas rate_constants = CLIENT_WINDOW_MS_def CLIENT_LIMIT_def USERNAME_WINDOW_MS_def USERNAME_LIMIT_def
  BASE_COOLDOWN_MS_def MAX_COOLDOWN_MS_def MAX_JITTER_MS_def RETENTION_MS_def

record rate_env =
  re_hasDB :: bool
  re_source :: "string option"
  re_proxySecret :: "string option"

definition opt_text :: "string option \<Rightarrow> string \<Rightarrow> string" where
  "opt_text v d = (case v of None \<Rightarrow> d | Some s \<Rightarrow> s)"

definition normalizeIp :: "string option \<Rightarrow> string" where
  "normalizeIp v =
     (let candidate = js_trim (opt_text v []) in
      if candidate = [] \<or> 80 < length candidate \<or> list_ex (\<lambda>c. c \<in> {CHR 0x0D, CHR 0x0A, CHR '',''}) candidate
      then UNKNOWN_CLIENT else js_lower candidate)"

text \<open>\<open>left[index] ?? 0\<close>\<close>

definition byte_at :: "nat list \<Rightarrow> nat \<Rightarrow> i32" where
  "byte_at bs i = (if i < length bs then of_nat (bs ! i) else 0)"

definition secretMatches :: "string \<Rightarrow> string \<Rightarrow> bool" where
  "secretMatches expected actual =
     (if expected = [] \<or> actual = [] then False
      else (let left = utf8 expected; right = utf8 actual; n = max (length left) (length right)
            in collect_diff (of_nat (length left) XOR of_nat (length right))
                 (map (byte_at left) [0..<n]) (map (byte_at right) [0..<n]) = 0))"

definition normalizeLoginSubject :: "js \<Rightarrow> string" where
  "normalizeLoginSubject v =
     (let s = take 64 (js_lower (js_trim (to_str (coalesce v (JStr [])))))
      in if s = [] then ''invalid-login'' else s)"

definition loginClientSubject :: "(string \<Rightarrow> string option) \<Rightarrow> rate_env \<Rightarrow> string" where
  "loginClientSubject headers env =
     (let source = js_lower (js_trim (opt_text (re_source env) ''none'')) in
      if source = ''cloudflare'' then normalizeIp (headers ''cf-connecting-ip'')
      else if source = ''trusted-proxy''
           \<and> secretMatches (opt_text (re_proxySecret env) []) (opt_text (headers ''x-portal-proxy-secret'') [])
      then normalizeIp (Some (case headers ''x-forwarded-for'' of
               None \<Rightarrow> [] | Some s \<Rightarrow> hd (js_split (CHR '','') s)))
      else UNKNOWN_CLIENT)"

definition scope_name :: "rate_scope \<Rightarrow> string" where
  "scope_name s = (case s of Client \<Rightarrow> ''client'' | Username \<Rightarrow> ''username'')"

definition subjectHash :: "(string \<Rightarrow> string) \<Rightarrow> rate_scope \<Rightarrow> string \<Rightarrow> string" where
  "subjectHash sha scope subject = sha (''portal-login-rate-limit:v1:'' @ scope_name scope @ '':'' @ subject)"

section \<open>Cooldown\<close>

definition policy :: "rate_scope \<Rightarrow> int \<times> int" where
  "policy s = (case s of Client \<Rightarrow> (CLIENT_WINDOW_MS, CLIENT_LIMIT) | Username \<Rightarrow> (USERNAME_WINDOW_MS, USERNAME_LIMIT))"

definition loginCooldownMs :: "int \<Rightarrow> int \<Rightarrow> int" where
  "loginCooldownMs failures limit =
     (if failures < limit then 0
      else (let exponent = min 6 (max 0 (failures - limit))
            in min MAX_COOLDOWN_MS (BASE_COOLDOWN_MS * 2 ^ nat exponent)))"

definition jitteredCooldownMs :: "nat \<Rightarrow> int \<Rightarrow> int" where
  "jitteredCooldownMs draw base =
     (if base \<le> 0 \<or> MAX_COOLDOWN_MS \<le> base then base
      else (let spread = min MAX_JITTER_MS (max 1 (base div 4))
            in min MAX_COOLDOWN_MS (base + int draw * spread div 65535)))"

text \<open>\<open>Math.ceil(n / 1000)\<close> of an integer.\<close>

definition retryAfterSeconds :: "int \<Rightarrow> int \<Rightarrow> int" where
  "retryAfterSeconds blockedUntil now = max 1 (- ((now - blockedUntil) div 1000))"

section \<open>The table and its operations\<close>

record rate_row =
  rr_failures :: int
  rr_window_started_at :: int
  rr_blocked_until :: int
  rr_updated_at :: int

type_synonym rate_tables = "rate_scope \<times> string \<Rightarrow> rate_row option"

datatype rate_error = StorageUnavailable | StorageFailed

type_synonym 'a rate_eff = "(rate_tables database, rate_error, 'a) eff"

record rate_decision =
  rd_limited :: bool
  rd_retry :: int
  rd_scope :: "rate_scope option"

definition not_limited :: rate_decision where
  "not_limited = \<lparr>rd_limited = False, rd_retry = 0, rd_scope = None\<rparr>"

definition purge :: "int \<Rightarrow> rate_tables \<Rightarrow> rate_tables" where
  "purge before t = (\<lambda>k. case t k of None \<Rightarrow> None | Some r \<Rightarrow> if rr_updated_at r < before then None else Some r)"

definition count_failure :: "int \<Rightarrow> int \<Rightarrow> rate_row option \<Rightarrow> rate_row" where
  "count_failure now resetBefore row = (case row of
      None \<Rightarrow> \<lparr>rr_failures = 1, rr_window_started_at = now, rr_blocked_until = 0, rr_updated_at = now\<rparr>
    | Some r \<Rightarrow> r\<lparr>
        rr_failures := (if rr_window_started_at r \<le> resetBefore then 1 else rr_failures r + 1),
        rr_window_started_at := (if rr_window_started_at r \<le> resetBefore then now else rr_window_started_at r),
        rr_updated_at := now\<rparr>)"

definition raise_block :: "int \<Rightarrow> int \<Rightarrow> rate_row \<Rightarrow> rate_row" where
  "raise_block blockedUntil now r = r\<lparr>rr_blocked_until := max (rr_blocked_until r) blockedUntil, rr_updated_at := now\<rparr>"

definition readRow :: "rate_scope \<Rightarrow> string \<Rightarrow> rate_row option rate_eff" where
  "readRow scope hash = d1_read StorageFailed (\<lambda>t. t (scope, hash))"

definition checkSubject :: "(string \<Rightarrow> string) \<Rightarrow> rate_scope \<Rightarrow> string \<Rightarrow> int \<Rightarrow> rate_decision rate_eff" where
  "checkSubject sha scope subject now =
     bindM (readRow scope (subjectHash sha scope subject)) (\<lambda>row.
     let blocked = (case row of None \<Rightarrow> 0 | Some r \<Rightarrow> rr_blocked_until r) in
     returnM (if blocked \<le> now then not_limited
       else \<lparr>rd_limited = True, rd_retry = retryAfterSeconds blocked now, rd_scope = Some scope\<rparr>))"

definition stronger :: "rate_decision \<Rightarrow> rate_decision \<Rightarrow> rate_decision" where
  "stronger client username =
     (if \<not> rd_limited client then username
      else if \<not> rd_limited username \<or> rd_retry username \<le> rd_retry client then client else username)"

definition checkLoginRateLimit ::
  "(string \<Rightarrow> string) \<Rightarrow> rate_env \<Rightarrow> (string \<Rightarrow> string option) \<Rightarrow> js \<Rightarrow> int \<Rightarrow> rate_decision rate_eff" where
  "checkLoginRateLimit sha env headers username now =
     bindM (requireM (re_hasDB env) StorageUnavailable) (\<lambda>_.
     bindM (checkSubject sha Client (loginClientSubject headers env) now) (\<lambda>c.
     bindM (checkSubject sha Username (normalizeLoginSubject username) now) (\<lambda>u.
     returnM (stronger c u))))"

definition recordSubjectFailure :: "(string \<Rightarrow> string) \<Rightarrow> nat \<Rightarrow> rate_scope \<Rightarrow> string \<Rightarrow> int \<Rightarrow> rate_decision rate_eff" where
  "recordSubjectFailure sha draw scope subject now =
     (let key = (scope, subjectHash sha scope subject); (windowMs, limit) = policy scope in
      bindM (d1_call StorageFailed (\<lambda>t. let r = count_failure now (now - windowMs) (t key) in (r, t(key := Some r)))) (\<lambda>row.
      let cooldown = jitteredCooldownMs draw (loginCooldownMs (rr_failures row) limit) in
      if cooldown \<le> 0 then returnM not_limited
      else
        bindM (d1_call StorageFailed (\<lambda>t. ((), t(key := map_option (raise_block (now + cooldown) now) (t key))))) (\<lambda>_.
        returnM \<lparr>rd_limited = True, rd_retry = retryAfterSeconds (now + cooldown) now, rd_scope = Some scope\<rparr>)))"

definition recordLoginFailure ::
  "(string \<Rightarrow> string) \<Rightarrow> nat \<Rightarrow> nat \<Rightarrow> rate_env \<Rightarrow> (string \<Rightarrow> string option) \<Rightarrow> js \<Rightarrow> int \<Rightarrow> rate_decision rate_eff" where
  "recordLoginFailure sha draw1 draw2 env headers username now =
     bindM (requireM (re_hasDB env) StorageUnavailable) (\<lambda>_.
     bindM (d1_call StorageFailed (\<lambda>t. ((), purge (now - RETENTION_MS) t))) (\<lambda>_.
     bindM (recordSubjectFailure sha draw1 Client (loginClientSubject headers env) now) (\<lambda>c.
     bindM (recordSubjectFailure sha draw2 Username (normalizeLoginSubject username) now) (\<lambda>u.
     returnM (stronger c u)))))"

definition recordLoginSuccess :: "(string \<Rightarrow> string) \<Rightarrow> rate_env \<Rightarrow> js \<Rightarrow> unit rate_eff" where
  "recordLoginSuccess sha env username =
     bindM (requireM (re_hasDB env) StorageUnavailable) (\<lambda>_.
     d1_call StorageFailed (\<lambda>t. ((), t((Username, subjectHash sha Username (normalizeLoginSubject username)) := None))))"

section \<open>Bounds\<close>

lemma cooldown_zero_iff: "loginCooldownMs f l = 0 \<longleftrightarrow> f < l"
  by (simp add: loginCooldownMs_def rate_constants Let_def min_def)

lemma cooldown_bounds: "l \<le> f \<Longrightarrow> BASE_COOLDOWN_MS \<le> loginCooldownMs f l \<and> loginCooldownMs f l \<le> MAX_COOLDOWN_MS"
  by (simp add: loginCooldownMs_def rate_constants Let_def)

lemma cooldown_nonneg: "0 \<le> loginCooldownMs f l"
  using cooldown_bounds [of l f] by (cases "f < l") (simp_all add: loginCooldownMs_def rate_constants)

lemma cooldown_mono: "f \<le> g \<Longrightarrow> loginCooldownMs f l \<le> loginCooldownMs g l"
proof (cases "f < l")
  case True
  then have "loginCooldownMs f l = 0" by (simp add: cooldown_zero_iff)
  then show ?thesis using cooldown_nonneg by simp
next
  case False
  assume le: "f \<le> g"
  define p where "p = (2::int) ^ nat (min 6 (max 0 (f - l)))"
  define q where "q = (2::int) ^ nat (min 6 (max 0 (g - l)))"
  have "p \<le> q" unfolding p_def q_def using le by (intro power_increasing nat_mono) auto
  then have "min MAX_COOLDOWN_MS (BASE_COOLDOWN_MS * p) \<le> min MAX_COOLDOWN_MS (BASE_COOLDOWN_MS * q)"
    by (intro min.mono mult_left_mono) (simp_all add: rate_constants)
  with False le show ?thesis by (simp add: loginCooldownMs_def Let_def p_def q_def)
qed

lemma jitter_bounds:
  assumes "draw < 65536" "0 \<le> base" "base \<le> MAX_COOLDOWN_MS"
  shows "base \<le> jitteredCooldownMs draw base \<and> jitteredCooldownMs draw base \<le> MAX_COOLDOWN_MS
    \<and> jitteredCooldownMs draw base \<le> base + MAX_JITTER_MS"
proof -
  let ?spread = "min MAX_JITTER_MS (max 1 (base div 4))"
  have s: "0 \<le> ?spread" "?spread \<le> MAX_JITTER_MS" by (simp_all add: rate_constants)
  have "int draw * ?spread \<le> 65535 * ?spread"
    using assms(1) s(1) by (intro mult_right_mono) simp_all
  from zdiv_mono1 [OF this, of 65535] have hi: "int draw * ?spread div 65535 \<le> ?spread" by simp
  have lo: "0 \<le> int draw * ?spread div 65535" using s(1) by (simp add: pos_imp_zdiv_nonneg_iff)
  define j where "j = int draw * ?spread div 65535"
  have j: "0 \<le> j" "j \<le> MAX_JITTER_MS"
    unfolding j_def by (rule lo, rule order_trans [OF hi s(2)])
  have "jitteredCooldownMs draw base = base \<or> jitteredCooldownMs draw base = min MAX_COOLDOWN_MS (base + j)"
    by (simp add: jitteredCooldownMs_def Let_def j_def)
  then show ?thesis
  proof
    assume r: "jitteredCooldownMs draw base = base"
    have "0 \<le> MAX_JITTER_MS" by (simp add: rate_constants)
    with assms(3) show ?thesis unfolding r by linarith
  next
    assume r: "jitteredCooldownMs draw base = min MAX_COOLDOWN_MS (base + j)"
    from assms(3) j show ?thesis unfolding r by (cases "MAX_COOLDOWN_MS \<le> base + j") (simp_all add: min_def)
  qed
qed

text \<open>The cooldown of a login failure is zero exactly below the limit, grows with every failure
  and never exceeds a minute; the random jitter lengthens it by at most a quarter of a second and never
  shortens it.\<close>

lemma login_cooldown_bounds:
  assumes "draw < 65536" "f \<le> g"
  shows "(loginCooldownMs f l = 0 \<longleftrightarrow> f < l) \<and> loginCooldownMs f l \<le> loginCooldownMs g l
    \<and> (l \<le> f \<longrightarrow> BASE_COOLDOWN_MS \<le> loginCooldownMs f l)
    \<and> loginCooldownMs f l \<le> jitteredCooldownMs draw (loginCooldownMs f l)
    \<and> jitteredCooldownMs draw (loginCooldownMs f l) \<le> min MAX_COOLDOWN_MS (loginCooldownMs f l + MAX_JITTER_MS)"
proof -
  have "loginCooldownMs f l \<le> MAX_COOLDOWN_MS"
    using cooldown_bounds [of l f] by (cases "f < l") (simp_all add: loginCooldownMs_def rate_constants)
  with jitter_bounds [OF assms(1) cooldown_nonneg] cooldown_mono [OF assms(2)] cooldown_zero_iff cooldown_bounds
  show ?thesis by simp
qed

lemma login_cooldown_bounds_witness:
  "loginCooldownMs 9 USERNAME_LIMIT = 2000 \<and> 2000 \<le> jitteredCooldownMs 65535 2000"
proof -
  have "loginCooldownMs 9 USERNAME_LIMIT = 2000" by code_simp
  with login_cooldown_bounds [of 65535 9 9 USERNAME_LIMIT] show ?thesis by simp
qed

section \<open>Trust in the proxy\<close>

lemma bytes_at: "map (byte_at bs) [0..<length bs] = map of_nat bs"
  by (rule nth_equalityI) (simp_all add: byte_at_def)

lemma of_nat_bytes: "list_all (\<lambda>b. b < 256) xs \<Longrightarrow> list_all (\<lambda>b. b < 256) ys \<Longrightarrow>
    map (of_nat :: nat \<Rightarrow> i32) xs = map of_nat ys \<longleftrightarrow> xs = ys"
proof (induction xs arbitrary: ys)
  case (Cons x xs)
  then show ?case
  proof (cases ys)
    case (Cons y ys')
    have "(of_nat x :: i32) = of_nat y \<longleftrightarrow> x = y" if "x < 256" "y < 256"
    proof
      assume "(of_nat x :: i32) = of_nat y"
      then have "unat (of_nat x :: i32) = unat (of_nat y :: i32)" by simp
      with that show "x = y" by (simp add: unsigned_of_nat take_bit_nat_eq_self)
    qed simp
    with Cons Cons.prems Cons.IH show ?thesis by auto
  qed simp
qed auto

lemma secretMatches_iff:
  assumes "length (utf8 e) < 2 ^ 32" "length (utf8 a) < 2 ^ 32"
  shows "secretMatches e a \<longleftrightarrow> e \<noteq> [] \<and> e = a"
proof -
  have b: "list_all (\<lambda>b. b < 256) (utf8 s)" for s by (auto simp: list_all_iff dest: utf8_bytes)
  have "(of_nat (length (utf8 e)) :: i32) = of_nat (length (utf8 a)) \<longleftrightarrow> length (utf8 e) = length (utf8 a)"
  proof
    assume "(of_nat (length (utf8 e)) :: i32) = of_nat (length (utf8 a))"
    then have "unat (of_nat (length (utf8 e)) :: i32) = unat (of_nat (length (utf8 a)) :: i32)" by simp
    with assms show "length (utf8 e) = length (utf8 a)" by (simp add: unsigned_of_nat take_bit_nat_eq_self)
  qed simp
  moreover have "map (byte_at (utf8 e)) [0..<max (length (utf8 e)) (length (utf8 a))]
      = map (byte_at (utf8 a)) [0..<max (length (utf8 e)) (length (utf8 a))] \<longleftrightarrow> utf8 e = utf8 a"
    if "length (utf8 e) = length (utf8 a)"
    using that bytes_at [of "utf8 e"] bytes_at [of "utf8 a"] of_nat_bytes [OF b b] by simp
  ultimately have "secretMatches e a \<longleftrightarrow> e \<noteq> [] \<and> a \<noteq> [] \<and> utf8 e = utf8 a"
    by (auto simp: secretMatches_def Let_def collect_diff_zero xor_eq_zero)
  then show ?thesis by (auto dest: utf8_inj)
qed

text \<open>A forwarded client address is used only when the request carries exactly the configured
  proxy secret; without it every request behind a trusted proxy is one and the same subject, whatever
  its headers say.\<close>

lemma forwarded_needs_secret:
  assumes "js_lower (js_trim (opt_text (re_source env) ''none'')) = ''trusted-proxy''"
    and "length (utf8 (opt_text (re_proxySecret env) [])) < 2 ^ 32"
    and "length (utf8 (opt_text (headers ''x-portal-proxy-secret'') [])) < 2 ^ 32"
  shows "loginClientSubject headers env =
    (if re_proxySecret env \<noteq> None \<and> re_proxySecret env \<noteq> Some [] \<and> headers ''x-portal-proxy-secret'' = re_proxySecret env
     then normalizeIp (Some (case headers ''x-forwarded-for'' of None \<Rightarrow> [] | Some s \<Rightarrow> hd (js_split (CHR '','') s)))
     else UNKNOWN_CLIENT)"
  using assms secretMatches_iff [OF assms(2,3)]
  by (cases "re_proxySecret env"; cases "headers ''x-portal-proxy-secret''")
    (auto simp: loginClientSubject_def Let_def opt_text_def)

lemma forwarded_needs_secret_witness:
  "loginClientSubject ((\<lambda>_. None)(''x-forwarded-for'' := Some ''10.0.0.1'', ''x-portal-proxy-secret'' := Some ''guess''))
     \<lparr>re_hasDB = True, re_source = Some ''trusted-proxy'', re_proxySecret = Some ''secret''\<rparr> = UNKNOWN_CLIENT"
proof -
  have "js_lower (js_trim ''trusted-proxy'') = ''trusted-proxy''" by code_simp
  moreover have "length (utf8 ''secret'') = 6" "length (utf8 ''guess'') = 5" by code_simp+
  ultimately show ?thesis
    by (subst forwarded_needs_secret) (simp_all add: opt_text_def)
qed

section \<open>A block cannot be lifted by others\<close>

text \<open>
  What other requests do to the table during one retention period that begins at \<open>lo\<close>: they count
  failures, raise blocks, purge old rows and, except for the subject \<open>k\<close> itself, clear subjects (after a
  login, a password reset or the deletion of an account).
\<close>

inductive rate_step :: "int \<Rightarrow> rate_scope \<times> string \<Rightarrow> rate_tables \<Rightarrow> rate_tables \<Rightarrow> bool" for lo k where
  counted: "lo \<le> now \<Longrightarrow> now \<le> lo + RETENTION_MS
    \<Longrightarrow> rate_step lo k t (t(j := Some (count_failure now before (t j))))"
| raised: "lo \<le> now \<Longrightarrow> now \<le> lo + RETENTION_MS
    \<Longrightarrow> rate_step lo k t (t(j := map_option (raise_block b now) (t j)))"
| purged: "now \<le> lo + RETENTION_MS \<Longrightarrow> rate_step lo k t (purge (now - RETENTION_MS) t)"
| forgotten: "j \<noteq> k \<Longrightarrow> rate_step lo k t (t(j := None))"

inductive_cases rate_stepE: "rate_step lo k t t'"

definition blocked :: "rate_scope \<times> string \<Rightarrow> int \<Rightarrow> int \<Rightarrow> rate_tables \<Rightarrow> bool" where
  "blocked k b lo t = (case t k of None \<Rightarrow> False | Some r \<Rightarrow> b \<le> rr_blocked_until r \<and> lo \<le> rr_updated_at r)"

lemma blocked_step: "blocked k b lo t \<Longrightarrow> rate_step lo k t t' \<Longrightarrow> blocked k b lo t'"
  by (erule rate_stepE)
    (auto simp: blocked_def count_failure_def raise_block_def purge_def split: option.splits if_splits)

interpretation rate: table_protocol "rate_step lo k" "blocked k b lo" for lo k b
  by unfold_locales (rule blocked_step)

lemma follows_check [follows_intros]: "follows (rate_step lo k) (checkSubject sha scope subject now)"
  unfolding checkSubject_def readRow_def Let_def by (intro follows_intros)

lemma follows_record [follows_intros]:
  assumes "lo \<le> now" "now \<le> lo + RETENTION_MS"
  shows "follows (rate_step lo k) (recordSubjectFailure sha draw scope subject now)"
  unfolding recordSubjectFailure_def Let_def
  by (cases "policy scope") (auto intro!: follows_intros r_into_rtranclp rate_step.counted rate_step.raised assms)

lemma follows_failure:
  assumes "lo \<le> now" "now \<le> lo + RETENTION_MS"
  shows "follows (rate_step lo k) (recordLoginFailure sha d1 d2 env headers username now)"
  unfolding recordLoginFailure_def
  by (intro follows_intros assms) (auto intro!: r_into_rtranclp rate_step.purged assms)

lemma follows_success:
  assumes "k \<noteq> (Username, subjectHash sha Username (normalizeLoginSubject username))"
  shows "follows (rate_step lo k) (recordLoginSuccess sha env username)"
  unfolding recordLoginSuccess_def
  by (intro follows_intros) (use assms in \<open>auto intro!: r_into_rtranclp rate_step.forgotten\<close>)

lemma retry_before:
  assumes "0 < cooldown"
  shows "1000 * (retryAfterSeconds (now + cooldown) now - 1) < cooldown"
proof -
  have "- (- cooldown div 1000) * 1000 < cooldown + 1000"
    using mult_div_mod_eq [of 1000 "- cooldown"] pos_mod_bound [of 1000 "- cooldown"] by simp
  with assms show ?thesis by (simp add: retryAfterSeconds_def max_def)
qed

lemma record_blocks:
  assumes "recordSubjectFailure sha draw scope subject now w = (Inr d, w1)" "rd_limited d" "draw < 65536"
    and "env_follows (rate_step lo (scope, subjectHash sha scope subject)) w" "lo \<le> now"
  shows "\<exists>cooldown > 0. rd_retry d = retryAfterSeconds (now + cooldown) now
    \<and> blocked (scope, subjectHash sha scope subject) (now + cooldown) lo (db_tables w1)"
proof -
  let ?k = "(scope, subjectHash sha scope subject)"
  obtain windowMs limit where p: "policy scope = (windowMs, limit)" by (cases "policy scope")
  let ?count = "\<lambda>t. let r = count_failure now (now - windowMs) (t ?k) in (r, t(?k := Some r))"
  from assms(1) p obtain row w2 where c: "d1_call StorageFailed ?count w = (Inr row, w2)"
    and rest: "(let cooldown = jitteredCooldownMs draw (loginCooldownMs (rr_failures row) limit) in
      if cooldown \<le> 0 then returnM not_limited
      else bindM (d1_call StorageFailed (\<lambda>t. ((), t(?k := map_option (raise_block (now + cooldown) now) (t ?k))))) (\<lambda>_.
        returnM \<lparr>rd_limited = True, rd_retry = retryAfterSeconds (now + cooldown) now, rd_scope = Some scope\<rparr>)) w2 = (Inr d, w1)"
    unfolding recordSubjectFailure_def Let_def [of ?k] by (auto simp: bindM_Inr_iff)
  define cooldown where "cooldown = jitteredCooldownMs draw (loginCooldownMs (rr_failures row) limit)"
  have pos: "0 < cooldown"
    using rest assms(2) by (auto simp: cooldown_def [symmetric] Let_def returnM_run not_limited_def split: if_splits)
  with rest obtain w3 where r: "d1_call StorageFailed (\<lambda>t. ((), t(?k := map_option (raise_block (now + cooldown) now) (t ?k)))) w2 = (Inr (), w3)"
    "d = \<lparr>rd_limited = True, rd_retry = retryAfterSeconds (now + cooldown) now, rd_scope = Some scope\<rparr>" "w1 = w3"
    by (auto simp: cooldown_def [symmetric] Let_def bindM_Inr_iff returnM_run)
  from d1_call_Inr [OF c assms(4)] obtain t1 where t1: "?count t1 = (row, db_tables w2)" "env_follows (rate_step lo ?k) w2" by blast
  then have e: "db_tables w2 = t1(?k := Some row)" "row = count_failure now (now - windowMs) (t1 ?k)"
    by (auto simp: Let_def)
  have "blocked ?k (rr_blocked_until row) lo (db_tables w2)"
    unfolding blocked_def e(1) using assms(5) by (simp add: e(2) count_failure_def split: option.splits)
  moreover from d1_call_Inr [OF r(1) t1(2)] obtain t2 where t2: "(rate_step lo ?k)\<^sup>*\<^sup>* (db_tables w2) t2"
    "db_tables w3 = t2(?k := map_option (raise_block (now + cooldown) now) (t2 ?k))" by auto
  ultimately have "blocked ?k (rr_blocked_until row) lo t2" by (metis rate.steps_inv)
  then have "blocked ?k (now + cooldown) lo (db_tables w1)"
    using t2(2) r(3) assms(5) by (auto simp: blocked_def raise_block_def split: option.splits)
  with pos r(2) show ?thesis by auto
qed

text \<open>C32: A subject that was told to wait stays refused: after a failure answered with a retry time of
  \<open>n\<close> seconds, every check of the same subject in the first \<open>n - 1\<close> of these seconds is refused, whatever
  counting, blocking and purging other requests do in between. The premises are the source's own limits: the
  table is only changed as \<open>rate_step\<close> allows, that is by requests whose clocks are within one retention
  period (24 hours) from \<open>lo\<close>, and no request clears this very subject. The code clears a subject after a
  successful login of the user name, when the password of that account is reset and when the account is
  deleted; each of them lifts the block early, and none of them clears an address.\<close>

theorem block_enforced:
  assumes "recordSubjectFailure sha draw scope subject now w = (Inr d, w1)" "rd_limited d" "draw < 65536"
    and "env_follows (rate_step lo (scope, subjectHash sha scope subject)) w" "lo \<le> now"
    and "(rate_step lo (scope, subjectHash sha scope subject))\<^sup>*\<^sup>* (db_tables w1) (db_tables w2)"
    and "env_follows (rate_step lo (scope, subjectHash sha scope subject)) w2"
    and "checkSubject sha scope subject t w2 = (Inr d2, w3)" "t \<le> now + 1000 * (rd_retry d - 1)"
  shows "rd_limited d2 \<and> rd_scope d2 = Some scope \<and> 1 \<le> rd_retry d2"
proof -
  let ?k = "(scope, subjectHash sha scope subject)"
  from record_blocks [OF assms(1-5)] obtain cooldown where c: "0 < cooldown" "rd_retry d = retryAfterSeconds (now + cooldown) now"
    "blocked ?k (now + cooldown) lo (db_tables w1)" by blast
  have b: "blocked ?k (now + cooldown) lo (db_tables w2)" using rate.steps_inv [OF assms(6) c(3)] .
  from assms(8) obtain row where r: "d1_read StorageFailed (\<lambda>t. t ?k) w2 = (Inr row, w3)"
    and d2: "d2 = (if (case row of None \<Rightarrow> 0 | Some r \<Rightarrow> rr_blocked_until r) \<le> t then not_limited
       else \<lparr>rd_limited = True, rd_retry = retryAfterSeconds (case row of None \<Rightarrow> 0 | Some r \<Rightarrow> rr_blocked_until r) t, rd_scope = Some scope\<rparr>)"
    unfolding checkSubject_def readRow_def by (auto simp: eff_Inr_iffs Let_def)
  from d1_read_Inr [OF r assms(7)] b have "blocked ?k (now + cooldown) lo (db_tables w3)" "row = db_tables w3 ?k"
    by (metis rate.steps_inv)+
  moreover have "t < now + cooldown" using assms(9) c(1,2) retry_before [of cooldown now] by simp
  ultimately show ?thesis
    by (auto simp: d2 blocked_def retryAfterSeconds_def split: option.splits)
qed

section \<open>The window\<close>

text \<open>Failures of one subject at the given times, one request after the other, nothing failing.\<close>

fun failure_run :: "(string \<Rightarrow> string) \<Rightarrow> nat \<Rightarrow> rate_scope \<Rightarrow> string \<Rightarrow> int list \<Rightarrow> rate_tables \<Rightarrow> bool list" where
  "failure_run sha draw scope subject [] t = []"
| "failure_run sha draw scope subject (now # ts) t =
     (case recordSubjectFailure sha draw scope subject now \<lparr>db_tables = t, db_schedule = []\<rparr> of
        (Inr d, w) \<Rightarrow> rd_limited d # failure_run sha draw scope subject ts (db_tables w)
      | (Inl e, w) \<Rightarrow> [])"

declare failure_run.simps(2) [simp del]

lemma record_quiet:
  fixes sha subject
  assumes "draw < 65536" "policy scope = (windowMs, limit)"
  defines "k \<equiv> (scope, subjectHash sha scope subject)"
  shows "\<exists>d t'. recordSubjectFailure sha draw scope subject now \<lparr>db_tables = t, db_schedule = []\<rparr>
      = (Inr d, \<lparr>db_tables = t', db_schedule = []\<rparr>)
    \<and> (rd_limited d \<longleftrightarrow> limit \<le> rr_failures (count_failure now (now - windowMs) (t k)))
    \<and> (\<exists>r. t' k = Some r \<and> rr_failures r = rr_failures (count_failure now (now - windowMs) (t k))
         \<and> rr_window_started_at r = rr_window_started_at (count_failure now (now - windowMs) (t k)))"
proof -
  define row where "row = count_failure now (now - windowMs) (t k)"
  define c where "c = jitteredCooldownMs draw (loginCooldownMs (rr_failures row) limit)"
  have "loginCooldownMs (rr_failures row) limit \<le> MAX_COOLDOWN_MS"
    using cooldown_bounds [of limit "rr_failures row"]
    by (cases "rr_failures row < limit") (simp_all add: loginCooldownMs_def rate_constants)
  with jitter_bounds [OF assms(1) cooldown_nonneg] have "loginCooldownMs (rr_failures row) limit \<le> c" by (simp add: c_def)
  moreover have "rr_failures row < limit \<Longrightarrow> c = 0" by (simp add: c_def loginCooldownMs_def jitteredCooldownMs_def)
  moreover have "limit \<le> rr_failures row \<Longrightarrow> 0 < loginCooldownMs (rr_failures row) limit"
    using cooldown_bounds [of limit "rr_failures row"] by (simp add: rate_constants)
  ultimately have c: "0 < c \<longleftrightarrow> limit \<le> rr_failures row" by force
  have run: "recordSubjectFailure sha draw scope subject now \<lparr>db_tables = t, db_schedule = []\<rparr>
    = (if c \<le> 0 then (Inr not_limited, \<lparr>db_tables = t(k := Some row), db_schedule = []\<rparr>)
       else (Inr \<lparr>rd_limited = True, rd_retry = retryAfterSeconds (now + c) now, rd_scope = Some scope\<rparr>,
             \<lparr>db_tables = t(k := Some (raise_block (now + c) now row)), db_schedule = []\<rparr>))"
    by (simp add: recordSubjectFailure_def assms(2) bindM_run d1_call_quiet Let_def row_def c_def k_def returnM_run)
  show ?thesis unfolding run row_def [symmetric] using c by (auto simp: not_limited_def raise_block_def)
qed

lemma failure_run_step:
  fixes sha subject
  assumes "draw < 65536" "policy scope = (windowMs, limit)"
  defines "k \<equiv> (scope, subjectHash sha scope subject)"
  obtains t' r where "failure_run sha draw scope subject (now # ts) t
      = (limit \<le> rr_failures (count_failure now (now - windowMs) (t k))) # failure_run sha draw scope subject ts t'"
    "t' k = Some r" "rr_failures r = rr_failures (count_failure now (now - windowMs) (t k))"
    "rr_window_started_at r = rr_window_started_at (count_failure now (now - windowMs) (t k))"
  using record_quiet [OF assms(1,2), of sha subject now t] that unfolding k_def by (auto simp: failure_run.simps)

lemma fresh_window:
  assumes "draw < 65536" "policy scope = (windowMs, limit)" "t (scope, subjectHash sha scope subject) = Some r"
    and "t0 \<le> rr_window_started_at r" "\<And>now. now \<in> set ts \<Longrightarrow> t0 \<le> now \<and> now < t0 + windowMs"
    and "ts \<noteq> []" "limit \<le> rr_failures r + int (length ts)"
  shows "True \<in> set (failure_run sha draw scope subject ts t)"
  using assms(3-7)
proof (induction ts arbitrary: t r)
  case (Cons now ts)
  let ?k = "(scope, subjectHash sha scope subject)"
  have c: "count_failure now (now - windowMs) (t ?k) = r\<lparr>rr_failures := rr_failures r + 1, rr_updated_at := now\<rparr>"
    using Cons.prems(1,2) Cons.prems(3) [of now] by (simp add: count_failure_def)
  obtain t' r' where step: "failure_run sha draw scope subject (now # ts) t
      = (limit \<le> rr_failures r + 1) # failure_run sha draw scope subject ts t'"
    "t' ?k = Some r'" "rr_failures r' = rr_failures r + 1" "rr_window_started_at r' = rr_window_started_at r"
    using failure_run_step [OF assms(1,2), of sha subject now ts t] unfolding c by auto
  show ?case
  proof (cases "limit \<le> rr_failures r + 1")
    case False
    with Cons.prems(5) have "ts \<noteq> []" by auto
    with Cons.IH [of t' r'] step Cons.prems show ?thesis by simp
  qed (simp add: step(1))
qed simp

text \<open>The windows are fixed, so a burst may straddle two of them, but no more: of any
  \<open>2 * limit - 1\<close> failures of one subject within one window length, at least one is answered with a
  wait, whatever the table held before.\<close>

lemma rate_window:
  assumes "draw < 65536" "\<And>r. t (scope, subjectHash sha scope subject) = Some r \<Longrightarrow> 0 \<le> rr_failures r"
    and "\<And>now. now \<in> set ts \<Longrightarrow> t0 \<le> now \<and> now < t0 + fst (policy scope)"
    and "2 * snd (policy scope) - 1 \<le> int (length ts)"
  shows "True \<in> set (failure_run sha draw scope subject ts t)"
proof -
  obtain windowMs limit where p: "policy scope = (windowMs, limit)" by (cases "policy scope")
  let ?k = "(scope, subjectHash sha scope subject)"
  have l: "1 \<le> limit" using p by (cases scope) (auto simp: policy_def rate_constants)
  have main: "True \<in> set (failure_run sha draw scope subject ts t)"
    if "\<And>now. now \<in> set ts \<Longrightarrow> t0 \<le> now \<and> now < t0 + windowMs" "ts \<noteq> []" "0 \<le> f"
      "\<And>r. t ?k = Some r \<Longrightarrow> rr_failures r = f" "max 1 (limit - f) + limit - 1 \<le> int (length ts)" for ts t f
    using that
  proof (induction ts arbitrary: t f)
    case (Cons now ts)
    let ?row = "count_failure now (now - windowMs) (t ?k)"
    obtain t' r' where step: "failure_run sha draw scope subject (now # ts) t
        = (limit \<le> rr_failures ?row) # failure_run sha draw scope subject ts t'" "t' ?k = Some r'"
      "rr_failures r' = rr_failures ?row" "rr_window_started_at r' = rr_window_started_at ?row"
      using failure_run_step [OF assms(1) p, of sha subject now ts t] by blast
    show ?case
    proof (cases "limit \<le> rr_failures ?row")
      case False
      with l Cons.prems(3-5) have ts: "ts \<noteq> []"
        by (auto simp: count_failure_def max_def split: option.splits if_splits)
      show ?thesis
      proof (cases "rr_failures ?row = 1 \<and> rr_window_started_at ?row = now")
        case True
        with Cons.prems(1) [of now] Cons.prems(5) l
        have "True \<in> set (failure_run sha draw scope subject ts t')"
          by (intro fresh_window [where t = t' and r = r' and ?t0.0 = t0, OF assms(1) p])
            (use Cons.prems(1) step ts in \<open>auto simp: max_def split: if_splits\<close>)
        then show ?thesis by (simp add: step(1))
      next
        case F: False
        then have g: "rr_failures ?row = f + 1"
          using Cons.prems(4) by (auto simp: count_failure_def split: option.splits if_splits)
        have "True \<in> set (failure_run sha draw scope subject ts t')"
          using False g Cons.prems l by (intro Cons.IH [of "f + 1"] ts) (auto simp: step(2,3) max_def split: if_splits)
        then show ?thesis by (simp add: step(1))
      qed
    qed (simp add: step(1))
  qed simp
  have ne: "ts \<noteq> []" using assms(4) p l by auto
  define f where "f = (case t ?k of None \<Rightarrow> 0 | Some r \<Rightarrow> rr_failures r)"
  show ?thesis
    by (rule main [of ts f]) (use assms p l ne in \<open>auto simp: f_def max_def split: option.splits\<close>)
qed

text \<open>The bound is sharp: fourteen failures of a user name can pass within five minutes.\<close>

lemma rate_window_sharp:
  "failure_run (\<lambda>_. []) 0 Username ''bob'' (replicate 7 299000 @ replicate 7 301000)
     ((\<lambda>_. None)((Username, []) :=
        Some \<lparr>rr_failures = 0, rr_window_started_at = 0, rr_blocked_until = 0, rr_updated_at = 0\<rparr>)) = replicate 14 False"
  by (simp add: recordSubjectFailure_def policy_def bindM_run d1_call_quiet Let_def returnM_run subjectHash_def
    count_failure_def loginCooldownMs_def jitteredCooldownMs_def rate_constants not_limited_def failure_run.simps numeral_eq_Suc)

lemma rate_window_witness:
  "True \<in> set (failure_run (\<lambda>s. s) 0 Username ''bob'' (replicate 15 1000) (\<lambda>_. None))"
  by (rule rate_window [where ?t0.0 = 1000]) (simp_all add: policy_def rate_constants)

text \<open>One block at work.\<close>

definition sample_rates :: rate_tables where
  "sample_rates = (\<lambda>_. None)((Username, ''portal-login-rate-limit:v1:username:bob'') :=
     Some \<lparr>rr_failures = 11, rr_window_started_at = 0, rr_blocked_until = 0, rr_updated_at = 0\<rparr>)"

lemma block_enforced_witness:
  "\<exists>d w1. recordSubjectFailure (\<lambda>s. s) 0 Username ''bob'' 1000 \<lparr>db_tables = sample_rates, db_schedule = []\<rparr> = (Inr d, w1)
     \<and> rd_limited d \<and> (\<forall>d2 w3. checkSubject (\<lambda>s. s) Username ''bob'' 15000 w1 = (Inr d2, w3) \<longrightarrow> rd_limited d2)"
proof -
  let ?w = "\<lparr>db_tables = sample_rates, db_schedule = []\<rparr> :: rate_tables database"
  have r: "\<exists>t. recordSubjectFailure (\<lambda>s. s) 0 Username ''bob'' 1000 ?w
      = (Inr \<lparr>rd_limited = True, rd_retry = 16, rd_scope = Some Username\<rparr>, \<lparr>db_tables = t, db_schedule = []\<rparr>)"
    by (simp add: recordSubjectFailure_def policy_def bindM_run d1_call_quiet Let_def returnM_run sample_rates_def subjectHash_def
      scope_name_def count_failure_def loginCooldownMs_def jitteredCooldownMs_def rate_constants retryAfterSeconds_def)
  then obtain t where t: "recordSubjectFailure (\<lambda>s. s) 0 Username ''bob'' 1000 ?w
      = (Inr \<lparr>rd_limited = True, rd_retry = 16, rd_scope = Some Username\<rparr>, \<lparr>db_tables = t, db_schedule = []\<rparr>)" by blast
  have "rd_limited d2" if "checkSubject (\<lambda>s. s) Username ''bob'' 15000 \<lparr>db_tables = t, db_schedule = []\<rparr> = (Inr d2, w3)" for d2 w3
    using block_enforced [OF t, where lo = 0 and ?w2.0 = "\<lparr>db_tables = t, db_schedule = []\<rparr>" and t = 15000, OF _ _ _ _ _ _ that]
    by simp
  with t show ?thesis by auto
qed

end
