(* ===== verification/AutomationTypes.thy ===== *)
theory AutomationTypes
  imports JsValue
begin

text \<open>
  The data of the automation catalog, \<open>src/automation/automation-types.ts\<close>: the fields of a process, the
  conditions under which a field is visible, and the process itself. An optional member of the source is
  an option, except for values of the language, where \<open>JUndef\<close> stands for an absent member.
\<close>

datatype condition_operator = Equals | NotEquals | In | Truthy | Falsy

text \<open>A condition's value is a value of the language: a scalar or a list of scalars, \<open>JUndef\<close> when absent.\<close>

datatype field_condition =
    Predicate string condition_operator js
  | AllOf "field_condition list"
  | AnyOf "field_condition list"
  | NotOf field_condition

datatype field_type =
    TString | TEmail | TUrl | TPassword | TTextarea | TBoolean | TNumber | TSelect | TMultiselect | TDate | TDatetime | TJson

datatype field_target = ToParams | ToInput | ToWorkflowData

record options_source =
  os_endpoint :: string
  os_queryParam :: "string option"

record route_field =
  rf_key :: string
  rf_label :: string
  rf_type :: field_type
  rf_required :: bool
  rf_target :: field_target
  rf_options :: "string list option"
  rf_default :: js
  rf_description :: string
  rf_placeholder :: string
  rf_pattern :: "string option"
  rf_readOnly :: bool
  rf_min :: "jsnum option"
  rf_max :: "jsnum option"
  rf_section :: "string option"
  rf_groupPath :: "string list option"
  rf_order :: "jsnum option"
  rf_visibleWhen :: "field_condition option"
  rf_optionsSource :: "options_source option"

datatype process_kind = EventKind | WorkflowKind

record catalog_event =
  ce_id :: string
  ce_title :: string
  ce_description :: string
  ce_operation :: "string option"
  ce_kind :: process_kind
  ce_enabled :: bool
  ce_category :: string
  ce_plugin :: "string option"
  ce_fields :: "route_field list"
  ce_targets :: "string list"
  ce_dangerous :: bool
  ce_schemaVersion :: "string option"
  ce_icon :: "string option"
  ce_order :: "jsnum option"
  ce_help :: "string option"
  ce_presentationLocale :: "string option"
  ce_presentationOverridden :: "bool option"

text \<open>A field and a process with nothing optional in them.\<close>

definition text_field :: "string \<Rightarrow> field_type \<Rightarrow> route_field" where
  "text_field key type = \<lparr>rf_key = key, rf_label = key, rf_type = type, rf_required = False, rf_target = ToParams,
     rf_options = None, rf_default = JUndef, rf_description = [], rf_placeholder = [], rf_pattern = None, rf_readOnly = False,
     rf_min = None, rf_max = None, rf_section = None, rf_groupPath = None, rf_order = None, rf_visibleWhen = None,
     rf_optionsSource = None\<rparr>"

definition plain_event :: "string \<Rightarrow> route_field list \<Rightarrow> catalog_event" where
  "plain_event i fs = \<lparr>ce_id = i, ce_title = i, ce_description = [], ce_operation = None, ce_kind = EventKind,
     ce_enabled = True, ce_category = ''general'', ce_plugin = None, ce_fields = fs, ce_targets = [], ce_dangerous = False,
     ce_schemaVersion = Some ''1'', ce_icon = None, ce_order = None, ce_help = None, ce_presentationLocale = None,
     ce_presentationOverridden = None\<rparr>"

end
