(* ===== verification/FieldConditions.thy ===== *)
theory FieldConditions
  imports AutomationTypes Prelude
begin

text \<open>
  The conditions under which a form field is visible, \<open>src/automation/field-conditions.ts\<close>: reading the
  many spellings a catalog may use into one form, evaluating a condition on the values of a form, and the
  fields a condition mentions. The reader recurses on the nesting of the input and stops at a depth of
  eight; its termination rests on that depth alone, not on the input.
\<close>

section \<open>Reading a condition\<close>

definition MAX_CONDITION_DEPTH :: nat where "MAX_CONDITION_DEPTH = 8"
definition MAX_CONDITION_CHILDREN :: nat where "MAX_CONDITION_CHILDREN = 50"

text \<open>\<open>String(v).trim().toLowerCase().replace(/[\s_-]+/g, "")\<close>\<close>

definition squashed :: "js \<Rightarrow> string" where
  "squashed v = filter (\<lambda>c. \<not> (is_space c \<or> c = CHR ''_'' \<or> c = CHR ''-'')) (js_lower (js_trim (to_str (coalesce v (JStr [])))))"

definition normalizedOperator :: "js \<Rightarrow> condition_operator option" where
  "normalizedOperator v =
     (let operator = squashed v in
      if operator \<in> {''equals'', ''equal'', ''eq'', ''=='', ''===''} then Some Equals
      else if operator \<in> {''notequals'', ''notequal'', ''neq'', ''!='', ''!==''} then Some NotEquals
      else if operator \<in> {''in'', ''oneof'', ''includes'', ''containsany''} then Some In
      else if operator \<in> {''truthy'', ''true'', ''isset'', ''present''} then Some Truthy
      else if operator \<in> {''falsy'', ''false'', ''empty'', ''notset'', ''absent''} then Some Falsy
      else None)"

fun scalar :: "js \<Rightarrow> bool" where
  "scalar JNull = True"
| "scalar (JStr _) = True"
| "scalar (JNum _) = True"
| "scalar (JBool _) = True"
| "scalar _ = False"

definition normalizedValue :: "js \<Rightarrow> js" where
  "normalizedValue v = (case v of
      JArr xs \<Rightarrow> (let vs = take 100 (filter scalar xs) in if vs = [] then JUndef else JArr vs)
    | _ \<Rightarrow> if scalar v then v else JUndef)"

definition child_values :: "js \<Rightarrow> js list" where
  "child_values v = take MAX_CONDITION_CHILDREN (case v of JArr xs \<Rightarrow> xs | _ \<Rightarrow> [v])"

definition nonempty_list :: "('a list \<Rightarrow> 'b) \<Rightarrow> 'a list \<Rightarrow> 'b option" where
  "nonempty_list f xs = (if xs = [] then None else Some (f xs))"

definition not_source :: "js \<Rightarrow> string \<Rightarrow> js" where
  "not_source s combinator = coalesce (jget s ''not'') (if combinator = ''not''
     then coalesce (jget s ''condition'') (coalesce (jget s ''conditions'') (coalesce (jget s ''children'') (jget s ''rules'')))
     else JUndef)"

definition listed_children :: "js \<Rightarrow> js" where
  "listed_children s = coalesce (jget s ''conditions'') (coalesce (jget s ''children'') (jget s ''rules''))"

definition all_source :: "js \<Rightarrow> string \<Rightarrow> js" where
  "all_source s combinator = coalesce (jget s ''all'') (coalesce (jget s ''and'') (coalesce (jget s ''every'')
     (if combinator = ''and'' \<or> combinator = ''all'' then listed_children s else JUndef)))"

definition any_source :: "js \<Rightarrow> string \<Rightarrow> js" where
  "any_source s combinator = coalesce (jget s ''any'') (coalesce (jget s ''or'') (coalesce (jget s ''some'')
     (if combinator = ''or'' \<or> combinator = ''any'' then listed_children s else JUndef)))"

definition read_predicate :: "js \<Rightarrow> field_condition option" where
  "read_predicate s =
     (let name = take 120 (js_trim (to_str (coalesce (jget s ''field'') (coalesce (jget s ''key'')
            (coalesce (jget s ''dependsOn'') (coalesce (jget s ''depends_on'') (JStr [])))))));
          operator = (case normalizedOperator (coalesce (jget s ''operator'')
              (JStr (if jget s ''equals'' \<noteq> JUndef then ''equals'' else ''truthy''))) of Some p \<Rightarrow> p | None \<Rightarrow> Equals);
          v = normalizedValue (coalesce (jget s ''value'') (coalesce (jget s ''equals'') (jget s ''values'')))
      in if name = [] then None else Some (Predicate name operator v))"

function normalizeFieldCondition :: "nat \<Rightarrow> js \<Rightarrow> field_condition option" where
  "normalizeFieldCondition depth raw =
     (if MAX_CONDITION_DEPTH \<le> depth then None
      else if is_array raw then nonempty_list AllOf (List.map_filter (normalizeFieldCondition (Suc depth)) (child_values raw))
      else if \<not> plain_object raw then None
      else
        (let combinator = squashed (coalesce (jget raw ''combinator'') (coalesce (jget raw ''logic'') (jget raw ''operator'')));
             ns = not_source raw combinator; als = all_source raw combinator; ans = any_source raw combinator
         in if ns \<noteq> JUndef then map_option NotOf (normalizeFieldCondition (Suc depth) ns)
            else if als \<noteq> JUndef then nonempty_list AllOf (List.map_filter (normalizeFieldCondition (Suc depth)) (child_values als))
            else if ans \<noteq> JUndef then nonempty_list AnyOf (List.map_filter (normalizeFieldCondition (Suc depth)) (child_values ans))
            else if is_array (jget raw ''conditions'') \<or> is_array (jget raw ''children'') \<or> is_array (jget raw ''rules'')
            then nonempty_list AllOf (List.map_filter (normalizeFieldCondition (Suc depth)) (child_values (listed_children raw)))
            else read_predicate raw))"
  by pat_completeness auto

termination
  by (relation "measure (\<lambda>(depth, raw). MAX_CONDITION_DEPTH - depth)") auto

declare normalizeFieldCondition.simps [simp del]

section \<open>Evaluating a condition\<close>

definition truthyValue :: "js \<Rightarrow> bool" where
  "truthyValue v = (case v of
      JArr xs \<Rightarrow> xs \<noteq> []
    | JStr s \<Rightarrow> (let t = js_lower (js_trim s) in
        t \<noteq> [] \<and> t \<notin> {''false'', ''0'', ''off'', ''no'', ''null'', ''undefined''})
    | _ \<Rightarrow> truthy v)"

definition scalarValue :: "js \<Rightarrow> string" where
  "scalarValue v = (if nullish v then [] else to_str v)"

text \<open>A value on either side of a comparison: one text or a list of texts.\<close>

definition side_values :: "js \<Rightarrow> string + string list" where
  "side_values v = (case v of JArr xs \<Rightarrow> Inr (map scalarValue xs) | _ \<Rightarrow> Inl (scalarValue v))"

definition equal_sides :: "string + string list \<Rightarrow> string + string list \<Rightarrow> bool" where
  "equal_sides actual expected = (case (actual, expected) of
      (Inr xs, Inr ys) \<Rightarrow> xs = ys
    | (Inr xs, Inl y) \<Rightarrow> y \<in> set xs
    | (Inl x, Inr ys) \<Rightarrow> x \<in> set ys
    | (Inl x, Inl y) \<Rightarrow> x = y)"

definition predicateMatches :: "string \<Rightarrow> condition_operator \<Rightarrow> js \<Rightarrow> js \<Rightarrow> bool" where
  "predicateMatches name operator v form =
     (let current = jget form name; actual = side_values current; expected = side_values v in
      case operator of
        Truthy \<Rightarrow> truthyValue current
      | Falsy \<Rightarrow> \<not> truthyValue current
      | In \<Rightarrow>
          (let expectedValues = (case expected of Inr ys \<Rightarrow> ys | Inl y \<Rightarrow> [y]) in
           case actual of Inr xs \<Rightarrow> list_ex (\<lambda>x. x \<in> set expectedValues) xs | Inl x \<Rightarrow> x \<in> set expectedValues)
      | Equals \<Rightarrow> equal_sides actual expected
      | NotEquals \<Rightarrow> \<not> equal_sides actual expected)"

fun condition_holds :: "field_condition \<Rightarrow> js \<Rightarrow> bool" where
  "condition_holds (AllOf cs) form = list_all (\<lambda>c. condition_holds c form) cs"
| "condition_holds (AnyOf cs) form = list_ex (\<lambda>c. condition_holds c form) cs"
| "condition_holds (NotOf c) form = (\<not> condition_holds c form)"
| "condition_holds (Predicate name operator v) form = predicateMatches name operator v form"

definition fieldConditionMatches :: "field_condition option \<Rightarrow> js \<Rightarrow> bool" where
  "fieldConditionMatches c form = (case c of None \<Rightarrow> True | Some c \<Rightarrow> condition_holds c form)"

definition fieldVisible :: "route_field \<Rightarrow> js \<Rightarrow> bool" where
  "fieldVisible field form = fieldConditionMatches (rf_visibleWhen field) form"

fun condition_names :: "field_condition \<Rightarrow> string list" where
  "condition_names (Predicate name _ _) = [name]"
| "condition_names (AllOf cs) = take 50 (uniq (concat (map condition_names cs)))"
| "condition_names (AnyOf cs) = take 50 (uniq (concat (map condition_names cs)))"
| "condition_names (NotOf c) = take 50 (uniq (condition_names c))"

definition conditionFieldNames :: "field_condition option \<Rightarrow> string list" where
  "conditionFieldNames c = (case c of None \<Rightarrow> [] | Some c \<Rightarrow> condition_names c)"

section \<open>What the reader produces\<close>

text \<open>Depth, width and leaves of a condition.\<close>

fun within :: "nat \<Rightarrow> field_condition \<Rightarrow> bool" where
  "within n (Predicate name operator v) = (0 < n \<and> name \<noteq> [] \<and> length name \<le> 120 \<and> normalizedValue v = v)"
| "within n (AllOf cs) = (0 < n \<and> cs \<noteq> [] \<and> length cs \<le> MAX_CONDITION_CHILDREN \<and> list_all (within (n - 1)) cs)"
| "within n (AnyOf cs) = (0 < n \<and> cs \<noteq> [] \<and> length cs \<le> MAX_CONDITION_CHILDREN \<and> list_all (within (n - 1)) cs)"
| "within n (NotOf c) = (0 < n \<and> within (n - 1) c)"

lemma normalizedValue_again: "normalizedValue (normalizedValue v) = normalizedValue v"
proof (cases v)
  case (JArr xs)
  let ?vs = "take 100 (filter scalar xs)"
  have "filter scalar ?vs = ?vs" by (auto simp: filter_id_conv dest: in_set_takeD)
  with JArr show ?thesis by (simp add: normalizedValue_def Let_def)
qed (simp_all add: normalizedValue_def)

lemma map_filter_length: "length (List.map_filter f xs) \<le> length xs"
  by (induction xs) (simp_all add: List.map_filter_simps split: option.splits)

lemma map_filter_set: "y \<in> set (List.map_filter f xs) \<Longrightarrow> \<exists>x \<in> set xs. f x = Some y"
  by (induction xs) (auto simp: List.map_filter_simps split: option.splits if_splits)

lemma read_predicate_within: "read_predicate s = Some c \<Longrightarrow> 0 < n \<Longrightarrow> within n c"
  by (auto simp: read_predicate_def Let_def normalizedValue_again split: if_splits)

lemma children_within:
  assumes "nonempty_list f (List.map_filter g (child_values v)) = Some c" "\<And>x d. g x = Some d \<Longrightarrow> within (n - 1) d" "0 < n"
    and "f = AllOf \<or> f = AnyOf"
  shows "within n c"
proof -
  let ?cs = "List.map_filter g (child_values v)"
  from assms(1) have c: "c = f ?cs" "?cs \<noteq> []" by (auto simp: nonempty_list_def split: if_splits)
  have "length ?cs \<le> MAX_CONDITION_CHILDREN"
    by (rule order_trans [OF map_filter_length]) (simp add: child_values_def)
  moreover have "list_all (within (n - 1)) ?cs" using map_filter_set [of _ g] assms(2) by (auto simp: list_all_iff)
  ultimately show ?thesis using c assms(3,4) by auto
qed

lemma normalize_within:
  "MAX_CONDITION_DEPTH - depth = n \<Longrightarrow> normalizeFieldCondition depth raw = Some c \<Longrightarrow> within n c"
proof (induction n arbitrary: depth raw c)
  case 0
  then show ?case by (subst (asm) normalizeFieldCondition.simps) simp
next
  case (Suc n)
  then have d: "\<not> MAX_CONDITION_DEPTH \<le> depth" "MAX_CONDITION_DEPTH - Suc depth = n" by simp_all
  note IH = Suc.IH [OF d(2)]
  have kids: "nonempty_list f (List.map_filter (normalizeFieldCondition (Suc depth)) (child_values v)) = Some c
      \<Longrightarrow> f = AllOf \<or> f = AnyOf \<Longrightarrow> within (Suc n) c" for f v
    by (rule children_within) (use IH in auto)
  define combinator where "combinator = squashed (coalesce (jget raw ''combinator'') (coalesce (jget raw ''logic'') (jget raw ''operator'')))"
  from Suc.prems(2) d(1) show ?case
    using read_predicate_within [of raw c "Suc n"] kids [of AllOf] kids [of AnyOf] IH
    by (subst (asm) normalizeFieldCondition.simps)
      (auto simp: Let_def combinator_def [symmetric] split: if_splits)
qed

definition sample_condition :: js where
  "sample_condition = JArr [JObj [(''or'', JArr [JObj [(''key'', JStr '' mode ''), (''equals'', JStr ''x'')]])]]"

lemma sample_condition_read:
  "normalizeFieldCondition 0 sample_condition = Some (AllOf [AnyOf [Predicate ''mode'' Equals (JStr ''x'')]])"
  by code_simp

text \<open>C36: However deep and wide a condition of the catalog is, reading it ends, because every recursive call
  is one level deeper and the reader stops at level eight; the condition it gives is at most eight levels
  deep, no node has more than fifty children or none, and every field it tests has a name of at most 120
  characters.\<close>

theorem condition_bounds:
  assumes "normalizeFieldCondition depth raw = Some c"
  shows "depth < MAX_CONDITION_DEPTH \<and> within (MAX_CONDITION_DEPTH - depth) c"
proof -
  have "within (MAX_CONDITION_DEPTH - depth) c" by (rule normalize_within [OF refl assms])
  moreover from this have "0 < MAX_CONDITION_DEPTH - depth" by (cases c) auto
  ultimately show ?thesis by simp
qed

lemma condition_bounds_witness:
  "(0::nat) < MAX_CONDITION_DEPTH \<and> within (MAX_CONDITION_DEPTH - 0) (AllOf [AnyOf [Predicate ''mode'' Equals (JStr ''x'')]])"
  by (rule condition_bounds [OF sample_condition_read])

section \<open>Reading a condition again\<close>

text \<open>The form a condition is sent in.\<close>

fun operator_name :: "condition_operator \<Rightarrow> string" where
  "operator_name Equals = ''equals''"
| "operator_name NotEquals = ''notEquals''"
| "operator_name In = ''in''"
| "operator_name Truthy = ''truthy''"
| "operator_name Falsy = ''falsy''"

fun condition_js :: "field_condition \<Rightarrow> js" where
  "condition_js (Predicate name operator v) =
     JObj ((''field'', JStr name) # (''operator'', JStr (operator_name operator)) # (if v = JUndef then [] else [(''value'', v)]))"
| "condition_js (AllOf cs) = JObj [(''all'', JArr (map condition_js cs))]"
| "condition_js (AnyOf cs) = JObj [(''any'', JArr (map condition_js cs))]"
| "condition_js (NotOf c) = JObj [(''not'', condition_js c)]"

fun settled_names :: "field_condition \<Rightarrow> bool" where
  "settled_names (Predicate name _ _) = (js_trim name = name)"
| "settled_names (AllOf cs) = list_all settled_names cs"
| "settled_names (AnyOf cs) = list_all settled_names cs"
| "settled_names (NotOf c) = settled_names c"

text \<open>A value that is null is read as no value.\<close>

fun drop_nulls :: "field_condition \<Rightarrow> field_condition" where
  "drop_nulls (Predicate name operator v) = Predicate name operator (if v = JNull then JUndef else v)"
| "drop_nulls (AllOf cs) = AllOf (map drop_nulls cs)"
| "drop_nulls (AnyOf cs) = AnyOf (map drop_nulls cs)"
| "drop_nulls (NotOf c) = NotOf (drop_nulls c)"

lemma drop_nulls_holds: "condition_holds (drop_nulls c) form = condition_holds c form"
proof (induction c)
  case (Predicate name operator v)
  then show ?case by (simp add: predicateMatches_def side_values_def scalarValue_def nullish_def)
qed (auto simp: list_all_iff list_ex_iff)

lemma squashed_names:
  "squashed (JStr ''equals'') = ''equals''" "squashed (JStr ''notEquals'') = ''notequals''" "squashed (JStr ''in'') = ''in''"
  "squashed (JStr ''truthy'') = ''truthy''" "squashed (JStr ''falsy'') = ''falsy''"
  by code_simp+

lemma operator_again: "normalizedOperator (JStr (operator_name p)) = Some p"
  by (cases p) (simp_all add: normalizedOperator_def squashed_names)

lemma operator_plain:
  "squashed (JStr (operator_name p)) \<noteq> ''not''" "squashed (JStr (operator_name p)) \<noteq> ''and''" "squashed (JStr (operator_name p)) \<noteq> ''all''"
  "squashed (JStr (operator_name p)) \<noteq> ''or''" "squashed (JStr (operator_name p)) \<noteq> ''any''"
  by (cases p; simp add: squashed_names)+

lemma condition_js_object: "\<exists>ps. condition_js c = JObj ps"
  by (cases c) simp_all

lemma coalesce_condition [simp]: "coalesce (condition_js c) v = condition_js c" "condition_js c \<noteq> JUndef"
  using condition_js_object [of c] by auto

lemma map_filter_again:
  "(\<And>c. c \<in> set cs \<Longrightarrow> f (g c) = Some (h c)) \<Longrightarrow> List.map_filter f (map g cs) = map h cs"
  by (induction cs) (simp_all add: List.map_filter_simps)

lemma children_again:
  assumes "length cs \<le> MAX_CONDITION_CHILDREN" "\<And>c. c \<in> set cs \<Longrightarrow> f (condition_js c) = Some (drop_nulls c)"
  shows "List.map_filter f (child_values (JArr (map condition_js cs))) = map drop_nulls cs"
  using assms by (simp add: child_values_def map_filter_again)

lemma squashed_nothing: "squashed JUndef = []"
  by code_simp

lemma read_predicate_again:
  assumes "name \<noteq> []" "length name \<le> 120" "js_trim name = name" "normalizedValue v = v"
  shows "read_predicate (condition_js (Predicate name operator v)) = Some (drop_nulls (Predicate name operator v))"
proof -
  have "normalizedValue JUndef = JUndef" by (simp add: normalizedValue_def)
  with assms(1-3) show ?thesis using assms(4)
    by (cases "nullish v") (auto simp: nullish_def read_predicate_def Let_def operator_again coalesce_def)
qed

lemma read_again: "within n c \<Longrightarrow> settled_names c \<Longrightarrow> depth + n \<le> MAX_CONDITION_DEPTH
    \<Longrightarrow> normalizeFieldCondition depth (condition_js c) = Some (drop_nulls c)"
proof (induction c arbitrary: n depth)
  case (Predicate name operator v)
  then have "read_predicate (condition_js (Predicate name operator v)) = Some (drop_nulls (Predicate name operator v))"
    by (intro read_predicate_again) auto
  moreover have "normalizeFieldCondition depth (condition_js (Predicate name operator v)) = read_predicate (condition_js (Predicate name operator v))"
    using Predicate.prems by (subst normalizeFieldCondition.simps, cases "v = JUndef")
      (simp_all add: Let_def is_array_def plain_object_def not_source_def all_source_def any_source_def operator_plain)
  ultimately show ?case by simp
next
  case (AllOf cs)
  have "normalizeFieldCondition (Suc depth) (condition_js c) = Some (drop_nulls c)" if "c \<in> set cs" for c
    by (rule AllOf.IH [OF that, of "n - 1"]) (use AllOf.prems that in \<open>auto simp: list_all_iff\<close>)
  then have "List.map_filter (normalizeFieldCondition (Suc depth)) (child_values (JArr (map condition_js cs))) = map drop_nulls cs"
    by (intro children_again) (use AllOf.prems in auto)
  then show ?case using AllOf.prems
    by (subst normalizeFieldCondition.simps)
      (simp add: Let_def is_array_def plain_object_def not_source_def all_source_def squashed_nothing nonempty_list_def)
next
  case (AnyOf cs)
  have "normalizeFieldCondition (Suc depth) (condition_js c) = Some (drop_nulls c)" if "c \<in> set cs" for c
    by (rule AnyOf.IH [OF that, of "n - 1"]) (use AnyOf.prems that in \<open>auto simp: list_all_iff\<close>)
  then have "List.map_filter (normalizeFieldCondition (Suc depth)) (child_values (JArr (map condition_js cs))) = map drop_nulls cs"
    by (intro children_again) (use AnyOf.prems in auto)
  then show ?case using AnyOf.prems
    by (subst normalizeFieldCondition.simps)
      (simp add: Let_def is_array_def plain_object_def not_source_def all_source_def any_source_def squashed_nothing nonempty_list_def)
next
  case (NotOf c)
  have "normalizeFieldCondition (Suc depth) (condition_js c) = Some (drop_nulls c)"
    by (rule NotOf.IH [of "n - 1"]) (use NotOf.prems in auto)
  then show ?case using NotOf.prems
    by (subst normalizeFieldCondition.simps) (simp add: Let_def is_array_def plain_object_def not_source_def)
qed

text \<open>Reading is settled: the condition read from any input, sent out in the form the types declare and
  read again at the same depth, holds on exactly the same forms. The names it tests must not have been cut
  at a blank.\<close>

lemma condition_read_again:
  assumes "normalizeFieldCondition depth raw = Some c" "settled_names c"
  shows "\<exists>c'. normalizeFieldCondition depth (condition_js c) = Some c' \<and> (\<forall>form. condition_holds c' form = condition_holds c form)"
proof -
  have w: "within (MAX_CONDITION_DEPTH - depth) c" by (rule normalize_within [OF refl assms(1)])
  moreover from w have "0 < MAX_CONDITION_DEPTH - depth" by (cases c) auto
  ultimately have "normalizeFieldCondition depth (condition_js c) = Some (drop_nulls c)" by (intro read_again [OF _ assms(2)]) auto
  then show ?thesis by (simp add: drop_nulls_holds)
qed

lemma condition_read_again_witness:
  "\<exists>c'. normalizeFieldCondition 0 (condition_js (AllOf [AnyOf [Predicate ''mode'' Equals (JStr ''x'')]])) = Some c'
     \<and> (\<forall>form. condition_holds c' form = condition_holds (AllOf [AnyOf [Predicate ''mode'' Equals (JStr ''x'')]]) form)"
proof -
  have "settled_names (AllOf [AnyOf [Predicate ''mode'' Equals (JStr ''x'')]])" by code_simp
  from condition_read_again [OF sample_condition_read this] show ?thesis .
qed

end
