(* ===== verification/CatalogSchema.thy ===== *)
theory CatalogSchema
  imports FieldConditions Json "HOL-Library.Word"
begin

unbundle bit_operations_syntax

text \<open>
  From what the automation service sends to the processes of the portal: the fields of a form,
  \<open>src/worker/xyops-admin-runtime.ts\<close>, and the processes with their schema version,
  \<open>src/worker/xyops-catalog-runtime.ts\<close>. The schema version is a 32-bit hash of the printed form, kept as
  a machine word. Texts of the source outside the modelled alphabet (Cyrillic titles and aliases) never
  occur in a modelled text; the default title of a group is transliterated.
\<close>

section \<open>Fields\<close>

text \<open>\<open>v.k1 ?? v.k2 ?? ...\<close>\<close>

fun jfirst :: "js \<Rightarrow> string list \<Rightarrow> js" where
  "jfirst v [] = JUndef"
| "jfirst v [k] = jget v k"
| "jfirst v (k # ks) = coalesce (jget v k) (jfirst v ks)"

definition first_text :: "js \<Rightarrow> string list \<Rightarrow> string" where
  "first_text v ks = to_str (coalesce (jfirst v ks) (JStr []))"

text \<open>\<open>String(..).trim().slice(0, n) || undefined\<close>\<close>

definition some_text :: "string \<Rightarrow> string option" where
  "some_text s = (if s = [] then None else Some s)"

definition is_text_or_number :: "js \<Rightarrow> bool" where
  "is_text_or_number v = (case v of JStr _ \<Rightarrow> True | JNum _ \<Rightarrow> True | _ \<Rightarrow> False)"

definition is_object :: "js \<Rightarrow> bool" where
  "is_object v = (case v of JObj _ \<Rightarrow> True | JArr _ \<Rightarrow> True | _ \<Rightarrow> False)"

definition fieldOptions :: "js \<Rightarrow> string list option" where
  "fieldOptions source = (case jfirst source [''options'', ''items'', ''menu'', ''values''] of
      JArr xs \<Rightarrow>
        (let vs = filter (\<lambda>s. s \<noteq> []) (map (\<lambda>item.
             if is_text_or_number item then to_str item
             else if is_object item then first_text item [''value'', ''id'', ''title'', ''label''] else []) xs)
         in if vs = [] then None else Some vs)
    | _ \<Rightarrow> None)"

definition fieldCondition :: "js \<Rightarrow> field_condition option" where
  "fieldCondition source =
     normalizeFieldCondition 0 (jfirst source [''visibleWhen'', ''visible_when'', ''show_when'', ''condition'', ''depends_on''])"

definition fieldOptionsSource :: "js \<Rightarrow> options_source option" where
  "fieldOptionsSource source =
     (let raw = jfirst source [''optionsSource'', ''options_source'', ''data_source''];
          nested = (if plain_object raw then raw else JObj []);
          endpoint = js_trim (to_str (coalesce (jfirst source [''options_endpoint'', ''options_url''])
            (coalesce (jfirst nested [''endpoint'', ''url'']) (JStr []))))
      in if \<not> starts_with ''/api/app/'' endpoint \<or> js_includes ''..'' endpoint \<or> 240 < length endpoint then None
         else (let queryParam = take 80 (js_trim (to_str (coalesce (jget source ''options_query_param'')
                 (coalesce (jfirst nested [''queryParam'', ''query_param'']) (JStr ''query'')))))
               in Some \<lparr>os_endpoint = endpoint, os_queryParam = Some (if queryParam = [] then ''query'' else queryParam)\<rparr>))"

definition field_type_of :: "js \<Rightarrow> field_type" where
  "field_type_of source =
     (let xyType = js_lower (to_str (coalesce (jget source ''type'') (JStr ''text'')));
          variant = js_lower (first_text source [''variant'', ''format''])
      in if xyType = ''checkbox'' \<or> xyType = ''boolean'' then TBoolean
         else if xyType = ''multimenu'' \<or> xyType = ''multiselect'' \<or> jget source ''multiple'' = JBool True then TMultiselect
         else if xyType = ''menu'' \<or> xyType = ''select'' \<or> xyType = ''radio'' then TSelect
         else if variant = ''number'' \<or> xyType = ''number'' then TNumber
         else if xyType = ''email'' \<or> variant = ''email'' then TEmail
         else if xyType = ''url'' \<or> variant = ''url'' then TUrl
         else if xyType = ''password'' \<or> variant = ''password'' \<or> jget source ''secret'' = JBool True then TPassword
         else if xyType = ''textarea'' \<or> xyType = ''multiline'' then TTextarea
         else if xyType = ''date'' \<or> variant = ''date'' then TDate
         else if xyType = ''datetime'' \<or> xyType = ''datetime-local'' \<or> variant = ''datetime'' then TDatetime
         else if xyType = ''json'' \<or> xyType = ''object'' \<or> xyType = ''array'' \<or> variant = ''json'' then TJson
         else TString)"

definition field_target_of :: "js \<Rightarrow> field_target" where
  "field_target_of source =
     (let rawTarget = js_lower (to_str (coalesce (jfirst source [''target'', ''destination'', ''scope'']) (JStr ''params''))) in
      if js_includes ''workflow'' rawTarget then ToWorkflowData else if js_includes ''input'' rawTarget then ToInput else ToParams)"

definition num_or_none :: "js \<Rightarrow> jsnum option" where
  "num_or_none v = (case v of JNum n \<Rightarrow> Some n | _ \<Rightarrow> None)"

text \<open>Splitting at a slash or an angle with the blanks around it, and then trimming every part.\<close>

definition group_path :: "js \<Rightarrow> string list option" where
  "group_path source =
     (let values = (case jfirst source [''groupPath'', ''group_path'', ''section_path'', ''path''] of
          JArr xs \<Rightarrow> map to_str xs
        | JStr s \<Rightarrow> js_split (CHR ''/'') (map (\<lambda>c. if c = CHR ''>'' then CHR ''/'' else c) s)
        | _ \<Rightarrow> []);
          path = take 8 (filter (\<lambda>s. s \<noteq> []) (map (\<lambda>s. take 120 (js_trim s)) values))
      in if path = [] then None else Some path)"

definition normalizeXyField :: "js \<Rightarrow> route_field option" where
  "normalizeXyField source =
     (let key = js_trim (first_text source [''id'', ''key'']); type = field_type_of source in
      if \<not> is_object source \<or> key = [] \<or> jget source ''type'' \<in> {JStr ''hidden'', JStr ''group'', JStr ''section''} then None
      else Some \<lparr>rf_key = key, rf_label = to_str (coalesce (jfirst source [''title'', ''label'']) (JStr key)), rf_type = type,
        rf_required = truthy (jget source ''required''), rf_target = field_target_of source, rf_options = fieldOptions source,
        rf_default = (if type = TPassword then JUndef else jfirst source [''value'', ''default'']),
        rf_description = first_text source [''description'', ''help'', ''hint'', ''caption''],
        rf_placeholder = first_text source [''placeholder''],
        rf_pattern = some_text (take 240 (js_trim (first_text source [''pattern'', ''regex'']))),
        rf_readOnly = (jget source ''locked'' = JBool True \<or> jget source ''readOnly'' = JBool True \<or> jget source ''read_only'' = JBool True),
        rf_min = num_or_none (jget source ''min''), rf_max = num_or_none (jget source ''max''),
        rf_section = some_text (take 120 (js_trim (first_text source [''section'', ''group'', ''fieldset'']))),
        rf_groupPath = group_path source,
        rf_order = (case num_or_none (jget source ''order'') of Some n \<Rightarrow> Some n | None \<Rightarrow> num_or_none (jget source ''position'')),
        rf_visibleWhen = fieldCondition source, rf_optionsSource = fieldOptionsSource source\<rparr>)"

text \<open>The first array among the members that may hold the children of a group.\<close>

definition first_array :: "js list \<Rightarrow> js list option" where
  "first_array vs = (case find is_array vs of Some (JArr xs) \<Rightarrow> Some xs | _ \<Rightarrow> None)"

definition in_group :: "string list \<Rightarrow> route_field \<Rightarrow> route_field" where
  "in_group parents f = (if (rf_groupPath f = None \<or> rf_groupPath f = Some []) \<and> parents \<noteq> [] then f\<lparr>rf_groupPath := Some parents\<rparr> else f)"

lemma size_jget: "size (jget v k) \<le> size v"
proof (cases v)
  case (JObj ps)
  show ?thesis
  proof (cases "map_of ps k")
    case (Some w)
    then have "(k, w) \<in> set ps" by (rule map_of_SomeD)
    then have "size w \<le> size_list (size_prod (\<lambda>_. 0) size) ps"
      by (intro size_list_estimation' [where x = "(k, w)"]) auto
    with JObj Some show ?thesis by simp
  qed (use JObj in simp)
qed (simp_all add: jget_def)

lemma first_array_size:
  assumes "first_array [jget v a, jget v b, jget v c] = Some xs"
  shows "size_list size xs < size v"
proof -
  from assms obtain y where "find is_array [jget v a, jget v b, jget v c] = Some y" and y: "y = JArr xs"
    by (auto simp: first_array_def simp del: find.simps split: option.splits js.splits)
  from find_Some_iff' [OF this(1)] have "\<exists>k. y = jget v k" by auto
  with y obtain k where "JArr xs = jget v k" by metis
  with size_jget [of v k] have "size (JArr xs) \<le> size v" by metis
  then show ?thesis by simp
qed

text \<open>A group with its children, and the path its children are put under.\<close>

definition group_children :: "js \<Rightarrow> js list option" where
  "group_children raw =
     (if js_lower (first_text raw [''type'']) \<in> {''group'', ''section'', ''fieldset''}
      then first_array [jget raw ''children'', jget raw ''fields'', jget raw ''items''] else None)"

definition group_parents :: "string list \<Rightarrow> js \<Rightarrow> string list" where
  "group_parents parents raw =
     (let title = take 120 (js_trim (to_str (coalesce (jfirst raw [''title'', ''label'', ''name'']) (JStr ''Gruppa'')))) in
      if title = [] then parents else parents @ [title])"

lemma group_children_size: "group_children raw = Some xs \<Longrightarrow> size_list size xs < size raw"
  by (auto simp: group_children_def dest: first_array_size split: if_splits)

function normalizeXyFields :: "string list \<Rightarrow> js list \<Rightarrow> route_field list" where
  "normalizeXyFields parents raws = concat (map (\<lambda>raw.
     if \<not> plain_object raw then []
     else (case group_children raw of
         Some children \<Rightarrow> normalizeXyFields (group_parents parents raw) children
       | None \<Rightarrow> (case normalizeXyField raw of None \<Rightarrow> [] | Some f \<Rightarrow> [in_group parents f]))) raws)"
  by pat_completeness auto

termination
proof (relation "measure (\<lambda>(parents, raws). size_list size raws)", simp, goal_cases)
  case (1 parents raws raw children)
  from 1(3) have "size_list size children < size raw" by (rule group_children_size)
  moreover have "size raw \<le> size_list size raws" by (rule size_list_estimation' [OF 1(1)]) simp
  ultimately show ?case by simp
qed

declare normalizeXyFields.simps [simp del]

section \<open>The schema version\<close>

fun type_name :: "field_type \<Rightarrow> string" where
  "type_name TString = ''string''"
| "type_name TEmail = ''email''"
| "type_name TUrl = ''url''"
| "type_name TPassword = ''password''"
| "type_name TTextarea = ''textarea''"
| "type_name TBoolean = ''boolean''"
| "type_name TNumber = ''number''"
| "type_name TSelect = ''select''"
| "type_name TMultiselect = ''multiselect''"
| "type_name TDate = ''date''"
| "type_name TDatetime = ''datetime''"
| "type_name TJson = ''json''"

fun target_name :: "field_target \<Rightarrow> string" where
  "target_name ToParams = ''params''"
| "target_name ToInput = ''input''"
| "target_name ToWorkflowData = ''workflowData''"

fun kind_name :: "process_kind \<Rightarrow> string" where
  "kind_name EventKind = ''event''"
| "kind_name WorkflowKind = ''workflow''"

definition str_js :: "string option \<Rightarrow> js" where
  "str_js v = (case v of None \<Rightarrow> JUndef | Some s \<Rightarrow> JStr s)"

definition list_js :: "string list option \<Rightarrow> js" where
  "list_js v = (case v of None \<Rightarrow> JUndef | Some xs \<Rightarrow> JArr (map JStr xs))"

definition num_js :: "jsnum option \<Rightarrow> js" where
  "num_js v = (case v of None \<Rightarrow> JUndef | Some n \<Rightarrow> JNum n)"

text \<open>The members of a field in the order the reader writes them; an absent member is not printed.\<close>

definition field_js :: "route_field \<Rightarrow> js" where
  "field_js f = JObj [(''key'', JStr (rf_key f)), (''label'', JStr (rf_label f)), (''type'', JStr (type_name (rf_type f))),
     (''required'', JBool (rf_required f)), (''target'', JStr (target_name (rf_target f))), (''options'', list_js (rf_options f)),
     (''default'', rf_default f), (''description'', JStr (rf_description f)), (''placeholder'', JStr (rf_placeholder f)),
     (''pattern'', str_js (rf_pattern f)), (''readOnly'', JBool (rf_readOnly f)), (''min'', num_js (rf_min f)), (''max'', num_js (rf_max f)),
     (''section'', str_js (rf_section f)), (''groupPath'', list_js (rf_groupPath f)), (''order'', num_js (rf_order f)),
     (''visibleWhen'', (case rf_visibleWhen f of None \<Rightarrow> JUndef | Some c \<Rightarrow> condition_js c)),
     (''optionsSource'', (case rf_optionsSource f of None \<Rightarrow> JUndef
        | Some os \<Rightarrow> JObj [(''endpoint'', JStr (os_endpoint os)), (''queryParam'', str_js (os_queryParam os))]))]"

definition schema_js :: "catalog_event \<Rightarrow> js" where
  "schema_js e = JObj [(''operation'', str_js (ce_operation e)), (''kind'', JStr (kind_name (ce_kind e))),
     (''fields'', JArr (map field_js (ce_fields e))), (''targets'', JArr (map JStr (ce_targets e))), (''dangerous'', JBool (ce_dangerous e))]"

definition fnv_step :: "32 word \<Rightarrow> char \<Rightarrow> 32 word" where
  "fnv_step h c = (h XOR word_of_nat (code c)) * 16777619"

definition fnv_hash :: "string \<Rightarrow> 32 word" where
  "fnv_hash s = foldl fnv_step 2166136261 s"

text \<open>\<open>(h >>> 0).toString(16).padStart(8, "0")\<close>\<close>

fun hex_digits :: "nat \<Rightarrow> nat \<Rightarrow> string" where
  "hex_digits 0 n = []"
| "hex_digits (Suc k) n = hex_digits k (n div 16) @ [hex_digit (n mod 16)]"

definition schemaFingerprint :: "catalog_event \<Rightarrow> string" where
  "schemaFingerprint e = ''v1-'' @ hex_digits 8 (unat (fnv_hash (json_print (schema_js e))))"

section \<open>Processes\<close>

definition targetValues :: "js \<Rightarrow> string list" where
  "targetValues v = (case v of
      JArr xs \<Rightarrow> filter (\<lambda>s. s \<noteq> []) (map (\<lambda>item. case item of
          JStr s \<Rightarrow> s
        | _ \<Rightarrow> if is_object item then first_text item [''id'', ''name''] else []) xs)
    | _ \<Rightarrow> [])"

text \<open>The hints a process gives of its operation; the search stops seven levels deep.\<close>

function visit_hints :: "nat \<Rightarrow> js \<Rightarrow> string list" where
  "visit_hints depth v =
     (if 6 < depth then []
      else (case v of
          JArr xs \<Rightarrow> concat (map (visit_hints (Suc depth)) (take 100 xs))
        | JObj ps \<Rightarrow> concat (map (\<lambda>(k, nested).
            if js_lower k \<in> {''operation'', ''action'', ''freeipa_tool'', ''command'', ''task''} \<and> is_text_or_number nested
            then [to_str nested]
            else if js_lower k \<in> {''params'', ''workflow'', ''nodes'', ''data''} then visit_hints (Suc depth) nested
            else []) ps)
        | _ \<Rightarrow> []))"
  by pat_completeness auto

termination
  by (relation "measure (\<lambda>(depth, v). 7 - depth)") auto

declare visit_hints.simps [simp del]

text \<open>The aliases in the modelled alphabet; the order decides between two that occur.\<close>

definition operation_aliases :: "(string \<times> string list) list" where
  "operation_aliases =
    [(''group_add_member'', [''addusertogroup'', ''addusertogroups'', ''groupaddmember'']),
     (''group_remove_member'', [''removeuserfromgroup'', ''removeuserfromgroups'', ''groupremovemember'']),
     (''user_disable'', [''disableuser'', ''userdisable'']),
     (''user_enable'', [''enableuser'', ''userenable'']),
     (''user_del'', [''deleteuser'', ''deluser'', ''userdel'']),
     (''user_mod'', [''modifyuser'', ''updateuser'', ''edituser'', ''usermod'']),
     (''user_add'', [''createuser'', ''adduser'', ''useradd'']),
     (''group_del'', [''deletegroup'', ''delgroup'', ''groupdel'']),
     (''group_add'', [''creategroup'', ''addgroup'', ''groupadd''])]"

definition inferCatalogOperation :: "js \<Rightarrow> string option" where
  "inferCatalogOperation event =
     (let hints = map (\<lambda>k. first_text event [k]) [''id'', ''title'', ''name'', ''operation''] @ visit_hints 0 event;
          compact = filter (\<lambda>c. is_lower c \<or> is_digit c) (js_lower (js_join '' '' hints))
      in map_option fst (find (\<lambda>(_, aliases). list_ex (\<lambda>a. js_includes a compact) aliases) operation_aliases))"

definition catalog_fields :: "js \<Rightarrow> js \<Rightarrow> js list" where
  "catalog_fields event workflow =
     (case find is_array [jget event ''user_fields'', jget event ''fields'', jget event ''params'', jget workflow ''user_fields'', jget workflow ''fields''] of
        Some (JArr xs) \<Rightarrow> xs | _ \<Rightarrow> [])"

definition catalogItem :: "js \<Rightarrow> catalog_event" where
  "catalogItem event =
     (let workflow = (if is_object (jget event ''workflow'') then jget event ''workflow'' else JNull);
          kind = (if js_lower (first_text event [''type'', ''kind'']) = ''workflow'' \<or> workflow \<noteq> JNull then WorkflowKind else EventKind);
          i = to_str (coalesce (jfirst event [''id'', ''event_id'']) (coalesce (jget workflow ''id'') (JStr [])));
          item = \<lparr>ce_id = i,
            ce_title = to_str (coalesce (jfirst event [''title'', ''name'']) (coalesce (jget workflow ''title'') (JStr (if i = [] then ''Untitled'' else i)))),
            ce_description = to_str (coalesce (jfirst event [''description'', ''help'', ''notes'']) (coalesce (jget workflow ''description'') (JStr []))),
            ce_operation = inferCatalogOperation event, ce_kind = kind, ce_enabled = (jget event ''enabled'' \<noteq> JBool False),
            ce_category = to_str (coalesce (jget event ''category'') (JStr ''general'')),
            ce_plugin = (if kind = WorkflowKind then None else Some (first_text event [''plugin''])),
            ce_fields = normalizeXyFields [] (catalog_fields event workflow),
            ce_targets = targetValues (jfirst event [''targets'', ''target_options'']),
            ce_dangerous = truthy (jfirst event [''dangerous'', ''requires_confirmation'']),
            ce_schemaVersion = None, ce_icon = None, ce_order = None, ce_help = None, ce_presentationLocale = None,
            ce_presentationOverridden = None\<rparr>
      in item\<lparr>ce_schemaVersion := Some (schemaFingerprint item)\<rparr>)"

text \<open>The rows of an answer, wherever the service wraps them.\<close>

definition extractEventRows :: "js \<Rightarrow> js list" where
  "extractEventRows payload = (case payload of
      JArr xs \<Rightarrow> filter is_object xs
    | JObj _ \<Rightarrow> (case find (\<lambda>k. is_array (jget payload k)) [''events'', ''rows'', ''data'', ''result''] of
          None \<Rightarrow> [] | Some k \<Rightarrow> (case jget payload k of JArr xs \<Rightarrow> filter is_object xs | _ \<Rightarrow> []))
    | _ \<Rightarrow> [])"

section \<open>Loading the catalog\<close>

definition xyopsPayloadSucceeded :: "js \<Rightarrow> bool" where
  "xyopsPayloadSucceeded payload =
     (if \<not> plain_object payload then True
      else (case jget payload ''code'' of JNum n \<Rightarrow> n = Num 0 | _ \<Rightarrow> True))"

datatype catalog_mode = DemoCatalog | LiveCatalog | UnconfiguredCatalog

text \<open>What becomes of the request for the events; an answer whose body is no JSON is the empty object.\<close>

datatype events_reply = RequestTimeout | RequestFailed | EventsAnswer int js

datatype catalog_error = CatalogTimeout | CatalogUnreachable | CatalogStatus int | CatalogCode string

definition response_ok :: "int \<Rightarrow> bool" where
  "response_ok status \<longleftrightarrow> 200 \<le> status \<and> status \<le> 299"

definition loadCatalog ::
  "bool \<Rightarrow> catalog_event list \<Rightarrow> string option \<Rightarrow> string option \<Rightarrow> events_reply \<Rightarrow> catalog_error + (catalog_mode \<times> catalog_event list)" where
  "loadCatalog demoMode demo url key reply =
     (if demoMode then Inr (DemoCatalog, demo)
      else if url = None \<or> url = Some [] \<or> key = None \<or> key = Some [] then Inr (UnconfiguredCatalog, [])
      else (case reply of
          RequestTimeout \<Rightarrow> Inl CatalogTimeout
        | RequestFailed \<Rightarrow> Inl CatalogUnreachable
        | EventsAnswer status payload \<Rightarrow>
            if \<not> response_ok status then Inl (CatalogStatus status)
            else if \<not> xyopsPayloadSucceeded payload
            then Inl (CatalogCode (take 24 (to_str (if plain_object payload then jget payload ''code'' else JStr ''unknown''))))
            else Inr (LiveCatalog, filter (\<lambda>e. ce_id e \<noteq> []) (map catalogItem (extractEventRows payload)))))"

section \<open>The fields of a form are safe\<close>

definition safe_field :: "route_field \<Rightarrow> bool" where
  "safe_field f \<longleftrightarrow> rf_key f \<noteq> [] \<and> (rf_type f = TPassword \<longrightarrow> rf_default f = JUndef)
     \<and> (\<forall>os. rf_optionsSource f = Some os \<longrightarrow> starts_with ''/api/app/'' (os_endpoint os) \<and> \<not> js_includes ''..'' (os_endpoint os)
          \<and> length (os_endpoint os) \<le> 240)
     \<and> (\<forall>c. rf_visibleWhen f = Some c \<longrightarrow> within MAX_CONDITION_DEPTH c)
     \<and> rf_options f \<noteq> Some []"

lemma optionsSource_safe:
  "fieldOptionsSource source = Some os \<Longrightarrow>
     starts_with ''/api/app/'' (os_endpoint os) \<and> \<not> js_includes ''..'' (os_endpoint os) \<and> length (os_endpoint os) \<le> 240"
  by (auto simp: fieldOptionsSource_def Let_def split: if_splits)

lemma fieldCondition_within: "fieldCondition source = Some c \<Longrightarrow> within MAX_CONDITION_DEPTH c"
  using normalize_within [of 0 MAX_CONDITION_DEPTH] by (simp add: fieldCondition_def)

lemma fieldOptions_nonempty: "fieldOptions source \<noteq> Some []"
  by (auto simp: fieldOptions_def Let_def split: js.splits)

lemma normalizeXyField_safe: "normalizeXyField source = Some f \<Longrightarrow> safe_field f"
  by (auto simp: normalizeXyField_def Let_def safe_field_def optionsSource_safe fieldCondition_within fieldOptions_nonempty split: if_splits)

lemma in_group_safe: "safe_field (in_group parents f) = safe_field f"
  by (simp add: in_group_def safe_field_def)

lemma normalizeXyFields_safe: "f \<in> set (normalizeXyFields parents raws) \<Longrightarrow> safe_field f"
proof (induction parents raws rule: normalizeXyFields.induct)
  case (1 parents raws)
  from 1(2) obtain raw where raw: "raw \<in> set raws" "plain_object raw" and f:
    "f \<in> set (case group_children raw of Some children \<Rightarrow> normalizeXyFields (group_parents parents raw) children
       | None \<Rightarrow> (case normalizeXyField raw of None \<Rightarrow> [] | Some f \<Rightarrow> [in_group parents f]))"
    unfolding normalizeXyFields.simps [of parents raws] by (auto split: if_splits)
  show ?case
  proof (cases "group_children raw")
    case None
    with f show ?thesis by (cases "normalizeXyField raw") (auto simp: in_group_safe dest: normalizeXyField_safe)
  next
    case (Some children)
    with f show ?thesis using 1(1) [OF raw(1) _ Some] raw(2) by simp
  qed
qed

text \<open>C40: Whatever the automation service sends, every field of every process of the live catalog has a key,
  a password never carries a default value, the endpoint that options are loaded from begins with
  \<open>/api/app/\<close>, contains no literal \<open>..\<close> and has at most 240 characters (a dot segment that is written in
  percent encoding is not excluded), the condition of the field is at most eight levels deep, and a list of
  options is never empty.\<close>

theorem catalog_fields_safe:
  assumes "loadCatalog False demo url key reply = Inr (mode, events)" "e \<in> set events" "f \<in> set (ce_fields e)"
  shows "safe_field f"
proof -
  from assms(1,2) obtain v where "e = catalogItem v"
    by (auto simp: loadCatalog_def split: if_splits events_reply.splits)
  with assms(3) have "f \<in> set (normalizeXyFields [] (catalog_fields v (if is_object (jget v ''workflow'') then jget v ''workflow'' else JNull)))"
    by (simp add: catalogItem_def Let_def)
  then show ?thesis by (rule normalizeXyFields_safe)
qed

definition sample_row :: js where
  "sample_row = JObj [(''id'', JStr ''e''), (''fields'', JArr [JObj [(''id'', JStr ''p''), (''type'', JStr ''password''), (''value'', JStr ''x'')]])]"

lemma catalog_fields_safe_witness:
  "\<exists>(e::catalog_event) f. f \<in> set (ce_fields e) \<and> rf_type f = TPassword \<and> safe_field f"
proof -
  let ?answer = "EventsAnswer 200 (JArr [sample_row])"
  have "extractEventRows (JArr [sample_row]) = [sample_row]" by (simp add: extractEventRows_def sample_row_def is_object_def)
  moreover have "ce_id (catalogItem sample_row) = ''e''"
    by (simp add: catalogItem_def Let_def sample_row_def)
  ultimately have load: "loadCatalog False [] (Some ''u'') (Some ''k'') ?answer = Inr (LiveCatalog, [catalogItem sample_row])"
    by (simp add: loadCatalog_def response_ok_def xyopsPayloadSucceeded_def plain_object_def)
  have "map rf_type (normalizeXyFields [] (catalog_fields sample_row JNull)) = [TPassword]" by code_simp
  then obtain f where f: "f \<in> set (ce_fields (catalogItem sample_row))" "rf_type f = TPassword"
    by (auto simp: catalogItem_def Let_def sample_row_def is_object_def)
  from catalog_fields_safe [OF load _ f(1)] have "safe_field f" by simp
  with f show ?thesis by blast
qed

section \<open>The schema version tells single changes apart\<close>

text \<open>The multiplier is odd, so a step of the hash can be undone.\<close>

lemma fnv_multiplier: "(16777619::32 word) * 899433627 = 1"
  by simp

lemma fnv_mult_cancel: "(x::32 word) * 16777619 = y * 16777619 \<Longrightarrow> x = y"
proof -
  assume "x * 16777619 = y * 16777619"
  then have "x * (16777619 * 899433627) = y * (16777619 * 899433627)" by (simp only: mult.assoc [symmetric])
  then show ?thesis by (simp only: fnv_multiplier mult_1_right)
qed

lemma xor_cancel: "(x::32 word) XOR y = x XOR z \<Longrightarrow> y = z"
  by (metis xor.left_commute xor_self_eq xor.right_neutral)

lemma fnv_step_eq: "fnv_step h c = fnv_step k d \<longleftrightarrow> h XOR word_of_nat (code c) = k XOR word_of_nat (code d)"
  unfolding fnv_step_def by (rule iffI, erule fnv_mult_cancel) (rule arg_cong)

lemma fnv_step_inj: "fnv_step h c = fnv_step k c \<Longrightarrow> h = k"
  unfolding fnv_step_eq by (rule xor_cancel) (simp only: xor.commute)

lemma unat_code: "unat (word_of_nat (code c) :: 32 word) = code c"
proof -
  have "code c < 256" by (rule nat_of_char_less_256)
  then have "code c < 2 ^ LENGTH(32)" by (rule less_trans) simp
  then show ?thesis by (simp only: unat_of_nat mod_less)
qed

lemma fnv_step_char: "fnv_step h c = fnv_step h d \<Longrightarrow> c = d"
proof -
  assume "fnv_step h c = fnv_step h d"
  then have "(word_of_nat (code c) :: 32 word) = word_of_nat (code d)"
    unfolding fnv_step_eq by (rule xor_cancel)
  then have "code c = code d" by (metis unat_code)
  then show "c = d" by simp
qed

lemma fnv_fold_inj: "foldl fnv_step h s = foldl fnv_step k s \<Longrightarrow> h = k"
  by (induction s arbitrary: h k) (auto dest: fnv_step_inj)

lemma hex_digit_inj: "a < 16 \<Longrightarrow> b < 16 \<Longrightarrow> hex_digit a = hex_digit b \<Longrightarrow> a = b"
  by (auto simp: hex_digit_def split: if_splits)

lemma hex_digits_inj: "m < 16 ^ k \<Longrightarrow> n < 16 ^ k \<Longrightarrow> hex_digits k m = hex_digits k n \<Longrightarrow> m = n"
proof (induction k arbitrary: m n)
  case (Suc k)
  then have "hex_digits k (m div 16) = hex_digits k (n div 16)" "hex_digit (m mod 16) = hex_digit (n mod 16)" by simp_all
  moreover have "m div 16 < 16 ^ k" "n div 16 < 16 ^ k" using Suc.prems by (simp_all add: less_mult_imp_div_less mult.commute)
  ultimately have "m div 16 = n div 16" "m mod 16 = n mod 16" using Suc.IH hex_digit_inj by auto
  then show ?case by (metis div_mult_mod_eq)
qed simp

lemma length_hex_digits [simp]: "length (hex_digits k n) = k"
  by (induction k arbitrary: n) simp_all

lemma schemaFingerprint_eq:
  "schemaFingerprint a = schemaFingerprint b \<longleftrightarrow> fnv_hash (json_print (schema_js a)) = fnv_hash (json_print (schema_js b))"
proof -
  have "unat x < 16 ^ 8" for x :: "32 word" using unsigned_less [of x] by simp
  from hex_digits_inj [OF this this] have "hex_digits 8 (unat x) = hex_digits 8 (unat y) \<Longrightarrow> x = y" for x y :: "32 word"
    by (simp add: word_unat_eq_iff)
  then show ?thesis by (auto simp: schemaFingerprint_def)
qed

text \<open>The schema version is a text of eleven characters, and it tells apart any two schemas whose printed
  forms differ in one character: no wrap-around of the 32-bit hash hides such a change, so an approval or
  a stored run is never launched against a schema changed in one digit of a bound or one letter of a key.\<close>

lemma schema_version_change:
  assumes "json_print (schema_js a) = before @ c # after" "json_print (schema_js b) = before @ d # after" "c \<noteq> d"
  shows "length (schemaFingerprint a) = 11 \<and> schemaFingerprint a \<noteq> schemaFingerprint b"
proof -
  have "foldl fnv_step (fnv_step h c) after \<noteq> foldl fnv_step (fnv_step h d) after" for h
    using assms(3) fnv_fold_inj fnv_step_char by blast
  then have "schemaFingerprint a \<noteq> schemaFingerprint b"
    using assms(1,2) by (simp add: schemaFingerprint_eq fnv_hash_def)
  then show ?thesis by (simp add: schemaFingerprint_def)
qed

lemma schema_version_change_witness:
  "schemaFingerprint ((plain_event ''e'' [])\<lparr>ce_targets := [''a'']\<rparr>) \<noteq> schemaFingerprint ((plain_event ''e'' [])\<lparr>ce_targets := [''b'']\<rparr>)"
proof -
  let ?before = "''{'' @ json_quote ''kind'' @ '':'' @ json_quote ''event'' @ '','' @ json_quote ''fields'' @ '':[],'' @ json_quote ''targets'' @ '':['' @ [CHR 0x22]"
  let ?after = "[CHR 0x22] @ ''],'' @ json_quote ''dangerous'' @ '':false}''"
  have "json_print (schema_js ((plain_event ''e'' [])\<lparr>ce_targets := [''a'']\<rparr>)) = ?before @ CHR ''a'' # ?after" by code_simp
  moreover have "json_print (schema_js ((plain_event ''e'' [])\<lparr>ce_targets := [''b'']\<rparr>)) = ?before @ CHR ''b'' # ?after" by code_simp
  ultimately show ?thesis using schema_version_change by blast
qed

end
