(* ===== verification/CatalogPolicies.thy ===== *)
theory CatalogPolicies
  imports Database Json Permissions
begin

text \<open>
  The visibility policies of the automation catalog,
  \<open>src/operations/catalog/catalog-policies.ts\<close>: the sanitiser of an uploaded policy, the decision
  whether a subject may see a process, and the storage of the current policy. Roles are those of
  \<open>Permissions\<close>. Messages of thrown errors are kept as text. The two tables of policies a
  database holds (\<open>approval_policy_sets\<close> and \<open>catalog_visibility_policies\<close>) are single rows.
\<close>

section \<open>Normalising text\<close>

definition is_ctrl :: "char \<Rightarrow> bool" where
  "is_ctrl c = (code c \<le> 31 \<or> code c = 127)"

definition cleanText :: "js \<Rightarrow> nat \<Rightarrow> string" where
  "cleanText v limit = take limit (js_trim (filter (\<lambda>c. \<not> is_ctrl c) (to_str (coalesce v (JStr [])))))"

definition identity_text :: "string \<Rightarrow> string" where
  "identity_text s =
     (if s \<noteq> [] \<and> CHR ''@'' \<in> set s \<and> \<not> list_ex (\<lambda>c. is_space c \<or> c = CHR '','') s then s else [])"

definition group_text :: "string \<Rightarrow> string" where
  "group_text s = (if s \<noteq> [] \<and> \<not> list_ex (\<lambda>c. c \<in> {CHR '','', CHR 0x0D, CHR 0x0A}) s then s else [])"

definition normalizedIdentity :: "js \<Rightarrow> string" where
  "normalizedIdentity v = identity_text (js_lower (cleanText v 160))"

definition normalizedGroup :: "js \<Rightarrow> string" where
  "normalizedGroup v = group_text (js_lower (cleanText v 120))"

definition normalizedCategory :: "js \<Rightarrow> string" where
  "normalizedCategory v = js_lower (cleanText v 160)"

definition normalizedProcess :: "js \<Rightarrow> string" where
  "normalizedProcess v = cleanText v 160"

definition uniqueValues :: "'a list \<Rightarrow> nat \<Rightarrow> 'a list" where
  "uniqueValues xs limit = take limit (uniq xs)"

definition stringArray :: "js \<Rightarrow> (js \<Rightarrow> string) \<Rightarrow> string list" where
  "stringArray v norm = (case v of
      JArr xs \<Rightarrow> uniqueValues (filter (\<lambda>s. s \<noteq> []) (map norm xs)) 100
    | _ \<Rightarrow> [])"

text \<open>The roles of an array; the two \<open>roleArray\<close> functions of the source are the same.\<close>

definition roleArray :: "js \<Rightarrow> portal_role list" where
  "roleArray v = (case v of
      JArr xs \<Rightarrow> uniqueValues (List.map_filter (\<lambda>x. case x of JStr s \<Rightarrow> parse_role s | _ \<Rightarrow> None) xs) 3
    | _ \<Rightarrow> [])"

section \<open>Policies\<close>

datatype catalog_effect = Allow | Deny

record visibility_rule =
  vr_id :: string
  vr_effect :: catalog_effect
  vr_users :: "string list"
  vr_groups :: "string list"
  vr_roles :: "portal_role list"
  vr_categories :: "string list"
  vr_processes :: "string list"

record catalog_policy =
  cp_defaultEffect :: catalog_effect
  cp_adminBypass :: bool
  cp_rules :: "visibility_rule list"

record policy_subject =
  su_identity :: string
  su_role :: portal_role
  su_groups :: "string list"

definition default_catalog_policy :: catalog_policy where
  "default_catalog_policy = \<lparr>cp_defaultEffect = Allow, cp_adminBypass = True, cp_rules = []\<rparr>"

definition parse_effect :: "js \<Rightarrow> catalog_effect option" where
  "parse_effect v = (case v of
      JStr s \<Rightarrow> if s = ''allow'' then Some Allow else if s = ''deny'' then Some Deny else None
    | _ \<Rightarrow> None)"

definition or_rule :: "string \<Rightarrow> nat \<Rightarrow> string" where
  "or_rule i n = (if i = [] then ''rule-'' @ nat_to_str (Suc n) else i)"

definition sanitize_rule :: "nat \<Rightarrow> js \<Rightarrow> string + visibility_rule" where
  "sanitize_rule n rule =
     bindE (guardE (plain_object rule) (''Rule '' @ nat_to_str (Suc n) @ '' must be an object'')) (\<lambda>_.
     (case parse_effect (jget rule ''effect'') of
        None \<Rightarrow> Inl (''Rule '' @ nat_to_str (Suc n) @ '': effect must be allow or deny'')
      | Some effect \<Rightarrow>
          (let i = or_rule (cleanText (jget rule ''id'') 120) n;
               users = stringArray (jget rule ''users'') normalizedIdentity;
               groups = stringArray (jget rule ''groups'') normalizedGroup;
               roles = roleArray (jget rule ''roles'')
           in bindE (guardE (\<not> (users = [] \<and> groups = [] \<and> roles = [] \<and> jget rule ''subjects'' \<noteq> JUndef))
                      (''Rule '' @ i @ '': subjects are invalid'')) (\<lambda>_.
              Inr \<lparr>vr_id = i, vr_effect = effect, vr_users = users, vr_groups = groups, vr_roles = roles,
                vr_categories = stringArray (jget rule ''categories'') normalizedCategory,
                vr_processes = stringArray (jget rule ''processes'') normalizedProcess\<rparr>))))"

fun map_indexed :: "(nat \<Rightarrow> 'a \<Rightarrow> 'e + 'b) \<Rightarrow> nat \<Rightarrow> 'a list \<Rightarrow> 'e + 'b list" where
  "map_indexed f n [] = Inr []"
| "map_indexed f n (x # xs) = bindE (f n x) (\<lambda>y. bindE (map_indexed f (Suc n) xs) (\<lambda>ys. Inr (y # ys)))"

text \<open>The first id that repeats an earlier one.\<close>

fun duplicate_id :: "string list \<Rightarrow> string list \<Rightarrow> string option" where
  "duplicate_id seen [] = None"
| "duplicate_id seen (i # ids) = (if i \<in> set seen then Some i else duplicate_id (i # seen) ids)"

definition raw_rules :: "js \<Rightarrow> js list" where
  "raw_rules v = (case jget v ''rules'' of JArr xs \<Rightarrow> take 200 xs | _ \<Rightarrow> [])"

definition sanitizeCatalogPolicySet :: "js \<Rightarrow> string + catalog_policy" where
  "sanitizeCatalogPolicySet v =
     bindE (guardE (plain_object v) ''Policy must be a JSON object'') (\<lambda>_.
     (let de = jget v ''defaultEffect'' in
      case (if de = JUndef then Some Allow else parse_effect de) of
        None \<Rightarrow> Inl ''defaultEffect must be allow or deny''
      | Some effect \<Rightarrow>
          bindE (guardE (jget v ''rules'' = JUndef \<or> is_array (jget v ''rules'')) ''rules must be an array'') (\<lambda>_.
          bindE (map_indexed sanitize_rule 0 (raw_rules v)) (\<lambda>rules.
          (case duplicate_id [] (map vr_id rules) of
             Some i \<Rightarrow> Inl (''Duplicate policy rule id: '' @ i)
           | None \<Rightarrow> Inr \<lparr>cp_defaultEffect = effect, cp_adminBypass = (jget v ''adminBypass'' \<noteq> JBool False),
                       cp_rules = rules\<rparr>)))))"

section \<open>The decision\<close>

definition subjectMatches :: "visibility_rule \<Rightarrow> policy_subject \<Rightarrow> bool" where
  "subjectMatches r s =
     (if vr_users r = [] \<and> vr_groups r = [] \<and> vr_roles r = [] then True
      else if js_lower (su_identity s) \<in> set (vr_users r) then True
      else if su_role s \<in> set (vr_roles r) then True
      else list_ex (\<lambda>g. g \<in> set (map js_lower (su_groups s))) (vr_groups r))"

definition resourceMatches :: "visibility_rule \<Rightarrow> string \<Rightarrow> js \<Rightarrow> bool" where
  "resourceMatches r event_id category =
     (if vr_categories r = [] \<and> vr_processes r = [] then True
      else if event_id \<in> set (vr_processes r) then True
      else js_lower (js_trim (to_str (coalesce category (JStr [])))) \<in> set (vr_categories r))"

definition catalogEventAllowed :: "catalog_policy \<Rightarrow> policy_subject \<Rightarrow> string \<Rightarrow> js \<Rightarrow> bool" where
  "catalogEventAllowed p s event_id category =
     (if cp_adminBypass p \<and> su_role s = Admin then True
      else (let matching = filter (\<lambda>r. subjectMatches r s \<and> resourceMatches r event_id category) (cp_rules p)
            in if list_ex (\<lambda>r. vr_effect r = Deny) matching then False
               else if list_ex (\<lambda>r. vr_effect r = Allow) matching then True
               else cp_defaultEffect p = Allow))"

section \<open>Storage\<close>

definition effect_name :: "catalog_effect \<Rightarrow> string" where
  "effect_name e = (case e of Allow \<Rightarrow> ''allow'' | Deny \<Rightarrow> ''deny'')"

definition strings_js :: "string list \<Rightarrow> js" where
  "strings_js xs = JArr (map JStr xs)"

definition rule_js :: "visibility_rule \<Rightarrow> js" where
  "rule_js r = JObj [(''id'', JStr (vr_id r)), (''effect'', JStr (effect_name (vr_effect r))),
     (''users'', strings_js (vr_users r)), (''groups'', strings_js (vr_groups r)),
     (''roles'', strings_js (map role_name (vr_roles r))), (''categories'', strings_js (vr_categories r)),
     (''processes'', strings_js (vr_processes r))]"

definition catalog_policy_js :: "catalog_policy \<Rightarrow> js" where
  "catalog_policy_js p = JObj [(''version'', JInt 1), (''defaultEffect'', JStr (effect_name (cp_defaultEffect p))),
     (''adminBypass'', JBool (cp_adminBypass p)), (''rules'', JArr (map rule_js (cp_rules p)))]"

text \<open>The row with id \<open>current\<close>: the text and the time.\<close>

type_synonym policy_table = "(string \<times> int) option"

datatype policy_error = PolicyError string | PolicyStorage

datatype policy_source = FromDatabase | FromEnvironment | FromDefault

type_synonym 'a policy_eff = "(policy_table database, policy_error, 'a) eff"

text \<open>\<open>sanitize(JSON.parse(text))\<close>; a syntax error of the parser has its own message.\<close>

definition parse_policy :: "(js \<Rightarrow> string + 'p) \<Rightarrow> string \<Rightarrow> string + 'p" where
  "parse_policy sanitize text = (case json_parse text of None \<Rightarrow> Inl ''JSON'' | Some v \<Rightarrow> sanitize v)"

definition read_policy_set ::
  "(js \<Rightarrow> string + 'p) \<Rightarrow> 'p \<Rightarrow> string \<Rightarrow> string \<Rightarrow> bool \<Rightarrow> string option \<Rightarrow> ('p \<times> policy_source \<times> int option) policy_eff" where
  "read_policy_set sanitize default_policy invalid variable hasDB env =
     bindM (if hasDB then d1_read PolicyStorage id else returnM None) (\<lambda>row.
     (case row of
        Some (text, updated) \<Rightarrow> (case parse_policy sanitize text of
            Inr p \<Rightarrow> returnM (p, FromDatabase, Some updated)
          | Inl _ \<Rightarrow> throwM (PolicyError invalid))
      | None \<Rightarrow>
          if env = None \<or> env = Some [] then returnM (default_policy, FromDefault, None)
          else (case parse_policy sanitize (the env) of
              Inr p \<Rightarrow> returnM (p, FromEnvironment, None)
            | Inl m \<Rightarrow> throwM (PolicyError (variable @ '': '' @ m)))))"

definition save_policy_set ::
  "(js \<Rightarrow> string + 'p) \<Rightarrow> ('p \<Rightarrow> js) \<Rightarrow> bool \<Rightarrow> js \<Rightarrow> int \<Rightarrow> ('p \<times> int) policy_eff" where
  "save_policy_set sanitize to_js hasDB v now =
     bindM (requireM hasDB (PolicyError ''Persistent database is unavailable'')) (\<lambda>_.
     bindM (liftM (case sanitize v of Inl m \<Rightarrow> Inl (PolicyError m) | Inr p \<Rightarrow> Inr p)) (\<lambda>p.
     bindM (d1_call PolicyStorage (\<lambda>t. ((), Some (json_print (to_js p), now)))) (\<lambda>_.
     returnM (p, now))))"

definition readCatalogPolicySet :: "bool \<Rightarrow> string option \<Rightarrow> (catalog_policy \<times> policy_source \<times> int option) policy_eff" where
  "readCatalogPolicySet = read_policy_set sanitizeCatalogPolicySet default_catalog_policy
     ''Stored catalog visibility policy is invalid'' ''PORTAL_CATALOG_POLICIES_JSON''"

definition saveCatalogPolicySet :: "bool \<Rightarrow> js \<Rightarrow> int \<Rightarrow> (catalog_policy \<times> int) policy_eff" where
  "saveCatalogPolicySet = save_policy_set sanitizeCatalogPolicySet catalog_policy_js"

section \<open>The order of rules\<close>

text \<open>The visibility decision does not depend on the order or the repetition of the rules, and a
  further denying rule never shows a subject a process it did not see before.\<close>

lemma catalog_decision_order:
  assumes "set (cp_rules p) = set (cp_rules q)" "cp_defaultEffect p = cp_defaultEffect q" "cp_adminBypass p = cp_adminBypass q"
  shows "catalogEventAllowed p s e c = catalogEventAllowed q s e c
    \<and> (vr_effect r = Deny \<longrightarrow> catalogEventAllowed (p\<lparr>cp_rules := cp_rules p @ [r]\<rparr>) s e c \<longrightarrow> catalogEventAllowed q s e c)"
proof -
  have same: "catalogEventAllowed p s e c = catalogEventAllowed q s e c"
    using assms by (simp add: catalogEventAllowed_def list_ex_iff Let_def)
  have "catalogEventAllowed (p\<lparr>cp_rules := cp_rules p @ [r]\<rparr>) s e c \<Longrightarrow> vr_effect r = Deny \<Longrightarrow> catalogEventAllowed p s e c"
    by (auto simp: catalogEventAllowed_def list_ex_iff Let_def split: if_splits)
  with same show ?thesis by blast
qed

lemma catalog_decision_order_witness:
  "\<forall>x y s e c. catalogEventAllowed (default_catalog_policy\<lparr>cp_rules := [x, y]\<rparr>) s e c
     = catalogEventAllowed (default_catalog_policy\<lparr>cp_rules := [y, x]\<rparr>) s e c"
proof (intro allI)
  fix x y s e c
  show "catalogEventAllowed (default_catalog_policy\<lparr>cp_rules := [x, y]\<rparr>) s e c = catalogEventAllowed (default_catalog_policy\<lparr>cp_rules := [y, x]\<rparr>) s e c"
    using catalog_decision_order [of "default_catalog_policy\<lparr>cp_rules := [x, y]\<rparr>" "default_catalog_policy\<lparr>cp_rules := [y, x]\<rparr>" s e c]
    by (simp add: insert_commute)
qed

section \<open>Reading back a stored policy\<close>

text \<open>Truncation can leave a text that ends in a blank; \<open>settled\<close> texts do not.\<close>

definition settled :: "string \<Rightarrow> bool" where
  "settled s = (js_trim s = s)"

definition settled_rule :: "visibility_rule \<Rightarrow> bool" where
  "settled_rule r = (settled (vr_id r) \<and> list_all settled (vr_groups r) \<and> list_all settled (vr_categories r)
     \<and> list_all settled (vr_processes r))"

definition clean_text :: "nat \<Rightarrow> string \<Rightarrow> bool" where
  "clean_text limit s = (length s \<le> limit \<and> list_all (\<lambda>c. \<not> is_ctrl c) s)"

lemma dropWhile_map_cong: "(\<And>c. P (f c) = P c) \<Longrightarrow> dropWhile P (map f s) = map f (dropWhile P s)"
  by (induction s) auto

lemma lower_char_class [simp]: "is_ctrl (lower_char c) = is_ctrl c" "is_space (lower_char c) = is_space c"
proof -
  have "code (char_of (code c + 32) :: char) = code c + 32" if "code c + 32 < (256::nat)"
    using that by (simp add: of_char_of)
  then show "is_ctrl (lower_char c) = is_ctrl c" "is_space (lower_char c) = is_space c"
    by (auto simp: lower_char_def is_ctrl_def is_space_def)
qed

lemma js_trim_lower: "js_trim (js_lower s) = js_lower (js_trim s)"
  by (simp add: js_trim_def js_lower_def dropWhile_map_cong rev_map)

lemma settled_lower [simp]: "settled s \<Longrightarrow> settled (js_lower s)"
  by (simp add: settled_def js_trim_lower)

lemma settled_no_space: "list_all (\<lambda>c. \<not> is_space c) s \<Longrightarrow> settled s"
proof -
  have "dropWhile is_space t = t" if "list_all (\<lambda>c. \<not> is_space c) t" for t
    using that by (cases t) auto
  moreover assume "list_all (\<lambda>c. \<not> is_space c) s"
  ultimately show ?thesis by (simp add: settled_def js_trim_def)
qed

lemma set_js_trim: "set (js_trim s) \<subseteq> set s"
  by (auto simp: js_trim_def dest!: set_dropWhileD)

lemma cleanText_clean: "clean_text n (cleanText v n)"
  using set_js_trim by (fastforce simp: clean_text_def cleanText_def list_all_iff dest: in_set_takeD)

lemma clean_lower [simp]: "clean_text n (js_lower s) = clean_text n s"
  by (simp add: clean_text_def js_lower_def list_all_iff)

lemma cleanText_id: "clean_text n s \<Longrightarrow> settled s \<Longrightarrow> cleanText (JStr s) n = s"
  by (simp add: clean_text_def settled_def cleanText_def list_all_iff)

lemma lower_cleanText_id: "clean_text n s \<Longrightarrow> settled s \<Longrightarrow> js_lower (cleanText (JStr (js_lower s)) n) = js_lower s"
  by (simp add: cleanText_id)

text \<open>The four normal forms.\<close>

lemma identity_again: "x = normalizedIdentity v \<Longrightarrow> x \<noteq> [] \<Longrightarrow> normalizedIdentity (JStr x) = x"
proof -
  assume x: "x = normalizedIdentity v" "x \<noteq> []"
  then have e: "x = js_lower (cleanText v 160)" and i: "identity_text x = x"
    by (auto simp: normalizedIdentity_def identity_text_def split: if_splits)
  from i x(2) have "list_all (\<lambda>c. \<not> is_space c) x"
    by (auto simp: identity_text_def list_ex_iff list_all_iff split: if_splits)
  then have "settled x" by (rule settled_no_space)
  moreover have "clean_text 160 x" by (simp add: e cleanText_clean)
  ultimately have "cleanText (JStr x) 160 = x" by (intro cleanText_id)
  moreover have "js_lower x = x" by (simp add: e)
  ultimately show ?thesis using i by (simp add: normalizedIdentity_def)
qed

lemma lowered_again: "x = js_lower (cleanText v n) \<Longrightarrow> settled x \<Longrightarrow> js_lower (cleanText (JStr x) n) = x"
  using cleanText_id [of n x] cleanText_clean [of n v] by simp

lemma group_again: "x = normalizedGroup v \<Longrightarrow> x \<noteq> [] \<Longrightarrow> settled x \<Longrightarrow> normalizedGroup (JStr x) = x"
proof -
  assume x: "x = normalizedGroup v" "x \<noteq> []" "settled x"
  then have "x = js_lower (cleanText v 120)" "group_text x = x"
    by (auto simp: normalizedGroup_def group_text_def split: if_splits)
  with lowered_again [OF this(1) x(3)] show ?thesis by (simp add: normalizedGroup_def)
qed

lemma category_again: "x = normalizedCategory v \<Longrightarrow> settled x \<Longrightarrow> normalizedCategory (JStr x) = x"
  unfolding normalizedCategory_def by (rule lowered_again)

lemma process_again: "x = normalizedProcess v \<Longrightarrow> settled x \<Longrightarrow> normalizedProcess (JStr x) = x"
  using cleanText_id cleanText_clean by (auto simp: normalizedProcess_def)

lemma stringArray_props:
  "distinct (stringArray v f)" "length (stringArray v f) \<le> 100"
  "x \<in> set (stringArray v f) \<Longrightarrow> x \<noteq> [] \<and> (\<exists>y. x = f y)"
  by (auto simp: stringArray_def uniqueValues_def distinct_take split: js.splits dest!: in_set_takeD)

lemma uniqueValues_id: "distinct xs \<Longrightarrow> length xs \<le> n \<Longrightarrow> uniqueValues xs n = xs"
  by (simp add: uniqueValues_def uniq_id)

lemma stringArray_again:
  assumes "xs = stringArray v f" "\<And>x y. x = f y \<Longrightarrow> x \<in> set xs \<Longrightarrow> x \<noteq> [] \<Longrightarrow> f (JStr x) = x"
  shows "stringArray (strings_js xs) f = xs"
proof -
  have "distinct xs" "length xs \<le> 100" using stringArray_props(1,2) [of v f] assms(1) by simp_all
  moreover have "map (\<lambda>x. f (JStr x)) xs = xs"
    using assms stringArray_props(3) [of _ v f] by (intro map_idI) blast
  moreover have "filter (\<lambda>s. s \<noteq> []) xs = xs"
    using assms(1) stringArray_props(3) [of _ v f] by (auto simp: filter_id_conv)
  ultimately show ?thesis
    by (simp add: stringArray_def strings_js_def comp_def uniqueValues_id)
qed

lemma roleArray_again: "rs = roleArray v \<Longrightarrow> roleArray (strings_js (map role_name rs)) = rs"
proof -
  assume "rs = roleArray v"
  then have "distinct rs" "length rs \<le> 3"
    by (auto simp: roleArray_def uniqueValues_def distinct_take split: js.splits)
  moreover have "List.map_filter (\<lambda>x. case x of JStr s \<Rightarrow> parse_role s | _ \<Rightarrow> None) (map (JStr \<circ> role_name) rs) = rs"
    by (induction rs) (simp_all add: List.map_filter_simps)
  ultimately show ?thesis by (simp add: roleArray_def strings_js_def uniqueValues_id)
qed

lemma rule_name_again:
  assumes "n < 200" "i = or_rule (cleanText v 120) n" "settled i"
  shows "or_rule (cleanText (JStr i) 120) m = i"
proof -
  have "clean_text 120 i"
  proof (cases "cleanText v 120 = []")
    case True
    have "list_all is_digit (nat_to_str (Suc n))" by (rule nat_to_str_digits)
    then have "list_all (\<lambda>c. \<not> is_ctrl c) (nat_to_str (Suc n))"
      by (auto simp: list_all_iff is_digit_def is_ctrl_def)
    moreover have "length (nat_to_str (Suc n)) \<le> 3" using assms(1) by (intro length_nat_to_str) simp_all
    ultimately show ?thesis using True assms(2) by (simp add: or_rule_def clean_text_def is_ctrl_def)
  next
    case False
    with assms(2) cleanText_clean [of 120 v] show ?thesis by (simp add: or_rule_def)
  qed
  then have "cleanText (JStr i) 120 = i" using assms(3) by (rule cleanText_id)
  moreover have "i \<noteq> []" using assms(2) by (auto simp: or_rule_def)
  ultimately show ?thesis by (simp add: or_rule_def)
qed

lemma sanitize_rule_Inr:
  assumes "sanitize_rule n v = Inr r"
  shows "vr_id r = or_rule (cleanText (jget v ''id'') 120) n" "vr_users r = stringArray (jget v ''users'') normalizedIdentity"
    "vr_groups r = stringArray (jget v ''groups'') normalizedGroup" "vr_roles r = roleArray (jget v ''roles'')"
    "vr_categories r = stringArray (jget v ''categories'') normalizedCategory"
    "vr_processes r = stringArray (jget v ''processes'') normalizedProcess"
  using assms by (auto simp: sanitize_rule_def Let_def split: option.splits)

lemma parse_effect_name [simp]: "parse_effect (JStr (effect_name e)) = Some e"
  by (cases e) (simp_all add: parse_effect_def effect_name_def)

lemma sanitize_rule_again:
  assumes "sanitize_rule n v = Inr r" "settled_rule r" "n < 200"
  shows "sanitize_rule n (rule_js r) = Inr r"
proof -
  note f = sanitize_rule_Inr [OF assms(1)]
  from assms(2) have s: "settled (vr_id r)" "\<And>x. x \<in> set (vr_groups r) \<Longrightarrow> settled x"
    "\<And>x. x \<in> set (vr_categories r) \<Longrightarrow> settled x" "\<And>x. x \<in> set (vr_processes r) \<Longrightarrow> settled x"
    by (auto simp: settled_rule_def list_all_iff)
  have "stringArray (strings_js (vr_users r)) normalizedIdentity = vr_users r"
    by (rule stringArray_again [OF f(2)]) (rule identity_again)
  moreover have "stringArray (strings_js (vr_groups r)) normalizedGroup = vr_groups r"
    by (rule stringArray_again [OF f(3)]) (blast intro: group_again s)
  moreover have "stringArray (strings_js (vr_categories r)) normalizedCategory = vr_categories r"
    by (rule stringArray_again [OF f(5)]) (blast intro: category_again s)
  moreover have "stringArray (strings_js (vr_processes r)) normalizedProcess = vr_processes r"
    by (rule stringArray_again [OF f(6)]) (blast intro: process_again s)
  moreover have "or_rule (cleanText (JStr (vr_id r)) 120) n = vr_id r"
    by (rule rule_name_again [OF assms(3) f(1) s(1)])
  ultimately show ?thesis
    using roleArray_again [OF f(4)] by (simp add: sanitize_rule_def rule_js_def plain_object_def)
qed

lemma map_indexed_length: "map_indexed f n xs = Inr ys \<Longrightarrow> length ys = length xs"
  by (induction xs arbitrary: n ys) auto

lemma map_indexed_again:
  assumes "map_indexed sanitize_rule n xs = Inr rs" "list_all settled_rule rs" "n + length xs \<le> 200"
  shows "map_indexed sanitize_rule n (map rule_js rs) = Inr rs"
  using assms
proof (induction xs arbitrary: n rs)
  case (Cons x xs)
  then show ?case by (auto simp: sanitize_rule_again)
qed simp

definition settled_policy :: "catalog_policy \<Rightarrow> bool" where
  "settled_policy p = list_all settled_rule (cp_rules p)"

lemma raw_rules_length: "length (raw_rules v) \<le> 200"
  by (simp add: raw_rules_def split: js.splits)

lemma sanitize_catalog_again:
  assumes "sanitizeCatalogPolicySet v = Inr p" "settled_policy p"
  shows "sanitizeCatalogPolicySet (catalog_policy_js p) = Inr p"
proof -
  from assms(1) have m: "map_indexed sanitize_rule 0 (raw_rules v) = Inr (cp_rules p)"
    and d: "duplicate_id [] (map vr_id (cp_rules p)) = None"
    by (auto simp: sanitizeCatalogPolicySet_def Let_def split: option.splits if_splits)
  from map_indexed_again [OF m] assms(2) raw_rules_length [of v]
  have "map_indexed sanitize_rule 0 (map rule_js (cp_rules p)) = Inr (cp_rules p)"
    by (simp add: settled_policy_def)
  moreover have "raw_rules (catalog_policy_js p) = map rule_js (cp_rules p)"
    using map_indexed_length [OF m] raw_rules_length [of v] by (simp add: raw_rules_def catalog_policy_js_def)
  ultimately show ?thesis using d
    by (simp add: sanitizeCatalogPolicySet_def Let_def) (simp add: catalog_policy_js_def plain_object_def is_array_def)
qed

lemma strings_js_plain [simp]: "json_plain (strings_js xs)"
  by (simp add: strings_js_def list_all_iff)

lemma catalog_policy_plain: "json_plain (catalog_policy_js p)"
  by (simp add: catalog_policy_js_def rule_js_def list_all_iff)

text \<open>A visibility policy that is saved is read back as the same policy, provided no text in it was
  cut off at a blank.\<close>

lemma catalog_policy_reload:
  assumes "saveCatalogPolicySet True v now \<lparr>db_tables = t, db_schedule = []\<rparr> = (Inr (p, updated), w)" "settled_policy p"
  shows "readCatalogPolicySet True env w = (Inr (p, FromDatabase, Some now), w)"
proof -
  from assms(1) have p: "sanitizeCatalogPolicySet v = Inr p"
    and w: "w = \<lparr>db_tables = Some (json_print (catalog_policy_js p), now), db_schedule = []\<rparr>"
    by (auto simp: saveCatalogPolicySet_def save_policy_set_def eff_Inr_iffs d1_call_quiet split: sum.splits)
  have "parse_policy sanitizeCatalogPolicySet (json_print (catalog_policy_js p)) = Inr p"
    by (simp add: parse_policy_def json_parse_print [OF catalog_policy_plain] sanitize_catalog_again [OF p assms(2)])
  then show ?thesis
    by (simp add: readCatalogPolicySet_def read_policy_set_def w bindM_run d1_read_quiet returnM_run)
qed

text \<open>A policy whose second rule id is cut off right after a blank.\<close>

definition bad_id :: string where
  "bad_id = replicate 119 (CHR ''a'')"

definition bad_policy :: js where
  "bad_policy = JObj [(''rules'', JArr [
     JObj [(''id'', JStr bad_id), (''effect'', JStr ''allow'')],
     JObj [(''id'', JStr (bad_id @ '' b'')), (''effect'', JStr ''deny'')]])]"

text \<open>Without that proviso a policy can be accepted and stored although it can never be read again:
  two rule ids that differ only in a trailing blank left by the truncation are different when the policy is
  saved and equal when it is read, so every read throws and the catalog stays unavailable.\<close>

lemma catalog_policy_unreadable:
  "\<exists>p w. saveCatalogPolicySet True bad_policy now \<lparr>db_tables = t, db_schedule = []\<rparr> = (Inr (p, now), w)
    \<and> readCatalogPolicySet True env w = (Inl (PolicyError ''Stored catalog visibility policy is invalid''), w)"
proof -
  have clean: "filter (\<lambda>c. \<not> is_ctrl c) (bad_id @ s) = bad_id @ filter (\<lambda>c. \<not> is_ctrl c) s" for s
    by (simp add: bad_id_def is_ctrl_def)
  have trims: "js_trim bad_id = bad_id" "js_trim (bad_id @ '' b'') = bad_id @ '' b''" "js_trim (bad_id @ '' '') = bad_id"
    by (simp_all add: js_trim_def bad_id_def is_space_def numeral_eq_Suc)
  have ids: "cleanText (JStr bad_id) 120 = bad_id" "cleanText (JStr (bad_id @ '' b'')) 120 = bad_id @ '' ''"
    "cleanText (JStr (bad_id @ '' '')) 120 = bad_id"
    using clean [of "[]"] clean [of "'' b''"] clean [of "'' ''"]
    by (simp_all add: cleanText_def trims is_ctrl_def) (simp_all add: bad_id_def)
  define rules where "rules = [\<lparr>vr_id = bad_id, vr_effect = Allow, vr_users = [], vr_groups = [], vr_roles = [], vr_categories = [],
       vr_processes = []\<rparr>, \<lparr>vr_id = bad_id @ '' '', vr_effect = Deny, vr_users = [], vr_groups = [], vr_roles = [], vr_categories = [],
       vr_processes = []\<rparr>]"
  define p where "p = \<lparr>cp_defaultEffect = Allow, cp_adminBypass = True, cp_rules = rules\<rparr>"
  have ne: "bad_id \<noteq> []" by (simp add: bad_id_def)
  have s: "sanitizeCatalogPolicySet bad_policy = Inr p"
    by (simp add: sanitizeCatalogPolicySet_def raw_rules_def bad_policy_def plain_object_def is_array_def sanitize_rule_def
      parse_effect_def ids or_rule_def ne stringArray_def roleArray_def p_def rules_def)
  have r: "\<exists>m. sanitizeCatalogPolicySet (catalog_policy_js p) = Inl m"
    by (simp add: sanitizeCatalogPolicySet_def raw_rules_def catalog_policy_js_def p_def rules_def rule_js_def plain_object_def is_array_def
      sanitize_rule_def effect_name_def parse_effect_def ids or_rule_def ne stringArray_def roleArray_def strings_js_def uniqueValues_def)
  let ?w = "\<lparr>db_tables = Some (json_print (catalog_policy_js p), now), db_schedule = []\<rparr>"
  have "saveCatalogPolicySet True bad_policy now \<lparr>db_tables = t, db_schedule = []\<rparr> = (Inr (p, now), ?w)"
    by (simp add: saveCatalogPolicySet_def save_policy_set_def bindM_run requireM_run liftM_run s d1_call_quiet returnM_run)
  moreover have "readCatalogPolicySet True env ?w = (Inl (PolicyError ''Stored catalog visibility policy is invalid''), ?w)"
    using r by (auto simp: readCatalogPolicySet_def read_policy_set_def bindM_run d1_read_quiet throwM_run parse_policy_def
      json_parse_print [OF catalog_policy_plain])
  ultimately show ?thesis by blast
qed

lemma catalog_policy_reload_witness:
  "\<exists>w. saveCatalogPolicySet True (JObj []) 5 \<lparr>db_tables = None, db_schedule = []\<rparr> = (Inr (default_catalog_policy, 5), w)
     \<and> readCatalogPolicySet True None w = (Inr (default_catalog_policy, FromDatabase, Some 5), w)"
proof -
  have "sanitizeCatalogPolicySet (JObj []) = Inr default_catalog_policy"
    by (simp add: sanitizeCatalogPolicySet_def raw_rules_def plain_object_def default_catalog_policy_def)
  then have s: "saveCatalogPolicySet True (JObj []) 5 \<lparr>db_tables = None, db_schedule = []\<rparr>
      = (Inr (default_catalog_policy, 5), \<lparr>db_tables = Some (json_print (catalog_policy_js default_catalog_policy), 5), db_schedule = []\<rparr>)"
    by (simp add: saveCatalogPolicySet_def save_policy_set_def bindM_run requireM_run liftM_run d1_call_quiet returnM_run)
  moreover have "settled_policy default_catalog_policy" by (simp add: settled_policy_def default_catalog_policy_def)
  ultimately show ?thesis using catalog_policy_reload [OF s] by blast
qed

end
