(* ===== verification/ApprovalPolicies.thy ===== *)
theory ApprovalPolicies
  imports CatalogPolicies
begin

text \<open>
  The approval policies, first half of \<open>src/operations/approvals/approval-gates.ts\<close>: the sanitiser of
  an uploaded policy, the requirement a policy puts on a request, and the storage of the current policy
  (the generic read and save of \<open>CatalogPolicies\<close>). A rule is a requirement extended by the conditions
  under which it applies, as the source's type is.
\<close>

section \<open>Normalising text\<close>

text \<open>Control characters become blanks, and every run of white space one blank.\<close>

fun squeeze :: "bool \<Rightarrow> string \<Rightarrow> string" where
  "squeeze after [] = []"
| "squeeze after (c # s) =
     (if is_space c then (if after then squeeze True s else CHR '' '' # squeeze True s) else c # squeeze False s)"

definition approval_cleanText :: "js \<Rightarrow> nat \<Rightarrow> string" where
  "approval_cleanText v limit = take limit (js_trim (squeeze False
     (map (\<lambda>c. if is_ctrl c then CHR '' '' else c) (to_str (coalesce v (JStr []))))))"

definition cleanIdentity :: "js \<Rightarrow> string" where
  "cleanIdentity v = identity_text (js_lower (approval_cleanText v 160))"

definition cleanGroup :: "js \<Rightarrow> string" where
  "cleanGroup v = group_text (js_lower (approval_cleanText v 120))"

definition numberBetween :: "js \<Rightarrow> int \<Rightarrow> int \<Rightarrow> int \<Rightarrow> int" where
  "numberBetween v fallback lo hi = (case trunc_num (to_num v) of
      Num n \<Rightarrow> max lo (min n hi)
    | _ \<Rightarrow> fallback)"

section \<open>Policies\<close>

record requirement =
  ar_requiredApprovals :: int
  ar_approverRoles :: "portal_role list"
  ar_approverGroups :: "string list"
  ar_requesterCannotApprove :: bool
  ar_expiresMinutes :: int
  ar_ruleId :: string

datatype rule_effect = Require | NoApproval

record approval_rule = requirement +
  pr_id :: string
  pr_effect :: rule_effect
  pr_requesterUsers :: "string list"
  pr_requesterRoles :: "portal_role list"
  pr_requesterGroups :: "string list"
  pr_categories :: "string list"
  pr_processes :: "string list"
  pr_dangerous :: "bool option"

record approval_policy =
  ap_dangerousDefaults :: "requirement option"
  ap_rules :: "approval_rule list"

definition defaultDangerousRequirement :: requirement where
  "defaultDangerousRequirement = \<lparr>ar_requiredApprovals = 1, ar_approverRoles = [Admin], ar_approverGroups = [],
     ar_requesterCannotApprove = True, ar_expiresMinutes = 60, ar_ruleId = ''dangerous-default''\<rparr>"

definition default_approval_policy :: approval_policy where
  "default_approval_policy = \<lparr>ap_dangerousDefaults = Some defaultDangerousRequirement, ap_rules = []\<rparr>"

definition requirement_fields :: "requirement \<Rightarrow> (string \<times> js) list" where
  "requirement_fields q = [(''requiredApprovals'', JInt (ar_requiredApprovals q)),
     (''approverRoles'', strings_js (map role_name (ar_approverRoles q))), (''approverGroups'', strings_js (ar_approverGroups q)),
     (''requesterCannotApprove'', JBool (ar_requesterCannotApprove q)), (''expiresMinutes'', JInt (ar_expiresMinutes q)),
     (''ruleId'', JStr (ar_ruleId q))]"

definition sanitizeRequirement :: "js \<Rightarrow> string \<Rightarrow> string + requirement" where
  "sanitizeRequirement v fallback =
     bindE (guardE (plain_object v) (fallback @ '' must be an object'')) (\<lambda>_.
     (let roles = roleArray (jget v ''approverRoles'');
          groups = stringArray (jget v ''approverGroups'') cleanGroup;
          name = approval_cleanText (coalesce (jget v ''ruleId'') (JStr fallback)) 120
      in bindE (guardE (\<not> (roles = [] \<and> groups = [])) (fallback @ '' requires approverRoles or approverGroups'')) (\<lambda>_.
         Inr \<lparr>ar_requiredApprovals = numberBetween (jget v ''requiredApprovals'') 1 1 10,
           ar_approverRoles = roles, ar_approverGroups = groups,
           ar_requesterCannotApprove = (jget v ''requesterCannotApprove'' \<noteq> JBool False),
           ar_expiresMinutes = numberBetween (jget v ''expiresMinutes'') 60 5 10080,
           ar_ruleId = (if name = [] then fallback else name)\<rparr>)))"

definition with_field :: "string \<Rightarrow> js \<Rightarrow> js \<Rightarrow> js" where
  "with_field k x v = (case v of JObj ps \<Rightarrow> JObj (obj_set k x ps) | _ \<Rightarrow> JObj [(k, x)])"

definition parse_rule_effect :: "js \<Rightarrow> rule_effect option" where
  "parse_rule_effect v =
     (if v = JStr ''none'' then Some NoApproval else if v = JStr ''require'' \<or> v = JUndef then Some Require else None)"

definition sanitize_approval_rule :: "string list \<Rightarrow> nat \<Rightarrow> js \<Rightarrow> string + approval_rule" where
  "sanitize_approval_rule seen n raw =
     bindE (guardE (plain_object raw) (''Rule '' @ nat_to_str (Suc n) @ '' must be an object'')) (\<lambda>_.
     (let i = or_rule (approval_cleanText (jget raw ''id'') 120) n in
      bindE (guardE (i \<notin> set seen) (''Duplicate approval rule id: '' @ i)) (\<lambda>_.
      (case parse_rule_effect (jget raw ''effect'') of
         None \<Rightarrow> Inl (''Rule '' @ i @ '': effect must be require or none'')
       | Some effect \<Rightarrow>
           bindE (case effect of
               Require \<Rightarrow> sanitizeRequirement (with_field ''ruleId'' (JStr i) raw) i
             | NoApproval \<Rightarrow> Inr (defaultDangerousRequirement\<lparr>ar_ruleId := i\<rparr>)) (\<lambda>base.
           Inr \<lparr>ar_requiredApprovals = ar_requiredApprovals base, ar_approverRoles = ar_approverRoles base,
             ar_approverGroups = ar_approverGroups base, ar_requesterCannotApprove = ar_requesterCannotApprove base,
             ar_expiresMinutes = ar_expiresMinutes base, ar_ruleId = i,
             pr_id = i, pr_effect = effect,
             pr_requesterUsers = stringArray (jget raw ''requesterUsers'') cleanIdentity,
             pr_requesterRoles = roleArray (jget raw ''requesterRoles''),
             pr_requesterGroups = stringArray (jget raw ''requesterGroups'') cleanGroup,
             pr_categories = stringArray (jget raw ''categories'') (\<lambda>x. js_lower (approval_cleanText x 160)),
             pr_processes = stringArray (jget raw ''processes'') (\<lambda>x. approval_cleanText x 160),
             pr_dangerous = (case jget raw ''dangerous'' of JBool b \<Rightarrow> Some b | _ \<Rightarrow> None)\<rparr>)))))"

fun sanitize_approval_rules :: "string list \<Rightarrow> nat \<Rightarrow> js list \<Rightarrow> string + approval_rule list" where
  "sanitize_approval_rules seen n [] = Inr []"
| "sanitize_approval_rules seen n (x # xs) =
     bindE (sanitize_approval_rule seen n x) (\<lambda>r.
     bindE (sanitize_approval_rules (pr_id r # seen) (Suc n) xs) (\<lambda>rs. Inr (r # rs)))"

definition sanitizeApprovalPolicySet :: "js \<Rightarrow> string + approval_policy" where
  "sanitizeApprovalPolicySet v =
     bindE (guardE (plain_object v) ''Approval policy must be a JSON object'') (\<lambda>_.
     (let dd = jget v ''dangerousDefaults'' in
      bindE (if dd = JNull then Inr None
             else bindE (sanitizeRequirement (coalesce dd (JObj (requirement_fields defaultDangerousRequirement))) ''dangerous-default'')
                    (\<lambda>q. Inr (Some q))) (\<lambda>defaults.
      bindE (guardE (jget v ''rules'' = JUndef \<or> is_array (jget v ''rules'')) ''rules must be an array'') (\<lambda>_.
      bindE (sanitize_approval_rules [] 0 (raw_rules v)) (\<lambda>rules.
      Inr \<lparr>ap_dangerousDefaults = defaults, ap_rules = rules\<rparr>)))))"

section \<open>The requirement of a request\<close>

record event_class =
  ec_id :: string
  ec_category :: js
  ec_dangerous :: bool

definition requesterMatches :: "approval_rule \<Rightarrow> policy_subject \<Rightarrow> bool" where
  "requesterMatches r s =
     (if pr_requesterUsers r = [] \<and> pr_requesterRoles r = [] \<and> pr_requesterGroups r = [] then True
      else if js_lower (su_identity s) \<in> set (pr_requesterUsers r) then True
      else if su_role s \<in> set (pr_requesterRoles r) then True
      else list_ex (\<lambda>g. g \<in> set (map js_lower (su_groups s))) (pr_requesterGroups r))"

definition eventMatches :: "approval_rule \<Rightarrow> event_class \<Rightarrow> bool" where
  "eventMatches r e =
     (if pr_dangerous r \<noteq> None \<and> pr_dangerous r \<noteq> Some (ec_dangerous e) then False
      else if pr_categories r = [] \<and> pr_processes r = [] then True
      else if ec_id e \<in> set (pr_processes r) then True
      else js_lower (js_trim (to_str (coalesce (ec_category e) (JStr [])))) \<in> set (pr_categories r))"

definition rule_requirement :: "approval_rule \<Rightarrow> requirement" where
  "rule_requirement r = \<lparr>ar_requiredApprovals = ar_requiredApprovals r, ar_approverRoles = ar_approverRoles r,
     ar_approverGroups = ar_approverGroups r, ar_requesterCannotApprove = ar_requesterCannotApprove r,
     ar_expiresMinutes = ar_expiresMinutes r, ar_ruleId = pr_id r\<rparr>"

definition base_requirement :: "approval_policy \<Rightarrow> event_class \<Rightarrow> requirement option" where
  "base_requirement p e = (if ec_dangerous e then ap_dangerousDefaults p else None)"

definition approvalRequirement :: "approval_policy \<Rightarrow> policy_subject \<Rightarrow> event_class \<Rightarrow> requirement option" where
  "approvalRequirement p s e = foldl (\<lambda>req r.
     if \<not> requesterMatches r s \<or> \<not> eventMatches r e then req
     else (case pr_effect r of NoApproval \<Rightarrow> None | Require \<Rightarrow> Some (rule_requirement r))) (base_requirement p e) (ap_rules p)"

section \<open>Storage\<close>

definition rule_effect_name :: "rule_effect \<Rightarrow> string" where
  "rule_effect_name e = (case e of Require \<Rightarrow> ''require'' | NoApproval \<Rightarrow> ''none'')"

definition approval_rule_js :: "approval_rule \<Rightarrow> js" where
  "approval_rule_js r = JObj [(''id'', JStr (pr_id r)), (''effect'', JStr (rule_effect_name (pr_effect r))),
     (''requesterUsers'', strings_js (pr_requesterUsers r)), (''requesterRoles'', strings_js (map role_name (pr_requesterRoles r))),
     (''requesterGroups'', strings_js (pr_requesterGroups r)), (''categories'', strings_js (pr_categories r)),
     (''processes'', strings_js (pr_processes r)),
     (''dangerous'', (case pr_dangerous r of None \<Rightarrow> JNull | Some b \<Rightarrow> JBool b)),
     (''requiredApprovals'', JInt (ar_requiredApprovals r)), (''approverRoles'', strings_js (map role_name (ar_approverRoles r))),
     (''approverGroups'', strings_js (ar_approverGroups r)), (''requesterCannotApprove'', JBool (ar_requesterCannotApprove r)),
     (''expiresMinutes'', JInt (ar_expiresMinutes r)), (''ruleId'', JStr (ar_ruleId r))]"

definition approval_policy_js :: "approval_policy \<Rightarrow> js" where
  "approval_policy_js p = JObj [(''version'', JInt 1),
     (''dangerousDefaults'', (case ap_dangerousDefaults p of None \<Rightarrow> JNull | Some q \<Rightarrow> JObj (requirement_fields q))),
     (''rules'', JArr (map approval_rule_js (ap_rules p)))]"

definition readApprovalPolicySet :: "bool \<Rightarrow> string option \<Rightarrow> (approval_policy \<times> policy_source \<times> int option) policy_eff" where
  "readApprovalPolicySet = read_policy_set sanitizeApprovalPolicySet default_approval_policy
     ''Stored approval policy is invalid'' ''PORTAL_APPROVAL_POLICIES_JSON''"

definition saveApprovalPolicySet :: "bool \<Rightarrow> js \<Rightarrow> int \<Rightarrow> (approval_policy \<times> int) policy_eff" where
  "saveApprovalPolicySet = save_policy_set sanitizeApprovalPolicySet approval_policy_js"

section \<open>The last matching rule decides\<close>

lemma last_match:
  "foldl (\<lambda>req r. if \<not> P r \<or> \<not> Q r then req else f r) b rs
     = (case find (\<lambda>r. P r \<and> Q r) (rev rs) of None \<Rightarrow> b | Some r \<Rightarrow> f r)"
  by (induction rs rule: rev_induct) auto

lemma approvalRequirement_find:
  "approvalRequirement p s e = (case find (\<lambda>r. requesterMatches r s \<and> eventMatches r e) (rev (ap_rules p)) of
      None \<Rightarrow> base_requirement p e
    | Some r \<Rightarrow> (case pr_effect r of NoApproval \<Rightarrow> None | Require \<Rightarrow> Some (rule_requirement r)))"
  unfolding approvalRequirement_def by (rule last_match)

lemma find_append: "find P (xs @ ys) = (case find P xs of None \<Rightarrow> find P ys | Some x \<Rightarrow> Some x)"
  by (induction xs) auto

lemma numberBetween_bounds: "lo \<le> hi \<Longrightarrow> lo \<le> d \<Longrightarrow> d \<le> hi \<Longrightarrow> lo \<le> numberBetween v d lo hi \<and> numberBetween v d lo hi \<le> hi"
  by (simp add: numberBetween_def split: jsnum.splits)

definition sound_requirement :: "requirement \<Rightarrow> bool" where
  "sound_requirement q \<longleftrightarrow> 1 \<le> ar_requiredApprovals q \<and> ar_requiredApprovals q \<le> 10
     \<and> 5 \<le> ar_expiresMinutes q \<and> ar_expiresMinutes q \<le> 10080
     \<and> \<not> (ar_approverRoles q = [] \<and> ar_approverGroups q = []) \<and> ar_ruleId q \<noteq> []"

lemma sanitizeRequirement_sound: "fallback \<noteq> [] \<Longrightarrow> sanitizeRequirement v fallback = Inr q \<Longrightarrow> sound_requirement q"
  using numberBetween_bounds [of 1 10 1 "jget v ''requiredApprovals''"] numberBetween_bounds [of 5 10080 60 "jget v ''expiresMinutes''"]
  by (auto simp: sanitizeRequirement_def sound_requirement_def Let_def split: if_splits)

lemma default_sound: "sound_requirement (defaultDangerousRequirement\<lparr>ar_ruleId := i\<rparr>) = (i \<noteq> [])"
  by (simp add: sound_requirement_def defaultDangerousRequirement_def)

lemma or_rule_nonempty: "or_rule i n \<noteq> []"
  by (simp add: or_rule_def)

lemma sanitize_approval_rule_sound:
  assumes "sanitize_approval_rule seen n v = Inr r"
  shows "sound_requirement (rule_requirement r)" "pr_id r \<notin> set seen"
proof -
  let ?i = "or_rule (approval_cleanText (jget v ''id'') 120) n"
  have i: "pr_id r = ?i" using assms by (auto simp: sanitize_approval_rule_def Let_def split: option.splits)
  from assms show "pr_id r \<notin> set seen" by (auto simp: sanitize_approval_rule_def Let_def split: option.splits)
  have "\<exists>base. sound_requirement base \<and> ar_requiredApprovals r = ar_requiredApprovals base \<and> ar_approverRoles r = ar_approverRoles base
      \<and> ar_approverGroups r = ar_approverGroups base \<and> ar_expiresMinutes r = ar_expiresMinutes base"
    using assms default_sound [of ?i] sanitizeRequirement_sound [of ?i] or_rule_nonempty
    by (fastforce simp: sanitize_approval_rule_def Let_def split: option.splits rule_effect.splits)
  then show "sound_requirement (rule_requirement r)"
    using i or_rule_nonempty by (auto simp: sound_requirement_def rule_requirement_def)
qed

lemma sanitize_approval_rules_sound:
  "sanitize_approval_rules seen n xs = Inr rs \<Longrightarrow>
     list_all (\<lambda>r. sound_requirement (rule_requirement r)) rs \<and> distinct (map pr_id rs) \<and> set (map pr_id rs) \<inter> set seen = {}"
proof (induction xs arbitrary: seen n rs)
  case (Cons x xs)
  then obtain r rs' where r: "sanitize_approval_rule seen n x = Inr r"
    and rs: "sanitize_approval_rules (pr_id r # seen) (Suc n) xs = Inr rs'" "rs = r # rs'" by auto
  from sanitize_approval_rule_sound [OF r] Cons.IH [OF rs(1)] rs(2) show ?case by auto
qed simp

lemma sanitizeApprovalPolicySet_parts:
  assumes "sanitizeApprovalPolicySet v = Inr p"
  shows "\<And>q. ap_dangerousDefaults p = Some q \<Longrightarrow> sound_requirement q"
    and "sanitize_approval_rules [] 0 (raw_rules v) = Inr (ap_rules p)"
  using assms by (auto simp: sanitizeApprovalPolicySet_def Let_def split: if_splits intro: sanitizeRequirement_sound [rotated])

text \<open>The requirement on a request is the one of the last rule of the policy that matches it; only
  when none does, the defaults for dangerous processes apply, and then only to a dangerous process.\<close>

lemma approval_last_rule:
  assumes "ap_rules p = earlier @ r # later" "requesterMatches r s" "eventMatches r e"
    and "\<And>x. x \<in> set later \<Longrightarrow> \<not> (requesterMatches x s \<and> eventMatches x e)"
  shows "approvalRequirement p s e = (case pr_effect r of NoApproval \<Rightarrow> None | Require \<Rightarrow> Some (rule_requirement r))
    \<and> approvalRequirement (p\<lparr>ap_rules := later\<rparr>) s e = (if ec_dangerous e then ap_dangerousDefaults p else None)"
proof -
  have "find (\<lambda>r. requesterMatches r s \<and> eventMatches r e) (rev later) = None"
    using assms(4) by (auto simp: find_None_iff)
  then show ?thesis using assms(1-3) by (simp add: approvalRequirement_find base_requirement_def find_append)
qed

text \<open>Whatever policy is uploaded, once it is accepted every requirement it puts on a request asks for
  one to ten approvals, names somebody who may give them and leaves between five minutes and a week, and
  no two of its rules share an id.\<close>

lemma accepted_policy_sound:
  assumes "sanitizeApprovalPolicySet v = Inr p"
  shows "distinct (map pr_id (ap_rules p))
    \<and> (case approvalRequirement p s e of None \<Rightarrow> True
       | Some q \<Rightarrow> 1 \<le> ar_requiredApprovals q \<and> ar_requiredApprovals q \<le> 10 \<and> 5 \<le> ar_expiresMinutes q
           \<and> ar_expiresMinutes q \<le> 10080 \<and> \<not> (ar_approverRoles q = [] \<and> ar_approverGroups q = []))"
proof -
  note parts = sanitizeApprovalPolicySet_parts [OF assms]
  note rules = sanitize_approval_rules_sound [OF parts(2)]
  have "sound_requirement q" if q: "approvalRequirement p s e = Some q" for q
  proof (cases "find (\<lambda>r. requesterMatches r s \<and> eventMatches r e) (rev (ap_rules p))")
    case None
    with q parts(1) show ?thesis by (auto simp: approvalRequirement_find base_requirement_def split: if_splits)
  next
    case (Some r)
    then have "r \<in> set (ap_rules p)" using find_Some_iff' by fastforce
    with rules q Some show ?thesis by (auto simp: approvalRequirement_find list_all_iff split: rule_effect.splits)
  qed
  with rules show ?thesis by (auto simp: sound_requirement_def split: option.splits)
qed

definition sample_approval_policy :: js where
  "sample_approval_policy = JObj [(''dangerousDefaults'', JNull), (''rules'', JArr [
     JObj [(''id'', JStr ''all''), (''approverRoles'', JArr [JStr ''admin'']), (''requiredApprovals'', JInt 99)]])]"

definition sample_approval_rule :: approval_rule where
  "sample_approval_rule = \<lparr>ar_requiredApprovals = 10, ar_approverRoles = [Admin], ar_approverGroups = [],
     ar_requesterCannotApprove = True, ar_expiresMinutes = 60, ar_ruleId = ''all'',
     pr_id = ''all'', pr_effect = Require, pr_requesterUsers = [], pr_requesterRoles = [], pr_requesterGroups = [],
     pr_categories = [], pr_processes = [], pr_dangerous = None\<rparr>"

lemma sample_approval_accepted:
  "sanitizeApprovalPolicySet sample_approval_policy = Inr \<lparr>ap_dangerousDefaults = None, ap_rules = [sample_approval_rule]\<rparr>"
  by code_simp

lemma sample_approval_requirement:
  "approvalRequirement \<lparr>ap_dangerousDefaults = d, ap_rules = [sample_approval_rule]\<rparr> s e = Some (rule_requirement sample_approval_rule)"
  by (simp add: approvalRequirement_find sample_approval_rule_def requesterMatches_def eventMatches_def)

lemma approval_last_rule_witness:
  "\<forall>s e. approvalRequirement (default_approval_policy\<lparr>ap_rules := [sample_approval_rule]\<rparr>) s e
     = Some (rule_requirement sample_approval_rule)"
proof (intro allI)
  fix s e
  show "approvalRequirement (default_approval_policy\<lparr>ap_rules := [sample_approval_rule]\<rparr>) s e = Some (rule_requirement sample_approval_rule)"
    using approval_last_rule [of "default_approval_policy\<lparr>ap_rules := [sample_approval_rule]\<rparr>" "[]" sample_approval_rule "[]" s e]
    by (simp add: sample_approval_rule_def requesterMatches_def eventMatches_def)
qed

lemma accepted_policy_sound_witness:
  "ar_requiredApprovals (rule_requirement sample_approval_rule) \<le> 10 \<and> distinct (map pr_id [sample_approval_rule])"
  using accepted_policy_sound [OF sample_approval_accepted, of undefined undefined] by (simp add: sample_approval_requirement)

end
