(* ===== verification/ApprovalSpec.thy ===== *)
theory ApprovalSpec
  imports ApprovalPolicies AutomationTypes Base64 JsSort
begin

text \<open>
  The specification of a requested operation, middle of
  \<open>src/operations/approvals/approval-gates.ts\<close>: what is taken from the form, its encrypted form in the
  database, and the fingerprint that binds an execution to the approved request. The cipher (AES-GCM over
  the UTF-8 form of a text) and SHA-256 are arguments; \<open>good_cipher\<close> is what the code relies on.
\<close>

datatype approval_error =
    Message string
  | NotFound
  | NotPending
  | NotEligible
  | CommentRequired
  | AlreadyDecided
  | NotRequester
  | NotCancellable
  | NotApproved
  | ClaimLost
  | TypeFailure
  | CipherFailure
  | DatabaseFailure

section \<open>Bytes and the key\<close>

definition ascii_ws :: "char \<Rightarrow> bool" where
  "ascii_ws c = (code c \<in> {9, 10, 12, 13, 32})"

definition strip_padding :: "string \<Rightarrow> string" where
  "strip_padding s =
     (if length s mod 4 \<noteq> 0 \<or> s = [] \<or> last s \<noteq> CHR ''='' then s
      else (let t = butlast s in if t \<noteq> [] \<and> last t = CHR ''='' then butlast t else t))"

definition base64ToBytes :: "string \<Rightarrow> nat list option" where
  "base64ToBytes s =
     (let u = strip_padding (filter (\<lambda>c. \<not> ascii_ws c) s) in
      if length u mod 4 = 1 \<or> \<not> list_all (\<lambda>c. b64_val c \<noteq> None) u then None
      else atob (u @ replicate ((4 - length u mod 4) mod 4) (CHR ''='')))"

fun hex_pairs :: "string \<Rightarrow> nat list" where
  "hex_pairs (a # b # s) = (16 * hex_val a + hex_val b) # hex_pairs s"
| "hex_pairs _ = []"

definition encryptionKey :: "string option \<Rightarrow> approval_error + nat list" where
  "encryptionKey value =
     (let normalized = (case value of None \<Rightarrow> [] | Some s \<Rightarrow> js_trim s) in
      bindE (guardE (normalized \<noteq> []) (Message ''CONFIG_ENCRYPTION_KEY is not configured'')) (\<lambda>_.
      bindE (if length normalized = 64 \<and> list_all is_hex_any normalized then Inr (hex_pairs normalized)
             else (case base64ToBytes normalized of
                 None \<Rightarrow> Inl (Message ''CONFIG_ENCRYPTION_KEY must be 32-byte base64 or 64-character hex'')
               | Some bs \<Rightarrow> Inr bs)) (\<lambda>bytes.
      bindE (guardE (length bytes = 32) (Message ''CONFIG_ENCRYPTION_KEY must decode to exactly 32 bytes'')) (\<lambda>_.
      Inr bytes))))"

section \<open>The specification\<close>

record approval_spec =
  sp_eventId :: string
  sp_schemaVersion :: string
  sp_values :: "(string \<times> js) list"
  sp_targets :: "string list"
  sp_secretFields :: "string list"
  sp_parentRunId :: string

record approval_summary =
  sm_subject :: string
  sm_targets :: "string list"
  sm_values :: "(string \<times> string \<times> string) list"
  sm_hiddenSecrets :: nat
  sm_secretFields :: "(string \<times> string) list"

definition spec_js :: "approval_spec \<Rightarrow> js" where
  "spec_js s = JObj [(''eventId'', JStr (sp_eventId s)), (''schemaVersion'', JStr (sp_schemaVersion s)),
     (''values'', JObj (sp_values s)), (''targets'', strings_js (sp_targets s)),
     (''secretFields'', strings_js (sp_secretFields s)), (''parentRunId'', JStr (sp_parentRunId s))]"

definition safeValue :: "js \<Rightarrow> string" where
  "safeValue v = (case v of
      JBool _ \<Rightarrow> to_str v
    | JNum _ \<Rightarrow> to_str v
    | JStr _ \<Rightarrow> approval_cleanText v 240
    | _ \<Rightarrow> approval_cleanText (JStr (json_print v)) 240)"

text \<open>The four collections the loop over the fields fills.\<close>

record spec_parts =
  pt_values :: "(string \<times> js) list"
  pt_secrets :: "string list"
  pt_labels :: "(string \<times> string) list"
  pt_summary :: "(string \<times> string \<times> string) list"

definition secret_given :: "js \<Rightarrow> bool" where
  "secret_given v \<longleftrightarrow> v \<noteq> JUndef \<and> v \<noteq> JNull \<and> to_str v \<noteq> []"

definition spec_field :: "js \<Rightarrow> spec_parts \<Rightarrow> route_field \<Rightarrow> spec_parts" where
  "spec_field values pt f =
     (let v = jget values (rf_key f); label = approval_cleanText (JStr (rf_label f)) 120 in
      if rf_type f = TPassword then
        (if secret_given v then pt\<lparr>pt_secrets := pt_secrets pt @ [rf_key f], pt_labels := pt_labels pt @ [(rf_key f, label)]\<rparr> else pt)
      else if v \<noteq> JUndef then
        pt\<lparr>pt_values := obj_set (rf_key f) v (pt_values pt),
           pt_summary := (if length (pt_summary pt) < 16 then pt_summary pt @ [(rf_key f, label, safeValue v)] else pt_summary pt)\<rparr>
      else pt)"

definition spec_parts_of :: "route_field list \<Rightarrow> js \<Rightarrow> spec_parts" where
  "spec_parts_of fs values =
     foldl (spec_field values) \<lparr>pt_values = [], pt_secrets = [], pt_labels = [], pt_summary = []\<rparr> fs"

definition event_schema :: "catalog_event \<Rightarrow> string" where
  "event_schema event = (case ce_schemaVersion event of None \<Rightarrow> [] | Some s \<Rightarrow> s)"

text \<open>The dash shown when there is nothing else is the em dash, a character outside the model.\<close>

definition approvalSpec :: "catalog_event \<Rightarrow> js \<Rightarrow> string list \<Rightarrow> string \<Rightarrow> approval_spec \<times> approval_summary" where
  "approvalSpec event values targets parentRunId =
     (let pt = spec_parts_of (ce_fields event) values;
          normalizedTargets = take 100 (filter (\<lambda>s. s \<noteq> []) (map (\<lambda>t. approval_cleanText (JStr t) 240) targets));
          first = (case pt_summary pt of [] \<Rightarrow> [] | (_, _, v) # _ \<Rightarrow> v);
          joined = take 240 (js_join '', '' normalizedTargets)
      in (\<lparr>sp_eventId = ce_id event, sp_schemaVersion = event_schema event,
            sp_values = pt_values pt, sp_targets = normalizedTargets, sp_secretFields = pt_secrets pt,
            sp_parentRunId = take 160 parentRunId\<rparr>,
          \<lparr>sm_subject = (if first \<noteq> [] then first else if joined \<noteq> [] then joined else ''-''),
            sm_targets = normalizedTargets, sm_values = pt_summary pt,
            sm_hiddenSecrets = length (pt_secrets pt), sm_secretFields = pt_labels pt\<rparr>))"

definition summary_js :: "approval_summary \<Rightarrow> js" where
  "summary_js s = JObj [(''subject'', JStr (sm_subject s)), (''targets'', strings_js (sm_targets s)),
     (''values'', JArr (map (\<lambda>(k, l, v). JObj [(''key'', JStr k), (''label'', JStr l), (''value'', JStr v)]) (sm_values s))),
     (''hiddenSecrets'', JInt (int (sm_hiddenSecrets s))),
     (''secretFields'', JArr (map (\<lambda>(k, l). JObj [(''key'', JStr k), (''label'', JStr l)]) (sm_secretFields s)))]"

section \<open>Encryption\<close>

type_synonym encrypt = "nat list \<Rightarrow> nat list \<Rightarrow> string \<Rightarrow> nat list"
type_synonym decrypt = "nat list \<Rightarrow> nat list \<Rightarrow> nat list \<Rightarrow> string option"

text \<open>Decrypting with the same key and initialisation vector gives the text back; a ciphertext is a
  non-empty list of bytes (AES-GCM appends a tag of sixteen bytes).\<close>

definition good_cipher :: "encrypt \<Rightarrow> decrypt \<Rightarrow> bool" where
  "good_cipher enc dec \<longleftrightarrow> (\<forall>key iv s. length key = 32 \<longrightarrow> length iv = 12 \<longrightarrow>
     dec key iv (enc key iv s) = Some s \<and> bytes_ok (enc key iv s) \<and> enc key iv s \<noteq> [])"

text \<open>The stored form of a text: version, initialisation vector and ciphertext.\<close>

definition seal :: "encrypt \<Rightarrow> nat list \<Rightarrow> string \<Rightarrow> string option \<Rightarrow> approval_error + string" where
  "seal enc iv plain keyValue =
     bindE (encryptionKey keyValue) (\<lambda>key. Inr (''v1.'' @ btoa iv @ ''.'' @ btoa (enc key iv plain)))"

definition encryptSpec :: "encrypt \<Rightarrow> nat list \<Rightarrow> approval_spec \<Rightarrow> string option \<Rightarrow> approval_error + string" where
  "encryptSpec enc iv spec keyValue = seal enc iv (json_print (spec_js spec)) keyValue"

definition spec_of_js :: "js \<Rightarrow> approval_error + approval_spec" where
  "spec_of_js v = (case (jget v ''eventId'', jget v ''schemaVersion'', jget v ''values'', jget v ''targets'', jget v ''secretFields'') of
      (JStr e, JStr s, JObj ps, JArr ts, JArr fs) \<Rightarrow>
        Inr \<lparr>sp_eventId = take 240 e, sp_schemaVersion = take 80 s, sp_values = ps,
          sp_targets = take 100 (map to_str ts), sp_secretFields = take 100 (map to_str fs),
          sp_parentRunId = take 160 (to_str (coalesce (jget v ''parentRunId'') (JStr [])))\<rparr>
    | _ \<Rightarrow> Inl (Message ''Stored approval specification is invalid''))"

definition nth_part :: "string list \<Rightarrow> nat \<Rightarrow> string" where
  "nth_part xs n = (if n < length xs then xs ! n else [])"

text \<open>The stored text read back and parsed.\<close>

definition unseal :: "decrypt \<Rightarrow> approval_error \<Rightarrow> string \<Rightarrow> string option \<Rightarrow> approval_error + js" where
  "unseal dec unsupported value keyValue =
     (let parts = js_split (CHR ''.'') value; ivValue = nth_part parts 1; encryptedValue = nth_part parts 2 in
      bindE (guardE (nth_part parts 0 = ''v1'' \<and> ivValue \<noteq> [] \<and> encryptedValue \<noteq> []) unsupported) (\<lambda>_.
      bindE (encryptionKey keyValue) (\<lambda>key.
      (case (base64ToBytes ivValue, base64ToBytes encryptedValue) of
         (Some iv, Some bytes) \<Rightarrow>
           (case dec key iv bytes of
              None \<Rightarrow> Inl CipherFailure
            | Some text \<Rightarrow> (case json_parse text of None \<Rightarrow> Inl CipherFailure | Some v \<Rightarrow> Inr v))
       | _ \<Rightarrow> Inl CipherFailure))))"

definition decryptSpec :: "decrypt \<Rightarrow> string \<Rightarrow> string option \<Rightarrow> approval_error + approval_spec" where
  "decryptSpec dec value keyValue = bindE (unseal dec (Message ''Unsupported approval storage format'') value keyValue) spec_of_js"

section \<open>The fingerprint\<close>

definition key_cmp :: "string \<times> js \<Rightarrow> string \<times> js \<Rightarrow> int" where
  "key_cmp p q = str_cmp (fst p) (fst q)"

fun stable_js :: "js \<Rightarrow> js" where
  "stable_js (JArr xs) = JArr (map stable_js xs)"
| "stable_js (JObj ps) = JObj (js_sort key_cmp (map (\<lambda>(k, v). (k, stable_js v)) ps))"
| "stable_js v = v"

definition fingerprint :: "(string \<Rightarrow> string) \<Rightarrow> approval_spec \<Rightarrow> string" where
  "fingerprint sha spec = sha (json_print (stable_js (spec_js spec)))"

definition approvalExecutionMatches :: "(string \<Rightarrow> string) \<Rightarrow> approval_spec \<Rightarrow> catalog_event \<Rightarrow> js \<Rightarrow> string list \<Rightarrow> bool" where
  "approvalExecutionMatches sha spec event values targets \<longleftrightarrow>
     fingerprint sha (fst (approvalSpec event values targets (sp_parentRunId spec))) = fingerprint sha spec"

section \<open>A stored specification is read back\<close>

lemma btoa_form: "bytes_ok bs \<Longrightarrow> \<exists>u k. btoa bs = u @ replicate k (CHR ''='') \<and> unpadded u \<and> k \<le> 2"
proof (induction bs rule: btoa.induct)
  case 1
  show ?case by (rule exI [of _ "[]"]) (simp add: unpadded_def)
next
  case (2 a)
  then have l: "a < 256" by (simp add: bytes_ok_def)
  note s = sextets [OF l l l]
  show ?case
    by (rule exI [of _ "[b64_char (a div 4), b64_char ((a mod 4) * 16)]"], rule exI [of _ 2])
      (simp add: unpadded_def b64_char_set s numeral_2_eq_2)
next
  case (3 a b)
  then have l: "a < 256" "b < 256" by (simp_all add: bytes_ok_def)
  note s = sextets [OF l l(1)]
  show ?case
    by (rule exI [of _ "[b64_char (a div 4), b64_char ((a mod 4) * 16 + b div 16), b64_char ((b mod 16) * 4)]"], rule exI [of _ 1])
      (simp add: unpadded_def b64_char_set s)
next
  case (4 a b c rest)
  then have l: "a < 256" "b < 256" "c < 256" "bytes_ok rest" by (simp_all add: bytes_ok_def)
  note s = sextets [OF l(1-3)]
  from 4(1) [OF l(4)] obtain u k where "btoa rest = u @ replicate k (CHR ''='')" "unpadded u" "k \<le> 2" by blast
  then show ?case
    by (intro exI [of _ "[b64_char (a div 4), b64_char ((a mod 4) * 16 + b div 16), b64_char ((b mod 16) * 4 + c div 64), b64_char (c mod 64)] @ u"]
        exI [of _ k]) (simp add: unpadded_def b64_char_set s)
qed

lemma alphabet_plain:
  "c \<in> set b64_alphabet \<Longrightarrow> \<not> ascii_ws c \<and> c \<noteq> CHR ''='' \<and> c \<noteq> CHR ''.'' \<and> b64_val c \<noteq> None"
proof -
  have "list_all (\<lambda>c. \<not> ascii_ws c \<and> c \<noteq> CHR ''='' \<and> c \<noteq> CHR ''.'' \<and> b64_val c \<noteq> None) b64_alphabet" by code_simp
  then show "c \<in> set b64_alphabet \<Longrightarrow> ?thesis" by (simp add: list_all_iff)
qed

lemma strip_padding_form:
  assumes "list_all (\<lambda>c. c \<noteq> CHR ''='') u" "k \<le> 2" "length (u @ replicate k (CHR ''='')) mod 4 = 0"
  shows "strip_padding (u @ replicate k (CHR ''='')) = u"
proof -
  have last: "u \<noteq> [] \<Longrightarrow> last u \<noteq> CHR ''=''" using assms(1) by (simp add: list_all_iff)
  from assms(2) consider "k = 0" | "k = 1" | "k = 2" by linarith
  then show ?thesis
  proof cases
    case 3
    then show ?thesis using assms(3) by (simp add: strip_padding_def numeral_2_eq_2 butlast_append)
  qed (use assms(3) last in \<open>auto simp: strip_padding_def Let_def\<close>)
qed

lemma pad_count: "(n + k) mod 4 = 0 \<Longrightarrow> k \<le> 2 \<Longrightarrow> n mod 4 \<noteq> 1 \<and> (4 - n mod 4) mod 4 = k" for n k :: nat
proof -
  assume a: "(n + k) mod 4 = 0" "k \<le> 2"
  define r where "r = n mod 4"
  have r: "(r + k) mod 4 = 0" "r < 4" using a(1) by (simp_all add: r_def mod_add_left_eq)
  from mod_0_imp_dvd [OF r(1)] obtain q where q: "r + k = 4 * q" by (rule dvdE)
  with r(2) a(2) have "q = 0 \<or> q = 1" by linarith
  with q r(2) a(2) have "r = 0 \<and> k = 0 \<or> 0 < k \<and> r + k = 4" by linarith
  then have "r \<noteq> 1 \<and> (4 - r) mod 4 = k"
  proof
    assume e: "0 < k \<and> r + k = 4"
    then have "4 - r = k" by linarith
    with e a(2) show ?thesis by simp
  qed simp
  then show ?thesis by (simp add: r_def)
qed

lemma base64_roundtrip: "bytes_ok bs \<Longrightarrow> base64ToBytes (btoa bs) = Some bs"
proof -
  assume ok: "bytes_ok bs"
  then obtain u k where f: "btoa bs = u @ replicate k (CHR ''='')" "unpadded u" "k \<le> 2" using btoa_form by blast
  have len: "length (btoa bs) mod 4 = 0" by (simp add: length_btoa)
  have u: "list_all (\<lambda>c. \<not> ascii_ws c \<and> c \<noteq> CHR ''='' \<and> b64_val c \<noteq> None) u"
    using f(2) alphabet_plain by (simp add: unpadded_def list_all_iff)
  then have "filter (\<lambda>c. \<not> ascii_ws c) (btoa bs) = btoa bs"
    by (auto simp: f(1) filter_id_conv list_all_iff ascii_ws_def)
  moreover have "strip_padding (btoa bs) = u"
    unfolding f(1) using u f(3) len by (intro strip_padding_form) (auto simp: f(1) list_all_iff)
  moreover have "length u mod 4 \<noteq> 1" "(4 - length u mod 4) mod 4 = k"
    using pad_count [of "length u" k] len f(3) by (simp_all add: f(1))
  moreover have "list_all (\<lambda>c. b64_val c \<noteq> None) u" using u by (simp add: list_all_iff)
  ultimately show ?thesis using atob_btoa [OF ok] by (simp add: base64ToBytes_def f(1))
qed

lemma split_plain: "c \<notin> set s \<Longrightarrow> js_split c s = [s]"
  by (induction s) auto

lemma split_append: "c \<notin> set s \<Longrightarrow> js_split c (s @ c # t) = s # js_split c t"
  by (induction s) auto

lemma btoa_no_dot: "bytes_ok bs \<Longrightarrow> CHR ''.'' \<notin> set (btoa bs)"
  using btoa_form [of bs] alphabet_plain [of "CHR ''.''"] by (auto simp: unpadded_def list_all_iff)

lemma btoa_nonempty: "bs \<noteq> [] \<Longrightarrow> btoa bs \<noteq> []"
  using length_btoa [of bs] by (cases bs) auto

text \<open>The bounds that \<open>decryptSpec\<close> imposes; \<open>approvalSpec\<close> itself bounds the targets and the parent run.\<close>

definition bounded_spec :: "approval_spec \<Rightarrow> bool" where
  "bounded_spec s \<longleftrightarrow> length (sp_eventId s) \<le> 240 \<and> length (sp_schemaVersion s) \<le> 80 \<and> length (sp_targets s) \<le> 100
     \<and> length (sp_secretFields s) \<le> 100 \<and> length (sp_parentRunId s) \<le> 160 \<and> json_plain (JObj (sp_values s))"

lemma spec_of_spec_js: "bounded_spec s \<Longrightarrow> spec_of_js (spec_js s) = Inr s"
  by (simp add: bounded_spec_def spec_of_js_def spec_js_def strings_js_def comp_def)

lemma spec_js_plain: "bounded_spec s \<Longrightarrow> json_plain (spec_js s)"
  by (simp add: bounded_spec_def spec_js_def)

lemma unseal_seal:
  assumes "good_cipher enc dec" "length iv = 12" "bytes_ok iv" "json_plain v" "seal enc iv (json_print v) keyValue = Inr stored"
  shows "unseal dec unsupported stored keyValue = Inr v"
proof -
  from assms(5) obtain key where key: "encryptionKey keyValue = Inr key"
    and st: "stored = ''v1'' @ CHR ''.'' # btoa iv @ CHR ''.'' # btoa (enc key iv (json_print v))"
    by (auto simp: seal_def)
  have l: "length key = 32" using key by (auto simp: encryptionKey_def Let_def)
  define bytes where "bytes = enc key iv (json_print v)"
  have c: "dec key iv bytes = Some (json_print v)" "bytes_ok bytes" "bytes \<noteq> []"
    using assms(1,2) l by (auto simp: good_cipher_def bytes_def)
  have iv: "btoa iv \<noteq> []" using assms(2) by (intro btoa_nonempty) auto
  have "js_split (CHR ''.'') stored = [''v1'', btoa iv, btoa bytes]"
    unfolding st bytes_def [symmetric]
    using btoa_no_dot [OF assms(3)] btoa_no_dot [OF c(2)] by (simp add: split_append split_plain)
  then show ?thesis
    using key iv btoa_nonempty [OF c(3)] c(1)
    by (simp add: unseal_def nth_part_def base64_roundtrip assms(3) c(2) json_parse_print [OF assms(4)])
qed

lemma stored_spec_back:
  assumes "good_cipher enc dec" "length iv = 12" "bytes_ok iv" "bounded_spec s" "encryptSpec enc iv s keyValue = Inr stored"
  shows "decryptSpec dec stored keyValue = Inr s"
  using unseal_seal [OF assms(1-3) spec_js_plain [OF assms(4)] assms(5) [unfolded encryptSpec_def]] spec_of_spec_js [OF assms(4)]
  by (simp add: decryptSpec_def)

section \<open>What the loop over the fields collects\<close>

lemma obj_set_members: "set (obj_set k v ps) \<subseteq> insert (k, v) (set ps)"
  by (induction k v ps rule: obj_set.induct) auto

lemma obj_set_keys: "set (map fst (obj_set k v ps)) = insert k (set (map fst ps))"
  by (induction k v ps rule: obj_set.induct) auto

lemma obj_set_distinct: "distinct (map fst ps) \<Longrightarrow> distinct (map fst (obj_set k v ps))"
proof (induction k v ps rule: obj_set.induct)
  case (2 k v k' v' ps)
  then show ?case using obj_set_keys [of k v ps] by auto
qed simp

lemma spec_parts_snoc: "spec_parts_of (fs @ [f]) values = spec_field values (spec_parts_of fs values) f"
  by (simp add: spec_parts_of_def)

lemma spec_parts_Nil: "spec_parts_of [] values = \<lparr>pt_values = [], pt_secrets = [], pt_labels = [], pt_summary = []\<rparr>"
  by (simp add: spec_parts_of_def)

lemma spec_field_values: "pt_values (spec_field values pt f) =
    (if rf_type f \<noteq> TPassword \<and> jget values (rf_key f) \<noteq> JUndef
     then obj_set (rf_key f) (jget values (rf_key f)) (pt_values pt) else pt_values pt)"
  by (simp add: spec_field_def Let_def)

lemma spec_field_secrets: "pt_secrets (spec_field values pt f) =
    (if rf_type f = TPassword \<and> secret_given (jget values (rf_key f)) then pt_secrets pt @ [rf_key f] else pt_secrets pt)"
  by (simp add: spec_field_def Let_def)

definition read_from :: "js \<Rightarrow> (string \<times> js) list \<Rightarrow> bool" where
  "read_from values ps \<longleftrightarrow> distinct (map fst ps) \<and> (\<forall>p \<in> set ps. snd p = jget values (fst p) \<and> snd p \<noteq> JUndef)"

lemma read_from_obj_set: "read_from values ps \<Longrightarrow> jget values k \<noteq> JUndef \<Longrightarrow> read_from values (obj_set k (jget values k) ps)"
  unfolding read_from_def
proof (intro conjI ballI)
  fix p
  assume a: "distinct (map fst ps) \<and> (\<forall>p \<in> set ps. snd p = jget values (fst p) \<and> snd p \<noteq> JUndef)" "jget values k \<noteq> JUndef"
    and "p \<in> set (obj_set k (jget values k) ps)"
  then have "p = (k, jget values k) \<or> p \<in> set ps" using obj_set_members [of k "jget values k" ps] by blast
  with a show "snd p = jget values (fst p)" "snd p \<noteq> JUndef" by auto
qed (simp add: obj_set_distinct)

lemma pt_values_source: "read_from values (pt_values (spec_parts_of fs values))"
proof (induction fs rule: rev_induct)
  case Nil
  show ?case by (simp add: spec_parts_Nil read_from_def)
next
  case (snoc f fs)
  then show ?case using read_from_obj_set [OF snoc, of "rf_key f"] by (simp add: spec_parts_snoc spec_field_values)
qed

lemma pt_secrets_filter:
  "pt_secrets (spec_parts_of fs values) =
     map rf_key (filter (\<lambda>f. rf_type f = TPassword \<and> secret_given (jget values (rf_key f))) fs)"
  by (induction fs rule: rev_induct) (simp_all add: spec_parts_Nil spec_parts_snoc spec_field_secrets)

lemma pt_values_map_of:
  "map_of (pt_values (spec_parts_of fs values)) k =
     (if (\<exists>f \<in> set fs. rf_type f \<noteq> TPassword \<and> rf_key f = k) \<and> jget values k \<noteq> JUndef then Some (jget values k) else None)"
  by (induction fs rule: rev_induct) (auto simp: spec_parts_Nil spec_parts_snoc spec_field_values map_of_obj_set)

lemma jget_plain: "json_plain v \<Longrightarrow> jget v k \<noteq> JUndef \<Longrightarrow> json_plain (jget v k)"
  by (cases v) (auto simp: list_all_iff jget_def dest!: map_of_SomeD split: option.splits)

lemma pt_values_plain: "json_plain values \<Longrightarrow> json_plain (JObj (pt_values (spec_parts_of fs values)))"
proof -
  assume "json_plain values"
  with pt_values_source [of "values" fs] jget_plain [of "values"] show ?thesis
    by (simp add: read_from_def list_all_iff case_prod_unfold) metis
qed

lemma approvalSpec_bounded:
  assumes "json_plain values" "length (ce_id event) \<le> 240" "length (event_schema event) \<le> 80"
    and "length (ce_fields event) \<le> 100"
  shows "bounded_spec (fst (approvalSpec event values targets parent))"
proof -
  have "length (pt_secrets (spec_parts_of (ce_fields event) values)) \<le> 100"
    unfolding pt_secrets_filter by (simp add: order_trans [OF length_filter_le assms(4)])
  with assms pt_values_plain [OF assms(1), of "ce_fields event"] show ?thesis
    by (simp add: bounded_spec_def approvalSpec_def Let_def)
qed

text \<open>Nothing that is stored or shown of an approval request depends on the text of a password: two
  forms that differ only there give the same specification and the same summary.\<close>

lemma password_not_stored:
  assumes "\<And>f. f \<in> set (ce_fields event) \<Longrightarrow> rf_type f \<noteq> TPassword \<Longrightarrow> jget v (rf_key f) = jget w (rf_key f)"
    and "\<And>f. f \<in> set (ce_fields event) \<Longrightarrow> rf_type f = TPassword \<Longrightarrow> secret_given (jget v (rf_key f)) = secret_given (jget w (rf_key f))"
  shows "approvalSpec event v targets parent = approvalSpec event w targets parent"
proof -
  have "foldl (spec_field v) pt fs = foldl (spec_field w) pt fs" if "set fs \<subseteq> set (ce_fields event)" for pt fs
    using that
  proof (induction fs arbitrary: pt)
    case (Cons f fs)
    then have "spec_field v pt f = spec_field w pt f" using assms by (simp add: spec_field_def Let_def)
    with Cons show ?case by simp
  qed simp
  then have "spec_parts_of (ce_fields event) v = spec_parts_of (ce_fields event) w" by (simp add: spec_parts_of_def)
  then show ?thesis by (simp add: approvalSpec_def)
qed

lemma password_not_stored_witness:
  "approvalSpec (plain_event ''e'' [text_field ''p'' TPassword])
       (JObj [(''p'', JStr ''one'')]) [] []
     = approvalSpec (plain_event ''e'' [text_field ''p'' TPassword])
       (JObj [(''p'', JStr ''two'')]) [] []"
  by (rule password_not_stored) (auto simp: secret_given_def plain_event_def text_field_def)

section \<open>The fingerprint binds the inputs\<close>

lemma distinct_js_sort: "distinct (map fst (js_sort cmp ps)) = distinct (map fst ps)"
proof -
  have "mset (map fst (js_sort cmp ps)) = mset (map fst ps)" by simp
  then show ?thesis by (rule mset_eq_imp_distinct_iff)
qed

lemma map_of_js_sort: "distinct (map fst ps) \<Longrightarrow> map_of (js_sort cmp ps) = map_of ps"
  using map_of_inject_set [of "js_sort cmp ps" ps] by (simp add: distinct_js_sort)

lemma map_fst_values: "map fst (map (\<lambda>(k, v). (k, g v)) ps) = map fst ps"
  by (simp add: case_prod_unfold)

lemma stable_jget: "distinct (map fst ps) \<Longrightarrow> jget (stable_js (JObj ps)) k = stable_js (jget (JObj ps) k)"
proof -
  assume "distinct (map fst ps)"
  then have "distinct (map fst (map (\<lambda>(k, v). (k, stable_js v)) ps))" by (simp only: map_fst_values)
  from map_of_js_sort [OF this, of key_cmp]
  have "map_of (js_sort key_cmp (map (\<lambda>(k, v). (k, stable_js v)) ps)) k = map_option stable_js (map_of ps k)"
    by (simp add: map_of_map)
  then show ?thesis by (simp add: jget_def split: option.splits)
qed

lemma stable_plain: "json_plain v \<Longrightarrow> json_plain (stable_js v)"
proof (induction v rule: stable_js.induct)
  case (2 ps)
  then have "distinct (map fst (map (\<lambda>(k, v). (k, stable_js v)) ps))" unfolding map_fst_values by simp
  moreover have "json_plain (stable_js (snd p))" if "p \<in> set ps" for p
    using 2 that by (cases p) (auto simp: list_all_iff)
  ultimately show ?case by (auto simp: distinct_js_sort list_all_iff)
qed (auto simp: list_all_iff)

lemma json_print_inj: "json_plain v \<Longrightarrow> json_plain w \<Longrightarrow> json_print v = json_print w \<Longrightarrow> v = w"
  by (metis json_parse_print option.inject)

lemma stable_strings [simp]: "stable_js (strings_js xs) = strings_js xs"
  by (induction xs) (simp_all add: strings_js_def)

lemma strings_js_inj [simp]: "strings_js xs = strings_js ys \<longleftrightarrow> xs = ys"
  by (auto simp: strings_js_def inj_map_eq_map inj_def)

text \<open>Two specifications ask for the same operation: the same values up to the order of the keys.\<close>

definition same_request :: "approval_spec \<Rightarrow> approval_spec \<Rightarrow> bool" where
  "same_request s t \<longleftrightarrow> sp_eventId s = sp_eventId t \<and> sp_schemaVersion s = sp_schemaVersion t \<and> sp_targets s = sp_targets t
     \<and> sp_secretFields s = sp_secretFields t \<and> sp_parentRunId s = sp_parentRunId t
     \<and> stable_js (JObj (sp_values s)) = stable_js (JObj (sp_values t))"

lemma same_request_stable:
  assumes "stable_js (spec_js s) = stable_js (spec_js t)"
  shows "same_request s t"
proof -
  have "jget (stable_js (spec_js u)) k = stable_js (jget (spec_js u) k)" for u k
    unfolding spec_js_def by (rule stable_jget) simp
  with assms have "stable_js (jget (spec_js s) k) = stable_js (jget (spec_js t) k)" for k by metis
  from this [of "''eventId''"] this [of "''schemaVersion''"] this [of "''values''"] this [of "''targets''"]
    this [of "''secretFields''"] this [of "''parentRunId''"]
  show ?thesis by (simp add: same_request_def spec_js_def)
qed

text \<open>SHA-256 does not collide on the two texts at hand.\<close>

definition no_collision :: "(string \<Rightarrow> string) \<Rightarrow> approval_spec \<Rightarrow> approval_spec \<Rightarrow> bool" where
  "no_collision sha s t \<longleftrightarrow> (fingerprint sha s = fingerprint sha t \<longrightarrow>
     json_print (stable_js (spec_js s)) = json_print (stable_js (spec_js t)))"

lemma stable_same_request: "same_request s t \<Longrightarrow> stable_js (spec_js s) = stable_js (spec_js t)"
  unfolding same_request_def spec_js_def by (simp only: stable_js.simps list.map prod.case stable_strings)

lemma fingerprint_same_request:
  assumes "bounded_spec s" "bounded_spec t" "no_collision sha s t"
  shows "fingerprint sha s = fingerprint sha t \<longleftrightarrow> same_request s t"
proof
  assume "fingerprint sha s = fingerprint sha t"
  with assms(3) have "json_print (stable_js (spec_js s)) = json_print (stable_js (spec_js t))" by (simp add: no_collision_def)
  then have "stable_js (spec_js s) = stable_js (spec_js t)"
    using stable_plain spec_js_plain assms(1,2) by (blast intro: json_print_inj)
  then show "same_request s t" by (rule same_request_stable)
qed (simp add: fingerprint_def stable_same_request)

lemma same_request_value:
  assumes "same_request s t" "json_plain (JObj (sp_values s))" "json_plain (JObj (sp_values t))"
  shows "stable_js (jget (JObj (sp_values s)) k) = stable_js (jget (JObj (sp_values t)) k)"
proof -
  have "jget (stable_js (JObj (sp_values s))) k = jget (stable_js (JObj (sp_values t))) k" using assms(1) by (simp only: same_request_def)
  moreover have "distinct (map fst (sp_values s))" "distinct (map fst (sp_values t))" using assms(2,3) by simp_all
  ultimately show ?thesis by (simp only: stable_jget)
qed

text \<open>
  What a launch asks for, read off the launch itself: the process and its schema, the targets as they are normalised
  (cleaned and cut to 240 characters, the empty ones dropped, the first hundred), the password fields that are filled in,
  and the values of the other fields.
\<close>

definition normal_targets :: "string list \<Rightarrow> string list" where
  "normal_targets targets = take 100 [u. t \<leftarrow> targets, u \<leftarrow> [approval_cleanText (JStr t) 240], u \<noteq> []]"

definition asks_for :: "catalog_event \<Rightarrow> js \<Rightarrow> string list \<Rightarrow> approval_spec \<Rightarrow> bool" where
  "asks_for event values targets s \<longleftrightarrow> ce_id event = sp_eventId s \<and> event_schema event = sp_schemaVersion s
     \<and> normal_targets targets = sp_targets s
     \<and> map rf_key (filter (\<lambda>f. rf_type f = TPassword \<and> secret_given (jget values (rf_key f))) (ce_fields event)) = sp_secretFields s
     \<and> stable_js (JObj (pt_values (spec_parts_of (ce_fields event) values))) = stable_js (JObj (sp_values s))"

lemma normal_targets_filter: "normal_targets targets = take 100 (filter (\<lambda>s. s \<noteq> []) (map (\<lambda>t. approval_cleanText (JStr t) 240) targets))"
proof -
  have "[u. t \<leftarrow> targets, u \<leftarrow> [approval_cleanText (JStr t) 240], u \<noteq> []] = filter (\<lambda>s. s \<noteq> []) (map (\<lambda>t. approval_cleanText (JStr t) 240) targets)"
    by (induction targets) simp_all
  then show ?thesis by (simp add: normal_targets_def)
qed

lemma asked_same: "bounded_spec s \<Longrightarrow> same_request (fst (approvalSpec event values targets (sp_parentRunId s))) s \<longleftrightarrow> asks_for event values targets s"
  by (auto simp: same_request_def asks_for_def approvalSpec_def Let_def bounded_spec_def normal_targets_filter pt_secrets_filter simp del: stable_js.simps)

text \<open>Targets after the hundredth are bound by no approval, whatever they are.\<close>

lemma later_targets_unbound:
  assumes "100 \<le> length (normal_targets targets)"
  shows "approvalExecutionMatches sha s event values (targets @ extra) = approvalExecutionMatches sha s event values targets"
proof -
  have "normal_targets (targets @ extra) = normal_targets targets" using assms by (simp add: normal_targets_filter)
  then have "fst (approvalSpec event values (targets @ extra) parent) = fst (approvalSpec event values targets parent)" for parent
    by (simp add: approvalSpec_def Let_def normal_targets_filter)
  then show ?thesis by (simp add: approvalExecutionMatches_def)
qed

text \<open>C33: A launch is accepted under an approval exactly when it asks for the approved operation: the same
  process in the same version of its schema, the same targets once both are normalised - cleaned and cut to 240 characters, empty
  ones dropped, only the first hundred -, the same password fields filled in, and the same values up to the order of keys, so that
  every field that is no password has the value that was approved. Passwords themselves are not compared, nor targets after
  the hundredth. Both specifications are within the limits of the reader, values have no fractions, and the digest does not
  collide on the two.\<close>

theorem execution_binding:
  assumes "bounded_spec s" "json_plain values" "bounded_spec (fst (approvalSpec event values targets (sp_parentRunId s)))"
    and "no_collision sha (fst (approvalSpec event values targets (sp_parentRunId s))) s"
  shows "(approvalExecutionMatches sha s event values targets \<longleftrightarrow> asks_for event values targets s)
    \<and> (approvalExecutionMatches sha s event values targets \<longrightarrow> f \<in> set (ce_fields event) \<longrightarrow> rf_type f \<noteq> TPassword
      \<longrightarrow> stable_js (jget values (rf_key f)) = stable_js (jget (JObj (sp_values s)) (rf_key f)))"
proof -
  let ?p = "fst (approvalSpec event values targets (sp_parentRunId s))"
  have eq: "approvalExecutionMatches sha s event values targets \<longleftrightarrow> same_request ?p s"
    unfolding approvalExecutionMatches_def by (rule fingerprint_same_request [OF assms(3,1,4)])
  have "jget values (rf_key f) = jget (JObj (sp_values ?p)) (rf_key f)" if "f \<in> set (ce_fields event)" "rf_type f \<noteq> TPassword"
    using that pt_values_map_of [of "ce_fields event" "values" "rf_key f"] by (auto simp: approvalSpec_def Let_def)
  with eq asked_same [OF assms(1)] same_request_value [of ?p s] assms(1,3) show ?thesis by (simp add: bounded_spec_def)
qed

lemma execution_binding_witness:
  "\<not> approvalExecutionMatches id \<lparr>sp_eventId = ''e'', sp_schemaVersion = [], sp_values = [], sp_targets = [],
      sp_secretFields = [''p''], sp_parentRunId = []\<rparr>
     ((plain_event ''e'' [])\<lparr>ce_schemaVersion := None\<rparr>) (JObj []) []"
proof -
  let ?s = "\<lparr>sp_eventId = ''e'', sp_schemaVersion = [], sp_values = [], sp_targets = [], sp_secretFields = [''p''], sp_parentRunId = []\<rparr>"
  let ?e = "((plain_event ''e'' [])\<lparr>ce_schemaVersion := None\<rparr>)"
  have p: "fst (approvalSpec ?e (JObj []) [] []) = ?s\<lparr>sp_secretFields := []\<rparr>"
    by (simp add: approvalSpec_def spec_parts_of_def event_schema_def plain_event_def)
  have "\<not> asks_for ?e (JObj []) [] ?s" by (simp add: asks_for_def plain_event_def)
  with execution_binding [of ?s "JObj []" ?e "[]" id] p show ?thesis
    by (simp add: bounded_spec_def no_collision_def fingerprint_def)
qed

section \<open>A cipher and a key\<close>

definition sample_encrypt :: encrypt where
  "sample_encrypt key iv s = map of_char s @ [0]"

definition sample_decrypt :: decrypt where
  "sample_decrypt key iv bs = Some (map char_of (butlast bs))"

lemma sample_cipher: "good_cipher sample_encrypt sample_decrypt"
  by (simp add: good_cipher_def sample_encrypt_def sample_decrypt_def bytes_ok_def list_all_iff comp_def)

definition sample_key_text :: string where
  "sample_key_text = replicate 64 (CHR ''a'')"

lemma sample_key_bytes: "encryptionKey (Some sample_key_text) = Inr (replicate 32 170)"
  by code_simp

end
