(* ===== verification/JsNumber.thy ===== *)
theory JsNumber
  imports JsValue
begin

text \<open>
  The order of the numbers of the language: \<open>a - b\<close> as a sign and \<open>a <= b\<close>, exact on integers and
  decimal fractions; a comparison with \<open>NaN\<close> is false.
\<close>

fun num_parts :: "jsnum \<Rightarrow> int \<times> nat" where
  "num_parts (Frac m k) = (m, k)"
| "num_parts (Num n) = (n, 0)"
| "num_parts NaN = (0, 0)"

text \<open>The sign of \<open>a - b\<close> for two numbers that are numbers.\<close>

definition num_cmp :: "jsnum \<Rightarrow> jsnum \<Rightarrow> int" where
  "num_cmp a b = (case (num_parts a, num_parts b) of ((m, k), (n, l)) \<Rightarrow> sgn (m * 10 ^ l - n * 10 ^ k))"

definition num_le :: "jsnum \<Rightarrow> jsnum \<Rightarrow> bool" where
  "num_le a b \<longleftrightarrow> a \<noteq> NaN \<and> b \<noteq> NaN \<and> num_cmp a b \<le> 0"

end
