(* ===== verification/OperationRuns.thy ===== *)
theory OperationRuns
  imports CatalogSchema ApprovalSpec JsNumber
begin

text \<open>
  The record of a launch: \<open>src/worker/operation-run-runtime.ts\<close> makes and stores it,
  \<open>src/worker/xyops-run-runtime.ts\<close> reads the state of its job and shows it, and
  \<open>src/operations/run/run-replays.ts\<close> keeps what is needed to launch it again. \<open>Date.parse\<close> on a text of
  unknown form is an argument, as are the random id and the clock. The run-time notification of a finished
  run is not modelled; its failure is swallowed by the source.
\<close>

section \<open>States of a job\<close>

datatype run_status = RunQueued | RunRunning | RunSuccess | RunFailed | RunCancelled | RunUnknown

text \<open>\<open>replace(/[\s-]+/g, "_")\<close>\<close>

fun dashes :: "bool \<Rightarrow> string \<Rightarrow> string" where
  "dashes after [] = []"
| "dashes after (c # s) =
     (if is_space c \<or> c = CHR ''-'' then (if after then dashes True s else CHR ''_'' # dashes True s) else c # dashes False s)"

definition runStatus :: "js \<Rightarrow> run_status" where
  "runStatus v =
     (let normalized = dashes False (js_lower (to_str (coalesce v (JStr [])))) in
      if normalized \<in> {''success'', ''succeeded'', ''completed'', ''complete'', ''done'', ''ok''} then RunSuccess
      else if normalized \<in> {''cancelled'', ''canceled'', ''aborted'', ''abort''} then RunCancelled
      else if normalized \<in> {''failed'', ''failure'', ''error'', ''timeout'', ''timed_out''} then RunFailed
      else if normalized \<in> {''running'', ''active'', ''processing'', ''in_progress'', ''executing''} then RunRunning
      else if normalized \<in> {''queued'', ''pending'', ''created'', ''scheduled'', ''waiting''} then RunQueued
      else RunUnknown)"

definition jobLifecycleStatus :: "js \<Rightarrow> bool \<Rightarrow> run_status" where
  "jobLifecycleStatus row active =
     (let completed = to_num (coalesce (jfirst row [''completed'', ''completed_at'', ''finished_at'']) (JInt 0)) in
      if completed \<noteq> NaN \<and> \<not> num_le completed (Num 0) then
        (let c = jfirst row [''code'', ''exit_code'', ''exitCode''] in
         if c \<in> {JUndef, JNull, JInt 0, JBool False, JStr ''0'', JStr []} then RunSuccess else RunFailed)
      else
        (let lifecycle = runStatus (jfirst row [''state'', ''lifecycle_status'', ''lifecycleStatus'', ''outcome'']) in
         if lifecycle \<noteq> RunUnknown then lifecycle
         else (let reported = runStatus (jget row ''status'') in
               if reported \<noteq> RunUnknown then reported else if active then RunRunning else RunUnknown)))"

definition num_scale :: "jsnum \<Rightarrow> jsnum" where
  "num_scale n = (if num_le (Num 10000000000) n then n
     else (case n of Num m \<Rightarrow> Num (m * 1000) | Frac m k \<Rightarrow> mk_frac (m * 1000) k | NaN \<Rightarrow> NaN))"

definition jobTimestamp :: "(string \<Rightarrow> jsnum) \<Rightarrow> js \<Rightarrow> jsnum option" where
  "jobTimestamp date_parse v = (case v of
      JNum n \<Rightarrow> if n = NaN then None else Some (num_scale n)
    | JStr s \<Rightarrow>
        if s = [] then None
        else (let n = str_to_num s in
              if n \<noteq> NaN then Some (num_scale n)
              else (let d = date_parse s in if d = NaN then None else Some d))
    | _ \<Rightarrow> None)"

section \<open>Stages of a job\<close>

record run_stage =
  sg_id :: string
  sg_title :: string
  sg_status :: run_status
  sg_startedAt :: "jsnum option"
  sg_completedAt :: "jsnum option"
  sg_error :: string

definition stage_timestamp :: "(string \<Rightarrow> jsnum) \<Rightarrow> js \<Rightarrow> jsnum option" where
  "stage_timestamp date_parse v = (case v of
      JNum n \<Rightarrow> if n = NaN then None else Some n
    | JStr s \<Rightarrow> if s = [] then None else (let d = date_parse s in if d = NaN then None else Some d)
    | _ \<Rightarrow> None)"

text \<open>The default title of a stage is transliterated.\<close>

definition read_stage :: "(string \<Rightarrow> jsnum) \<Rightarrow> nat \<Rightarrow> js \<Rightarrow> run_stage" where
  "read_stage date_parse n stage =
     \<lparr>sg_id = take 160 (to_str (coalesce (jfirst stage [''id'', ''step_id'', ''key'']) (JInt (int n)))),
      sg_title = take 240 (to_str (coalesce (jfirst stage [''title'', ''name'', ''label'']) (JStr (''Etap '' @ nat_to_str (Suc n))))),
      sg_status = runStatus (jfirst stage [''status'', ''state'', ''result'']),
      sg_startedAt = stage_timestamp date_parse (jfirst stage [''started_at'', ''startedAt'']),
      sg_completedAt = stage_timestamp date_parse (jfirst stage [''completed_at'', ''completedAt'', ''finished_at'']),
      sg_error = take 500 (first_text stage [''error'', ''message''])\<rparr>"

definition extractJobStages :: "(string \<Rightarrow> jsnum) \<Rightarrow> js \<Rightarrow> run_stage list" where
  "extractJobStages date_parse row =
     (case find is_array (map (jget row) [''stages'', ''steps'', ''tasks'', ''nodes'', ''workflow_steps'']) of
        Some (JArr xs) \<Rightarrow>
          (let kept = take 100 (filter plain_object xs) in map (\<lambda>(n, v). read_stage date_parse n v) (zip [0..<length kept] kept))
      | _ \<Rightarrow> [])"

section \<open>The record of a run\<close>

datatype run_mode = DemoRun | LiveRun

record operation_run =
  or_id :: string
  or_jobId :: string
  or_eventId :: string
  or_title :: string
  or_kind :: process_kind
  or_mode :: run_mode
  or_status :: run_status
  or_actor :: string
  or_subject :: string
  or_error :: string
  or_stages :: "run_stage list"
  or_startedAt :: int
  or_updatedAt :: int
  or_completedAt :: "int option"

text \<open>The dash shown when there is no subject is the em dash, a character outside the model.\<close>

definition runSubject :: "js \<Rightarrow> string list \<Rightarrow> string" where
  "runSubject values targets =
     (case find (\<lambda>v. case v of JStr s \<Rightarrow> js_trim s \<noteq> [] | _ \<Rightarrow> False)
         (map (jget values) [''username'', ''uid'', ''group'', ''database'', ''server'', ''hostname'', ''name'']) of
        Some (JStr s) \<Rightarrow> take 240 (js_trim s)
      | _ \<Rightarrow> (let joined = take 240 (js_join '', '' (take 3 (filter (\<lambda>t. t \<noteq> []) targets))) in if joined = [] then ''-'' else joined))"

definition finished :: "run_status \<Rightarrow> bool" where
  "finished s \<longleftrightarrow> s \<in> {RunSuccess, RunFailed, RunCancelled}"

definition operationRun ::
  "string \<Rightarrow> int \<Rightarrow> string \<Rightarrow> string \<Rightarrow> string \<Rightarrow> process_kind \<Rightarrow> run_mode \<Rightarrow> string \<Rightarrow> run_status \<Rightarrow> js \<Rightarrow> string list \<Rightarrow> string
     \<Rightarrow> run_stage list \<Rightarrow> operation_run" where
  "operationRun uuid now actor eventId title kind mode jobId status values targets message stages =
     \<lparr>or_id = uuid, or_jobId = (if jobId = [] then ''LOCAL-'' @ int_to_str now else jobId), or_eventId = eventId, or_title = title,
      or_kind = kind, or_mode = mode, or_status = status, or_actor = actor, or_subject = runSubject values targets,
      or_error = take 500 message, or_stages = stages, or_startedAt = now, or_updatedAt = now,
      or_completedAt = (if finished status then Some now else None)\<rparr>"

text \<open>\<open>INSERT .. ON CONFLICT(id) DO UPDATE\<close>: a row that is there keeps what the update does not name.\<close>

definition merge_run :: "operation_run \<Rightarrow> operation_run \<Rightarrow> operation_run" where
  "merge_run run r = r\<lparr>or_jobId := or_jobId run, or_status := or_status run, or_error := or_error run, or_stages := or_stages run,
     or_updatedAt := or_updatedAt run, or_completedAt := or_completedAt run\<rparr>"

definition store_run :: "operation_run \<Rightarrow> operation_run list \<Rightarrow> operation_run list" where
  "store_run run rows =
     (if \<exists>r \<in> set rows. or_id r = or_id run then map (\<lambda>r. if or_id r = or_id run then merge_run run r else r) rows
      else rows @ [run])"

definition listOperationRuns :: "bool \<Rightarrow> int \<Rightarrow> operation_run list \<Rightarrow> operation_run list" where
  "listOperationRuns hasDB limit rows =
     (if \<not> hasDB then []
      else filter (\<lambda>r. or_id r \<noteq> [])
        (map (\<lambda>r. r\<lparr>or_stages := take 100 (or_stages r)\<rparr>)
          (take (nat (max 1 (min limit 200))) (js_sort (\<lambda>a b. or_startedAt b - or_startedAt a) rows))))"

end
