(* ===== verification/RunReplays.thy ===== *)
theory RunReplays
  imports OperationRuns
begin

text \<open>
  What is kept of a launch so that it can be launched again, \<open>src/operations/run/run-replays.ts\<close>: the values
  of the visible fields that are no passwords, encrypted in the same form as an approved specification
  (\<open>seal\<close> and \<open>unseal\<close>). A form with a password is not replayable. A database call that fails throws
  \<open>DatabaseFailure\<close>.
\<close>

section \<open>The stored specification\<close>

record replay_spec =
  rp_eventId :: string
  rp_schemaVersion :: string
  rp_values :: "(string \<times> js) list"
  rp_targets :: "string list"
  rp_parentRunId :: string

record replay_row =
  ry_run_id :: string
  ry_event_id :: string
  ry_schema_version :: string
  ry_encrypted_spec :: "string option"
  ry_replayable :: int
  ry_reason :: "string option"
  ry_parent_run_id :: "string option"
  ry_created_at :: int

record replay_summary =
  rz_runId :: string
  rz_eventId :: string
  rz_schemaVersion :: string
  rz_replayable :: bool
  rz_reason :: string
  rz_parentRunId :: string

definition replay_js :: "replay_spec \<Rightarrow> js" where
  "replay_js s = JObj [(''eventId'', JStr (rp_eventId s)), (''schemaVersion'', JStr (rp_schemaVersion s)),
     (''values'', JObj (rp_values s)), (''targets'', strings_js (rp_targets s)), (''parentRunId'', JStr (rp_parentRunId s))]"

definition replay_of_js :: "js \<Rightarrow> approval_error + replay_spec" where
  "replay_of_js v = (case (jget v ''eventId'', jget v ''schemaVersion'', jget v ''values'', jget v ''targets'') of
      (JStr e, JStr s, JObj ps, JArr ts) \<Rightarrow>
        Inr \<lparr>rp_eventId = take 240 e, rp_schemaVersion = take 80 s, rp_values = ps, rp_targets = take 100 (map to_str ts),
          rp_parentRunId = take 160 (to_str (coalesce (jget v ''parentRunId'') (JStr [])))\<rparr>
    | _ \<Rightarrow> Inl (Message ''Stored replay specification is invalid''))"

definition encryptReplay :: "encrypt \<Rightarrow> nat list \<Rightarrow> replay_spec \<Rightarrow> string option \<Rightarrow> approval_error + string" where
  "encryptReplay enc iv spec keyValue = seal enc iv (json_print (replay_js spec)) keyValue"

definition decryptReplay :: "decrypt \<Rightarrow> string \<Rightarrow> string option \<Rightarrow> approval_error + replay_spec" where
  "decryptReplay dec value keyValue = bindE (unseal dec (Message ''Unsupported replay storage format'') value keyValue) replay_of_js"

section \<open>Saving\<close>

text \<open>The loop over the visible fields: the values kept, and the label of the last password that was given.\<close>

definition replay_field :: "js \<Rightarrow> (string \<times> js) list \<times> string \<Rightarrow> route_field \<Rightarrow> (string \<times> js) list \<times> string" where
  "replay_field values acc f =
     (let (kept, reason) = acc; v = jget values (rf_key f) in
      if \<not> fieldConditionMatches (rf_visibleWhen f) values then acc
      else if rf_type f = TPassword then
        (if secret_given v then (kept, ''secret field '' @ rf_label f) else acc)
      else if v \<noteq> JUndef then (obj_set (rf_key f) v kept, reason) else acc)"

definition replayValues :: "catalog_event \<Rightarrow> js \<Rightarrow> (string \<times> js) list \<times> string" where
  "replayValues event values = foldl (replay_field values) ([], []) (ce_fields event)"

definition key_given :: "string option \<Rightarrow> bool" where
  "key_given k \<longleftrightarrow> k \<noteq> None \<and> k \<noteq> Some []"

definition replay_spec_of :: "catalog_event \<Rightarrow> js \<Rightarrow> string list \<Rightarrow> string \<Rightarrow> replay_spec" where
  "replay_spec_of event values targets parent =
     \<lparr>rp_eventId = ce_id event, rp_schemaVersion = event_schema event, rp_values = fst (replayValues event values),
      rp_targets = take 100 targets, rp_parentRunId = take 160 parent\<rparr>"

definition replay_row_of ::
  "encrypt \<Rightarrow> nat list \<Rightarrow> string option \<Rightarrow> int \<Rightarrow> string \<Rightarrow> catalog_event \<Rightarrow> js \<Rightarrow> string list \<Rightarrow> string \<Rightarrow> replay_row" where
  "replay_row_of enc iv key now runId event values targets parent =
     (let reason = snd (replayValues event values);
          attempt = (if reason \<noteq> [] then Inl reason
            else if \<not> key_given key then Inl ''CONFIG_ENCRYPTION_KEY is not configured''
            else (case encryptReplay enc iv (replay_spec_of event values targets parent) key of
                Inr stored \<Rightarrow> Inr stored | Inl _ \<Rightarrow> Inl ''cannot encrypt the parameters''))
      in \<lparr>ry_run_id = take 160 runId, ry_event_id = take 240 (ce_id event), ry_schema_version = take 80 (event_schema event),
          ry_encrypted_spec = (case attempt of Inl _ \<Rightarrow> None | Inr stored \<Rightarrow> Some stored),
          ry_replayable = (case attempt of Inl _ \<Rightarrow> 0 | Inr _ \<Rightarrow> 1),
          ry_reason = (case attempt of Inl m \<Rightarrow> Some m | Inr _ \<Rightarrow> None),
          ry_parent_run_id = (if take 160 parent = [] then None else Some (take 160 parent)), ry_created_at = now\<rparr>)"

definition merge_replay :: "replay_row \<Rightarrow> replay_row \<Rightarrow> replay_row" where
  "merge_replay new r = new\<lparr>ry_created_at := ry_created_at r\<rparr>"

definition store_replay :: "replay_row \<Rightarrow> replay_row list \<Rightarrow> replay_row list" where
  "store_replay new rows =
     (if \<exists>r \<in> set rows. ry_run_id r = ry_run_id new then map (\<lambda>r. if ry_run_id r = ry_run_id new then merge_replay new r else r) rows
      else rows @ [new])"

section \<open>Reading\<close>

definition summaryFromRow :: "replay_row \<Rightarrow> replay_summary" where
  "summaryFromRow r = \<lparr>rz_runId = ry_run_id r, rz_eventId = ry_event_id r, rz_schemaVersion = ry_schema_version r,
     rz_replayable = (ry_replayable r = 1), rz_reason = (case ry_reason r of None \<Rightarrow> [] | Some s \<Rightarrow> s),
     rz_parentRunId = (case ry_parent_run_id r of None \<Rightarrow> [] | Some s \<Rightarrow> s)\<rparr>"

definition listRunReplaySummaries :: "bool \<Rightarrow> string list \<Rightarrow> replay_row list \<Rightarrow> (string \<times> replay_summary) list" where
  "listRunReplaySummaries hasDB runIds rows =
     (let ids = take 200 (filter (\<lambda>i. i \<noteq> []) runIds) in
      if \<not> hasDB \<or> ids = [] then []
      else map (\<lambda>r. (ry_run_id r, summaryFromRow r)) (filter (\<lambda>r. ry_run_id r \<in> set ids \<and> ry_run_id r \<noteq> []) rows))"

definition readRunReplay :: "decrypt \<Rightarrow> string option \<Rightarrow> bool \<Rightarrow> string \<Rightarrow> replay_row list \<Rightarrow> (replay_summary \<times> replay_spec option) option" where
  "readRunReplay dec key hasDB runId rows =
     (if \<not> hasDB then None
      else (case find (\<lambda>r. ry_run_id r = take 160 runId) rows of
          None \<Rightarrow> None
        | Some row \<Rightarrow>
            (let summary = summaryFromRow row in
             case ry_encrypted_spec row of
               None \<Rightarrow> Some (summary, None)
             | Some stored \<Rightarrow>
                 if \<not> rz_replayable summary \<or> stored = [] then Some (summary, None)
                 else (case decryptReplay dec stored key of
                     Inr spec \<Rightarrow> Some (summary, Some spec)
                   | Inl _ \<Rightarrow> Some (summary\<lparr>rz_replayable := False, rz_reason := ''cannot decrypt the parameters''\<rparr>, None)))))"

section \<open>What is kept of a form\<close>

lemma replay_field_split: "replay_field values (kept, reason) f =
    (if fieldConditionMatches (rf_visibleWhen f) values \<and> rf_type f \<noteq> TPassword \<and> jget values (rf_key f) \<noteq> JUndef
       then obj_set (rf_key f) (jget values (rf_key f)) kept else kept,
     if fieldConditionMatches (rf_visibleWhen f) values \<and> rf_type f = TPassword \<and> secret_given (jget values (rf_key f))
       then ''secret field '' @ rf_label f else reason)"
  by (simp add: replay_field_def Let_def)

lemma replay_kept:
  "(k, v) \<in> set (fst (foldl (replay_field values) acc fs)) \<Longrightarrow>
     (k, v) \<in> set (fst acc) \<or> (\<exists>f \<in> set fs. rf_key f = k \<and> rf_type f \<noteq> TPassword
        \<and> fieldConditionMatches (rf_visibleWhen f) values \<and> v = jget values k)"
proof (induction fs rule: rev_induct)
  case (snoc f fs)
  obtain kept reason where acc: "foldl (replay_field values) acc fs = (kept, reason)" by (cases "foldl (replay_field values) acc fs")
  with snoc show ?case using obj_set_members [of "rf_key f" "jget values (rf_key f)" kept]
    by (auto simp: replay_field_split split: if_splits)
qed simp

definition password_given :: "catalog_event \<Rightarrow> js \<Rightarrow> bool" where
  "password_given event values \<longleftrightarrow> (\<exists>f \<in> set (ce_fields event). rf_type f = TPassword
     \<and> fieldConditionMatches (rf_visibleWhen f) values \<and> secret_given (jget values (rf_key f)))"

definition plain_value :: "catalog_event \<Rightarrow> js \<Rightarrow> string \<Rightarrow> js option" where
  "plain_value event values k =
     (if jget values k \<noteq> JUndef \<and> (\<exists>f \<in> set (ce_fields event). rf_key f = k \<and> rf_type f \<noteq> TPassword
        \<and> fieldConditionMatches (rf_visibleWhen f) values) then Some (jget values k) else None)"

lemma replay_reason_given:
  "snd (foldl (replay_field values) ([], []) fs) = [] \<longleftrightarrow> (\<forall>f \<in> set fs. rf_type f = TPassword
     \<longrightarrow> fieldConditionMatches (rf_visibleWhen f) values \<longrightarrow> \<not> secret_given (jget values (rf_key f)))"
proof (induction fs rule: rev_induct)
  case (snoc f fs)
  obtain kept reason where acc: "foldl (replay_field values) ([], []) fs = (kept, reason)"
    by (cases "foldl (replay_field values) ([], []) fs")
  with snoc show ?case by (auto simp: replay_field_split)
qed simp

lemma replay_kept_values:
  "map_of (fst (foldl (replay_field values) ([], []) fs)) k =
     (if jget values k \<noteq> JUndef \<and> (\<exists>f \<in> set fs. rf_key f = k \<and> rf_type f \<noteq> TPassword
        \<and> fieldConditionMatches (rf_visibleWhen f) values) then Some (jget values k) else None)"
proof (induction fs rule: rev_induct)
  case (snoc f fs)
  obtain kept reason where acc: "foldl (replay_field values) ([], []) fs = (kept, reason)"
    by (cases "foldl (replay_field values) ([], []) fs")
  with snoc show ?case by (auto simp: replay_field_split map_of_obj_set)
qed simp

text \<open>C39: The row that is kept of a run for launching it again holds no password: when a password was given in
  a visible field, the row stores no encrypted specification, is marked as not replayable and says why, and
  reading it back yields no specification. Otherwise a stored text is the encryption of a specification of
  that very process, and it holds exactly the values of the visible fields that are no passwords, as they
  were in the form. (This is about the replay row only; the subject text of a run is kept with the run.)\<close>

theorem replay_no_secret:
  "let row = replay_row_of enc iv key now runId event values targets parent in
   if password_given event values
    then ry_encrypted_spec row = None \<and> ry_replayable row = 0 \<and> ry_reason row \<noteq> None
      \<and> readRunReplay dec key True runId [row] = Some (summaryFromRow row, None) \<and> \<not> rz_replayable (summaryFromRow row)
    else (case ry_encrypted_spec row of
        None \<Rightarrow> ry_replayable row = 0
      | Some stored \<Rightarrow> ry_replayable row = 1 \<and> (\<exists>spec. encryptReplay enc iv spec key = Inr stored
          \<and> rp_eventId spec = ce_id event \<and> map_of (rp_values spec) = plain_value event values))"
proof -
  define row where "row = replay_row_of enc iv key now runId event values targets parent"
  have id: "ry_run_id row = take 160 runId" by (simp add: row_def replay_row_of_def Let_def)
  show ?thesis
  proof (cases "password_given event values")
    case True
    then have "snd (replayValues event values) \<noteq> []"
      by (auto simp: replayValues_def password_given_def replay_reason_given)
    then have "ry_encrypted_spec row = None" "ry_replayable row = 0" "ry_reason row \<noteq> None"
      by (simp_all add: row_def replay_row_of_def Let_def)
    with True id show ?thesis unfolding row_def [symmetric] by (auto simp: readRunReplay_def summaryFromRow_def Let_def)
  next
    case False
    have "map_of (rp_values (replay_spec_of event values targets parent)) = plain_value event values"
      by (rule ext) (simp add: replay_spec_of_def replayValues_def replay_kept_values plain_value_def)
    moreover have "rp_eventId (replay_spec_of event values targets parent) = ce_id event" by (simp add: replay_spec_of_def)
    ultimately show ?thesis using False
      by (auto simp: replay_row_of_def Let_def split: sum.splits option.splits)
  qed
qed

section \<open>A stored run is read back\<close>

lemma replay_kept_plain:
  "json_plain values \<Longrightarrow> json_plain (JObj (fst (foldl (replay_field values) ([], []) fs)))"
proof (induction fs rule: rev_induct)
  case (snoc f fs)
  obtain kept reason where acc: "foldl (replay_field values) ([], []) fs = (kept, reason)"
    by (cases "foldl (replay_field values) ([], []) fs")
  with snoc show ?case using obj_set_members [of "rf_key f" "jget values (rf_key f)" kept] jget_plain [of "values" "rf_key f"]
    by (fastforce simp: replay_field_split obj_set_distinct list_all_iff)
qed simp

definition bounded_replay :: "replay_spec \<Rightarrow> bool" where
  "bounded_replay s \<longleftrightarrow> length (rp_eventId s) \<le> 240 \<and> length (rp_schemaVersion s) \<le> 80 \<and> length (rp_targets s) \<le> 100
     \<and> length (rp_parentRunId s) \<le> 160 \<and> json_plain (JObj (rp_values s))"

lemma replay_of_replay_js: "bounded_replay s \<Longrightarrow> replay_of_js (replay_js s) = Inr s \<and> json_plain (replay_js s)"
  by (simp add: bounded_replay_def replay_of_js_def replay_js_def strings_js_def comp_def list_all_iff)

lemma seal_nonempty: "seal enc iv v key = Inr stored \<Longrightarrow> stored \<noteq> []"
  by (auto simp: seal_def)

lemma replay_spec_bounded:
  assumes "json_plain values" "length (ce_id event) \<le> 240" "length (event_schema event) \<le> 80"
  shows "bounded_replay (replay_spec_of event values targets parent)"
  using assms replay_kept_plain [OF assms(1), of "ce_fields event"]
  by (simp add: bounded_replay_def replay_spec_of_def replayValues_def)

text \<open>A run whose form holds no password can be launched again: what is stored of it is read back as the
  very values, targets, process and schema version it was launched with.\<close>

lemma replay_roundtrip:
  assumes "good_cipher enc dec" "length iv = 12" "bytes_ok iv" "encryptionKey key = Inr k"
    and "json_plain values" "length (ce_id event) \<le> 240" "length (event_schema event) \<le> 80"
    and "snd (replayValues event values) = []" "\<forall>r \<in> set rows. ry_run_id r \<noteq> take 160 runId"
  shows "\<exists>summary. readRunReplay dec key True runId (store_replay (replay_row_of enc iv key now runId event values targets parent) rows)
      = Some (summary, Some (replay_spec_of event values targets parent)) \<and> rz_replayable summary"
proof -
  let ?spec = "replay_spec_of event values targets parent" and ?row = "replay_row_of enc iv key now runId event values targets parent"
  have given: "key_given key" using assms(4) by (auto simp: key_given_def encryptionKey_def js_trim_def Let_def split: option.splits)
  have "\<exists>stored. encryptReplay enc iv ?spec key = Inr stored" using assms(4) by (simp add: encryptReplay_def seal_def)
  then obtain stored where st: "encryptReplay enc iv ?spec key = Inr stored" ..
  note reads = replay_of_replay_js [OF replay_spec_bounded [OF assms(5-7)]]
  have dec: "decryptReplay dec stored key = Inr ?spec"
    using unseal_seal [OF assms(1-3) conjunct2 [OF reads] st [unfolded encryptReplay_def]] reads by (simp add: decryptReplay_def)
  have row: "ry_encrypted_spec ?row = Some stored" "ry_replayable ?row = 1" "ry_run_id ?row = take 160 runId"
    using assms(8) given st by (simp_all add: replay_row_of_def Let_def)
  have "find (\<lambda>r. ry_run_id r = take 160 runId) (rows @ [?row]) = Some ?row"
    using assms(9) row(3) by (induction rows) auto
  then show ?thesis using assms(9) row dec seal_nonempty [OF st [unfolded encryptReplay_def]]
    by (auto simp: store_replay_def readRunReplay_def summaryFromRow_def Let_def)
qed

text \<open>A process with a field and a password, and a form that leaves the password empty.\<close>

definition sample_form_event :: catalog_event where
  "sample_form_event = plain_event ''e'' [text_field ''name'' TString, text_field ''p'' TPassword]"

definition sample_form :: js where
  "sample_form = JObj [(''name'', JStr ''ann'')]"

lemma sample_form_replay: "replayValues sample_form_event sample_form = ([(''name'', JStr ''ann'')], [])"
  by code_simp

lemma replay_roundtrip_witness:
  "\<exists>summary. readRunReplay sample_decrypt (Some sample_key_text) True ''r''
      (store_replay (replay_row_of sample_encrypt (replicate 12 0) (Some sample_key_text) 0 ''r'' sample_form_event sample_form [] []) [])
      = Some (summary, Some (replay_spec_of sample_form_event sample_form [] [])) \<and> rz_replayable summary"
  by (rule replay_roundtrip [OF sample_cipher _ _ sample_key_bytes])
    (simp_all add: sample_form_replay, simp_all add: bytes_ok_def list_all_iff sample_form_def sample_form_event_def plain_event_def event_schema_def)

definition sample_secret_form :: js where
  "sample_secret_form = JObj [(''name'', JStr ''ann''), (''p'', JStr ''s3cret'')]"

lemma replay_no_secret_witness:
  "\<not> password_given sample_form_event sample_form \<and> password_given sample_form_event sample_secret_form
   \<and> (\<exists>spec. encryptReplay sample_encrypt (replicate 12 0) spec (Some sample_key_text)
          = Inr (the (ry_encrypted_spec (replay_row_of sample_encrypt (replicate 12 0) (Some sample_key_text) 0 ''r'' sample_form_event sample_form [] [])))
        \<and> map_of (rp_values spec) = plain_value sample_form_event sample_form)
   \<and> ry_encrypted_spec (replay_row_of sample_encrypt (replicate 12 0) (Some sample_key_text) 0 ''r'' sample_form_event sample_secret_form [] []) = None"
proof -
  have given: "\<not> password_given sample_form_event sample_form" "password_given sample_form_event sample_secret_form"
    by code_simp+
  have "key_given (Some sample_key_text)" by (simp add: key_given_def sample_key_text_def)
  then obtain stored where st: "ry_encrypted_spec (replay_row_of sample_encrypt (replicate 12 0) (Some sample_key_text) 0 ''r'' sample_form_event sample_form [] []) = Some stored"
    by (simp add: replay_row_of_def sample_form_replay encryptReplay_def seal_def sample_key_bytes)
  from replay_no_secret [of sample_encrypt "replicate 12 0" "Some sample_key_text" 0 "''r''" sample_form_event sample_form "[]" "[]" sample_decrypt]
    replay_no_secret [of sample_encrypt "replicate 12 0" "Some sample_key_text" 0 "''r''" sample_form_event sample_secret_form "[]" "[]" sample_decrypt]
  show ?thesis using given by (simp add: Let_def st) blast
qed

end
