(* ===== verification/ProcessPresentation.thy ===== *)
theory ProcessPresentation
  imports ApprovalPolicies AutomationTypes JsNumber JsSort "HOL-Library.AList"
begin

text \<open>
  How the processes of the catalog are shown, \<open>src/operations/presentation/process-presentation.ts\<close>: the
  sanitiser of an uploaded set of texts and its storage, the locales a reader prefers, and the texts put
  over those of the catalog. Two services of the platform are arguments: \<open>canon\<close> is the first canonical
  locale of a tag, or None where \<open>Intl.getCanonicalLocales\<close> throws; \<open>collate\<close> is \<open>localeCompare\<close>. A
  lookup by process id sees own members only.
\<close>

section \<open>Texts\<close>

definition presentation_text :: "js \<Rightarrow> nat \<Rightarrow> string" where
  "presentation_text v limit = take limit (js_trim (squeeze False
     (map (\<lambda>c. if is_ctrl c then CHR '' '' else c) (to_str (coalesce v (JStr []))))))"

definition is_letter :: "char \<Rightarrow> bool" where
  "is_letter c = (is_upper c \<or> is_lower c)"

definition is_alnum :: "char \<Rightarrow> bool" where
  "is_alnum c = (is_letter c \<or> is_digit c)"

definition process_id_char :: "char \<Rightarrow> bool" where
  "process_id_char c = (is_alnum c \<or> c \<in> set ''_.:@/-'')"

definition processId :: "js \<Rightarrow> string + string" where
  "processId v =
     (let normalized = presentation_text v 240 in
      bindE (guardE (normalized \<noteq> [] \<and> list_all process_id_char normalized) ''Process metadata contains an invalid process ID'') (\<lambda>_.
      Inr normalized))"

definition no_text :: "js \<Rightarrow> bool" where
  "no_text v = (v = JUndef \<or> v = JNull \<or> v = JStr [])"

definition optionalText :: "js \<Rightarrow> nat \<Rightarrow> string option" where
  "optionalText v limit =
     (if no_text v then None else (let t = presentation_text v limit in if t = [] then None else Some t))"

definition iconValue :: "js \<Rightarrow> string + string option" where
  "iconValue v = (case optionalText v 40 of
      None \<Rightarrow> Inr None
    | Some icon \<Rightarrow>
        bindE (guardE (list_all (\<lambda>c. is_alnum c \<or> c = CHR ''_'' \<or> c = CHR ''-'') icon) ''Process icon must be a symbolic key'') (\<lambda>_.
        Inr (Some (js_lower icon))))"

definition orderValue :: "js \<Rightarrow> string + int option" where
  "orderValue v =
     (if no_text v then Inr None
      else (case to_num v of
          Num n \<Rightarrow> if - 100000 \<le> n \<and> n \<le> 100000 then Inr (Some n) else Inl ''Process order must be an integer''
        | _ \<Rightarrow> Inl ''Process order must be an integer''))"

text \<open>\<open>/^[A-Za-z]{2,8}(?:-[A-Za-z0-9]{1,8})*$/\<close>\<close>

definition locale_shape :: "string \<Rightarrow> bool" where
  "locale_shape s = (case js_split (CHR ''-'') s of
      [] \<Rightarrow> False
    | p # ps \<Rightarrow> 2 \<le> length p \<and> length p \<le> 8 \<and> list_all is_letter p
        \<and> list_all (\<lambda>q. 1 \<le> length q \<and> length q \<le> 8 \<and> list_all is_alnum q) ps)"

definition normalizeProcessPresentationLocale :: "(string \<Rightarrow> string option) \<Rightarrow> js \<Rightarrow> string option" where
  "normalizeProcessPresentationLocale canon v =
     (let l = presentation_text v 40 in if l = [] \<or> \<not> locale_shape l then None else canon l)"

section \<open>An uploaded set\<close>

record localized_override =
  lo_title :: "string option"
  lo_description :: "string option"
  lo_category :: "string option"
  lo_help :: "string option"

record process_override =
  po_texts :: localized_override
  po_icon :: "string option"
  po_order :: "int option"
  po_locales :: "(string \<times> localized_override) list"

record presentation_set =
  ps_defaultLocale :: "string option"
  ps_processes :: "(string \<times> process_override) list"

definition nothing_localized :: localized_override where
  "nothing_localized = \<lparr>lo_title = None, lo_description = None, lo_category = None, lo_help = None\<rparr>"

definition localizedOverride :: "js \<Rightarrow> string \<Rightarrow> string + localized_override" where
  "localizedOverride v context =
     bindE (guardE (plain_object v) (context @ '' must be an object'')) (\<lambda>_.
     Inr \<lparr>lo_title = optionalText (jget v ''title'') 240, lo_description = optionalText (jget v ''description'') 1200,
       lo_category = optionalText (jget v ''category'') 120, lo_help = optionalText (jget v ''help'') 4000\<rparr>)"

definition entries_of :: "js \<Rightarrow> (string \<times> js) list" where
  "entries_of v = (case v of JObj ps \<Rightarrow> ps | _ \<Rightarrow> [])"

text \<open>The loop over the locales of one process; the number counts those of the whole set.\<close>

fun read_locales :: "(string \<Rightarrow> string option) \<Rightarrow> string \<Rightarrow> nat \<Rightarrow> (string \<times> localized_override) list \<Rightarrow> (string \<times> js) list
    \<Rightarrow> string + (nat \<times> (string \<times> localized_override) list)" where
  "read_locales canon i n acc [] = Inr (n, acc)"
| "read_locales canon i n acc ((raw, v) # es) =
     (case normalizeProcessPresentationLocale canon (JStr raw) of
        None \<Rightarrow> Inl (''Process metadata locale '' @ raw @ '' for '' @ i @ '' is invalid'')
      | Some l \<Rightarrow>
          bindE (localizedOverride v (''Process metadata locale '' @ l @ '' for '' @ i)) (\<lambda>t.
          bindE (guardE (Suc n \<le> 5000) ''Process metadata supports at most 5000 localized process entries'') (\<lambda>_.
          read_locales canon i (Suc n) (if t = nothing_localized then acc else AList.update l t acc) es)))"

definition process_locales :: "(string \<Rightarrow> string option) \<Rightarrow> string \<Rightarrow> nat \<Rightarrow> js \<Rightarrow> string + (nat \<times> (string \<times> localized_override) list)" where
  "process_locales canon i n v =
     (if v = JUndef then Inr (n, [])
      else
        bindE (guardE (plain_object v) (''Process metadata locales for '' @ i @ '' must be an object'')) (\<lambda>_.
        bindE (guardE (length (entries_of v) \<le> 50) (''Process metadata for '' @ i @ '' supports at most 50 locales'')) (\<lambda>_.
        read_locales canon i n [] (entries_of v))))"

definition empty_override :: "process_override \<Rightarrow> bool" where
  "empty_override p \<longleftrightarrow> po_texts p = nothing_localized \<and> po_icon p = None \<and> po_order p = None \<and> po_locales p = []"

fun read_processes :: "(string \<Rightarrow> string option) \<Rightarrow> nat \<Rightarrow> (string \<times> process_override) list \<Rightarrow> (string \<times> js) list
    \<Rightarrow> string + (string \<times> process_override) list" where
  "read_processes canon n acc [] = Inr acc"
| "read_processes canon n acc ((raw, v) # es) =
     bindE (processId (JStr raw)) (\<lambda>i.
     bindE (guardE (plain_object v) (''Process metadata for '' @ i @ '' must be an object'')) (\<lambda>_.
     bindE (process_locales canon i n (jget v ''locales'')) (\<lambda>(n', locales).
     bindE (localizedOverride v (''Process metadata for '' @ i)) (\<lambda>t.
     bindE (iconValue (jget v ''icon'')) (\<lambda>icon.
     bindE (orderValue (jget v ''order'')) (\<lambda>order.
     (let p = \<lparr>po_texts = t, po_icon = icon, po_order = order, po_locales = locales\<rparr> in
      read_processes canon n' (if empty_override p then acc else AList.update i p acc) es)))))))"

definition sanitizeProcessPresentationSet :: "(string \<Rightarrow> string option) \<Rightarrow> js \<Rightarrow> string + presentation_set" where
  "sanitizeProcessPresentationSet canon v =
     bindE (guardE (plain_object v) ''Process metadata must be an object'') (\<lambda>_.
     bindE (guardE (jget v ''version'' = JInt 1) ''Process metadata version must be 1'') (\<lambda>_.
     bindE (guardE (plain_object (jget v ''processes'')) ''Process metadata processes must be an object'') (\<lambda>_.
     bindE (guardE (length (entries_of (jget v ''processes'')) \<le> 500) ''Process metadata supports at most 500 processes'') (\<lambda>_.
     (let d = jget v ''defaultLocale'';
          defaultLocale = (if d = JUndef then None else normalizeProcessPresentationLocale canon d) in
      bindE (guardE (d = JUndef \<or> defaultLocale \<noteq> None) ''Process metadata defaultLocale must be a valid BCP 47 locale'') (\<lambda>_.
      bindE (read_processes canon 0 [] (entries_of (jget v ''processes''))) (\<lambda>processes.
      Inr \<lparr>ps_defaultLocale = defaultLocale, ps_processes = processes\<rparr>)))))))"

section \<open>Storage\<close>

definition empty_presentation :: presentation_set where
  "empty_presentation = \<lparr>ps_defaultLocale = None, ps_processes = []\<rparr>"

definition text_js :: "string \<Rightarrow> string option \<Rightarrow> (string \<times> js) list" where
  "text_js k t = (case t of None \<Rightarrow> [] | Some s \<Rightarrow> [(k, JStr s)])"

definition localized_js :: "localized_override \<Rightarrow> (string \<times> js) list" where
  "localized_js t = text_js ''title'' (lo_title t) @ text_js ''description'' (lo_description t)
     @ text_js ''category'' (lo_category t) @ text_js ''help'' (lo_help t)"

definition override_js :: "process_override \<Rightarrow> js" where
  "override_js p = JObj (localized_js (po_texts p) @ text_js ''icon'' (po_icon p)
     @ (case po_order p of None \<Rightarrow> [] | Some n \<Rightarrow> [(''order'', JInt n)])
     @ (if po_locales p = [] then [] else [(''locales'', JObj (map (\<lambda>(l, t). (l, JObj (localized_js t))) (po_locales p)))]))"

definition presentation_js :: "presentation_set \<Rightarrow> js" where
  "presentation_js s = JObj ([(''version'', JInt 1)] @ text_js ''defaultLocale'' (ps_defaultLocale s)
     @ [(''processes'', JObj (map (\<lambda>(i, p). (i, override_js p)) (ps_processes s)))])"

definition parse_presentation :: "(string \<Rightarrow> string option) \<Rightarrow> string \<Rightarrow> presentation_set option" where
  "parse_presentation canon t = (case json_parse t of
      None \<Rightarrow> None
    | Some v \<Rightarrow> (case sanitizeProcessPresentationSet canon v of Inl _ \<Rightarrow> None | Inr s \<Rightarrow> Some s))"

definition envMetadata :: "(string \<Rightarrow> string option) \<Rightarrow> string option \<Rightarrow> presentation_set option" where
  "envMetadata canon v = (case v of None \<Rightarrow> None | Some t \<Rightarrow> if t = [] then None else parse_presentation canon t)"

definition readProcessPresentationSet ::
  "(string \<Rightarrow> string option) \<Rightarrow> bool \<Rightarrow> string option \<Rightarrow> (presentation_set \<times> policy_source \<times> int option) policy_eff" where
  "readProcessPresentationSet canon hasDB env =
     bindM (if hasDB then d1_read PolicyStorage id else returnM None) (\<lambda>row.
     (let otherwise = (case envMetadata canon env of
          Some s \<Rightarrow> (s, FromEnvironment, None) | None \<Rightarrow> (empty_presentation, FromDefault, None))
      in returnM (case row of
          None \<Rightarrow> otherwise
        | Some (t, updated) \<Rightarrow> (case parse_presentation canon t of Some s \<Rightarrow> (s, FromDatabase, Some updated) | None \<Rightarrow> otherwise))))"

definition saveProcessPresentationSet ::
  "(string \<Rightarrow> string option) \<Rightarrow> bool \<Rightarrow> js \<Rightarrow> int \<Rightarrow> (presentation_set \<times> policy_source \<times> int option) policy_eff" where
  "saveProcessPresentationSet canon hasDB v now =
     bindM (requireM hasDB (PolicyError ''Persistent database is unavailable'')) (\<lambda>_.
     bindM (liftM (case sanitizeProcessPresentationSet canon v of Inl m \<Rightarrow> Inl (PolicyError m) | Inr s \<Rightarrow> Inr s)) (\<lambda>s.
     bindM (d1_call PolicyStorage (\<lambda>t. ((), Some (json_print (presentation_js s), now)))) (\<lambda>_.
     returnM (s, FromDatabase, Some now))))"

section \<open>Locales\<close>

definition opt_js :: "string option \<Rightarrow> js" where
  "opt_js v = (case v of None \<Rightarrow> JUndef | Some s \<Rightarrow> JStr s)"

definition localeChain :: "(string \<Rightarrow> string option) \<Rightarrow> js \<Rightarrow> string list" where
  "localeChain canon v = (case normalizeProcessPresentationLocale canon v of
      None \<Rightarrow> []
    | Some l \<Rightarrow> (let parts = js_split (CHR ''-'') l in
        map (\<lambda>n. js_join ''-'' (take (Suc n) parts)) [0..<length parts]))"

record locale_preference =
  lp_locale :: string
  lp_quality :: jsnum
  lp_order :: int

definition quality_parameter :: "string list \<Rightarrow> string option" where
  "quality_parameter ps = find (\<lambda>p. starts_with ''q='' p \<or> starts_with ''Q='' p) (map js_trim ps)"

definition accepted_locale :: "(string \<Rightarrow> string option) \<Rightarrow> nat \<Rightarrow> string \<Rightarrow> locale_preference option" where
  "accepted_locale canon n entry =
     (case js_split (CHR '';'') (js_trim entry) of
        [] \<Rightarrow> None
      | raw # parameters \<Rightarrow>
          if raw = [] \<or> raw = ''*'' then None
          else (case normalizeProcessPresentationLocale canon (JStr raw) of
              None \<Rightarrow> None
            | Some l \<Rightarrow>
                (let quality = (case quality_parameter parameters of Some q \<Rightarrow> str_to_num (drop 2 q) | None \<Rightarrow> Num 1) in
                 if quality = NaN \<or> num_le quality (Num 0) \<or> \<not> num_le quality (Num 1) then None
                 else Some \<lparr>lp_locale = l, lp_quality = quality, lp_order = int n\<rparr>)))"

definition preference_cmp :: "locale_preference \<Rightarrow> locale_preference \<Rightarrow> int" where
  "preference_cmp a b = (let q = num_cmp (lp_quality b) (lp_quality a) in if q \<noteq> 0 then q else lp_order a - lp_order b)"

definition header_locales :: "(string \<Rightarrow> string option) \<Rightarrow> js \<Rightarrow> locale_preference list" where
  "header_locales canon acceptLanguage =
     (let entries = take 30 (js_split (CHR '','') (take 1000 (to_str (coalesce acceptLanguage (JStr []))))) in
      List.map_filter (\<lambda>(n, entry). accepted_locale canon n entry) (zip [0..<length entries] entries))"

definition presentationLocalePreferences :: "(string \<Rightarrow> string option) \<Rightarrow> js \<Rightarrow> js \<Rightarrow> string list" where
  "presentationLocalePreferences canon explicitLocale acceptLanguage =
     (let explicit = (case normalizeProcessPresentationLocale canon explicitLocale of
          None \<Rightarrow> [] | Some l \<Rightarrow> [\<lparr>lp_locale = l, lp_quality = Num 2, lp_order = - 1\<rparr>])
      in take 12 (uniq (map lp_locale (js_sort preference_cmp (explicit @ header_locales canon acceptLanguage)))))"

definition availableProcessPresentationLocales :: "(string \<Rightarrow> string option) \<Rightarrow> (string \<Rightarrow> string \<Rightarrow> int) \<Rightarrow> presentation_set \<Rightarrow> string list" where
  "availableProcessPresentationLocales canon collate s =
     js_sort collate (uniq (List.map_filter id
       (normalizeProcessPresentationLocale canon (opt_js (ps_defaultLocale s))
        # concat (map (\<lambda>(i, p). map (\<lambda>(l, t). normalizeProcessPresentationLocale canon (JStr l)) (po_locales p)) (ps_processes s)))))"

text \<open>The two loops from the end of a chain to its start.\<close>

definition last_available :: "string list \<Rightarrow> string list \<Rightarrow> string option" where
  "last_available available chain = find (\<lambda>l. l \<in> set available) (rev chain)"

fun first_preference :: "(string \<Rightarrow> string option) \<Rightarrow> string list \<Rightarrow> string list \<Rightarrow> string option" where
  "first_preference canon available [] = None"
| "first_preference canon available (p # ps) = (case last_available available (localeChain canon (JStr p)) of
      Some l \<Rightarrow> Some l | None \<Rightarrow> first_preference canon available ps)"

definition resolveProcessPresentationLocale ::
  "(string \<Rightarrow> string option) \<Rightarrow> (string \<Rightarrow> string \<Rightarrow> int) \<Rightarrow> presentation_set \<Rightarrow> string list \<Rightarrow> string option" where
  "resolveProcessPresentationLocale canon collate s preferences =
     (let available = availableProcessPresentationLocales canon collate s in
      case first_preference canon available preferences of
        Some l \<Rightarrow> Some l
      | None \<Rightarrow> last_available available (localeChain canon (opt_js (ps_defaultLocale s))))"

section \<open>The shown catalog\<close>

definition over :: "'a option \<Rightarrow> 'a option \<Rightarrow> 'a option" where
  "over new old = (case new of Some x \<Rightarrow> Some x | None \<Rightarrow> old)"

definition mergeLocalized :: "localized_override \<Rightarrow> localized_override option \<Rightarrow> localized_override" where
  "mergeLocalized t source = (case source of
      None \<Rightarrow> t
    | Some u \<Rightarrow> \<lparr>lo_title = over (lo_title u) (lo_title t), lo_description = over (lo_description u) (lo_description t),
        lo_category = over (lo_category u) (lo_category t), lo_help = over (lo_help u) (lo_help t)\<rparr>)"

definition text_or :: "string option \<Rightarrow> string option \<Rightarrow> string \<Rightarrow> string" where
  "text_or a b c = (case over a b of Some s \<Rightarrow> s | None \<Rightarrow> c)"

definition present_event ::
  "(string \<Rightarrow> string option) \<Rightarrow> presentation_set \<Rightarrow> string option \<Rightarrow> catalog_event \<Rightarrow> catalog_event" where
  "present_event canon s resolved e = (case map_of (ps_processes s) (ce_id e) of
      None \<Rightarrow> e
    | Some p \<Rightarrow>
        (let chain = localeChain canon (opt_js (ps_defaultLocale s)) @ (case resolved of None \<Rightarrow> [] | Some l \<Rightarrow> if l = [] then [] else localeChain canon (JStr l));
             t = foldl mergeLocalized nothing_localized (map (map_of (po_locales p)) chain)
         in e\<lparr>ce_title := text_or (lo_title t) (lo_title (po_texts p)) (ce_title e),
              ce_description := text_or (lo_description t) (lo_description (po_texts p)) (ce_description e),
              ce_category := text_or (lo_category t) (lo_category (po_texts p)) (ce_category e),
              ce_icon := over (po_icon p) (ce_icon e),
              ce_order := over (map_option Num (po_order p)) (ce_order e),
              ce_help := over (over (lo_help t) (lo_help (po_texts p))) (ce_help e),
              ce_presentationLocale := resolved,
              ce_presentationOverridden := Some (\<not> empty_override p)\<rparr>))"

definition order_of :: "catalog_event \<Rightarrow> jsnum" where
  "order_of e = (case ce_order e of None \<Rightarrow> Num 0 | Some n \<Rightarrow> n)"

definition event_label :: "catalog_event \<Rightarrow> string" where
  "event_label e = ce_category e @ [CHR 0x00] @ ce_title e @ [CHR 0x00] @ ce_id e"

definition event_cmp :: "(string \<Rightarrow> string \<Rightarrow> int) \<Rightarrow> catalog_event \<Rightarrow> catalog_event \<Rightarrow> int" where
  "event_cmp collate a b =
     (let n = (if order_of a = NaN \<or> order_of b = NaN then 0 else num_cmp (order_of a) (order_of b)) in
      if n \<noteq> 0 then n else collate (event_label a) (event_label b))"

definition applyProcessPresentation ::
  "(string \<Rightarrow> string option) \<Rightarrow> (string \<Rightarrow> string \<Rightarrow> int) \<Rightarrow> catalog_event list \<Rightarrow> presentation_set \<Rightarrow> string list \<Rightarrow> catalog_event list" where
  "applyProcessPresentation canon collate events s preferences =
     js_sort (event_cmp collate) (map (present_event canon s (resolveProcessPresentationLocale canon collate s preferences)) events)"

section \<open>Presentation changes nothing that is launched\<close>

text \<open>What visibility, approval and launch read of a process, except its category.\<close>

definition governing :: "catalog_event \<Rightarrow> string \<times> string option \<times> process_kind \<times> bool \<times> string option \<times> route_field list
    \<times> string list \<times> bool \<times> string option" where
  "governing e = (ce_id e, ce_operation e, ce_kind e, ce_enabled e, ce_plugin e, ce_fields e, ce_targets e, ce_dangerous e, ce_schemaVersion e)"

lemma governing_present [simp]: "governing (present_event canon s r e) = governing e"
  by (auto simp: present_event_def governing_def Let_def split: option.splits)

text \<open>Whatever texts, locales and orders an administrator has uploaded and a reader asks for, the shown
  catalog is a rearrangement of the catalog itself: every process keeps its id, operation, kind, fields,
  targets, its danger mark and its schema version, none is lost and none appears twice.\<close>

lemma presentation_governing:
  "image_mset governing (mset (applyProcessPresentation canon collate events s preferences)) = image_mset governing (mset events)"
proof -
  have "map governing (map (present_event canon s r) events) = map governing events" for r by simp
  then show ?thesis by (simp only: applyProcessPresentation_def mset_js_sort mset_map [symmetric])
qed

section \<open>The locale a reader asked for\<close>

lemma insert_by_front: "(\<And>y. y \<in> set ys \<Longrightarrow> cmp x y \<le> 0) \<Longrightarrow> insert_by cmp x ys = x # ys"
  by (cases ys) auto

lemma header_quality: "p \<in> set (header_locales canon a) \<Longrightarrow> num_le (lp_quality p) (Num 1)"
  by (auto simp: header_locales_def Let_def map_filter_def accepted_locale_def split: list.splits option.splits if_splits)

lemma below_two: "num_le q (Num 1) \<Longrightarrow> num_cmp q (Num 2) = - 1"
proof -
  assume a: "num_le q (Num 1)"
  obtain m k where q: "num_parts q = (m, k)" by (cases "num_parts q")
  have "m \<le> 10 ^ k" using a q by (simp add: num_le_def num_cmp_def sgn_if split: if_splits)
  moreover have "(0::int) < 10 ^ k" by simp
  ultimately have "m < 2 * 10 ^ k" by linarith
  then show ?thesis using q by (simp add: num_cmp_def)
qed

lemma explicit_first:
  assumes "normalizeProcessPresentationLocale canon explicit = Some l"
  shows "\<exists>ps. presentationLocalePreferences canon explicit header = l # ps"
proof -
  let ?e = "\<lparr>lp_locale = l, lp_quality = Num 2, lp_order = - 1\<rparr>"
  let ?hs = "js_sort preference_cmp (header_locales canon header)"
  have "preference_cmp ?e y \<le> 0" if "y \<in> set ?hs" for y
  proof -
    from that have "y \<in> set (header_locales canon header)" by simp
    from below_two [OF header_quality [OF this]] show ?thesis by (simp add: preference_cmp_def)
  qed
  then have "insert_by preference_cmp ?e ?hs = ?e # ?hs" by (intro insert_by_front)
  then have "js_sort preference_cmp (?e # header_locales canon header) = ?e # ?hs" by simp
  with assms show ?thesis by (simp add: presentationLocalePreferences_def numeral_eq_Suc)
qed

text \<open>The locale a reader names explicitly wins over every Accept-Language header: when the most specific
  available locale of its chain is r, the catalog is shown in r. It is also the longest prefix of the
  named locale for which there are texts.\<close>

lemma explicit_locale_wins:
  assumes "normalizeProcessPresentationLocale canon explicit = Some l"
    and "r \<in> set (localeChain canon (JStr l))" "r \<in> set (availableProcessPresentationLocales canon collate s)"
  shows "\<exists>r'. resolveProcessPresentationLocale canon collate s (presentationLocalePreferences canon explicit header) = Some r'
    \<and> r' \<in> set (localeChain canon (JStr l)) \<and> r' \<in> set (availableProcessPresentationLocales canon collate s)
    \<and> (\<exists>before after. localeChain canon (JStr l) = before @ r' # after
        \<and> set after \<inter> set (availableProcessPresentationLocales canon collate s) = {})"
proof -
  let ?av = "availableProcessPresentationLocales canon collate s" and ?chain = "localeChain canon (JStr l)"
  from explicit_first [OF assms(1)] obtain ps where ps: "presentationLocalePreferences canon explicit header = l # ps" by blast
  have "\<exists>x. last_available ?av ?chain = Some x"
    using assms(2,3) by (cases "last_available ?av ?chain") (auto simp: last_available_def find_None_iff)
  then obtain r' where r': "last_available ?av ?chain = Some r'" by blast
  then obtain i where i: "i < length (rev ?chain)" "rev ?chain ! i \<in> set ?av" "r' = rev ?chain ! i" "\<forall>j<i. rev ?chain ! j \<notin> set ?av"
    by (auto simp: last_available_def find_Some_iff)
  have split: "rev ?chain = take i (rev ?chain) @ r' # drop (Suc i) (rev ?chain)"
    using id_take_nth_drop [OF i(1)] i(3) by simp
  have none: "set (take i (rev ?chain)) \<inter> set ?av = {}" using i(1,4) by (auto simp: in_set_conv_nth)
  have "?chain = rev (drop (Suc i) (rev ?chain)) @ r' # rev (take i (rev ?chain))"
    using arg_cong [OF split, of rev] by simp
  with none have "\<exists>before after. ?chain = before @ r' # after \<and> set after \<inter> set ?av = {}" by (metis set_rev)
  moreover have "resolveProcessPresentationLocale canon collate s (presentationLocalePreferences canon explicit header) = Some r'"
    using r' ps by (simp add: resolveProcessPresentationLocale_def Let_def)
  moreover have "r' \<in> set ?chain" "r' \<in> set ?av" using i by (metis nth_mem set_rev) (use i in simp)
  ultimately show ?thesis by blast
qed

definition sample_presentation :: presentation_set where
  "sample_presentation = \<lparr>ps_defaultLocale = Some ''ru'', ps_processes = []\<rparr>"

lemma explicit_locale_wins_witness:
  "\<exists>r'. resolveProcessPresentationLocale Some (\<lambda>_ _. 0) sample_presentation
     (presentationLocalePreferences Some (JStr ''ru-RU'') (JStr ''en'')) = Some r' \<and> r' \<in> set (localeChain Some (JStr ''ru-RU''))"
proof -
  have "normalizeProcessPresentationLocale Some (JStr ''ru-RU'') = Some ''ru-RU''" by code_simp
  moreover have "''ru'' \<in> set (localeChain Some (JStr ''ru-RU''))" by code_simp
  moreover have "''ru'' \<in> set (availableProcessPresentationLocales Some (\<lambda>_ _. 0) sample_presentation)" by code_simp
  ultimately show ?thesis using explicit_locale_wins [of Some "JStr ''ru-RU''" "''ru-RU''" "''ru''" "\<lambda>_ _. 0" sample_presentation "JStr ''en''"]
    by blast
qed

end
