(* ===== verification/ApprovalGates.thy ===== *)
theory ApprovalGates
  imports ApprovalSpec Database
begin

text \<open>
  The approval requests themselves, last part of \<open>src/operations/approvals/approval-gates.ts\<close>: the two
  tables, the projection shown to a subject and every operation, over a database whose calls interleave
  with those of other requests. A column is a value of its declared type; texts that hold JSON are
  texts. The clock is a function from the number of the reading to its value, because an operation reads
  it several times.
\<close>

section \<open>Tables\<close>

record approval_row =
  aw_id :: string
  aw_event_id :: string
  aw_title :: string
  aw_category :: string
  aw_schema_version :: string
  aw_requester_identity :: string
  aw_requester_role :: string
  aw_requester_groups_json :: string
  aw_status :: string
  aw_required_approvals :: int
  aw_approver_roles_json :: string
  aw_approver_groups_json :: string
  aw_requester_cannot_approve :: int
  aw_rule_id :: string
  aw_summary_json :: string
  aw_encrypted_spec :: string
  aw_request_fingerprint :: string
  aw_expires_at :: int
  aw_created_at :: int
  aw_updated_at :: int
  aw_approved_at :: "int option"
  aw_executed_at :: "int option"
  aw_run_id :: "string option"
  aw_parent_run_id :: "string option"
  aw_error :: "string option"

record decision_row =
  dr_approval_id :: string
  dr_identity :: string
  dr_role :: string
  dr_decision :: string
  dr_comment :: "string option"
  dr_decided_at :: int

record approval_tables =
  at_rows :: "approval_row list"
  at_decisions :: "decision_row list"

type_synonym 'a approval_eff = "(approval_tables database, approval_error, 'a) eff"

record approval_env =
  ae_hasDB :: bool
  ae_key :: "string option"

datatype approval_status =
  Pending | Approved | Rejected | Cancelled | Expired | Executing | Executed | Failed | UnknownStatus

datatype approval_decision = Approve | Reject

definition statusValue :: "string \<Rightarrow> approval_status" where
  "statusValue s =
     (if s = ''pending'' then Pending else if s = ''approved'' then Approved else if s = ''rejected'' then Rejected
      else if s = ''cancelled'' then Cancelled else if s = ''expired'' then Expired else if s = ''executing'' then Executing
      else if s = ''executed'' then Executed else if s = ''failed'' then Failed else UnknownStatus)"

definition decision_name :: "approval_decision \<Rightarrow> string" where
  "decision_name d = (case d of Approve \<Rightarrow> ''approve'' | Reject \<Rightarrow> ''reject'')"

definition roleValue :: "string \<Rightarrow> portal_role" where
  "roleValue s = (case parse_role s of Some r \<Rightarrow> r | None \<Rightarrow> Viewer)"

definition parseJsonArray :: "string \<Rightarrow> js list" where
  "parseJsonArray s = (case json_parse s of Some (JArr xs) \<Rightarrow> xs | _ \<Rightarrow> [])"

text \<open>\<open>group.toLowerCase()\<close> throws on a value that is no text.\<close>

fun lower_all :: "js list \<Rightarrow> approval_error + string list" where
  "lower_all [] = Inr []"
| "lower_all (x # xs) = (case x of
      JStr s \<Rightarrow> bindE (lower_all xs) (\<lambda>ys. Inr (js_lower s # ys))
    | _ \<Rightarrow> Inl TypeFailure)"

definition isEligibleApprover :: "approval_row \<Rightarrow> policy_subject \<Rightarrow> approval_error + bool" where
  "isEligibleApprover row s =
     (if aw_requester_cannot_approve row = 1 \<and> js_lower (aw_requester_identity row) = js_lower (su_identity s) then Inr False
      else bindE (lower_all (parseJsonArray (aw_approver_groups_json row))) (\<lambda>groups.
        Inr (JStr (role_name (su_role s)) \<in> set (parseJsonArray (aw_approver_roles_json row))
             \<or> list_ex (\<lambda>g. js_lower g \<in> set groups) (su_groups s))))"

section \<open>What a subject sees\<close>

record public_decision =
  pd_identity :: string
  pd_role :: portal_role
  pd_decision :: approval_decision
  pd_comment :: string
  pd_decidedAt :: int

record public_approval =
  pa_id :: string
  pa_eventId :: string
  pa_title :: string
  pa_category :: string
  pa_schemaVersion :: string
  pa_requesterIdentity :: string
  pa_requesterRole :: portal_role
  pa_status :: approval_status
  pa_requiredApprovals :: int
  pa_approvals :: nat
  pa_rejections :: nat
  pa_approverRoles :: "js list"
  pa_approverGroups :: "js list"
  pa_requesterCannotApprove :: bool
  pa_summary :: js
  pa_expiresAt :: int
  pa_createdAt :: int
  pa_updatedAt :: int
  pa_approvedAt :: "int option"
  pa_executedAt :: "int option"
  pa_runId :: string
  pa_parentRunId :: string
  pa_error :: string
  pa_myDecision :: "approval_decision option"
  pa_canApprove :: bool
  pa_canReject :: bool
  pa_canCancel :: bool
  pa_canExecute :: bool

type_synonym decision_map = "string \<Rightarrow> public_decision list"

definition text_or_empty :: "string option \<Rightarrow> string" where
  "text_or_empty v = (case v of None \<Rightarrow> [] | Some s \<Rightarrow> s)"

definition public_decision_of :: "decision_row \<Rightarrow> public_decision" where
  "public_decision_of d = \<lparr>pd_identity = dr_identity d, pd_role = roleValue (dr_role d),
     pd_decision = (if dr_decision d = ''reject'' then Reject else Approve), pd_comment = text_or_empty (dr_comment d),
     pd_decidedAt = dr_decided_at d\<rparr>"

definition decisionsFor :: "approval_env \<Rightarrow> string list \<Rightarrow> decision_map approval_eff" where
  "decisionsFor env approvalIds =
     (if \<not> ae_hasDB env \<or> approvalIds = [] then returnM (\<lambda>_. [])
      else (let ids = take 200 (filter (\<lambda>i. i \<noteq> []) approvalIds) in
        d1_read DatabaseFailure (\<lambda>t. \<lambda>i. map public_decision_of
          (filter (\<lambda>d. dr_approval_id d = i)
            (js_sort (\<lambda>a b. dr_decided_at a - dr_decided_at b) (filter (\<lambda>d. dr_approval_id d \<in> set ids) (at_decisions t)))))))"

definition default_summary :: approval_summary where
  "default_summary = \<lparr>sm_subject = ''-'', sm_targets = [], sm_values = [], sm_hiddenSecrets = 0, sm_secretFields = []\<rparr>"

definition public_view :: "approval_row \<Rightarrow> policy_subject \<Rightarrow> public_decision list \<Rightarrow> bool \<Rightarrow> public_approval" where
  "public_view row s ds eligible =
     (let status = statusValue (aw_status row);
          mine = map_option pd_decision (find (\<lambda>d. js_lower (pd_identity d) = js_lower (su_identity s)) ds);
          requester = (js_lower (aw_requester_identity row) = js_lower (su_identity s));
          open_for_me = (status = Pending \<and> eligible \<and> mine = None)
      in \<lparr>pa_id = aw_id row, pa_eventId = aw_event_id row, pa_title = aw_title row, pa_category = aw_category row,
           pa_schemaVersion = aw_schema_version row, pa_requesterIdentity = aw_requester_identity row,
           pa_requesterRole = roleValue (aw_requester_role row), pa_status = status,
           pa_requiredApprovals = aw_required_approvals row,
           pa_approvals = length (filter (\<lambda>d. pd_decision d = Approve) ds),
           pa_rejections = length (filter (\<lambda>d. pd_decision d = Reject) ds),
           pa_approverRoles = parseJsonArray (aw_approver_roles_json row),
           pa_approverGroups = parseJsonArray (aw_approver_groups_json row),
           pa_requesterCannotApprove = (aw_requester_cannot_approve row = 1),
           pa_summary = (case json_parse (aw_summary_json row) of Some v \<Rightarrow> v | None \<Rightarrow> summary_js default_summary),
           pa_expiresAt = aw_expires_at row, pa_createdAt = aw_created_at row, pa_updatedAt = aw_updated_at row,
           pa_approvedAt = aw_approved_at row, pa_executedAt = aw_executed_at row,
           pa_runId = text_or_empty (aw_run_id row), pa_parentRunId = text_or_empty (aw_parent_run_id row),
           pa_error = text_or_empty (aw_error row), pa_myDecision = mine,
           pa_canApprove = open_for_me, pa_canReject = open_for_me,
           pa_canCancel = (requester \<and> (status = Pending \<or> status = Approved)),
           pa_canExecute = (requester \<and> status = Approved)\<rparr>)"

definition publicFromRow :: "approval_env \<Rightarrow> approval_row \<Rightarrow> policy_subject \<Rightarrow> decision_map option \<Rightarrow> public_approval approval_eff" where
  "publicFromRow env row s decisions =
     bindM (case decisions of Some m \<Rightarrow> returnM m | None \<Rightarrow> decisionsFor env [aw_id row]) (\<lambda>m.
     bindM (liftM (isEligibleApprover row s)) (\<lambda>eligible.
     returnM (public_view row s (m (aw_id row)) eligible)))"

section \<open>Statements\<close>

definition update_rows :: "(approval_row \<Rightarrow> bool) \<Rightarrow> (approval_row \<Rightarrow> approval_row) \<Rightarrow> approval_tables \<Rightarrow> js \<times> approval_tables" where
  "update_rows P f t = (d1_result (int (length (filter P (at_rows t)))),
     t\<lparr>at_rows := map (\<lambda>r. if P r then f r else r) (at_rows t)\<rparr>)"

definition expire_rows :: "int \<Rightarrow> approval_tables \<Rightarrow> js \<times> approval_tables" where
  "expire_rows now = update_rows (\<lambda>r. aw_status r \<in> {''pending'', ''approved''} \<and> aw_expires_at r \<le> now)
     (\<lambda>r. r\<lparr>aw_status := ''expired'', aw_updated_at := now\<rparr>)"

definition expireApprovals :: "approval_env \<Rightarrow> int \<Rightarrow> unit approval_eff" where
  "expireApprovals env now =
     (if \<not> ae_hasDB env then returnM () else bindM (d1_call DatabaseFailure (expire_rows now)) (\<lambda>_. returnM ()))"

definition find_row :: "string \<Rightarrow> approval_tables \<Rightarrow> approval_row option" where
  "find_row i t = find (\<lambda>r. aw_id r = i) (at_rows t)"

definition approval_readRow :: "approval_env \<Rightarrow> string \<Rightarrow> int \<Rightarrow> approval_row option approval_eff" where
  "approval_readRow env i now =
     (if \<not> ae_hasDB env then returnM None
      else bindM (expireApprovals env now) (\<lambda>_. d1_read DatabaseFailure (find_row (take 160 i))))"

definition requireRow :: "approval_error \<Rightarrow> approval_row option \<Rightarrow> approval_row approval_eff" where
  "requireRow e row = (case row of None \<Rightarrow> throwM e | Some r \<Rightarrow> returnM r)"

text \<open>An insert fails, without any effect, when its key is taken.\<close>

definition d1_insert :: "approval_error \<Rightarrow> (approval_tables \<Rightarrow> bool) \<Rightarrow> (approval_tables \<Rightarrow> approval_tables) \<Rightarrow> unit approval_eff" where
  "d1_insert e taken ins =
     bindM (d1_call e (\<lambda>t. if taken t then (False, t) else (True, ins t))) (\<lambda>ok. requireM ok e)"

section \<open>Operations\<close>

definition non_empty :: "string \<Rightarrow> string option" where
  "non_empty s = (if s = [] then None else Some s)"

definition new_row ::
  "string \<Rightarrow> catalog_event \<Rightarrow> policy_subject \<Rightarrow> requirement \<Rightarrow> approval_spec \<times> approval_summary \<Rightarrow> string \<Rightarrow> string \<Rightarrow> int \<Rightarrow> string \<Rightarrow> approval_row" where
  "new_row i event s q prepared encrypted print now parentRunId =
     \<lparr>aw_id = i, aw_event_id = take 240 (ce_id event), aw_title = approval_cleanText (JStr (ce_title event)) 240,
       aw_category = approval_cleanText (JStr (ce_category event)) 160,
       aw_schema_version = take 80 (event_schema event), aw_requester_identity = take 160 (su_identity s),
       aw_requester_role = role_name (su_role s), aw_requester_groups_json = json_print (strings_js (take 100 (su_groups s))),
       aw_status = ''pending'', aw_required_approvals = ar_requiredApprovals q,
       aw_approver_roles_json = json_print (strings_js (map role_name (ar_approverRoles q))),
       aw_approver_groups_json = json_print (strings_js (ar_approverGroups q)),
       aw_requester_cannot_approve = (if ar_requesterCannotApprove q then 1 else 0),
       aw_rule_id = take 120 (ar_ruleId q), aw_summary_json = json_print (summary_js (snd prepared)),
       aw_encrypted_spec = encrypted, aw_request_fingerprint = print,
       aw_expires_at = now + ar_expiresMinutes q * 60000, aw_created_at = now, aw_updated_at = now,
       aw_approved_at = None, aw_executed_at = None, aw_run_id = None,
       aw_parent_run_id = non_empty (take 160 parentRunId), aw_error = None\<rparr>"

definition createApprovalRequest ::
  "encrypt \<Rightarrow> (string \<Rightarrow> string) \<Rightarrow> nat list \<Rightarrow> string \<Rightarrow> (nat \<Rightarrow> int) \<Rightarrow> approval_env \<Rightarrow> catalog_event \<Rightarrow> policy_subject
     \<Rightarrow> js \<Rightarrow> string list \<Rightarrow> requirement \<Rightarrow> string \<Rightarrow> public_approval approval_eff" where
  "createApprovalRequest enc sha iv uuid clock env event s values targets q parentRunId =
     bindM (requireM (ae_hasDB env \<and> ae_key env \<noteq> None \<and> ae_key env \<noteq> Some [])
              (Message ''Approval gates require D1 and CONFIG_ENCRYPTION_KEY'')) (\<lambda>_.
     (let prepared = approvalSpec event values targets parentRunId in
      bindM (liftM (encryptSpec enc iv (fst prepared) (ae_key env))) (\<lambda>encrypted.
      bindM (d1_insert DatabaseFailure (\<lambda>t. find_row uuid t \<noteq> None)
               (\<lambda>t. t\<lparr>at_rows := at_rows t @ [new_row uuid event s q prepared encrypted (fingerprint sha (fst prepared)) (clock 0) parentRunId]\<rparr>)) (\<lambda>_.
      bindM (approval_readRow env uuid (clock 1)) (\<lambda>found.
      bindM (requireRow (Message ''Approval request was not persisted'') found) (\<lambda>row.
      publicFromRow env row s None))))))"

definition insertDecision :: "approval_env \<Rightarrow> string \<Rightarrow> policy_subject \<Rightarrow> approval_decision \<Rightarrow> string \<Rightarrow> int \<Rightarrow> unit approval_eff" where
  "insertDecision env i s decision comment now =
     bindM (requireM (ae_hasDB env) (Message ''Persistent database is unavailable'')) (\<lambda>_.
     d1_insert AlreadyDecided
       (\<lambda>t. \<exists>d \<in> set (at_decisions t). dr_approval_id d = i \<and> dr_identity d = take 160 (su_identity s))
       (\<lambda>t. t\<lparr>at_decisions := at_decisions t @ [\<lparr>dr_approval_id = i, dr_identity = take 160 (su_identity s),
          dr_role = role_name (su_role s), dr_decision = decision_name decision,
          dr_comment = non_empty (approval_cleanText (JStr comment) 500), dr_decided_at = now\<rparr>]\<rparr>))"

definition count_approvals :: "string \<Rightarrow> approval_tables \<Rightarrow> nat" where
  "count_approvals i t = length (filter (\<lambda>d. dr_approval_id d = i \<and> dr_decision d = ''approve'') (at_decisions t))"

definition decideApproval ::
  "(nat \<Rightarrow> int) \<Rightarrow> approval_env \<Rightarrow> string \<Rightarrow> policy_subject \<Rightarrow> approval_decision \<Rightarrow> string \<Rightarrow> public_approval approval_eff" where
  "decideApproval clock env i s decision comment =
     bindM (requireM (ae_hasDB env) (Message ''Persistent database is unavailable'')) (\<lambda>_.
     bindM (approval_readRow env i (clock 0)) (\<lambda>found.
     bindM (requireRow NotFound found) (\<lambda>row.
     bindM (requireM (statusValue (aw_status row) = Pending) NotPending) (\<lambda>_.
     bindM (liftM (isEligibleApprover row s)) (\<lambda>eligible.
     bindM (requireM eligible NotEligible) (\<lambda>_.
     bindM (requireM (\<not> (decision = Reject \<and> approval_cleanText (JStr comment) 500 = [])) CommentRequired) (\<lambda>_.
     bindM (insertDecision env i s decision comment (clock 1)) (\<lambda>_.
     (let now = clock 2 in
      bindM (case decision of
          Reject \<Rightarrow>
            bindM (d1_call DatabaseFailure (update_rows (\<lambda>r. aw_id r = i \<and> aw_status r = ''pending'')
              (\<lambda>r. r\<lparr>aw_status := ''rejected'', aw_updated_at := now, aw_error := Some (approval_cleanText (JStr comment) 500)\<rparr>))) (\<lambda>_. returnM ())
        | Approve \<Rightarrow>
            bindM (d1_read DatabaseFailure (count_approvals i)) (\<lambda>n.
            if int n \<ge> aw_required_approvals row
            then bindM (d1_call DatabaseFailure (update_rows (\<lambda>r. aw_id r = i \<and> aw_status r = ''pending'')
              (\<lambda>r. r\<lparr>aw_status := ''approved'', aw_approved_at := Some now, aw_updated_at := now\<rparr>))) (\<lambda>_. returnM ())
            else returnM ())) (\<lambda>_.
      bindM (approval_readRow env i (clock 3)) (\<lambda>again.
      bindM (requireRow NotFound again) (\<lambda>updated.
      publicFromRow env updated s None))))))))))))"

definition cancelApproval :: "(nat \<Rightarrow> int) \<Rightarrow> approval_env \<Rightarrow> string \<Rightarrow> policy_subject \<Rightarrow> public_approval approval_eff" where
  "cancelApproval clock env i s =
     bindM (requireM (ae_hasDB env) (Message ''Persistent database is unavailable'')) (\<lambda>_.
     bindM (approval_readRow env i (clock 0)) (\<lambda>found.
     bindM (requireRow NotFound found) (\<lambda>row.
     bindM (requireM (js_lower (aw_requester_identity row) = js_lower (su_identity s)) NotRequester) (\<lambda>_.
     bindM (requireM (statusValue (aw_status row) \<in> {Pending, Approved}) NotCancellable) (\<lambda>_.
     bindM (d1_call DatabaseFailure (update_rows (\<lambda>r. aw_id r = i \<and> aw_status r \<in> {''pending'', ''approved''})
       (\<lambda>r. r\<lparr>aw_status := ''cancelled'', aw_updated_at := clock 1\<rparr>))) (\<lambda>_.
     bindM (approval_readRow env i (clock 2)) (\<lambda>again.
     bindM (requireRow NotFound again) (\<lambda>updated.
     publicFromRow env updated s None))))))))"

text \<open>\<open>Number(source?.meta?.changes ?? source?.changes ?? 0) < 1\<close>\<close>

definition changes_below_one :: "js \<Rightarrow> bool" where
  "changes_below_one result = (case to_num (coalesce (jget (jget result ''meta'') ''changes'') (coalesce (jget result ''changes'') (JInt 0))) of
      NaN \<Rightarrow> False
    | Num n \<Rightarrow> n < 1
    | Frac m k \<Rightarrow> m < 10 ^ k)"

definition claimApprovalExecution ::
  "decrypt \<Rightarrow> (nat \<Rightarrow> int) \<Rightarrow> approval_env \<Rightarrow> string \<Rightarrow> policy_subject \<Rightarrow> (public_approval \<times> approval_spec) approval_eff" where
  "claimApprovalExecution dec clock env i s =
     bindM (requireM (ae_hasDB env) (Message ''Persistent database is unavailable'')) (\<lambda>_.
     bindM (approval_readRow env i (clock 0)) (\<lambda>found.
     bindM (requireRow NotFound found) (\<lambda>row.
     bindM (requireM (js_lower (aw_requester_identity row) = js_lower (su_identity s)) NotRequester) (\<lambda>_.
     bindM (requireM (statusValue (aw_status row) = Approved) NotApproved) (\<lambda>_.
     bindM (d1_call DatabaseFailure (update_rows (\<lambda>r. aw_id r = i \<and> aw_status r = ''approved'' \<and> aw_expires_at r > clock 1)
       (\<lambda>r. r\<lparr>aw_status := ''executing'', aw_updated_at := clock 1\<rparr>))) (\<lambda>result.
     bindM (requireM (\<not> changes_below_one result) ClaimLost) (\<lambda>_.
     bindM (approval_readRow env i (clock 2)) (\<lambda>again.
     bindM (requireRow NotFound again) (\<lambda>updated.
     bindM (liftM (decryptSpec dec (aw_encrypted_spec updated) (ae_key env))) (\<lambda>spec.
     bindM (publicFromRow env updated s None) (\<lambda>approval.
     returnM (approval, spec))))))))))))"

definition readExecutingApproval ::
  "decrypt \<Rightarrow> int \<Rightarrow> approval_env \<Rightarrow> string \<Rightarrow> policy_subject \<Rightarrow> (approval_row \<times> approval_spec) option approval_eff" where
  "readExecutingApproval dec now env i s =
     bindM (approval_readRow env i now) (\<lambda>found.
     (case found of
        None \<Rightarrow> returnM None
      | Some row \<Rightarrow>
          if statusValue (aw_status row) \<noteq> Executing \<or> js_lower (aw_requester_identity row) \<noteq> js_lower (su_identity s) then returnM None
          else (case decryptSpec dec (aw_encrypted_spec row) (ae_key env) of
              Inr spec \<Rightarrow> returnM (Some (row, spec))
            | Inl _ \<Rightarrow> returnM None)))"

datatype finish_status = FinishExecuted | FinishFailed | FinishUnknown

definition finish_name :: "finish_status \<Rightarrow> string" where
  "finish_name f = (case f of FinishExecuted \<Rightarrow> ''executed'' | FinishFailed \<Rightarrow> ''failed'' | FinishUnknown \<Rightarrow> ''unknown'')"

definition finishApprovalExecution ::
  "approval_env \<Rightarrow> string \<Rightarrow> finish_status \<Rightarrow> string \<Rightarrow> string \<Rightarrow> int \<Rightarrow> unit approval_eff" where
  "finishApprovalExecution env i status runId error now =
     (if \<not> ae_hasDB env then returnM ()
      else bindM (d1_call DatabaseFailure (update_rows (\<lambda>r. aw_id r = take 160 i \<and> aw_status r = ''executing'')
        (\<lambda>r. r\<lparr>aw_status := finish_name status, aw_run_id := non_empty (take 160 runId),
           aw_error := non_empty (approval_cleanText (JStr error) 500),
           aw_executed_at := (if status = FinishExecuted then Some now else None), aw_updated_at := now\<rparr>))) (\<lambda>_. returnM ()))"

record approval_listing =
  al_approvals :: "public_approval list"
  al_pendingForMe :: nat
  al_minePending :: nat
  al_persistenceAvailable :: bool

fun project_all :: "approval_env \<Rightarrow> policy_subject \<Rightarrow> decision_map \<Rightarrow> approval_row list \<Rightarrow> public_approval list approval_eff" where
  "project_all env s m [] = returnM []"
| "project_all env s m (r # rs) =
     bindM (publicFromRow env r s (Some m)) (\<lambda>p. bindM (project_all env s m rs) (\<lambda>ps. returnM (p # ps)))"

definition listApprovals :: "int \<Rightarrow> approval_env \<Rightarrow> policy_subject \<Rightarrow> int \<Rightarrow> approval_listing approval_eff" where
  "listApprovals now env s limit =
     (if \<not> ae_hasDB env then returnM \<lparr>al_approvals = [], al_pendingForMe = 0, al_minePending = 0, al_persistenceAvailable = False\<rparr>
      else
        bindM (expireApprovals env now) (\<lambda>_.
        bindM (d1_read DatabaseFailure (\<lambda>t. take (nat (max 1 (min limit 200)))
                 (js_sort (\<lambda>a b. aw_created_at b - aw_created_at a) (at_rows t)))) (\<lambda>items.
        bindM (decisionsFor env (map aw_id items)) (\<lambda>m.
        bindM (project_all env s m items) (\<lambda>every.
        (let mine = (\<lambda>p. js_lower (pa_requesterIdentity p) = js_lower (su_identity s));
             shown = filter (\<lambda>p. su_role s = Admin \<or> mine p \<or> pa_canApprove p \<or> pa_myDecision p \<noteq> None) every
         in returnM \<lparr>al_approvals = shown, al_pendingForMe = length (filter pa_canApprove shown),
              al_minePending = length (filter (\<lambda>p. mine p \<and> pa_status p \<in> {Pending, Approved}) shown),
              al_persistenceAvailable = True\<rparr>))))))"

end
