(* ===== verification/RelyGuarantee.thy ===== *)
theory RelyGuarantee
  imports Database
begin

text \<open>
  Assertions for database code that runs among others: \<open>ensures R P m Q\<close> says that code started where
  \<open>P\<close> holds, while the others make steps of \<open>R\<close> only, makes steps of \<open>R\<close> only itself and, when it
  returns \<open>x\<close>, ends where \<open>Q x\<close> holds. It refines \<open>follows\<close> by the facts a handler has read before it
  writes; those facts must be \<open>stable\<close> under the steps of the others.
\<close>

named_theorems ensures_intros "rules for the calls and the combinators"

definition stable_under :: "('t \<Rightarrow> 't \<Rightarrow> bool) \<Rightarrow> ('t \<Rightarrow> bool) \<Rightarrow> bool" where
  "stable_under R P \<longleftrightarrow> (\<forall>t t'. P t \<longrightarrow> R t t' \<longrightarrow> P t')"

definition ensures ::
  "('t \<Rightarrow> 't \<Rightarrow> bool) \<Rightarrow> ('t \<Rightarrow> bool) \<Rightarrow> ('t database, 'e, 'a) eff \<Rightarrow> ('a \<Rightarrow> 't \<Rightarrow> bool) \<Rightarrow> bool" where
  "ensures R P m Q \<longleftrightarrow> (\<forall>w r w'. env_follows R w \<longrightarrow> P (db_tables w) \<longrightarrow> m w = (r, w') \<longrightarrow>
     R\<^sup>*\<^sup>* (db_tables w) (db_tables w') \<and> env_follows R w' \<and> (\<forall>x. r = Inr x \<longrightarrow> Q x (db_tables w')))"

lemma stable_underD:
  assumes "stable_under R P" "R\<^sup>*\<^sup>* t t'" "P t"
  shows "P t'"
  using assms(2,3) by (induction rule: rtranclp_induct) (use assms(1) in \<open>auto simp: stable_under_def\<close>)

lemma stable_under_conj [intro]: "stable_under R P \<Longrightarrow> stable_under R Q \<Longrightarrow> stable_under R (\<lambda>t. P t \<and> Q t)"
  by (auto simp: stable_under_def)

lemma stable_under_const [intro, simp]: "stable_under R (\<lambda>_. b)"
  by (simp add: stable_under_def)

lemma ensuresD:
  assumes "ensures R P m Q" "env_follows R w" "P (db_tables w)" "m w = (r, w')"
  shows "R\<^sup>*\<^sup>* (db_tables w) (db_tables w')" "env_follows R w'" "r = Inr x \<Longrightarrow> Q x (db_tables w')"
  using assms by (auto simp: ensures_def)

lemma ensures_weaken: "ensures R P' m Q' \<Longrightarrow> (\<And>t. P t \<Longrightarrow> P' t) \<Longrightarrow> (\<And>x t. Q' x t \<Longrightarrow> Q x t) \<Longrightarrow> ensures R P m Q"
  unfolding ensures_def by blast

lemma ensures_pre: "ensures R P' m Q \<Longrightarrow> (\<And>t. P t \<Longrightarrow> P' t) \<Longrightarrow> ensures R P m Q"
  by (rule ensures_weaken)

lemma ensures_post: "ensures R P m Q' \<Longrightarrow> (\<And>x t. Q' x t \<Longrightarrow> Q x t) \<Longrightarrow> ensures R P m Q"
  by (rule ensures_weaken)

lemma ensures_follows: "ensures R (\<lambda>_. True) m Q \<Longrightarrow> follows R m"
  unfolding follows_def ensures_def by (metis prod.collapse)

lemma ensures_bindM [ensures_intros]:
  assumes "ensures R P m Q" "\<And>x. ensures R (Q x) (f x) S"
  shows "ensures R P (bindM m f) S"
  unfolding ensures_def
proof (intro allI impI)
  fix w r w' assume e: "env_follows R w" "P (db_tables w)" "bindM m f w = (r, w')"
  obtain r1 w1 where m: "m w = (r1, w1)" by (cases "m w")
  note s = ensuresD [OF assms(1) e(1,2) m]
  show "R\<^sup>*\<^sup>* (db_tables w) (db_tables w') \<and> env_follows R w' \<and> (\<forall>x. r = Inr x \<longrightarrow> S x (db_tables w'))"
  proof (cases r1)
    case (Inl x)
    with m s e(3) show ?thesis by (auto simp: bindM_run)
  next
    case (Inr x)
    with m e(3) have f: "f x w1 = (r, w')" by (simp add: bindM_run)
    note n = ensuresD [OF assms(2) s(2) s(3) [OF Inr] f]
    from n(1,2) s(1) have "R\<^sup>*\<^sup>* (db_tables w) (db_tables w')" by simp
    with n show ?thesis by blast
  qed
qed

lemma ensures_pure:
  assumes "\<And>w. snd (m w) = w" "\<And>w x. P (db_tables w) \<Longrightarrow> fst (m w) = Inr x \<Longrightarrow> Q x (db_tables w)"
  shows "ensures R P m Q"
  unfolding ensures_def
proof (intro allI impI)
  fix w r w' assume e: "env_follows R w" "P (db_tables w)" "m w = (r, w')"
  then have "w' = w" "fst (m w) = r" using assms(1) [of w] by simp_all
  with e assms(2) show "R\<^sup>*\<^sup>* (db_tables w) (db_tables w') \<and> env_follows R w' \<and> (\<forall>x. r = Inr x \<longrightarrow> Q x (db_tables w'))" by auto
qed

lemma ensures_returnM: "(\<And>t. P t \<Longrightarrow> Q x t) \<Longrightarrow> ensures R P (returnM x) Q"
  by (rule ensures_pure) (simp_all add: returnM_run)

lemma ensures_throwM [ensures_intros]: "ensures R P (throwM x) Q"
  by (rule ensures_pure) (simp_all add: throwM_run)

lemma ensures_liftM: "(\<And>x t. r = Inr x \<Longrightarrow> P t \<Longrightarrow> Q x t) \<Longrightarrow> ensures R P (liftM r) Q"
  by (rule ensures_pure) (simp_all add: liftM_run)

lemma ensures_requireM: "(\<And>t. b \<Longrightarrow> P t \<Longrightarrow> Q () t) \<Longrightarrow> ensures R P (requireM b x) Q"
  by (rule ensures_pure) (auto simp: requireM_run split: if_splits)

lemma ensures_return_same [ensures_intros]: "ensures R P (returnM x) (\<lambda>y t. y = x \<and> P t)"
  by (rule ensures_returnM) simp

lemma ensures_lift_same [ensures_intros]: "ensures R P (liftM r) (\<lambda>x t. r = Inr x \<and> P t)"
  by (rule ensures_liftM) simp

lemma ensures_require_same [ensures_intros]: "ensures R P (requireM b x) (\<lambda>_ t. b \<and> P t)"
  by (rule ensures_requireM) simp

lemma ensures_call:
  assumes "stable_under R P" "\<And>t. P t \<Longrightarrow> R\<^sup>*\<^sup>* t (snd (f t))" "\<And>t. P t \<Longrightarrow> Q (fst (f t)) (snd (f t))"
  shows "ensures R P (d1_call err f) Q"
  unfolding ensures_def
proof (intro allI impI)
  fix w r w' assume e: "env_follows R w" "P (db_tables w)" "d1_call err f w = (r, w')"
  show "R\<^sup>*\<^sup>* (db_tables w) (db_tables w') \<and> env_follows R w' \<and> (\<forall>x. r = Inr x \<longrightarrow> Q x (db_tables w'))"
  proof (cases "db_schedule w")
    case Nil
    with e assms(2,3) [OF e(2)] show ?thesis
      by (auto simp: d1_call_def env_follows_def split: prod.splits)
  next
    case (Cons gd rest)
    obtain g d where gd: "gd = (g, d)" by (cases gd)
    have 1: "R\<^sup>*\<^sup>* (db_tables w) (g (db_tables w))" using e(1) Cons gd by (auto simp: env_follows_def)
    have p: "P (g (db_tables w))" by (rule stable_underD [OF assms(1) 1 e(2)])
    have 2: "R\<^sup>*\<^sup>* (db_tables w) (snd (f (g (db_tables w))))" using 1 assms(2) [OF p] by (rule rtranclp_trans)
    have 3: "env_follows R \<lparr>db_tables = t, db_schedule = rest\<rparr>" for t using e(1) Cons by (auto simp: env_follows_def)
    obtain x t1 where f: "f (g (db_tables w)) = (x, t1)" by (cases "f (g (db_tables w))")
    from 1 2 3 assms(3) [OF p] e(3) Cons gd f show ?thesis by (cases d) (auto simp: d1_call_def)
  qed
qed

lemma ensures_read:
  assumes "stable_under R P" "\<And>t. P t \<Longrightarrow> Q (g t) t"
  shows "ensures R P (d1_read err g) Q"
  unfolding d1_read_def using assms by (intro ensures_call) simp_all

lemma ensures_read_same [ensures_intros]:
  "stable_under R P \<Longrightarrow> ensures R P (d1_read err g) (\<lambda>x t. x = g t \<and> P t)"
  by (rule ensures_read) simp_all

text \<open>Code that only follows the protocol keeps a stable fact.\<close>

lemma ensures_frame:
  assumes "follows R m" "stable_under R P"
  shows "ensures R P m (\<lambda>_. P)"
  unfolding ensures_def
proof (intro allI impI)
  fix w r w' assume e: "env_follows R w" "P (db_tables w)" "m w = (r, w')"
  from followsD [OF assms(1) e(1,3)] stable_underD [OF assms(2) _ e(2)]
  show "R\<^sup>*\<^sup>* (db_tables w) (db_tables w') \<and> env_follows R w' \<and> (\<forall>x. r = Inr x \<longrightarrow> P (db_tables w'))" by blast
qed

lemma ensures_conj:
  "ensures R P m Q \<Longrightarrow> ensures R P m Q' \<Longrightarrow> ensures R P m (\<lambda>x t. Q x t \<and> Q' x t)"
  unfolding ensures_def by blast

text \<open>The precondition may carry facts that do not depend on the tables.\<close>

lemma ensures_fact: "(b \<Longrightarrow> ensures R P m Q) \<Longrightarrow> ensures R (\<lambda>t. b \<and> P t) m Q"
  unfolding ensures_def by blast

end
