(* ===== verification/ApprovalProtocol.thy ===== *)
theory ApprovalProtocol
  imports ApprovalGates RelyGuarantee
begin

text \<open>
  The protocol that the operations on approval requests follow: how rows and decisions may change, and
  the invariant of the tables it keeps. A request is passed on only with the approvals it requires,
  nobody decides twice, and no requester who must not approve decides on an own request. Subjects are
  canonical: the identity is in lower case and at most 160 characters long, which \<open>PortalAccess\<close> shows
  of every subject the portal admits.
\<close>

section \<open>Steps\<close>

text \<open>What no operation ever changes of a row.\<close>

definition frozen :: "approval_row \<Rightarrow> string \<times> string \<times> int \<times> int \<times> int \<times> string" where
  "frozen r = (aw_id r, aw_requester_identity r, aw_required_approvals r, aw_requester_cannot_approve r,
     aw_expires_at r, aw_encrypted_spec r)"

definition may_move :: "approval_tables \<Rightarrow> approval_row \<Rightarrow> string \<Rightarrow> bool" where
  "may_move t r s \<longleftrightarrow> s = aw_status r
     \<or> aw_status r = ''pending'' \<and> (s \<in> {''rejected'', ''cancelled'', ''expired''}
         \<or> s = ''approved'' \<and> aw_required_approvals r \<le> int (count_approvals (aw_id r) t))
     \<or> aw_status r = ''approved'' \<and> s \<in> {''cancelled'', ''expired'', ''executing''}
     \<or> aw_status r = ''executing'' \<and> s \<in> {''executed'', ''failed'', ''unknown''}"

inductive approval_step :: "approval_tables \<Rightarrow> approval_tables \<Rightarrow> bool" where
  requested: "find_row (aw_id r) t = None \<Longrightarrow> length (aw_id r) \<le> 160 \<Longrightarrow> aw_status r = ''pending''
    \<Longrightarrow> approval_step t (t\<lparr>at_rows := at_rows t @ [r]\<rparr>)"
| decided: "js_lower (dr_identity d) = dr_identity d
    \<Longrightarrow> \<not> (\<exists>e \<in> set (at_decisions t). dr_approval_id e = dr_approval_id d \<and> dr_identity e = dr_identity d)
    \<Longrightarrow> length (dr_approval_id d) > 160 \<or> (\<exists>r. find_row (dr_approval_id d) t = Some r
          \<and> (aw_requester_cannot_approve r = 1 \<longrightarrow> js_lower (aw_requester_identity r) \<noteq> dr_identity d))
    \<Longrightarrow> approval_step t (t\<lparr>at_decisions := at_decisions t @ [d]\<rparr>)"
| moved: "(\<And>r. r \<in> set (at_rows t) \<Longrightarrow> frozen (g r) = frozen r \<and> may_move t r (aw_status (g r)))
    \<Longrightarrow> approval_step t (t\<lparr>at_rows := map g (at_rows t)\<rparr>)"

inductive_cases approval_stepE: "approval_step t t'"

section \<open>The invariant\<close>

definition spent_status :: "string \<Rightarrow> bool" where
  "spent_status s \<longleftrightarrow> s \<in> {''executing'', ''executed'', ''failed'', ''unknown''}"

definition passed_status :: "string \<Rightarrow> bool" where
  "passed_status s \<longleftrightarrow> s = ''approved'' \<or> spent_status s"

definition own_decision :: "approval_row \<Rightarrow> decision_row \<Rightarrow> bool" where
  "own_decision r d \<longleftrightarrow> dr_approval_id d = aw_id r \<and> aw_requester_cannot_approve r = 1
     \<and> dr_identity d = js_lower (aw_requester_identity r)"

definition approval_inv :: "approval_tables \<Rightarrow> bool" where
  "approval_inv t \<longleftrightarrow> distinct (map aw_id (at_rows t)) \<and> (\<forall>r \<in> set (at_rows t). length (aw_id r) \<le> 160)
     \<and> distinct (map (\<lambda>d. (dr_approval_id d, dr_identity d)) (at_decisions t))
     \<and> (\<forall>r \<in> set (at_rows t). passed_status (aw_status r) \<longrightarrow> aw_required_approvals r \<le> int (count_approvals (aw_id r) t))
     \<and> (\<forall>r \<in> set (at_rows t). \<forall>d \<in> set (at_decisions t). \<not> own_decision r d)
     \<and> (\<forall>d \<in> set (at_decisions t). length (dr_approval_id d) \<le> 160 \<longrightarrow> dr_approval_id d \<in> aw_id ` set (at_rows t))"

lemma frozen_iff: "frozen a = frozen b \<longleftrightarrow> aw_id a = aw_id b \<and> aw_requester_identity a = aw_requester_identity b
    \<and> aw_required_approvals a = aw_required_approvals b \<and> aw_requester_cannot_approve a = aw_requester_cannot_approve b
    \<and> aw_expires_at a = aw_expires_at b \<and> aw_encrypted_spec a = aw_encrypted_spec b"
  by (auto simp: frozen_def)

lemma find_row_Some: "find_row i t = Some r \<Longrightarrow> r \<in> set (at_rows t) \<and> aw_id r = i"
  unfolding find_row_def by (drule find_Some_iff')

lemma find_row_None: "find_row i t = None \<longleftrightarrow> i \<notin> aw_id ` set (at_rows t)"
  by (auto simp: find_row_def find_None_iff)

lemma row_unique: "distinct (map aw_id rs) \<Longrightarrow> a \<in> set rs \<Longrightarrow> b \<in> set rs \<Longrightarrow> aw_id a = aw_id b \<Longrightarrow> a = b"
  by (simp add: distinct_map inj_on_def)

lemma find_row_in: "approval_inv t \<Longrightarrow> r \<in> set (at_rows t) \<Longrightarrow> find_row (aw_id r) t = Some r"
proof (cases "find_row (aw_id r) t")
  case None
  moreover assume "r \<in> set (at_rows t)"
  ultimately show ?thesis by (auto simp: find_row_None)
next
  case (Some q)
  assume "approval_inv t" "r \<in> set (at_rows t)"
  with find_row_Some [OF Some] have "q = r" unfolding approval_inv_def by (blast intro: row_unique)
  with Some show ?thesis by simp
qed

lemma count_append: "count_approvals i (t\<lparr>at_decisions := at_decisions t @ [d]\<rparr>) \<ge> count_approvals i t"
  by (simp add: count_approvals_def)

lemma count_rows [simp]: "count_approvals i (t\<lparr>at_rows := rs\<rparr>) = count_approvals i t"
  by (simp add: count_approvals_def)

lemma may_move_passed:
  "may_move t r s \<Longrightarrow> passed_status s \<Longrightarrow> passed_status (aw_status r) \<or> aw_required_approvals r \<le> int (count_approvals (aw_id r) t)"
  unfolding may_move_def by (elim disjE conjE) (simp_all add: passed_status_def spent_status_def, auto)

lemma may_move_spent: "may_move t r s \<Longrightarrow> spent_status (aw_status r) \<Longrightarrow> spent_status s"
  unfolding may_move_def by (elim disjE conjE) (simp_all add: spent_status_def)

lemma approval_step_inv:
  assumes "approval_inv t" "approval_step t t'"
  shows "approval_inv t'"
  using assms(2)
proof cases
  case (requested r)
  then have new: "aw_id r \<notin> aw_id ` set (at_rows t)" by (simp add: find_row_None)
  moreover have "\<not> own_decision r d" if "d \<in> set (at_decisions t)" for d
  proof
    assume o: "own_decision r d"
    with requested(3) have "length (dr_approval_id d) \<le> 160" by (simp add: own_decision_def)
    with assms(1) that have "dr_approval_id d \<in> aw_id ` set (at_rows t)" unfolding approval_inv_def by blast
    with o new show False by (simp add: own_decision_def)
  qed
  moreover have "\<not> passed_status (aw_status r)" using requested by (simp add: passed_status_def spent_status_def)
  ultimately show ?thesis using assms(1) requested by (auto simp: approval_inv_def)
next
  case (decided d)
  have own: "\<not> own_decision r d" if r: "r \<in> set (at_rows t)" for r
  proof
    assume o: "own_decision r d"
    from r assms(1) have l: "length (aw_id r) \<le> 160" by (simp add: approval_inv_def)
    with o have "\<not> length (dr_approval_id d) > 160" by (simp add: own_decision_def)
    with decided(4) obtain q where q: "find_row (dr_approval_id d) t = Some q"
      "aw_requester_cannot_approve q = 1 \<longrightarrow> js_lower (aw_requester_identity q) \<noteq> dr_identity d" by blast
    have "find_row (dr_approval_id d) t = Some r" using find_row_in [OF assms(1) r] o by (simp add: own_decision_def)
    with q o show False by (simp add: own_decision_def)
  qed
  have known: "dr_approval_id d \<in> aw_id ` set (at_rows t)" if "length (dr_approval_id d) \<le> 160"
    using decided(4) that find_row_Some by force
  have count: "aw_required_approvals r \<le> int (count_approvals (aw_id r) t')"
    if "r \<in> set (at_rows t)" "passed_status (aw_status r)" for r
    using assms(1) that count_append [of "aw_id r" t d] decided(1) by (fastforce simp: approval_inv_def)
  have "at_rows t' = at_rows t" "at_decisions t' = at_decisions t @ [d]" using decided(1) by simp_all
  with assms(1) own known count decided(3) show ?thesis
    unfolding approval_inv_def by auto
next
  case (moved g)
  have ids: "map aw_id (map g (at_rows t)) = map aw_id (at_rows t)"
    using moved(2) by (auto simp: frozen_iff)
  have same: "own_decision (g r) d = own_decision r d" if "r \<in> set (at_rows t)" for r d
    using moved(2) [OF that] by (simp add: own_decision_def frozen_iff)
  have count: "aw_required_approvals (g r) \<le> int (count_approvals (aw_id (g r)) t)"
    if "r \<in> set (at_rows t)" "passed_status (aw_status (g r))" for r
    using moved(2) [OF that(1)] may_move_passed that assms(1) by (fastforce simp: approval_inv_def frozen_iff)
  have "at_rows t' = map g (at_rows t)" "at_decisions t' = at_decisions t" "\<And>i. count_approvals i t' = count_approvals i t"
    using moved(1) by simp_all
  moreover have "aw_id ` set (map g (at_rows t)) = aw_id ` set (at_rows t)" using ids by (metis set_map)
  moreover have "\<forall>r \<in> set (at_rows t). length (aw_id (g r)) \<le> 160"
    using assms(1) moved(2) by (simp add: approval_inv_def frozen_iff)
  moreover have "distinct (map aw_id (map g (at_rows t)))" unfolding ids using assms(1) by (simp add: approval_inv_def)
  ultimately show ?thesis using assms(1) same count moved(2) unfolding approval_inv_def by (simp add: frozen_iff)
qed

interpretation approvals: table_protocol approval_step approval_inv
  by unfold_locales (rule approval_step_inv)

section \<open>Stable facts\<close>

lemma stable_inv [simp, intro]: "stable_under approval_step approval_inv"
  using approval_step_inv by (auto simp: stable_under_def)

text \<open>A row that was read is still there, unless for its status.\<close>

definition row_known :: "approval_row \<Rightarrow> approval_tables \<Rightarrow> bool" where
  "row_known r t \<longleftrightarrow> (\<exists>q \<in> set (at_rows t). frozen q = frozen r)"

lemma stable_known [simp, intro]: "stable_under approval_step (row_known r)"
  unfolding stable_under_def row_known_def
  by (auto elim!: approval_stepE)

definition row_spent :: "string \<Rightarrow> approval_tables \<Rightarrow> bool" where
  "row_spent i t \<longleftrightarrow> (\<exists>r \<in> set (at_rows t). aw_id r = i \<and> spent_status (aw_status r))"

lemma stable_spent [simp, intro]: "stable_under approval_step (row_spent i)"
  unfolding stable_under_def
proof (intro allI impI)
  fix t t' assume s: "row_spent i t" "approval_step t t'"
  from s(2) show "row_spent i t'"
  proof cases
    case (moved g)
    from s(1) obtain r where "r \<in> set (at_rows t)" "aw_id r = i" "spent_status (aw_status r)" by (auto simp: row_spent_def)
    with moved(2) [of r] may_move_spent [of t r] have "g r \<in> set (at_rows t')" "aw_id (g r) = i" "spent_status (aw_status (g r))"
      by (auto simp: moved(1) frozen_iff)
    then show ?thesis by (auto simp: row_spent_def)
  qed (use s(1) in \<open>auto simp: row_spent_def\<close>)
qed

lemma stable_count [simp, intro]: "stable_under approval_step (\<lambda>t. n \<le> count_approvals i t)"
  unfolding stable_under_def by (auto elim!: approval_stepE intro: order_trans [OF _ count_append])

lemma stable_and [simp, intro]:
  "stable_under R P \<Longrightarrow> stable_under R Q \<Longrightarrow> stable_under R (\<lambda>t. P t \<and> Q t)"
  by (rule stable_under_conj)

end
