(* ===== verification/ApprovalSafety.thy ===== *)
theory ApprovalSafety
  imports ApprovalProtocol
begin

text \<open>
  Every operation on approval requests follows the protocol of \<open>ApprovalProtocol\<close>, whatever the others
  do between its calls, and a successful claim establishes what the protocol promises: enough approvals
  by distinct subjects, and no second claim.
\<close>

section \<open>Statements follow the protocol\<close>

lemma update_rows_step:
  assumes "\<And>r. P r \<Longrightarrow> frozen (f r) = frozen r" "\<And>r. r \<in> set (at_rows t) \<Longrightarrow> P r \<Longrightarrow> may_move t r (aw_status (f r))"
  shows "approval_step t (snd (update_rows P f t))"
proof -
  have "approval_step t (t\<lparr>at_rows := map (\<lambda>r. if P r then f r else r) (at_rows t)\<rparr>)"
    by (rule moved) (use assms in \<open>auto simp: may_move_def\<close>)
  then show ?thesis by (simp add: update_rows_def)
qed

lemma expire_step: "approval_step t (snd (expire_rows now t))"
  unfolding expire_rows_def by (rule update_rows_step) (auto simp: frozen_def may_move_def)

lemma ensures_insert:
  assumes "stable_under R P" "\<And>t. P t \<Longrightarrow> \<not> taken t \<Longrightarrow> R\<^sup>*\<^sup>* t (ins t)" "\<And>t. P t \<Longrightarrow> \<not> taken t \<Longrightarrow> P (ins t)"
  shows "ensures R P (d1_insert e taken ins) (\<lambda>_. P)"
  unfolding d1_insert_def
  by (rule ensures_bindM [where Q = "\<lambda>_. P"], rule ensures_call [OF assms(1)])
    (use assms(2,3) in \<open>auto intro: ensures_requireM\<close>)

lemma follows_expire: "follows approval_step (expireApprovals env now)"
  unfolding expireApprovals_def
  by (intro follows_intros follows_if) (rule r_into_rtranclp, rule expire_step)

lemma ensures_expire: "stable_under approval_step P \<Longrightarrow> ensures approval_step P (expireApprovals env now) (\<lambda>_. P)"
  by (rule ensures_frame [OF follows_expire])

lemma follows_public: "follows approval_step (publicFromRow env row s m)"
  unfolding publicFromRow_def decisionsFor_def Let_def
  by (intro follows_intros follows_option follows_if follows_returnM)

lemma ensures_public: "stable_under approval_step P \<Longrightarrow> ensures approval_step P (publicFromRow env row s m) (\<lambda>_. P)"
  by (rule ensures_frame [OF follows_public])

lemma ensures_readRow:
  assumes "stable_under approval_step P"
  shows "ensures approval_step P (approval_readRow env i now) (\<lambda>x t. P t \<and> (\<forall>r. x = Some r \<longrightarrow> find_row (take 160 i) t = Some r))"
proof (cases "ae_hasDB env")
  case True
  have "ensures approval_step P (bindM (expireApprovals env now) (\<lambda>_. d1_read DatabaseFailure (find_row (take 160 i))))
      (\<lambda>x t. x = find_row (take 160 i) t \<and> P t)"
    by (rule ensures_bindM, rule ensures_expire [OF assms], rule ensures_read_same [OF assms])
  from ensures_post [OF this] True show ?thesis unfolding approval_readRow_def by simp
next
  case False
  then show ?thesis unfolding approval_readRow_def by (simp add: ensures_returnM)
qed

lemma ensures_requireRow: "ensures R (\<lambda>t. P t \<and> (\<forall>r. x = Some r \<longrightarrow> Q r t)) (requireRow e x) (\<lambda>r t. P t \<and> Q r t)"
  unfolding requireRow_def by (cases x) (auto intro: ensures_throwM ensures_returnM)

text \<open>The two calls every operation begins and ends with.\<close>

lemma ensures_found:
  assumes "stable_under approval_step P" "\<And>r. ensures approval_step (\<lambda>t. P t \<and> find_row (take 160 i) t = Some r) (f r) Q"
  shows "ensures approval_step P (bindM (approval_readRow env i now) (\<lambda>x. bindM (requireRow e x) f)) Q"
  by (rule ensures_bindM [OF ensures_readRow [OF assms(1)]], rule ensures_bindM [OF ensures_requireRow], rule assms(2))

lemma ensures_answer:
  assumes "stable_under approval_step P"
  shows "ensures approval_step P (bindM (approval_readRow env i now) (\<lambda>x. bindM (requireRow e x) (\<lambda>r. publicFromRow env r s None))) (\<lambda>_. P)"
  by (rule ensures_found [OF assms]) (rule ensures_pre [OF ensures_public [OF assms]], simp)

lemma ensures_require_then:
  "(b \<Longrightarrow> ensures R P m Q) \<Longrightarrow> ensures R P (bindM (requireM b e) (\<lambda>_. m)) Q"
  by (rule ensures_bindM [OF ensures_require_same], rule ensures_fact)

lemma ensures_lift_then:
  "(\<And>x. r = Inr x \<Longrightarrow> ensures R P (f x) Q) \<Longrightarrow> ensures R P (bindM (liftM r) f) Q"
  by (rule ensures_bindM [OF ensures_lift_same], rule ensures_fact)

section \<open>The operations\<close>

lemma known_row:
  assumes "approval_inv t" "row_known row t" "r \<in> set (at_rows t)" "aw_id r = aw_id row"
  shows "frozen r = frozen row"
proof -
  from assms(2) obtain q where q: "q \<in> set (at_rows t)" "frozen q = frozen row" by (auto simp: row_known_def)
  with assms(4) have "aw_id q = aw_id r" by (simp add: frozen_iff)
  with assms(1,3) q(1) have "q = r" unfolding approval_inv_def by (blast intro: row_unique)
  with q show ?thesis by simp
qed

definition canonical :: "policy_subject \<Rightarrow> bool" where
  "canonical s \<longleftrightarrow> js_lower (su_identity s) = su_identity s \<and> length (su_identity s) \<le> 160"

abbreviation reading :: "approval_row \<Rightarrow> approval_tables \<Rightarrow> bool" where
  "reading row t \<equiv> approval_inv t \<and> row_known row t"

lemma find_reading: "approval_inv t \<and> find_row (take 160 i) t = Some row \<Longrightarrow> reading row t \<and> aw_id row = take 160 i"
  using find_row_Some by (auto simp: row_known_def)

lemma ensures_known:
  assumes "aw_id row = take 160 i \<Longrightarrow> ensures approval_step (reading row) m Q"
  shows "ensures approval_step (\<lambda>t. approval_inv t \<and> find_row (take 160 i) t = Some row) m Q"
proof (cases "aw_id row = take 160 i")
  case True
  show ?thesis by (rule ensures_pre [OF assms [OF True]]) (use find_reading in blast)
next
  case False
  then show ?thesis using find_row_Some by (fastforce simp: ensures_def)
qed

text \<open>A row of a shorter id is the row of the id as given.\<close>

lemma full_id: "approval_inv t \<Longrightarrow> r \<in> set (at_rows t) \<Longrightarrow> aw_id r = i \<Longrightarrow> take 160 i = i"
  by (auto simp: approval_inv_def)

lemma insertDecision_step:
  assumes "reading row t" "aw_id row = take 160 i" "isEligibleApprover row s = Inr True" "canonical s"
    and "dr_approval_id d = i" "dr_identity d = take 160 (su_identity s)"
    and "\<not> (\<exists>e \<in> set (at_decisions t). dr_approval_id e = i \<and> dr_identity e = take 160 (su_identity s))"
  shows "approval_step t (t\<lparr>at_decisions := at_decisions t @ [d]\<rparr>)"
proof (rule decided)
  have id: "dr_identity d = su_identity s" using assms(4,6) by (simp add: canonical_def)
  show "js_lower (dr_identity d) = dr_identity d" using id assms(4) by (simp add: canonical_def)
  show "\<not> (\<exists>e \<in> set (at_decisions t). dr_approval_id e = dr_approval_id d \<and> dr_identity e = dr_identity d)"
    using assms(5-7) by auto
  show "160 < length (dr_approval_id d) \<or> (\<exists>r. find_row (dr_approval_id d) t = Some r
      \<and> (aw_requester_cannot_approve r = 1 \<longrightarrow> js_lower (aw_requester_identity r) \<noteq> dr_identity d))"
  proof (cases "160 < length i")
    case False
    from assms(1) obtain q where q: "q \<in> set (at_rows t)" "frozen q = frozen row" by (auto simp: row_known_def)
    with False assms(2) have "aw_id q = i" by (simp add: frozen_iff)
    with q find_row_in assms(1) have "find_row i t = Some q" by blast
    moreover have "aw_requester_cannot_approve row = 1 \<longrightarrow> js_lower (aw_requester_identity row) \<noteq> js_lower (su_identity s)"
      using assms(3) by (auto simp: isEligibleApprover_def split: if_splits)
    ultimately show ?thesis using q(2) id assms(4,5) by (auto simp: frozen_iff canonical_def)
  qed (use assms(5) in simp)
qed

lemma ensures_insertDecision:
  assumes "aw_id row = take 160 i" "isEligibleApprover row s = Inr True" "canonical s"
  shows "ensures approval_step (reading row) (insertDecision env i s d c now) (\<lambda>_. reading row)"
  unfolding insertDecision_def
proof (rule ensures_require_then, rule ensures_insert)
  fix t
  assume "reading row t" and "\<not> (\<exists>d \<in> set (at_decisions t). dr_approval_id d = i \<and> dr_identity d = take 160 (su_identity s))"
  then have "approval_step t (t\<lparr>at_decisions := at_decisions t @ [\<lparr>dr_approval_id = i, dr_identity = take 160 (su_identity s),
      dr_role = role_name (su_role s), dr_decision = decision_name d,
      dr_comment = non_empty (approval_cleanText (JStr c) 500), dr_decided_at = now\<rparr>]\<rparr>)" (is "approval_step t ?t")
    using assms by (intro insertDecision_step [where row = row and i = i and s = s]) simp_all
  then show "approval_step\<^sup>*\<^sup>* t ?t" and "reading row ?t"
    using \<open>reading row t\<close> stable_inv stable_known unfolding stable_under_def by blast+
qed auto

text \<open>A statement that moves rows, run where a stable fact holds.\<close>

lemma ensures_update:
  assumes "stable_under approval_step P" "\<And>r. M r \<Longrightarrow> frozen (f r) = frozen r"
    and "\<And>t r. P t \<Longrightarrow> r \<in> set (at_rows t) \<Longrightarrow> M r \<Longrightarrow> may_move t r (aw_status (f r))"
  shows "ensures approval_step P (d1_call e (update_rows M f)) (\<lambda>_. P)"
proof (rule ensures_call [OF assms(1)])
  fix t assume p: "P t"
  have s: "approval_step t (snd (update_rows M f t))" by (rule update_rows_step) (use assms(2,3) p in auto)
  then show "approval_step\<^sup>*\<^sup>* t (snd (update_rows M f t))" by blast
  show "P (snd (update_rows M f t))" using assms(1) p s unfolding stable_under_def by blast
qed

lemma ensures_then:
  "ensures R P m (\<lambda>_. P) \<Longrightarrow> ensures R P m' Q \<Longrightarrow> ensures R P (bindM m (\<lambda>_. m')) Q"
  by (rule ensures_bindM)

lemma ensures_unit: "ensures R P m (\<lambda>_. P) \<Longrightarrow> ensures R P (bindM m (\<lambda>_. returnM ())) (\<lambda>_. P)"
  by (rule ensures_then) (auto intro: ensures_returnM)

lemma ensures_decide_write:
  assumes "aw_id row = take 160 i"
  shows "ensures approval_step (reading row) (case d of
      Reject \<Rightarrow> bindM (d1_call DatabaseFailure (update_rows (\<lambda>r. aw_id r = i \<and> aw_status r = ''pending'')
          (\<lambda>r. r\<lparr>aw_status := ''rejected'', aw_updated_at := now, aw_error := Some text'\<rparr>))) (\<lambda>_. returnM ())
    | Approve \<Rightarrow> bindM (d1_read DatabaseFailure (count_approvals i)) (\<lambda>n.
        if int n \<ge> aw_required_approvals row
        then bindM (d1_call DatabaseFailure (update_rows (\<lambda>r. aw_id r = i \<and> aw_status r = ''pending'')
          (\<lambda>r. r\<lparr>aw_status := ''approved'', aw_approved_at := Some now, aw_updated_at := now\<rparr>))) (\<lambda>_. returnM ())
        else returnM ())) (\<lambda>_. reading row)"
proof (cases d)
  case Reject
  show ?thesis unfolding Reject approval_decision.case
    by (rule ensures_unit, rule ensures_update) (auto simp: frozen_def may_move_def)
next
  case Approve
  have "ensures approval_step (reading row) (d1_read DatabaseFailure (count_approvals i)) (\<lambda>n t. reading row t \<and> n \<le> count_approvals i t)"
    by (rule ensures_read) auto
  moreover have "ensures approval_step (\<lambda>t. reading row t \<and> n \<le> count_approvals i t)
      (d1_call DatabaseFailure (update_rows (\<lambda>r. aw_id r = i \<and> aw_status r = ''pending'')
        (\<lambda>r. r\<lparr>aw_status := ''approved'', aw_approved_at := Some now, aw_updated_at := now\<rparr>)))
      (\<lambda>_ t. reading row t \<and> n \<le> count_approvals i t)" if n: "aw_required_approvals row \<le> int n" for n
  proof (rule ensures_update)
    fix t r assume t: "reading row t \<and> n \<le> count_approvals i t" and r: "r \<in> set (at_rows t)" "aw_id r = i \<and> aw_status r = ''pending''"
    from full_id t r have "take 160 i = i" by blast
    with known_row [of t row r] t r assms have "aw_required_approvals r = aw_required_approvals row" by (simp add: frozen_iff)
    with t r n show "may_move t r (aw_status (r\<lparr>aw_status := ''approved'', aw_approved_at := Some now, aw_updated_at := now\<rparr>))"
      by (simp add: may_move_def)
  qed (auto simp: frozen_def)
  then have "ensures approval_step (\<lambda>t. reading row t \<and> n \<le> count_approvals i t)
      (if int n \<ge> aw_required_approvals row
       then bindM (d1_call DatabaseFailure (update_rows (\<lambda>r. aw_id r = i \<and> aw_status r = ''pending'')
         (\<lambda>r. r\<lparr>aw_status := ''approved'', aw_approved_at := Some now, aw_updated_at := now\<rparr>))) (\<lambda>_. returnM ())
       else returnM ()) (\<lambda>_. reading row)" for n
    by (auto intro!: ensures_returnM intro: ensures_post [OF ensures_unit])
  ultimately show ?thesis unfolding Approve approval_decision.case by (rule ensures_bindM)
qed

lemma ensures_decide: "canonical s \<Longrightarrow> ensures approval_step approval_inv (decideApproval clock env i s d c) (\<lambda>_. approval_inv)"
  unfolding decideApproval_def Let_def
  by (rule ensures_require_then, rule ensures_found, simp, rule ensures_known, rule ensures_require_then,
      rule ensures_lift_then, rule ensures_require_then, rule ensures_require_then,
      rule ensures_then, rule ensures_insertDecision, assumption, simp, assumption,
      rule ensures_then, rule ensures_decide_write, assumption,
      rule ensures_pre [OF ensures_answer]) auto

lemma ensures_cancel: "ensures approval_step approval_inv (cancelApproval clock env i s) (\<lambda>_. approval_inv)"
  unfolding cancelApproval_def
  by (rule ensures_require_then, rule ensures_found, simp, rule ensures_pre [where P' = approval_inv],
      rule ensures_require_then, rule ensures_require_then, rule ensures_then, rule ensures_update)
    (auto simp: frozen_def may_move_def intro: ensures_answer)

lemma approval_follows_finish: "follows approval_step (finishApprovalExecution env i f run e now)"
  unfolding finishApprovalExecution_def
  by (intro follows_intros follows_if)
    (auto intro!: r_into_rtranclp update_rows_step simp: frozen_def may_move_def finish_name_def split: finish_status.splits)

lemma ensures_create:
  assumes "length uuid \<le> 160"
  shows "ensures approval_step approval_inv (createApprovalRequest enc sha iv uuid clock env event s v ts q p) (\<lambda>_. approval_inv)"
proof -
  have ins: "approval_step t (t\<lparr>at_rows := at_rows t @ [new_row uuid event s q prepared c f now p]\<rparr>)"
    if "\<not> find_row uuid t \<noteq> None" for t prepared c f now
    by (rule requested) (use that assms in \<open>simp_all add: new_row_def\<close>)
  show ?thesis
    unfolding createApprovalRequest_def Let_def
    by (rule ensures_require_then, rule ensures_lift_then, rule ensures_then, rule ensures_insert)
      (use ins approval_step_inv in \<open>blast intro: ensures_answer stable_inv r_into_rtranclp\<close>)+
qed

lemma follows_list: "follows approval_step (listApprovals now env s limit)"
proof -
  have "follows approval_step (project_all env s m rs)" for m rs
    by (induction rs) (auto intro!: follows_intros follows_public)
  then show ?thesis
    unfolding listApprovals_def decisionsFor_def Let_def by (intro follows_intros follows_if follows_expire)
qed

lemma follows_read_executing: "follows approval_step (readExecutingApproval dec now env i s)"
proof -
  have "ensures approval_step (\<lambda>_. True) (approval_readRow env i now) (\<lambda>_ _. True)"
    by (rule ensures_post [OF ensures_readRow]) simp_all
  from ensures_follows [OF this] show ?thesis
    unfolding readExecutingApproval_def by (intro follows_bindM') (auto intro!: follows_intros split: option.splits sum.splits)
qed

section \<open>The claim\<close>

text \<open>What a claim that was won leaves behind.\<close>

definition claimed_row :: "decrypt \<Rightarrow> approval_env \<Rightarrow> string \<Rightarrow> policy_subject \<Rightarrow> int \<Rightarrow> approval_spec \<Rightarrow> approval_tables \<Rightarrow> bool" where
  "claimed_row dec env i s now spec t \<longleftrightarrow> (\<exists>r \<in> set (at_rows t). aw_id r = i \<and> spent_status (aw_status r) \<and> now < aw_expires_at r
     \<and> js_lower (aw_requester_identity r) = js_lower (su_identity s) \<and> decryptSpec dec (aw_encrypted_spec r) (ae_key env) = Inr spec)"

definition won :: "string \<Rightarrow> int \<Rightarrow> approval_tables \<Rightarrow> bool" where
  "won i now t \<longleftrightarrow> (\<exists>r \<in> set (at_rows t). aw_id r = i \<and> spent_status (aw_status r) \<and> now < aw_expires_at r)"

lemma stable_won [simp, intro]: "stable_under approval_step (won i now)"
  unfolding stable_under_def
proof (intro allI impI)
  fix t t' assume s: "won i now t" "approval_step t t'"
  from s(2) show "won i now t'"
  proof cases
    case (moved g)
    from s(1) obtain r where "r \<in> set (at_rows t)" "aw_id r = i" "spent_status (aw_status r)" "now < aw_expires_at r"
      by (auto simp: won_def)
    with moved(2) [of r] may_move_spent [of t r]
    have "g r \<in> set (at_rows t')" "aw_id (g r) = i" "spent_status (aw_status (g r))" "now < aw_expires_at (g r)"
      by (auto simp: moved(1) frozen_iff)
    then show ?thesis by (auto simp: won_def)
  qed (use s(1) in \<open>auto simp: won_def\<close>)
qed

lemma changes_one: "changes_below_one (d1_result n) \<longleftrightarrow> n < 1"
  by (simp add: changes_below_one_def d1_result_def)

lemma ensures_claim_write:
  "ensures approval_step (reading row) (d1_call DatabaseFailure
      (update_rows (\<lambda>r. aw_id r = i \<and> aw_status r = ''approved'' \<and> aw_expires_at r > now)
       (\<lambda>r. r\<lparr>aw_status := ''executing'', aw_updated_at := now\<rparr>)))
     (\<lambda>result t. reading row t \<and> (changes_below_one result \<or> won i now t))"
proof (rule ensures_call)
  fix t
  let ?M = "\<lambda>r. aw_id r = i \<and> aw_status r = ''approved'' \<and> aw_expires_at r > now"
  let ?f = "\<lambda>r. r\<lparr>aw_status := ''executing'', aw_updated_at := now\<rparr>"
  assume r: "reading row t"
  have s: "approval_step t (snd (update_rows ?M ?f t))" by (rule update_rows_step) (auto simp: frozen_def may_move_def)
  then show "approval_step\<^sup>*\<^sup>* t (snd (update_rows ?M ?f t))" by blast
  have "won i now (snd (update_rows ?M ?f t))" if "\<not> changes_below_one (fst (update_rows ?M ?f t))"
  proof -
    from that have "filter ?M (at_rows t) \<noteq> []" by (auto simp: update_rows_def changes_one)
    then obtain q where q: "q \<in> set (at_rows t)" "?M q" by (auto simp: filter_empty_conv)
    then have "?f q \<in> set (map (\<lambda>r. if ?M r then ?f r else r) (at_rows t))" by force
    with q(2) show ?thesis by (auto simp: won_def update_rows_def spent_status_def intro!: bexI [of _ "?f q"])
  qed
  moreover have "reading row (snd (update_rows ?M ?f t))"
    using r s stable_inv stable_known unfolding stable_under_def by blast
  ultimately show "reading row (snd (update_rows ?M ?f t))
      \<and> (changes_below_one (fst (update_rows ?M ?f t)) \<or> won i now (snd (update_rows ?M ?f t)))" by blast
qed auto

lemma won_known:
  assumes "approval_inv t" "row_known q t" "won i now t" "aw_id q = take 160 i" "spec = spec'"
    "decryptSpec dec (aw_encrypted_spec q) (ae_key env) = Inr spec'"
    "row_known row t" "aw_id row = take 160 i" "js_lower (aw_requester_identity row) = js_lower (su_identity s)"
  shows "claimed_row dec env i s now spec t"
proof -
  from assms(3) obtain r where r: "r \<in> set (at_rows t)" "aw_id r = i" "spent_status (aw_status r)" "now < aw_expires_at r"
    by (auto simp: won_def)
  with full_id assms(1) have "take 160 i = i" by blast
  with known_row [OF assms(1,2) r(1)] known_row [OF assms(1,7) r(1)] assms(4,8) r(2)
  have "frozen r = frozen q" "frozen r = frozen row" by simp_all
  with r assms(5,6,9) show ?thesis by (auto simp: claimed_row_def frozen_iff intro!: bexI [of _ r])
qed

lemma ensures_claim:
  "ensures approval_step approval_inv (claimApprovalExecution dec clock env i s)
     (\<lambda>(a, spec) t. approval_inv t \<and> claimed_row dec env i s (clock 1) spec t)"
proof -
  have tail: "ensures approval_step (\<lambda>t. reading row t \<and> won i (clock 1) t)
      (bindM (approval_readRow env i (clock 2)) (\<lambda>again. bindM (requireRow NotFound again) (\<lambda>updated.
       bindM (liftM (decryptSpec dec (aw_encrypted_spec updated) (ae_key env))) (\<lambda>spec.
       bindM (publicFromRow env updated s None) (\<lambda>approval. returnM (approval, spec))))))
      (\<lambda>(a, spec) t. approval_inv t \<and> claimed_row dec env i s (clock 1) spec t)"
    if row: "aw_id row = take 160 i" "js_lower (aw_requester_identity row) = js_lower (su_identity s)" for row
  proof (rule ensures_found)
    fix q
    let ?P = "\<lambda>t. (reading row t \<and> won i (clock 1) t) \<and> row_known q t"
    have "ensures approval_step ?P
        (bindM (liftM (decryptSpec dec (aw_encrypted_spec q) (ae_key env))) (\<lambda>spec.
         bindM (publicFromRow env q s None) (\<lambda>approval. returnM (approval, spec))))
        (\<lambda>(a, spec) t. approval_inv t \<and> claimed_row dec env i s (clock 1) spec t)" if q: "aw_id q = take 160 i"
      by (rule ensures_lift_then, rule ensures_bindM, rule ensures_public, simp add: stable_and, rule ensures_returnM)
        (use won_known [OF _ _ _ q] row in blast)
    moreover have "row_known q t \<and> aw_id q = take 160 i" if "find_row (take 160 i) t = Some q" for t
      using find_row_Some [OF that] by (auto simp: row_known_def)
    ultimately show "ensures approval_step (\<lambda>t. (reading row t \<and> won i (clock 1) t) \<and> find_row (take 160 i) t = Some q)
        (bindM (liftM (decryptSpec dec (aw_encrypted_spec q) (ae_key env))) (\<lambda>spec.
         bindM (publicFromRow env q s None) (\<lambda>approval. returnM (approval, spec))))
        (\<lambda>(a, spec) t. approval_inv t \<and> claimed_row dec env i s (clock 1) spec t)"
      unfolding ensures_def by blast
  qed auto
  show ?thesis
    unfolding claimApprovalExecution_def
    by (rule ensures_require_then, rule ensures_found, simp, rule ensures_known, rule ensures_require_then, rule ensures_require_then,
        rule ensures_bindM, rule ensures_claim_write, rule ensures_require_then, rule ensures_pre [OF tail]) auto
qed

text \<open>A request that was once claimed cannot be claimed again.\<close>

lemma ensures_spent_claim:
  "ensures approval_step (\<lambda>t. approval_inv t \<and> row_spent i t) (claimApprovalExecution dec clock env i s) (\<lambda>_ _. False)"
proof -
  have "\<not> statusValue (aw_status q) = Approved" if "approval_inv t" "row_spent i t" "find_row (take 160 i) t = Some q" for t q
  proof -
    from that(2) obtain r where r: "r \<in> set (at_rows t)" "aw_id r = i" "spent_status (aw_status r)" by (auto simp: row_spent_def)
    with full_id that(1) have "take 160 i = i" by blast
    with find_row_in [OF that(1) r(1)] r(2) that(3) have "q = r" by simp
    with r(3) show ?thesis by (auto simp: spent_status_def statusValue_def)
  qed
  then have refused: "ensures approval_step (\<lambda>t. (approval_inv t \<and> row_spent i t) \<and> find_row (take 160 i) t = Some q)
      (bindM (requireM (statusValue (aw_status q) = Approved) NotApproved) m) (\<lambda>_ _. False)" for q and m :: "unit \<Rightarrow> 'x approval_eff"
    by (cases "statusValue (aw_status q) = Approved")
      (auto simp: ensures_def bindM_run requireM_run split: prod.splits sum.splits)
  show ?thesis
    unfolding claimApprovalExecution_def
    by (rule ensures_require_then, rule ensures_found, simp, rule ensures_require_then, rule refused)
qed

end
