(* ===== verification/ApprovalRun.thy ===== *)
theory ApprovalRun
  imports ApprovalSafety ConstantTime
begin

text \<open>
  The operations on approval requests run without interference: a request that is created, approved and
  claimed gives back the specification it was created with. These runs are also the concrete executions
  the safety properties are applied to.
\<close>

section \<open>Calls without interference\<close>

abbreviation quiet :: "approval_tables \<Rightarrow> approval_tables database" where
  "quiet t \<equiv> \<lparr>db_tables = t, db_schedule = []\<rparr>"

lemma find_map: "(\<And>r. aw_id (g r) = aw_id r) \<Longrightarrow> find (\<lambda>r. aw_id r = i) (map g rs) = map_option g (find (\<lambda>r. aw_id r = i) rs)"
  by (induction rs) auto

lemma find_row_update:
  assumes "\<And>r. aw_id (f r) = aw_id r"
  shows "find_row i (snd (update_rows P f t)) = map_option (\<lambda>r. if P r then f r else r) (find_row i t)"
  unfolding find_row_def update_rows_def using assms by (simp add: find_map)

lemma decisions_update [simp]: "at_decisions (snd (update_rows P f t)) = at_decisions t"
  by (simp add: update_rows_def)

definition expired :: "int \<Rightarrow> approval_tables \<Rightarrow> approval_tables" where
  "expired now t = snd (expire_rows now t)"

lemma decisions_expired [simp]: "at_decisions (expired now t) = at_decisions t"
  by (simp add: expired_def expire_rows_def)

lemma find_row_expired: "find_row i t = Some r \<Longrightarrow> now < aw_expires_at r \<Longrightarrow> find_row i (expired now t) = Some r"
  unfolding expired_def expire_rows_def by (subst find_row_update) auto

lemma readRow_quiet:
  "ae_hasDB env \<Longrightarrow> approval_readRow env i now (quiet t) = (Inr (find_row (take 160 i) (expired now t)), quiet (expired now t))"
  by (simp add: approval_readRow_def expireApprovals_def bindM_run d1_quiet returnM_run expired_def)

lemma decisionsFor_quiet: "\<exists>m. decisionsFor env ids (quiet t) = (Inr m, quiet t)"
  by (auto simp: decisionsFor_def returnM_run d1_quiet Let_def)

text \<open>The decisions a subject sees of one request are the table's.\<close>

lemma public_quiet:
  assumes "isEligibleApprover row s = Inr b"
  shows "\<exists>ds. publicFromRow env row s None (quiet t) = (Inr (public_view row s ds b), quiet t)"
proof -
  obtain m where "decisionsFor env [aw_id row] (quiet t) = (Inr m, quiet t)" using decisionsFor_quiet by blast
  with assms show ?thesis by (auto simp: publicFromRow_def bindM_run liftM_run returnM_run)
qed

lemma answer_quiet:
  assumes "ae_hasDB env" "find_row (take 160 i) (expired now t) = Some row" "isEligibleApprover row s = Inr b"
  shows "\<exists>ds. bindM (approval_readRow env i now) (\<lambda>x. bindM (requireRow e x) (\<lambda>r. publicFromRow env r s None)) (quiet t)
     = (Inr (public_view row s ds b), quiet (expired now t))"
  using public_quiet [OF assms(3)] by (simp add: bindM_run readRow_quiet assms(1,2) requireRow_def returnM_run)

lemma insert_quiet: "\<not> taken t \<Longrightarrow> d1_insert e taken ins (quiet t) = (Inr (), quiet (ins t))"
  by (simp add: d1_insert_def bindM_run d1_quiet requireM_run)

lemma update_quiet: "d1_call e (update_rows P f) (quiet t) = (Inr (fst (update_rows P f t)), quiet (snd (update_rows P f t)))"
  by (rule d1_call_quiet)

section \<open>Who may decide\<close>

lemma lower_all_strings: "lower_all (map JStr gs) = Inr (map js_lower gs)"
  by (induction gs) simp_all

lemma parseJsonArray_strings: "parseJsonArray (json_print (strings_js gs)) = map JStr gs"
proof -
  have "json_parse (json_print (strings_js gs)) = Some (strings_js gs)" by (rule json_parse_print [OF strings_js_plain])
  then show ?thesis by (simp add: parseJsonArray_def) (simp add: strings_js_def)
qed

lemma eligible_new_row:
  assumes "aw_approver_roles_json row = json_print (strings_js (map role_name roles))"
    "aw_approver_groups_json row = json_print (strings_js gs)"
  shows "\<exists>b. isEligibleApprover row s = Inr b"
    and "su_role s \<in> set roles \<Longrightarrow> js_lower (aw_requester_identity row) \<noteq> js_lower (su_identity s) \<Longrightarrow> isEligibleApprover row s = Inr True"
  using assms by (auto simp: isEligibleApprover_def parseJsonArray_strings lower_all_strings)

section \<open>The three operations in turn\<close>

lemma encrypt_key_given: "encryptSpec enc iv spec kv = Inr stored \<Longrightarrow> kv \<noteq> None \<and> kv \<noteq> Some []"
  by (auto simp: encryptSpec_def seal_def encryptionKey_def Let_def js_trim_def split: option.splits)

lemma create_quiet:
  fixes sha :: "string \<Rightarrow> string" and s :: policy_subject
  assumes "ae_hasDB env" "encryptSpec enc iv (fst (approvalSpec event vs targets parent)) (ae_key env) = Inr stored"
    and "find_row uuid t = None" "take 160 uuid = uuid" "clock 1 < clock 0 + ar_expiresMinutes q * 60000"
  defines "row \<equiv> new_row uuid event s q (approvalSpec event vs targets parent) stored
     (fingerprint sha (fst (approvalSpec event vs targets parent))) (clock 0) parent"
  shows "\<exists>a t'. createApprovalRequest enc sha iv uuid clock env event s vs targets q parent (quiet t) = (Inr a, quiet t')
    \<and> pa_status a = Pending \<and> find_row uuid t' = Some row \<and> at_decisions t' = at_decisions t"
proof -
  let ?t = "t\<lparr>at_rows := at_rows t @ [row]\<rparr>"
  have "find_row uuid ?t = Some row" using assms(3) by (simp add: find_row_def find_append row_def new_row_def)
  then have found: "find_row (take 160 uuid) (expired (clock 1) ?t) = Some row"
    using assms(4,5) by (simp add: find_row_expired row_def new_row_def)
  obtain b where "isEligibleApprover row s = Inr b"
    using eligible_new_row(1) [of row "ar_approverRoles q" "ar_approverGroups q" s] by (auto simp: row_def new_row_def)
  from answer_quiet [OF assms(1) found this] obtain ds where
    run: "bindM (approval_readRow env uuid (clock 1)) (\<lambda>x. bindM (requireRow (Message ''Approval request was not persisted'') x)
        (\<lambda>r. publicFromRow env r s None)) (quiet ?t) = (Inr (public_view row s ds b), quiet (expired (clock 1) ?t))" by blast
  have "createApprovalRequest enc sha iv uuid clock env event s vs targets q parent (quiet t)
      = (Inr (public_view row s ds b), quiet (expired (clock 1) ?t))"
    using assms(1,2,3) encrypt_key_given [OF assms(2)] run
    unfolding createApprovalRequest_def Let_def row_def
    by (simp add: bindM_run requireM_run liftM_run insert_quiet)
  moreover have "pa_status (public_view row s ds b) = Pending"
    by (simp add: public_view_def row_def new_row_def statusValue_def Let_def)
  ultimately show ?thesis using found assms(4) by auto
qed

lemma decide_quiet:
  assumes "ae_hasDB env" "take 160 i = i" "find_row i t = Some row" "aw_status row = ''pending''" "isEligibleApprover row s = Inr True"
    and "\<not> (\<exists>d \<in> set (at_decisions t). dr_approval_id d = i \<and> dr_identity d = take 160 (su_identity s))"
    and "aw_required_approvals row \<le> int (Suc (count_approvals i t))" "clock 0 < aw_expires_at row" "clock 3 < aw_expires_at row"
  defines "row' \<equiv> row\<lparr>aw_status := ''approved'', aw_approved_at := Some (clock 2), aw_updated_at := clock 2\<rparr>"
  shows "\<exists>a t'. decideApproval clock env i s Approve c (quiet t) = (Inr a, quiet t')
    \<and> pa_status a = Approved \<and> find_row i t' = Some row'"
proof -
  define t1 where "t1 = expired (clock 0) t"
  have f1: "find_row i t1 = Some row" unfolding t1_def by (rule find_row_expired [OF assms(3,8)])
  define d where "d = \<lparr>dr_approval_id = i, dr_identity = take 160 (su_identity s), dr_role = role_name (su_role s),
     dr_decision = decision_name Approve, dr_comment = non_empty (approval_cleanText (JStr c) 500), dr_decided_at = clock 1\<rparr>"
  define t2 where "t2 = t1\<lparr>at_decisions := at_decisions t1 @ [d]\<rparr>"
  have f2: "find_row i t2 = Some row" using f1 by (simp add: t2_def find_row_def)
  have n: "count_approvals i t2 = Suc (count_approvals i t)"
    by (simp add: t2_def t1_def count_approvals_def d_def decision_name_def)
  let ?M = "\<lambda>r. aw_id r = i \<and> aw_status r = ''pending''"
  let ?f = "\<lambda>r. r\<lparr>aw_status := ''approved'', aw_approved_at := Some (clock 2), aw_updated_at := clock 2\<rparr>"
  define t3 where "t3 = snd (update_rows ?M ?f t2)"
  have "find_row i t3 = Some row'"
    unfolding t3_def by (subst find_row_update) (use f2 assms(4) find_row_Some [OF f2] in \<open>auto simp: row'_def\<close>)
  then have f3: "find_row (take 160 i) (expired (clock 3) t3) = Some row'"
    using assms(2,9) by (simp add: find_row_expired row'_def)
  have "isEligibleApprover row' s = isEligibleApprover row s" by (simp add: row'_def isEligibleApprover_def)
  with assms(5) have e: "isEligibleApprover row' s = Inr True" by simp
  from answer_quiet [OF assms(1) f3 e] obtain ds where
    run: "bindM (approval_readRow env i (clock 3)) (\<lambda>x. bindM (requireRow NotFound x) (\<lambda>r. publicFromRow env r s None)) (quiet t3)
      = (Inr (public_view row' s ds True), quiet (expired (clock 3) t3))" by blast
  have ins: "insertDecision env i s Approve c (clock 1) (quiet t1) = (Inr (), quiet t2)"
    using assms(1,6) unfolding insertDecision_def t2_def d_def
    by (simp add: bindM_run requireM_run insert_quiet t1_def)
  have "decideApproval clock env i s Approve c (quiet t) = (Inr (public_view row' s ds True), quiet (expired (clock 3) t3))"
    using run n assms(7) unfolding decideApproval_def Let_def
    by (simp del: One_nat_def add: bindM_run requireM_run liftM_run readRow_quiet assms(1,2,4,5) t1_def [symmetric] f1 requireRow_def returnM_run
      statusValue_def ins d1_read_quiet update_quiet t3_def [symmetric])
  moreover have "pa_status (public_view row' s ds True) = Approved"
    by (simp add: public_view_def row'_def statusValue_def Let_def)
  ultimately show ?thesis using f3 assms(2) by auto
qed

lemma claim_quiet:
  assumes "ae_hasDB env" "take 160 i = i" "find_row i t = Some row" "aw_status row = ''approved''" "isEligibleApprover row s = Inr b"
    and "js_lower (aw_requester_identity row) = js_lower (su_identity s)" "decryptSpec dec (aw_encrypted_spec row) (ae_key env) = Inr spec"
    and "clock 0 < aw_expires_at row" "clock 1 < aw_expires_at row"
  shows "\<exists>a t'. claimApprovalExecution dec clock env i s (quiet t) = (Inr (a, spec), quiet t') \<and> pa_status a = Executing"
proof -
  define t1 where "t1 = expired (clock 0) t"
  have f1: "find_row i t1 = Some row" unfolding t1_def by (rule find_row_expired [OF assms(3,8)])
  let ?M = "\<lambda>r. aw_id r = i \<and> aw_status r = ''approved'' \<and> aw_expires_at r > clock 1"
  let ?f = "\<lambda>r. r\<lparr>aw_status := ''executing'', aw_updated_at := clock 1\<rparr>"
  define row' where "row' = ?f row"
  define t2 where "t2 = snd (update_rows ?M ?f t1)"
  have r: "row \<in> set (at_rows t1)" "?M row" using find_row_Some [OF f1] assms(4,9) by simp_all
  then have "0 < length (filter ?M (at_rows t1))" by (auto simp: filter_empty_conv)
  then have changed: "\<not> changes_below_one (fst (update_rows ?M ?f t1))" by (simp add: update_rows_def changes_one)
  have "find_row i t2 = Some row'"
    unfolding t2_def by (subst find_row_update) (use f1 r(2) in \<open>auto simp: row'_def\<close>)
  then have "find_row i (expired (clock 2) t2) = Some row'"
    unfolding expired_def expire_rows_def by (subst find_row_update) (auto simp: row'_def)
  then have f3: "find_row (take 160 i) (expired (clock 2) t2) = Some row'" using assms(2) by simp
  have "isEligibleApprover row' s = isEligibleApprover row s" by (simp add: row'_def isEligibleApprover_def)
  with assms(5) have "isEligibleApprover row' s = Inr b" by simp
  from public_quiet [OF this] obtain ds where
    p: "publicFromRow env row' s None (quiet (expired (clock 2) t2)) = (Inr (public_view row' s ds b), quiet (expired (clock 2) t2))" by blast
  have dec: "decryptSpec dec (aw_encrypted_spec row') (ae_key env) = Inr spec" using assms(7) by (simp add: row'_def)
  have "claimApprovalExecution dec clock env i s (quiet t) = (Inr (public_view row' s ds b, spec), quiet (expired (clock 2) t2))"
    using changed p f3 dec unfolding claimApprovalExecution_def
    by (simp del: One_nat_def add: bindM_run requireM_run liftM_run readRow_quiet assms(1,2,4,6) t1_def [symmetric] f1 requireRow_def returnM_run
      statusValue_def update_quiet t2_def [symmetric])
  moreover have "pa_status (public_view row' s ds b) = Executing"
    by (simp add: public_view_def row'_def statusValue_def Let_def)
  ultimately show ?thesis by blast
qed

section \<open>The properties\<close>

text \<open>A request to the portal that works on approvals, its result forgotten.\<close>

datatype approval_op =
    CreateOp string catalog_event policy_subject js "string list" requirement string
  | DecideOp string policy_subject approval_decision string
  | CancelOp string policy_subject
  | ClaimOp string policy_subject
  | FinishOp string finish_status string string
  | ListOp policy_subject int

fun run_approval ::
  "encrypt \<Rightarrow> decrypt \<Rightarrow> (string \<Rightarrow> string) \<Rightarrow> nat list \<Rightarrow> (nat \<Rightarrow> int) \<Rightarrow> approval_env \<Rightarrow> approval_op \<Rightarrow> unit approval_eff" where
  "run_approval enc dec sha iv clock env (CreateOp uuid event s vs ts q p) =
     bindM (createApprovalRequest enc sha iv uuid clock env event s vs ts q p) (\<lambda>_. returnM ())"
| "run_approval enc dec sha iv clock env (DecideOp i s d c) = bindM (decideApproval clock env i s d c) (\<lambda>_. returnM ())"
| "run_approval enc dec sha iv clock env (CancelOp i s) = bindM (cancelApproval clock env i s) (\<lambda>_. returnM ())"
| "run_approval enc dec sha iv clock env (ClaimOp i s) = bindM (claimApprovalExecution dec clock env i s) (\<lambda>_. returnM ())"
| "run_approval enc dec sha iv clock env (FinishOp i f r e) = finishApprovalExecution env i f r e (clock 0)"
| "run_approval enc dec sha iv clock env (ListOp s n) = bindM (listApprovals (clock 0) env s n) (\<lambda>_. returnM ())"

text \<open>A UUID has 36 characters, and the subjects are those the portal admits.\<close>

fun admitted_op :: "approval_op \<Rightarrow> bool" where
  "admitted_op (CreateOp uuid event s vs ts q p) = (length uuid \<le> 160)"
| "admitted_op (DecideOp i s d c) = canonical s"
| "admitted_op _ = True"

lemma ensures_forget: "ensures R P m (\<lambda>_. P) \<Longrightarrow> ensures R P (bindM m (\<lambda>_. returnM ())) (\<lambda>_. P)"
  by (rule ensures_unit)

lemma ensures_run: "admitted_op op \<Longrightarrow> ensures approval_step approval_inv (run_approval enc dec sha iv clock env op) (\<lambda>_. approval_inv)"
proof (cases op)
  case (ClaimOp i s)
  have "ensures approval_step approval_inv (claimApprovalExecution dec clock env i s) (\<lambda>_. approval_inv)"
    by (rule ensures_post [OF ensures_claim]) auto
  then show ?thesis unfolding ClaimOp run_approval.simps by (rule ensures_forget)
qed (auto intro!: ensures_forget ensures_create ensures_decide ensures_cancel ensures_frame approval_follows_finish follows_list)

text \<open>C15: Whatever requests, cancellations, decisions, claims and listings run concurrently, each of them
  moves the tables only by steps of the approval protocol and keeps their invariant: a request is never
  approved, executing or executed without the approvals it requires, nobody decides twice, and no requester
  who must not approve decides on an own request. This holds whether the operation returns or throws.\<close>

theorem approvals_invariant:
  assumes "approval_inv (db_tables w)" "env_follows approval_step w" "admitted_op op"
    and "run_approval enc dec sha iv clock env op w = (r, w')"
  shows "approval_inv (db_tables w') \<and> approval_step\<^sup>*\<^sup>* (db_tables w) (db_tables w') \<and> env_follows approval_step w'"
proof -
  note e = ensuresD [OF ensures_run [OF assms(3)] assms(2,1,4)]
  from approvals.steps_inv [OF e(1) assms(1)] e(1,2) show ?thesis by blast
qed

definition approvers :: "string \<Rightarrow> approval_tables \<Rightarrow> string set" where
  "approvers i t = dr_identity ` {d \<in> set (at_decisions t). dr_approval_id d = i \<and> dr_decision d = ''approve''}"

lemma count_approvers:
  assumes "approval_inv t"
  shows "count_approvals i t = card (approvers i t)"
proof -
  let ?ds = "filter (\<lambda>d. dr_approval_id d = i \<and> dr_decision d = ''approve'') (at_decisions t)"
  have d: "distinct (at_decisions t)" "inj_on (\<lambda>d. (dr_approval_id d, dr_identity d)) (set (at_decisions t))"
    using assms by (auto simp: approval_inv_def distinct_map)
  then have "inj_on dr_identity (set ?ds)" by (auto simp: inj_on_def)
  then have "card (dr_identity ` set ?ds) = card (set ?ds)" by (rule card_image)
  also have "\<dots> = length ?ds" by (rule distinct_card) (simp add: d(1))
  finally show ?thesis by (simp add: approvers_def count_approvals_def)
qed

lemma claim_quorum:
  assumes "approval_inv (db_tables w)" "env_follows approval_step w"
    and "claimApprovalExecution dec clock env i s w = (Inr (a, spec), w')"
  shows "\<exists>r. find_row i (db_tables w') = Some r \<and> js_lower (aw_requester_identity r) = js_lower (su_identity s)
    \<and> clock 1 < aw_expires_at r \<and> decryptSpec dec (aw_encrypted_spec r) (ae_key env) = Inr spec
    \<and> aw_required_approvals r \<le> int (card (approvers i (db_tables w')))
    \<and> \<not> (aw_requester_cannot_approve r = 1 \<and> js_lower (aw_requester_identity r) \<in> approvers i (db_tables w'))"
proof -
  from ensuresD(3) [OF ensures_claim assms(2,1,3) refl]
  have inv: "approval_inv (db_tables w')" and c: "claimed_row dec env i s (clock 1) spec (db_tables w')" by simp_all
  from c obtain r where r: "r \<in> set (at_rows (db_tables w'))" "aw_id r = i" "spent_status (aw_status r)" "clock 1 < aw_expires_at r"
    "js_lower (aw_requester_identity r) = js_lower (su_identity s)" "decryptSpec dec (aw_encrypted_spec r) (ae_key env) = Inr spec"
    by (auto simp: claimed_row_def)
  have "find_row i (db_tables w') = Some r" using find_row_in [OF inv r(1)] r(2) by simp
  moreover have "aw_required_approvals r \<le> int (card (approvers i (db_tables w')))"
    using inv r(1-3) count_approvers [OF inv] by (auto simp: approval_inv_def passed_status_def)
  moreover have "\<not> (aw_requester_cannot_approve r = 1 \<and> js_lower (aw_requester_identity r) \<in> approvers i (db_tables w'))"
  proof
    assume "aw_requester_cannot_approve r = 1 \<and> js_lower (aw_requester_identity r) \<in> approvers i (db_tables w')"
    then obtain d where "d \<in> set (at_decisions (db_tables w'))" "own_decision r d"
      using r(2) by (auto simp: approvers_def own_decision_def)
    with inv r(1) show False unfolding approval_inv_def by blast
  qed
  ultimately show ?thesis using r by blast
qed

text \<open>C13: When a claim succeeds, the claimant is the requester, the time of the request has not run out, the
  specification is the one that was stored, and at least the required number of distinct subjects have
  approved it, none of them the requester where that is forbidden.\<close>

theorem claim_requires_quorum:
  assumes "approval_inv (db_tables w)" "env_follows approval_step w"
    and "claimApprovalExecution dec clock env i s w = (Inr (a, spec), w')"
  shows "\<exists>r. find_row i (db_tables w') = Some r \<and> js_lower (aw_requester_identity r) = js_lower (su_identity s)
    \<and> clock 1 < aw_expires_at r \<and> decryptSpec dec (aw_encrypted_spec r) (ae_key env) = Inr spec
    \<and> aw_required_approvals r \<le> int (card (approvers i (db_tables w')))
    \<and> \<not> (aw_requester_cannot_approve r = 1 \<and> js_lower (aw_requester_identity r) \<in> approvers i (db_tables w'))"
  by (rule claim_quorum [OF assms])

text \<open>C14: An approval is good for one execution: after a claim has succeeded, every later claim of the same
  request fails, by whomever and however much has happened in between.\<close>

theorem claim_once:
  assumes "approval_inv (db_tables w)" "env_follows approval_step w"
    and "claimApprovalExecution dec clock env i s w = (Inr x, w1)"
    and "approval_step\<^sup>*\<^sup>* (db_tables w1) (db_tables w2)" "env_follows approval_step w2"
    and "claimApprovalExecution dec' clock' env' i s' w2 = (r, w3)"
  shows "\<exists>e. r = Inl e"
proof (cases r)
  case (Inr y)
  from ensuresD(3) [OF ensures_claim assms(2,1,3) refl]
  have "approval_inv (db_tables w1)" "row_spent i (db_tables w1)" by (auto simp: claimed_row_def row_spent_def split: prod.splits)
  then have p: "approval_inv (db_tables w2) \<and> row_spent i (db_tables w2)"
    using stable_underD [OF stable_inv assms(4)] stable_underD [OF stable_spent assms(4)] by blast
  show ?thesis using ensuresD(3) [OF ensures_spent_claim assms(5) p assms(6) Inr] by simp
qed simp

lemma approval_run_through:
  assumes "good_cipher enc dec" "length iv = 12" "bytes_ok iv" "ae_hasDB env" "encryptionKey (ae_key env) = Inr key"
    and "spec = fst (approvalSpec event vs targets parent)" "bounded_spec spec"
    and "find_row uuid t = None" "count_approvals uuid t = 0" "length uuid \<le> 160"
    and "\<not> (\<exists>d \<in> set (at_decisions t). dr_approval_id d = uuid)"
    and "ar_requiredApprovals q = 1" "su_role approver \<in> set (ar_approverRoles q)" "canonical s" "canonical approver"
    and "su_identity approver \<noteq> su_identity s"
    and "\<forall>n. clock n < clock 0 + ar_expiresMinutes q * 60000"
  shows "\<exists>a1 a2 a3 t1 t2 t3.
    createApprovalRequest enc sha iv uuid clock env event s vs targets q parent (quiet t) = (Inr a1, quiet t1) \<and> pa_status a1 = Pending
    \<and> decideApproval clock env uuid approver Approve comment (quiet t1) = (Inr a2, quiet t2) \<and> pa_status a2 = Approved
    \<and> claimApprovalExecution dec clock env uuid s (quiet t2) = (Inr (a3, spec), quiet t3) \<and> pa_status a3 = Executing"
proof -
  obtain stored where st: "encryptSpec enc iv spec (ae_key env) = Inr stored" using assms(5) by (simp add: encryptSpec_def seal_def)
  note stored_back = stored_spec_back [OF assms(1-3) assms(7) st]
  have u: "take 160 uuid = uuid" using assms(10) by simp
  define row where "row = new_row uuid event s q (approvalSpec event vs targets parent) stored
     (fingerprint sha (fst (approvalSpec event vs targets parent))) (clock 0) parent"
  from create_quiet [where sha = sha and s = s and clock = clock, OF assms(4) st [unfolded assms(6)] assms(8) u spec [OF assms(17)]]
  obtain a1 t1 where c: "createApprovalRequest enc sha iv uuid clock env event s vs targets q parent (quiet t) = (Inr a1, quiet t1)"
    "pa_status a1 = Pending" "find_row uuid t1 = Some row" "at_decisions t1 = at_decisions t" unfolding row_def by blast
  have e: "isEligibleApprover row approver = Inr True"
    using assms(13-16) by (intro eligible_new_row(2)) (simp_all add: row_def new_row_def canonical_def)
  obtain b where b: "isEligibleApprover row s = Inr b"
    using eligible_new_row(1) [of row "ar_approverRoles q" "ar_approverGroups q" s] by (auto simp: row_def new_row_def)
  have row: "aw_status row = ''pending''" "aw_required_approvals row = 1" "aw_expires_at row = clock 0 + ar_expiresMinutes q * 60000"
    "aw_encrypted_spec row = stored" "js_lower (aw_requester_identity row) = js_lower (su_identity s)"
    using assms(12,14) by (simp_all add: row_def new_row_def canonical_def)
  have first: "\<not> (\<exists>d \<in> set (at_decisions t1). dr_approval_id d = uuid \<and> dr_identity d = take 160 (su_identity approver))"
    using assms(11) c(4) by auto
  have quorum: "aw_required_approvals row \<le> int (Suc (count_approvals uuid t1))" using row(2) by simp
  have time: "clock n < aw_expires_at row" for n using assms(17) row(3) by simp
  from decide_quiet [where clock = clock, OF assms(4) u c(3) row(1) e first quorum time [of 0] time [of 3], where c = comment]
  obtain a2 t2 where d: "decideApproval clock env uuid approver Approve comment (quiet t1) = (Inr a2, quiet t2)" "pa_status a2 = Approved"
    "find_row uuid t2 = Some (row\<lparr>aw_status := ''approved'', aw_approved_at := Some (clock 2), aw_updated_at := clock 2\<rparr>)" by blast
  let ?row = "row\<lparr>aw_status := ''approved'', aw_approved_at := Some (clock 2), aw_updated_at := clock 2\<rparr>"
  have "isEligibleApprover ?row s = isEligibleApprover row s" by (simp add: isEligibleApprover_def)
  then have b': "isEligibleApprover ?row s = Inr b" using b by simp
  have "\<exists>a3 t3. claimApprovalExecution dec clock env uuid s (quiet t2) = (Inr (a3, spec), quiet t3) \<and> pa_status a3 = Executing"
    by (rule claim_quiet [OF assms(4) u d(3) _ b']) (use row(4,5) stored_back time in simp_all)
  with c d show ?thesis by blast
qed

text \<open>C20: While nobody else acts, a request that requires one approval, is approved by another subject in one of the roles the
  policy names and is claimed by its requester before its time has run out, gives back exactly the specification it
  was created with, if that is within the limits of the reader: at most 240 characters for the process, 80 for the version of its
  schema and 160 for the parent run, at most 100 targets and 100 password fields, and values that JSON prints and
  reads back as they are, without fractions and repeated keys. What is longer the reader cuts off. The identifier of the request
  is fresh, and the cipher decrypts what it has encrypted.\<close>

theorem approval_end_to_end:
  assumes "good_cipher enc dec" "length iv = 12" "bytes_ok iv" "ae_hasDB env" "encryptionKey (ae_key env) = Inr key"
    and "spec = fst (approvalSpec event vs targets parent)" "bounded_spec spec"
    and "find_row uuid t = None" "count_approvals uuid t = 0" "length uuid \<le> 160"
    and "\<not> (\<exists>d \<in> set (at_decisions t). dr_approval_id d = uuid)"
    and "ar_requiredApprovals q = 1" "su_role approver \<in> set (ar_approverRoles q)" "canonical s" "canonical approver"
    and "su_identity approver \<noteq> su_identity s"
    and "\<forall>n. clock n < clock 0 + ar_expiresMinutes q * 60000"
  shows "\<exists>a1 a2 a3 t1 t2 t3.
    createApprovalRequest enc sha iv uuid clock env event s vs targets q parent (quiet t) = (Inr a1, quiet t1) \<and> pa_status a1 = Pending
    \<and> decideApproval clock env uuid approver Approve comment (quiet t1) = (Inr a2, quiet t2) \<and> pa_status a2 = Approved
    \<and> claimApprovalExecution dec clock env uuid s (quiet t2) = (Inr (a3, spec), quiet t3) \<and> pa_status a3 = Executing"
  by (rule approval_run_through [OF assms])

section \<open>A concrete run\<close>

definition sample_env :: approval_env where
  "sample_env = \<lparr>ae_hasDB = True, ae_key = Some (replicate 64 (CHR ''a''))\<rparr>"

lemma sample_key: "encryptionKey (ae_key sample_env) = Inr (replicate 32 170)"
  by code_simp

definition sample_requester :: policy_subject where
  "sample_requester = \<lparr>su_identity = ''bob@example.org'', su_role = Operator, su_groups = []\<rparr>"

definition sample_approver :: policy_subject where
  "sample_approver = \<lparr>su_identity = ''ann@example.org'', su_role = Admin, su_groups = []\<rparr>"

lemma sample_canonical: "canonical sample_requester" "canonical sample_approver"
  by code_simp+

definition sample_event :: catalog_event where
  "sample_event = (plain_event ''e'' [])\<lparr>ce_dangerous := True\<rparr>"

abbreviation no_requests :: approval_tables where
  "no_requests \<equiv> \<lparr>at_rows = [], at_decisions = []\<rparr>"

lemma sample_inv: "approval_inv no_requests"
  by (simp add: approval_inv_def)

lemma sample_spec_bounded: "bounded_spec (fst (approvalSpec sample_event (JObj []) [] []))"
  by (simp add: approvalSpec_def spec_parts_of_def sample_event_def plain_event_def event_schema_def bounded_spec_def)

text \<open>The clock of the run stands still.\<close>

lemmas sample_through = approval_run_through [OF sample_cipher, where env = sample_env and iv = "replicate 12 0"
  and event = sample_event and vs = "JObj []" and targets = "[]" and parent = "[]" and uuid = "''u''" and t = no_requests
  and q = defaultDangerousRequirement and approver = sample_approver and s = sample_requester and clock = "\<lambda>_. 0"
  and sha = id and comment = "[]" and key = "replicate 32 170"]

lemma sample_run:
  "\<exists>a1 a2 a3 t1 t2 t3.
    createApprovalRequest sample_encrypt id (replicate 12 0) ''u'' (\<lambda>_. 0) sample_env sample_event sample_requester (JObj []) []
      defaultDangerousRequirement [] (quiet no_requests) = (Inr a1, quiet t1)
    \<and> decideApproval (\<lambda>_. 0) sample_env ''u'' sample_approver Approve [] (quiet t1) = (Inr a2, quiet t2)
    \<and> claimApprovalExecution sample_decrypt (\<lambda>_. 0) sample_env ''u'' sample_requester (quiet t2)
      = (Inr (a3, fst (approvalSpec sample_event (JObj []) [] [])), quiet t3)"
  using sample_through [OF _ _ _ sample_key refl sample_spec_bounded] sample_canonical
  by (simp add: bytes_ok_def list_all_iff sample_env_def find_row_def count_approvals_def defaultDangerousRequirement_def)
    (auto simp: sample_approver_def sample_requester_def)

lemma sample_claimed:
  "\<exists>a t2 t3. approval_inv t2
    \<and> claimApprovalExecution sample_decrypt (\<lambda>_. 0) sample_env ''u'' sample_requester (quiet t2)
      = (Inr (a, fst (approvalSpec sample_event (JObj []) [] [])), quiet t3)"
proof -
  from sample_run obtain a1 a2 a3 t1 t2 t3 where
    c: "createApprovalRequest sample_encrypt id (replicate 12 0) ''u'' (\<lambda>_. 0) sample_env sample_event sample_requester (JObj []) []
      defaultDangerousRequirement [] (quiet no_requests) = (Inr a1, quiet t1)"
    and d: "decideApproval (\<lambda>_. 0) sample_env ''u'' sample_approver Approve [] (quiet t1) = (Inr a2, quiet t2)"
    and e: "claimApprovalExecution sample_decrypt (\<lambda>_. 0) sample_env ''u'' sample_requester (quiet t2)
      = (Inr (a3, fst (approvalSpec sample_event (JObj []) [] [])), quiet t3)"
    by blast
  have "approval_inv (db_tables (quiet t1))"
    by (rule ensuresD(3) [OF ensures_create env_follows_quiet _ c refl]) (simp_all add: sample_inv)
  then have "approval_inv (db_tables (quiet t2))"
    by (rule ensuresD(3) [OF ensures_decide [OF sample_canonical(2)] env_follows_quiet _ d refl])
  with e show ?thesis by auto
qed

lemma approvals_invariant_witness:
  "approval_inv (db_tables (snd (run_approval sample_encrypt sample_decrypt id [] (\<lambda>_. 0) sample_env
     (DecideOp ''u'' sample_approver Approve []) (quiet no_requests))))"
  using approvals_invariant [where w = "quiet no_requests" and op = "DecideOp ''u'' sample_approver Approve []"]
    sample_inv sample_canonical by (metis admitted_op.simps(2) approval_tables.select_convs database.select_convs(1) env_follows_quiet prod.collapse)

lemma claim_requires_quorum_witness:
  "\<exists>a spec t2 t3 r. claimApprovalExecution sample_decrypt (\<lambda>_. 0) sample_env ''u'' sample_requester (quiet t2) = (Inr (a, spec), quiet t3)
     \<and> find_row ''u'' t3 = Some r \<and> aw_required_approvals r \<le> int (card (approvers ''u'' t3))"
proof -
  from sample_claimed obtain a spec t2 t3 where i: "approval_inv (db_tables (quiet t2))"
    and c: "claimApprovalExecution sample_decrypt (\<lambda>_. 0) sample_env ''u'' sample_requester (quiet t2) = (Inr (a, spec), quiet t3)" by auto
  from claim_requires_quorum [OF i env_follows_quiet c]
  have "\<exists>r. find_row ''u'' t3 = Some r \<and> aw_required_approvals r \<le> int (card (approvers ''u'' t3))" by auto
  with c show ?thesis by blast
qed

lemma claim_once_witness:
  "\<exists>a spec t2 t3 e w3. claimApprovalExecution sample_decrypt (\<lambda>_. 0) sample_env ''u'' sample_requester (quiet t2) = (Inr (a, spec), quiet t3)
     \<and> claimApprovalExecution sample_decrypt (\<lambda>_. 0) sample_env ''u'' sample_requester (quiet t3) = (Inl e, w3)"
proof -
  from sample_claimed obtain a spec t2 t3 where i: "approval_inv (db_tables (quiet t2))"
    and c: "claimApprovalExecution sample_decrypt (\<lambda>_. 0) sample_env ''u'' sample_requester (quiet t2) = (Inr (a, spec), quiet t3)" by auto
  obtain r w3 where s: "claimApprovalExecution sample_decrypt (\<lambda>_. 0) sample_env ''u'' sample_requester (quiet t3) = (r, w3)" by force
  from claim_once [OF i env_follows_quiet c rtranclp.rtrancl_refl env_follows_quiet s] s c show ?thesis by blast
qed

lemma approval_end_to_end_witness:
  "\<exists>a t2 t3. claimApprovalExecution sample_decrypt (\<lambda>_. 0) sample_env ''u'' sample_requester (quiet t2)
     = (Inr (a, fst (approvalSpec sample_event (JObj []) [] [])), quiet t3) \<and> pa_status a = Executing"
proof -
  have "sample_requester \<noteq> sample_approver \<and> su_identity sample_approver \<noteq> su_identity sample_requester"
    by (simp add: sample_requester_def sample_approver_def)
  then show ?thesis
    using approval_end_to_end [OF sample_cipher _ _ _ sample_key refl sample_spec_bounded, where iv = "replicate 12 0" and uuid = "''u''"
      and t = no_requests and q = defaultDangerousRequirement and approver = sample_approver and s = sample_requester
      and clock = "\<lambda>_. 0" and sha = id and comment = "[]"] sample_canonical
    by (simp add: bytes_ok_def list_all_iff sample_env_def find_row_def count_approvals_def defaultDangerousRequirement_def)
      (auto simp: sample_approver_def)
qed

end
