(* ===== verification/PortalAccess.thy ===== *)
theory PortalAccess
  imports ApprovalSafety
begin

text \<open>
  Who makes a request: the canonical request context of \<open>src/auth/portal-request-context.ts\<close> and the
  subject the workers read from the trusted headers, \<open>src/worker/portal-access-runtime.ts\<close>. Both bound
  the identity, so every subject is \<open>canonical\<close> in the sense the approval protocol needs.
\<close>

section \<open>The request context\<close>

datatype auth_mode = Anonymous | LocalSession | ServiceAdmin | Proxy | Static | Workspace

definition parse_auth_mode :: "js \<Rightarrow> auth_mode option" where
  "parse_auth_mode v =
     (if v = JStr ''anonymous'' then Some Anonymous else if v = JStr ''local-session'' then Some LocalSession
      else if v = JStr ''service-admin'' then Some ServiceAdmin else if v = JStr ''proxy'' then Some Proxy
      else if v = JStr ''static'' then Some Static else if v = JStr ''workspace'' then Some Workspace else None)"

text \<open>A collection given for the groups or the permissions: absent, a bare text, or its items in order.\<close>

datatype 'a given = Absent | BareText | Items "'a list"

record context_input =
  ci_correlationId :: js
  ci_identity :: js
  ci_role :: js
  ci_groups :: "js given"
  ci_permissions :: "string given"
  ci_authMode :: js

record request_context =
  rx_correlationId :: string
  rx_identity :: string
  rx_role :: portal_role
  rx_groups :: "string list"
  rx_permissions :: "string list"
  rx_authMode :: auth_mode

definition has_line_break :: "string \<Rightarrow> bool" where
  "has_line_break s = list_ex (\<lambda>c. c = CHR 0x0D \<or> c = CHR 0x0A) s"

definition boundedIdentity :: "js \<Rightarrow> string + string" where
  "boundedIdentity v =
     (let identity = js_lower (js_trim (to_str (coalesce v (JStr [])))) in
      bindE (guardE (\<not> (identity = [] \<or> has_line_break identity)) ''Portal request identity is invalid'') (\<lambda>_.
      Inr (take 160 identity)))"

definition boundedCorrelationId :: "js \<Rightarrow> string + string" where
  "boundedCorrelationId v =
     (let i = js_trim (to_str (coalesce v (JStr []))) in
      bindE (guardE (\<not> (i = [] \<or> length i > 160 \<or> has_line_break i)) ''Portal request correlation id is invalid'') (\<lambda>_.
      Inr i))"

definition group_ok :: "string \<Rightarrow> bool" where
  "group_ok g \<longleftrightarrow> g \<noteq> [] \<and> length g \<le> 120 \<and> \<not> has_line_break g"

definition normalizedGroups :: "js given \<Rightarrow> string + string list" where
  "normalizedGroups g = (case g of
      BareText \<Rightarrow> Inl ''Portal request groups must be a collection''
    | Absent \<Rightarrow> Inr []
    | Items vs \<Rightarrow> Inr (take 100 (uniq (filter group_ok
        (map (\<lambda>v. js_lower (js_trim (to_str (coalesce v (JStr []))))) vs)))))"

fun permission_name :: "portal_permission \<Rightarrow> string" where
  "permission_name DirectoryRead = ''directory.read''"
| "permission_name FreeipaWrite = ''freeipa.write''"
| "permission_name FreeipaDelete = ''freeipa.delete''"
| "permission_name XyopsRun = ''xyops.run''"
| "permission_name XyopsApprove = ''xyops.approve''"
| "permission_name SettingsManage = ''settings.manage''"
| "permission_name BackupExport = ''backup.export''"
| "permission_name BackupExportEncrypted = ''backup.export.encrypted''"
| "permission_name BackupRestorePreview = ''backup.restore.preview''"
| "permission_name BackupRestoreTest = ''backup.restore.test''"
| "permission_name BackupRestorePrepare = ''backup.restore.prepare''"
| "permission_name BackupRestoreCommit = ''backup.restore.commit''"
| "permission_name BackupRestoreCancel = ''backup.restore.cancel''"
| "permission_name MaintenanceManage = ''maintenance.manage''"

definition allowed_names :: "portal_role \<Rightarrow> string list" where
  "allowed_names role = map permission_name (portalRolePermissions role)"

text \<open>The test is \<open>if (expanded) throw\<close>: the first entry that is not allowed counts only when it is not
  the empty text.\<close>

definition normalizedPermissions :: "portal_role \<Rightarrow> string given \<Rightarrow> string + string list" where
  "normalizedPermissions role given = (case given of
      Absent \<Rightarrow> Inr (allowed_names role)
    | BareText \<Rightarrow> Inl ''Portal request permissions must be a collection''
    | Items vs \<Rightarrow>
        (let permissions = uniq vs in
         case find (\<lambda>p. p \<notin> set (allowed_names role)) permissions of
           Some expanded \<Rightarrow>
             (if expanded \<noteq> [] then Inl (''Portal request permission '' @ expanded @ '' exceeds role '' @ role_name role)
              else Inr permissions)
         | None \<Rightarrow> Inr permissions))"

definition validatedRole :: "js \<Rightarrow> string + portal_role" where
  "validatedRole v = (case isPortalRole v of Some r \<Rightarrow> Inr r | None \<Rightarrow> Inl ''Portal request role is invalid'')"

definition validatedAuthMode :: "js \<Rightarrow> string + auth_mode" where
  "validatedAuthMode v = (case parse_auth_mode v of Some m \<Rightarrow> Inr m | None \<Rightarrow> Inl ''Portal request auth mode is invalid'')"

definition createPortalRequestContext :: "context_input \<Rightarrow> string + request_context" where
  "createPortalRequestContext inp =
     bindE (validatedRole (ci_role inp)) (\<lambda>role.
     bindE (boundedCorrelationId (ci_correlationId inp)) (\<lambda>cor.
     bindE (boundedIdentity (ci_identity inp)) (\<lambda>identity.
     bindE (normalizedGroups (ci_groups inp)) (\<lambda>groups.
     bindE (normalizedPermissions role (ci_permissions inp)) (\<lambda>permissions.
     bindE (validatedAuthMode (ci_authMode inp)) (\<lambda>mode.
     Inr \<lparr>rx_correlationId = cor, rx_identity = identity, rx_role = role, rx_groups = groups,
       rx_permissions = permissions, rx_authMode = mode\<rparr>))))))"

section \<open>The subject of a worker\<close>

record portal_access =
  px_identity :: string
  px_role :: portal_role
  px_groups :: "string list"
  px_permissions :: "portal_permission list"

text \<open>\<open>headers.get(name) || fallback\<close>\<close>

definition header_or :: "(string \<Rightarrow> string option) \<Rightarrow> string \<Rightarrow> string \<Rightarrow> string" where
  "header_or headers name fallback = (case headers name of Some s \<Rightarrow> if s \<noteq> [] then s else fallback | None \<Rightarrow> fallback)"

text \<open>The decoder of percent-encoded text is an argument; a failure is None.\<close>

definition requestActor :: "(string \<Rightarrow> string option) \<Rightarrow> (string \<Rightarrow> string option) \<Rightarrow> string" where
  "requestActor decode headers =
     (let encoded = header_or headers ''oai-authenticated-user-full-name'' [];
          plain = take 160 (header_or headers ''oai-authenticated-user-email'' ''portal-user'')
      in if encoded \<noteq> [] \<and> headers ''oai-authenticated-user-full-name-encoding'' = Some ''percent-encoded-utf-8''
         then (case decode encoded of Some s \<Rightarrow> take 160 s | None \<Rightarrow> plain)
         else plain)"

definition portalAccess :: "(string \<Rightarrow> string option) \<Rightarrow> js \<Rightarrow> string option \<Rightarrow> portal_access" where
  "portalAccess headers defaultRole assignments =
     (let identity = take 160 (js_lower (js_trim (header_or headers ''oai-authenticated-user-email'' ''portal-user'')));
          groups = take 100 (uniq (filter group_ok (map (\<lambda>v. js_lower (js_trim v))
                     (js_split (CHR '','') (header_or headers ''oai-authenticated-user-groups'' [])))));
          role = resolvePortalRole identity defaultRole assignments Admin
      in \<lparr>px_identity = identity, px_role = role, px_groups = groups, px_permissions = portalRolePermissions role\<rparr>)"

text \<open>The denial answers with the missing permission and the role.\<close>

definition requirePortalPermission ::
  "(string \<Rightarrow> string option) \<Rightarrow> js \<Rightarrow> string option \<Rightarrow> portal_permission \<Rightarrow> (portal_permission \<times> portal_role) option" where
  "requirePortalPermission headers defaultRole assignments permission =
     (let access = portalAccess headers defaultRole assignments in
      if permission \<in> set (px_permissions access) then None else Some (permission, px_role access))"

definition access_subject :: "portal_access \<Rightarrow> policy_subject" where
  "access_subject a = \<lparr>su_identity = px_identity a, su_role = px_role a, su_groups = px_groups a\<rparr>"

definition context_subject :: "request_context \<Rightarrow> policy_subject" where
  "context_subject c = \<lparr>su_identity = rx_identity c, su_role = rx_role c, su_groups = rx_groups c\<rparr>"

section \<open>Subjects are canonical\<close>

lemma take_lower: "js_lower (take n (js_lower s)) = take n (js_lower s)"
  by (simp add: js_lower_def take_map)

lemma lower_canonical: "canonical \<lparr>su_identity = take 160 (js_lower s), su_role = r, su_groups = gs\<rparr>"
  by (simp add: canonical_def take_lower)

lemma access_canonical: "canonical (access_subject (portalAccess headers defaultRole assignments))"
  unfolding access_subject_def portalAccess_def Let_def by (simp add: lower_canonical)

lemma context_parts:
  assumes "createPortalRequestContext inp = Inr c"
  shows "isPortalRole (ci_role inp) = Some (rx_role c)" "boundedIdentity (ci_identity inp) = Inr (rx_identity c)"
    "normalizedGroups (ci_groups inp) = Inr (rx_groups c)" "normalizedPermissions (rx_role c) (ci_permissions inp) = Inr (rx_permissions c)"
  using assms by (auto simp: createPortalRequestContext_def validatedRole_def split: option.splits)

lemma groups_bounded: "normalizedGroups g = Inr gs \<Longrightarrow> length gs \<le> 100 \<and> distinct gs \<and> list_all group_ok gs"
  by (auto simp: normalizedGroups_def list_all_iff dest: in_set_takeD split: given.splits)

lemma permissions_within:
  assumes "normalizedPermissions role g = Inr ps" "\<And>vs. g = Items vs \<Longrightarrow> [] \<notin> set vs"
  shows "set ps \<subseteq> set (allowed_names role)"
proof (cases g)
  case (Items vs)
  then have "[] \<notin> set vs" by (rule assms(2))
  then have "find (\<lambda>p. p \<notin> set (allowed_names role)) (uniq vs) \<noteq> Some []"
    by (metis find_Some_iff' set_uniq)
  with assms(1) Items have "find (\<lambda>p. p \<notin> set (allowed_names role)) (uniq vs) = None" "ps = uniq vs"
    by (auto simp: normalizedPermissions_def Let_def split: option.splits if_splits)
  then show ?thesis by (auto simp: find_None_iff)
qed (use assms(1) in \<open>auto simp: normalizedPermissions_def\<close>)

text \<open>C35: A request context that is accepted has a subject the approval protocol admits, at most a hundred
  distinct groups, and no permission its role does not have, provided no listed permission is the empty text.\<close>

theorem request_context_sound:
  assumes "createPortalRequestContext inp = Inr c" "\<And>vs. ci_permissions inp = Items vs \<Longrightarrow> [] \<notin> set vs"
  shows "canonical (context_subject c) \<and> rx_identity c \<noteq> [] \<and> length (rx_groups c) \<le> 100 \<and> distinct (rx_groups c)
    \<and> set (rx_permissions c) \<subseteq> set (allowed_names (rx_role c))"
proof -
  note p = context_parts [OF assms(1)]
  let ?s = "js_trim (to_str (coalesce (ci_identity inp) (JStr [])))"
  from p(2) have "rx_identity c = take 160 (js_lower ?s)" "js_lower ?s \<noteq> []"
    by (auto simp: boundedIdentity_def Let_def)
  then have "canonical (context_subject c)" "rx_identity c \<noteq> []" by (simp_all add: context_subject_def lower_canonical)
  with groups_bounded [OF p(3)] permissions_within [OF p(4) assms(2)] show ?thesis by blast
qed

lemma request_context_sound_witness:
  "\<exists>c. createPortalRequestContext \<lparr>ci_correlationId = JStr ''c'', ci_identity = JStr ''Bob'', ci_role = JStr ''viewer'', ci_groups = Absent,
      ci_permissions = Items [''directory.read''], ci_authMode = JStr ''proxy''\<rparr> = Inr c \<and> canonical (context_subject c)"
proof -
  let ?c = "\<lparr>rx_correlationId = ''c'', rx_identity = ''bob'', rx_role = Viewer, rx_groups = [], rx_permissions = [''directory.read''],
     rx_authMode = Proxy\<rparr>"
  have c: "createPortalRequestContext \<lparr>ci_correlationId = JStr ''c'', ci_identity = JStr ''Bob'', ci_role = JStr ''viewer'', ci_groups = Absent,
      ci_permissions = Items [''directory.read''], ci_authMode = JStr ''proxy''\<rparr> = Inr ?c"
    by code_simp
  from request_context_sound [OF c] c show ?thesis by auto
qed

lemma empty_not_allowed: "[] \<notin> set (allowed_names role)"
proof -
  have "permission_name p \<noteq> []" for p by (cases p) simp_all
  then show ?thesis unfolding allowed_names_def by (metis imageE set_map)
qed

lemma empty_in_front: "normalizedPermissions role (Items ([] # vs)) = Inr (uniq ([] # vs))"
  by (simp add: normalizedPermissions_def empty_not_allowed)

text \<open>C37: The proviso of the previous property is needed, because an empty text in front of the permissions
  switches the check of the permissions off: whenever a context is accepted with some permissions, the same
  request with the empty text followed by any list of texts is accepted too, for the same subject and role,
  and it holds every permission of that list, whether the role allows it or not.\<close>

theorem permissions_escape:
  assumes "createPortalRequestContext inp = Inr c"
  shows "\<exists>ps. createPortalRequestContext (inp\<lparr>ci_permissions := Items ([] # vs)\<rparr>) = Inr (c\<lparr>rx_permissions := ps\<rparr>)
    \<and> set ps = insert [] (set vs)"
proof -
  have "createPortalRequestContext (inp\<lparr>ci_permissions := Items ([] # vs)\<rparr>) = Inr (c\<lparr>rx_permissions := uniq ([] # vs)\<rparr>)"
    using assms by (auto simp: createPortalRequestContext_def empty_in_front)
  then show ?thesis by (intro exI conjI, assumption) (simp only: set_uniq list.set)
qed

lemma permissions_escape_witness:
  "\<exists>c. createPortalRequestContext \<lparr>ci_correlationId = JStr ''c'', ci_identity = JStr ''bob'', ci_role = JStr ''viewer'', ci_groups = Absent,
      ci_permissions = Items [[], ''maintenance.manage''], ci_authMode = JStr ''proxy''\<rparr> = Inr c
    \<and> rx_role c = Viewer \<and> ''maintenance.manage'' \<in> set (rx_permissions c) \<and> ''maintenance.manage'' \<notin> set (allowed_names Viewer)"
proof -
  define inp where "inp = \<lparr>ci_correlationId = JStr ''c'', ci_identity = JStr ''bob'', ci_role = JStr ''viewer'', ci_groups = Absent,
      ci_permissions = Items [''directory.read''], ci_authMode = JStr ''proxy''\<rparr>"
  have c: "createPortalRequestContext inp = Inr \<lparr>rx_correlationId = ''c'', rx_identity = ''bob'', rx_role = Viewer, rx_groups = [],
      rx_permissions = [''directory.read''], rx_authMode = Proxy\<rparr>"
    unfolding inp_def by code_simp
  have "''maintenance.manage'' \<notin> set (allowed_names Viewer)" by code_simp
  moreover from permissions_escape [OF c, of "[''maintenance.manage'']"] obtain ps where
    "createPortalRequestContext (inp\<lparr>ci_permissions := Items [[], ''maintenance.manage'']\<rparr>)
       = Inr (\<lparr>rx_correlationId = ''c'', rx_identity = ''bob'', rx_role = Viewer, rx_groups = [],
           rx_permissions = [''directory.read''], rx_authMode = Proxy\<rparr>\<lparr>rx_permissions := ps\<rparr>)"
    "set ps = insert [] (set [''maintenance.manage''])" by blast
  ultimately show ?thesis
    by (intro exI [where x = "\<lparr>rx_correlationId = ''c'', rx_identity = ''bob'', rx_role = Viewer, rx_groups = [],
        rx_permissions = ps, rx_authMode = Proxy\<rparr>"] conjI) (simp_all add: inp_def)
qed

end
