(* ===== verification/CatalogRun.thy ===== *)
theory CatalogRun
  imports RunReplays ProcessPresentation ApprovalRun PortalAccess
begin

text \<open>
  Launching a process, \<open>handleCatalogRunRequest\<close> of \<open>src/worker/operations-http-entry.ts\<close>: the checks of
  the request, reading the form, the approval gate, the request to the automation service and the record
  of the run. The world of a launch is the database of the approvals, whose calls interleave with those of
  other requests, together with what this request has sent and the two tables of runs. Arguments are the
  answer of the service, the two policies and the texts as they were read (or the error of reading them),
  the cipher, the hash, random values and the clock. Audit events are not modelled; their failures are
  swallowed by the source. An answer shown to a user is named by a short text.
\<close>

section \<open>The world of a launch\<close>

datatype run_error =
    ApprovalFault approval_error
  | CatalogFault catalog_error
  | PolicyFault policy_error
  | StorageFault
  | RequestFault string
  | BodyFault

record launch_world =
  lw_db :: "approval_tables database"
  lw_sent :: "js list"
  lw_runs :: "operation_run list"
  lw_replays :: "replay_row list"
  lw_deliveries :: "delivery list"

type_synonym 'a launch_eff = "(launch_world, run_error, 'a) eff"

definition in_db :: "'a approval_eff \<Rightarrow> 'a launch_eff" where
  "in_db m = (\<lambda>w. case m (lw_db w) of
      (Inl e, d) \<Rightarrow> (Inl (ApprovalFault e), w\<lparr>lw_db := d\<rparr>)
    | (Inr x, d) \<Rightarrow> (Inr x, w\<lparr>lw_db := d\<rparr>))"

text \<open>One statement on the tables of runs.\<close>

definition store_call :: "(launch_world \<Rightarrow> launch_world) \<Rightarrow> unit launch_eff" where
  "store_call f = (\<lambda>w. case lw_deliveries w of
      [] \<Rightarrow> (Inr (), f w)
    | d # ds \<Rightarrow> (let w' = w\<lparr>lw_deliveries := ds\<rparr> in case d of
          Delivered \<Rightarrow> (Inr (), f w') | NotExecuted \<Rightarrow> (Inl StorageFault, w') | ReplyLost \<Rightarrow> (Inl StorageFault, f w')))"

definition saveOperationRun :: "bool \<Rightarrow> operation_run \<Rightarrow> unit launch_eff" where
  "saveOperationRun hasDB run =
     (if hasDB then store_call (\<lambda>w. w\<lparr>lw_runs := store_run run (lw_runs w)\<rparr>) else returnM ())"

definition saveRunReplay ::
  "encrypt \<Rightarrow> nat list \<Rightarrow> approval_env \<Rightarrow> int \<Rightarrow> string \<Rightarrow> catalog_event \<Rightarrow> js \<Rightarrow> string list \<Rightarrow> string \<Rightarrow> unit launch_eff" where
  "saveRunReplay enc iv env now runId event values targets parent =
     (if \<not> ae_hasDB env \<or> runId = [] then returnM ()
      else store_call (\<lambda>w. w\<lparr>lw_replays := store_replay (replay_row_of enc iv (ae_key env) now runId event values targets parent) (lw_replays w)\<rparr>))"

text \<open>A computation that may already have the answer, \<open>return json(..)\<close> in the middle of the handler.\<close>

definition bindR :: "('r + 'a) launch_eff \<Rightarrow> ('a \<Rightarrow> ('r + 'b) launch_eff) \<Rightarrow> ('r + 'b) launch_eff" where
  "bindR m f = bindM m (\<lambda>v. case v of Inl r \<Rightarrow> returnM (Inl r) | Inr x \<Rightarrow> f x)"

section \<open>Reading the form\<close>

definition field_raw :: "route_field \<Rightarrow> js \<Rightarrow> js" where
  "field_raw f given = (if no_text given \<and> rf_default f \<noteq> JUndef then rf_default f else given)"

definition selected :: "js \<Rightarrow> string list" where
  "selected raw = (case raw of JArr xs \<Rightarrow> map to_str xs
     | _ \<Rightarrow> filter (\<lambda>s. s \<noteq> []) (map js_trim (js_split (CHR '','') (to_str raw))))"

text \<open>A value that was given, by the type of the field.\<close>

definition coerce_given :: "route_field \<Rightarrow> js \<Rightarrow> js" where
  "coerce_given f raw = (case rf_type f of
      TBoolean \<Rightarrow> JBool (raw = JBool True \<or> raw = JStr ''true'' \<or> raw = JStr ''1'' \<or> raw = JStr ''on'')
    | TNumber \<Rightarrow>
        (let n = to_num raw in
         if n \<noteq> NaN \<and> (case rf_min f of None \<Rightarrow> True | Some lo \<Rightarrow> num_le lo n)
              \<and> (case rf_max f of None \<Rightarrow> True | Some hi \<Rightarrow> num_le n hi) then JNum n else JNull)
    | TMultiselect \<Rightarrow>
        (case rf_options f of
           Some options \<Rightarrow> if list_ex (\<lambda>v. v \<notin> set options) (selected raw) then JNull else strings_js (selected raw)
         | None \<Rightarrow> strings_js (selected raw))
    | TJson \<Rightarrow> (case raw of JStr s \<Rightarrow> (case json_parse s of Some v \<Rightarrow> v | None \<Rightarrow> JNull) | _ \<Rightarrow> raw)
    | TSelect \<Rightarrow>
        (let v = take 2048 (to_str raw) in
         case rf_options f of Some options \<Rightarrow> if v \<notin> set options then JNull else JStr v | None \<Rightarrow> JStr v)
    | _ \<Rightarrow> JStr (take 2048 (to_str raw)))"

definition coerceField :: "route_field \<Rightarrow> js \<Rightarrow> js" where
  "coerceField f given =
     (let raw = field_raw f given in
      if no_text raw then (if rf_required f then JNull else JStr []) else coerce_given f raw)"

record form_parts =
  fp_params :: "(string \<times> js) list"
  fp_input :: "(string \<times> js) list"
  fp_workflow :: "(string \<times> js) list"

definition put_field :: "route_field \<Rightarrow> js \<Rightarrow> form_parts \<Rightarrow> form_parts" where
  "put_field f v p = (case rf_target f of
      ToWorkflowData \<Rightarrow> p\<lparr>fp_workflow := obj_set (rf_key f) v (fp_workflow p)\<rparr>
    | ToInput \<Rightarrow> p\<lparr>fp_input := obj_set (rf_key f) v (fp_input p)\<rparr>
    | ToParams \<Rightarrow> p\<lparr>fp_params := obj_set (rf_key f) v (fp_params p)\<rparr>)"

text \<open>The loop over the fields; the key of the first invalid field stops it.\<close>

fun read_form :: "js \<Rightarrow> route_field list \<Rightarrow> form_parts \<Rightarrow> string + form_parts" where
  "read_form values [] p = Inr p"
| "read_form values (f # fs) p =
     (if \<not> fieldConditionMatches (rf_visibleWhen f) values then read_form values fs p
      else
        (let v = coerceField f (jget values (rf_key f)) in
         if v = JNull then Inl (rf_key f)
         else if v = JStr [] \<and> \<not> rf_required f then read_form values fs p
         else read_form values fs (put_field f v p)))"

definition empty_form :: form_parts where
  "empty_form = \<lparr>fp_params = [(''source'', JStr ''xyops-self-service'')], fp_input = [(''source'', JStr ''xyops-self-service'')], fp_workflow = []\<rparr>"

definition launchPayload :: "catalog_event \<Rightarrow> form_parts \<Rightarrow> string list \<Rightarrow> js" where
  "launchPayload event p targets =
     JObj ([(''id'', JStr (ce_id event)), (''params'', JObj (fp_params p)), (''input'', JObj [(''data'', JObj (fp_input p))])]
       @ (if ce_kind event = WorkflowKind then [(''workflowData'', JObj (fp_workflow p))] else [])
       @ (if targets \<noteq> [] then [(''targets'', strings_js targets)]
          else if length (ce_targets event) = 1 then [(''targets'', strings_js (ce_targets event))] else []))"

section \<open>What a form sends\<close>

text \<open>A value a field admits.\<close>

definition field_admits :: "route_field \<Rightarrow> js \<Rightarrow> bool" where
  "field_admits f v \<longleftrightarrow> (case rf_type f of
      TBoolean \<Rightarrow> (\<exists>b. v = JBool b)
    | TNumber \<Rightarrow> (\<exists>n. v = JNum n \<and> n \<noteq> NaN \<and> (\<forall>lo. rf_min f = Some lo \<longrightarrow> num_le lo n) \<and> (\<forall>hi. rf_max f = Some hi \<longrightarrow> num_le n hi))
    | TMultiselect \<Rightarrow> (\<exists>vs. v = strings_js vs \<and> (\<forall>options. rf_options f = Some options \<longrightarrow> set vs \<subseteq> set options))
    | TSelect \<Rightarrow> (\<exists>s. v = JStr s \<and> length s \<le> 2048 \<and> (\<forall>options. rf_options f = Some options \<longrightarrow> s \<in> set options))
    | TJson \<Rightarrow> True
    | _ \<Rightarrow> (\<exists>s. v = JStr s \<and> length s \<le> 2048))"

lemma coerce_given_admits: "coerce_given f raw \<noteq> JNull \<Longrightarrow> field_admits f (coerce_given f raw)"
proof (cases "rf_type f")
  case TNumber
  assume "coerce_given f raw \<noteq> JNull"
  with TNumber show ?thesis
    by (cases "rf_min f"; cases "rf_max f") (auto simp: coerce_given_def field_admits_def Let_def split: if_splits)
next
  case TMultiselect
  assume "coerce_given f raw \<noteq> JNull"
  with TMultiselect show ?thesis
    by (cases "rf_options f") (auto simp: coerce_given_def field_admits_def list_ex_iff split: if_splits)
next
  case TSelect
  assume "coerce_given f raw \<noteq> JNull"
  with TSelect show ?thesis
    by (cases "rf_options f") (auto simp: coerce_given_def field_admits_def Let_def split: if_splits)
qed (simp_all add: coerce_given_def field_admits_def)

lemma coerceField_admits: "coerceField f given \<noteq> JNull \<Longrightarrow> coerceField f given \<noteq> JStr [] \<Longrightarrow> field_admits f (coerceField f given)"
  using coerce_given_admits by (auto simp: coerceField_def Let_def split: if_splits)

lemma coerceField_missing: "no_text given \<Longrightarrow> no_text (rf_default f) \<Longrightarrow> rf_required f \<Longrightarrow> coerceField f given = JNull"
  by (simp add: coerceField_def field_raw_def Let_def)

definition form_values :: "form_parts \<Rightarrow> (string \<times> js) list" where
  "form_values p = fp_params p @ fp_input p @ fp_workflow p"

lemma put_field_values: "(k, x) \<in> set (form_values (put_field f v p)) \<Longrightarrow> (k, x) \<in> set (form_values p) \<or> (k, x) = (rf_key f, v)"
  using obj_set_members [of "rf_key f" v] by (cases "rf_target f") (auto simp: put_field_def form_values_def)

lemma read_form_values:
  "read_form values fs p = Inr parts \<Longrightarrow> (k, v) \<in> set (form_values parts) \<Longrightarrow>
     (k, v) \<in> set (form_values p) \<or> (\<exists>f \<in> set fs. rf_key f = k \<and> fieldConditionMatches (rf_visibleWhen f) values
        \<and> v = coerceField f (jget values k) \<and> v \<noteq> JNull \<and> (v = JStr [] \<longrightarrow> rf_required f))"
proof (induction "values" fs p rule: read_form.induct)
  case (2 "values" f fs p)
  let ?v = "coerceField f (jget values (rf_key f))"
  show ?case
  proof (cases "fieldConditionMatches (rf_visibleWhen f) values")
    case False
    with 2 show ?thesis by auto
  next
    case visible: True
    show ?thesis
    proof (cases "?v = JStr [] \<and> \<not> rf_required f")
      case True
      with visible 2(2)[OF _ refl] 2(4,5) show ?thesis by auto
    next
      case False
      with visible 2(4) have n: "?v \<noteq> JNull" and r: "read_form values fs (put_field f ?v p) = Inr parts"
        by (auto simp: Let_def split: if_splits)
      from 2(3) [OF _ refl n False r 2(5)] visible put_field_values [of k v f ?v p] n False show ?thesis by auto
    qed
  qed
qed simp

lemma read_form_required:
  "read_form values fs p = Inr parts \<Longrightarrow> f \<in> set fs \<Longrightarrow> fieldConditionMatches (rf_visibleWhen f) values \<Longrightarrow>
     coerceField f (jget values (rf_key f)) \<noteq> JNull"
  by (induction "values" fs p rule: read_form.induct) (auto simp: Let_def split: if_splits)

text \<open>C38: Everything a form sends was checked: apart from the mark of the portal, each value comes from a
  visible field of that key and is one the field admits - a number within its bounds, a choice among its
  options, a text of at most 2048 characters - or is the empty text of a required field; and a form with
  a visible required field that is neither given nor has a default is not sent at all.\<close>

theorem sent_values_checked:
  assumes "read_form values fs empty_form = Inr parts"
  shows "(\<forall>(k, v) \<in> set (form_values parts). (k, v) = (''source'', JStr ''xyops-self-service'')
      \<or> (\<exists>f \<in> set fs. rf_key f = k \<and> fieldConditionMatches (rf_visibleWhen f) values \<and> (field_admits f v \<or> v = JStr [] \<and> rf_required f)))
    \<and> (\<forall>f \<in> set fs. fieldConditionMatches (rf_visibleWhen f) values \<longrightarrow> rf_required f \<longrightarrow>
        \<not> (no_text (jget values (rf_key f)) \<and> no_text (rf_default f)))"
proof
  show "\<forall>(k, v) \<in> set (form_values parts). (k, v) = (''source'', JStr ''xyops-self-service'')
      \<or> (\<exists>f \<in> set fs. rf_key f = k \<and> fieldConditionMatches (rf_visibleWhen f) values \<and> (field_admits f v \<or> v = JStr [] \<and> rf_required f))"
  proof clarify
    fix k v assume m: "(k, v) \<in> set (form_values parts)"
      "\<not> (\<exists>f \<in> set fs. rf_key f = k \<and> fieldConditionMatches (rf_visibleWhen f) values \<and> (field_admits f v \<or> v = JStr [] \<and> rf_required f))"
    have "\<not> (\<exists>f \<in> set fs. rf_key f = k \<and> fieldConditionMatches (rf_visibleWhen f) values
        \<and> v = coerceField f (jget values k) \<and> v \<noteq> JNull \<and> (v = JStr [] \<longrightarrow> rf_required f))"
      using m(2) coerceField_admits by metis
    with read_form_values [OF assms m(1)] have "(k, v) \<in> set (form_values empty_form)" by blast
    then show "k = ''source'' \<and> v = JStr ''xyops-self-service''" by (auto simp: form_values_def empty_form_def)
  qed
  show "\<forall>f \<in> set fs. fieldConditionMatches (rf_visibleWhen f) values \<longrightarrow> rf_required f \<longrightarrow>
        \<not> (no_text (jget values (rf_key f)) \<and> no_text (rf_default f))"
    using read_form_required [OF assms] coerceField_missing by blast
qed

lemma sent_values_checked_witness:
  "\<exists>parts. read_form sample_form (ce_fields sample_form_event) empty_form = Inr parts \<and> (''name'', JStr ''ann'') \<in> set (form_values parts)
     \<and> (\<forall>(k, v) \<in> set (form_values parts). (k, v) = (''source'', JStr ''xyops-self-service'')
        \<or> (\<exists>f \<in> set (ce_fields sample_form_event). rf_key f = k \<and> fieldConditionMatches (rf_visibleWhen f) sample_form
            \<and> (field_admits f v \<or> v = JStr [] \<and> rf_required f)))"
proof -
  have r: "read_form sample_form (ce_fields sample_form_event) empty_form
      = Inr (put_field (text_field ''name'' TString) (JStr ''ann'') empty_form)" by code_simp
  have "(''name'', JStr ''ann'') \<in> set (form_values (put_field (text_field ''name'' TString) (JStr ''ann'') empty_form))"
    by (simp add: form_values_def put_field_def text_field_def empty_form_def)
  with r conjunct1 [OF sent_values_checked [OF r]] show ?thesis by (intro exI conjI)
qed

section \<open>The handler\<close>

text \<open>What the handler is given by its environment: the catalog's source, the policies and texts as read, and
  the answer of the service to the launch (status, parsed body, value of the retry-after header).\<close>

record launch_settings =
  ls_demoMode :: bool
  ls_demo :: "catalog_event list"
  ls_url :: "string option"
  ls_key :: "string option"
  ls_reply :: events_reply
  ls_visibility :: "policy_error + catalog_policy"
  ls_presentation :: "policy_error + presentation_set"
  ls_policy :: "policy_error + approval_policy"
  ls_send :: "js \<Rightarrow> string + (int \<times> js \<times> js)"
  ls_env :: approval_env

text \<open>The platform: cipher, hash, random values (the ids of an approval, of a run and of the record of a
  failure), locales, dates and the clock.\<close>

record platform =
  pf_encrypt :: encrypt
  pf_decrypt :: decrypt
  pf_sha :: "string \<Rightarrow> string"
  pf_iv :: "nat list"
  pf_replay_iv :: "nat list"
  pf_approval_id :: string
  pf_run_id :: string
  pf_failure_id :: string
  pf_canon :: "string \<Rightarrow> string option"
  pf_collate :: "string \<Rightarrow> string \<Rightarrow> int"
  pf_date_parse :: "string \<Rightarrow> jsnum"
  pf_clock :: "nat \<Rightarrow> int"

record run_request =
  rq_access :: portal_access
  rq_actor :: string
  rq_body :: "js option"
  rq_locale :: js
  rq_acceptLanguage :: js

record replay_guard =
  rg_expectedSchemaVersion :: string
  rg_dangerousConfirmed :: bool

datatype run_answer =
    RunDenied portal_permission portal_role
  | RunRefused string
  | ApprovalNeeded public_approval
  | RunStarted operation_run
  | RunRejected string operation_run int string
  | RunBroken run_error operation_run

type_synonym run_response = "int \<times> run_answer"

definition event_of :: "catalog_event \<Rightarrow> event_class" where
  "event_of e = \<lparr>ec_id = ce_id e, ec_category = JStr (ce_category e), ec_dangerous = ce_dangerous e\<rparr>"

definition text_member :: "js \<Rightarrow> string \<Rightarrow> string" where
  "text_member v k = (case jget v k of JStr s \<Rightarrow> s | _ \<Rightarrow> [])"

definition body_values :: "js \<Rightarrow> js" where
  "body_values body = (case jget body ''values'' of JObj ps \<Rightarrow> JObj ps | _ \<Rightarrow> JObj [])"

definition body_targets :: "js \<Rightarrow> string list" where
  "body_targets body = (case jget body ''targets'' of JArr xs \<Rightarrow> map to_str xs | _ \<Rightarrow> [])"

text \<open>Finding the process, and what may refuse it before the form is read.\<close>

definition choose_process ::
  "launch_settings \<Rightarrow> replay_guard option \<Rightarrow> policy_subject \<Rightarrow> string \<Rightarrow> (run_response + (catalog_mode \<times> catalog_event)) launch_eff" where
  "choose_process ls rerun s eventId =
     bindM (liftM (case loadCatalog (ls_demoMode ls) (ls_demo ls) (ls_url ls) (ls_key ls) (ls_reply ls) of
         Inl e \<Rightarrow> Inl (CatalogFault e) | Inr x \<Rightarrow> Inr x)) (\<lambda>(mode, events).
     if mode = UnconfiguredCatalog then returnM (Inl (503, RunRefused ''not configured''))
     else (case find (\<lambda>e. ce_id e = eventId \<and> ce_enabled e) events of
         None \<Rightarrow> returnM (Inl (if rerun = None then 404 else 409, RunRefused ''process not found or disabled''))
       | Some event \<Rightarrow>
           bindM (liftM (case ls_visibility ls of Inl e \<Rightarrow> Inl (PolicyFault e) | Inr p \<Rightarrow> Inr p)) (\<lambda>visibility.
           returnM (if \<not> catalogEventAllowed visibility s (ce_id event) (JStr (ce_category event)) then Inl (404, RunRefused ''not visible'')
             else (case rerun of
                 None \<Rightarrow> Inr (mode, event)
               | Some g \<Rightarrow>
                   if rg_expectedSchemaVersion g \<noteq> [] \<and> (event_schema event = [] \<or> event_schema event \<noteq> rg_expectedSchemaVersion g)
                   then Inl (409, RunRefused ''schema changed'')
                   else if ce_dangerous event \<and> \<not> rg_dangerousConfirmed g then Inl (409, RunRefused ''confirmation required'')
                   else Inr (mode, event))))))"

definition presented :: "platform \<Rightarrow> launch_settings \<Rightarrow> run_request \<Rightarrow> catalog_event \<Rightarrow> catalog_event launch_eff" where
  "presented pf ls rq event =
     bindM (liftM (case ls_presentation ls of Inl e \<Rightarrow> Inl (PolicyFault e) | Inr s \<Rightarrow> Inr s)) (\<lambda>metadata.
     returnM (case applyProcessPresentation (pf_canon pf) (pf_collate pf) [event] metadata
           (presentationLocalePreferences (pf_canon pf) (rq_locale rq) (rq_acceptLanguage rq)) of
         [] \<Rightarrow> event | shown # _ \<Rightarrow> shown))"

text \<open>The approval gate: an approved launch must match the request that is executing; any other launch that
  needs an approval becomes a request for one.\<close>

definition approval_gate ::
  "platform \<Rightarrow> launch_settings \<Rightarrow> policy_subject \<Rightarrow> string \<Rightarrow> catalog_event \<Rightarrow> catalog_event \<Rightarrow> js \<Rightarrow> string list \<Rightarrow> string
     \<Rightarrow> (run_response + unit) launch_eff" where
  "approval_gate pf ls s approvedId event shown values targets parent =
     (if approvedId \<noteq> [] then
        bindM (in_db (readExecutingApproval (pf_decrypt pf) (pf_clock pf 0) (ls_env ls) approvedId s)) (\<lambda>executing.
        returnM (case executing of
            Some (_, spec) \<Rightarrow>
              if approvalExecutionMatches (pf_sha pf) spec event values targets then Inr () else Inl (409, RunRefused ''approval'')
          | None \<Rightarrow> Inl (409, RunRefused ''approval'')))
      else
        bindM (liftM (case ls_policy ls of Inl e \<Rightarrow> Inl (PolicyFault e) | Inr p \<Rightarrow> Inr p)) (\<lambda>policy.
        (case approvalRequirement policy s (event_of event) of
           None \<Rightarrow> returnM (Inr ())
         | Some q \<Rightarrow>
             bindM (in_db (createApprovalRequest (pf_encrypt pf) (pf_sha pf) (pf_iv pf) (pf_approval_id pf) (pf_clock pf) (ls_env ls)
               shown s values targets q parent)) (\<lambda>approval.
             returnM (Inl (202, ApprovalNeeded approval))))))"

definition record_run ::
  "platform \<Rightarrow> launch_settings \<Rightarrow> operation_run \<Rightarrow> catalog_event \<Rightarrow> js \<Rightarrow> string list \<Rightarrow> string \<Rightarrow> unit launch_eff" where
  "record_run pf ls run event values targets parent =
     bindM (saveOperationRun (ae_hasDB (ls_env ls)) run) (\<lambda>_.
     saveRunReplay (pf_encrypt pf) (pf_replay_iv pf) (ls_env ls) (pf_clock pf 3) (or_id run) event values targets (take 160 parent))"

definition retry_after :: "js \<Rightarrow> string" where
  "retry_after v = take 120 (filter (\<lambda>c. is_alnum c \<or> c \<in> set '', .:-'') (to_str (coalesce v (JStr []))))"

definition job_id :: "js \<Rightarrow> js \<Rightarrow> string" where
  "job_id result resultData =
     to_str (coalesce (jfirst result [''job_id'', ''jobId'', ''id'']) (coalesce (jget resultData ''job_id'') (JStr [])))"

definition send_launch :: "launch_settings \<Rightarrow> js \<Rightarrow> (int \<times> js \<times> js) launch_eff" where
  "send_launch ls payload =
     bindM (modifyM (\<lambda>w. w\<lparr>lw_sent := lw_sent w @ [payload]\<rparr>)) (\<lambda>_.
     liftM (case ls_send ls payload of Inl m \<Rightarrow> Inl (RequestFault m) | Inr x \<Rightarrow> Inr x))"

text \<open>After the service has answered; a body that is the JSON null has no members to read.\<close>

definition after_launch ::
  "platform \<Rightarrow> launch_settings \<Rightarrow> string \<Rightarrow> catalog_event \<Rightarrow> catalog_event \<Rightarrow> js \<Rightarrow> string list \<Rightarrow> string \<Rightarrow> int \<times> js \<times> js
     \<Rightarrow> run_response launch_eff" where
  "after_launch pf ls actor event shown values targets parent answer =
     (let (status, result, header) = answer;
          resultData = (if is_object (jget result ''data'') then jget result ''data'' else JObj []);
          jobId = job_id result resultData;
          new_run = operationRun (pf_run_id pf) (pf_clock pf 2) actor (ce_id event) (ce_title shown) (ce_kind event) LiveRun jobId
      in
      bindM (requireM (result \<noteq> JNull) BodyFault) (\<lambda>_.
      if \<not> response_ok status then
        (let retryAfter = retry_after header;
             message = (if status = 429 then ''rate limited'' else if status = 409 then ''concurrent run refused'' else ''XYOps rejected run_event'');
             run = new_run RunFailed values targets message []
         in bindM (record_run pf ls run event values targets parent) (\<lambda>_.
            returnM (if status = 409 \<or> status = 429 then status else 502, RunRejected message run status retryAfter)))
      else
        (let reported = runStatus (coalesce (jfirst result [''status'', ''state'']) (jfirst resultData [''status'', ''state'']));
             run = new_run (if reported = RunUnknown then RunQueued else reported) values targets [] (extractJobStages (pf_date_parse pf) result)
         in bindM (record_run pf ls run event values targets parent) (\<lambda>_. returnM (202, RunStarted run)))))"

definition launch ::
  "platform \<Rightarrow> launch_settings \<Rightarrow> string \<Rightarrow> catalog_mode \<Rightarrow> catalog_event \<Rightarrow> catalog_event \<Rightarrow> js \<Rightarrow> string list \<Rightarrow> form_parts \<Rightarrow> string
     \<Rightarrow> run_response launch_eff" where
  "launch pf ls actor mode event shown values targets parts parent =
     (if mode = DemoCatalog \<or> \<not> key_given (ls_url ls) \<or> \<not> key_given (ls_key ls) then
        (let run = operationRun (pf_run_id pf) (pf_clock pf 2) actor (ce_id event) (ce_title shown) (ce_kind event) DemoRun
               (''DEMO-'' @ int_to_str (pf_clock pf 1)) RunSuccess values targets [] []
         in bindM (record_run pf ls run event values targets parent) (\<lambda>_. returnM (202, RunStarted run)))
      else
        bindM (send_launch ls (launchPayload event parts targets)) (\<lambda>answer.
        after_launch pf ls actor event shown values targets parent answer))"

text \<open>From the chosen process to the answer.\<close>

definition run_chosen ::
  "platform \<Rightarrow> launch_settings \<Rightarrow> run_request \<Rightarrow> string \<Rightarrow> js \<Rightarrow> catalog_mode \<times> catalog_event \<Rightarrow> (run_response + run_response) launch_eff" where
  "run_chosen pf ls rq approvedId body chosen =
     (let (mode, event) = chosen; s = access_subject (rq_access rq); values = body_values body; targets = body_targets body;
          parent = text_member body ''replayOf'' in
      bindM (presented pf ls rq event) (\<lambda>shown.
      if ce_targets event \<noteq> [] \<and> list_ex (\<lambda>t. t \<notin> set (ce_targets event)) targets
      then returnM (Inl (400, RunRefused ''unsupported target''))
      else (case read_form values (ce_fields event) empty_form of
          Inl key \<Rightarrow> returnM (Inl (400, RunRefused (''invalid or missing field: '' @ key)))
        | Inr parts \<Rightarrow>
            bindR (approval_gate pf ls s (take 160 approvedId) event shown values targets parent) (\<lambda>_.
            bindM (launch pf ls (rq_actor rq) mode event shown values targets parts parent) (\<lambda>r. returnM (Inr r))))))"

definition run_checked ::
  "platform \<Rightarrow> launch_settings \<Rightarrow> run_request \<Rightarrow> replay_guard option \<Rightarrow> string \<Rightarrow> js \<Rightarrow> run_response launch_eff" where
  "run_checked pf ls rq rerun approvedId body =
     bindM
       (bindR (choose_process ls rerun (access_subject (rq_access rq)) (text_member body ''eventId'')) (run_chosen pf ls rq approvedId body))
       (\<lambda>v. returnM (case v of Inl r \<Rightarrow> r | Inr r \<Rightarrow> r))"

text \<open>What the handler does with an error: a failed run is recorded, unless that fails as well.\<close>

definition run_failed :: "platform \<Rightarrow> launch_settings \<Rightarrow> run_request \<Rightarrow> js \<Rightarrow> (run_error \<Rightarrow> string) \<Rightarrow> run_error \<Rightarrow> run_response launch_eff" where
  "run_failed pf ls rq body error_text e =
     (let eventId = text_member body ''eventId'';
          run = operationRun (pf_failure_id pf) (pf_clock pf 5) (rq_actor rq) (if eventId = [] then ''unknown'' else eventId)
            (if eventId = [] then ''XYOps process'' else eventId) EventKind LiveRun [] RunFailed (body_values body) [] (error_text e) []
      in bindM (saveOperationRun (ae_hasDB (ls_env ls)) run) (\<lambda>_. returnM (502, RunBroken e run)))"

definition handleCatalogRunRequest ::
  "platform \<Rightarrow> (run_error \<Rightarrow> string) \<Rightarrow> launch_settings \<Rightarrow> run_request \<Rightarrow> replay_guard option \<Rightarrow> string \<Rightarrow> run_response launch_eff" where
  "handleCatalogRunRequest pf error_text ls rq rerun approvedId =
     (if XyopsRun \<notin> set (px_permissions (rq_access rq)) then returnM (403, RunDenied XyopsRun (px_role (rq_access rq)))
      else (case rq_body rq of
          None \<Rightarrow> returnM (400, RunRefused ''Invalid JSON'')
        | Some body \<Rightarrow>
            bindM (requireM (body \<noteq> JNull) BodyFault) (\<lambda>_.
            catchM (run_checked pf ls rq rerun approvedId body) (run_failed pf ls rq body error_text))))"

end
