(* ===== verification/LaunchSafety.thy ===== *)
theory LaunchSafety
  imports CatalogRun
begin

text \<open>
  What a launch sends. \<open>silent\<close> computations send nothing; \<open>sends Q m w\<close> says that \<open>m\<close>, run in the world
  \<open>w\<close>, sends at most one request, and that it satisfies \<open>Q\<close>. The rules for both are collected in
  \<open>silent_intros\<close>, so that each handler needs one proof by its structure.
\<close>

named_theorems silent_intros "computations that send nothing"

section \<open>Sending\<close>

definition silent :: "'a launch_eff \<Rightarrow> bool" where
  "silent m \<longleftrightarrow> (\<forall>sent. keeps (\<lambda>w. lw_sent w = sent) m)"

definition sends :: "(js \<Rightarrow> bool) \<Rightarrow> 'a launch_eff \<Rightarrow> launch_world \<Rightarrow> bool" where
  "sends Q m w \<longleftrightarrow> lw_sent (snd (m w)) = lw_sent w \<or> (\<exists>p. lw_sent (snd (m w)) = lw_sent w @ [p] \<and> Q p)"

lemma silent_run: "silent m \<Longrightarrow> lw_sent (snd (m w)) = lw_sent w"
  using keepsD [of "\<lambda>v. lw_sent v = lw_sent w" m w] by (simp add: silent_def)

lemma silentI: "(\<And>w. lw_sent (snd (m w)) = lw_sent w) \<Longrightarrow> silent m"
  by (auto simp: silent_def intro!: keepsI)

lemma silent_pure [silent_intros]:
  "silent (returnM x)" "silent (throwM e)" "silent (liftM r)" "silent (requireM b e)"
  by (simp_all add: silent_def keeps_intros)

lemma silent_in_db [silent_intros]: "silent (in_db m)"
  by (rule silentI) (simp add: in_db_def split: prod.splits sum.splits)

lemma silent_store [silent_intros]: "(\<And>w. lw_sent (f w) = lw_sent w) \<Longrightarrow> silent (store_call f)"
  by (rule silentI) (simp add: store_call_def Let_def split: list.splits delivery.splits)

lemma silent_bindM [silent_intros]: "silent m \<Longrightarrow> (\<And>x. silent (f x)) \<Longrightarrow> silent (bindM m f)"
  by (simp add: silent_def keeps_bindM)

lemma silent_bindR [silent_intros]: "silent m \<Longrightarrow> (\<And>x. silent (f x)) \<Longrightarrow> silent (bindR m f)"
  unfolding bindR_def by (rule silent_bindM) (auto split: sum.splits intro: silent_intros)

lemma silent_catchM [silent_intros]: "silent m \<Longrightarrow> (\<And>e. silent (h e)) \<Longrightarrow> silent (catchM m h)"
  by (simp add: silent_def keeps_catchM)

lemma silent_if [silent_intros]: "silent a \<Longrightarrow> silent b \<Longrightarrow> silent (if c then a else b)"
  by simp

lemma silent_save [silent_intros]: "silent (saveOperationRun b run)"
  unfolding saveOperationRun_def by (intro silent_intros) simp

lemma silent_replay [silent_intros]: "silent (saveRunReplay enc iv env now i event vs ts parent)"
  unfolding saveRunReplay_def by (intro silent_intros) simp

lemma silent_record [silent_intros]: "silent (record_run pf ls run event vs ts parent)"
  unfolding record_run_def by (intro silent_intros)

lemma silent_after [silent_intros]: "silent (after_launch pf ls actor event shown vs ts parent answer)"
  unfolding after_launch_def by (auto simp: Let_def split: prod.splits intro!: silent_intros)

lemma silent_failed [silent_intros]: "silent (run_failed pf ls rq body error_text e)"
  unfolding run_failed_def Let_def by (intro silent_intros)

lemma sends_silent: "silent m \<Longrightarrow> sends Q m w"
  by (simp add: silent_run sends_def)

lemma sends_after:
  assumes "silent m" "\<And>x w'. m w = (Inr x, w') \<Longrightarrow> sends Q (f x) w'"
  shows "sends Q (bindM m f) w"
proof -
  obtain r w' where m: "m w = (r, w')" by (cases "m w")
  have s: "lw_sent w' = lw_sent w" using silent_run [OF assms(1), of w] m by simp
  show ?thesis
  proof (cases r)
    case (Inl e)
    with m s show ?thesis by (simp add: sends_def bindM_run)
  next
    case (Inr x)
    with m s assms(2) [of x w'] show ?thesis by (simp add: sends_def bindM_run)
  qed
qed

lemma sends_then:
  assumes "sends Q m w" "\<And>x. silent (f x)"
  shows "sends Q (bindM m f) w"
proof -
  obtain r w' where m: "m w = (r, w')" by (cases "m w")
  show ?thesis
  proof (cases r)
    case (Inr x)
    have "lw_sent (snd (f x w')) = lw_sent w'" by (rule silent_run [OF assms(2)])
    with assms(1) m Inr show ?thesis by (simp add: sends_def bindM_run)
  qed (use assms(1) m in \<open>simp add: sends_def bindM_run\<close>)
qed

lemma sends_catch:
  assumes "sends Q m w" "\<And>e. silent (h e)"
  shows "sends Q (catchM m h) w"
proof -
  obtain r w' where m: "m w = (r, w')" by (cases "m w")
  show ?thesis
  proof (cases r)
    case (Inl e)
    have "lw_sent (snd (h e w')) = lw_sent w'" by (rule silent_run [OF assms(2)])
    with assms(1) m Inl show ?thesis by (simp add: sends_def catchM_run)
  qed (use assms(1) m in \<open>simp add: sends_def catchM_run\<close>)
qed

lemma sends_bindR:
  assumes "silent m" "\<And>x w'. m w = (Inr (Inr x), w') \<Longrightarrow> sends Q (f x) w'"
  shows "sends Q (bindR m f) w"
  unfolding bindR_def
proof (rule sends_after [OF assms(1)])
  fix v w'
  assume "m w = (Inr v, w')"
  with assms(2) show "sends Q (case v of Inl r \<Rightarrow> returnM (Inl r) | Inr x \<Rightarrow> f x) w'"
    by (cases v) (auto intro: sends_silent silent_intros)
qed

lemma sends_mono: "sends Q m w \<Longrightarrow> (\<And>p. Q p \<Longrightarrow> Q' p) \<Longrightarrow> sends Q' m w"
  by (auto simp: sends_def)

section \<open>What the checks establish\<close>

lemma choose_process_Inr:
  assumes "choose_process ls rerun s eventId w = (Inr (Inr (mode, event)), w')"
  shows "w' = w \<and> ce_id event = eventId \<and> ce_enabled event
    \<and> (\<exists>events. loadCatalog (ls_demoMode ls) (ls_demo ls) (ls_url ls) (ls_key ls) (ls_reply ls) = Inr (mode, events) \<and> event \<in> set events)
    \<and> (\<exists>p. ls_visibility ls = Inr p \<and> catalogEventAllowed p s (ce_id event) (JStr (ce_category event)))"
proof (cases "loadCatalog (ls_demoMode ls) (ls_demo ls) (ls_url ls) (ls_key ls) (ls_reply ls)")
  case (Inl e)
  with assms show ?thesis by (simp add: choose_process_def bindM_run liftM_run)
next
  case (Inr x)
  obtain m events where x: "x = (m, events)" by (cases x)
  show ?thesis
  proof (cases "find (\<lambda>e. ce_id e = eventId \<and> ce_enabled e) events")
    case None
    with assms Inr x show ?thesis by (simp add: choose_process_def bindM_run liftM_run returnM_run split: if_splits)
  next
    case (Some e)
    note found = find_Some_iff' [OF Some]
    show ?thesis
    proof (cases "ls_visibility ls")
      case (Inl err)
      with assms Inr x Some show ?thesis by (simp add: choose_process_def bindM_run liftM_run returnM_run split: if_splits)
    next
      case (Inr p)
      with assms \<open>loadCatalog _ _ _ _ _ = _\<close> x Some found show ?thesis
        by (simp add: choose_process_def bindM_run liftM_run returnM_run split: if_splits option.splits)
    qed
  qed
qed

lemma silent_choose [silent_intros]: "silent (choose_process ls rerun s eventId)"
  unfolding choose_process_def by (auto intro!: silent_intros split: option.splits)

lemma presented_keeps: "presented pf ls rq event w = (Inr shown, w') \<Longrightarrow> w' = w"
  by (auto simp: presented_def eff_Inr_iffs)

lemma silent_presented [silent_intros]: "silent (presented pf ls rq event)"
  unfolding presented_def by (intro silent_intros)

text \<open>What lets a launch pass the gate, in the database as it was when the handler began.\<close>

definition cleared :: "platform \<Rightarrow> launch_settings \<Rightarrow> policy_subject \<Rightarrow> string \<Rightarrow> catalog_event \<Rightarrow> js \<Rightarrow> string list \<Rightarrow> launch_world \<Rightarrow> bool" where
  "cleared pf ls s approvedId event values targets w \<longleftrightarrow>
     (if approvedId = [] then (\<exists>p. ls_policy ls = Inr p \<and> approvalRequirement p s (event_of event) = None)
      else (\<exists>row spec d. readExecutingApproval (pf_decrypt pf) (pf_clock pf 0) (ls_env ls) approvedId s (lw_db w) = (Inr (Some (row, spec)), d)
              \<and> approvalExecutionMatches (pf_sha pf) spec event values targets))"

lemma gate_cleared:
  assumes "approval_gate pf ls s approvedId event shown values targets parent w = (Inr (Inr u), w')"
  shows "cleared pf ls s approvedId event values targets w"
proof (cases "approvedId = []")
  case True
  with assms show ?thesis
    by (auto simp: approval_gate_def cleared_def eff_Inr_iffs split: sum.splits option.splits)
next
  case False
  with assms show ?thesis
    by (auto simp: approval_gate_def cleared_def in_db_def bindM_run returnM_run split: sum.splits option.splits prod.splits if_splits)
qed

lemma silent_gate [silent_intros]: "silent (approval_gate pf ls s approvedId event shown values targets parent)"
  unfolding approval_gate_def by (auto intro!: silent_intros split: option.splits)

lemma launch_sends: "sends (\<lambda>p. p = launchPayload event parts targets) (launch pf ls actor mode event shown values targets parts parent) w"
proof (cases "mode = DemoCatalog \<or> \<not> key_given (ls_url ls) \<or> \<not> key_given (ls_key ls)")
  case True
  then show ?thesis unfolding launch_def Let_def by (intro sends_silent) (simp, intro silent_intros)
next
  case False
  have "sends (\<lambda>p. p = launchPayload event parts targets) (send_launch ls (launchPayload event parts targets)) w"
    by (simp add: send_launch_def sends_def bindM_run modifyM_run liftM_run)
  from sends_then [OF this silent_after] False show ?thesis by (simp add: launch_def)
qed

section \<open>Every launch is authorised\<close>

text \<open>The one request a launch may send, and everything that was checked for it.\<close>

definition authorised :: "platform \<Rightarrow> launch_settings \<Rightarrow> run_request \<Rightarrow> string \<Rightarrow> launch_world \<Rightarrow> js \<Rightarrow> bool" where
  "authorised pf ls rq approvedId w payload \<longleftrightarrow>
     (\<exists>body mode events event parts. rq_body rq = Some body
        \<and> XyopsRun \<in> set (px_permissions (rq_access rq))
        \<and> loadCatalog (ls_demoMode ls) (ls_demo ls) (ls_url ls) (ls_key ls) (ls_reply ls) = Inr (mode, events) \<and> event \<in> set events
        \<and> ce_id event = text_member body ''eventId'' \<and> ce_enabled event
        \<and> (\<exists>p. ls_visibility ls = Inr p \<and> catalogEventAllowed p (access_subject (rq_access rq)) (ce_id event) (JStr (ce_category event)))
        \<and> (ce_targets event \<noteq> [] \<longrightarrow> set (body_targets body) \<subseteq> set (ce_targets event))
        \<and> read_form (body_values body) (ce_fields event) empty_form = Inr parts
        \<and> cleared pf ls (access_subject (rq_access rq)) (take 160 approvedId) event (body_values body) (body_targets body) w
        \<and> payload = launchPayload event parts (body_targets body))"

lemma chosen_sends:
  assumes "choose_process ls rerun (access_subject (rq_access rq)) (text_member body ''eventId'') w = (Inr (Inr (mode, event)), w1)"
    and "rq_body rq = Some body" "XyopsRun \<in> set (px_permissions (rq_access rq))"
  shows "sends (authorised pf ls rq approvedId w) (run_chosen pf ls rq approvedId body (mode, event)) w1"
  unfolding run_chosen_def Let_def prod.case
proof (rule sends_after [OF silent_presented])
  note chosen = choose_process_Inr [OF assms(1)]
  fix shown w2
  assume "presented pf ls rq event w1 = (Inr shown, w2)"
  with presented_keeps chosen have w: "w2 = w" by metis
  let ?s = "access_subject (rq_access rq)" and ?vs = "body_values body" and ?ts = "body_targets body" and ?parent = "text_member body ''replayOf''"
  let ?gate = "approval_gate pf ls ?s (take 160 approvedId) event shown ?vs ?ts ?parent"
  have go: "sends (authorised pf ls rq approvedId w)
      (bindR ?gate (\<lambda>_. bindM (launch pf ls (rq_actor rq) mode event shown ?vs ?ts parts ?parent) (\<lambda>r. returnM (Inr r)))) w2"
    if f: "read_form ?vs (ce_fields event) empty_form = Inr parts" "ce_targets event \<noteq> [] \<longrightarrow> set ?ts \<subseteq> set (ce_targets event)" for parts
  proof (rule sends_bindR [OF silent_gate])
    fix u w3
    assume "?gate w2 = (Inr (Inr u), w3)"
    then have c: "cleared pf ls ?s (take 160 approvedId) event ?vs ?ts w" unfolding w by (rule gate_cleared)
    have "authorised pf ls rq approvedId w p" if "p = launchPayload event parts ?ts" for p
      unfolding authorised_def using assms(2,3) chosen f c that by blast
    then have "sends (authorised pf ls rq approvedId w) (launch pf ls (rq_actor rq) mode event shown ?vs ?ts parts ?parent) w3"
      by (rule sends_mono [OF launch_sends])
    then show "sends (authorised pf ls rq approvedId w)
        (bindM (launch pf ls (rq_actor rq) mode event shown ?vs ?ts parts ?parent) (\<lambda>r. returnM (Inr r))) w3"
      by (rule sends_then) (rule silent_intros)
  qed
  show "sends (authorised pf ls rq approvedId w)
      (if ce_targets event \<noteq> [] \<and> list_ex (\<lambda>t. t \<notin> set (ce_targets event)) ?ts
       then returnM (Inl (400, RunRefused ''unsupported target''))
       else (case read_form ?vs (ce_fields event) empty_form of
           Inl key \<Rightarrow> returnM (Inl (400, RunRefused (''invalid or missing field: '' @ key)))
         | Inr parts \<Rightarrow> bindR ?gate (\<lambda>_. bindM (launch pf ls (rq_actor rq) mode event shown ?vs ?ts parts ?parent) (\<lambda>r. returnM (Inr r))))) w2"
  proof (cases "ce_targets event \<noteq> [] \<and> list_ex (\<lambda>t. t \<notin> set (ce_targets event)) ?ts")
    case False
    then have "ce_targets event \<noteq> [] \<longrightarrow> set ?ts \<subseteq> set (ce_targets event)" by (auto simp: list_ex_iff)
    with False go show ?thesis by (simp split: sum.splits) (auto intro: sends_silent silent_intros)
  qed (simp add: sends_silent silent_intros)
qed

lemma run_sends: "sends (authorised pf ls rq approvedId w) (handleCatalogRunRequest pf error_text ls rq rerun approvedId) w"
proof (cases "XyopsRun \<in> set (px_permissions (rq_access rq))")
  case permitted: True
  show ?thesis
  proof (cases "rq_body rq")
    case (Some body)
    have "sends (authorised pf ls rq approvedId w) (run_checked pf ls rq rerun approvedId body) w"
      unfolding run_checked_def
    proof (rule sends_then [OF sends_bindR [OF silent_choose]])
      fix x w1
      assume "choose_process ls rerun (access_subject (rq_access rq)) (text_member body ''eventId'') w = (Inr (Inr x), w1)"
      then show "sends (authorised pf ls rq approvedId w) (run_chosen pf ls rq approvedId body x) w1"
        by (cases x) (simp add: chosen_sends [OF _ Some permitted])
    qed (rule silent_intros)
    from sends_catch [OF this silent_failed]
    have "sends (authorised pf ls rq approvedId w)
        (catchM (run_checked pf ls rq rerun approvedId body) (run_failed pf ls rq body error_text)) w" .
    then have "sends (authorised pf ls rq approvedId w) (bindM (requireM (body \<noteq> JNull) BodyFault) (\<lambda>_.
        catchM (run_checked pf ls rq rerun approvedId body) (run_failed pf ls rq body error_text))) w"
      by (intro sends_after) (auto intro: silent_intros simp: requireM_run split: if_splits)
    then show ?thesis using permitted Some by (simp add: handleCatalogRunRequest_def)
  qed (use permitted in \<open>simp add: handleCatalogRunRequest_def sends_silent silent_intros\<close>)
qed (simp add: handleCatalogRunRequest_def sends_silent silent_intros)

end
