(* ===== verification/ApprovalAction.thy ===== *)
theory ApprovalAction
  imports LaunchSafety
begin

text \<open>
  The endpoint behind the buttons of an approval request, \<open>handleApprovalAction\<close> of
  \<open>src/worker/operations-http-entry.ts\<close>: deciding, cancelling, and executing through
  \<open>handleCatalogRunRequest\<close>. The handler loads the catalog and the policies itself and the launch loads
  them again, so each has its own settings. The request for the launch is printed and parsed on its way;
  the model passes it on as it is. Audit events are not modelled; their failures are swallowed by the
  source.
\<close>

section \<open>The handler\<close>

datatype approval_action = ActApprove | ActReject | ActCancel | ActExecute

datatype action_answer =
    DeniedAnswer portal_permission portal_role
  | ApprovalAnswer public_approval
  | LaunchAnswer run_answer
  | ErrorAnswer run_error
  | RefusedAnswer string

type_synonym action_response = "int \<times> action_answer"

definition action_permission :: "approval_action \<Rightarrow> portal_permission" where
  "action_permission a = (if a = ActApprove \<or> a = ActReject then XyopsApprove else XyopsRun)"

text \<open>The loop over the secret fields of the specification: the first one that is not given stops it.\<close>

fun fill_secrets :: "string list \<Rightarrow> js \<Rightarrow> (string \<times> js) list \<Rightarrow> string + (string \<times> js) list" where
  "fill_secrets [] given vs = Inr vs"
| "fill_secrets (k # ks) given vs = (case jget given k of
      JStr s \<Rightarrow> if s = [] then Inl k else fill_secrets ks given (obj_set k (JStr s) vs)
    | _ \<Rightarrow> Inl k)"

definition finish_approval :: "platform \<Rightarrow> approval_env \<Rightarrow> string \<Rightarrow> finish_status \<Rightarrow> string \<Rightarrow> string \<Rightarrow> unit launch_eff" where
  "finish_approval pf env i status runId reason = in_db (finishApprovalExecution env i status runId reason (pf_clock pf 6))"

definition refuse :: "platform \<Rightarrow> approval_env \<Rightarrow> string \<Rightarrow> int \<Rightarrow> string \<Rightarrow> action_response launch_eff" where
  "refuse pf env i status reason =
     bindM (finish_approval pf env i FinishFailed [] reason) (\<lambda>_. returnM (status, RefusedAnswer reason))"

text \<open>The run id and the error an answer of the launch holds.\<close>

fun answer_run :: "run_answer \<Rightarrow> string option" where
  "answer_run (RunStarted run) = Some (or_id run)"
| "answer_run (RunRejected _ run _ _) = Some (or_id run)"
| "answer_run (RunBroken _ run) = Some (or_id run)"
| "answer_run _ = None"

fun answer_error :: "(run_error \<Rightarrow> string) \<Rightarrow> run_answer \<Rightarrow> string option" where
  "answer_error error_text (RunRefused m) = Some m"
| "answer_error error_text (RunRejected m _ _ _) = Some m"
| "answer_error error_text (RunBroken e _) = Some (error_text e)"
| "answer_error error_text (RunDenied _ _) = Some ''denied''"
| "answer_error error_text _ = None"

definition finish_launch ::
  "platform \<Rightarrow> (run_error \<Rightarrow> string) \<Rightarrow> approval_env \<Rightarrow> string \<Rightarrow> run_response \<Rightarrow> action_response launch_eff" where
  "finish_launch pf error_text env i response =
     (let (status, answer) = response; runId = answer_run answer in
      bindM
        (if response_ok status \<and> runId \<noteq> None then finish_approval pf env i FinishExecuted (the runId) []
         else finish_approval pf env i (if 500 \<le> status then FinishUnknown else FinishFailed)
           (case runId of None \<Rightarrow> [] | Some r \<Rightarrow> r)
           (case answer_error error_text answer of None \<Rightarrow> ''XYOps launch failed'' | Some m \<Rightarrow> m))
        (\<lambda>_. returnM (status, LaunchAnswer answer)))"

definition launch_request :: "run_request \<Rightarrow> approval_spec \<Rightarrow> (string \<times> js) list \<Rightarrow> run_request" where
  "launch_request rq spec vs = rq\<lparr>rq_locale := JUndef, rq_body := Some (JObj [(''eventId'', JStr (sp_eventId spec)), (''values'', JObj vs),
     (''targets'', strings_js (sp_targets spec)), (''replayOf'', JStr (sp_parentRunId spec))])\<rparr>"

definition launch_claimed ::
  "platform \<Rightarrow> (run_error \<Rightarrow> string) \<Rightarrow> launch_settings \<Rightarrow> launch_settings \<Rightarrow> run_request \<Rightarrow> string \<Rightarrow> public_approval \<Rightarrow> approval_spec
     \<Rightarrow> (string \<times> js) list \<Rightarrow> action_response launch_eff" where
  "launch_claimed pf error_text ls ls' rq i approval spec vs =
     (let s = access_subject (rq_access rq); env = ls_env ls in
      bindM (liftM (case loadCatalog (ls_demoMode ls) (ls_demo ls) (ls_url ls) (ls_key ls) (ls_reply ls) of
          Inl e \<Rightarrow> Inl (CatalogFault e) | Inr x \<Rightarrow> Inr x)) (\<lambda>(_, events).
      (case find (\<lambda>e. ce_id e = sp_eventId spec \<and> ce_enabled e) events of
         None \<Rightarrow> refuse pf env i 409 ''schema changed''
       | Some event \<Rightarrow>
           if event_schema event = [] \<or> event_schema event \<noteq> sp_schemaVersion spec then refuse pf env i 409 ''schema changed''
           else
             bindM (liftM (case ls_visibility ls of Inl e \<Rightarrow> Inl (PolicyFault e) | Inr p \<Rightarrow> Inr p)) (\<lambda>visibility.
             if \<not> catalogEventAllowed visibility s (ce_id event) (JStr (ce_category event)) then refuse pf env i 404 ''no longer visible''
             else
               bindM (liftM (case ls_policy ls of Inl e \<Rightarrow> Inl (PolicyFault e) | Inr p \<Rightarrow> Inr p)) (\<lambda>policy.
               (case approvalRequirement policy s (event_of event) of
                  None \<Rightarrow> refuse pf env i 409 ''policy changed''
                | Some q \<Rightarrow>
                    if int (pa_approvals approval) < ar_requiredApprovals q then refuse pf env i 409 ''policy changed''
                    else
                      bindM (handleCatalogRunRequest pf error_text ls' (launch_request rq spec vs) None i)
                        (finish_launch pf error_text env i)))))))"

definition execute_action ::
  "platform \<Rightarrow> (run_error \<Rightarrow> string) \<Rightarrow> launch_settings \<Rightarrow> launch_settings \<Rightarrow> run_request \<Rightarrow> string \<Rightarrow> js \<Rightarrow> action_response launch_eff" where
  "execute_action pf error_text ls ls' rq i body =
     bindM (in_db (claimApprovalExecution (pf_decrypt pf) (pf_clock pf) (ls_env ls) i (access_subject (rq_access rq)))) (\<lambda>(approval, spec).
     bindM (requireM (body \<noteq> JNull) BodyFault) (\<lambda>_.
     (let given = (case jget body ''secretValues'' of JObj ps \<Rightarrow> JObj ps | _ \<Rightarrow> JObj []) in
      if list_ex (\<lambda>k. k \<notin> set (sp_secretFields spec)) (jkeys given)
      then refuse pf (ls_env ls) i 400 ''unexpected secret fields''
      else (case fill_secrets (sp_secretFields spec) given (sp_values spec) of
          Inl k \<Rightarrow> refuse pf (ls_env ls) i 400 (''missing secret field '' @ k)
        | Inr vs \<Rightarrow> launch_claimed pf error_text ls ls' rq i approval spec vs))))"

definition decide_action :: "platform \<Rightarrow> launch_settings \<Rightarrow> run_request \<Rightarrow> string \<Rightarrow> approval_decision \<Rightarrow> js \<Rightarrow> action_response launch_eff" where
  "decide_action pf ls rq i decision body =
     bindM (requireM (body \<noteq> JNull) BodyFault) (\<lambda>_.
     bindM (in_db (decideApproval (pf_clock pf) (ls_env ls) i (access_subject (rq_access rq)) decision
       (to_str (coalesce (jget body ''comment'') (JStr []))))) (\<lambda>a. returnM (200, ApprovalAnswer a)))"

text \<open>A body that is no JSON is the empty object.\<close>

definition handleApprovalAction ::
  "platform \<Rightarrow> (run_error \<Rightarrow> string) \<Rightarrow> launch_settings \<Rightarrow> launch_settings \<Rightarrow> run_request \<Rightarrow> string \<Rightarrow> approval_action \<Rightarrow> action_response launch_eff" where
  "handleApprovalAction pf error_text ls ls' rq i action =
     (if action_permission action \<notin> set (px_permissions (rq_access rq))
      then returnM (403, DeniedAnswer (action_permission action) (px_role (rq_access rq)))
      else
        (let body = (case rq_body rq of None \<Rightarrow> JObj [] | Some b \<Rightarrow> b) in
         catchM (case action of
             ActApprove \<Rightarrow> decide_action pf ls rq i Approve body
           | ActReject \<Rightarrow> decide_action pf ls rq i Reject body
           | ActCancel \<Rightarrow> bindM (in_db (cancelApproval (pf_clock pf) (ls_env ls) i (access_subject (rq_access rq))))
               (\<lambda>a. returnM (200, ApprovalAnswer a))
           | ActExecute \<Rightarrow> execute_action pf error_text ls ls' rq i body)
         (\<lambda>e. returnM (409, ErrorAnswer e))))"

section \<open>The approved inputs pass the guard\<close>

text \<open>What the loop over the fields reads of the form.\<close>

lemma spec_parts_cong:
  assumes "\<And>f. f \<in> set fs \<Longrightarrow> rf_type f \<noteq> TPassword \<Longrightarrow> jget v (rf_key f) = jget w (rf_key f)"
    and "\<And>f. f \<in> set fs \<Longrightarrow> rf_type f = TPassword \<Longrightarrow> secret_given (jget v (rf_key f)) = secret_given (jget w (rf_key f))"
  shows "spec_parts_of fs v = spec_parts_of fs w"
  using assms
proof (induction fs rule: rev_induct)
  case (snoc f fs)
  then have "spec_parts_of fs v = spec_parts_of fs w" by simp
  moreover have "spec_field v pt f = spec_field w pt f" for pt using snoc.prems [of f] by (simp add: spec_field_def Let_def)
  ultimately show ?case by (simp add: spec_parts_snoc)
qed (simp add: spec_parts_Nil)

lemma fill_secrets_values:
  "fill_secrets ks given vs = Inr vs' \<Longrightarrow>
     jget (JObj vs') k = (if k \<in> set ks then jget given k else jget (JObj vs) k)
     \<and> (k \<in> set ks \<longrightarrow> secret_given (jget given k))"
proof (induction ks arbitrary: vs)
  case (Cons x ks)
  then obtain s where s: "jget given x = JStr s" "s \<noteq> []" "fill_secrets ks given (obj_set x (JStr s) vs) = Inr vs'"
    by (auto split: js.splits if_splits)
  from Cons.IH [OF s(3)] s(1,2) show ?case
    by (cases "k = x") (auto simp: map_of_obj_set secret_given_def)
qed simp

lemma normalized_targets_again:
  assumes "\<forall>t \<in> set ts. approval_cleanText (JStr t) 240 = t \<and> t \<noteq> []" "length ts \<le> 100"
  shows "take 100 (filter (\<lambda>s. s \<noteq> []) (map (\<lambda>t. approval_cleanText (JStr t) 240) ts)) = ts"
proof -
  have "map (\<lambda>t. approval_cleanText (JStr t) 240) ts = ts" using assms(1) by (intro map_idI) blast
  moreover have "filter (\<lambda>s. s \<noteq> []) ts = ts" using assms(1) by (auto simp: filter_id_conv)
  ultimately show ?thesis using assms(2) by simp
qed

lemma spec_targets_props:
  "length (sp_targets (fst (approvalSpec event vs targets parent))) \<le> 100"
  "t \<in> set (sp_targets (fst (approvalSpec event vs targets parent))) \<Longrightarrow> t \<noteq> []"
  by (auto simp: approvalSpec_def Let_def dest: in_set_takeD)

text \<open>The guard never turns down the request it was written for: rebuilding the form from the stored
  specification and the secrets the requester enters again gives a launch that matches the approval,
  whatever the hash. Field keys must be distinct, and no target may have been cut off at a blank.\<close>

lemma approved_inputs_match:
  assumes "spec = fst (approvalSpec event vs targets parent)" "distinct (map rf_key (ce_fields event))"
    and "\<forall>t \<in> set (sp_targets spec). approval_cleanText (JStr t) 240 = t"
    and "fill_secrets (sp_secretFields spec) given (sp_values spec) = Inr vs'"
  shows "approvalExecutionMatches sha spec event (JObj vs') (sp_targets spec)"
proof -
  let ?fs = "ce_fields event"
  have sp: "sp_values spec = pt_values (spec_parts_of ?fs vs)" "sp_secretFields spec = pt_secrets (spec_parts_of ?fs vs)"
    "sp_parentRunId spec = take 160 parent"
    using assms(1) by (simp_all add: approvalSpec_def Let_def)
  have unique: "f = g" if "f \<in> set ?fs" "g \<in> set ?fs" "rf_key f = rf_key g" for f g
    using assms(2) that by (simp add: distinct_map inj_on_def)
  have secret: "rf_key f \<in> set (sp_secretFields spec) \<longleftrightarrow> rf_type f = TPassword \<and> secret_given (jget vs (rf_key f))"
    if "f \<in> set ?fs" for f
    unfolding sp(2) pt_secrets_filter using unique that by auto
  have plain: "jget (JObj (sp_values spec)) (rf_key f) = (if rf_type f \<noteq> TPassword then jget vs (rf_key f) else JUndef)"
    if "f \<in> set ?fs" for f
  proof -
    have "(\<exists>g \<in> set ?fs. rf_type g \<noteq> TPassword \<and> rf_key g = rf_key f) \<longleftrightarrow> rf_type f \<noteq> TPassword" using unique that by blast
    then show ?thesis by (simp add: sp(1) pt_values_map_of)
  qed
  have "spec_parts_of ?fs (JObj vs') = spec_parts_of ?fs vs"
  proof (rule spec_parts_cong)
    fix f assume f: "f \<in> set ?fs" "rf_type f \<noteq> TPassword"
    with fill_secrets_values [OF assms(4), of "rf_key f"] secret [OF f(1)] plain [OF f(1)]
    show "jget (JObj vs') (rf_key f) = jget vs (rf_key f)" by simp
  next
    fix f assume f: "f \<in> set ?fs" "rf_type f = TPassword"
    with fill_secrets_values [OF assms(4), of "rf_key f"] secret [OF f(1)] plain [OF f(1)]
    show "secret_given (jget (JObj vs') (rf_key f)) = secret_given (jget vs (rf_key f))"
      by (cases "secret_given (jget vs (rf_key f))") (simp_all add: secret_given_def)
  qed
  moreover have "take 100 (filter (\<lambda>s. s \<noteq> []) (map (\<lambda>t. approval_cleanText (JStr t) 240) (sp_targets spec))) = sp_targets spec"
    using assms(1,3) spec_targets_props [where event = event and vs = vs and targets = targets and parent = parent] by (intro normalized_targets_again) auto
  ultimately have "fst (approvalSpec event (JObj vs') (sp_targets spec) (sp_parentRunId spec)) = spec"
    using assms(1) sp(3) by (simp add: approvalSpec_def Let_def)
  then show ?thesis by (simp add: approvalExecutionMatches_def)
qed

lemma approved_inputs_match_witness:
  "\<forall>sha. approvalExecutionMatches sha (fst (approvalSpec sample_event (JObj []) [''host''] [])) sample_event (JObj []) [''host'']"
proof
  fix sha
  have t: "sp_targets (fst (approvalSpec sample_event (JObj []) [''host''] [])) = [''host'']" by code_simp
  have "approval_cleanText (JStr ''host'') 240 = ''host''" by code_simp
  moreover have "sp_secretFields (fst (approvalSpec sample_event (JObj []) [''host''] [])) = []"
    "sp_values (fst (approvalSpec sample_event (JObj []) [''host''] [])) = []" by code_simp+
  ultimately show "approvalExecutionMatches sha (fst (approvalSpec sample_event (JObj []) [''host''] [])) sample_event (JObj []) [''host'']"
    using approved_inputs_match [OF refl, of sample_event "JObj []" "[''host'']" "[]" "JObj []" "[]" sha] t by (simp add: sample_event_def plain_event_def)
qed

section \<open>An execution that fails before the launch\<close>

lemma ensures_spent_found:
  assumes "\<And>q. spent_status (aw_status q) \<Longrightarrow> ensures approval_step (\<lambda>_. True) (f q) (\<lambda>_ _. False)"
  shows "ensures approval_step (\<lambda>t. approval_inv t \<and> row_spent i t)
    (bindM (approval_readRow env i now) (\<lambda>x. bindM (requireRow e x) f)) (\<lambda>_ _. False)"
proof (rule ensures_found)
  fix q
  have "spent_status (aw_status q)" if "approval_inv t" "row_spent i t" "find_row (take 160 i) t = Some q" for t
  proof -
    from that(2) obtain r where r: "r \<in> set (at_rows t)" "aw_id r = i" "spent_status (aw_status r)" by (auto simp: row_spent_def)
    with full_id that(1) have "take 160 i = i" by blast
    with find_row_in [OF that(1) r(1)] r(2) that(3) have "q = r" by simp
    with r(3) show ?thesis by simp
  qed
  then show "ensures approval_step (\<lambda>t. (approval_inv t \<and> row_spent i t) \<and> find_row (take 160 i) t = Some q) (f q) (\<lambda>_ _. False)"
    using assms unfolding ensures_def by blast
qed auto

lemma ensures_False: "\<not> b \<Longrightarrow> ensures R P (bindM (requireM b e) m) (\<lambda>_ _. False)"
  by (auto simp: ensures_def bindM_run requireM_run)

lemma spent_closed: "spent_status s \<Longrightarrow> statusValue s \<noteq> Pending \<and> statusValue s \<noteq> Approved"
  by (auto simp: spent_status_def statusValue_def)

lemma ensures_spent_decide:
  "ensures approval_step (\<lambda>t. approval_inv t \<and> row_spent i t) (decideApproval clock env i s d c) (\<lambda>_ _. False)"
  unfolding decideApproval_def
  by (rule ensures_require_then, rule ensures_spent_found, rule ensures_False) (simp add: spent_closed)

lemma ensures_spent_cancel:
  "ensures approval_step (\<lambda>t. approval_inv t \<and> row_spent i t) (cancelApproval clock env i s) (\<lambda>_ _. False)"
  unfolding cancelApproval_def
  by (rule ensures_require_then, rule ensures_spent_found, rule ensures_require_then, rule ensures_False) (simp add: spent_closed)

lemma claimed_spent:
  assumes "approval_inv t" "claimApprovalExecution dec clock env i s (quiet t) = (Inr x, quiet t1)"
  shows "approval_inv t1 \<and> row_spent i t1"
  using ensuresD(3) [OF ensures_claim env_follows_quiet _ assms(2) refl] assms(1)
  by (auto simp: claimed_row_def row_spent_def split: prod.splits)

lemma spent_fails:
  assumes "approval_inv t1 \<and> row_spent i t1" "approval_step\<^sup>*\<^sup>* t1 (db_tables w)" "env_follows approval_step w"
    and "ensures approval_step (\<lambda>t. approval_inv t \<and> row_spent i t) m (\<lambda>_ _. False)"
  shows "\<exists>e. fst (m w) = Inl e"
proof -
  have p: "approval_inv (db_tables w) \<and> row_spent i (db_tables w)"
    using stable_underD [OF stable_inv assms(2)] stable_underD [OF stable_spent assms(2)] assms(1) by blast
  obtain r w' where m: "m w = (r, w')" by (cases "m w")
  show ?thesis
  proof (cases r)
    case (Inr x)
    show ?thesis using ensuresD(3) [OF assms(4,3) p m Inr] by simp
  qed (simp add: m)
qed

text \<open>The request brings what the claimed specification still lacks: a text for every password field, and none for another.\<close>

definition secrets_supplied :: "run_request \<Rightarrow> approval_spec \<Rightarrow> bool" where
  "secrets_supplied rq spec \<longleftrightarrow>
     (let body = (case rq_body rq of None \<Rightarrow> JObj [] | Some b \<Rightarrow> b);
          given = (case jget body ''secretValues'' of JObj ps \<Rightarrow> JObj ps | _ \<Rightarrow> JObj [])
      in body \<noteq> JNull \<and> list_all (\<lambda>k. k \<in> set (sp_secretFields spec)) (jkeys given)
         \<and> list_all (\<lambda>k. case jget given k of JStr s \<Rightarrow> s \<noteq> [] | _ \<Rightarrow> False) (sp_secretFields spec))"

lemma fill_secrets_total:
  "list_all (\<lambda>k. case jget given k of JStr s \<Rightarrow> s \<noteq> [] | _ \<Rightarrow> False) ks \<Longrightarrow> \<exists>vs'. fill_secrets ks given vs = Inr vs'"
  by (induction ks arbitrary: vs) (auto split: js.splits)

text \<open>C34: When an error is met after the claim and before the launch, here the catalog that cannot be loaded, an
  execute request that has the permission and supplies the passwords of the process - whatever its body holds besides -
  is answered 409 and leaves the request as the claim left it, marked as executing: nothing is sent, it is never
  finished, and from then on nobody can decide, cancel or execute it.\<close>

theorem failed_load_strands:
  assumes "approval_inv t" "XyopsRun \<in> set (px_permissions (rq_access rq))" "lw_db w = quiet t"
    and "loadCatalog (ls_demoMode ls) (ls_demo ls) (ls_url ls) (ls_key ls) (ls_reply ls) = Inl e"
    and "claimApprovalExecution (pf_decrypt pf) (pf_clock pf) (ls_env ls) i (access_subject (rq_access rq)) (quiet t) = (Inr (a, spec), quiet t1)"
    and "secrets_supplied rq spec"
  shows "handleApprovalAction pf error_text ls ls' rq i ActExecute w = (Inr (409, ErrorAnswer (CatalogFault e)), w\<lparr>lw_db := quiet t1\<rparr>)
    \<and> (\<forall>d clock' env' s b c. approval_step\<^sup>*\<^sup>* t1 (db_tables d) \<longrightarrow> env_follows approval_step d \<longrightarrow>
        (\<exists>x. fst (decideApproval clock' env' i s b c d) = Inl x) \<and> (\<exists>x. fst (cancelApproval clock' env' i s d) = Inl x)
        \<and> (\<exists>x. fst (claimApprovalExecution (pf_decrypt pf) clock' env' i s d) = Inl x))"
proof -
  let ?body = "case rq_body rq of None \<Rightarrow> JObj [] | Some b \<Rightarrow> b"
  let ?given = "case jget ?body ''secretValues'' of JObj ps \<Rightarrow> JObj ps | _ \<Rightarrow> JObj []"
  from assms(6) have body: "?body \<noteq> JNull" "\<not> list_ex (\<lambda>k. k \<notin> set (sp_secretFields spec)) (jkeys ?given)"
    unfolding secrets_supplied_def Let_def by (simp_all add: list_ex_iff list_all_iff)
  from assms(6) obtain vs where fill: "fill_secrets (sp_secretFields spec) ?given (sp_values spec) = Inr vs"
    unfolding secrets_supplied_def Let_def using fill_secrets_total by blast
  have "execute_action pf error_text ls ls' rq i ?body w = (Inl (CatalogFault e), w\<lparr>lw_db := quiet t1\<rparr>)"
    unfolding execute_action_def Let_def
    using assms(3,4,5) body fill by (simp add: bindM_run in_db_def requireM_run launch_claimed_def Let_def liftM_run)
  then have "handleApprovalAction pf error_text ls ls' rq i ActExecute w = (Inr (409, ErrorAnswer (CatalogFault e)), w\<lparr>lw_db := quiet t1\<rparr>)"
    using assms(2) by (simp add: handleApprovalAction_def action_permission_def Let_def catchM_run returnM_run)
  moreover note spent = claimed_spent [OF assms(1,5)]
  ultimately show ?thesis
    using spent_fails [OF spent _ _ ensures_spent_decide] spent_fails [OF spent _ _ ensures_spent_cancel]
      spent_fails [OF spent _ _ ensures_spent_claim] by blast
qed

section \<open>A sample platform and request\<close>

definition sample_platform :: platform where
  "sample_platform = \<lparr>pf_encrypt = sample_encrypt, pf_decrypt = sample_decrypt, pf_sha = id, pf_iv = replicate 12 0,
     pf_replay_iv = replicate 12 0, pf_approval_id = ''a'', pf_run_id = ''r'', pf_failure_id = ''f'', pf_canon = Some,
     pf_collate = \<lambda>_ _. 0, pf_date_parse = \<lambda>_. NaN, pf_clock = \<lambda>_. 0\<rparr>"

definition sample_run_request :: run_request where
  "sample_run_request = \<lparr>rq_access = \<lparr>px_identity = ''bob@example.org'', px_role = Operator, px_groups = [], px_permissions = [XyopsRun]\<rparr>,
     rq_actor = ''Bob'', rq_body = None, rq_locale = JUndef, rq_acceptLanguage = JUndef\<rparr>"

lemma sample_subject: "access_subject (rq_access sample_run_request) = sample_requester"
  by (simp add: access_subject_def sample_run_request_def sample_requester_def)

definition failing_settings :: launch_settings where
  "failing_settings = \<lparr>ls_demoMode = False, ls_demo = [], ls_url = Some ''u'', ls_key = Some ''k'', ls_reply = RequestTimeout,
     ls_visibility = Inr default_catalog_policy, ls_presentation = Inr empty_presentation, ls_policy = Inr default_approval_policy,
     ls_send = \<lambda>_. Inl [], ls_env = sample_env\<rparr>"

lemma sample_no_secrets: "sp_secretFields (fst (approvalSpec sample_event (JObj []) [] [])) = []"
  by code_simp

lemma failed_load_strands_witness:
  "\<exists>w t1. handleApprovalAction sample_platform (\<lambda>_. []) failing_settings failing_settings sample_run_request ''u'' ActExecute w
      = (Inr (409, ErrorAnswer (CatalogFault CatalogTimeout)), w\<lparr>lw_db := quiet t1\<rparr>)
    \<and> (\<exists>x. fst (cancelApproval (\<lambda>_. 0) sample_env ''u'' sample_requester (quiet t1)) = Inl x)"
proof -
  from sample_claimed obtain a t t1 where s: "approval_inv t"
    "claimApprovalExecution sample_decrypt (\<lambda>_. 0) sample_env ''u'' sample_requester (quiet t)
      = (Inr (a, fst (approvalSpec sample_event (JObj []) [] [])), quiet t1)" by blast
  let ?w = "\<lparr>lw_db = quiet t, lw_sent = [], lw_runs = [], lw_replays = [], lw_deliveries = []\<rparr>"
  have "loadCatalog (ls_demoMode failing_settings) (ls_demo failing_settings) (ls_url failing_settings) (ls_key failing_settings) (ls_reply failing_settings)
      = Inl CatalogTimeout" by (simp add: failing_settings_def loadCatalog_def)
  moreover have "XyopsRun \<in> set (px_permissions (rq_access sample_run_request))"
    "secrets_supplied sample_run_request (fst (approvalSpec sample_event (JObj []) [] []))"
    by (simp_all add: sample_run_request_def secrets_supplied_def sample_no_secrets jkeys_def)
  moreover have "claimApprovalExecution (pf_decrypt sample_platform) (pf_clock sample_platform) (ls_env failing_settings) ''u''
      (access_subject (rq_access sample_run_request)) (quiet t) = (Inr (a, fst (approvalSpec sample_event (JObj []) [] [])), quiet t1)"
    using s(2) by (simp add: sample_platform_def failing_settings_def sample_subject)
  ultimately have "handleApprovalAction sample_platform (\<lambda>_. []) failing_settings failing_settings sample_run_request ''u'' ActExecute ?w
      = (Inr (409, ErrorAnswer (CatalogFault CatalogTimeout)), ?w\<lparr>lw_db := quiet t1\<rparr>)"
    and "\<forall>d s b. approval_step\<^sup>*\<^sup>* t1 (db_tables d) \<longrightarrow> env_follows approval_step d \<longrightarrow>
        (\<exists>x. fst (cancelApproval (\<lambda>_. 0) sample_env ''u'' s d) = Inl x)"
    using failed_load_strands [OF s(1), of sample_run_request ?w failing_settings CatalogTimeout sample_platform "''u''" a _ t1 "\<lambda>_. []" failing_settings]
    by simp_all
  then show ?thesis using rtranclp.rtrancl_refl [of approval_step t1] env_follows_quiet [of approval_step t1] by fastforce
qed

end
