(* ===== verification/ApprovedLaunch.thy ===== *)
theory ApprovedLaunch
  imports ApprovalAction
begin

text \<open>
  The approval subsystem end to end: whatever reaches the automation service through an approved request was
  claimed by its requester after the quorum had been met, and is what was approved; whatever reaches it
  directly did not need an approval.
\<close>

section \<open>Every launch is authorised\<close>

text \<open>C4: A request to launch a process sends at most one request to the automation service, and only when
  everything was checked: the subject may launch, the process is an enabled one of the catalog as loaded
  and visible to the subject, the targets are among its targets if the process lists any (for a process without a
  list, any targets are sent as they are given), the form was read without an error, and either the policy asks for no approval or a request of this subject is executing whose specification
  has the fingerprint of these very values.\<close>

theorem launch_authorised:
  assumes "handleCatalogRunRequest pf error_text ls rq rerun approvedId w = (result, w')" "lw_sent w' \<noteq> lw_sent w"
  shows "\<exists>payload. lw_sent w' = lw_sent w @ [payload] \<and> authorised pf ls rq approvedId w payload"
  using run_sends [of pf ls rq approvedId w error_text rerun] assms by (simp add: sends_def)

section \<open>The request that is executing is the one that was claimed\<close>

lemma ensures_read_executing:
  assumes "aw_id r = take 160 i"
  shows "ensures approval_step (\<lambda>t. approval_inv t \<and> row_known r t) (readExecutingApproval dec now env i s)
    (\<lambda>x t. \<forall>q spec. x = Some (q, spec) \<longrightarrow> decryptSpec dec (aw_encrypted_spec r) (ae_key env) = Inr spec)"
  unfolding readExecutingApproval_def
proof (rule ensures_bindM [OF ensures_readRow], simp)
  fix found :: "approval_row option"
  let ?m = "case found of None \<Rightarrow> returnM None
      | Some row \<Rightarrow>
          if statusValue (aw_status row) \<noteq> Executing \<or> js_lower (aw_requester_identity row) \<noteq> js_lower (su_identity s) then returnM None
          else (case decryptSpec dec (aw_encrypted_spec row) (ae_key env) of
              Inr spec \<Rightarrow> returnM (Some (row, spec)) | Inl _ \<Rightarrow> returnM None)"
  have same: "aw_encrypted_spec q = aw_encrypted_spec r"
    if "approval_inv t" "row_known r t" "find_row (take 160 i) t = Some q" for q t
    using known_row [OF that(1,2)] find_row_Some [OF that(3)] assms by (simp add: frozen_iff)
  show "ensures approval_step (\<lambda>t. (approval_inv t \<and> row_known r t) \<and> (\<forall>q. found = Some q \<longrightarrow> find_row (take 160 i) t = Some q)) ?m
      (\<lambda>x t. \<forall>q spec. x = Some (q, spec) \<longrightarrow> decryptSpec dec (aw_encrypted_spec r) (ae_key env) = Inr spec)"
  proof (rule ensures_pure)
    show "snd (?m w) = w" for w by (simp add: returnM_run split: option.splits sum.splits)
    show "\<forall>q spec. x = Some (q, spec) \<longrightarrow> decryptSpec dec (aw_encrypted_spec r) (ae_key env) = Inr spec"
      if "(approval_inv (db_tables w) \<and> row_known r (db_tables w)) \<and> (\<forall>q. found = Some q \<longrightarrow> find_row (take 160 i) (db_tables w) = Some q)"
        "fst (?m w) = Inr x" for w x
      using that same [of "db_tables w"] by (auto simp: returnM_run split: option.splits sum.splits if_splits)
  qed
qed

lemma executing_is_claimed:
  assumes "approval_inv (db_tables d)" "env_follows approval_step d" "find_row i (db_tables d) = Some r"
    and "readExecutingApproval dec now env (take 160 i) s d = (Inr (Some (q, spec')), d')"
    and "decryptSpec dec (aw_encrypted_spec r) (ae_key env) = Inr spec"
  shows "spec' = spec"
proof -
  note r = find_row_Some [OF assms(3)]
  with full_id [OF assms(1)] have "aw_id r = take 160 (take 160 i)" by (metis min.idem take_take)
  moreover from r have "row_known r (db_tables d)" by (auto simp: row_known_def)
  ultimately have "decryptSpec dec (aw_encrypted_spec r) (ae_key env) = Inr spec'"
    using ensuresD(3) [OF ensures_read_executing assms(2) _ assms(4) refl] assms(1) by blast
  with assms(5) show ?thesis by simp
qed

section \<open>What an action sends\<close>

definition claim_of :: "platform \<Rightarrow> launch_settings \<Rightarrow> run_request \<Rightarrow> string \<Rightarrow> (public_approval \<times> approval_spec) approval_eff" where
  "claim_of pf ls rq i = claimApprovalExecution (pf_decrypt pf) (pf_clock pf) (ls_env ls) i (access_subject (rq_access rq))"

definition claimed_launch ::
  "platform \<Rightarrow> launch_settings \<Rightarrow> launch_settings \<Rightarrow> run_request \<Rightarrow> string \<Rightarrow> launch_world \<Rightarrow> js \<Rightarrow> bool" where
  "claimed_launch pf ls ls' rq i w payload \<longleftrightarrow>
     (\<exists>a spec d vs. claim_of pf ls rq i (lw_db w) = (Inr (a, spec), d)
        \<and> authorised pf ls' (launch_request rq spec vs) i (w\<lparr>lw_db := d\<rparr>) payload)"

lemma silent_finish_approval [silent_intros]: "silent (finish_approval pf env i status runId reason)"
  unfolding finish_approval_def by (rule silent_intros)

lemma silent_refuse [silent_intros]: "silent (refuse pf env i status reason)"
  unfolding refuse_def by (intro silent_intros)

lemma silent_finish_launch [silent_intros]: "silent (finish_launch pf error_text env i response)"
  unfolding finish_launch_def Let_def by (cases response) (auto intro!: silent_intros)

lemma sends_lift: "(\<And>x. r = Inr x \<Longrightarrow> sends Q (f x) w) \<Longrightarrow> sends Q (bindM (liftM r) f) w"
  by (rule sends_after [OF silent_pure(3)]) (auto simp: liftM_run)

lemma launch_claimed_sends:
  "sends (authorised pf ls' (launch_request rq spec vs) i w) (launch_claimed pf error_text ls ls' rq i a spec vs) w"
proof -
  have "sends (authorised pf ls' (launch_request rq spec vs) i w)
      (bindM (handleCatalogRunRequest pf error_text ls' (launch_request rq spec vs) None i) (finish_launch pf error_text (ls_env ls) i)) w"
    by (rule sends_then [OF run_sends silent_finish_launch])
  then show ?thesis
    unfolding launch_claimed_def Let_def
    by (auto intro!: sends_lift sends_silent [OF silent_refuse] split: option.split)
qed

lemma action_sends: "sends (claimed_launch pf ls ls' rq i w) (handleApprovalAction pf error_text ls ls' rq i action) w"
proof (cases "action = ActExecute \<and> action_permission action \<in> set (px_permissions (rq_access rq))")
  case False
  then show ?thesis
    by (intro sends_silent)
      (cases action; auto simp: handleApprovalAction_def decide_action_def Let_def intro!: silent_intros)
next
  case True
  define body where "body = (case rq_body rq of None \<Rightarrow> JObj [] | Some b \<Rightarrow> b)"
  have "sends (claimed_launch pf ls ls' rq i w) (execute_action pf error_text ls ls' rq i body) w"
    unfolding execute_action_def
  proof (rule sends_after [OF silent_in_db], clarify)
    fix a spec w1
    assume "in_db (claimApprovalExecution (pf_decrypt pf) (pf_clock pf) (ls_env ls) i (access_subject (rq_access rq))) w = (Inr (a, spec), w1)"
    then obtain d where c: "claim_of pf ls rq i (lw_db w) = (Inr (a, spec), d)" and w1: "w1 = w\<lparr>lw_db := d\<rparr>"
      by (auto simp: in_db_def claim_of_def split: prod.splits sum.splits)
    have go: "sends (claimed_launch pf ls ls' rq i w) (launch_claimed pf error_text ls ls' rq i a spec vs) w1" for vs
      by (rule sends_mono [OF launch_claimed_sends]) (use c w1 in \<open>auto simp: claimed_launch_def\<close>)
    let ?given = "case jget body ''secretValues'' of JObj ps \<Rightarrow> JObj ps | _ \<Rightarrow> JObj []"
    have "sends (claimed_launch pf ls ls' rq i w)
        (if list_ex (\<lambda>k. k \<notin> set (sp_secretFields spec)) (jkeys ?given) then refuse pf (ls_env ls) i 400 ''unexpected secret fields''
         else (case fill_secrets (sp_secretFields spec) ?given (sp_values spec) of
             Inl k \<Rightarrow> refuse pf (ls_env ls) i 400 (''missing secret field '' @ k)
           | Inr vs \<Rightarrow> launch_claimed pf error_text ls ls' rq i a spec vs)) w1"
      by (simp add: go sends_silent [OF silent_refuse] split: sum.split)
    then show "sends (claimed_launch pf ls ls' rq i w) (bindM (requireM (body \<noteq> JNull) BodyFault) (\<lambda>_.
        let given = ?given in
        if list_ex (\<lambda>k. k \<notin> set (sp_secretFields spec)) (jkeys given) then refuse pf (ls_env ls) i 400 ''unexpected secret fields''
        else (case fill_secrets (sp_secretFields spec) given (sp_values spec) of
            Inl k \<Rightarrow> refuse pf (ls_env ls) i 400 (''missing secret field '' @ k)
          | Inr vs \<Rightarrow> launch_claimed pf error_text ls ls' rq i a spec vs))) w1"
      by (intro sends_after [OF silent_pure(4)]) (simp add: requireM_run Let_def split: if_splits)
  qed
  then have "sends (claimed_launch pf ls ls' rq i w)
      (catchM (execute_action pf error_text ls ls' rq i body) (\<lambda>e. returnM (409, ErrorAnswer e))) w"
    by (rule sends_catch) (rule silent_intros)
  with conjunct1 [OF True] conjunct2 [OF True] show ?thesis by (simp add: handleApprovalAction_def body_def)
qed

section \<open>Nothing is launched without its quorum\<close>

text \<open>C3: When an action on an approval request reaches the automation service, it was the execution of that
  request, claimed by its requester before its time ran out, after at least the required number of
  distinct subjects had approved it, none of them the requester where that is forbidden; it sends one
  request, for an enabled process the requester may see; and the values and targets sent match the
  fingerprint of the very specification that was approved. This holds however other requests interleave.\<close>

theorem no_unapproved_launch:
  assumes "approval_inv (db_tables (lw_db w))" "env_follows approval_step (lw_db w)" "i \<noteq> []" "ls_env ls' = ls_env ls"
    and "handleApprovalAction pf error_text ls ls' rq i action w = (result, w')" "lw_sent w' \<noteq> lw_sent w"
  shows "\<exists>a spec d r event parts vs. claimApprovalExecution (pf_decrypt pf) (pf_clock pf) (ls_env ls) i (access_subject (rq_access rq)) (lw_db w) = (Inr (a, spec), d)
    \<and> find_row i (db_tables d) = Some r \<and> js_lower (aw_requester_identity r) = js_lower (px_identity (rq_access rq))
    \<and> pf_clock pf 1 < aw_expires_at r \<and> aw_required_approvals r \<le> int (card (approvers i (db_tables d)))
    \<and> \<not> (aw_requester_cannot_approve r = 1 \<and> js_lower (aw_requester_identity r) \<in> approvers i (db_tables d))
    \<and> decryptSpec (pf_decrypt pf) (aw_encrypted_spec r) (ae_key (ls_env ls)) = Inr spec
    \<and> ce_id event = sp_eventId spec \<and> ce_enabled event
    \<and> (\<exists>p. ls_visibility ls' = Inr p \<and> catalogEventAllowed p (access_subject (rq_access rq)) (ce_id event) (JStr (ce_category event)))
    \<and> read_form (JObj vs) (ce_fields event) empty_form = Inr parts
    \<and> approvalExecutionMatches (pf_sha pf) spec event (JObj vs) (sp_targets spec)
    \<and> lw_sent w' = lw_sent w @ [launchPayload event parts (sp_targets spec)]"
proof -
  from action_sends [of pf ls ls' rq i w error_text action] assms(5,6) obtain payload
    where sent: "lw_sent w' = lw_sent w @ [payload]" and c: "claimed_launch pf ls ls' rq i w payload"
    by (auto simp: sends_def)
  then obtain a spec d vs where claim: "claim_of pf ls rq i (lw_db w) = (Inr (a, spec), d)"
    and auth: "authorised pf ls' (launch_request rq spec vs) i (w\<lparr>lw_db := d\<rparr>) payload" by (auto simp: claimed_launch_def)
  note claim' = claim [unfolded claim_of_def]
  from claim_quorum [OF assms(1,2) claim'] obtain r where r: "find_row i (db_tables d) = Some r"
    "js_lower (aw_requester_identity r) = js_lower (px_identity (rq_access rq))" "pf_clock pf 1 < aw_expires_at r"
    "aw_required_approvals r \<le> int (card (approvers i (db_tables d)))"
    "\<not> (aw_requester_cannot_approve r = 1 \<and> js_lower (aw_requester_identity r) \<in> approvers i (db_tables d))"
    "decryptSpec (pf_decrypt pf) (aw_encrypted_spec r) (ae_key (ls_env ls)) = Inr spec"
    by (auto simp: access_subject_def)
  have d: "approval_inv (db_tables d)" "env_follows approval_step d"
    using ensuresD [OF ensures_claim assms(2,1) claim'] by auto
  have body: "text_member b ''eventId'' = sp_eventId spec" "body_values b = JObj vs" "body_targets b = sp_targets spec"
    if "rq_body (launch_request rq spec vs) = Some b" for b
    using that by (auto simp: launch_request_def text_member_def body_values_def body_targets_def strings_js_def comp_def)
  have acc: "rq_access (launch_request rq spec vs) = rq_access rq" by (simp add: launch_request_def)
  from auth obtain b event parts where b: "rq_body (launch_request rq spec vs) = Some b" and e: "ce_id event = text_member b ''eventId''" "ce_enabled event"
    "\<exists>p. ls_visibility ls' = Inr p \<and> catalogEventAllowed p (access_subject (rq_access rq)) (ce_id event) (JStr (ce_category event))"
    "read_form (body_values b) (ce_fields event) empty_form = Inr parts" "payload = launchPayload event parts (body_targets b)"
    and cl: "cleared pf ls' (access_subject (rq_access rq)) (take 160 i) event (body_values b) (body_targets b) (w\<lparr>lw_db := d\<rparr>)"
    unfolding authorised_def acc by blast
  from assms(3) have "take 160 i \<noteq> []" by (cases i) auto
  with cl assms(4) body [OF b] obtain q spec' d' where
    m: "readExecutingApproval (pf_decrypt pf) (pf_clock pf 0) (ls_env ls) (take 160 i) (access_subject (rq_access rq)) d = (Inr (Some (q, spec')), d')"
      "approvalExecutionMatches (pf_sha pf) spec' event (JObj vs) (sp_targets spec)"
    by (auto simp: cleared_def)
  note e = e [unfolded body [OF b]]
  from executing_is_claimed [OF d r(1) m(1) r(6)] m(2) e sent claim' r show ?thesis by blast
qed

section \<open>A launch that is approved\<close>

definition sample_launch_event :: catalog_event where
  "sample_launch_event = catalogItem (JObj [(''id'', JStr ''e''), (''dangerous'', JBool True)])"

definition sample_launch_spec :: approval_spec where
  "sample_launch_spec = fst (approvalSpec sample_launch_event (JObj []) [] [])"

definition sample_launch_stored :: string where
  "sample_launch_stored = ''v1.'' @ btoa (replicate 12 0) @ ''.'' @ btoa (sample_encrypt (replicate 32 170) (replicate 12 0) (json_print (spec_js sample_launch_spec)))"

definition sample_row_with :: "string \<Rightarrow> int \<Rightarrow> approval_row" where
  "sample_row_with status now = \<lparr>aw_id = ''u'', aw_event_id = ''e'', aw_title = [], aw_category = [], aw_schema_version = [],
     aw_requester_identity = ''bob@example.org'', aw_requester_role = ''operator'', aw_requester_groups_json = ''[]'',
     aw_status = status, aw_required_approvals = 1, aw_approver_roles_json = ''[]'', aw_approver_groups_json = ''[]'',
     aw_requester_cannot_approve = 1, aw_rule_id = [], aw_summary_json = ''{}'', aw_encrypted_spec = sample_launch_stored,
     aw_request_fingerprint = [], aw_expires_at = 10, aw_created_at = 0, aw_updated_at = now, aw_approved_at = None,
     aw_executed_at = None, aw_run_id = None, aw_parent_run_id = None, aw_error = None\<rparr>"

definition sample_decision :: decision_row where
  "sample_decision = \<lparr>dr_approval_id = ''u'', dr_identity = ''ann@example.org'', dr_role = ''admin'', dr_decision = ''approve'',
     dr_comment = None, dr_decided_at = 0\<rparr>"

definition sample_tables :: "string \<Rightarrow> approval_tables" where
  "sample_tables status = \<lparr>at_rows = [sample_row_with status 0], at_decisions = [sample_decision]\<rparr>"

lemma sample_launch_item:
  "ce_id sample_launch_event = ''e''" "ce_enabled sample_launch_event" "ce_fields sample_launch_event = []"
  "ce_targets sample_launch_event = []" "ce_dangerous sample_launch_event" "ce_category sample_launch_event = ''general''"
  "ce_schemaVersion sample_launch_event \<noteq> None" "ce_schemaVersion sample_launch_event \<noteq> Some []" "ce_kind sample_launch_event = EventKind"
  by (simp_all add: sample_launch_event_def catalogItem_def Let_def catalog_fields_def jget_def is_array_def
     normalizeXyFields.simps targetValues_def is_object_def schemaFingerprint_def first_text_def js_lower_def)

lemma sample_schema_length: "length (event_schema sample_launch_event) = 11"
  by (simp add: event_schema_def sample_launch_event_def catalogItem_def Let_def schemaFingerprint_def)

lemma sample_launch_decrypt: "decryptSpec sample_decrypt sample_launch_stored (Some sample_key_text) = Inr sample_launch_spec"
proof (rule stored_spec_back [OF sample_cipher])
  show "encryptSpec sample_encrypt (replicate 12 0) sample_launch_spec (Some sample_key_text) = Inr sample_launch_stored"
    by (simp add: encryptSpec_def seal_def sample_key_bytes sample_launch_stored_def)
  show "bounded_spec sample_launch_spec"
    unfolding sample_launch_spec_def
    by (rule approvalSpec_bounded) (simp_all add: sample_launch_item sample_schema_length)
qed (simp_all add: bytes_ok_def list_all_iff)


lemma sample_row_simps [simp]:
  "aw_id (sample_row_with st n) = ''u''" "aw_status (sample_row_with st n) = st" "aw_expires_at (sample_row_with st n) = 10"
  "aw_requester_identity (sample_row_with st n) = ''bob@example.org''" "aw_encrypted_spec (sample_row_with st n) = sample_launch_stored"
  "aw_required_approvals (sample_row_with st n) = 1" "aw_requester_cannot_approve (sample_row_with st n) = 1"
  "aw_approver_groups_json (sample_row_with st n) = ''[]''"
  "(sample_row_with st n)\<lparr>aw_status := st', aw_updated_at := n'\<rparr> = sample_row_with st' n'"
  by (simp_all add: sample_row_with_def)

definition sample_run_env :: approval_env where
  "sample_run_env = \<lparr>ae_hasDB = True, ae_key = Some sample_key_text\<rparr>"

lemma sample_no_groups: "parseJsonArray ''[]'' = []"
  by code_simp

lemma sample_eligible: "isEligibleApprover (sample_row_with st n) sample_requester = Inr False"
  by (simp add: isEligibleApprover_def sample_requester_def)

lemma sample_read: "st \<in> {''approved'', ''executing''} \<Longrightarrow>
    approval_readRow sample_run_env ''u'' 0 (quiet \<lparr>at_rows = [sample_row_with st 0], at_decisions = ds\<rparr>)
      = (Inr (Some (sample_row_with st 0)), quiet \<lparr>at_rows = [sample_row_with st 0], at_decisions = ds\<rparr>)"
  by (auto simp: approval_readRow_def sample_run_env_def expireApprovals_def eff_simps d1_call_def d1_read_def expire_rows_def update_rows_def
     find_row_def d1_quiet)

lemma sample_claims:
  "\<exists>a. claimApprovalExecution sample_decrypt (\<lambda>_. 0) sample_run_env ''u'' sample_requester (quiet (sample_tables ''approved''))
      = (Inr (a, sample_launch_spec), quiet (sample_tables ''executing'')) \<and> pa_approvals a = 1"
proof -
  have id: "js_lower (su_identity sample_requester) = js_lower ''bob@example.org''" by (simp add: sample_requester_def)
  have st: "statusValue ''approved'' = Approved" by (simp add: statusValue_def)
  have one: "\<not> changes_below_one (d1_result 1)" by (simp add: changes_one)
  show ?thesis
    using sample_read [of "''approved''" "[sample_decision]"] sample_read [of "''executing''" "[sample_decision]"] sample_launch_decrypt
    unfolding sample_run_env_def
    by (simp add: claimApprovalExecution_def d1_quiet sample_tables_def eff_simps requireRow_def sample_run_env_def id st one
       d1_call_def update_rows_def publicFromRow_def decisionsFor_def d1_read_def sample_eligible public_view_def Let_def
       sample_decision_def public_decision_of_def)
qed


lemma sample_executing:
  "readExecutingApproval sample_decrypt 0 sample_run_env ''u'' sample_requester (quiet (sample_tables ''executing''))
     = (Inr (Some (sample_row_with ''executing'' 0, sample_launch_spec)), quiet (sample_tables ''executing''))"
proof -
  have "js_lower (su_identity sample_requester) = js_lower ''bob@example.org''" by (simp add: sample_requester_def)
  moreover have "statusValue ''executing'' = Executing" by (simp add: statusValue_def)
  ultimately show ?thesis
    using sample_read [of "''executing''" "[sample_decision]"] sample_launch_decrypt
    by (simp add: readExecutingApproval_def sample_tables_def eff_simps) (simp add: sample_run_env_def eff_simps)
qed

definition sample_settings :: launch_settings where
  "sample_settings = \<lparr>ls_demoMode = False, ls_demo = [], ls_url = Some ''u'', ls_key = Some ''k'',
     ls_reply = EventsAnswer 200 (JArr [JObj [(''id'', JStr ''e''), (''dangerous'', JBool True)]]),
     ls_visibility = Inr default_catalog_policy, ls_presentation = Inr empty_presentation, ls_policy = Inr default_approval_policy,
     ls_send = \<lambda>_. Inr (200, JObj [], JNull), ls_env = sample_run_env\<rparr>"

definition sample_world :: launch_world where
  "sample_world = \<lparr>lw_db = quiet (sample_tables ''approved''), lw_sent = [], lw_runs = [], lw_replays = [], lw_deliveries = []\<rparr>"

lemma sample_loads:
  "loadCatalog (ls_demoMode sample_settings) (ls_demo sample_settings) (ls_url sample_settings) (ls_key sample_settings) (ls_reply sample_settings)
     = Inr (LiveCatalog, [sample_launch_event])"
proof -
  have "ce_id (catalogItem (JObj [(''id'', JStr ''e''), (''dangerous'', JBool True)])) \<noteq> []"
    using sample_launch_item(1) by (simp add: sample_launch_event_def)
  then show ?thesis
    by (simp add: loadCatalog_def sample_settings_def response_ok_def xyopsPayloadSucceeded_def plain_object_def extractEventRows_def
      is_object_def sample_launch_event_def)
qed

lemma sample_spec_parts:
  "sp_eventId sample_launch_spec = ''e''" "sp_targets sample_launch_spec = []" "sp_secretFields sample_launch_spec = []"
  "sp_values sample_launch_spec = []" "sp_parentRunId sample_launch_spec = []" "sp_schemaVersion sample_launch_spec = event_schema sample_launch_event"
  by (simp_all add: sample_launch_spec_def approvalSpec_def spec_parts_of_def sample_launch_item)

lemma sample_matches: "approvalExecutionMatches id sample_launch_spec sample_launch_event (JObj []) []"
  by (simp add: approvalExecutionMatches_def sample_spec_parts) (simp add: sample_launch_spec_def)

lemma sample_present: "presented sample_platform sample_settings rq sample_launch_event w = (Inr sample_launch_event, w)"
  by (simp add: presented_def sample_settings_def eff_simps applyProcessPresentation_def present_event_def empty_presentation_def)

lemma sample_allowed: "catalogEventAllowed default_catalog_policy s e c"
  by (simp add: catalogEventAllowed_def default_catalog_policy_def)

lemma sample_required: "approvalRequirement default_approval_policy sample_requester (event_of sample_launch_event) = Some defaultDangerousRequirement"
  by (simp add: approvalRequirement_def default_approval_policy_def base_requirement_def event_of_def sample_launch_item)

lemma sample_choose: "choose_process sample_settings None sample_requester ''e'' w = (Inr (Inr (LiveCatalog, sample_launch_event)), w)"
  unfolding choose_process_def sample_loads
  by (simp add: eff_simps sample_launch_item) (simp add: sample_settings_def eff_simps sample_allowed)


lemma sent_after: "m w = (Inr x, w') \<Longrightarrow> lw_sent (snd (bindM m f w)) = lw_sent (snd (f x w'))"
  by (simp add: bindM_run)

lemma sent_then:
  assumes "\<And>x. silent (f x)"
  shows "lw_sent (snd (bindM m f w)) = lw_sent (snd (m w))"
proof -
  obtain r w' where m: "m w = (r, w')" by (cases "m w")
  show ?thesis using m silent_run [OF assms] by (cases r) (simp_all add: bindM_run)
qed

lemma sent_catch:
  assumes "\<And>e. silent (h e)"
  shows "lw_sent (snd (catchM m h w)) = lw_sent (snd (m w))"
proof -
  obtain r w' where m: "m w = (r, w')" by (cases "m w")
  show ?thesis using m silent_run [OF assms] by (cases r) (simp_all add: catchM_run)
qed

lemma sent_bindR: "m w = (Inr (Inr x), w') \<Longrightarrow> lw_sent (snd (bindR m f w)) = lw_sent (snd (f x w'))"
  by (simp add: bindR_def bindM_run)

lemma sent_bindR_case: "lw_sent (snd (bindR m f w)) = (case m w of (Inr (Inr x), w') \<Rightarrow> lw_sent (snd (f x w')) | (_, w') \<Rightarrow> lw_sent w')"
  by (simp add: bindR_def bindM_run returnM_run split: prod.splits sum.splits)

lemmas sent_return = sent_then [OF silent_pure(1)]

definition sample_claimed_world :: launch_world where
  "sample_claimed_world = sample_world\<lparr>lw_db := quiet (sample_tables ''executing'')\<rparr>"

definition sample_body :: js where
  "sample_body = JObj [(''eventId'', JStr ''e''), (''values'', JObj []), (''targets'', strings_js []), (''replayOf'', JStr [])]"

lemma sample_launch_request:
  "launch_request sample_run_request sample_launch_spec [] = sample_run_request\<lparr>rq_locale := JUndef, rq_body := Some sample_body\<rparr>"
  by (simp add: launch_request_def sample_spec_parts sample_body_def)

lemma sample_body_parts: "text_member sample_body ''eventId'' = ''e''" "text_member sample_body ''replayOf'' = []"
  "body_values sample_body = JObj []" "body_targets sample_body = []"
  by (simp_all add: sample_body_def text_member_def body_values_def body_targets_def strings_js_def)

lemma sample_gate:
  "approval_gate sample_platform sample_settings sample_requester ''u'' sample_launch_event shown (JObj []) [] parent sample_claimed_world
     = (Inr (Inr ()), sample_claimed_world)"
  using sample_executing sample_matches
  by (simp add: approval_gate_def sample_platform_def eff_simps in_db_def sample_claimed_world_def sample_settings_def)

lemma sample_live_launch: "lw_sent (snd (launch sample_platform sample_settings actor LiveCatalog sample_launch_event shown values targets parts parent w))
    = lw_sent w @ [launchPayload sample_launch_event parts targets]"
proof -
  have k: "key_given (ls_url sample_settings)" "key_given (ls_key sample_settings)" by (simp_all add: key_given_def sample_settings_def)
  have "lw_sent (snd (bindM (send_launch sample_settings p) (after_launch sample_platform sample_settings actor sample_launch_event shown values targets parent) w))
      = lw_sent w @ [p]" for p
    by (subst sent_then [OF silent_after]) (simp add: send_launch_def eff_simps sample_settings_def)
  then show ?thesis by (simp add: launch_def k)
qed

lemma sample_chosen:
  assumes "rq_access rq = rq_access sample_run_request"
  shows "lw_sent (snd (run_chosen sample_platform sample_settings rq ''u'' sample_body (LiveCatalog, sample_launch_event) sample_claimed_world))
    = [launchPayload sample_launch_event empty_form []]"
proof -
  have "take 160 ''u'' = ''u''" "lw_sent sample_claimed_world = []" by (simp_all add: sample_claimed_world_def sample_world_def)
  then show ?thesis
    unfolding run_chosen_def Let_def prod.case sample_body_parts assms sample_subject
    by (simp add: sent_after [OF sample_present] sample_launch_item sent_bindR_case sample_gate sent_return sample_live_launch)
qed

lemma sample_run_launches:
  "lw_sent (snd (handleCatalogRunRequest sample_platform error_text sample_settings (launch_request sample_run_request sample_launch_spec []) None ''u'' sample_claimed_world))
     = [launchPayload sample_launch_event empty_form []]"
proof -
  let ?rq = "sample_run_request\<lparr>rq_locale := JUndef, rq_body := Some sample_body\<rparr>"
  have "lw_sent (snd (run_checked sample_platform sample_settings ?rq None ''u'' sample_body sample_claimed_world))
      = [launchPayload sample_launch_event empty_form []]"
    unfolding run_checked_def
    using sample_chosen [of ?rq] by (simp add: sent_return sample_subject sample_body_parts sent_bindR [OF sample_choose])
  moreover have "XyopsRun \<in> set (px_permissions (rq_access ?rq))" by (simp add: sample_run_request_def)
  moreover have "sample_body \<noteq> JNull" by (simp add: sample_body_def)
  ultimately show ?thesis unfolding sample_launch_request
    by (simp add: handleCatalogRunRequest_def bindM_run requireM_run sent_catch [OF silent_failed])
qed


lemma sample_launch_claimed:
  assumes "pa_approvals a = 1"
  shows "lw_sent (snd (launch_claimed sample_platform error_text sample_settings sample_settings sample_run_request ''u'' a sample_launch_spec [] sample_claimed_world))
    = [launchPayload sample_launch_event empty_form []]"
proof -
  have v: "ls_visibility sample_settings = Inr default_catalog_policy" "ls_policy sample_settings = Inr default_approval_policy"
    by (simp_all add: sample_settings_def)
  have "event_schema sample_launch_event \<noteq> []" using sample_schema_length by auto
  moreover have "ar_requiredApprovals defaultDangerousRequirement = 1" by (simp add: defaultDangerousRequirement_def)
  ultimately show ?thesis
    unfolding launch_claimed_def Let_def sample_loads
    by (simp add: bindM_run [of "liftM r" for r] liftM_run sample_launch_item sample_spec_parts sample_subject sample_allowed sample_required v assms
      sent_then [OF silent_finish_launch] sample_run_launches)
qed

lemma sample_action_launches:
  "lw_sent (snd (handleApprovalAction sample_platform error_text sample_settings sample_settings sample_run_request ''u'' ActExecute sample_world))
     = [launchPayload sample_launch_event empty_form []]"
proof -
  from sample_claims obtain a where c: "claimApprovalExecution sample_decrypt (\<lambda>_. 0) sample_run_env ''u'' sample_requester (quiet (sample_tables ''approved''))
      = (Inr (a, sample_launch_spec), quiet (sample_tables ''executing''))" "pa_approvals a = 1" by blast
  have "in_db (claimApprovalExecution (pf_decrypt sample_platform) (pf_clock sample_platform) (ls_env sample_settings) ''u'' sample_requester) sample_world
      = (Inr (a, sample_launch_spec), sample_claimed_world)"
    using c(1) by (simp add: in_db_def sample_platform_def sample_settings_def sample_world_def sample_claimed_world_def)
  then have "lw_sent (snd (execute_action sample_platform error_text sample_settings sample_settings sample_run_request ''u'' (JObj []) sample_world))
      = [launchPayload sample_launch_event empty_form []]"
    using sample_launch_claimed [OF c(2)]
    by (simp add: execute_action_def sample_subject sent_after [of _ sample_world] requireM_run bindM_run sample_spec_parts jkeys_def)
  moreover have "XyopsRun \<in> set (px_permissions (rq_access sample_run_request))" "rq_body sample_run_request = None"
    by (simp_all add: sample_run_request_def)
  ultimately show ?thesis
    by (simp add: handleApprovalAction_def action_permission_def sent_catch [OF silent_pure(1)])
qed

lemma no_unapproved_launch_witness:
  "\<exists>r d. lw_sent (snd (handleApprovalAction sample_platform (\<lambda>_. []) sample_settings sample_settings sample_run_request ''u'' ActExecute sample_world))
       = [launchPayload sample_launch_event empty_form []]
     \<and> find_row ''u'' d = Some r \<and> aw_required_approvals r \<le> int (card (approvers ''u'' d))"
proof -
  let ?run = "handleApprovalAction sample_platform (\<lambda>_. []) sample_settings sample_settings sample_run_request ''u'' ActExecute sample_world"
  have "js_lower ''bob@example.org'' \<noteq> ''ann@example.org''" by code_simp
  then have inv: "approval_inv (db_tables (lw_db sample_world))"
    by (auto simp: sample_world_def sample_tables_def approval_inv_def count_approvals_def sample_decision_def own_decision_def)
  have follows: "env_follows approval_step (lw_db sample_world)" by (simp add: sample_world_def)
  have "lw_sent (snd ?run) \<noteq> lw_sent sample_world" unfolding sample_action_launches by (simp add: sample_world_def)
  from no_unapproved_launch [OF inv follows _ refl prod.collapse [symmetric, of ?run] this] show ?thesis
    unfolding sample_action_launches by fastforce
qed

lemma launch_authorised_witness:
  "\<exists>payload. authorised sample_platform sample_settings (launch_request sample_run_request sample_launch_spec []) ''u'' sample_claimed_world payload
     \<and> payload = launchPayload sample_launch_event empty_form []"
proof -
  let ?run = "handleCatalogRunRequest sample_platform (\<lambda>_. []) sample_settings (launch_request sample_run_request sample_launch_spec []) None ''u'' sample_claimed_world"
  have "lw_sent (snd ?run) \<noteq> lw_sent sample_claimed_world"
    unfolding sample_run_launches by (simp add: sample_claimed_world_def sample_world_def)
  from launch_authorised [OF prod.collapse [symmetric, of ?run] this] show ?thesis
    unfolding sample_run_launches by (auto simp: sample_claimed_world_def sample_world_def)
qed

end
