(* ===== verification/LocalAuth.thy ===== *)
theory LocalAuth
  imports LoginRateLimit JsNumber JsSort Permissions Base64
begin

text \<open>
  The accounts and sessions of the portal, \<open>src/auth/local-auth.ts\<close>: the two tables and every
  operation on them. An account's password is kept as the value PBKDF2 derives with a random salt, a
  session's token as its digest. One world holds two databases, that of the accounts and that of the rate
  limiter: no statement touches both, so what other requests do to the one between two calls on the
  other is what they do before its next call. The derivation, the digest, the random bytes, the ids, the clock
  and the decoder of a cookie are arguments; the derivation fails on values it does not accept, the decoder
  on malformed text. Columns hold values of their declared types.
\<close>

section \<open>Tables\<close>

record user_row =
  uw_id :: string
  uw_username :: string
  uw_display_name :: string
  uw_password_hash :: string
  uw_password_salt :: string
  uw_password_iterations :: int
  uw_role :: string
  uw_disabled :: int
  uw_failed_attempts :: int
  uw_locked_until :: "int option"
  uw_created_at :: int
  uw_updated_at :: int
  uw_last_login_at :: "int option"

record session_row =
  sw_id :: string
  sw_user_id :: string
  sw_token_hash :: string
  sw_created_at :: int
  sw_last_seen_at :: int
  sw_expires_at :: jsnum
  sw_user_agent :: string

record auth_tables =
  au_users :: "user_row list"
  au_sessions :: "session_row list"

record auth_world =
  gw_auth :: "auth_tables database"
  gw_rates :: "rate_tables database"

datatype auth_error =
    AuthStorage
  | RateFault rate_error
  | InvalidUsername
  | InvalidPassword
  | UserExists
  | UserNotFound
  | LastAdmin
  | BadCredentials
  | MalformedCookie
  | DerivationFailed
  | SessionNotFound
  | MalformedBody

type_synonym 'a auth_eff = "(auth_world, auth_error, 'a) eff"

record local_auth_env =
  la_rate :: rate_env
  la_bootstrapUsername :: "string option"
  la_bootstrapPassword :: "string option"
  la_bootstrapName :: "string option"
  la_ttlHours :: "string option"

definition la_hasDB :: "local_auth_env \<Rightarrow> bool" where
  "la_hasDB env = re_hasDB (la_rate env)"

text \<open>What the platform answers to one request: a seed holds the values drawn for a new account.\<close>

record account_seed =
  as_id :: string
  as_salt :: "nat list"
  as_now :: int

record auth_platform =
  pl_derive :: "string \<Rightarrow> nat list \<Rightarrow> int \<Rightarrow> (nat list) option"
  pl_digest :: "string \<Rightarrow> nat list"
  pl_rate_sha :: "string \<Rightarrow> string"
  pl_decode :: "string \<Rightarrow> string option"
  pl_encode :: "string \<Rightarrow> string"
  pl_bootstrap :: account_seed
  pl_account :: account_seed
  pl_token :: "nat list"
  pl_session_id :: string
  pl_now :: int

section \<open>Calls\<close>

definition on_auth :: "(auth_tables database, auth_error, 'a) eff \<Rightarrow> 'a auth_eff" where
  "on_auth m = (\<lambda>w. case m (gw_auth w) of (r, d) \<Rightarrow> (r, w\<lparr>gw_auth := d\<rparr>))"

definition on_rates :: "'a rate_eff \<Rightarrow> 'a auth_eff" where
  "on_rates m = (\<lambda>w. case m (gw_rates w) of
      (Inl e, d) \<Rightarrow> (Inl (RateFault e), w\<lparr>gw_rates := d\<rparr>)
    | (Inr x, d) \<Rightarrow> (Inr x, w\<lparr>gw_rates := d\<rparr>))"

text \<open>\<open>env.DB!.prepare(..)\<close>: without a database the member access throws.\<close>

definition auth_call :: "local_auth_env \<Rightarrow> (auth_tables \<Rightarrow> 'a \<times> auth_tables) \<Rightarrow> 'a auth_eff" where
  "auth_call env f = bindM (requireM (la_hasDB env) AuthStorage) (\<lambda>_. on_auth (d1_call AuthStorage f))"

definition auth_read :: "local_auth_env \<Rightarrow> (auth_tables \<Rightarrow> 'a) \<Rightarrow> 'a auth_eff" where
  "auth_read env f = auth_call env (\<lambda>t. (f t, t))"

definition update_users :: "(user_row \<Rightarrow> bool) \<Rightarrow> (user_row \<Rightarrow> user_row) \<Rightarrow> auth_tables \<Rightarrow> unit \<times> auth_tables" where
  "update_users P f t = ((), t\<lparr>au_users := map (\<lambda>u. if P u then f u else u) (au_users t)\<rparr>)"

definition delete_users :: "(user_row \<Rightarrow> bool) \<Rightarrow> auth_tables \<Rightarrow> unit \<times> auth_tables" where
  "delete_users P t = ((), t\<lparr>au_users := filter (\<lambda>u. \<not> P u) (au_users t)\<rparr>)"

definition update_sessions :: "(session_row \<Rightarrow> bool) \<Rightarrow> (session_row \<Rightarrow> session_row) \<Rightarrow> auth_tables \<Rightarrow> unit \<times> auth_tables" where
  "update_sessions P f t = ((), t\<lparr>au_sessions := map (\<lambda>s. if P s then f s else s) (au_sessions t)\<rparr>)"

definition delete_sessions :: "(session_row \<Rightarrow> bool) \<Rightarrow> auth_tables \<Rightarrow> unit \<times> auth_tables" where
  "delete_sessions P t = ((), t\<lparr>au_sessions := filter (\<lambda>s. \<not> P s) (au_sessions t)\<rparr>)"

text \<open>An insertion reports whether the constraints of the table admit the row.\<close>

definition insert_user :: "user_row \<Rightarrow> auth_tables \<Rightarrow> bool \<times> auth_tables" where
  "insert_user u t =
     (if uw_id u \<in> uw_id ` set (au_users t) \<or> uw_username u \<in> uw_username ` set (au_users t) then (False, t)
      else (True, t\<lparr>au_users := au_users t @ [u]\<rparr>))"

definition insert_session :: "session_row \<Rightarrow> auth_tables \<Rightarrow> bool \<times> auth_tables" where
  "insert_session s t =
     (if sw_id s \<in> sw_id ` set (au_sessions t) \<or> sw_token_hash s \<in> sw_token_hash ` set (au_sessions t) then (False, t)
      else (True, t\<lparr>au_sessions := au_sessions t @ [s]\<rparr>))"

definition user_by_id :: "string \<Rightarrow> auth_tables \<Rightarrow> user_row option" where
  "user_by_id i t = find (\<lambda>u. uw_id u = i) (au_users t)"

definition user_by_name :: "string \<Rightarrow> auth_tables \<Rightarrow> user_row option" where
  "user_by_name n t = find (\<lambda>u. uw_username u = n) (au_users t)"

section \<open>Values\<close>

definition local_role :: "js \<Rightarrow> portal_role" where
  "local_role v = (if v = JStr ''admin'' then Admin else if v = JStr ''operator'' then Operator else Viewer)"

definition username_start :: "char \<Rightarrow> bool" where
  "username_start c \<longleftrightarrow> is_lower c \<or> is_digit c"

definition username_char :: "char \<Rightarrow> bool" where
  "username_char c \<longleftrightarrow> is_lower c \<or> is_digit c \<or> c \<in> set ''._-''"

definition valid_username :: "string \<Rightarrow> bool" where
  "valid_username s = (case s of [] \<Rightarrow> False
     | c # rest \<Rightarrow> username_start c \<and> 2 \<le> length rest \<and> length rest \<le> 63 \<and> list_all username_char rest)"

definition cleanUsername :: "js \<Rightarrow> auth_error + string" where
  "cleanUsername v =
     (let username = js_lower (js_trim (to_str (coalesce v (JStr []))))
      in if valid_username username then Inr username else Inl InvalidUsername)"

definition is_control :: "char \<Rightarrow> bool" where
  "is_control c \<longleftrightarrow> code c < 32 \<or> code c = 127"

definition cleanDisplayName :: "js \<Rightarrow> string \<Rightarrow> string" where
  "cleanDisplayName v fallback =
     (let name = take 160 (map (\<lambda>c. if is_control c then CHR '' '' else c) (js_trim (to_str (coalesce v (JStr [])))))
      in if name = [] then fallback else name)"

definition validatePassword :: "js \<Rightarrow> auth_error + string" where
  "validatePassword v =
     (let password = to_str (coalesce v (JStr []))
      in if length password < 12 \<or> 256 < length password then Inl InvalidPassword else Inr password)"

definition PASSWORD_ITERATIONS :: int where "PASSWORD_ITERATIONS = 210000"
definition SESSION_COOKIE :: string where "SESSION_COOKIE = ''portal_session''"
definition DUMMY_PASSWORD_SALT :: "nat list" where "DUMMY_PASSWORD_SALT = replicate 24 0"
definition DUMMY_PASSWORD_HASH :: string where "DUMMY_PASSWORD_HASH = replicate 43 (CHR ''A'') @ ''=''"

definition token_digest :: "auth_platform \<Rightarrow> string \<Rightarrow> string" where
  "token_digest pf v = base64Url (pl_digest pf v)"

definition derivePassword :: "auth_platform \<Rightarrow> string \<Rightarrow> nat list \<Rightarrow> int \<Rightarrow> auth_error + string" where
  "derivePassword pf password salt iterations = (case pl_derive pf password salt iterations of
      None \<Rightarrow> Inl DerivationFailed | Some bits \<Rightarrow> Inr (btoa bits))"

definition constantTimeEqual :: "string \<Rightarrow> string \<Rightarrow> bool" where
  "constantTimeEqual left right =
     (let a = utf8 left; b = utf8 right; n = max (length a) (length b)
      in collect_diff (of_nat (length a) XOR of_nat (length b)) (map (byte_at a) [0..<n]) (map (byte_at b) [0..<n]) = 0)"

text \<open>The value of one cookie in the header; \<open>part.trim().split("=")\<close> and the rest joined again.\<close>

fun cookie_in :: "auth_platform \<Rightarrow> string \<Rightarrow> string list \<Rightarrow> auth_error + string" where
  "cookie_in pf name [] = Inr []"
| "cookie_in pf name (part # parts) =
     (let pieces = js_split (CHR ''='') (js_trim part) in
      if hd pieces = name
      then (case pl_decode pf (js_join ''='' (tl pieces)) of None \<Rightarrow> Inl MalformedCookie | Some v \<Rightarrow> Inr v)
      else cookie_in pf name parts)"

definition cookieValue :: "auth_platform \<Rightarrow> string option \<Rightarrow> string \<Rightarrow> auth_error + string" where
  "cookieValue pf header name = cookie_in pf name (js_split (CHR '';'') (opt_text header []))"

text \<open>\<open>Math.max(1, Math.min(hours, 168)) * 60 * 60 * 1000\<close>\<close>

definition num_scaled :: "int \<Rightarrow> jsnum \<Rightarrow> jsnum" where
  "num_scaled k n = (case n of Num i \<Rightarrow> Num (k * i) | Frac m d \<Rightarrow> mk_frac (k * m) d | NaN \<Rightarrow> NaN)"

definition num_shifted :: "int \<Rightarrow> jsnum \<Rightarrow> jsnum" where
  "num_shifted k n = (case n of Num i \<Rightarrow> Num (k + i) | Frac m d \<Rightarrow> mk_frac (k * 10 ^ d + m) d | NaN \<Rightarrow> NaN)"

definition sessionTtlMs :: "local_auth_env \<Rightarrow> jsnum" where
  "sessionTtlMs env =
     (let given = (case la_ttlHours env of None \<Rightarrow> Num 12 | Some s \<Rightarrow> str_to_num s);
          hours = (if given = NaN then Num 12 else given);
          atMost = (if num_le hours (Num 168) then hours else Num 168)
      in num_scaled 3600000 (if num_le (Num 1) atMost then atMost else Num 1))"

definition localIdentity :: "string \<Rightarrow> string" where
  "localIdentity username = username @ ''@local.portal''"

section \<open>Accounts\<close>

record local_user =
  lu_id :: string
  lu_username :: string
  lu_identity :: string
  lu_displayName :: string
  lu_role :: portal_role
  lu_disabled :: bool
  lu_failedAttempts :: int
  lu_lockedUntil :: "int option"
  lu_createdAt :: int
  lu_updatedAt :: int
  lu_lastLoginAt :: "int option"
  lu_activeSessions :: nat

definition publicUser :: "user_row \<Rightarrow> nat \<Rightarrow> local_user" where
  "publicUser u sessions =
     \<lparr>lu_id = uw_id u, lu_username = uw_username u, lu_identity = localIdentity (uw_username u), lu_displayName = uw_display_name u,
       lu_role = local_role (JStr (uw_role u)), lu_disabled = (uw_disabled u = 1), lu_failedAttempts = uw_failed_attempts u,
       lu_lockedUntil = uw_locked_until u, lu_createdAt = uw_created_at u, lu_updatedAt = uw_updated_at u,
       lu_lastLoginAt = uw_last_login_at u, lu_activeSessions = sessions\<rparr>"

definition userCount :: "local_auth_env \<Rightarrow> nat auth_eff" where
  "userCount env = auth_read env (\<lambda>t. length (au_users t))"

definition hashPassword :: "auth_platform \<Rightarrow> account_seed \<Rightarrow> string \<Rightarrow> auth_error + (string \<times> string)" where
  "hashPassword pf seed password =
     bindE (derivePassword pf password (as_salt seed) PASSWORD_ITERATIONS) (\<lambda>hash. Inr (hash, btoa (as_salt seed)))"

record new_user =
  nu_username :: js
  nu_displayName :: js
  nu_password :: js
  nu_role :: js

definition createLocalUser ::
  "auth_platform \<Rightarrow> account_seed \<Rightarrow> local_auth_env \<Rightarrow> new_user \<Rightarrow> bool \<Rightarrow> local_user auth_eff" where
  "createLocalUser pf seed env input bootstrap =
     bindM (liftM (cleanUsername (nu_username input))) (\<lambda>username.
     bindM (liftM (validatePassword (nu_password input))) (\<lambda>password.
     bindM (liftM (hashPassword pf seed password)) (\<lambda>(hash, salt).
     let selectedRole = (if bootstrap then Admin else local_role (nu_role input));
         displayName = cleanDisplayName (nu_displayName input) username;
         row = \<lparr>uw_id = as_id seed, uw_username = username, uw_display_name = displayName, uw_password_hash = hash, uw_password_salt = salt,
           uw_password_iterations = PASSWORD_ITERATIONS, uw_role = role_name selectedRole, uw_disabled = 0, uw_failed_attempts = 0,
           uw_locked_until = None, uw_created_at = as_now seed, uw_updated_at = as_now seed, uw_last_login_at = None\<rparr>
     in bindM (auth_call env (insert_user row)) (\<lambda>admitted.
        bindM (requireM admitted UserExists) (\<lambda>_.
        returnM (publicUser row 0))))))"

definition given_text :: "string option \<Rightarrow> string" where
  "given_text v = opt_text v []"

definition bootstrapLocalAdmin :: "auth_platform \<Rightarrow> local_auth_env \<Rightarrow> (bool \<times> nat) auth_eff" where
  "bootstrapLocalAdmin pf env =
     bindM (userCount env) (\<lambda>count.
     if 0 < count then returnM (False, count)
     else (let username = js_trim (given_text (la_bootstrapUsername env)); password = given_text (la_bootstrapPassword env) in
       if username = [] \<or> password = [] then returnM (False, 0)
       else bindM (createLocalUser pf (pl_bootstrap pf) env
           \<lparr>nu_username = JStr username,
             nu_displayName = JStr (if given_text (la_bootstrapName env) = [] then ''Local administrator'' else given_text (la_bootstrapName env)),
             nu_password = JStr password, nu_role = JStr ''admin''\<rparr> True) (\<lambda>_. returnM (True, 1))))"

definition session_expired :: "int \<Rightarrow> session_row \<Rightarrow> bool" where
  "session_expired now s \<longleftrightarrow> num_le (sw_expires_at s) (Num now)"

text \<open>Texts in the order of their bytes, as a query orders them.\<close>

fun text_cmp :: "string \<Rightarrow> string \<Rightarrow> int" where
  "text_cmp [] [] = 0"
| "text_cmp [] (d # ds) = - 1"
| "text_cmp (c # cs) [] = 1"
| "text_cmp (c # cs) (d # ds) =
     (if (code c :: nat) < code d then - 1 else if (code d :: nat) < code c then 1 else text_cmp cs ds)"

text \<open>\<open>expires_at > ?\<close> of the query, which a column that holds a number decides.\<close>

definition list_users :: "int \<Rightarrow> auth_tables \<Rightarrow> local_user list" where
  "list_users now t =
     map (\<lambda>u. publicUser u (length (filter (\<lambda>s. sw_user_id s = uw_id u \<and> \<not> session_expired now s) (au_sessions t))))
       (js_sort (\<lambda>a b. text_cmp (uw_username a) (uw_username b)) (au_users t))"

definition listLocalUsers :: "auth_platform \<Rightarrow> local_auth_env \<Rightarrow> local_user list auth_eff" where
  "listLocalUsers pf env =
     bindM (bootstrapLocalAdmin pf env) (\<lambda>_.
     bindM (auth_read env (list_users (pl_now pf))) (\<lambda>users.
     returnM (filter (\<lambda>u. lu_id u \<noteq> [] \<and> lu_username u \<noteq> []) users)))"

definition active_admin :: "user_row \<Rightarrow> bool" where
  "active_admin u \<longleftrightarrow> uw_role u = ''admin'' \<and> uw_disabled u = 0"

definition activeAdminCount :: "local_auth_env \<Rightarrow> string \<Rightarrow> nat auth_eff" where
  "activeAdminCount env excludingId = auth_read env (\<lambda>t. length (filter (\<lambda>u. active_admin u \<and> uw_id u \<noteq> excludingId) (au_users t)))"

definition readUser :: "local_auth_env \<Rightarrow> string \<Rightarrow> local_user option auth_eff" where
  "readUser env i = auth_read env (\<lambda>t. map_option (\<lambda>u. publicUser u 0) (user_by_id i t))"

definition require_user :: "local_user option \<Rightarrow> local_user auth_eff" where
  "require_user found = (case found of None \<Rightarrow> throwM UserNotFound | Some u \<Rightarrow> returnM u)"

definition revokeLocalUserSessions :: "local_auth_env \<Rightarrow> string \<Rightarrow> unit auth_eff" where
  "revokeLocalUserSessions env userId =
     (if \<not> la_hasDB env then returnM () else auth_call env (delete_sessions (\<lambda>s. sw_user_id s = userId)))"

definition clearLoginRateLimitForUsername :: "auth_platform \<Rightarrow> local_auth_env \<Rightarrow> js \<Rightarrow> unit auth_eff" where
  "clearLoginRateLimitForUsername pf env username = on_rates (recordLoginSuccess (pl_rate_sha pf) (la_rate env) username)"

record user_change =
  uc_displayName :: js
  uc_role :: js
  uc_disabled :: js

text \<open>The check before an administrator is given up.\<close>

definition keep_an_admin :: "local_auth_env \<Rightarrow> string \<Rightarrow> bool \<Rightarrow> unit auth_eff" where
  "keep_an_admin env i gives_up =
     (if gives_up then bindM (activeAdminCount env i) (\<lambda>others. requireM (1 \<le> others) LastAdmin) else returnM ())"

definition write_user :: "string \<Rightarrow> portal_role \<Rightarrow> bool \<Rightarrow> int \<Rightarrow> user_row \<Rightarrow> user_row" where
  "write_user name r disabled now u = u\<lparr>uw_display_name := name, uw_role := role_name r, uw_disabled := (if disabled then 1 else 0),
     uw_failed_attempts := (if disabled then uw_failed_attempts u else 0), uw_locked_until := (if disabled then uw_locked_until u else None),
     uw_updated_at := now\<rparr>"

definition updateLocalUser :: "auth_platform \<Rightarrow> local_auth_env \<Rightarrow> string \<Rightarrow> user_change \<Rightarrow> local_user auth_eff" where
  "updateLocalUser pf env i input =
     bindM (readUser env i) (\<lambda>found.
     bindM (require_user found) (\<lambda>current.
     let nextRole = (if uc_role input = JUndef then lu_role current else local_role (uc_role input));
         nextDisabled = (if uc_disabled input = JUndef then lu_disabled current else uc_disabled input = JBool True);
         displayName = (if uc_displayName input = JUndef then lu_displayName current else cleanDisplayName (uc_displayName input) (lu_username current))
     in bindM (keep_an_admin env i (lu_role current = Admin \<and> (nextRole \<noteq> Admin \<or> nextDisabled))) (\<lambda>_.
        bindM (auth_call env (update_users (\<lambda>u. uw_id u = i) (write_user displayName nextRole nextDisabled (pl_now pf)))) (\<lambda>_.
        bindM (if nextDisabled then revokeLocalUserSessions env i else returnM ()) (\<lambda>_.
        returnM (current\<lparr>lu_displayName := displayName, lu_role := nextRole, lu_disabled := nextDisabled, lu_updatedAt := pl_now pf,
          lu_activeSessions := (if nextDisabled then 0 else lu_activeSessions current)\<rparr>))))))"

definition write_password :: "string \<times> string \<Rightarrow> int \<Rightarrow> user_row \<Rightarrow> user_row" where
  "write_password credentials now u = u\<lparr>uw_password_hash := fst credentials, uw_password_salt := snd credentials,
     uw_password_iterations := PASSWORD_ITERATIONS, uw_failed_attempts := 0, uw_locked_until := None, uw_updated_at := now\<rparr>"

definition resetLocalUserPassword :: "auth_platform \<Rightarrow> local_auth_env \<Rightarrow> string \<Rightarrow> js \<Rightarrow> unit auth_eff" where
  "resetLocalUserPassword pf env i passwordValue =
     bindM (readUser env i) (\<lambda>found.
     bindM (require_user found) (\<lambda>current.
     bindM (liftM (bindE (validatePassword passwordValue) (hashPassword pf (pl_account pf)))) (\<lambda>credentials.
     bindM (auth_call env (update_users (\<lambda>u. uw_id u = i) (write_password credentials (pl_now pf)))) (\<lambda>_.
     bindM (revokeLocalUserSessions env i) (\<lambda>_.
     clearLoginRateLimitForUsername pf env (JStr (lu_username current)))))))"

definition deleteLocalUser :: "auth_platform \<Rightarrow> local_auth_env \<Rightarrow> string \<Rightarrow> unit auth_eff" where
  "deleteLocalUser pf env i =
     bindM (readUser env i) (\<lambda>found.
     bindM (require_user found) (\<lambda>current.
     bindM (keep_an_admin env i (lu_role current = Admin)) (\<lambda>_.
     bindM (revokeLocalUserSessions env i) (\<lambda>_.
     bindM (catchM (clearLoginRateLimitForUsername pf env (JStr (lu_username current))) (\<lambda>_. returnM ())) (\<lambda>_.
     auth_call env (delete_users (\<lambda>u. uw_id u = i)))))))"

section \<open>Sessions\<close>

record local_session =
  ls_id :: string
  ls_userId :: string
  ls_username :: string
  ls_identity :: string
  ls_displayName :: string
  ls_role :: portal_role
  ls_expiresAt :: jsnum

definition session_value :: "session_row \<Rightarrow> user_row \<Rightarrow> local_session" where
  "session_value s u = \<lparr>ls_id = sw_id s, ls_userId = sw_user_id s, ls_username = uw_username u, ls_identity = localIdentity (uw_username u),
     ls_displayName = uw_display_name u, ls_role = local_role (JStr (uw_role u)), ls_expiresAt = sw_expires_at s\<rparr>"

text \<open>What of a given name and password decides: the row of the name, when it is one, and whether the
  derived value equals the stored one. A dummy derivation runs where there is no row.\<close>

definition credentials_match :: "auth_platform \<Rightarrow> string \<Rightarrow> user_row option \<Rightarrow> auth_error + bool" where
  "credentials_match pf password row = (case row of
      None \<Rightarrow> bindE (derivePassword pf password DUMMY_PASSWORD_SALT PASSWORD_ITERATIONS) (\<lambda>actual. Inr (constantTimeEqual actual DUMMY_PASSWORD_HASH))
    | Some u \<Rightarrow> (case atob (uw_password_salt u) of
          None \<Rightarrow> Inl DerivationFailed
        | Some salt \<Rightarrow> bindE (derivePassword pf password salt (uw_password_iterations u)) (\<lambda>actual. Inr (constantTimeEqual actual (uw_password_hash u)))))"

definition new_session :: "auth_platform \<Rightarrow> local_auth_env \<Rightarrow> string \<Rightarrow> string \<Rightarrow> session_row" where
  "new_session pf env userId userAgent =
     \<lparr>sw_id = pl_session_id pf, sw_user_id = userId, sw_token_hash = token_digest pf (base64Url (pl_token pf)), sw_created_at = pl_now pf,
       sw_last_seen_at = pl_now pf, sw_expires_at = num_shifted (pl_now pf) (sessionTtlMs env), sw_user_agent = take 240 userAgent\<rparr>"

definition floor_num :: "jsnum \<Rightarrow> int" where
  "floor_num n = (case num_parts n of (m, k) \<Rightarrow> m div 10 ^ k)"

text \<open>The part of a login after the credentials: expired sessions go, the new one is written.\<close>

definition open_session :: "auth_platform \<Rightarrow> local_auth_env \<Rightarrow> user_row \<Rightarrow> string \<Rightarrow> (local_session \<times> string \<times> int) auth_eff" where
  "open_session pf env u userAgent =
     (let s = new_session pf env (uw_id u) userAgent in
      bindM (auth_call env (delete_sessions (session_expired (pl_now pf)))) (\<lambda>_.
      bindM (auth_call env (insert_session s)) (\<lambda>admitted.
      bindM (requireM admitted AuthStorage) (\<lambda>_.
      bindM (auth_call env (update_users (\<lambda>v. uw_id v = uw_id u) (\<lambda>v. v\<lparr>uw_failed_attempts := 0, uw_locked_until := None,
        uw_last_login_at := Some (pl_now pf), uw_updated_at := pl_now pf\<rparr>))) (\<lambda>_.
      returnM (session_value s u, base64Url (pl_token pf), floor_num (sessionTtlMs env) div 1000))))))"

definition authenticateLocalUser ::
  "auth_platform \<Rightarrow> local_auth_env \<Rightarrow> js \<Rightarrow> js \<Rightarrow> string \<Rightarrow> (local_session \<times> string \<times> int) auth_eff" where
  "authenticateLocalUser pf env usernameValue passwordValue userAgent =
     bindM (bootstrapLocalAdmin pf env) (\<lambda>_.
     bindM (case cleanUsername usernameValue of Inl _ \<Rightarrow> returnM None | Inr username \<Rightarrow> auth_read env (user_by_name username)) (\<lambda>row.
     bindM (liftM (credentials_match pf (to_str (coalesce passwordValue (JStr []))) row)) (\<lambda>credentialsMatch.
     case row of
       None \<Rightarrow> throwM BadCredentials
     | Some u \<Rightarrow>
         bindM (requireM (uw_disabled u \<noteq> 1 \<and> credentialsMatch) BadCredentials) (\<lambda>_. open_session pf env u userAgent))))"

text \<open>The row of the query that joins sessions and accounts.\<close>

definition session_of_token :: "string \<Rightarrow> auth_tables \<Rightarrow> (session_row \<times> user_row) option" where
  "session_of_token hash t = (case find (\<lambda>s. sw_token_hash s = hash) (au_sessions t) of
      None \<Rightarrow> None
    | Some s \<Rightarrow> map_option (Pair s) (user_by_id (sw_user_id s) t))"

definition resolveLocalSession :: "auth_platform \<Rightarrow> local_auth_env \<Rightarrow> string option \<Rightarrow> local_session option auth_eff" where
  "resolveLocalSession pf env cookie =
     (if \<not> la_hasDB env then returnM None
      else
        bindM (bootstrapLocalAdmin pf env) (\<lambda>_.
        bindM (liftM (cookieValue pf cookie SESSION_COOKIE)) (\<lambda>token.
        if token = [] then returnM None
        else
          bindM (auth_read env (session_of_token (token_digest pf token))) (\<lambda>row.
          case row of
            None \<Rightarrow> returnM None
          | Some (s, u) \<Rightarrow>
              if uw_disabled u = 1 \<or> session_expired (pl_now pf) s
              then bindM (if sw_id s \<noteq> [] then auth_call env (delete_sessions (\<lambda>r. sw_id r = sw_id s)) else returnM ()) (\<lambda>_. returnM None)
              else
                bindM (auth_call env (update_sessions (\<lambda>r. sw_id r = sw_id s) (\<lambda>r. r\<lparr>sw_last_seen_at := pl_now pf\<rparr>))) (\<lambda>_.
                returnM (Some (session_value s u)))))))"

definition revokeLocalSession :: "auth_platform \<Rightarrow> local_auth_env \<Rightarrow> string option \<Rightarrow> unit auth_eff" where
  "revokeLocalSession pf env cookie =
     (if \<not> la_hasDB env then returnM ()
      else
        bindM (liftM (cookieValue pf cookie SESSION_COOKIE)) (\<lambda>token.
        if token \<noteq> [] then auth_call env (delete_sessions (\<lambda>s. sw_token_hash s = token_digest pf token)) else returnM ()))"

definition localAuthState :: "auth_platform \<Rightarrow> local_auth_env \<Rightarrow> (bool \<times> nat \<times> bool) auth_eff" where
  "localAuthState pf env =
     (if \<not> la_hasDB env then returnM (False, 0, True)
      else bindM (bootstrapLocalAdmin pf env) (\<lambda>(_, count). returnM (True, count, count = 0)))"

text \<open>The cookie a login sets and a logout clears.\<close>

definition localSessionCookie :: "auth_platform \<Rightarrow> bool \<Rightarrow> string \<Rightarrow> int \<Rightarrow> string" where
  "localSessionCookie pf https token maxAge =
     SESSION_COOKIE @ ''='' @ pl_encode pf token @ ''; Path=/; HttpOnly; SameSite=Strict; Max-Age='' @ int_to_str maxAge @ (if https then ''; Secure'' else [])"

definition clearLocalSessionCookie :: "bool \<Rightarrow> string" where
  "clearLocalSessionCookie https = SESSION_COOKIE @ ''=; Path=/; HttpOnly; SameSite=Strict; Max-Age=0'' @ (if https then ''; Secure'' else [])"

end
