(* ===== verification/AuthApi.thy ===== *)
theory AuthApi
  imports LocalAuth MaintenanceGate
begin

text \<open>
  The authentication endpoint (\<open>worker/local-secure-entry.ts\<close>) and the administration of sessions
  (\<open>worker/session-management-entry.ts\<close> over \<open>src/auth/local-session-management.ts\<close>). An error that
  a handler does not catch is the error of its effect. Audit events, which the code lets fail silently, are left
  out, with the request context that is built for them.
\<close>

section \<open>Requests and answers\<close>

record auth_request =
  aq_http :: http_request
  aq_https :: bool
  aq_header :: "string \<Rightarrow> string option"

definition aq_cookie :: "auth_request \<Rightarrow> string option" where
  "aq_cookie rq = aq_header rq ''cookie''"

definition aq_path :: "auth_request \<Rightarrow> string" where
  "aq_path rq = rq_path (aq_http rq)"

definition aq_method :: "auth_request \<Rightarrow> string" where
  "aq_method rq = rq_method (aq_http rq)"

text \<open>\<open>request.json()\<close>\<close>

definition aq_json :: "auth_request \<Rightarrow> js option" where
  "aq_json rq = json_parse (rq_body (aq_http rq))"

record public_session =
  ps_id :: string
  ps_username :: string
  ps_identity :: string
  ps_displayName :: string
  ps_role :: portal_role
  ps_expiresAt :: jsnum

definition publicSession :: "local_session \<Rightarrow> public_session" where
  "publicSession s = \<lparr>ps_id = ls_userId s, ps_username = ls_username s, ps_identity = ls_identity s, ps_displayName = ls_displayName s,
     ps_role = ls_role s, ps_expiresAt = ls_expiresAt s\<rparr>"

datatype auth_answer =
    NotLocal
  | NoDatabase
  | NoBootstrap auth_error
  | SignedOut "bool \<times> nat \<times> bool"
  | SignedIn public_session
  | LoginUnavailable
  | LoginLimited int
  | LoginRefused
  | LoggedIn public_session string
  | OriginBlocked
  | LoggedOut string
  | LoginRequired
  | AdminRequired
  | Users "local_user list"
  | UserCreated local_user
  | UserUpdated local_user
  | Done
  | OwnAccount
  | Rejected auth_error
  | NoSuchRoute
  | NoSuchMethod

type_synonym auth_response = "int \<times> auth_answer"

definition mode_is_local :: "string option \<Rightarrow> bool" where
  "mode_is_local mode \<longleftrightarrow> js_lower (js_trim (opt_text mode [])) = ''local''"

section \<open>Login\<close>

text \<open>The members of a body; reading one of \<open>null\<close> throws.\<close>

definition body_member :: "js \<Rightarrow> string \<Rightarrow> auth_error + js" where
  "body_member body k = (if body = JNull then Inl MalformedBody else Inr (jget body k))"

definition rateLimitedResponse :: "rate_decision \<Rightarrow> auth_response" where
  "rateLimitedResponse d = (429, LoginLimited (max 1 (rd_retry d)))"

definition login_body :: "auth_request \<Rightarrow> js" where
  "login_body rq = (case aq_json rq of None \<Rightarrow> JObj [] | Some v \<Rightarrow> v)"

definition login_gate :: "auth_platform \<Rightarrow> local_auth_env \<Rightarrow> auth_request \<Rightarrow> (auth_response + js) auth_eff" where
  "login_gate pf env rq = catchM
     (bindM (liftM (body_member (login_body rq) ''username'')) (\<lambda>username.
      bindM (on_rates (checkLoginRateLimit (pl_rate_sha pf) (la_rate env) (aq_header rq) username (pl_now pf))) (\<lambda>before.
      returnM (if rd_limited before then Inl (rateLimitedResponse before) else Inr username))))
     (\<lambda>_. returnM (Inl (503, LoginUnavailable)))"

definition login_attempt :: "auth_platform \<Rightarrow> local_auth_env \<Rightarrow> auth_request \<Rightarrow> js \<Rightarrow> auth_response auth_eff" where
  "login_attempt pf env rq username =
     bindM (authenticateLocalUser pf env username (jget (login_body rq) ''password'') (opt_text (aq_header rq ''user-agent'') [])) (\<lambda>(session, token, maxAge).
     catchM
       (bindM (on_rates (recordLoginSuccess (pl_rate_sha pf) (la_rate env) username)) (\<lambda>_.
        returnM (200, LoggedIn (publicSession session) (localSessionCookie pf (aq_https rq) token maxAge))))
       (\<lambda>_. returnM (503, LoginUnavailable)))"

definition login_failed :: "auth_platform \<Rightarrow> nat \<Rightarrow> nat \<Rightarrow> local_auth_env \<Rightarrow> auth_request \<Rightarrow> js \<Rightarrow> auth_response auth_eff" where
  "login_failed pf draw1 draw2 env rq username = catchM
     (bindM (on_rates (recordLoginFailure (pl_rate_sha pf) draw1 draw2 (la_rate env) (aq_header rq) username (pl_now pf))) (\<lambda>after.
      returnM (if rd_limited after then rateLimitedResponse after else (401, LoginRefused))))
     (\<lambda>_. returnM (503, LoginUnavailable))"

definition handle_login :: "auth_platform \<Rightarrow> nat \<Rightarrow> nat \<Rightarrow> local_auth_env \<Rightarrow> auth_request \<Rightarrow> auth_response auth_eff" where
  "handle_login pf draw1 draw2 env rq =
     bindM (login_gate pf env rq) (\<lambda>gate.
     case gate of
       Inl answer \<Rightarrow> returnM answer
     | Inr username \<Rightarrow> catchM (login_attempt pf env rq username) (\<lambda>_. login_failed pf draw1 draw2 env rq username))"

section \<open>Administration of accounts\<close>

definition requireAdmin :: "auth_platform \<Rightarrow> local_auth_env \<Rightarrow> auth_request \<Rightarrow> (auth_response + local_session) auth_eff" where
  "requireAdmin pf env rq =
     bindM (resolveLocalSession pf env (aq_cookie rq)) (\<lambda>session.
     returnM (case session of
         None \<Rightarrow> Inl (401, LoginRequired)
       | Some s \<Rightarrow> if ls_role s \<noteq> Admin then Inl (403, AdminRequired) else Inr s))"

definition USERS_PATH :: string where "USERS_PATH = ''/api/auth/users''"

text \<open>\<open>/^\/api\/auth\/users\/([A-Za-z0-9-]{1,80})(?:\/(password|sessions))?$/\<close>\<close>

definition id_char :: "char \<Rightarrow> bool" where
  "id_char c \<longleftrightarrow> is_upper c \<or> is_lower c \<or> is_digit c \<or> c = CHR ''-''"

definition user_path :: "string \<Rightarrow> (string \<times> string) option" where
  "user_path path =
     (if \<not> starts_with (USERS_PATH @ ''/'') path then None
      else (let rest = drop (length USERS_PATH + 1) path; i = takeWhile id_char rest; action = dropWhile id_char rest in
        if i = [] \<or> 80 < length i then None
        else if action = [] then Some (i, [])
        else if action = ''/password'' then Some (i, ''password'')
        else if action = ''/sessions'' then Some (i, ''sessions'')
        else None))"

text \<open>\<open>try { ... } catch\<close> around the reading of the body and an operation on an account.\<close>

definition rejecting :: "auth_response auth_eff \<Rightarrow> auth_response auth_eff" where
  "rejecting m = catchM m (\<lambda>e. returnM (400, Rejected e))"

definition with_body :: "auth_request \<Rightarrow> (js \<Rightarrow> auth_response auth_eff) \<Rightarrow> auth_response auth_eff" where
  "with_body rq f = rejecting (case aq_json rq of
      None \<Rightarrow> throwM MalformedBody
    | Some body \<Rightarrow> if body = JNull then throwM MalformedBody else f body)"

definition handle_users :: "auth_platform \<Rightarrow> local_auth_env \<Rightarrow> auth_request \<Rightarrow> auth_response auth_eff" where
  "handle_users pf env rq =
     (if aq_method rq = ''GET'' then bindM (listLocalUsers pf env) (\<lambda>users. returnM (200, Users users))
      else if aq_method rq = ''POST'' then
        with_body rq (\<lambda>body.
          bindM (createLocalUser pf (pl_account pf) env
            \<lparr>nu_username = jget body ''username'', nu_displayName = jget body ''displayName'', nu_password = jget body ''password'',
              nu_role = jget body ''role''\<rparr> False) (\<lambda>user. returnM (201, UserCreated user)))
      else returnM (405, NoSuchMethod))"

definition handle_user :: "auth_platform \<Rightarrow> local_auth_env \<Rightarrow> auth_request \<Rightarrow> local_session \<Rightarrow> string \<times> string \<Rightarrow> auth_response auth_eff" where
  "handle_user pf env rq session account =
     (let (userId, action) = account; method = aq_method rq in
      if action = ''password'' \<and> method = ''POST'' then
        with_body rq (\<lambda>body. bindM (resetLocalUserPassword pf env userId (jget body ''password'')) (\<lambda>_. returnM (200, Done)))
      else if action = ''sessions'' \<and> method = ''DELETE'' then
        bindM (revokeLocalUserSessions env userId) (\<lambda>_. returnM (200, Done))
      else if action = [] \<and> method = ''PUT'' then
        with_body rq (\<lambda>body.
          if ls_userId session = userId
             \<and> (jget body ''disabled'' = JBool True \<or> jget body ''role'' \<noteq> JUndef \<and> jget body ''role'' \<noteq> JStr ''admin'')
          then returnM (400, OwnAccount)
          else bindM (updateLocalUser pf env userId
              \<lparr>uc_displayName = jget body ''displayName'', uc_role = jget body ''role'', uc_disabled = jget body ''disabled''\<rparr>)
            (\<lambda>user. returnM (200, UserUpdated user)))
      else if action = [] \<and> method = ''DELETE'' then
        (if ls_userId session = userId then returnM (400, OwnAccount)
         else rejecting (bindM (deleteLocalUser pf env userId) (\<lambda>_. returnM (200, Done))))
      else returnM (405, NoSuchMethod))"

definition handle_administration :: "auth_platform \<Rightarrow> local_auth_env \<Rightarrow> auth_request \<Rightarrow> auth_response auth_eff" where
  "handle_administration pf env rq =
     bindM (requireAdmin pf env rq) (\<lambda>current.
     case current of
       Inl answer \<Rightarrow> returnM answer
     | Inr session \<Rightarrow>
         (if aq_path rq = USERS_PATH then handle_users pf env rq
          else (case user_path (aq_path rq) of
              None \<Rightarrow> returnM (404, NoSuchRoute)
            | Some account \<Rightarrow> handle_user pf env rq session account)))"

text \<open>The session and the state of the authentication are read one after the other; the code starts both at once.\<close>

definition handle_session :: "auth_platform \<Rightarrow> local_auth_env \<Rightarrow> auth_request \<Rightarrow> auth_response auth_eff" where
  "handle_session pf env rq =
     bindM (resolveLocalSession pf env (aq_cookie rq)) (\<lambda>session.
     bindM (localAuthState pf env) (\<lambda>state.
     returnM (case session of None \<Rightarrow> (401, SignedOut state) | Some s \<Rightarrow> (200, SignedIn (publicSession s)))))"

definition serve_auth ::
  "(string \<Rightarrow> string option) \<Rightarrow> auth_platform \<Rightarrow> nat \<Rightarrow> nat \<Rightarrow> local_auth_env \<Rightarrow> auth_request \<Rightarrow> auth_response auth_eff" where
  "serve_auth url_origin pf draw1 draw2 env rq =
     (if aq_method rq = ''GET'' \<and> aq_path rq = ''/api/auth/session'' then handle_session pf env rq
      else if aq_method rq = ''POST'' \<and> aq_path rq = ''/api/auth/login'' then handle_login pf draw1 draw2 env rq
      else if \<not> sameOriginAdminMutation url_origin (aq_http rq) then returnM (403, OriginBlocked)
      else if aq_method rq = ''POST'' \<and> aq_path rq = ''/api/auth/logout'' then
        bindM (revokeLocalSession pf env (aq_cookie rq)) (\<lambda>_. returnM (200, LoggedOut (clearLocalSessionCookie (aq_https rq))))
      else handle_administration pf env rq)"

definition try_bootstrap :: "auth_platform \<Rightarrow> local_auth_env \<Rightarrow> auth_error option auth_eff" where
  "try_bootstrap pf env = catchM (bindM (bootstrapLocalAdmin pf env) (\<lambda>_. returnM None)) (\<lambda>e. returnM (Some e))"

definition handleAuthApi ::
  "(string \<Rightarrow> string option) \<Rightarrow> auth_platform \<Rightarrow> nat \<Rightarrow> nat \<Rightarrow> string option \<Rightarrow> local_auth_env \<Rightarrow> auth_request \<Rightarrow> auth_response auth_eff" where
  "handleAuthApi url_origin pf draw1 draw2 mode env rq =
     (if \<not> mode_is_local mode then returnM (if aq_method rq = ''GET'' then 200 else 409, NotLocal)
      else if \<not> la_hasDB env then returnM (503, NoDatabase)
      else
        bindM (try_bootstrap pf env) (\<lambda>failed.
        case failed of
          Some e \<Rightarrow> returnM (503, NoBootstrap e)
        | None \<Rightarrow> serve_auth url_origin pf draw1 draw2 env rq))"

section \<open>Administration of sessions\<close>

record session_record =
  sr_id :: string
  sr_userId :: string
  sr_username :: string
  sr_displayName :: string
  sr_role :: portal_role
  sr_createdAt :: int
  sr_lastSeenAt :: int
  sr_expiresAt :: jsnum
  sr_userAgent :: string

definition session_record_of :: "session_row \<times> user_row \<Rightarrow> session_record" where
  "session_record_of row = (let (s, u) = row in
     \<lparr>sr_id = sw_id s, sr_userId = sw_user_id s, sr_username = uw_username u, sr_displayName = uw_display_name u,
       sr_role = local_role (JStr (uw_role u)), sr_createdAt = sw_created_at s, sr_lastSeenAt = sw_last_seen_at s,
       sr_expiresAt = sw_expires_at s, sr_userAgent = take 500 (sw_user_agent s)\<rparr>)"

definition joined :: "auth_tables \<Rightarrow> session_row \<Rightarrow> (session_row \<times> user_row) option" where
  "joined t s = map_option (Pair s) (user_by_id (sw_user_id s) t)"

definition open_sessions :: "int \<Rightarrow> nat \<Rightarrow> auth_tables \<Rightarrow> session_record list" where
  "open_sessions now limit t =
     take limit (map session_record_of (js_sort (\<lambda>a b. sw_last_seen_at (fst b) - sw_last_seen_at (fst a))
       (List.map_filter (joined t) (filter (\<lambda>s. \<not> session_expired now s) (au_sessions t)))))"

definition safe_limit :: "jsnum \<Rightarrow> nat" where
  "safe_limit limit = nat (max 1 (min (case trunc_num limit of Num n \<Rightarrow> n | _ \<Rightarrow> 200) 500))"

definition listLocalPortalSessions :: "auth_platform \<Rightarrow> local_auth_env \<Rightarrow> jsnum \<Rightarrow> session_record list auth_eff" where
  "listLocalPortalSessions pf env limit =
     bindM (auth_call env (delete_sessions (session_expired (pl_now pf)))) (\<lambda>_.
     bindM (auth_read env (open_sessions (pl_now pf) (safe_limit limit))) (\<lambda>sessions.
     returnM (filter (\<lambda>s. sr_id s \<noteq> [] \<and> sr_userId s \<noteq> [] \<and> sr_username s \<noteq> []) sessions)))"

definition readLocalPortalSession :: "local_auth_env \<Rightarrow> string \<Rightarrow> session_record option auth_eff" where
  "readLocalPortalSession env i =
     auth_read env (\<lambda>t. Option.bind (find (\<lambda>s. sw_id s = i) (au_sessions t)) (\<lambda>s. map_option session_record_of (joined t s)))"

definition revokeLocalPortalSession :: "local_auth_env \<Rightarrow> string \<Rightarrow> session_record auth_eff" where
  "revokeLocalPortalSession env i =
     bindM (readLocalPortalSession env i) (\<lambda>found.
     case found of
       None \<Rightarrow> throwM SessionNotFound
     | Some s \<Rightarrow> bindM (auth_call env (delete_sessions (\<lambda>r. sw_id r = i))) (\<lambda>_. returnM s))"

datatype sessions_answer =
    SessionsRefused auth_answer
  | Sessions "(session_record \<times> bool) list" string
  | OwnSession
  | SessionRevoked session_record
  | SessionRejected auth_error

definition session_admin ::
  "auth_platform \<Rightarrow> string option \<Rightarrow> local_auth_env \<Rightarrow> auth_request \<Rightarrow> (auth_response + local_session) auth_eff" where
  "session_admin pf mode env rq =
     (if \<not> mode_is_local mode then returnM (Inl (409, NotLocal))
      else if \<not> la_hasDB env then returnM (Inl (503, NoDatabase))
      else requireAdmin pf env rq)"

definition SESSIONS_PATH :: string where "SESSIONS_PATH = ''/api/auth/sessions''"

definition session_path :: "string \<Rightarrow> string option" where
  "session_path path =
     (if \<not> starts_with (SESSIONS_PATH @ ''/'') path then None
      else (let i = drop (length SESSIONS_PATH + 1) path in
        if i \<noteq> [] \<and> length i \<le> 100 \<and> list_all id_char i then Some i else None))"

text \<open>\<open>limit\<close> is the parameter of the query as it is read, absent as \<open>null\<close>.\<close>

definition handleSessionsApi ::
  "(string \<Rightarrow> string option) \<Rightarrow> auth_platform \<Rightarrow> string option \<Rightarrow> local_auth_env \<Rightarrow> auth_request \<Rightarrow> js \<Rightarrow> (int \<times> sessions_answer) auth_eff" where
  "handleSessionsApi url_origin pf mode env rq limit =
     bindM (session_admin pf mode env rq) (\<lambda>authorization.
     case authorization of
       Inl (status, answer) \<Rightarrow> returnM (status, SessionsRefused answer)
     | Inr current \<Rightarrow>
         if aq_method rq = ''GET'' \<and> aq_path rq = SESSIONS_PATH then
           bindM (listLocalPortalSessions pf env (let n = to_num (coalesce limit (JInt 200)) in if n = NaN then Num 200 else n)) (\<lambda>sessions.
           returnM (200, Sessions (map (\<lambda>s. (s, sr_id s = ls_id current)) sessions) (ls_id current)))
         else (case session_path (aq_path rq) of
             None \<Rightarrow> returnM (404, SessionsRefused NoSuchRoute)
           | Some i \<Rightarrow>
               if aq_method rq \<noteq> ''DELETE'' then returnM (405, SessionsRefused NoSuchMethod)
               else if \<not> sameOriginAdminMutation url_origin (aq_http rq) then returnM (403, SessionsRefused OriginBlocked)
               else if i = ls_id current then returnM (400, OwnSession)
               else catchM
                 (bindM (revokeLocalPortalSession env i) (\<lambda>revoked. returnM (200, SessionRevoked revoked)))
                 (\<lambda>e. returnM (404, SessionRejected e))))"

end
