(* ===== verification/LocalRouting.thy ===== *)
theory LocalRouting
  imports AuthApi
begin

text \<open>
  With which identity a request goes on: \<open>worker/middleware/local-security-routing.ts\<close>, the gate of
  \<open>worker/middleware/service-admin-authentication.ts\<close> and the paths and tokens of
  \<open>src/auth/admin-session-authorization.ts\<close>. The handlers behind are named, not modelled: a routing is an
  answer, or the list of handlers that are offered the request, each with the headers and the environment it
  is given; the first that answers ends the list, and the last one always answers.
\<close>

section \<open>Paths and tokens\<close>

definition ADMIN_INTEGRATION_PATHS :: "string list" where
  "ADMIN_INTEGRATION_PATHS = [
     ''/api/admin/storage/status'',
     ''/api/admin/storage/integrity/check'',
     ''/api/admin/storage/migrations/preflight'',
     ''/api/admin/backups/export/encrypted'',
     ''/api/admin/backups/import/encrypted/preview'',
     ''/api/admin/backups/import/encrypted/test-restore'',
     ''/api/admin/backups/import/encrypted/prepare-commit'',
     ''/api/admin/backups/import/encrypted/commit'',
     ''/api/admin/backups/import/encrypted/cancel'',
     ''/api/admin/backups/import/preview'',
     ''/api/admin/maintenance/status'',
     ''/api/admin/maintenance/prepare'',
     ''/api/admin/maintenance/enter'',
     ''/api/admin/maintenance/verification/start'',
     ''/api/admin/maintenance/verification/smoke'',
     ''/api/admin/maintenance/exit'',
     ''/api/admin/maintenance/complete'',
     ''/api/admin/maintenance/cancel'',
     ''/api/integrations/settings'',
     ''/api/integrations/settings/test'',
     ''/api/integrations/settings/effective'',
     ''/api/integrations/settings/drafts'',
     ''/api/integrations/settings/revisions'',
     ''/api/integrations/catalog/presentation'',
     ''/api/integrations/catalog/policies'',
     ''/api/integrations/approval/policies'',
     ''/api/integrations/routes'',
     ''/api/integrations/catalog/sync'']"

definition isAdminIntegrationPath :: "string \<Rightarrow> bool" where
  "isAdminIntegrationPath path \<longleftrightarrow> path \<in> set ADMIN_INTEGRATION_PATHS
     \<or> starts_with ''/api/integrations/settings/drafts/'' path \<or> starts_with ''/api/integrations/settings/revisions/'' path"

definition serviceAdminTokenAuthorized :: "(string \<Rightarrow> i32 list) \<Rightarrow> string option \<Rightarrow> string option \<Rightarrow> bool" where
  "serviceAdminTokenAuthorized digest token expected = secretsMatch digest token expected"

definition localAdminSessionToken :: "local_session \<Rightarrow> string" where
  "localAdminSessionToken s = ''local-session:'' @ ls_userId s @ '':'' @ num_to_str (ls_expiresAt s)"

section \<open>Environments\<close>

text \<open>The members of the environment the identity of a request depends on.\<close>

record identity_env =
  ie_mode :: "string option"
  ie_identity :: "string option"
  ie_name :: "string option"
  ie_role :: "string option"
  ie_rbac :: "string option"
  ie_adminToken :: "string option"
  ie_authorized :: "string option"

definition delegatedEnv :: "identity_env \<Rightarrow> local_session \<Rightarrow> string option \<Rightarrow> identity_env" where
  "delegatedEnv env s internal = env\<lparr>
     ie_mode := Some ''static'', ie_identity := Some (ls_identity s), ie_name := Some (ls_displayName s), ie_role := Some (role_name (ls_role s)),
     ie_rbac := Some (json_print (JObj [(ls_identity s, JStr (role_name (ls_role s)))])),
     ie_adminToken := (case internal of None \<Rightarrow> ie_adminToken env | Some t \<Rightarrow> Some t)\<rparr>"

definition SERVICE_IDENTITY :: string where "SERVICE_IDENTITY = ''service-admin@portal.local''"

definition serviceAdminEnv :: "identity_env \<Rightarrow> identity_env" where
  "serviceAdminEnv env = env\<lparr>
     ie_mode := Some ''static'', ie_identity := Some SERVICE_IDENTITY, ie_name := Some ''Service administrator'', ie_role := Some ''admin'',
     ie_rbac := Some (json_print (JObj [(SERVICE_IDENTITY, JStr ''admin'')]))\<rparr>"

definition anonymousEnv :: "identity_env \<Rightarrow> identity_env" where
  "anonymousEnv env = env\<lparr>ie_mode := Some ''anonymous'', ie_role := Some ''viewer''\<rparr>"

section \<open>Routing\<close>

datatype local_handler = AuthHandler | PreflightHandler | IntegrityHandler | StatusHandler | NextHandler

record forwarded =
  fw_token :: "string option"
  fw_env :: identity_env

datatype routing =
    RouteAnswer int
  | RouteRedirect string
  | Offered "(local_handler \<times> forwarded) list"

definition all_handlers :: "forwarded \<Rightarrow> routing" where
  "all_handlers f = Offered [(PreflightHandler, f), (IntegrityHandler, f), (StatusHandler, f), (NextHandler, f)]"

definition route_not_local :: "(string \<Rightarrow> i32 list) \<Rightarrow> identity_env \<Rightarrow> auth_request \<Rightarrow> routing" where
  "route_not_local digest env rq =
     (let token = aq_header rq ''x-admin-token'';
          service = \<lparr>fw_token = token, fw_env = serviceAdminEnv env\<rparr>;
          given = \<lparr>fw_token = token, fw_env = env\<rparr>;
          rest = [(StatusHandler, given), (NextHandler, given)]
      in if aq_path rq = ''/api/admin/storage/migrations/preflight'' then
           (if \<not> serviceAdminTokenAuthorized digest token (ie_adminToken env) then RouteAnswer 401 else Offered ((PreflightHandler, service) # rest))
         else if aq_path rq = ''/api/admin/storage/integrity/check'' then
           (if \<not> serviceAdminTokenAuthorized digest token (ie_adminToken env) then RouteAnswer 401 else Offered ((IntegrityHandler, service) # rest))
         else Offered rest)"

definition route_anonymous :: "(string \<Rightarrow> i32 list) \<Rightarrow> (string \<Rightarrow> string) \<Rightarrow> identity_env \<Rightarrow> auth_request \<Rightarrow> string \<Rightarrow> routing" where
  "route_anonymous digest encode env rq search =
     (let token = aq_header rq ''x-admin-token'' in
      if isAdminIntegrationPath (aq_path rq) \<and> serviceAdminTokenAuthorized digest token (ie_adminToken env)
      then all_handlers \<lparr>fw_token = token, fw_env = serviceAdminEnv env\<rparr>
      else if starts_with ''/api/'' (aq_path rq) then RouteAnswer 401
      else if aq_method rq = ''GET'' \<and> (case aq_header rq ''accept'' of None \<Rightarrow> False | Some a \<Rightarrow> js_includes ''text/html'' a) \<and> aq_path rq \<noteq> ''/login''
      then RouteRedirect (''/login?next='' @ encode (aq_path rq @ search))
      else Offered [(NextHandler, \<lparr>fw_token = token, fw_env = anonymousEnv env\<rparr>)])"

definition route_session :: "(string \<Rightarrow> string option) \<Rightarrow> identity_env \<Rightarrow> auth_request \<Rightarrow> local_session \<Rightarrow> routing" where
  "route_session url_origin env rq s =
     (if aq_path rq = ''/login'' then RouteRedirect ''/''
      else if aq_path rq = ''/access'' \<and> ls_role s \<noteq> Admin then RouteAnswer 403
      else if ls_role s = Admin \<and> isAdminIntegrationPath (aq_path rq) then
        (if \<not> sameOriginAdminMutation url_origin (aq_http rq) then RouteAnswer 403
         else (let internal = localAdminSessionToken s in
           all_handlers \<lparr>fw_token = Some internal, fw_env = delegatedEnv env s (Some internal)\<rparr>))
      else all_handlers \<lparr>fw_token = None, fw_env = delegatedEnv env s None\<rparr>)"

definition handleLocalSecurityRouting ::
  "(string \<Rightarrow> i32 list) \<Rightarrow> (string \<Rightarrow> string) \<Rightarrow> (string \<Rightarrow> string option) \<Rightarrow> auth_platform \<Rightarrow> local_auth_env \<Rightarrow> identity_env \<Rightarrow> auth_request \<Rightarrow> string
     \<Rightarrow> routing auth_eff" where
  "handleLocalSecurityRouting digest encode url_origin pf auth_env env rq search =
     (let given = \<lparr>fw_token = aq_header rq ''x-admin-token'', fw_env = env\<rparr> in
      if \<not> mode_is_local (ie_mode env) then returnM (route_not_local digest env rq)
      else if starts_with ''/api/auth/'' (aq_path rq) then returnM (Offered [(AuthHandler, given)])
      else if aq_path rq = ''/api/integrations/health'' then returnM (Offered [(NextHandler, given)])
      else
        bindM (resolveLocalSession pf auth_env (aq_cookie rq)) (\<lambda>session.
        returnM (case session of
            None \<Rightarrow> route_anonymous digest encode env rq search
          | Some s \<Rightarrow> route_session url_origin env rq s)))"

text \<open>The outer gate for the service token.\<close>

definition handleServiceAdminAuthenticationGate :: "(string \<Rightarrow> i32 list) \<Rightarrow> identity_env \<Rightarrow> auth_request \<Rightarrow> forwarded" where
  "handleServiceAdminAuthenticationGate digest env rq =
     (let token = aq_header rq ''x-admin-token'' in
      if mode_is_local (ie_mode env) \<and> isAdminIntegrationPath (aq_path rq) \<and> serviceAdminTokenAuthorized digest token (ie_adminToken env)
      then \<lparr>fw_token = token, fw_env = (serviceAdminEnv env)\<lparr>ie_authorized := Some ''1''\<rparr>\<rparr>
      else \<lparr>fw_token = token, fw_env = env\<rparr>)"

end
