(* ===== verification/SessionRules.thy ===== *)
theory SessionRules
  imports AuthApi RelyGuarantee
begin

text \<open>
  Assertions for code over the two databases of the authentication: \<open>secures R P m Q\<close> is \<open>ensures\<close> of
  the database of accounts, whatever the code does to the rate limiter. The rules give the calls and the
  combinators; \<open>guarantee\<close> rules say what steps a call makes, without a word on its result.
\<close>

named_theorems secures_intros "rules for calls and combinators over the two databases"

definition auth_now :: "auth_world \<Rightarrow> auth_tables" where
  "auth_now w = db_tables (gw_auth w)"

definition secures ::
  "(auth_tables \<Rightarrow> auth_tables \<Rightarrow> bool) \<Rightarrow> (auth_tables \<Rightarrow> bool) \<Rightarrow> (auth_world \<Rightarrow> ('e + 'a) \<times> auth_world) \<Rightarrow> ('a \<Rightarrow> auth_tables \<Rightarrow> bool) \<Rightarrow> bool" where
  "secures R P m Q \<longleftrightarrow> (\<forall>w r w'. env_follows R (gw_auth w) \<longrightarrow> P (auth_now w) \<longrightarrow> m w = (r, w') \<longrightarrow>
     R\<^sup>*\<^sup>* (auth_now w) (auth_now w') \<and> env_follows R (gw_auth w') \<and> (\<forall>x. r = Inr x \<longrightarrow> Q x (auth_now w')))"

lemma securesD:
  assumes "secures R P m Q" "env_follows R (gw_auth w)" "P (auth_now w)" "m w = (r, w')"
  shows "R\<^sup>*\<^sup>* (auth_now w) (auth_now w')" "env_follows R (gw_auth w')" "r = Inr x \<Longrightarrow> Q x (auth_now w')"
  using assms by (auto simp: secures_def)

lemma secures_weaken: "secures R P' m Q' \<Longrightarrow> (\<And>t. P t \<Longrightarrow> P' t) \<Longrightarrow> (\<And>x t. Q' x t \<Longrightarrow> Q x t) \<Longrightarrow> secures R P m Q"
  unfolding secures_def by blast

lemma secures_post: "secures R P m Q' \<Longrightarrow> (\<And>x t. Q' x t \<Longrightarrow> Q x t) \<Longrightarrow> secures R P m Q"
  by (rule secures_weaken)

lemma secures_bindM [secures_intros]:
  assumes "secures R P m Q" "\<And>x. secures R (Q x) (f x) S"
  shows "secures R P (bindM m f) S"
  unfolding secures_def
proof (intro allI impI)
  fix w r w' assume e: "env_follows R (gw_auth w)" "P (auth_now w)" "bindM m f w = (r, w')"
  obtain r1 w1 where m: "m w = (r1, w1)" by (cases "m w")
  note s = securesD [OF assms(1) e(1,2) m]
  show "R\<^sup>*\<^sup>* (auth_now w) (auth_now w') \<and> env_follows R (gw_auth w') \<and> (\<forall>x. r = Inr x \<longrightarrow> S x (auth_now w'))"
  proof (cases r1)
    case (Inl x)
    with m s e(3) show ?thesis by (auto simp: bindM_run)
  next
    case (Inr x)
    with m e(3) have f: "f x w1 = (r, w')" by (simp add: bindM_run)
    note n = securesD [OF assms(2) s(2) s(3) [OF Inr] f]
    from n(1,2) s(1) have "R\<^sup>*\<^sup>* (auth_now w) (auth_now w')" by simp
    with n show ?thesis by blast
  qed
qed

lemma secures_catchM:
  assumes "secures R P m Q" "stable_under R P" "\<And>e. secures R P (h e) Q"
  shows "secures R P (catchM m h) Q"
  unfolding secures_def
proof (intro allI impI)
  fix w r w' assume e: "env_follows R (gw_auth w)" "P (auth_now w)" "catchM m h w = (r, w')"
  obtain r1 w1 where m: "m w = (r1, w1)" by (cases "m w")
  note s = securesD [OF assms(1) e(1,2) m]
  show "R\<^sup>*\<^sup>* (auth_now w) (auth_now w') \<and> env_follows R (gw_auth w') \<and> (\<forall>x. r = Inr x \<longrightarrow> Q x (auth_now w'))"
  proof (cases r1)
    case (Inr x)
    with m s e(3) show ?thesis by (auto simp: catchM_run)
  next
    case (Inl x)
    with m e(3) have h: "h x w1 = (r, w')" by (simp add: catchM_run)
    have "P (auth_now w1)" by (rule stable_underD [OF assms(2) s(1) e(2)])
    note n = securesD [OF assms(3) s(2) this h]
    from n(1,2) s(1) have "R\<^sup>*\<^sup>* (auth_now w) (auth_now w')" by simp
    with n show ?thesis by blast
  qed
qed

text \<open>Code that leaves the accounts alone.\<close>

lemma secures_pure:
  assumes "\<And>w. gw_auth (snd (m w)) = gw_auth w" "\<And>w x. P (auth_now w) \<Longrightarrow> fst (m w) = Inr x \<Longrightarrow> Q x (auth_now w)"
  shows "secures R P m Q"
  unfolding secures_def
proof (intro allI impI)
  fix w r w' assume e: "env_follows R (gw_auth w)" "P (auth_now w)" "m w = (r, w')"
  then have "gw_auth w' = gw_auth w" "fst (m w) = r" using assms(1) [of w] by simp_all
  moreover from this have "auth_now w' = auth_now w" by (simp add: auth_now_def)
  ultimately show "R\<^sup>*\<^sup>* (auth_now w) (auth_now w') \<and> env_follows R (gw_auth w') \<and> (\<forall>x. r = Inr x \<longrightarrow> Q x (auth_now w'))"
    using e assms(2) by auto
qed

lemma secures_returnM: "(\<And>t. P t \<Longrightarrow> Q x t) \<Longrightarrow> secures R P (returnM x) Q"
  by (rule secures_pure) (simp_all add: returnM_run)

lemma secures_return_same [secures_intros]: "secures R P (returnM x) (\<lambda>y t. y = x \<and> P t)"
  by (rule secures_returnM) simp

lemma secures_throwM [secures_intros]: "secures R P (throwM x) Q"
  by (rule secures_pure) (simp_all add: throwM_run)

lemma secures_liftM [secures_intros]: "secures R P (liftM r) (\<lambda>x t. r = Inr x \<and> P t)"
  by (rule secures_pure) (simp_all add: liftM_run)

lemma secures_requireM [secures_intros]: "secures R P (requireM b x) (\<lambda>_ t. b \<and> P t)"
  by (rule secures_pure) (auto simp: requireM_run split: if_splits)

lemma on_rates_auth [simp]: "gw_auth (snd (on_rates m w)) = gw_auth w"
  by (simp add: on_rates_def split: prod.splits sum.splits)

lemma secures_on_rates [secures_intros]: "secures R P (on_rates m) (\<lambda>_. P)"
  by (rule secures_pure) simp_all

lemma secures_on_auth:
  assumes "ensures R P m Q" shows "secures R P (on_auth m) Q"
  unfolding secures_def
proof (intro allI impI)
  fix w r w' assume e: "env_follows R (gw_auth w)" "P (auth_now w)" "on_auth m w = (r, w')"
  obtain x d where m: "m (gw_auth w) = (x, d)" by (cases "m (gw_auth w)")
  with e(3) have "r = x" "gw_auth w' = d" by (auto simp: on_auth_def)
  with ensuresD [OF assms e(1) e(2) [unfolded auth_now_def] m]
  show "R\<^sup>*\<^sup>* (auth_now w) (auth_now w') \<and> env_follows R (gw_auth w') \<and> (\<forall>x. r = Inr x \<longrightarrow> Q x (auth_now w'))"
    by (auto simp: auth_now_def)
qed

lemma secures_call:
  assumes "stable_under R P" "\<And>t. P t \<Longrightarrow> R\<^sup>*\<^sup>* t (snd (f t))" "\<And>t. P t \<Longrightarrow> Q (fst (f t)) (snd (f t))"
  shows "secures R P (auth_call env f) Q"
  unfolding auth_call_def
  by (rule secures_bindM [OF secures_requireM])
    (rule secures_on_auth, rule ensures_call, use assms in \<open>auto simp: stable_under_def\<close>)

lemma secures_read [secures_intros]: "stable_under R P \<Longrightarrow> secures R P (auth_read env g) (\<lambda>x t. x = g t \<and> P t)"
  unfolding auth_read_def by (rule secures_call) simp_all

lemma secures_conj: "secures R P m Q \<Longrightarrow> secures R P m Q' \<Longrightarrow> secures R P m (\<lambda>x t. Q x t \<and> Q' x t)"
  unfolding secures_def by blast

lemma secures_fact: "(b \<Longrightarrow> secures R P m Q) \<Longrightarrow> secures R (\<lambda>t. b \<and> P t) m Q"
  unfolding secures_def by blast

lemma secures_if: "(c \<Longrightarrow> secures R P a Q) \<Longrightarrow> (\<not> c \<Longrightarrow> secures R P b Q) \<Longrightarrow> secures R P (if c then a else b) Q"
  by simp

lemma secures_option: "(v = None \<Longrightarrow> secures R P a Q) \<Longrightarrow> (\<And>x. v = Some x \<Longrightarrow> secures R P (b x) Q)
    \<Longrightarrow> secures R P (case v of None \<Rightarrow> a | Some x \<Rightarrow> b x) Q"
  by (cases v) simp_all

text \<open>A read that returned tells what the tables held then, and how they came there.\<close>

lemma auth_read_Inr:
  assumes "env_follows R (gw_auth w)" "auth_read env g w = (Inr x, w')"
  shows "R\<^sup>*\<^sup>* (auth_now w) (auth_now w') \<and> env_follows R (gw_auth w') \<and> x = g (auth_now w')"
  using securesD [OF secures_read [of R "\<lambda>_. True"] assms(1) _ assms(2)] by (simp add: stable_under_def)

section \<open>Guarantees\<close>

text \<open>\<open>moves R m\<close>: code that makes steps of \<open>R\<close> only, if the others do.\<close>

definition moves :: "(auth_tables \<Rightarrow> auth_tables \<Rightarrow> bool) \<Rightarrow> (auth_world \<Rightarrow> ('e + 'a) \<times> auth_world) \<Rightarrow> bool" where
  "moves R m \<longleftrightarrow> secures R (\<lambda>_. True) m (\<lambda>_ _. True)"

named_theorems moves_intros "guarantees of calls and combinators"

lemma movesD: "moves R m \<Longrightarrow> env_follows R (gw_auth w) \<Longrightarrow> m w = (r, w') \<Longrightarrow>
    R\<^sup>*\<^sup>* (auth_now w) (auth_now w') \<and> env_follows R (gw_auth w')"
  unfolding moves_def secures_def by blast

lemma moves_bindM [moves_intros]: "moves R m \<Longrightarrow> (\<And>x. moves R (f x)) \<Longrightarrow> moves R (bindM m f)"
  unfolding moves_def by (rule secures_bindM)

lemma moves_catchM [moves_intros]: "moves R m \<Longrightarrow> (\<And>e. moves R (h e)) \<Longrightarrow> moves R (catchM m h)"
  unfolding moves_def by (rule secures_catchM) simp_all

lemma moves_pure: "(\<And>w. gw_auth (snd (m w)) = gw_auth w) \<Longrightarrow> moves R m"
  unfolding moves_def by (rule secures_pure)

lemma moves_returnM [moves_intros]: "moves R (returnM x)"
  by (rule moves_pure) (simp add: returnM_run)

lemma moves_throwM [moves_intros]: "moves R (throwM x)"
  by (rule moves_pure) (simp add: throwM_run)

lemma moves_liftM [moves_intros]: "moves R (liftM x)"
  by (rule moves_pure) (simp add: liftM_run)

lemma moves_requireM [moves_intros]: "moves R (requireM b x)"
  by (rule moves_pure) (simp add: requireM_run)

lemma moves_on_rates [moves_intros]: "moves R (on_rates m)"
  by (rule moves_pure) simp

lemma moves_call [moves_intros]: "(\<And>t. R\<^sup>*\<^sup>* t (snd (f t))) \<Longrightarrow> moves R (auth_call env f)"
  unfolding moves_def by (rule secures_call) simp_all

lemma moves_read [moves_intros]: "moves R (auth_read env f)"
  unfolding auth_read_def by (rule moves_call) simp

lemma moves_if [moves_intros]: "moves R a \<Longrightarrow> moves R b \<Longrightarrow> moves R (if c then a else b)"
  by simp

lemma moves_option [moves_intros]: "moves R a \<Longrightarrow> (\<And>x. moves R (b x)) \<Longrightarrow> moves R (case v of None \<Rightarrow> a | Some x \<Rightarrow> b x)"
  by (cases v) auto

lemma moves_sum [moves_intros]: "(\<And>x. moves R (a x)) \<Longrightarrow> (\<And>x. moves R (b x)) \<Longrightarrow> moves R (case v of Inl x \<Rightarrow> a x | Inr x \<Rightarrow> b x)"
  by (cases v) auto

lemma moves_prod [moves_intros]: "(\<And>x y. moves R (a x y)) \<Longrightarrow> moves R (case v of (x, y) \<Rightarrow> a x y)"
  by (cases v) auto

text \<open>What is stable under the steps survives code that makes such steps only.\<close>

lemma secures_frame: "moves R m \<Longrightarrow> stable_under R P \<Longrightarrow> secures R P m (\<lambda>_. P)"
  unfolding secures_def by (metis movesD stable_underD)

end
