(* ===== verification/SessionSafety.thy ===== *)
theory SessionSafety
  imports SessionRules
begin

text \<open>
  Sessions end when they should. \<open>auth_step h\<close> is what any request may do to the tables while no new
  session is given the token whose digest is \<open>h\<close>; the tokens are 32 random bytes, so that is the assumption
  that a token is not drawn again. Every operation follows it, and a token without a row stays without one.
\<close>

section \<open>What requests do to the sessions\<close>

inductive auth_step :: "string \<Rightarrow> auth_tables \<Rightarrow> auth_tables \<Rightarrow> bool" for h where
  accounts: "auth_step h t (t\<lparr>au_users := us\<rparr>)"
| opened: "sw_token_hash s \<noteq> h \<Longrightarrow> auth_step h t (t\<lparr>au_sessions := au_sessions t @ [s]\<rparr>)"
| closed: "auth_step h t (t\<lparr>au_sessions := filter P (au_sessions t)\<rparr>)"
| touched: "(\<And>s. sw_token_hash (f s) = sw_token_hash s \<and> sw_user_id (f s) = sw_user_id s)
    \<Longrightarrow> auth_step h t (t\<lparr>au_sessions := map f (au_sessions t)\<rparr>)"

inductive_cases auth_stepE: "auth_step h t t'"

definition dead :: "string \<Rightarrow> auth_tables \<Rightarrow> bool" where
  "dead h t \<longleftrightarrow> (\<forall>s \<in> set (au_sessions t). sw_token_hash s \<noteq> h)"

definition owned_by :: "string \<Rightarrow> string \<Rightarrow> auth_tables \<Rightarrow> bool" where
  "owned_by i h t \<longleftrightarrow> (\<forall>s \<in> set (au_sessions t). sw_token_hash s = h \<longrightarrow> sw_user_id s = i)"

lemma dead_step: "dead h t \<Longrightarrow> auth_step h t t' \<Longrightarrow> dead h t'"
  by (erule auth_stepE) (auto simp: dead_def)

lemma owned_step: "owned_by i h t \<Longrightarrow> auth_step h t t' \<Longrightarrow> owned_by i h t'"
  by (erule auth_stepE) (auto simp: owned_by_def)

interpretation token: table_protocol "auth_step h" "dead h" for h
  by unfold_locales (rule dead_step)

interpretation owner: table_protocol "auth_step h" "owned_by i h" for i h
  by unfold_locales (rule owned_step)

lemma stable_dead: "stable_under (auth_step h) (dead h)"
  by (simp add: stable_under_def dead_step)

lemma stable_owned: "stable_under (auth_step h) (owned_by i h)"
  by (simp add: stable_under_def owned_step)

section \<open>Every operation follows the protocol\<close>

lemma steps_users: "(auth_step h)\<^sup>*\<^sup>* t (snd (update_users P f t))" "(auth_step h)\<^sup>*\<^sup>* t (snd (delete_users P t))"
  "(auth_step h)\<^sup>*\<^sup>* t (snd (insert_user u t))"
  by (auto simp: update_users_def delete_users_def insert_user_def intro!: r_into_rtranclp auth_step.accounts)

lemma steps_delete_sessions: "(auth_step h)\<^sup>*\<^sup>* t (snd (delete_sessions P t))"
  by (auto simp: delete_sessions_def intro!: r_into_rtranclp auth_step.closed)

lemma steps_touch: "(auth_step h)\<^sup>*\<^sup>* t (snd (update_sessions P (\<lambda>r. r\<lparr>sw_last_seen_at := n\<rparr>) t))"
  by (auto simp: update_sessions_def intro!: r_into_rtranclp auth_step.touched)

lemma steps_insert_session: "sw_token_hash s \<noteq> h \<Longrightarrow> (auth_step h)\<^sup>*\<^sup>* t (snd (insert_session s t))"
  by (auto simp: insert_session_def intro!: r_into_rtranclp auth_step.opened)

lemmas steps_tables = steps_users steps_delete_sessions steps_touch

lemma moves_createLocalUser [moves_intros]: "moves (auth_step h) (createLocalUser pf seed env input b)"
  unfolding createLocalUser_def Let_def by (intro moves_intros steps_tables)

lemma moves_bootstrap [moves_intros]: "moves (auth_step h) (bootstrapLocalAdmin pf env)"
  unfolding bootstrapLocalAdmin_def userCount_def Let_def by (intro moves_intros)

lemma moves_require_user [moves_intros]: "moves R (require_user found)"
  unfolding require_user_def by (intro moves_intros)

lemma moves_keep_an_admin [moves_intros]: "moves R (keep_an_admin env i b)"
  unfolding keep_an_admin_def activeAdminCount_def by (intro moves_intros)

lemma moves_readUser [moves_intros]: "moves R (readUser env i)"
  unfolding readUser_def by (intro moves_intros)

lemma moves_revoke_user [moves_intros]: "moves (auth_step h) (revokeLocalUserSessions env i)"
  unfolding revokeLocalUserSessions_def by (intro moves_intros steps_tables)

lemma moves_clear [moves_intros]: "moves R (clearLoginRateLimitForUsername pf env v)"
  unfolding clearLoginRateLimitForUsername_def by (intro moves_intros)

lemma moves_update [moves_intros]: "moves (auth_step h) (updateLocalUser pf env i c)"
  unfolding updateLocalUser_def Let_def by (intro moves_intros steps_tables)

lemma moves_reset [moves_intros]: "moves (auth_step h) (resetLocalUserPassword pf env i v)"
  unfolding resetLocalUserPassword_def by (intro moves_intros steps_tables)

lemma moves_delete [moves_intros]: "moves (auth_step h) (deleteLocalUser pf env i)"
  unfolding deleteLocalUser_def by (intro moves_intros steps_tables)

lemma moves_list [moves_intros]: "moves (auth_step h) (listLocalUsers pf env)"
  unfolding listLocalUsers_def by (intro moves_intros)

lemma moves_resolve [moves_intros]: "moves (auth_step h) (resolveLocalSession pf env cookie)"
  unfolding resolveLocalSession_def Let_def by (intro moves_intros steps_tables)

lemma moves_logout [moves_intros]: "moves (auth_step h) (revokeLocalSession pf env cookie)"
  unfolding revokeLocalSession_def by (intro moves_intros steps_tables)

lemma moves_open_session [moves_intros]:
  "token_digest pf (base64Url (pl_token pf)) \<noteq> h \<Longrightarrow> moves (auth_step h) (open_session pf env u agent)"
  unfolding open_session_def Let_def
  by (intro moves_intros steps_tables steps_insert_session) (simp add: new_session_def)

lemma moves_authenticate [moves_intros]:
  "token_digest pf (base64Url (pl_token pf)) \<noteq> h \<Longrightarrow> moves (auth_step h) (authenticateLocalUser pf env u p agent)"
  unfolding authenticateLocalUser_def by (intro moves_intros)

lemma moves_auth_api:
  assumes "token_digest pf (base64Url (pl_token pf)) \<noteq> h"
  shows "moves (auth_step h) (handleAuthApi url_origin pf draw1 draw2 mode env rq)"
  unfolding handleAuthApi_def try_bootstrap_def serve_auth_def handle_session_def handle_login_def login_gate_def login_attempt_def login_failed_def handle_administration_def requireAdmin_def handle_users_def
    handle_user_def with_body_def rejecting_def localAuthState_def Let_def
  by (intro moves_intros assms)

lemma moves_sessions_api: "moves (auth_step h) (handleSessionsApi url_origin pf mode env rq limit)"
  unfolding handleSessionsApi_def session_admin_def requireAdmin_def listLocalPortalSessions_def revokeLocalPortalSession_def
    readLocalPortalSession_def
  by (intro moves_intros steps_tables)

section \<open>A revoked token is dead\<close>

text \<open>What a revoked token, or any other without a row, resolves to.\<close>

lemma dead_token_none: "dead h t \<Longrightarrow> session_of_token h t = None"
  by (auto simp: session_of_token_def dead_def split: option.splits dest: find_Some_iff')

lemma cookie_platform: "pl_decode a = pl_decode b \<Longrightarrow> cookieValue a c n = cookieValue b c n"
proof -
  assume d: "pl_decode a = pl_decode b"
  have "cookie_in a n parts = cookie_in b n parts" for parts
    by (induction parts) (simp_all add: d Let_def)
  then show ?thesis by (simp add: cookieValue_def)
qed

lemma resolve_dead:
  assumes "cookieValue pf cookie SESSION_COOKIE = Inr token" "token_digest pf token = h"
  shows "secures (auth_step h) (dead h) (resolveLocalSession pf env cookie) (\<lambda>s _. s = None)"
proof -
  have read: "secures (auth_step h) (dead h) (auth_read env (session_of_token (token_digest pf token))) (\<lambda>row t. row = None \<and> True)"
    unfolding assms(2) by (rule secures_post [OF secures_read [OF stable_dead]]) (simp add: dead_token_none)
  have rest: "secures (auth_step h) (dead h) (if v = [] then returnM None else
      bindM (auth_read env (session_of_token (token_digest pf v))) f) (\<lambda>s _. s = None)"
    if "v = token" "f None = returnM None" for v and f :: "(session_row \<times> user_row) option \<Rightarrow> local_session option auth_eff"
    unfolding that(1)
    by (intro secures_if secures_returnM secures_bindM [OF read] secures_fact) (simp_all add: that(2) secures_returnM)
  show ?thesis
    unfolding resolveLocalSession_def assms(1)
    by (intro secures_if secures_bindM [OF secures_frame [OF moves_bootstrap stable_dead]] secures_bindM [OF secures_liftM] secures_fact rest)
      (simp_all add: secures_returnM)
qed

lemma dead_deleted: "dead h (snd (delete_sessions (\<lambda>s. sw_token_hash s = h) t))"
  by (simp add: dead_def delete_sessions_def)

lemma owned_deleted: "owned_by i h t \<Longrightarrow> dead h (snd (delete_sessions (\<lambda>s. sw_user_id s = i) t))"
  by (auto simp: dead_def owned_by_def delete_sessions_def)

lemma logout_kills:
  assumes "la_hasDB env" "cookieValue pf cookie SESSION_COOKIE = Inr token" "token \<noteq> []" "token_digest pf token = h"
  shows "secures (auth_step h) (\<lambda>_. True) (revokeLocalSession pf env cookie) (\<lambda>_. dead h)"
proof -
  have "secures (auth_step h) (\<lambda>_. True) (if v \<noteq> [] then auth_call env (delete_sessions (\<lambda>s. sw_token_hash s = token_digest pf v)) else returnM ())
      (\<lambda>_. dead h)" if "v = token" for v
    unfolding that assms(4) using assms(3)
    by (simp add: secures_call [where f = "delete_sessions (\<lambda>s. sw_token_hash s = h)"] steps_delete_sessions dead_deleted)
  with assms(1,2) show ?thesis
    unfolding revokeLocalSession_def by (auto intro!: secures_bindM [OF secures_liftM] secures_fact)
qed

lemma revoke_kills:
  assumes "la_hasDB env"
  shows "secures (auth_step h) (owned_by i h) (revokeLocalUserSessions env i) (\<lambda>_. dead h)"
  using assms unfolding revokeLocalUserSessions_def
  by (simp add: secures_call [OF stable_owned] steps_delete_sessions owned_deleted)

lemmas owned_frame = secures_bindM [OF secures_frame [OF _ stable_owned]]

lemmas dead_frame = secures_frame [OF _ stable_dead]

lemma reset_kills:
  assumes "la_hasDB env"
  shows "secures (auth_step h) (owned_by i h) (resetLocalUserPassword pf env i v) (\<lambda>_. dead h)"
  unfolding resetLocalUserPassword_def
  by (intro owned_frame secures_bindM [OF revoke_kills [OF assms]] dead_frame moves_intros steps_tables)

lemma delete_kills:
  assumes "la_hasDB env"
  shows "secures (auth_step h) (owned_by i h) (deleteLocalUser pf env i) (\<lambda>_. dead h)"
  unfolding deleteLocalUser_def
  by (intro owned_frame secures_bindM [OF revoke_kills [OF assms]] dead_frame moves_intros steps_tables)

lemma disable_kills:
  assumes "la_hasDB env" "uc_disabled c = JBool True"
  shows "secures (auth_step h) (owned_by i h) (bindM (updateLocalUser pf env i c) (\<lambda>_. returnM ())) (\<lambda>_. dead h)"
proof -
  have "secures (auth_step h) (owned_by i h) (updateLocalUser pf env i c) (\<lambda>_. dead h)"
    unfolding updateLocalUser_def Let_def
    by (simp add: assms(2))
      (intro owned_frame secures_bindM [OF revoke_kills [OF assms(1)]] dead_frame moves_intros steps_tables)
  then show ?thesis by (rule secures_bindM) (rule secures_returnM)
qed

lemma then_none:
  assumes "secures (auth_step h) P m (\<lambda>_. dead h)" "env_follows (auth_step h) (gw_auth w)" "P (auth_now w)" "m w = (Inr x, w1)"
    and "cookieValue pf cookie SESSION_COOKIE = Inr token" "token_digest pf token = h"
    and "resolveLocalSession pf env cookie w1 = (Inr s, w2)"
  shows "s = None"
  using securesD [OF assms(1-4)] securesD(3) [OF resolve_dead [OF assms(5,6)] _ _ assms(7)] by blast

section \<open>A sample world\<close>

text \<open>One account with one session; the derivation, the digest and the token of the sample platform are readable.\<close>

definition sample_seed :: account_seed where
  "sample_seed = \<lparr>as_id = ''u9'', as_salt = [7], as_now = 1000\<rparr>"

definition sample_auth_platform :: auth_platform where
  "sample_auth_platform = \<lparr>pl_derive = (\<lambda>p salt n. Some (utf8 p)), pl_digest = utf8, pl_rate_sha = (\<lambda>s. s), pl_decode = Some,
     pl_encode = (\<lambda>s. s), pl_bootstrap = sample_seed, pl_account = sample_seed, pl_token = [1, 2, 3], pl_session_id = ''s2'', pl_now = 1000\<rparr>"

definition sample_auth_env :: local_auth_env where
  "sample_auth_env = \<lparr>la_rate = \<lparr>re_hasDB = True, re_source = None, re_proxySecret = None\<rparr>, la_bootstrapUsername = None,
     la_bootstrapPassword = None, la_bootstrapName = None, la_ttlHours = None\<rparr>"

definition sample_password :: string where "sample_password = ''a long password''"

definition sample_user :: "string \<Rightarrow> string \<Rightarrow> user_row" where
  "sample_user i name = \<lparr>uw_id = i, uw_username = name, uw_display_name = name, uw_password_hash = btoa (utf8 sample_password),
     uw_password_salt = btoa [7], uw_password_iterations = 210000, uw_role = ''admin'', uw_disabled = 0, uw_failed_attempts = 0,
     uw_locked_until = None, uw_created_at = 0, uw_updated_at = 0, uw_last_login_at = None\<rparr>"

definition sample_session :: session_row where
  "sample_session = \<lparr>sw_id = ''s1'', sw_user_id = ''u1'', sw_token_hash = base64Url (utf8 ''abc''), sw_created_at = 0, sw_last_seen_at = 0,
     sw_expires_at = Num 5000, sw_user_agent = []\<rparr>"

definition sample_auth_tables :: auth_tables where
  "sample_auth_tables = \<lparr>au_users = [sample_user ''u1'' ''anna'', sample_user ''u2'' ''bert''], au_sessions = [sample_session]\<rparr>"

definition quiet_world :: "auth_tables \<Rightarrow> auth_world" where
  "quiet_world t = \<lparr>gw_auth = \<lparr>db_tables = t, db_schedule = []\<rparr>, gw_rates = \<lparr>db_tables = Map.empty, db_schedule = []\<rparr>\<rparr>"

lemma quiet_world_simps [simp]: "env_follows R (gw_auth (quiet_world t))" "auth_now (quiet_world t) = t"
  by (simp_all add: quiet_world_def auth_now_def)

definition sample_cookie :: "string option" where
  "sample_cookie = Some ''theme=dark; portal_session=abc''"

lemma is_ok_run: "is_ok (fst r) \<Longrightarrow> \<exists>x w'. r = (Inr x, w')"
  by (cases r; cases "fst r") auto

lemma sample_cookie_value: "cookieValue sample_auth_platform sample_cookie SESSION_COOKIE = Inr ''abc''"
  by code_simp

lemma sample_resolves:
  "fst (resolveLocalSession sample_auth_platform sample_auth_env sample_cookie (quiet_world sample_auth_tables))
     = Inr (Some (session_value sample_session (sample_user ''u1'' ''anna'')))"
  by code_simp

text \<open>A logout is final: once it has returned, no later request with that cookie is given a session, whatever
  other requests do in between, as long as no new session is issued with the same token digest.\<close>

lemma logout_is_final:
  assumes "la_hasDB env" "cookieValue pf cookie SESSION_COOKIE = Inr token" "token \<noteq> []"
    and "env_follows (auth_step (token_digest pf token)) (gw_auth w)"
    and "revokeLocalSession pf env cookie w = (Inr (), w1)"
    and "resolveLocalSession later env' cookie w1 = (Inr s, w2)"
    and "pl_decode later = pl_decode pf" "pl_digest later = pl_digest pf"
  shows "s = None"
proof -
  have c: "cookieValue later cookie SESSION_COOKIE = Inr token" "token_digest later token = token_digest pf token"
    using assms(2,7,8) cookie_platform [of later pf] by (simp_all add: token_digest_def)
  show ?thesis by (rule then_none [OF logout_kills [OF assms(1-3) refl] assms(4) _ assms(5) c assms(6)]) simp
qed

lemma logout_is_final_witness:
  "\<exists>w1 w2. revokeLocalSession sample_auth_platform sample_auth_env sample_cookie (quiet_world sample_auth_tables) = (Inr (), w1)
     \<and> resolveLocalSession sample_auth_platform sample_auth_env sample_cookie w1 = (Inr None, w2)"
proof -
  let ?w = "quiet_world sample_auth_tables"
  let ?out = "revokeLocalSession sample_auth_platform sample_auth_env sample_cookie"
  let ?in = "resolveLocalSession sample_auth_platform sample_auth_env sample_cookie"
  have ok: "is_ok (fst (?out ?w))" "is_ok (fst (?in (snd (?out ?w))))" by code_simp+
  from is_ok_run [OF ok(1)] obtain w1 where r: "?out ?w = (Inr (), w1)" by auto
  with is_ok_run [OF ok(2)] obtain s w2 where q: "?in w1 = (Inr s, w2)" by auto
  have "la_hasDB sample_auth_env" by code_simp
  from logout_is_final [OF this sample_cookie_value _ _ r q refl refl] r q show ?thesis by simp
qed

text \<open>C18: Ending the sessions of an account, giving it a new password, disabling or deleting it ends every session it
  had: once the operation has returned, a token that belonged to the account resolves to no session,
  whatever other requests do in between.\<close>

theorem account_sessions_end:
  assumes "la_hasDB env" "uc_disabled change = JBool True"
    and "operation \<in> {revokeLocalUserSessions env i, resetLocalUserPassword pf env i password, deleteLocalUser pf env i,
           bindM (updateLocalUser pf env i change) (\<lambda>_. returnM ())}"
    and "env_follows (auth_step (token_digest later token)) (gw_auth w)" "owned_by i (token_digest later token) (auth_now w)"
    and "operation w = (Inr (), w1)"
    and "cookieValue later cookie SESSION_COOKIE = Inr token"
    and "resolveLocalSession later env' cookie w1 = (Inr s, w2)"
  shows "s = None"
proof -
  let ?h = "token_digest later token"
  have "secures (auth_step ?h) (owned_by i ?h) operation (\<lambda>_. dead ?h)"
    using assms(3) revoke_kills [OF assms(1)] reset_kills [OF assms(1)] delete_kills [OF assms(1)] disable_kills [OF assms(1,2)] by auto
  from then_none [OF this assms(4,5,6,7) refl assms(8)] show ?thesis .
qed

lemma account_sessions_end_witness:
  "\<exists>w1 w2. deleteLocalUser sample_auth_platform sample_auth_env ''u1'' (quiet_world sample_auth_tables) = (Inr (), w1)
     \<and> resolveLocalSession sample_auth_platform sample_auth_env sample_cookie w1 = (Inr None, w2)"
proof -
  let ?w = "quiet_world sample_auth_tables"
  let ?c = "\<lparr>uc_displayName = JUndef, uc_role = JUndef, uc_disabled = JBool True\<rparr>"
  let ?out = "deleteLocalUser sample_auth_platform sample_auth_env ''u1''"
  let ?in = "resolveLocalSession sample_auth_platform sample_auth_env sample_cookie"
  have ok: "is_ok (fst (?out ?w))" "is_ok (fst (?in (snd (?out ?w))))" by code_simp+
  from is_ok_run [OF ok(1)] obtain w1 where r: "?out ?w = (Inr (), w1)" by auto
  with is_ok_run [OF ok(2)] obtain s w2 where q: "?in w1 = (Inr s, w2)" by auto
  have own: "owned_by ''u1'' (token_digest sample_auth_platform ''abc'') (auth_now ?w)"
    by (simp add: owned_by_def sample_auth_tables_def sample_session_def)
  have "la_hasDB sample_auth_env" by code_simp
  from account_sessions_end [where change = ?c and operation = ?out and pf = sample_auth_platform and password = JUndef, OF this _ _ _ own r sample_cookie_value q] r q
  show ?thesis by simp
qed

end
