(* ===== verification/AccountSafety.thy ===== *)
theory AccountSafety
  imports SessionSafety
begin

text \<open>
  What a session and an administrative answer of \<open>AuthApi\<close> are worth: each fact is about the tables at the
  moment of the read it rests on, while other requests, of which nothing is assumed, run before every call.
\<close>

section \<open>A session that is resolved\<close>

definition valid_session :: "auth_platform \<Rightarrow> string option \<Rightarrow> local_session \<Rightarrow> auth_tables \<Rightarrow> bool" where
  "valid_session pf cookie s t \<longleftrightarrow> (\<exists>token r u. cookieValue pf cookie SESSION_COOKIE = Inr token \<and> token \<noteq> []
     \<and> session_of_token (token_digest pf token) t = Some (r, u) \<and> uw_disabled u \<noteq> 1 \<and> \<not> session_expired (pl_now pf) r \<and> s = session_value r u)"

text \<open>
  What the tables may have become when a request reads them: the others have made steps of \<open>R\<close>, whatever \<open>R\<close> is, and
  the request itself may have added the account of the configuration, nothing else. \<open>R\<close> is an argument of the theorems: with
  equality for \<open>R\<close> they speak of a request that runs alone, on the tables it found.
\<close>

definition bootstrap_account :: "auth_platform \<Rightarrow> local_auth_env \<Rightarrow> user_row \<Rightarrow> bool" where
  "bootstrap_account pf env u \<longleftrightarrow> uw_id u = as_id (pl_bootstrap pf)
     \<and> cleanUsername (JStr (js_trim (given_text (la_bootstrapUsername env)))) = Inr (uw_username u)
     \<and> hashPassword pf (pl_bootstrap pf) (given_text (la_bootstrapPassword env)) = Inr (uw_password_hash u, uw_password_salt u)"

definition or_bootstrapped ::
  "(auth_tables \<Rightarrow> auth_tables \<Rightarrow> bool) \<Rightarrow> auth_platform \<Rightarrow> local_auth_env \<Rightarrow> auth_tables \<Rightarrow> auth_tables \<Rightarrow> bool" where
  "or_bootstrapped R pf env t t' \<longleftrightarrow> R t t' \<or> (\<exists>u. bootstrap_account pf env u \<and> t' = snd (insert_user u t))"

lemma or_bootstrapped_twice [simp]: "or_bootstrapped (or_bootstrapped R pf env) pf env = or_bootstrapped R pf env"
  by (intro ext) (auto simp: or_bootstrapped_def)

lemma env_or_bootstrapped: "env_follows R w \<Longrightarrow> env_follows (or_bootstrapped R pf env) w"
  by (erule env_follows_mono) (simp add: or_bootstrapped_def)

lemma secures_prod: "(\<And>x y. v = (x, y) \<Longrightarrow> secures R P (f x y) Q) \<Longrightarrow> secures R P (case v of (x, y) \<Rightarrow> f x y) Q"
  by (cases v) simp

lemma moves_own_bootstrap: "moves (or_bootstrapped R pf env) (bootstrapLocalAdmin pf env)"
proof -
  let ?B = "or_bootstrapped R pf env"
  let ?name = "js_trim (given_text (la_bootstrapUsername env))" and ?pw = "given_text (la_bootstrapPassword env)"
  have "moves ?B (createLocalUser pf (pl_bootstrap pf) env \<lparr>nu_username = JStr ?name, nu_displayName = d, nu_password = JStr ?pw, nu_role = r\<rparr> True)" for d r
    unfolding moves_def createLocalUser_def Let_def
  proof (intro secures_bindM [OF secures_liftM] secures_fact secures_prod, goal_cases)
    case (1 username password credentials hash salt)
    let ?row = "\<lparr>uw_id = as_id (pl_bootstrap pf), uw_username = username, uw_display_name = cleanDisplayName d username, uw_password_hash = hash,
      uw_password_salt = salt, uw_password_iterations = PASSWORD_ITERATIONS, uw_role = role_name Admin, uw_disabled = 0, uw_failed_attempts = 0,
      uw_locked_until = None, uw_created_at = as_now (pl_bootstrap pf), uw_updated_at = as_now (pl_bootstrap pf), uw_last_login_at = None\<rparr>"
    have "password = ?pw" using 1(2) by (auto simp: validatePassword_def Let_def split: if_splits)
    with 1 have "bootstrap_account pf env ?row" by (simp add: bootstrap_account_def)
    then have "?B\<^sup>*\<^sup>* t (snd (insert_user ?row t))" for t by (intro r_into_rtranclp) (auto simp: or_bootstrapped_def)
    then have "moves ?B (bindM (auth_call env (insert_user ?row)) (\<lambda>admitted. bindM (requireM admitted UserExists) (\<lambda>_. returnM (publicUser ?row 0))))"
      by (intro moves_intros)
    then show ?case by (simp add: moves_def)
  qed
  then show ?thesis unfolding bootstrapLocalAdmin_def userCount_def Let_def by (intro moves_intros)
qed

lemma resolution_valid:
  assumes "env_follows R (gw_auth w)" "resolveLocalSession pf env cookie w = (Inr (Some s), w')"
  shows "\<exists>t. (or_bootstrapped R pf env)\<^sup>*\<^sup>* (auth_now w) t \<and> valid_session pf cookie s t"
proof -
  let ?B = "or_bootstrapped R pf env"
  from assms(2) have "la_hasDB env" by (auto simp: resolveLocalSession_def returnM_run split: if_splits)
  with assms(2) obtain b w1 token w2 where boot: "bootstrapLocalAdmin pf env w = (Inr b, w1)"
    and token: "cookieValue pf cookie SESSION_COOKIE = Inr token" "token \<noteq> []"
    and rest: "bindM (auth_read env (session_of_token (token_digest pf token))) (\<lambda>row. case row of
        None \<Rightarrow> returnM None
      | Some (s, u) \<Rightarrow> if uw_disabled u = 1 \<or> session_expired (pl_now pf) s
          then bindM (if sw_id s \<noteq> [] then auth_call env (delete_sessions (\<lambda>r. sw_id r = sw_id s)) else returnM ()) (\<lambda>_. returnM None)
          else bindM (auth_call env (update_sessions (\<lambda>r. sw_id r = sw_id s) (\<lambda>r. r\<lparr>sw_last_seen_at := pl_now pf\<rparr>)))
            (\<lambda>_. returnM (Some (session_value s u)))) w1 = (Inr (Some s), w')"
    by (auto simp: resolveLocalSession_def bindM_Inr_iff [of "bootstrapLocalAdmin pf env"] bindM_Inr_iff [of "liftM _"] liftM_run returnM_run split: if_splits)
  from movesD [OF moves_own_bootstrap env_or_bootstrapped [OF assms(1)] boot]
  have m: "?B\<^sup>*\<^sup>* (auth_now w) (auth_now w1)" "env_follows ?B (gw_auth w1)" by simp_all
  from rest obtain row w3 where read: "auth_read env (session_of_token (token_digest pf token)) w1 = (Inr row, w3)"
    and after: "(case row of
        None \<Rightarrow> returnM None
      | Some (s, u) \<Rightarrow> if uw_disabled u = 1 \<or> session_expired (pl_now pf) s
          then bindM (if sw_id s \<noteq> [] then auth_call env (delete_sessions (\<lambda>r. sw_id r = sw_id s)) else returnM ()) (\<lambda>_. returnM None)
          else bindM (auth_call env (update_sessions (\<lambda>r. sw_id r = sw_id s) (\<lambda>r. r\<lparr>sw_last_seen_at := pl_now pf\<rparr>)))
            (\<lambda>_. returnM (Some (session_value s u)))) w3 = (Inr (Some s), w')"
    unfolding bindM_Inr_iff by blast
  note r = auth_read_Inr [OF m(2) read]
  from after obtain q u where "row = Some (q, u)" "uw_disabled u \<noteq> 1" "\<not> session_expired (pl_now pf) q" "s = session_value q u"
    by (auto simp: bindM_Inr_iff returnM_run split: option.splits if_splits)
  with token r have "valid_session pf cookie s (auth_now w3)" unfolding valid_session_def by metis
  with m(1) r show ?thesis by (meson rtranclp_trans)
qed

text \<open>C17: A session is resolved only from a row the request has read: the cookie's token has the digest of a session
  that has not expired, the account it belongs to exists and is enabled, and identity and role are those of the account
  in that row, so that a change of the role takes effect with the next request. Between the beginning of the request
  and the read the tables have changed by nothing but what the others did and the account of the configuration.\<close>

theorem session_resolution_sound:
  assumes "env_follows R (gw_auth w)" "resolveLocalSession pf env cookie w = (Inr (Some s), w')"
  shows "\<exists>t. (or_bootstrapped R pf env)\<^sup>*\<^sup>* (auth_now w) t \<and> valid_session pf cookie s t"
  using assms by (rule resolution_valid)

lemma session_resolution_sound_witness:
  "\<exists>t. (or_bootstrapped (=) sample_auth_platform sample_auth_env)\<^sup>*\<^sup>* sample_auth_tables t
     \<and> valid_session sample_auth_platform sample_cookie (session_value sample_session (sample_user ''u1'' ''anna'')) t"
proof -
  let ?s = "session_value sample_session (sample_user ''u1'' ''anna'')"
  obtain w' where r: "resolveLocalSession sample_auth_platform sample_auth_env sample_cookie (quiet_world sample_auth_tables) = (Inr (Some ?s), w')"
    using sample_resolves by (metis prod.collapse)
  from session_resolution_sound [OF _ r, of "(=)"] show ?thesis by simp
qed

section \<open>Administrative answers\<close>

text \<open>The answers that only a request with an administrator's session is given.\<close>

fun administrative :: "auth_answer \<Rightarrow> bool" where
  "administrative (Users _) = True"
| "administrative (UserCreated _) = True"
| "administrative (UserUpdated _) = True"
| "administrative Done = True"
| "administrative OwnAccount = True"
| "administrative (Rejected _) = True"
| "administrative NoSuchRoute = True"
| "administrative NoSuchMethod = True"
| "administrative _ = False"

lemma session_answer: "handle_session pf env rq w = (Inr (st, a), w') \<Longrightarrow> \<not> administrative a"
  by (auto simp: handle_session_def eff_Inr_iffs split: option.splits)

text \<open>\<open>yields P m\<close>: what \<open>m\<close> returns, if it returns, satisfies \<open>P\<close>.\<close>

definition yields :: "('a \<Rightarrow> bool) \<Rightarrow> ('s, 'e, 'a) eff \<Rightarrow> bool" where
  "yields P m \<longleftrightarrow> (\<forall>w x w'. m w = (Inr x, w') \<longrightarrow> P x)"

lemma yields_returnM: "P x \<Longrightarrow> yields P (returnM x)"
  by (simp add: yields_def returnM_run)

lemma yields_bindM: "yields Q m \<Longrightarrow> (\<And>x. Q x \<Longrightarrow> yields P (f x)) \<Longrightarrow> yields P (bindM m f)"
  unfolding yields_def bindM_Inr_iff by blast

lemma yields_then: "(\<And>x. yields P (f x)) \<Longrightarrow> yields P (bindM m f)"
  unfolding yields_def bindM_Inr_iff by blast

lemma yields_catchM: "yields P m \<Longrightarrow> (\<And>e. yields P (h e)) \<Longrightarrow> yields P (catchM m h)"
  unfolding yields_def catchM_Inr_iff by blast

lemma yieldsD: "yields P m \<Longrightarrow> m w = (Inr x, w') \<Longrightarrow> P x"
  by (auto simp: yields_def)

lemma login_yields: "yields (\<lambda>(st, a). \<not> administrative a) (handle_login pf d1 d2 env rq)"
  unfolding handle_login_def login_gate_def login_attempt_def login_failed_def
  by (rule yields_bindM [where Q = "\<lambda>gate. case gate of Inl (st, a) \<Rightarrow> \<not> administrative a | Inr _ \<Rightarrow> True"])
    (auto intro!: yields_catchM yields_then yields_returnM simp: rateLimitedResponse_def split: sum.splits prod.splits if_splits)

lemma login_answer: "handle_login pf d1 d2 env rq w = (Inr (st, a), w') \<Longrightarrow> \<not> administrative a"
  using yieldsD [OF login_yields] by fastforce

lemma requireAdmin_valid:
  assumes "env_follows R (gw_auth w)" "requireAdmin pf env rq w = (Inr (Inr s), w')"
  shows "ls_role s = Admin \<and> (\<exists>t. (or_bootstrapped R pf env)\<^sup>*\<^sup>* (auth_now w) t \<and> valid_session pf (aq_cookie rq) s t)"
proof -
  from assms(2) have r: "resolveLocalSession pf env (aq_cookie rq) w = (Inr (Some s), w')" "ls_role s = Admin"
    by (auto simp: requireAdmin_def bindM_Inr_iff returnM_run split: option.splits if_splits)
  from resolution_valid [OF assms(1) r(1)] r(2) show ?thesis by blast
qed

lemma requireAdmin_refusal: "yields (\<lambda>r. \<forall>st a. r = Inl (st, a) \<longrightarrow> \<not> administrative a) (requireAdmin pf env rq)"
  unfolding requireAdmin_def by (rule yields_then, rule yields_returnM) (simp split: option.splits if_splits)

lemma administration_valid:
  assumes "env_follows R (gw_auth w)" "handle_administration pf env rq w = (Inr (st, a), w')" "administrative a"
  shows "\<exists>t s. (or_bootstrapped R pf env)\<^sup>*\<^sup>* (auth_now w) t \<and> valid_session pf (aq_cookie rq) s t \<and> ls_role s = Admin"
proof -
  from assms(2) obtain current w1 where c: "requireAdmin pf env rq w = (Inr current, w1)"
    and run: "(case current of Inl answer \<Rightarrow> returnM answer
       | Inr session \<Rightarrow> (if aq_path rq = USERS_PATH then handle_users pf env rq
          else (case user_path (aq_path rq) of None \<Rightarrow> returnM (404, NoSuchRoute)
            | Some account \<Rightarrow> handle_user pf env rq session account))) w1 = (Inr (st, a), w')"
    unfolding handle_administration_def bindM_Inr_iff by blast
  have rest: "answer = (st, a)" if "current = Inl answer" for answer using run that by (simp add: returnM_run)
  from yieldsD [OF requireAdmin_refusal c] rest assms(3) obtain s where "current = Inr s" by (cases current) auto
  with requireAdmin_valid [OF assms(1)] c show ?thesis by blast
qed

lemma served_administrative:
  assumes "serve_auth url_origin pf draw1 draw2 env rq w = (Inr (st, a), w')" "administrative a"
  shows "sameOriginAdminMutation url_origin (aq_http rq) \<and> handle_administration pf env rq w = (Inr (st, a), w')"
proof -
  consider "aq_method rq = ''GET'' \<and> aq_path rq = ''/api/auth/session''" | "aq_method rq = ''POST'' \<and> aq_path rq = ''/api/auth/login''"
    | "\<not> sameOriginAdminMutation url_origin (aq_http rq)" | "aq_method rq = ''POST'' \<and> aq_path rq = ''/api/auth/logout''"
    | "sameOriginAdminMutation url_origin (aq_http rq) \<and> serve_auth url_origin pf draw1 draw2 env rq = handle_administration pf env rq"
    unfolding serve_auth_def by argo
  then show ?thesis
  proof cases
    case 1
    with assms session_answer show ?thesis by (auto simp: serve_auth_def)
  next
    case 2
    with assms login_answer show ?thesis by (auto simp: serve_auth_def)
  next
    case 3
    with assms session_answer login_answer show ?thesis by (auto simp: serve_auth_def returnM_run split: if_splits)
  next
    case 4
    with assms session_answer login_answer show ?thesis by (auto simp: serve_auth_def eff_Inr_iffs returnM_run split: if_splits)
  next
    case 5
    with assms(1) show ?thesis by simp
  qed
qed

text \<open>C6: Every answer of the administration of accounts - a list, a change, a refusal of one - is given to a request
  whose cookie held the valid session of an enabled administrator in the tables that the request read, and, when
  it is no read, that came from the portal's own origin. The tables that were read differ from those the request
  began with by nothing but what the others did and the account of the configuration.\<close>

theorem administration_needs_admin:
  assumes "handleAuthApi url_origin pf draw1 draw2 mode env rq w = (Inr (st, a), w')" "administrative a"
    and "env_follows R (gw_auth w)"
  shows "sameOriginAdminMutation url_origin (aq_http rq)
    \<and> (\<exists>t s. (or_bootstrapped R pf env)\<^sup>*\<^sup>* (auth_now w) t \<and> valid_session pf (aq_cookie rq) s t \<and> ls_role s = Admin)"
proof -
  let ?B = "or_bootstrapped R pf env"
  have "\<exists>w1. try_bootstrap pf env w = (Inr None, w1) \<and> serve_auth url_origin pf draw1 draw2 env rq w1 = (Inr (st, a), w')"
  proof -
    from assms(1,2) obtain failed w1 where f: "try_bootstrap pf env w = (Inr failed, w1)"
      "(case failed of Some e \<Rightarrow> returnM (503, NoBootstrap e) | None \<Rightarrow> serve_auth url_origin pf draw1 draw2 env rq) w1 = (Inr (st, a), w')"
      unfolding handleAuthApi_def by (cases "mode_is_local mode"; cases "la_hasDB env") (auto simp: bindM_Inr_iff returnM_run)
    with assms(2) show ?thesis by (cases failed) (auto simp: returnM_run)
  qed
  then obtain w1 where b: "try_bootstrap pf env w = (Inr None, w1)" and s: "serve_auth url_origin pf draw1 draw2 env rq w1 = (Inr (st, a), w')"
    by blast
  have "moves ?B (try_bootstrap pf env)" unfolding try_bootstrap_def by (intro moves_intros moves_own_bootstrap)
  from movesD [OF this env_or_bootstrapped [OF assms(3)] b] have m: "?B\<^sup>*\<^sup>* (auth_now w) (auth_now w1)" "env_follows ?B (gw_auth w1)" by auto
  note served = served_administrative [OF s assms(2)]
  from administration_valid [OF m(2) conjunct2 [OF served] assms(2), unfolded or_bootstrapped_twice] served m(1) show ?thesis
    by (meson rtranclp_trans)
qed

definition sample_request :: "string \<Rightarrow> string \<Rightarrow> string \<Rightarrow> auth_request" where
  "sample_request path method text = \<lparr>aq_http = \<lparr>rq_path = path, rq_method = method, rq_url = ''http://portal'', rq_origin = None,
     rq_contentLength = None, rq_body = text\<rparr>, aq_https = True, aq_header = (\<lambda>k. if k = ''cookie'' then sample_cookie else None)\<rparr>"

lemma administration_needs_admin_witness:
  "\<exists>st a t s. fst (handleAuthApi (\<lambda>_. None) sample_auth_platform 0 0 (Some ''local'') sample_auth_env (sample_request USERS_PATH ''GET'' [])
       (quiet_world sample_auth_tables)) = Inr (st, a) \<and> administrative a
     \<and> (or_bootstrapped (=) sample_auth_platform sample_auth_env)\<^sup>*\<^sup>* sample_auth_tables t \<and> valid_session sample_auth_platform sample_cookie s t \<and> ls_role s = Admin"
proof -
  let ?rq = "sample_request USERS_PATH ''GET'' []"
  let ?r = "handleAuthApi (\<lambda>_. None) sample_auth_platform 0 0 (Some ''local'') sample_auth_env ?rq (quiet_world sample_auth_tables)"
  have "(case fst ?r of Inr (st, a) \<Rightarrow> administrative a | _ \<Rightarrow> False)" by code_simp
  then obtain st a w' where r: "?r = (Inr (st, a), w')" "administrative a" by (cases ?r) (auto split: sum.splits prod.splits)
  have c: "aq_cookie ?rq = sample_cookie" by (simp add: aq_cookie_def sample_request_def)
  from administration_needs_admin [OF r, of "(=)"] obtain t s where ts: "(or_bootstrapped (=) sample_auth_platform sample_auth_env)\<^sup>*\<^sup>* sample_auth_tables t"
    "valid_session sample_auth_platform sample_cookie s t" "ls_role s = Admin" unfolding c by auto
  from r have "fst ?r = Inr (st, a)" by simp
  with r(2) ts show ?thesis by blast
qed

end
