(* ===== verification/LoginSafety.thy ===== *)
theory LoginSafety
  imports AccountSafety
begin

text \<open>
  The administrators that remain, and what a login is granted and answered on: runs without other requests
  (\<open>quiet\<close>) are evaluated, the others reasoned about at the moment of the read.
\<close>

section \<open>Quiet runs\<close>

definition quiet :: "auth_world \<Rightarrow> bool" where
  "quiet w \<longleftrightarrow> db_schedule (gw_auth w) = []"

lemma auth_call_quiet:
  assumes "quiet w"
  shows "auth_call env f w = (if la_hasDB env then (Inr (fst (f (auth_now w))), w\<lparr>gw_auth := \<lparr>db_tables = snd (f (auth_now w)), db_schedule = []\<rparr>\<rparr>)
    else (Inl AuthStorage, w))"
  using assms by (simp add: auth_call_def bindM_run requireM_run on_auth_def d1_call_def quiet_def auth_now_def split: prod.splits)

lemma auth_read_quiet: "quiet w \<Longrightarrow> auth_read env f w = (if la_hasDB env then (Inr (f (auth_now w)), w) else (Inl AuthStorage, w))"
  by (simp add: auth_read_def auth_call_quiet) (simp add: quiet_def auth_now_def)

lemma quiet_written [simp]: "quiet (w\<lparr>gw_auth := \<lparr>db_tables = t, db_schedule = []\<rparr>\<rparr>)" "auth_now (w\<lparr>gw_auth := \<lparr>db_tables = t, db_schedule = d\<rparr>\<rparr>) = t"
  by (simp_all add: quiet_def auth_now_def)

section \<open>An administrator remains\<close>

definition admin_left :: "auth_tables \<Rightarrow> bool" where
  "admin_left t \<longleftrightarrow> (\<exists>u \<in> set (au_users t). active_admin u)"

definition other_admin :: "string \<Rightarrow> auth_tables \<Rightarrow> bool" where
  "other_admin i t \<longleftrightarrow> (\<exists>u \<in> set (au_users t). active_admin u \<and> uw_id u \<noteq> i)"

lemma count_others: "Suc 0 \<le> length (filter (\<lambda>u. active_admin u \<and> uw_id u \<noteq> i) (au_users t)) \<longleftrightarrow> other_admin i t"
  by (auto simp: other_admin_def Suc_le_eq filter_empty_conv)

lemma sessions_deleted [simp]: "au_users (snd (delete_sessions P t)) = au_users t"
  by (simp add: delete_sessions_def)

lemma other_admin_stays:
  "other_admin i t \<Longrightarrow> admin_left (snd (update_users (\<lambda>u. uw_id u = i) f t))"
  "other_admin i t \<Longrightarrow> admin_left (snd (delete_users (\<lambda>u. uw_id u = i) t))"
  by (force simp: other_admin_def admin_left_def update_users_def delete_users_def)+

lemma user_by_id_Some: "user_by_id i t = Some u \<Longrightarrow> u \<in> set (au_users t) \<and> uw_id u = i"
  unfolding user_by_id_def by (drule find_Some_iff')

lemma the_admin:
  assumes "distinct (map uw_id (au_users t))" "user_by_id i t = Some u" "admin_left t" "\<not> other_admin i t"
  shows "active_admin u"
proof -
  from assms(3,4) obtain a where a: "a \<in> set (au_users t)" "active_admin a" "uw_id a = i"
    by (auto simp: admin_left_def other_admin_def)
  from user_by_id_Some [OF assms(2)] a assms(1) have "a = u" by (auto simp: distinct_map inj_on_def)
  with a show ?thesis by simp
qed

lemma admin_written:
  assumes "distinct (map uw_id (au_users t))" "user_by_id i t = Some u" "admin_left t"
    and "active_admin u \<Longrightarrow> other_admin i t \<or> r = Admin \<and> \<not> disabled"
  shows "admin_left (snd (update_users (\<lambda>v. uw_id v = i) (write_user name r disabled now) t))"
proof (cases "other_admin i t")
  case False
  with the_admin [OF assms(1-3)] assms(4) have "r = Admin" "\<not> disabled" by auto
  then have "active_admin (write_user name r disabled now u)" by (simp add: write_user_def active_admin_def)
  moreover from user_by_id_Some [OF assms(2)]
  have "write_user name r disabled now u \<in> set (au_users (snd (update_users (\<lambda>v. uw_id v = i) (write_user name r disabled now) t)))"
    by (force simp: update_users_def)
  ultimately show ?thesis unfolding admin_left_def by blast
qed (rule other_admin_stays)

lemma admin_role: "lu_role (publicUser u n) = Admin \<longleftrightarrow> uw_role u = ''admin''"
  by (simp add: publicUser_def local_role_def)

text \<open>C16: The portal never loses its last active administrator to one request: a change or a deletion that runs alone
  leaves an active administrator if there was one, whether it succeeds, is refused or fails.\<close>

theorem last_admin_kept:
  assumes "quiet w" "distinct (map uw_id (au_users (auth_now w)))" "admin_left (auth_now w)"
  shows "admin_left (auth_now (snd (updateLocalUser pf env i change w))) \<and> admin_left (auth_now (snd (deleteLocalUser pf env i w)))"
proof (cases "la_hasDB env \<and> user_by_id i (auth_now w) \<noteq> None")
  case False
  with assms show ?thesis
    by (auto simp: updateLocalUser_def deleteLocalUser_def readUser_def auth_read_quiet bindM_run require_user_def throwM_run)
next
  case True
  then obtain u where u: "user_by_id i (auth_now w) = Some u" and db: "la_hasDB env" by auto
  have run: "bindM (readUser env i) (\<lambda>found. bindM (require_user found) f) w = f (publicUser u 0) w" for f :: "local_user \<Rightarrow> 'a auth_eff"
    using u db assms(1) by (simp add: readUser_def auth_read_quiet bindM_run require_user_def returnM_run)
  have keep: "keep_an_admin env i b w = (if b \<and> \<not> other_admin i (auth_now w) then (Inl LastAdmin, w) else (Inr (), w))" for b
    using db assms(1) count_others [of i "auth_now w"]
    by (simp add: keep_an_admin_def activeAdminCount_def auth_read_quiet bindM_run requireM_run returnM_run)
  have "admin_left (auth_now (snd (updateLocalUser pf env i change w)))"
    unfolding updateLocalUser_def run Let_def bindM_run [of "keep_an_admin env i b" for b] keep
    using admin_written [OF assms(2) u assms(3)] assms(1,3) db
    by (auto simp: bindM_run auth_call_quiet revokeLocalUserSessions_def returnM_run admin_role admin_left_def active_admin_def)
  moreover have "admin_left (auth_now (snd (deleteLocalUser pf env i w)))"
  proof (cases "other_admin i (auth_now w)")
    case False
    with the_admin [OF assms(2) u assms(3)] have "lu_role (publicUser u 0) = Admin" by (simp add: admin_role active_admin_def)
    with False assms(3) show ?thesis unfolding deleteLocalUser_def run bindM_run [of "keep_an_admin env i b" for b] keep by simp
  next
    case other: True
    let ?clear = "catchM (clearLoginRateLimitForUsername pf env (JStr (lu_username (publicUser u 0)))) (\<lambda>_. returnM ()) :: unit auth_eff"
    let ?w1 = "w\<lparr>gw_auth := \<lparr>db_tables = snd (delete_sessions (\<lambda>s. sw_user_id s = i) (auth_now w)), db_schedule = []\<rparr>\<rparr>"
    obtain r w2 where c: "?clear ?w1 = (r, w2)" by (cases "?clear ?w1")
    have "gw_auth (snd (?clear v)) = gw_auth v" for v
      by (simp add: catchM_run clearLoginRateLimitForUsername_def returnM_run split: prod.splits sum.splits) (metis on_rates_auth snd_conv)
    from this [of ?w1] c have g: "gw_auth w2 = gw_auth ?w1" by simp
    then have q: "quiet w2" "au_users (auth_now w2) = au_users (auth_now w)" by (simp_all add: quiet_def auth_now_def)
    have o: "other_admin i (auth_now w2)" using other q(2) by (simp add: other_admin_def)
    then have a: "admin_left (auth_now w2)" by (auto simp: other_admin_def admin_left_def)
    have "deleteLocalUser pf env i w
        = (case (r, w2) of (Inl e, v) \<Rightarrow> (Inl e, v) | (Inr x, v) \<Rightarrow> auth_call env (delete_users (\<lambda>u. uw_id u = i)) v)"
      unfolding deleteLocalUser_def run bindM_run [of "keep_an_admin env i b" for b] keep
      using other db assms(1) c by (simp add: bindM_run revokeLocalUserSessions_def auth_call_quiet split: sum.splits)
    with o a q(1) other_admin_stays(2) [OF o] show ?thesis by (cases r) (simp_all add: auth_call_quiet)
  qed
  ultimately show ?thesis ..
qed

lemma last_admin_kept_witness:
  "admin_left (auth_now (snd (deleteLocalUser sample_auth_platform sample_auth_env ''u1'' (quiet_world sample_auth_tables))))"
proof -
  have "admin_left sample_auth_tables" "distinct (map uw_id (au_users sample_auth_tables))" by code_simp+
  with last_admin_kept [of "quiet_world sample_auth_tables"] show ?thesis by (simp add: quiet_def quiet_world_def auth_now_def)
qed

text \<open>A deletion while another one runs.\<close>

definition cleared_names :: "auth_platform \<Rightarrow> local_auth_env \<Rightarrow> js \<Rightarrow> unit auth_eff" where
  "cleared_names pf env v = catchM (clearLoginRateLimitForUsername pf env v) (\<lambda>_. returnM ())"

lemma clear_answers: "\<exists>w'. cleared_names pf env v w = (Inr (), w') \<and> gw_auth w' = gw_auth w"
proof -
  obtain r w1 where c: "on_rates (recordLoginSuccess (pl_rate_sha pf) (la_rate env) v) w = (r, w1)"
    by (cases "on_rates (recordLoginSuccess (pl_rate_sha pf) (la_rate env) v) w")
  have "gw_auth w1 = gw_auth w" using on_rates_auth [of "recordLoginSuccess (pl_rate_sha pf) (la_rate env) v" w] unfolding c by simp
  then show ?thesis by (cases r) (simp_all add: cleared_names_def clearLoginRateLimitForUsername_def catchM_run c returnM_run)
qed

definition without_account :: "string \<Rightarrow> auth_tables \<Rightarrow> auth_tables" where
  "without_account i t = snd (delete_users (\<lambda>u. uw_id u = i) (snd (delete_sessions (\<lambda>s. sw_user_id s = i) t)))"

lemma delete_alone:
  assumes "quiet w" "la_hasDB env" "user_by_id i (auth_now w) = Some u" "other_admin i (auth_now w)"
  shows "is_ok (fst (deleteLocalUser pf env i w)) \<and> auth_now (snd (deleteLocalUser pf env i w)) = without_account i (auth_now w)"
proof -
  let ?w1 = "w\<lparr>gw_auth := \<lparr>db_tables = snd (delete_sessions (\<lambda>s. sw_user_id s = i) (auth_now w)), db_schedule = []\<rparr>\<rparr>"
  obtain w2 where c: "cleared_names pf env (JStr (lu_username (publicUser u 0))) ?w1 = (Inr (), w2)"
    "gw_auth w2 = gw_auth ?w1"
    using clear_answers by blast
  have q: "quiet w2" "auth_now w2 = snd (delete_sessions (\<lambda>s. sw_user_id s = i) (auth_now w))" using c(2) by (simp_all add: quiet_def auth_now_def)
  have "1 \<le> length (filter (\<lambda>u. active_admin u \<and> uw_id u \<noteq> i) (au_users (auth_now w)))" using assms(4) count_others by simp
  then show ?thesis
    using assms(1-3) c(1) q
    by (simp add: deleteLocalUser_def cleared_names_def [symmetric] readUser_def auth_read_quiet bindM_run require_user_def returnM_run
      keep_an_admin_def activeAdminCount_def requireM_run revokeLocalUserSessions_def auth_call_quiet without_account_def)
qed

lemma delete_last:
  assumes "quiet w" "la_hasDB env" "user_by_id i (auth_now w) = Some u" "active_admin u" "\<not> other_admin i (auth_now w)"
  shows "deleteLocalUser pf env i w = (Inl LastAdmin, w)"
proof -
  have "lu_role (publicUser u 0) = Admin" using assms(4) by (simp add: admin_role active_admin_def)
  moreover have "\<not> 1 \<le> length (filter (\<lambda>u. active_admin u \<and> uw_id u \<noteq> i) (au_users (auth_now w)))" using assms(5) count_others by simp
  ultimately show ?thesis
    using assms(1-3)
    by (simp add: deleteLocalUser_def readUser_def auth_read_quiet bindM_run require_user_def returnM_run keep_an_admin_def activeAdminCount_def
      requireM_run)
qed

text \<open>The other request, as the schedule has it: a whole deletion, run on the tables of that moment.\<close>

definition deleted_by :: "auth_platform \<Rightarrow> local_auth_env \<Rightarrow> rate_tables database \<Rightarrow> string \<Rightarrow> auth_tables \<Rightarrow> auth_tables" where
  "deleted_by pf env rates i t = auth_now (snd (deleteLocalUser pf env i \<lparr>gw_auth = \<lparr>db_tables = t, db_schedule = []\<rparr>, gw_rates = rates\<rparr>))"

definition two_admins :: "string \<Rightarrow> string \<Rightarrow> auth_tables \<Rightarrow> bool" where
  "two_admins i j t \<longleftrightarrow> i \<noteq> j \<and> distinct (map uw_id (au_users t)) \<and> (\<exists>a. user_by_id i t = Some a \<and> active_admin a)
     \<and> (\<exists>b. user_by_id j t = Some b \<and> active_admin b) \<and> (\<forall>u \<in> set (au_users t). active_admin u \<longrightarrow> uw_id u \<in> {i, j})"

lemma find_filter_other: "find P xs = Some x \<Longrightarrow> Q x \<Longrightarrow> (\<And>y. P y \<Longrightarrow> Q y) \<Longrightarrow> find P (filter Q xs) = Some x"
  by (induction xs) (auto split: if_splits)

lemma two_admins_others: "two_admins i j t \<Longrightarrow> other_admin i t \<and> other_admin j t"
  unfolding two_admins_def other_admin_def by (metis user_by_id_Some)

lemma auth_call_next:
  "la_hasDB env \<Longrightarrow> db_schedule (gw_auth w) = (g, Delivered) # rest \<Longrightarrow>
     auth_call env f w = (Inr (fst (f (g (auth_now w)))), w\<lparr>gw_auth := \<lparr>db_tables = snd (f (g (auth_now w))), db_schedule = rest\<rparr>\<rparr>)"
  by (simp add: auth_call_def bindM_run requireM_run on_auth_def d1_call_def auth_now_def Let_def split: prod.splits)

text \<open>C25: Two requests can take the last administrators away: whatever else the tables hold, when two administrators are the
  active ones and the deletion of one runs as a whole after another request has counted the administrators and before it
  deletes the other one, both deletions succeed and no active administrator is left. One after the other, the
  second deletion is refused.\<close>

theorem racing_deletions:
  assumes "la_hasDB env" "la_hasDB env'" "two_admins i j (auth_now w)"
    and "db_schedule (gw_auth w) = [(\<lambda>t. t, Delivered), (\<lambda>t. t, Delivered), (deleted_by pf' env' rates j, Delivered)]"
    and "quiet v" "auth_now v = deleted_by pf' env' rates j (auth_now w)"
  shows "is_ok (fst (deleteLocalUser pf' env' j \<lparr>gw_auth = \<lparr>db_tables = auth_now w, db_schedule = []\<rparr>, gw_rates = rates\<rparr>))
    \<and> is_ok (fst (deleteLocalUser pf env i w)) \<and> \<not> admin_left (auth_now (snd (deleteLocalUser pf env i w)))
    \<and> fst (deleteLocalUser pf env i v) = Inl LastAdmin"
proof -
  let ?t = "auth_now w" and ?q = "\<lparr>gw_auth = \<lparr>db_tables = auth_now w, db_schedule = []\<rparr>, gw_rates = rates\<rparr>"
  from assms(3) obtain a b where ab: "user_by_id i ?t = Some a" "active_admin a" "user_by_id j ?t = Some b" "active_admin b" "i \<noteq> j"
    "distinct (map uw_id (au_users ?t))" and only: "\<And>u. u \<in> set (au_users ?t) \<Longrightarrow> active_admin u \<Longrightarrow> uw_id u \<in> {i, j}"
    unfolding two_admins_def by blast
  note others = two_admins_others [OF assms(3)]
  have "quiet ?q" "auth_now ?q = ?t" by (simp_all add: quiet_def auth_now_def)
  from delete_alone [OF this(1) assms(2), of j b pf'] this(2) ab(3) others
  have second: "is_ok (fst (deleteLocalUser pf' env' j ?q))" and gone: "deleted_by pf' env' rates j ?t = without_account j ?t"
    by (simp_all add: deleted_by_def)
  have role: "lu_role (publicUser a 0) = Admin" using ab(2) by (simp add: admin_role active_admin_def)
  have count: "1 \<le> length (filter (\<lambda>u. active_admin u \<and> uw_id u \<noteq> i) (au_users ?t))" using others count_others by simp
  let ?w3 = "w\<lparr>gw_auth := \<lparr>db_tables = snd (delete_sessions (\<lambda>s. sw_user_id s = i) (without_account j ?t)), db_schedule = []\<rparr>\<rparr>"
  obtain w4 where c: "cleared_names pf env (JStr (lu_username (publicUser a 0))) ?w3 = (Inr (), w4)"
    "gw_auth w4 = gw_auth ?w3"
    using clear_answers by blast
  have q: "quiet w4" "auth_now w4 = snd (delete_sessions (\<lambda>s. sw_user_id s = i) (without_account j ?t))"
    using c(2) by (simp_all add: quiet_def auth_now_def)
  have run: "deleteLocalUser pf env i w = auth_call env (delete_users (\<lambda>u. uw_id u = i)) w4"
    using assms(1,4) ab(1) role count c(1)
    by (simp add: deleteLocalUser_def cleared_names_def [symmetric] readUser_def auth_read_def auth_call_next bindM_run require_user_def returnM_run keep_an_admin_def
      activeAdminCount_def requireM_run revokeLocalUserSessions_def gone [unfolded auth_now_def] auth_now_def)
  have "\<not> admin_left (without_account i (without_account j ?t))"
    using only by (auto simp: admin_left_def without_account_def delete_users_def delete_sessions_def)
  then have left: "\<not> admin_left (auth_now (snd (deleteLocalUser pf env i w)))"
    unfolding run using assms(1) q by (simp add: auth_call_quiet without_account_def)
  have ok: "is_ok (fst (deleteLocalUser pf env i w))"
    unfolding run using assms(1) q(1) by (simp add: auth_call_quiet)
  have v: "auth_now v = without_account j ?t" using assms(6) gone by simp
  have "user_by_id i (auth_now v) = Some a"
    using find_filter_other [of "\<lambda>u. uw_id u = i" "au_users ?t" a "\<lambda>u. uw_id u \<noteq> j"] ab(1,5) find_Some_iff' [of "\<lambda>u. uw_id u = i" "au_users ?t" a]
    unfolding v by (auto simp: user_by_id_def without_account_def delete_users_def delete_sessions_def)
  moreover have "\<not> other_admin i (auth_now v)"
    using only unfolding v by (auto simp: other_admin_def without_account_def delete_users_def delete_sessions_def)
  ultimately have "deleteLocalUser pf env i v = (Inl LastAdmin, v)" by (intro delete_last [OF assms(5,1) _ ab(2)])
  with second ok left show ?thesis by simp
qed

definition racing_world :: auth_world where
  "racing_world = \<lparr>gw_auth = \<lparr>db_tables = sample_auth_tables,
       db_schedule = [(\<lambda>t. t, Delivered), (\<lambda>t. t, Delivered),
         (deleted_by sample_auth_platform sample_auth_env \<lparr>db_tables = Map.empty, db_schedule = []\<rparr> ''u2'', Delivered)]\<rparr>,
     gw_rates = \<lparr>db_tables = Map.empty, db_schedule = []\<rparr>\<rparr>"

lemma racing_deletions_witness:
  "is_ok (fst (deleteLocalUser sample_auth_platform sample_auth_env ''u1'' racing_world))
     \<and> \<not> admin_left (auth_now (snd (deleteLocalUser sample_auth_platform sample_auth_env ''u1'' racing_world)))"
proof -
  let ?rates = "\<lparr>db_tables = Map.empty, db_schedule = []\<rparr>"
  have db: "la_hasDB sample_auth_env" by code_simp
  have two: "two_admins ''u1'' ''u2'' (auth_now racing_world)"
    by (simp add: two_admins_def racing_world_def auth_now_def sample_auth_tables_def user_by_id_def sample_user_def active_admin_def)
  have s: "db_schedule (gw_auth racing_world) = [(\<lambda>t. t, Delivered), (\<lambda>t. t, Delivered),
      (deleted_by sample_auth_platform sample_auth_env ?rates ''u2'', Delivered)]" by (simp add: racing_world_def)
  let ?v = "quiet_world (deleted_by sample_auth_platform sample_auth_env ?rates ''u2'' (auth_now racing_world))"
  have "quiet ?v" by (simp add: quiet_def quiet_world_def)
  from racing_deletions [OF db db two s this] show ?thesis by simp
qed

section \<open>Login\<close>

lemma constantTimeEqual_iff:
  assumes "length (utf8 a) < 2 ^ 32" "length (utf8 b) < 2 ^ 32" "a \<noteq> []" "b \<noteq> []"
  shows "constantTimeEqual a b \<longleftrightarrow> a = b"
  using secretMatches_iff [OF assms(1,2)] assms(3,4) by (simp add: secretMatches_def constantTimeEqual_def Let_def)

definition granted_to :: "auth_platform \<Rightarrow> string \<Rightarrow> js \<Rightarrow> local_session \<Rightarrow> auth_tables \<Rightarrow> bool" where
  "granted_to pf password username s t \<longleftrightarrow> (\<exists>name u. cleanUsername username = Inr name \<and> user_by_name name t = Some u \<and> uw_disabled u \<noteq> 1
     \<and> credentials_match pf password (Some u) = Inr True \<and> ls_userId s = uw_id u \<and> ls_username s = name \<and> ls_role s = local_role (JStr (uw_role u)))"

lemma open_session_value: "yields (\<lambda>(s, _). s = session_value (new_session pf env (uw_id u) agent) u) (open_session pf env u agent)"
  unfolding open_session_def Let_def by (intro yields_then yields_returnM) simp

lemma user_by_name_Some: "user_by_name n t = Some u \<Longrightarrow> uw_username u = n"
  unfolding user_by_name_def by (drule find_Some_iff') simp

lemma authenticate_granted:
  assumes "env_follows R (gw_auth w)" "authenticateLocalUser pf env username passwordValue agent w = (Inr (s, token, maxAge), w')"
  shows "\<exists>t. (or_bootstrapped R pf env)\<^sup>*\<^sup>* (auth_now w) t \<and> granted_to pf (to_str (coalesce passwordValue (JStr []))) username s t"
proof -
  let ?B = "or_bootstrapped R pf env" and ?pw = "to_str (coalesce passwordValue (JStr []))"
  let ?read = "case cleanUsername username of Inl _ \<Rightarrow> returnM None | Inr name \<Rightarrow> auth_read env (user_by_name name)"
  from assms(2) obtain b w1 row w2 ok w3 where boot: "bootstrapLocalAdmin pf env w = (Inr b, w1)"
    and read: "?read w1 = (Inr row, w2)" and match: "liftM (credentials_match pf ?pw row) w2 = (Inr ok, w3)"
    and rest: "(case row of None \<Rightarrow> throwM BadCredentials
      | Some u \<Rightarrow> bindM (requireM (uw_disabled u \<noteq> 1 \<and> ok) BadCredentials) (\<lambda>_. open_session pf env u agent)) w3 = (Inr (s, token, maxAge), w')"
    unfolding authenticateLocalUser_def bindM_Inr_iff by blast
  from movesD [OF moves_own_bootstrap env_or_bootstrapped [OF assms(1)] boot]
  have m: "?B\<^sup>*\<^sup>* (auth_now w) (auth_now w1)" "env_follows ?B (gw_auth w1)" by simp_all
  from rest obtain u where u: "row = Some u" "uw_disabled u \<noteq> 1" "ok" and opened: "open_session pf env u agent w3 = (Inr (s, token, maxAge), w')"
    by (cases row) (auto simp: throwM_run bindM_Inr_iff [of "requireM _ _"] requireM_run split: if_splits)
  from read u(1) obtain name where name: "cleanUsername username = Inr name" "auth_read env (user_by_name name) w1 = (Inr row, w2)"
    by (cases "cleanUsername username") (auto simp: returnM_run)
  note r = auth_read_Inr [OF m(2) name(2)]
  from yieldsD [OF open_session_value opened] have "s = session_value (new_session pf env (uw_id u) agent) u" by simp
  with u match name(1) r user_by_name_Some [of name "auth_now w2" u] have "granted_to pf ?pw username s (auth_now w2)"
    by (auto simp: granted_to_def session_value_def new_session_def liftM_run)
  with m(1) r show ?thesis by (meson rtranclp_trans)
qed

lemma on_rates_Inr: "on_rates m w = (Inr x, w') \<Longrightarrow> gw_auth w' = gw_auth w \<and> m (gw_rates w) = (Inr x, gw_rates w')"
  by (cases "m (gw_rates w)"; cases "fst (m (gw_rates w))") (auto simp: on_rates_def)

lemma login_gate_passed:
  assumes "login_gate pf env rq w = (Inr (Inr username), w1)"
  shows "body_member (login_body rq) ''username'' = Inr username \<and> gw_auth w1 = gw_auth w
    \<and> (\<exists>d rates. checkLoginRateLimit (pl_rate_sha pf) (la_rate env) (aq_header rq) username (pl_now pf) (gw_rates w) = (Inr d, rates) \<and> \<not> rd_limited d)"
proof -
  from assms obtain d where b: "body_member (login_body rq) ''username'' = Inr username" "\<not> rd_limited d"
    and c: "on_rates (checkLoginRateLimit (pl_rate_sha pf) (la_rate env) (aq_header rq) username (pl_now pf)) w = (Inr d, w1)"
    unfolding login_gate_def by (auto simp: catchM_Inr_iff bindM_Inr_iff liftM_run returnM_run split: if_splits)
  from on_rates_Inr [OF c] b show ?thesis by blast
qed

lemma yields_catch: "catchM m h w = (Inr x, w') \<Longrightarrow> (\<And>e. yields P (h e)) \<Longrightarrow> \<not> P x \<Longrightarrow> m w = (Inr x, w')"
  unfolding yields_def catchM_Inr_iff by blast

text \<open>C7: A login is granted only when neither the client nor the name was blocked and, in the tables the request read, the
  account existed under that name, was enabled, and the given password derived to the value stored for it; the
  session is that of this account, with its role. The tables that were read differ from those the request
  began with by nothing but what the others did and the account of the configuration.\<close>

theorem login_requires_credentials:
  assumes "handle_login pf draw1 draw2 env rq w = (Inr (status, LoggedIn p cookie), w')" "env_follows R (gw_auth w)"
  shows "\<exists>username d rates t s. body_member (login_body rq) ''username'' = Inr username
    \<and> checkLoginRateLimit (pl_rate_sha pf) (la_rate env) (aq_header rq) username (pl_now pf) (gw_rates w) = (Inr d, rates) \<and> \<not> rd_limited d
    \<and> (or_bootstrapped R pf env)\<^sup>*\<^sup>* (auth_now w) t
    \<and> granted_to pf (to_str (coalesce (jget (login_body rq) ''password'') (JStr []))) username s t \<and> p = publicSession s"
proof -
  have unlimited: "rateLimitedResponse d \<noteq> (st, LoggedIn p c)" for d st c by (simp add: rateLimitedResponse_def)
  have gate_answer: "yields (\<lambda>g. \<forall>st c. g \<noteq> Inl (st, LoggedIn p c)) (login_gate pf env rq)"
    unfolding login_gate_def by (intro yields_catchM yields_then yields_returnM) (simp_all add: unlimited)
  from assms(1) obtain g w1 where g: "login_gate pf env rq w = (Inr g, w1)"
    and rest: "(case g of Inl answer \<Rightarrow> returnM answer
      | Inr username \<Rightarrow> catchM (login_attempt pf env rq username) (\<lambda>_. login_failed pf draw1 draw2 env rq username)) w1 = (Inr (status, LoggedIn p cookie), w')"
    unfolding handle_login_def bindM_Inr_iff by blast
  obtain username where u: "g = Inr username"
    using yieldsD [OF gate_answer g] rest by (cases g) (auto simp: returnM_run)
  note gate = login_gate_passed [OF g [unfolded u]]
  have failed: "yields (\<lambda>r. \<forall>st c. r \<noteq> (st, LoggedIn p c)) (login_failed pf draw1 draw2 env rq username)"
    unfolding login_failed_def by (intro yields_catchM yields_then yields_returnM) (simp_all add: unlimited)
  have c: "catchM (login_attempt pf env rq username) (\<lambda>_. login_failed pf draw1 draw2 env rq username) w1 = (Inr (status, LoggedIn p cookie), w')"
    using rest u by simp
  have "login_attempt pf env rq username w1 = (Inr (status, LoggedIn p cookie), w')"
    by (rule yields_catch [OF c failed]) simp
  then obtain s token maxAge w2 where a: "authenticateLocalUser pf env username (jget (login_body rq) ''password'')
      (opt_text (aq_header rq ''user-agent'') []) w1 = (Inr (s, token, maxAge), w2)" "p = publicSession s"
    unfolding login_attempt_def by (auto simp: catchM_Inr_iff bindM_Inr_iff returnM_run)
  have "auth_now w1 = auth_now w" "env_follows R (gw_auth w1)" using gate assms(2) by (simp_all add: auth_now_def)
  with authenticate_granted [OF _ a(1)] gate a(2) show ?thesis by fastforce
qed

definition sample_login :: auth_request where
  "sample_login = sample_request ''/api/auth/login'' ''POST'' (json_print (JObj [(''username'', JStr ''anna''), (''password'', JStr sample_password)]))"

lemma sample_login_granted:
  "\<exists>p c w'. handle_login sample_auth_platform 0 0 sample_auth_env sample_login (quiet_world sample_auth_tables) = (Inr (200, LoggedIn p c), w')"
proof -
  let ?w = "quiet_world sample_auth_tables"
  let ?gate = "login_gate sample_auth_platform sample_auth_env sample_login"
  let ?auth = "authenticateLocalUser sample_auth_platform sample_auth_env (JStr ''anna'') (JStr sample_password) []"
  let ?done = "on_rates (recordLoginSuccess (pl_rate_sha sample_auth_platform) (la_rate sample_auth_env) (JStr ''anna'')) :: unit auth_eff"
  have "fst (?gate ?w) = Inr (Inr (JStr ''anna''))" by code_simp
  then obtain w1 where g: "?gate ?w = (Inr (Inr (JStr ''anna'')), w1)" by (cases "?gate ?w") auto
  have "is_ok (fst (?auth (snd (?gate ?w))))" by code_simp
  from is_ok_run [OF this] g obtain s token maxAge w2 where a: "?auth w1 = (Inr (s, token, maxAge), w2)" by auto
  have "is_ok (fst (?done (snd (?auth (snd (?gate ?w))))))" by code_simp
  from is_ok_run [OF this] g a obtain w3 where d: "?done w2 = (Inr (), w3)" by auto
  have b: "jget (login_body sample_login) ''password'' = JStr sample_password" "opt_text (aq_header sample_login ''user-agent'') [] = []" by code_simp+
  show ?thesis by (simp add: handle_login_def login_attempt_def bindM_run catchM_run g a b d returnM_run)
qed

lemma login_requires_credentials_witness:
  "\<exists>username t s. (or_bootstrapped (=) sample_auth_platform sample_auth_env)\<^sup>*\<^sup>* sample_auth_tables t \<and> granted_to sample_auth_platform sample_password username s t"
proof -
  obtain p c w' where r: "handle_login sample_auth_platform 0 0 sample_auth_env sample_login (quiet_world sample_auth_tables) = (Inr (200, LoggedIn p c), w')"
    using sample_login_granted by blast
  have pw: "to_str (coalesce (jget (login_body sample_login) ''password'') (JStr [])) = sample_password" by code_simp
  from login_requires_credentials [OF r, of "(=)"] pw show ?thesis by auto
qed

section \<open>A refused login tells nothing about the accounts\<close>

text \<open>Code that reads and writes the rate limiter only.\<close>

definition rates_only :: "'a auth_eff \<Rightarrow> bool" where
  "rates_only m \<longleftrightarrow> (\<forall>d. \<exists>r d'. \<forall>v. gw_rates v = d \<longrightarrow> m v = (r, v\<lparr>gw_rates := d'\<rparr>))"

lemma rates_onlyI: "(\<And>d. \<forall>v. gw_rates v = d \<longrightarrow> m v = (r d, v\<lparr>gw_rates := g d\<rparr>)) \<Longrightarrow> rates_only m"
  unfolding rates_only_def by blast

lemma rates_only_pure:
  assumes "\<And>v. m v = (r, v)" shows "rates_only m"
  by (rule rates_onlyI [where r = "\<lambda>_. r" and g = "\<lambda>d. d"]) (auto simp: assms)

lemma rates_only_on_rates: "rates_only (on_rates m)"
  by (rule rates_onlyI [where r = "\<lambda>d. case fst (m d) of Inl e \<Rightarrow> Inl (RateFault e) | Inr x \<Rightarrow> Inr x" and g = "\<lambda>d. snd (m d)"])
    (auto simp: on_rates_def split: prod.splits sum.splits)

lemma rates_only_bindM:
  assumes "rates_only m" "\<And>x. rates_only (f x)" shows "rates_only (bindM m f)"
  unfolding rates_only_def
proof
  fix d
  obtain r d1 where m: "\<And>v. gw_rates v = d \<Longrightarrow> m v = (r, v\<lparr>gw_rates := d1\<rparr>)" using assms(1) unfolding rates_only_def by blast
  show "\<exists>r d'. \<forall>v. gw_rates v = d \<longrightarrow> bindM m f v = (r, v\<lparr>gw_rates := d'\<rparr>)"
  proof (cases r)
    case (Inl e)
    with m have "\<forall>v. gw_rates v = d \<longrightarrow> bindM m f v = (Inl e, v\<lparr>gw_rates := d1\<rparr>)" by (simp add: bindM_run)
    then show ?thesis by blast
  next
    case (Inr x)
    obtain q d2 where "\<And>v. gw_rates v = d1 \<Longrightarrow> f x v = (q, v\<lparr>gw_rates := d2\<rparr>)" using assms(2) [of x] unfolding rates_only_def by blast
    with m Inr have "\<forall>v. gw_rates v = d \<longrightarrow> bindM m f v = (q, v\<lparr>gw_rates := d2\<rparr>)" by (simp add: bindM_run)
    then show ?thesis by blast
  qed
qed

lemma rates_only_catchM:
  assumes "rates_only m" "\<And>e. rates_only (h e)" shows "rates_only (catchM m h)"
  unfolding rates_only_def
proof
  fix d
  obtain r d1 where m: "\<And>v. gw_rates v = d \<Longrightarrow> m v = (r, v\<lparr>gw_rates := d1\<rparr>)" using assms(1) unfolding rates_only_def by blast
  show "\<exists>r d'. \<forall>v. gw_rates v = d \<longrightarrow> catchM m h v = (r, v\<lparr>gw_rates := d'\<rparr>)"
  proof (cases r)
    case (Inr x)
    with m have "\<forall>v. gw_rates v = d \<longrightarrow> catchM m h v = (Inr x, v\<lparr>gw_rates := d1\<rparr>)" by (simp add: catchM_run)
    then show ?thesis by blast
  next
    case (Inl e)
    obtain q d2 where "\<And>v. gw_rates v = d1 \<Longrightarrow> h e v = (q, v\<lparr>gw_rates := d2\<rparr>)" using assms(2) [of e] unfolding rates_only_def by blast
    with m Inl have "\<forall>v. gw_rates v = d \<longrightarrow> catchM m h v = (q, v\<lparr>gw_rates := d2\<rparr>)" by (simp add: catchM_run)
    then show ?thesis by blast
  qed
qed

lemma rates_onlyD: "rates_only m \<Longrightarrow> gw_rates v = gw_rates w \<Longrightarrow> m w = (r, w1) \<Longrightarrow> w1 = w\<lparr>gw_rates := gw_rates w1\<rparr> \<and> m v = (r, v\<lparr>gw_rates := gw_rates w1\<rparr>)"
  unfolding rates_only_def by (metis (mono_tags, lifting) auth_world.select_convs(2) auth_world.surjective auth_world.update_convs(2) prod.inject)

lemma rates_only_gate: "rates_only (login_gate pf env rq)" "rates_only (login_failed pf d1 d2 env rq u)"
  unfolding login_gate_def login_failed_def
  by (intro rates_only_catchM rates_only_bindM rates_only_on_rates; rule rates_only_pure; simp add: liftM_run returnM_run)+

text \<open>The name is unknown or malformed, or the account is disabled, or the password does not derive to the stored value.\<close>

definition wrong_login :: "auth_platform \<Rightarrow> auth_request \<Rightarrow> auth_tables \<Rightarrow> bool" where
  "wrong_login pf rq t \<longleftrightarrow> (\<forall>name u. cleanUsername (jget (login_body rq) ''username'') = Inr name \<longrightarrow> user_by_name name t = Some u \<longrightarrow>
     uw_disabled u = 1 \<or> credentials_match pf (to_str (coalesce (jget (login_body rq) ''password'') (JStr []))) (Some u) \<noteq> Inr True)"

lemma wrong_attempt:
  assumes "quiet w" "la_hasDB env" "au_users (auth_now w) \<noteq> []" "wrong_login pf rq (auth_now w)"
  shows "\<exists>e. login_attempt pf env rq (jget (login_body rq) ''username'') w = (Inl e, w)"
proof -
  let ?name = "cleanUsername (jget (login_body rq) ''username'')"
  let ?pw = "to_str (coalesce (jget (login_body rq) ''password'') (JStr []))"
  define row where "row = (case ?name of Inl _ \<Rightarrow> None | Inr name \<Rightarrow> user_by_name name (auth_now w))"
  have boot: "bootstrapLocalAdmin pf env w = (Inr (False, length (au_users (auth_now w))), w)"
    using assms(1-3) by (simp add: bootstrapLocalAdmin_def userCount_def bindM_run auth_read_quiet returnM_run)
  have read: "(case ?name of Inl _ \<Rightarrow> returnM None | Inr username \<Rightarrow> auth_read env (user_by_name username)) w = (Inr row, w)"
    using assms(1,2) by (cases ?name) (simp_all add: row_def returnM_run auth_read_quiet)
  have wrong: "uw_disabled u = 1 \<or> credentials_match pf ?pw (Some u) \<noteq> Inr True" if "row = Some u" for u
    using that assms(4) by (cases ?name) (auto simp: row_def wrong_login_def)
  show ?thesis
  proof (cases row)
    case None
    then show ?thesis
      by (cases "credentials_match pf ?pw None")
        (simp_all add: login_attempt_def authenticateLocalUser_def bindM_run boot read liftM_run throwM_run)
  next
    case (Some u)
    with wrong [OF Some] show ?thesis
      by (cases "credentials_match pf ?pw (Some u)")
        (auto simp: login_attempt_def authenticateLocalUser_def bindM_run boot read liftM_run requireM_run)
  qed
qed

text \<open>C19: A login that is refused for its credentials is answered from the rate limiter alone: two portals whose accounts
  differ - the name unknown in one, its password wrong or the account disabled in the other - give the same
  answer when their limiters agree.\<close>

theorem refused_login_uniform:
  assumes "la_hasDB env" "quiet w" "quiet v" "gw_rates v = gw_rates w"
    and "au_users (auth_now w) \<noteq> []" "au_users (auth_now v) \<noteq> []"
    and "wrong_login pf rq (auth_now w)" "wrong_login pf rq (auth_now v)"
  shows "fst (handle_login pf draw1 draw2 env rq v) = fst (handle_login pf draw1 draw2 env rq w)"
proof -
  obtain g w1 where g: "login_gate pf env rq w = (g, w1)" by (cases "login_gate pf env rq w")
  from rates_onlyD [OF rates_only_gate(1) assms(4) g]
  have w1: "w1 = w\<lparr>gw_rates := gw_rates w1\<rparr>" and gv: "login_gate pf env rq v = (g, v\<lparr>gw_rates := gw_rates w1\<rparr>)" by auto
  show ?thesis
  proof (cases "\<exists>username. g = Inr (Inr username)")
    case False
    then show ?thesis by (cases g; cases "projr g") (auto simp: handle_login_def bindM_run g gv returnM_run)
  next
    case True
    then obtain username where u: "g = Inr (Inr username)" by blast
    with login_gate_passed g have name: "username = jget (login_body rq) ''username''" by (force simp: body_member_def split: if_splits)
    have q: "quiet w1" "auth_now w1 = auth_now w" by (subst w1, simp add: assms(2) quiet_def [of "_\<lparr>gw_rates := _\<rparr>"] auth_now_def quiet_def [symmetric])+
    obtain e where e: "login_attempt pf env rq username w1 = (Inl e, w1)"
      using wrong_attempt [of w1 env pf rq] assms(1,5,7) q name by auto
    have qv: "quiet (v\<lparr>gw_rates := gw_rates w1\<rparr>)" "auth_now (v\<lparr>gw_rates := gw_rates w1\<rparr>) = auth_now v"
      using assms(3) by (simp_all add: quiet_def auth_now_def)
    obtain e' where e': "login_attempt pf env rq username (v\<lparr>gw_rates := gw_rates w1\<rparr>) = (Inl e', v\<lparr>gw_rates := gw_rates w1\<rparr>)"
      using wrong_attempt [of "v\<lparr>gw_rates := gw_rates w1\<rparr>" env pf rq] assms(1,6,8) qv name by auto
    obtain r w2 where f: "login_failed pf draw1 draw2 env rq username w1 = (r, w2)" by (cases "login_failed pf draw1 draw2 env rq username w1")
    have "fst (login_failed pf draw1 draw2 env rq username (v\<lparr>gw_rates := gw_rates w1\<rparr>)) = r"
      using rates_onlyD [OF rates_only_gate(2) _ f, of "v\<lparr>gw_rates := gw_rates w1\<rparr>"] by simp
    with e e' f u g gv show ?thesis
      by (auto simp: handle_login_def bindM_run catchM_run split: sum.splits prod.splits)
  qed
qed

lemma refused_login_uniform_witness:
  "fst (handle_login sample_auth_platform 0 0 sample_auth_env sample_login (quiet_world \<lparr>au_users = [sample_user ''u2'' ''bert''], au_sessions = []\<rparr>))
     = fst (handle_login sample_auth_platform 0 0 sample_auth_env sample_login
         (quiet_world \<lparr>au_users = [(sample_user ''u1'' ''anna'')\<lparr>uw_disabled := 1\<rparr>], au_sessions = []\<rparr>))"
proof -
  let ?w = "quiet_world \<lparr>au_users = [(sample_user ''u1'' ''anna'')\<lparr>uw_disabled := 1\<rparr>], au_sessions = []\<rparr>"
  let ?v = "quiet_world \<lparr>au_users = [sample_user ''u2'' ''bert''], au_sessions = []\<rparr>"
  have db: "la_hasDB sample_auth_env" by code_simp
  have q: "quiet ?w" "quiet ?v" "gw_rates ?v = gw_rates ?w" by (simp_all add: quiet_def quiet_world_def)
  have name: "cleanUsername (jget (login_body sample_login) ''username'') = Inr ''anna''" by code_simp
  have "user_by_name ''anna'' (auth_now ?w) = Some ((sample_user ''u1'' ''anna'')\<lparr>uw_disabled := 1\<rparr>)" "user_by_name ''anna'' (auth_now ?v) = None"
    by (simp_all add: user_by_name_def sample_user_def)
  then have "wrong_login sample_auth_platform sample_login (auth_now ?w)" "wrong_login sample_auth_platform sample_login (auth_now ?v)"
    using name by (simp_all add: wrong_login_def)
  from refused_login_uniform [OF db q _ _ this] show ?thesis by simp
qed

section \<open>The life of a session\<close>

lemma num_le_int: "num_le (Num a) (Frac m k) \<longleftrightarrow> a * 10 ^ k \<le> m" "num_le (Frac m k) (Num a) \<longleftrightarrow> m \<le> a * 10 ^ k"
  "num_le (Num a) (Num b) \<longleftrightarrow> a \<le> b"
  by (auto simp: num_le_def num_cmp_def sgn_if)

lemma num_le_mk_frac: "num_le (Num a) (mk_frac m k) \<longleftrightarrow> a * 10 ^ k \<le> m" "num_le (mk_frac m k) (Num a) \<longleftrightarrow> m \<le> a * 10 ^ k"
proof (induction k arbitrary: m)
  case (Suc k)
  { case 1 show ?case
    proof (cases "m mod 10 = 0")
      case True
      then have "m = 10 * (m div 10)" by presburger
      with True Suc.IH(1) [of "m div 10"] show ?thesis by (simp, linarith)
    qed (simp add: num_le_int)
  next
    case 2 show ?case
    proof (cases "m mod 10 = 0")
      case True
      then have "m = 10 * (m div 10)" by presburger
      with True Suc.IH(2) [of "m div 10"] show ?thesis by (simp, linarith)
    qed (simp add: num_le_int) }
qed (simp_all add: num_le_int)

text \<open>A session lives between one hour and a week, whatever the configured text is: a text that is no number counts
  as twelve hours, and fractions of an hour are kept.\<close>

lemma session_ttl_bounds:
  "num_le (Num 3600000) (sessionTtlMs env) \<and> num_le (sessionTtlMs env) (Num 604800000)"
proof -
  have scaled: "num_le (Num (3600000 * a)) (num_scaled 3600000 n) \<and> num_le (num_scaled 3600000 n) (Num (3600000 * b))"
    if "num_le (Num a) n" "num_le n (Num b)" for a b n
  proof (cases n)
    case NaN
    with that show ?thesis by (simp add: num_le_def)
  qed (use that in \<open>simp_all add: num_scaled_def num_le_int num_le_mk_frac mult.assoc\<close>)
  define given where "given = (case la_ttlHours env of None \<Rightarrow> Num 12 | Some s \<Rightarrow> str_to_num s)"
  define hours where "hours = (if given = NaN then Num 12 else given)"
  define most where "most = (if num_le hours (Num 168) then hours else Num 168)"
  define n where "n = (if num_le (Num 1) most then most else Num 1)"
  have "num_le n (Num 168)" "num_le (Num 1) n"
    by (simp_all add: n_def most_def num_le_def num_cmp_def)
  from scaled [OF this(2,1)] show ?thesis
    unfolding sessionTtlMs_def Let_def given_def [symmetric] hours_def [symmetric] most_def [symmetric] n_def [symmetric] by simp
qed

end
