(* ===== verification/RoutingSafety.thy ===== *)
theory RoutingSafety
  imports LocalRouting LoginSafety
begin

text \<open>
  What the routing hands on: administrative identity is earned by an administrator's session or by the
  service token, the environment a handler is given is the whole of the session's account, and a caller's own token
  never reaches a handler together with a session.
\<close>

section \<open>Identity\<close>

text \<open>
  What one offer of the routing shows about the request. The environment is written out member by member:
  with a session mode, identity, name, role and assignments are those of the session alone.
\<close>

definition session_env :: "identity_env \<Rightarrow> local_session \<Rightarrow> string option \<Rightarrow> identity_env" where
  "session_env env s token = \<lparr>ie_mode = Some ''static'', ie_identity = Some (ls_identity s), ie_name = Some (ls_displayName s),
     ie_role = Some (role_name (ls_role s)), ie_rbac = Some (json_print (JObj [(ls_identity s, JStr (role_name (ls_role s)))])),
     ie_adminToken = token, ie_authorized = ie_authorized env\<rparr>"

definition service_env :: "identity_env \<Rightarrow> identity_env" where
  "service_env env = \<lparr>ie_mode = Some ''static'', ie_identity = Some SERVICE_IDENTITY, ie_name = Some ''Service administrator'',
     ie_role = Some ''admin'', ie_rbac = Some (json_print (JObj [(SERVICE_IDENTITY, JStr ''admin'')])),
     ie_adminToken = ie_adminToken env, ie_authorized = ie_authorized env\<rparr>"

definition earned ::
  "(string \<Rightarrow> i32 list) \<Rightarrow> (string \<Rightarrow> string option) \<Rightarrow> identity_env \<Rightarrow> auth_request \<Rightarrow> local_session option \<Rightarrow> forwarded \<Rightarrow> bool" where
  "earned digest url_origin env rq session f \<longleftrightarrow>
     (case session of
        Some s \<Rightarrow> f = \<lparr>fw_token = None, fw_env = session_env env s (ie_adminToken env)\<rparr>
          \<or> f = \<lparr>fw_token = Some (localAdminSessionToken s), fw_env = session_env env s (Some (localAdminSessionToken s))\<rparr>
            \<and> ls_role s = Admin \<and> isAdminIntegrationPath (aq_path rq) \<and> sameOriginAdminMutation url_origin (aq_http rq)
      | None \<Rightarrow> fw_token f = aq_header rq ''x-admin-token''
          \<and> (fw_env f = env\<lparr>ie_mode := Some ''anonymous'', ie_role := Some ''viewer''\<rparr> \<and> \<not> starts_with ''/api/'' (aq_path rq)
             \<or> fw_env f = service_env env \<and> isAdminIntegrationPath (aq_path rq)
               \<and> serviceAdminTokenAuthorized digest (aq_header rq ''x-admin-token'') (ie_adminToken env)))"

lemma anonymous_earned:
  "route_anonymous digest encode env rq search = Offered offers \<Longrightarrow> (h, f) \<in> set offers \<Longrightarrow> earned digest url_origin env rq None f"
  by (auto simp: route_anonymous_def Let_def all_handlers_def earned_def anonymousEnv_def serviceAdminEnv_def service_env_def split: if_splits)

lemma session_earned:
  "route_session url_origin env rq s = Offered offers \<Longrightarrow> (h, f) \<in> set offers \<Longrightarrow> earned digest url_origin env rq (Some s) f"
  by (auto simp: route_session_def Let_def all_handlers_def earned_def delegatedEnv_def session_env_def split: if_splits)

definition open_path :: "string \<Rightarrow> bool" where
  "open_path path \<longleftrightarrow> starts_with ''/api/auth/'' path \<or> path = ''/api/integrations/health''"

text \<open>C5: In local mode, whatever is handed to a handler behind the routing, the authentication endpoint and the health
  check apart, carries an identity that was earned. With a session, read valid from the tables, the whole
  environment of identity - mode, identity, name, role, assignments - is that of the session's account, the caller's own admin
  token is removed, and an internal token takes its place only for an administrator on an administrative path from the
  portal's origin. Without a session it is the environment of an anonymous viewer outside the API, or of the service
  administrator on an administrative path with the configured token.\<close>

theorem local_identity_earned:
  assumes "mode_is_local (ie_mode env)" "\<not> open_path (aq_path rq)" "env_follows R (gw_auth w)"
    and "handleLocalSecurityRouting digest encode url_origin pf auth_env env rq search w = (Inr (Offered offers), w')" "(h, f) \<in> set offers"
  shows "\<exists>session. resolveLocalSession pf auth_env (aq_cookie rq) w = (Inr session, w') \<and> earned digest url_origin env rq session f
    \<and> (\<forall>s. session = Some s \<longrightarrow> (\<exists>t. (or_bootstrapped R pf auth_env)\<^sup>*\<^sup>* (auth_now w) t \<and> valid_session pf (aq_cookie rq) s t))"
proof -
  from assms(1,2,4) obtain session where r: "resolveLocalSession pf auth_env (aq_cookie rq) w = (Inr session, w')"
    and o: "(case session of None \<Rightarrow> route_anonymous digest encode env rq search | Some s \<Rightarrow> route_session url_origin env rq s) = Offered offers"
    by (auto simp: handleLocalSecurityRouting_def open_path_def Let_def bindM_Inr_iff returnM_run)
  have "earned digest url_origin env rq session f"
    using o assms(5) anonymous_earned session_earned by (cases session) auto
  moreover have "\<exists>t. (or_bootstrapped R pf auth_env)\<^sup>*\<^sup>* (auth_now w) t \<and> valid_session pf (aq_cookie rq) s t" if "session = Some s" for s
    using resolution_valid [OF assms(3)] r that by blast
  ultimately show ?thesis using r by blast
qed

definition sample_identity_env :: identity_env where
  "sample_identity_env = \<lparr>ie_mode = Some ''local'', ie_identity = None, ie_name = None, ie_role = None, ie_rbac = None,
     ie_adminToken = Some ''service'', ie_authorized = None\<rparr>"

lemma local_identity_earned_witness:
  "\<exists>f session. earned (\<lambda>_. []) (\<lambda>_. None) sample_identity_env (sample_request ''/api/admin/storage/status'' ''GET'' []) session f
     \<and> fw_token f = Some ''local-session:u1:5000''"
proof -
  let ?rq = "sample_request ''/api/admin/storage/status'' ''GET'' []"
  let ?s = "session_value sample_session (sample_user ''u1'' ''anna'')"
  let ?f = "\<lparr>fw_token = Some ''local-session:u1:5000'', fw_env = delegatedEnv sample_identity_env ?s (Some ''local-session:u1:5000'')\<rparr>"
  obtain w' where q: "resolveLocalSession sample_auth_platform sample_auth_env sample_cookie (quiet_world sample_auth_tables) = (Inr (Some ?s), w')"
    using sample_resolves by (metis prod.collapse)
  have c: "aq_cookie ?rq = sample_cookie" by (simp add: aq_cookie_def sample_request_def)
  have tok: "localAdminSessionToken ?s = ''local-session:u1:5000''"
    by (simp add: localAdminSessionToken_def session_value_def sample_session_def int_to_str_def nat_to_str.simps digit_char_def, code_simp)
  have m: "mode_is_local (ie_mode sample_identity_env)" "\<not> starts_with ''/api/auth/'' (aq_path ?rq)" "aq_path ?rq \<noteq> ''/api/integrations/health''" by code_simp+
  have s: "route_session (\<lambda>_. None) sample_identity_env ?rq ?s = all_handlers ?f"
  proof -
    have "isAdminIntegrationPath (aq_path ?rq)" "sameOriginAdminMutation (\<lambda>_. None) (aq_http ?rq)" "aq_path ?rq \<noteq> ''/login''"
      "ls_role ?s = Admin" by code_simp+
    then show ?thesis by (simp add: route_session_def tok Let_def)
  qed
  have r: "handleLocalSecurityRouting (\<lambda>_. []) (\<lambda>x. x) (\<lambda>_. None) sample_auth_platform sample_auth_env sample_identity_env ?rq []
      (quiet_world sample_auth_tables) = (Inr (Offered [(PreflightHandler, ?f), (IntegrityHandler, ?f), (StatusHandler, ?f), (NextHandler, ?f)]), w')"
    by (simp add: handleLocalSecurityRouting_def m bindM_run c q returnM_run s all_handlers_def)
  from local_identity_earned [OF m(1) _ _ r, of "(=)" NextHandler ?f] m(2,3) show ?thesis by (force simp: open_path_def)
qed

end
