(* ===== verification/SecureContext.thy ===== *)
theory SecureContext
  imports PortalAccess LocalRouting
begin

text \<open>
  Whom a request is from when the portal has no accounts of its own: \<open>secureContext\<close> of
  \<open>worker/secure-entry.ts\<close> removes the identity headers of the caller, takes the identity from the platform,
  from a proxy that knows a secret or from the configuration, and makes everybody else a viewer. Headers
  are a function from lower-case names. The encoder and the decoder of percent-encoded text, the digest and
  the correlation id are arguments; setting a header to a value with a NUL throws.
\<close>

section \<open>Configuration and headers\<close>

type_synonym headers = "string \<Rightarrow> string option"

record secure_env =
  se_mode :: "string option"
  se_identityHeader :: "string option"
  se_nameHeader :: "string option"
  se_secretHeader :: "string option"
  se_sharedSecret :: "string option"
  se_staticIdentity :: "string option"
  se_staticName :: "string option"
  se_staticGroups :: "string option"
  se_groupsHeader :: "string option"
  se_groupsJson :: "string option"
  se_defaultRole :: "string option"
  se_rbac :: "string option"

datatype identity_mode = AnonymousMode | WorkspaceMode | ProxyMode | StaticMode

definition identityMode :: "string option \<Rightarrow> identity_mode" where
  "identityMode v =
     (if v = Some ''workspace'' then WorkspaceMode else if v = Some ''proxy'' then ProxyMode
      else if v = Some ''static'' then StaticMode else AnonymousMode)"

fun identity_mode_name :: "identity_mode \<Rightarrow> string" where
  "identity_mode_name AnonymousMode = ''anonymous''"
| "identity_mode_name WorkspaceMode = ''workspace''"
| "identity_mode_name ProxyMode = ''proxy''"
| "identity_mode_name StaticMode = ''static''"

text \<open>\<open>/^[a-z0-9][a-z0-9-]{0,126}$/\<close>\<close>

definition header_name :: "string \<Rightarrow> bool" where
  "header_name s = (case s of
      [] \<Rightarrow> False
    | c # cs \<Rightarrow> (is_lower c \<or> is_digit c) \<and> length cs \<le> 126 \<and> list_all (\<lambda>d. is_lower d \<or> is_digit d \<or> d = CHR ''-'') cs)"

definition safeHeaderName :: "string option \<Rightarrow> string \<Rightarrow> string" where
  "safeHeaderName v fallback = (let n = js_lower (js_trim (opt_text v [])) in if header_name n then n else fallback)"

definition is_ctrl :: "char \<Rightarrow> bool" where
  "is_ctrl c \<longleftrightarrow> code c < 32 \<or> code c = (127 :: nat)"

definition normalizedIdentity_secure :: "string option \<Rightarrow> string option" where
  "normalizedIdentity_secure v =
     (let n = js_lower (js_trim (opt_text v [])) in
      if n = [] \<or> 160 < length n \<or> CHR ''@'' \<notin> set n \<or> list_ex (\<lambda>c. is_space c \<or> c = CHR '','' \<or> is_ctrl c) n then None else Some n)"

definition normalizedName :: "string option \<Rightarrow> string option" where
  "normalizedName v =
     (let n = js_trim (opt_text v []) in if n = [] \<or> 160 < length n \<or> list_ex is_ctrl n then None else Some n)"

definition normalizedGroups_secure :: "string option \<Rightarrow> string list" where
  "normalizedGroups_secure v =
     take 100 (uniq (filter group_ok (map (\<lambda>s. js_lower (js_trim s))
       (js_split (CHR '','') (map (\<lambda>c. if c = CHR '';'' then CHR '','' else c) (opt_text v []))))))"

definition mappedGroups :: "string \<Rightarrow> string option \<Rightarrow> string list" where
  "mappedGroups identity v =
     (if opt_text v [] = [] then []
      else (case json_parse (opt_text v []) of
          Some (JObj ps) \<Rightarrow>
            (let entries = normalized_assignments ps;
                 selected = coalesce (jget entries identity) (jget entries ''*'')
             in (case selected of
                   JArr xs \<Rightarrow> normalizedGroups_secure (Some (js_join '','' (map to_str xs)))
                 | _ \<Rightarrow> normalizedGroups_secure (Some (to_str (coalesce selected (JStr []))))))
        | _ \<Rightarrow> []))"

text \<open>The assignments an unidentified request is left with.\<close>

definition anonymousRbac :: "string option \<Rightarrow> string" where
  "anonymousRbac v =
     (if opt_text v [] = [] then ''{}''
      else (case json_parse (opt_text v []) of
          Some (JObj ps) \<Rightarrow> json_print (JObj (filter (\<lambda>(k, _). normalize_key k \<notin> set [''*'', ''portal-user'', ''anonymous'']) ps))
        | _ \<Rightarrow> ''{}''))"

definition EMAIL_HEADER :: string where "EMAIL_HEADER = ''oai-authenticated-user-email''"

definition requestRole :: "headers \<Rightarrow> string option \<Rightarrow> string option \<Rightarrow> portal_role" where
  "requestRole headers defaultRole rbac =
     (let identity = js_lower (js_trim (opt_text (headers EMAIL_HEADER) ''portal-user''));
          role = (case parse_role (js_lower (js_trim (opt_text defaultRole []))) of Some r \<Rightarrow> r | None \<Rightarrow> Viewer)
      in if opt_text rbac [] = [] then role
         else (case json_parse (opt_text rbac []) of
             Some (JObj ps) \<Rightarrow>
               (let entries = normalized_assignments ps in
                case isPortalRole (jget entries identity) of
                  Some r \<Rightarrow> r
                | None \<Rightarrow> (case isPortalRole (jget entries ''*'') of Some r \<Rightarrow> r | None \<Rightarrow> role))
           | _ \<Rightarrow> role))"

section \<open>The secured request\<close>

definition IDENTITY_HEADERS :: "string list" where
  "IDENTITY_HEADERS = [EMAIL_HEADER, ''oai-authenticated-user-full-name'', ''oai-authenticated-user-full-name-encoding'',
     ''oai-authenticated-user-groups'']"

definition without_headers :: "string list \<Rightarrow> headers \<Rightarrow> headers" where
  "without_headers ks h = (\<lambda>k. if k \<in> set ks then None else h k)"

definition set_header :: "string \<Rightarrow> string \<Rightarrow> headers \<Rightarrow> string + headers" where
  "set_header k v h = (if CHR 0x00 \<in> set v then Inl ''Invalid header value'' else Inr (h(k := Some v)))"

text \<open>What a mode knows of the caller: identity, display name and groups, and the headers that go on.\<close>

type_synonym claim = "string option \<times> string option \<times> string list"

definition claimed_identity ::
  "(string \<Rightarrow> i32 list) \<Rightarrow> (string \<Rightarrow> string option) \<Rightarrow> secure_env \<Rightarrow> headers \<Rightarrow> headers \<Rightarrow> claim \<times> headers" where
  "claimed_identity digest decode env given h = (case identityMode (se_mode env) of
      WorkspaceMode \<Rightarrow>
        ((normalizedIdentity_secure (given EMAIL_HEADER),
          (if given ''oai-authenticated-user-full-name-encoding'' = Some ''percent-encoded-utf-8''
              \<and> opt_text (given ''oai-authenticated-user-full-name'') [] \<noteq> []
           then (case decode (opt_text (given ''oai-authenticated-user-full-name'') []) of
               Some n \<Rightarrow> normalizedName (Some n) | None \<Rightarrow> None)
           else None), []), h)
    | ProxyMode \<Rightarrow>
        (let identityHeader = safeHeaderName (se_identityHeader env) ''x-auth-request-email'';
             nameHeader = safeHeaderName (se_nameHeader env) ''x-auth-request-user'';
             groupsHeader = safeHeaderName (se_groupsHeader env) ''x-auth-request-groups'';
             secretHeader = safeHeaderName (se_secretHeader env) ''x-portal-proxy-secret'';
             trusted = secretsMatch digest (h secretHeader) (se_sharedSecret env)
         in ((if trusted then (normalizedIdentity_secure (h identityHeader), normalizedName (h nameHeader), normalizedGroups_secure (h groupsHeader))
              else (None, None, [])),
             without_headers [identityHeader, nameHeader, groupsHeader, secretHeader] h))
    | StaticMode \<Rightarrow>
        ((normalizedIdentity_secure (se_staticIdentity env), normalizedName (se_staticName env), normalizedGroups_secure (se_staticGroups env)), h)
    | AnonymousMode \<Rightarrow> ((None, None, []), h))"

text \<open>The headers the workers read the identity from.\<close>

definition identity_headers :: "(string \<Rightarrow> string) \<Rightarrow> secure_env \<Rightarrow> claim \<Rightarrow> headers \<Rightarrow> string + string list \<times> headers" where
  "identity_headers encode env c h = (case c of (identity, displayName, groups) \<Rightarrow>
     bindE (case identity of
         None \<Rightarrow> Inr (groups, h)
       | Some i \<Rightarrow>
           (let all = take 100 (uniq (groups @ mappedGroups i (se_groupsJson env))) in
            bindE (set_header EMAIL_HEADER i h) (\<lambda>h1.
            bindE (if all \<noteq> [] then set_header ''oai-authenticated-user-groups'' (js_join '','' all) h1 else Inr h1) (\<lambda>h2.
            Inr (all, h2))))) (\<lambda>(all, h3).
     case displayName of
       None \<Rightarrow> Inr (all, h3)
     | Some n \<Rightarrow>
         bindE (set_header ''oai-authenticated-user-full-name'' (encode n) h3) (\<lambda>h4.
         bindE (set_header ''oai-authenticated-user-full-name-encoding'' ''percent-encoded-utf-8'' h4) (\<lambda>h5.
         Inr (all, h5)))))"

record secured =
  sc_headers :: headers
  sc_defaultRole :: string
  sc_rbac :: "string option"
  sc_context :: "request_context option"

definition secureContext ::
  "(string \<Rightarrow> i32 list) \<Rightarrow> (string \<Rightarrow> string option) \<Rightarrow> (string \<Rightarrow> string) \<Rightarrow> string \<Rightarrow> secure_env \<Rightarrow> headers \<Rightarrow> string + secured" where
  "secureContext digest decode encode correlationId env given =
     (let (c, h) = claimed_identity digest decode env given (without_headers IDENTITY_HEADERS given) in
      bindE (identity_headers encode env c h) (\<lambda>(groups, headers).
      let trimmed = js_trim (opt_text (se_defaultRole env) []);
          defaultRole = (if fst c = None then ''viewer'' else if trimmed = [] then ''viewer'' else trimmed);
          rbac = (if fst c = None then Some (anonymousRbac (se_rbac env)) else se_rbac env)
      in bindE (case fst c of
           None \<Rightarrow> Inr None
         | Some i \<Rightarrow> bindE (createPortalRequestContext \<lparr>ci_correlationId = JStr correlationId, ci_identity = JStr i,
               ci_role = JStr (role_name (requestRole headers (Some defaultRole) rbac)), ci_groups = Items (map JStr groups),
               ci_permissions = Absent, ci_authMode = JStr (identity_mode_name (identityMode (se_mode env)))\<rparr>) (\<lambda>x. Inr (Some x)))
         (\<lambda>context. Inr \<lparr>sc_headers = headers, sc_defaultRole = defaultRole, sc_rbac = rbac, sc_context = context\<rparr>)))"

section \<open>What the headers of the caller are worth\<close>

lemma without_headers_cong: "(\<And>k. k \<notin> set ks \<Longrightarrow> h k = g k) \<Longrightarrow> without_headers ks h = without_headers ks g"
  by (auto simp: without_headers_def)

lemma claimed_untrusted:
  "identityMode (se_mode env) \<noteq> WorkspaceMode \<Longrightarrow> claimed_identity digest decode env g h = claimed_identity digest decode env g' h"
  by (simp add: claimed_identity_def split: identity_mode.splits)

text \<open>C29: Outside workspace mode nothing depends on the identity headers a caller sends: two requests that differ in
  them only become the same secured request, or fail in the same way.\<close>

theorem identity_headers_ignored:
  assumes "identityMode (se_mode env) \<noteq> WorkspaceMode" "\<And>k. k \<notin> set IDENTITY_HEADERS \<Longrightarrow> h k = g k"
  shows "secureContext digest decode encode cor env h = secureContext digest decode encode cor env g"
proof -
  have "without_headers IDENTITY_HEADERS h = without_headers IDENTITY_HEADERS g" by (rule without_headers_cong) (rule assms(2))
  then show ?thesis
    unfolding secureContext_def using claimed_untrusted [OF assms(1), of digest decode h _ g] by simp
qed

lemma identity_headers_ignored_witness:
  "secureContext (\<lambda>_. []) (\<lambda>_. None) (\<lambda>x. x) ''c''
      \<lparr>se_mode = None, se_identityHeader = None, se_nameHeader = None, se_secretHeader = None, se_sharedSecret = None,
       se_staticIdentity = None, se_staticName = None, se_staticGroups = None, se_groupsHeader = None, se_groupsJson = None,
       se_defaultRole = Some ''admin'', se_rbac = None\<rparr> [EMAIL_HEADER \<mapsto> ''a@b'']
   = secureContext (\<lambda>_. []) (\<lambda>_. None) (\<lambda>x. x) ''c''
      \<lparr>se_mode = None, se_identityHeader = None, se_nameHeader = None, se_secretHeader = None, se_sharedSecret = None,
       se_staticIdentity = None, se_staticName = None, se_staticGroups = None, se_groupsHeader = None, se_groupsJson = None,
       se_defaultRole = Some ''admin'', se_rbac = None\<rparr> Map.empty"
  by (rule identity_headers_ignored) (simp_all add: identityMode_def IDENTITY_HEADERS_def)

lemma set_header_Inr: "set_header k v h = Inr g \<Longrightarrow> g = h(k \<mapsto> v)"
  by (auto simp: set_header_def split: if_splits)

lemma unidentified_headers:
  assumes "identity_headers encode env (None, n, gs) h = Inr (all, g)" "h EMAIL_HEADER = None"
  shows "g EMAIL_HEADER = None"
  using assms by (auto simp: identity_headers_def EMAIL_HEADER_def dest!: set_header_Inr split: option.splits)

lemma claimed_email: "h EMAIL_HEADER = None \<Longrightarrow> snd (claimed_identity digest decode env g h) EMAIL_HEADER = None"
  by (auto simp: claimed_identity_def without_headers_def Let_def split: identity_mode.splits)

lemma json_plain_filter: "json_plain (JObj ps) \<Longrightarrow> json_plain (JObj (filter P ps))"
  by (induction ps) (auto simp: list_all_iff)

lemma anonymous_assignments:
  assumes "\<And>ps. json_parse (opt_text v []) = Some (JObj ps) \<Longrightarrow> json_plain (JObj ps)"
  shows "\<exists>ps. json_parse (anonymousRbac v) = Some (JObj ps) \<and> (\<forall>x \<in> set [''*'', ''portal-user'', ''anonymous'']. assigned_role ps x = None)"
proof -
  have empty: "\<exists>ps. json_parse ''{}'' = Some (JObj ps) \<and> (\<forall>x \<in> set [''*'', ''portal-user'', ''anonymous'']. assigned_role ps x = None)"
  proof -
    have "json_parse ''{}'' = Some (JObj [])" by code_simp
    then show ?thesis by (auto simp: assigned_role_def)
  qed
  show ?thesis
  proof (cases "opt_text v [] = [] \<or> (\<forall>ps. json_parse (opt_text v []) \<noteq> Some (JObj ps))")
    case True
    then have "anonymousRbac v = ''{}''" by (auto simp: anonymousRbac_def split: option.splits js.splits)
    with empty show ?thesis by simp
  next
    case False
    then obtain ps where p: "json_parse (opt_text v []) = Some (JObj ps)" "opt_text v [] \<noteq> []" by blast
    let ?qs = "filter (\<lambda>(k, _). normalize_key k \<notin> set [''*'', ''portal-user'', ''anonymous'']) ps"
    from p have "anonymousRbac v = json_print (JObj ?qs)" by (simp add: anonymousRbac_def)
    moreover have "json_parse (json_print (JObj ?qs)) = Some (JObj ?qs)"
      by (rule json_parse_print, rule json_plain_filter, rule assms [OF p(1)])
    moreover have "assigned_role ?qs x = None" if "x \<in> set [''*'', ''portal-user'', ''anonymous'']" for x
    proof -
      have "find (\<lambda>(k, v). normalize_key k = x) (rev ?qs) = None" using that by (auto simp: find_None_iff)
      then show ?thesis by (simp add: assigned_role_def)
    qed
    ultimately show ?thesis by auto
  qed
qed

lemma anonymous_viewer:
  assumes "\<And>ps. json_parse (opt_text v []) = Some (JObj ps) \<Longrightarrow> json_plain (JObj ps)"
  shows "resolvePortalRole ''portal-user'' (JStr ''viewer'') (Some (anonymousRbac v)) f = Viewer"
proof -
  from anonymous_assignments [OF assms] obtain ps where p: "json_parse (anonymousRbac v) = Some (JObj ps)"
    and a: "assigned_role ps ''*'' = None" "assigned_role ps ''portal-user'' = None" by auto
  have n: "normalize_key ''portal-user'' = ''portal-user''" by code_simp
  have "normalize_key (to_str (coalesce (JStr ''viewer'') (JStr []))) = ''viewer''" by code_simp
  then have d: "resolvePortalRole ''portal-user'' (JStr ''viewer'') None f = Viewer"
    by (simp add: resolvePortalRole_def parse_role_def)
  show ?thesis
  proof (cases "anonymousRbac v = []")
    case True
    with d show ?thesis by (simp add: resolvePortalRole_def)
  next
    case False
    from resolvePortalRole_assigned [OF p False] a n d show ?thesis by simp
  qed
qed

text \<open>C30: A request nobody vouches for is a viewer, whatever the default role and the assignments of the
  configuration are: also assignments to \<open>*\<close> and to the name of unidentified users are taken away. The assignments
  are assumed to hold no fractional numbers, which the model of printing does not read back.\<close>

theorem unidentified_is_viewer:
  assumes "secureContext digest decode encode cor env h = Inr s" "sc_context s = None"
    and "\<And>ps. json_parse (opt_text (se_rbac env) []) = Some (JObj ps) \<Longrightarrow> json_plain (JObj ps)"
  shows "let a = portalAccess (sc_headers s) (JStr (sc_defaultRole s)) (sc_rbac s)
    in px_identity a = ''portal-user'' \<and> px_role a = Viewer \<and> px_permissions a = [DirectoryRead]"
proof -
  obtain i n gs h1 where c: "claimed_identity digest decode env h (without_headers IDENTITY_HEADERS h) = ((i, n, gs), h1)"
    by (metis prod.collapse)
  have e: "h1 EMAIL_HEADER = None"
    using claimed_email [of "without_headers IDENTITY_HEADERS h" digest decode env h] c
    by (simp add: without_headers_def IDENTITY_HEADERS_def)
  from assms(1,2) c have i: "i = None" by (auto simp: secureContext_def Let_def split: option.splits)
  with assms(1) c obtain all where "identity_headers encode env (None, n, gs) h1 = Inr (all, sc_headers s)"
      "sc_defaultRole s = ''viewer''" "sc_rbac s = Some (anonymousRbac (se_rbac env))"
    by (auto simp: secureContext_def Let_def)
  with unidentified_headers e have "sc_headers s EMAIL_HEADER = None" by blast
  then have "header_or (sc_headers s) ''oai-authenticated-user-email'' ''portal-user'' = ''portal-user''"
    by (simp add: header_or_def EMAIL_HEADER_def)
  moreover have "take 160 (js_lower (js_trim ''portal-user'')) = ''portal-user''" by code_simp
  ultimately show ?thesis
    using anonymous_viewer [of "se_rbac env" Admin, OF assms(3)] \<open>sc_defaultRole s = _\<close> \<open>sc_rbac s = _\<close>
    by (simp add: portalAccess_def Let_def)
qed

definition sample_secure_env :: secure_env where
  "sample_secure_env = \<lparr>se_mode = None, se_identityHeader = None, se_nameHeader = None, se_secretHeader = None, se_sharedSecret = None,
     se_staticIdentity = None, se_staticName = None, se_staticGroups = None, se_groupsHeader = None, se_groupsJson = None,
     se_defaultRole = Some ''admin'', se_rbac = Some (json_print (JObj [(''*'', JStr ''admin'')]))\<rparr>"

lemma unidentified_is_viewer_witness:
  "\<exists>s. secureContext (\<lambda>_. []) (\<lambda>_. None) (\<lambda>x. x) ''c'' sample_secure_env [EMAIL_HEADER \<mapsto> ''boss@corp''] = Inr s
     \<and> px_role (portalAccess (sc_headers s) (JStr (sc_defaultRole s)) (sc_rbac s)) = Viewer"
proof -
  let ?s = "\<lparr>sc_headers = without_headers IDENTITY_HEADERS [EMAIL_HEADER \<mapsto> ''boss@corp''], sc_defaultRole = ''viewer'',
     sc_rbac = Some (anonymousRbac (se_rbac sample_secure_env)), sc_context = None\<rparr>"
  have s: "secureContext (\<lambda>_. []) (\<lambda>_. None) (\<lambda>x. x) ''c'' sample_secure_env [EMAIL_HEADER \<mapsto> ''boss@corp''] = Inr ?s"
    by (simp add: secureContext_def claimed_identity_def identity_headers_def identityMode_def sample_secure_env_def)
  have p: "json_parse (opt_text (se_rbac sample_secure_env) []) = Some (JObj [(''*'', JStr ''admin'')])" by code_simp
  from unidentified_is_viewer [OF s] p s show ?thesis by (simp add: Let_def)
qed

end
