(* ===== verification/BackupAccess.thy ===== *)
theory BackupAccess
  imports SecureContext
begin

text \<open>
  Who reaches the routes in front of the local security routing: \<open>worker/security-composition.ts\<close> hands a
  request that has passed the gates to \<open>worker/maintenance-control-root-entry.ts\<close>, which offers it to the
  control of maintenance (\<open>maintenance-control-dispatch.ts\<close>) and then, in
  \<open>worker/backup-selective-restore-root-entry.ts\<close>, to the routes of the backups
  (\<open>backup-selective-restore-dispatch.ts\<close>, \<open>backup-encrypted-root-entry.ts\<close>, \<open>backup-import-preview-root-entry.ts\<close>);
  only what none of them takes goes on to the sessions. The handlers are named.
\<close>

section \<open>The identity these routes go by\<close>

record backup_access =
  ba_identity :: string
  ba_role :: portal_role
  ba_groups :: "string list"

definition portalIdentity :: "headers \<Rightarrow> identity_env \<Rightarrow> string" where
  "portalIdentity headers env =
     (let mode = js_lower (js_trim (opt_text (ie_mode env) []));
          configured = (if mode = ''static'' then opt_text (ie_identity env) [] else [])
      in take 160 (js_lower (js_trim (if configured \<noteq> [] then configured else header_or headers EMAIL_HEADER ''portal-user''))))"

definition encryptedBackupAccess :: "headers \<Rightarrow> identity_env \<Rightarrow> backup_access" where
  "encryptedBackupAccess headers env =
     (let identity = portalIdentity headers env in
      \<lparr>ba_identity = identity,
       ba_role = resolvePortalRole identity (case ie_role env of None \<Rightarrow> JUndef | Some r \<Rightarrow> JStr r) (ie_rbac env) Admin,
       ba_groups = take 100 (uniq (filter group_ok (map (\<lambda>v. js_lower (js_trim v))
         (js_split (CHR '','') (opt_text (headers ''oai-authenticated-user-groups'') [])))))\<rparr>)"

text \<open>\<open>backupPreviewAccess\<close> is the same reading; what it lists of the permissions is the one its route asks for.\<close>

definition backupPreviewAccess :: "headers \<Rightarrow> identity_env \<Rightarrow> backup_access \<times> portal_permission list" where
  "backupPreviewAccess headers env =
     (let access = encryptedBackupAccess headers env in
      (access, if roleHasPermission (ba_role access) BackupRestorePreview then [BackupRestorePreview] else []))"

section \<open>Dispatch\<close>

datatype dispatch_target =
    MaintenanceSmoke | MaintenanceControl | SelectiveRestore | EncryptedExport | EncryptedTestRestore | EncryptedPreview | ImportPreview

datatype dispatched = DispatchDenied string portal_role | DispatchTo dispatch_target backup_access

definition MAINTENANCE_VERIFICATION_SMOKE_PATH :: string where
  "MAINTENANCE_VERIFICATION_SMOKE_PATH = ''/api/admin/maintenance/verification/smoke''"

definition handleMaintenanceControlRoute :: "headers \<Rightarrow> identity_env \<Rightarrow> string \<Rightarrow> dispatched option" where
  "handleMaintenanceControlRoute headers env path =
     (let smoke = (path = MAINTENANCE_VERIFICATION_SMOKE_PATH); access = encryptedBackupAccess headers env in
      if \<not> smoke \<and> path \<notin> set MAINTENANCE_CONTROL_PATHS then None
      else if ba_role access \<noteq> Admin then Some (DispatchDenied ''maintenance.manage'' (ba_role access))
      else if smoke \<and> ie_authorized env \<noteq> Some ''1'' then Some (DispatchDenied ''maintenance.verify.service-admin'' (ba_role access))
      else Some (DispatchTo (if smoke then MaintenanceSmoke else MaintenanceControl) access))"

definition SELECTIVE_RESTORE_PREPARE_PATH :: string where
  "SELECTIVE_RESTORE_PREPARE_PATH = ''/api/admin/backups/import/encrypted/prepare-commit''"

definition SELECTIVE_RESTORE_COMMIT_PATH :: string where
  "SELECTIVE_RESTORE_COMMIT_PATH = ''/api/admin/backups/import/encrypted/commit''"

definition SELECTIVE_RESTORE_CANCEL_PATH :: string where
  "SELECTIVE_RESTORE_CANCEL_PATH = ''/api/admin/backups/import/encrypted/cancel''"

definition handleSelectiveBackupRoute :: "headers \<Rightarrow> identity_env \<Rightarrow> string \<Rightarrow> dispatched option" where
  "handleSelectiveBackupRoute headers env path =
     (if path \<notin> set [SELECTIVE_RESTORE_PREPARE_PATH, SELECTIVE_RESTORE_COMMIT_PATH, SELECTIVE_RESTORE_CANCEL_PATH] then None
      else (let access = encryptedBackupAccess headers env;
                required = (if path = SELECTIVE_RESTORE_PREPARE_PATH then ''backup.restore.prepare''
                  else if path = SELECTIVE_RESTORE_COMMIT_PATH then ''backup.restore.commit'' else ''backup.restore.cancel'')
            in Some (if ba_role access \<noteq> Admin then DispatchDenied required (ba_role access) else DispatchTo SelectiveRestore access)))"

definition ENCRYPTED_EXPORT_PATH :: string where "ENCRYPTED_EXPORT_PATH = ''/api/admin/backups/export/encrypted''"
definition ENCRYPTED_PREVIEW_PATH :: string where "ENCRYPTED_PREVIEW_PATH = ''/api/admin/backups/import/encrypted/preview''"
definition ENCRYPTED_TEST_PATH :: string where "ENCRYPTED_TEST_PATH = ''/api/admin/backups/import/encrypted/test-restore''"

definition handleEncryptedBackupRoute :: "headers \<Rightarrow> identity_env \<Rightarrow> string \<Rightarrow> dispatched option" where
  "handleEncryptedBackupRoute headers env path =
     (if path \<notin> set [ENCRYPTED_EXPORT_PATH, ENCRYPTED_PREVIEW_PATH, ENCRYPTED_TEST_PATH] then None
      else (let access = encryptedBackupAccess headers env;
                required = (if path = ENCRYPTED_EXPORT_PATH then BackupExportEncrypted
                  else if path = ENCRYPTED_TEST_PATH then BackupRestoreTest else BackupRestorePreview)
            in Some (if \<not> roleHasPermission (ba_role access) required then DispatchDenied (permission_name required) (ba_role access)
              else DispatchTo (if path = ENCRYPTED_EXPORT_PATH then EncryptedExport
                else if path = ENCRYPTED_TEST_PATH then EncryptedTestRestore else EncryptedPreview) access)))"

definition handleBackupImportPreviewRoute :: "headers \<Rightarrow> identity_env \<Rightarrow> string \<Rightarrow> dispatched option" where
  "handleBackupImportPreviewRoute headers env path =
     (if path \<noteq> ''/api/admin/backups/import/preview'' then None
      else (let (access, permissions) = backupPreviewAccess headers env in
        Some (if BackupRestorePreview \<notin> set permissions then DispatchDenied ''backup.restore.preview'' (ba_role access)
          else DispatchTo ImportPreview access)))"

text \<open>The two root entries, one inside the other; None is what goes on to the sessions.\<close>

definition first_of :: "'a option \<Rightarrow> 'a option \<Rightarrow> 'a option" where
  "first_of a b = (case a of None \<Rightarrow> b | Some x \<Rightarrow> Some x)"

definition backupRootRuntime :: "headers \<Rightarrow> identity_env \<Rightarrow> string \<Rightarrow> dispatched option" where
  "backupRootRuntime headers env path =
     first_of (handleSelectiveBackupRoute headers env path)
       (first_of (handleEncryptedBackupRoute headers env path) (handleBackupImportPreviewRoute headers env path))"

definition compatibilityRuntime :: "headers \<Rightarrow> identity_env \<Rightarrow> string \<Rightarrow> dispatched option" where
  "compatibilityRuntime headers env path =
     first_of (handleMaintenanceControlRoute headers env path) (backupRootRuntime headers env path)"

text \<open>What follows the gate of maintenance in \<open>securityComposition\<close>.\<close>

definition behindMaintenance :: "(string \<Rightarrow> i32 list) \<Rightarrow> identity_env \<Rightarrow> auth_request \<Rightarrow> dispatched option" where
  "behindMaintenance digest env rq =
     compatibilityRuntime (aq_header rq) (fw_env (handleServiceAdminAuthenticationGate digest env rq)) (aq_path rq)"

section \<open>Theorems\<close>

lemma first_of_Some: "first_of a b = Some x \<longleftrightarrow> a = Some x \<or> a = None \<and> b = Some x"
  by (cases a) (auto simp: first_of_def)

lemma admin_only: "roleHasPermission r p \<and> p \<in> {BackupExportEncrypted, BackupRestoreTest, BackupRestorePreview} \<longleftrightarrow>
    r = Admin \<and> p \<in> {BackupExportEncrypted, BackupRestoreTest, BackupRestorePreview}"
  by (cases r) (auto simp: roleHasPermission_def)

lemma admin_permissions: "roleHasPermission r BackupExportEncrypted \<longleftrightarrow> r = Admin" "roleHasPermission r BackupRestoreTest \<longleftrightarrow> r = Admin"
  "roleHasPermission r BackupRestorePreview \<longleftrightarrow> r = Admin"
  using admin_only [of r] by blast+

text \<open>Every path these routes take, with the handler it leads to.\<close>

definition dispatch_table :: "(string \<times> dispatch_target) list" where
  "dispatch_table = (MAINTENANCE_VERIFICATION_SMOKE_PATH, MaintenanceSmoke) # map (\<lambda>p. (p, MaintenanceControl)) MAINTENANCE_CONTROL_PATHS
     @ map (\<lambda>p. (p, SelectiveRestore)) [SELECTIVE_RESTORE_PREPARE_PATH, SELECTIVE_RESTORE_COMMIT_PATH, SELECTIVE_RESTORE_CANCEL_PATH]
     @ [(ENCRYPTED_EXPORT_PATH, EncryptedExport), (ENCRYPTED_TEST_PATH, EncryptedTestRestore), (ENCRYPTED_PREVIEW_PATH, EncryptedPreview),
        (''/api/admin/backups/import/preview'', ImportPreview)]"

lemma maintenance_goes: "handleMaintenanceControlRoute h env path = Some (DispatchTo goal a) \<longleftrightarrow>
    a = encryptedBackupAccess h env \<and> ba_role a = Admin
    \<and> (path = MAINTENANCE_VERIFICATION_SMOKE_PATH \<and> goal = MaintenanceSmoke \<and> ie_authorized env = Some ''1''
       \<or> path \<noteq> MAINTENANCE_VERIFICATION_SMOKE_PATH \<and> path \<in> set MAINTENANCE_CONTROL_PATHS \<and> goal = MaintenanceControl)"
  by (auto simp: handleMaintenanceControlRoute_def Let_def)

definition backup_table :: "(string \<times> dispatch_target) set" where
  "backup_table = {(SELECTIVE_RESTORE_PREPARE_PATH, SelectiveRestore), (SELECTIVE_RESTORE_COMMIT_PATH, SelectiveRestore),
     (SELECTIVE_RESTORE_CANCEL_PATH, SelectiveRestore), (ENCRYPTED_EXPORT_PATH, EncryptedExport), (ENCRYPTED_TEST_PATH, EncryptedTestRestore),
     (ENCRYPTED_PREVIEW_PATH, EncryptedPreview), (''/api/admin/backups/import/preview'', ImportPreview)}"

lemma paths_apart: "distinct [SELECTIVE_RESTORE_PREPARE_PATH, SELECTIVE_RESTORE_COMMIT_PATH, SELECTIVE_RESTORE_CANCEL_PATH, ENCRYPTED_EXPORT_PATH,
    ENCRYPTED_TEST_PATH, ENCRYPTED_PREVIEW_PATH, ''/api/admin/backups/import/preview'']"
  by code_simp

lemma selective_goes: "handleSelectiveBackupRoute h env path = Some (DispatchTo goal a) \<longleftrightarrow>
    path \<in> {SELECTIVE_RESTORE_PREPARE_PATH, SELECTIVE_RESTORE_COMMIT_PATH, SELECTIVE_RESTORE_CANCEL_PATH}
    \<and> a = encryptedBackupAccess h env \<and> ba_role a = Admin \<and> goal = SelectiveRestore"
  "handleSelectiveBackupRoute h env path = None \<longleftrightarrow>
    path \<notin> {SELECTIVE_RESTORE_PREPARE_PATH, SELECTIVE_RESTORE_COMMIT_PATH, SELECTIVE_RESTORE_CANCEL_PATH}"
  by (auto simp: handleSelectiveBackupRoute_def Let_def)

lemma encrypted_goes: "handleEncryptedBackupRoute h env path = Some (DispatchTo goal a) \<longleftrightarrow>
    path \<in> {ENCRYPTED_EXPORT_PATH, ENCRYPTED_PREVIEW_PATH, ENCRYPTED_TEST_PATH} \<and> a = encryptedBackupAccess h env \<and> ba_role a = Admin
    \<and> goal = (if path = ENCRYPTED_EXPORT_PATH then EncryptedExport else if path = ENCRYPTED_TEST_PATH then EncryptedTestRestore else EncryptedPreview)"
  "handleEncryptedBackupRoute h env path = None \<longleftrightarrow> path \<notin> {ENCRYPTED_EXPORT_PATH, ENCRYPTED_PREVIEW_PATH, ENCRYPTED_TEST_PATH}"
  by (auto simp: handleEncryptedBackupRoute_def Let_def admin_permissions split: if_splits)

lemma preview_goes: "handleBackupImportPreviewRoute h env path = Some (DispatchTo goal a) \<longleftrightarrow>
    path = ''/api/admin/backups/import/preview'' \<and> a = encryptedBackupAccess h env \<and> ba_role a = Admin \<and> goal = ImportPreview"
  by (auto simp: handleBackupImportPreviewRoute_def backupPreviewAccess_def Let_def admin_permissions split: if_splits)

lemma backups_go: "backupRootRuntime h env path = Some (DispatchTo goal a) \<longleftrightarrow>
    a = encryptedBackupAccess h env \<and> ba_role a = Admin \<and> (path, goal) \<in> backup_table"
  unfolding backupRootRuntime_def first_of_Some selective_goes encrypted_goes preview_goes backup_table_def
  using paths_apart by (auto split: if_splits)

lemma not_maintenance: "handleMaintenanceControlRoute h env path = None \<longleftrightarrow>
    path \<noteq> MAINTENANCE_VERIFICATION_SMOKE_PATH \<and> path \<notin> set MAINTENANCE_CONTROL_PATHS"
  by (simp add: handleMaintenanceControlRoute_def Let_def)

lemma dispatch_exact: "compatibilityRuntime h env path = Some (DispatchTo goal a) \<longleftrightarrow>
    (path, goal) \<in> set dispatch_table \<and> a = encryptedBackupAccess h env \<and> ba_role a = Admin
    \<and> (goal = MaintenanceSmoke \<longrightarrow> ie_authorized env = Some ''1'')"
proof -
  have table: "set dispatch_table = insert (MAINTENANCE_VERIFICATION_SMOKE_PATH, MaintenanceSmoke)
      ((\<lambda>p. (p, MaintenanceControl)) ` set MAINTENANCE_CONTROL_PATHS \<union> backup_table)"
    by (auto simp: dispatch_table_def backup_table_def)
  have apart: "MAINTENANCE_VERIFICATION_SMOKE_PATH \<notin> set MAINTENANCE_CONTROL_PATHS"
    "fst ` backup_table \<inter> insert MAINTENANCE_VERIFICATION_SMOKE_PATH (set MAINTENANCE_CONTROL_PATHS) = {}"
    "snd ` backup_table \<inter> {MaintenanceSmoke, MaintenanceControl} = {}"
    unfolding backup_table_def by code_simp+
  show ?thesis
    unfolding compatibilityRuntime_def first_of_Some maintenance_goes not_maintenance backups_go table using apart by (auto simp: image_iff)
qed

text \<open>C28: Which handler the routes of maintenance and backups hand a request to is given by one table of paths: a request
  is handed to exactly the handler of its path, with the access read from its headers and the configuration, and
  only when the role so resolved is administrator - the role is the one of the identity a header names or of the
  default, which C11 shows to be what the caller says. The smoke test of a recovery alone asks for more: the mark that
  the gate sets for the service token in local mode, or that the environment already carries.\<close>

theorem privileged_dispatch:
  "behindMaintenance digest env rq = Some (DispatchTo goal a) \<longleftrightarrow>
     (aq_path rq, goal) \<in> set dispatch_table
     \<and> a = encryptedBackupAccess (aq_header rq) (fw_env (handleServiceAdminAuthenticationGate digest env rq)) \<and> ba_role a = Admin
     \<and> (goal = MaintenanceSmoke \<longrightarrow> ie_authorized env = Some ''1''
         \<or> mode_is_local (ie_mode env) \<and> serviceAdminTokenAuthorized digest (aq_header rq ''x-admin-token'') (ie_adminToken env))"
proof -
  have admin_path: "isAdminIntegrationPath (aq_path rq)" if "(aq_path rq, MaintenanceSmoke) \<in> set dispatch_table"
  proof -
    from that have "aq_path rq = MAINTENANCE_VERIFICATION_SMOKE_PATH" by (auto simp: dispatch_table_def)
    then show ?thesis by (simp add: isAdminIntegrationPath_def ADMIN_INTEGRATION_PATHS_def MAINTENANCE_VERIFICATION_SMOKE_PATH_def)
  qed
  then show ?thesis
    unfolding behindMaintenance_def dispatch_exact
    by (cases "goal = MaintenanceSmoke") (auto simp: handleServiceAdminAuthenticationGate_def serviceAdminEnv_def Let_def)
qed

definition local_env :: "string option \<Rightarrow> string option \<Rightarrow> identity_env" where
  "local_env role rbac = \<lparr>ie_mode = Some ''local'', ie_identity = None, ie_name = None, ie_role = role, ie_rbac = rbac,
     ie_adminToken = Some ''service'', ie_authorized = None\<rparr>"

definition plain_request :: "string \<Rightarrow> headers \<Rightarrow> auth_request" where
  "plain_request path h = \<lparr>aq_http = \<lparr>rq_path = path, rq_method = ''POST'', rq_url = ''https://portal'', rq_origin = Some ''https://portal'',
     rq_contentLength = None, rq_body = []\<rparr>, aq_https = True, aq_header = h\<rparr>"

lemma local_not_service:
  assumes "aq_header rq ''x-admin-token'' = None"
  shows "fw_env (handleServiceAdminAuthenticationGate digest env rq) = env"
  using assms by (simp add: handleServiceAdminAuthenticationGate_def serviceAdminTokenAuthorized_def secretsMatch_def)

lemma privileged_dispatch_witness:
  "\<exists>a. behindMaintenance (\<lambda>_. []) (local_env (Some ''admin'') None) (plain_request ENCRYPTED_EXPORT_PATH Map.empty) = Some (DispatchTo EncryptedExport a)
     \<and> ba_role a = Admin"
proof -
  have "aq_header (plain_request ENCRYPTED_EXPORT_PATH Map.empty) ''x-admin-token'' = None" by (simp add: plain_request_def)
  from local_not_service [OF this]
  have b: "behindMaintenance (\<lambda>_. []) (local_env (Some ''admin'') None) (plain_request ENCRYPTED_EXPORT_PATH Map.empty)
    = compatibilityRuntime Map.empty (local_env (Some ''admin'') None) ENCRYPTED_EXPORT_PATH"
    by (simp add: behindMaintenance_def) (simp add: plain_request_def aq_path_def)
  have "compatibilityRuntime Map.empty (local_env (Some ''admin'') None) ENCRYPTED_EXPORT_PATH
    = Some (DispatchTo EncryptedExport \<lparr>ba_identity = ''portal-user'', ba_role = Admin, ba_groups = []\<rparr>)" by code_simp
  with b have r: "behindMaintenance (\<lambda>_. []) (local_env (Some ''admin'') None) (plain_request ENCRYPTED_EXPORT_PATH Map.empty)
    = Some (DispatchTo EncryptedExport \<lparr>ba_identity = ''portal-user'', ba_role = Admin, ba_groups = []\<rparr>)" by simp
  then have "ba_role \<lparr>ba_identity = ''portal-user'', ba_role = Admin, ba_groups = []\<rparr> = Admin" using privileged_dispatch by blast
  with r show ?thesis by blast
qed

text \<open>C11: In local mode being an administrator of the backups is what the caller says: without token and without looking at a
  session, the export of the whole database is handed to whoever names, in a header, an identity the
  configuration makes an administrator, and to anybody when it sets neither a default role nor assignments.\<close>

theorem backup_trusts_caller:
  assumes "mode_is_local (ie_mode env)" "aq_header rq ''x-admin-token'' = None" "aq_path rq = ENCRYPTED_EXPORT_PATH"
    and "named = take 160 (js_lower (js_trim (header_or (aq_header rq) EMAIL_HEADER ''portal-user'')))"
    and "resolvePortalRole named (case ie_role env of None \<Rightarrow> JUndef | Some r \<Rightarrow> JStr r) (ie_rbac env) Admin = Admin
      \<or> ie_role env = None \<and> ie_rbac env = None"
  shows "\<exists>a. behindMaintenance digest env rq = Some (DispatchTo EncryptedExport a) \<and> ba_identity a = named \<and> ba_role a = Admin"
proof -
  have "resolvePortalRole named JUndef None Admin = Admin"
    by (simp add: resolvePortalRole_def normalize_key_def parse_role_def js_trim_def js_lower_def)
  with assms(5) have role: "resolvePortalRole named (case ie_role env of None \<Rightarrow> JUndef | Some r \<Rightarrow> JStr r) (ie_rbac env) Admin = Admin" by auto
  from assms(1) have "portalIdentity (aq_header rq) env = named" by (simp add: portalIdentity_def mode_is_local_def assms(4) Let_def)
  with role have a: "ba_identity (encryptedBackupAccess (aq_header rq) env) = named" "ba_role (encryptedBackupAccess (aq_header rq) env) = Admin"
    by (simp_all add: encryptedBackupAccess_def)
  have m: "handleMaintenanceControlRoute (aq_header rq) env ENCRYPTED_EXPORT_PATH = None"
    by (simp add: handleMaintenanceControlRoute_def MAINTENANCE_VERIFICATION_SMOKE_PATH_def ENCRYPTED_EXPORT_PATH_def
      MAINTENANCE_CONTROL_PATHS_def path_defs)
  have s: "handleSelectiveBackupRoute (aq_header rq) env ENCRYPTED_EXPORT_PATH = None"
    by (simp add: handleSelectiveBackupRoute_def SELECTIVE_RESTORE_PREPARE_PATH_def SELECTIVE_RESTORE_COMMIT_PATH_def
      SELECTIVE_RESTORE_CANCEL_PATH_def ENCRYPTED_EXPORT_PATH_def)
  have "handleEncryptedBackupRoute (aq_header rq) env ENCRYPTED_EXPORT_PATH = Some (DispatchTo EncryptedExport (encryptedBackupAccess (aq_header rq) env))"
    using a(2) by (simp add: handleEncryptedBackupRoute_def Let_def roleHasPermission_def)
  with a m s show ?thesis
    by (simp add: behindMaintenance_def local_not_service [OF assms(2)] assms(3) compatibilityRuntime_def backupRootRuntime_def first_of_def)
qed

lemma backup_trusts_caller_witness:
  "\<exists>a. behindMaintenance (\<lambda>_. []) (local_env (Some ''viewer'') (Some (json_print (JObj [(''boss@corp'', JStr ''admin'')]))))
       (plain_request ENCRYPTED_EXPORT_PATH [EMAIL_HEADER \<mapsto> ''boss@corp'']) = Some (DispatchTo EncryptedExport a)
     \<and> ba_identity a = ''boss@corp'' \<and> ba_role a = Admin"
proof -
  let ?env = "local_env (Some ''viewer'') (Some (json_print (JObj [(''boss@corp'', JStr ''admin'')])))"
  let ?rq = "plain_request ENCRYPTED_EXPORT_PATH [EMAIL_HEADER \<mapsto> ''boss@corp'']"
  have m: "mode_is_local (ie_mode ?env)" by code_simp
  have t: "aq_header ?rq ''x-admin-token'' = None" by (simp add: plain_request_def EMAIL_HEADER_def)
  have p: "aq_path ?rq = ENCRYPTED_EXPORT_PATH" by (simp add: plain_request_def aq_path_def)
  have "header_or (aq_header ?rq) EMAIL_HEADER ''portal-user'' = ''boss@corp''" by (simp add: plain_request_def header_or_def)
  then have n: "''boss@corp'' = take 160 (js_lower (js_trim (header_or (aq_header ?rq) EMAIL_HEADER ''portal-user'')))"
    by simp code_simp
  have r: "resolvePortalRole ''boss@corp'' (case ie_role ?env of None \<Rightarrow> JUndef | Some r \<Rightarrow> JStr r) (ie_rbac ?env) Admin = Admin" by code_simp
  from backup_trusts_caller [OF m t p n] r show ?thesis by blast
qed

end
