(* ===== verification/BackupDomains.thy ===== *)
theory BackupDomains
  imports ConstantTime RecoveryReceipt
begin

text \<open>
  What a backup is made of: the domains and the canonical text of \<open>src/backup/backup-manifest.ts\<close>, and the tables
  of each domain with the validation of their rows, \<open>src/backup/export/backup-full-domains.ts\<close>. SHA-256 is an
  argument. A payload that is not accepted is the error \<open>backup_full_payload_invalid\<close>, whatever its reason, so the
  validation is a partial function.
\<close>

section \<open>Domains\<close>

datatype backup_domain = DSettings | DLocalAuth | DRbac | DPolicies | DCatalog | DOperations | DApprovals | DAudit

definition PORTAL_BACKUP_DOMAINS :: "backup_domain list" where
  "PORTAL_BACKUP_DOMAINS = [DSettings, DLocalAuth, DRbac, DPolicies, DCatalog, DOperations, DApprovals, DAudit]"

fun domain_name :: "backup_domain \<Rightarrow> string" where
  "domain_name DSettings = ''settings''"
| "domain_name DLocalAuth = ''local-auth''"
| "domain_name DRbac = ''rbac''"
| "domain_name DPolicies = ''policies''"
| "domain_name DCatalog = ''catalog''"
| "domain_name DOperations = ''operations''"
| "domain_name DApprovals = ''approvals''"
| "domain_name DAudit = ''audit''"

text \<open>\<open>supported.has(item)\<close> on an unknown value, with the domain it is.\<close>

definition parse_domain :: "js \<Rightarrow> backup_domain option" where
  "parse_domain v = find (\<lambda>d. JStr (domain_name d) = v) PORTAL_BACKUP_DOMAINS"

lemma all_domains [simp]: "d \<in> set PORTAL_BACKUP_DOMAINS"
  by (cases d) (simp_all add: PORTAL_BACKUP_DOMAINS_def)

lemma distinct_domains [simp]: "distinct PORTAL_BACKUP_DOMAINS"
  by (simp add: PORTAL_BACKUP_DOMAINS_def)

lemma domain_name_inject [simp]: "domain_name a = domain_name b \<longleftrightarrow> a = b"
  by (cases a; cases b) simp_all

lemma parse_domain_Some: "parse_domain v = Some d \<longleftrightarrow> v = JStr (domain_name d)"
proof
  assume "parse_domain v = Some d"
  then show "v = JStr (domain_name d)" by (auto simp: parse_domain_def dest: find_Some_iff')
next
  assume "v = JStr (domain_name d)"
  then show "parse_domain v = Some d" by (cases d) (simp_all add: parse_domain_def PORTAL_BACKUP_DOMAINS_def)
qed

lemma parse_domain_name [simp]: "parse_domain (JStr (domain_name d)) = Some d"
  by (simp add: parse_domain_Some)

section \<open>The canonical text\<close>

text \<open>The members of every object in the order of their keys, as in \<open>canonicalJson\<close>; values JSON has no text for throw.\<close>

fun has_json :: "js \<Rightarrow> bool" where
  "has_json JUndef = False"
| "has_json (JNum n) = (n \<noteq> NaN)"
| "has_json (JArr xs) = list_all has_json xs"
| "has_json (JObj ps) = list_all (\<lambda>(_, v). has_json v) ps"
| "has_json _ = True"

definition canonicalBackupJson :: "js \<Rightarrow> string option" where
  "canonicalBackupJson v = (if has_json v then Some (canonicalJson v) else None)"

definition sha256Hex :: "(string \<Rightarrow> string) \<Rightarrow> string \<Rightarrow> string" where
  "sha256Hex sha text = sha text"

section \<open>The tables of a domain\<close>

record table_definition =
  td_name :: string
  td_source :: string
  td_columns :: "string list"
  td_key :: "string list"

definition table_def_from :: "string \<Rightarrow> string \<Rightarrow> string list \<Rightarrow> string list \<Rightarrow> table_definition" where
  "table_def_from source name columns key = \<lparr>td_name = name, td_source = source, td_columns = columns, td_key = key\<rparr>"

definition table_def :: "string \<Rightarrow> string list \<Rightarrow> string list \<Rightarrow> table_definition" where
  "table_def name columns key = table_def_from name name columns key"

definition settings_tables :: "table_definition list" where
  "settings_tables = [
     table_def ''app_settings'' [''id'', ''config_json'', ''encrypted_secrets'', ''updated_at''] [''id''],
     table_def ''portal_settings_drafts'' [''id'', ''base_revision'', ''changes_json'', ''encrypted_secrets'', ''status'', ''validation_json'',
       ''created_by'', ''created_at'', ''updated_at'', ''validated_at'', ''applied_at''] [''id''],
     table_def ''portal_settings_apply_commits'' [''id'', ''draft_id'', ''revision'', ''config_json'', ''encrypted_secrets'', ''created_at''] [''id''],
     table_def ''portal_settings_revisions'' [''id'', ''revision'', ''config_json'', ''encrypted_secrets'', ''source_draft_id'', ''created_by'',
       ''reason'', ''status'', ''health_json'', ''created_at''] [''id''],
     table_def ''portal_settings_draft_resets'' [''draft_id'', ''reset_fields_json'', ''created_at''] [''draft_id'']]"

definition localAuth_tables :: "table_definition list" where
  "localAuth_tables = [
     table_def ''portal_users'' [''id'', ''username'', ''display_name'', ''password_hash'', ''password_salt'', ''password_iterations'', ''role'',
       ''disabled'', ''failed_attempts'', ''locked_until'', ''created_at'', ''updated_at'', ''last_login_at''] [''id''],
     table_def ''portal_sessions'' [''id'', ''user_id'', ''token_hash'', ''created_at'', ''last_seen_at'', ''expires_at'', ''user_agent''] [''id'']]"

definition rbac_tables :: "table_definition list" where
  "rbac_tables = [table_def_from ''portal_users'' ''portal_role_assignments'' [''id'', ''username'', ''role'', ''disabled'', ''updated_at''] [''id'']]"

definition policies_tables :: "table_definition list" where
  "policies_tables = [
     table_def ''catalog_visibility_policies'' [''id'', ''policy_json'', ''updated_at''] [''id''],
     table_def ''approval_policy_sets'' [''id'', ''policy_json'', ''updated_at''] [''id''],
     table_def ''process_presentation_sets'' [''id'', ''metadata_json'', ''updated_at''] [''id'']]"

definition catalog_tables :: "table_definition list" where
  "catalog_tables = [
     table_def ''xyops_catalog_snapshot'' [''id'', ''catalog_json'', ''synced_at''] [''id''],
     table_def ''xyops_catalog_history'' [''id'', ''synced_at'', ''changes_json'', ''catalog_json''] [''id''],
     table_def ''xyops_catalog_sync_runs'' [''id'', ''trigger_name'', ''status'', ''started_at'', ''completed_at'', ''process_count'',
       ''change_count'', ''error''] [''id'']]"

definition operations_tables :: "table_definition list" where
  "operations_tables = [
     table_def ''operation_runs'' [''id'', ''job_id'', ''event_id'', ''title'', ''kind'', ''mode'', ''status'', ''actor'', ''subject'', ''error'',
       ''stages_json'', ''started_at'', ''updated_at'', ''completed_at''] [''id''],
     table_def ''operation_run_results'' [''run_id'', ''job_id'', ''summary'', ''values_json'', ''links_json'', ''files_json'', ''table_json'',
       ''truncated'', ''captured_at''] [''run_id''],
     table_def ''operation_run_replays'' [''run_id'', ''event_id'', ''schema_version'', ''encrypted_spec'', ''replayable'', ''reason'',
       ''parent_run_id'', ''created_at''] [''run_id''],
     table_def ''operation_notifications'' [''id'', ''run_id'', ''status'', ''title'', ''message'', ''created_at''] [''id''],
     table_def ''operation_notification_reads'' [''notification_id'', ''identity'', ''read_at''] [''notification_id'', ''identity'']]"

definition approvals_tables :: "table_definition list" where
  "approvals_tables = [
     table_def ''operation_approvals'' [''id'', ''event_id'', ''title'', ''category'', ''schema_version'', ''requester_identity'', ''requester_role'',
       ''requester_groups_json'', ''status'', ''required_approvals'', ''approver_roles_json'', ''approver_groups_json'',
       ''requester_cannot_approve'', ''rule_id'', ''summary_json'', ''encrypted_spec'', ''request_fingerprint'', ''expires_at'', ''created_at'',
       ''updated_at'', ''approved_at'', ''executed_at'', ''run_id'', ''parent_run_id'', ''error''] [''id''],
     table_def ''operation_approval_decisions'' [''approval_id'', ''approver_identity'', ''approver_role'', ''decision'', ''comment'',
       ''decided_at''] [''approval_id'', ''approver_identity'']]"

definition audit_tables :: "table_definition list" where
  "audit_tables = [
     table_def ''portal_audit_events'' [''id'', ''created_at'', ''correlation_id'', ''actor_identity'', ''actor_role'', ''actor_groups_json'',
       ''action'', ''resource_type'', ''resource_id'', ''event_id'', ''schema_version'', ''approval_id'', ''run_id'', ''job_id'', ''outcome'',
       ''error_code'', ''metadata_json''] [''id'']]"

fun FULL_BACKUP_TABLES :: "backup_domain \<Rightarrow> table_definition list" where
  "FULL_BACKUP_TABLES DSettings = settings_tables"
| "FULL_BACKUP_TABLES DLocalAuth = localAuth_tables"
| "FULL_BACKUP_TABLES DRbac = rbac_tables"
| "FULL_BACKUP_TABLES DPolicies = policies_tables"
| "FULL_BACKUP_TABLES DCatalog = catalog_tables"
| "FULL_BACKUP_TABLES DOperations = operations_tables"
| "FULL_BACKUP_TABLES DApprovals = approvals_tables"
| "FULL_BACKUP_TABLES DAudit = audit_tables"

lemmas domain_tables_defs = settings_tables_def localAuth_tables_def rbac_tables_def policies_tables_def catalog_tables_def
  operations_tables_def approvals_tables_def audit_tables_def table_def_def table_def_from_def

section \<open>Payloads\<close>

type_synonym row = "js list"

record full_table =
  ft_definition :: table_definition
  ft_rows :: "row list"

record full_payload =
  fp_domain :: backup_domain
  fp_version :: int
  fp_tables :: "full_table list"

fun jsonScalar :: "js \<Rightarrow> bool" where
  "jsonScalar JNull = True"
| "jsonScalar (JStr _) = True"
| "jsonScalar (JBool _) = True"
| "jsonScalar (JNum n) = (n \<noteq> NaN)"
| "jsonScalar _ = False"

definition only_keys :: "string list \<Rightarrow> js \<Rightarrow> bool" where
  "only_keys ks v = list_all (\<lambda>k. k \<in> set ks) (jkeys v)"

fun index_of :: "string \<Rightarrow> string list \<Rightarrow> nat" where
  "index_of c [] = 0"
| "index_of c (d # ds) = (if c = d then 0 else Suc (index_of c ds))"

definition primary_values :: "table_definition \<Rightarrow> row \<Rightarrow> js list" where
  "primary_values td r = map (\<lambda>c. r ! index_of c (td_columns td)) (td_key td)"

definition row_ok :: "table_definition \<Rightarrow> js \<Rightarrow> row option" where
  "row_ok td v = (case v of
      JArr r \<Rightarrow>
        if length r = length (td_columns td) \<and> list_all jsonScalar r
           \<and> list_all (\<lambda>p. p \<noteq> JNull \<and> p \<noteq> JStr []) (primary_values td r) then Some r else None
    | _ \<Rightarrow> None)"

text \<open>The rows in order; a primary key, read as its canonical text, may not come twice.\<close>

fun rows_ok :: "table_definition \<Rightarrow> string option list \<Rightarrow> js list \<Rightarrow> row list option" where
  "rows_ok td seen [] = Some []"
| "rows_ok td seen (v # vs) = (case row_ok td v of
      None \<Rightarrow> None
    | Some r \<Rightarrow>
        (let k = canonicalBackupJson (JArr (primary_values td r)) in
         if k \<in> set seen then None else map_option ((#) r) (rows_ok td (k # seen) vs)))"

definition table_ok :: "table_definition \<Rightarrow> js \<Rightarrow> full_table option" where
  "table_ok td v =
     (if plain_object v \<and> only_keys [''name'', ''columns'', ''primaryKey'', ''rows''] v \<and> jget v ''name'' = JStr (td_name td)
        \<and> jget v ''columns'' = JArr (map JStr (td_columns td)) \<and> jget v ''primaryKey'' = JArr (map JStr (td_key td))
      then (case jget v ''rows'' of
          JArr vs \<Rightarrow> map_option (\<lambda>rows. \<lparr>ft_definition = td, ft_rows = rows\<rparr>) (rows_ok td [] vs)
        | _ \<Rightarrow> None)
      else None)"

definition validateFullBackupDomainPayload :: "backup_domain \<Rightarrow> js \<Rightarrow> full_payload option" where
  "validateFullBackupDomainPayload d v =
     (if plain_object v \<and> only_keys [''domain'', ''schemaVersion'', ''tables''] v \<and> jget v ''domain'' = JStr (domain_name d)
      then (case (jget v ''schemaVersion'', jget v ''tables'') of
          (JNum (Num n), JArr ts) \<Rightarrow>
            if safe_integer (Num n) \<and> 1 \<le> n \<and> length ts = length (FULL_BACKUP_TABLES d)
            then map_option (\<lambda>tables. \<lparr>fp_domain = d, fp_version = n, fp_tables = tables\<rparr>)
              (those (map (\<lambda>(td, t). table_ok td t) (zip (FULL_BACKUP_TABLES d) ts)))
            else None
        | _ \<Rightarrow> None)
      else None)"

text \<open>An accepted payload as the object it is.\<close>

definition table_js :: "full_table \<Rightarrow> js" where
  "table_js t = JObj [(''name'', JStr (td_name (ft_definition t))), (''columns'', JArr (map JStr (td_columns (ft_definition t)))),
     (''primaryKey'', JArr (map JStr (td_key (ft_definition t)))), (''rows'', JArr (map JArr (ft_rows t)))]"

definition payload_js :: "full_payload \<Rightarrow> js" where
  "payload_js p = JObj [(''domain'', JStr (domain_name (fp_domain p))), (''schemaVersion'', JInt (fp_version p)),
     (''tables'', JArr (map table_js (fp_tables p)))]"

section \<open>Lemmas\<close>

lemma rows_ok_props:
  assumes "rows_ok td seen vs = Some rows"
  shows "vs = map JArr rows \<and> list_all (\<lambda>r. row_ok td (JArr r) = Some r) rows
    \<and> distinct (map (\<lambda>r. canonicalBackupJson (JArr (primary_values td r))) rows)
    \<and> (\<forall>r \<in> set rows. canonicalBackupJson (JArr (primary_values td r)) \<notin> set seen)"
  using assms
proof (induction vs arbitrary: seen rows)
  case (Cons v vs)
  from Cons.prems obtain r rs where r: "row_ok td v = Some r" "canonicalBackupJson (JArr (primary_values td r)) \<notin> set seen"
    and rs: "rows_ok td (canonicalBackupJson (JArr (primary_values td r)) # seen) vs = Some rs" "rows = r # rs"
    by (auto simp: Let_def split: option.splits if_splits)
  from r(1) have "v = JArr r" by (auto simp: row_ok_def split: js.splits if_splits)
  with Cons.IH [OF rs(1)] r rs(2) show ?case by auto
qed simp

lemma table_ok_props:
  assumes "table_ok td v = Some t"
  shows "ft_definition t = td \<and> list_all (\<lambda>r. row_ok td (JArr r) = Some r) (ft_rows t)
    \<and> distinct (map (primary_values td) (ft_rows t)) \<and> distinct (ft_rows t)"
proof -
  from assms obtain vs rows where r: "rows_ok td [] vs = Some rows" "t = \<lparr>ft_definition = td, ft_rows = rows\<rparr>"
    by (auto simp: table_ok_def split: js.splits if_splits)
  note p = rows_ok_props [OF r(1)]
  have "distinct (map (\<lambda>k. canonicalBackupJson (JArr k)) (map (primary_values td) rows))" using p by (simp add: comp_def)
  then have "distinct (map (primary_values td) rows)" by (simp only: distinct_map)
  moreover then have "distinct rows" by (simp only: distinct_map)
  ultimately show ?thesis using p r(2) by simp
qed

lemma those_map_zip:
  assumes "those (map (\<lambda>(a, b). f a b) (zip as bs)) = Some ts" "length as = length bs"
  shows "length ts = length as \<and> (\<forall>i < length as. f (as ! i) (bs ! i) = Some (ts ! i))"
  using assms(2,1)
proof (induction as bs arbitrary: ts rule: list_induct2)
  case (Cons a as b bs)
  then show ?case by (auto simp: nth_Cons split: option.splits nat.splits)
qed simp

lemma payload_tables:
  assumes "validateFullBackupDomainPayload d v = Some p"
  shows "fp_domain p = d \<and> map ft_definition (fp_tables p) = FULL_BACKUP_TABLES d
    \<and> (\<forall>t \<in> set (fp_tables p). \<exists>u. table_ok (ft_definition t) u = Some t)"
proof -
  from assms obtain ts where t: "those (map (\<lambda>(td, t). table_ok td t) (zip (FULL_BACKUP_TABLES d) ts)) = Some (fp_tables p)"
    "length (FULL_BACKUP_TABLES d) = length ts" "fp_domain p = d"
    by (auto simp: validateFullBackupDomainPayload_def split: js.splits jsnum.splits if_splits)
  from those_map_zip [OF t(1,2)] have l: "length (fp_tables p) = length (FULL_BACKUP_TABLES d)"
    and n: "\<And>i. i < length (FULL_BACKUP_TABLES d) \<Longrightarrow> table_ok (FULL_BACKUP_TABLES d ! i) (ts ! i) = Some (fp_tables p ! i)" by auto
  have "map ft_definition (fp_tables p) = FULL_BACKUP_TABLES d"
    using l n table_ok_props by (intro nth_equalityI) auto
  moreover have "\<exists>u. table_ok (ft_definition t) u = Some t" if "t \<in> set (fp_tables p)" for t
  proof -
    from that obtain i where "i < length (fp_tables p)" "t = fp_tables p ! i" by (metis in_set_conv_nth)
    with l n table_ok_props show ?thesis by metis
  qed
  ultimately show ?thesis using t(3) by blast
qed

end
