(* ===== verification/RestoreStage.thy ===== *)
theory RestoreStage
  imports BackupDomains Base64 RelyGuarantee
begin

text \<open>
  The stage of a selective restore: which domains may be restored together
  (\<open>src/backup/restore/backup-selective-restore-policy.ts\<close>, \<open>backup-restore-selection.ts\<close>), the secret and the
  binding of a stage (\<open>backup-restore-stage.ts\<close>), the comparison of approval tokens
  (\<open>backup-restore-plan.ts\<close>), and the table of stages (\<open>backup-restore-stage-repository.ts\<close>). An error is known by
  its code; an error of the operation that is running keeps its status.
\<close>

datatype restore_fault = OwnFault string int | Coded string | Uncoded

section \<open>Domains that may be restored\<close>

definition canonicalDomains :: "backup_domain list \<Rightarrow> backup_domain list" where
  "canonicalDomains ds = filter (\<lambda>d. d \<in> set ds) PORTAL_BACKUP_DOMAINS"

record restore_policy =
  rp_selected :: "backup_domain list"
  rp_physical :: "backup_domain list"
  rp_bundle :: bool

definition dependency_invalid :: restore_fault where
  "dependency_invalid = Coded ''backup_restore_dependency_invalid''"

definition validateSelectiveRestoreDomains :: "js \<Rightarrow> restore_fault + restore_policy" where
  "validateSelectiveRestoreDomains v = (case v of
      JArr items \<Rightarrow>
        (if items = [] then Inl dependency_invalid
         else (case those (map parse_domain items) of
             None \<Rightarrow> Inl dependency_invalid
           | Some requested \<Rightarrow>
               (if \<not> distinct requested then Inl dependency_invalid
                else if DAudit \<in> set requested then Inl (Coded ''backup_restore_domain_unsupported'')
                else (let selected = canonicalDomains requested in
                  if DRbac \<in> set selected \<and> DLocalAuth \<notin> set selected then Inl dependency_invalid
                  else if (DOperations \<in> set selected) \<noteq> (DApprovals \<in> set selected) then Inl dependency_invalid
                  else Inr \<lparr>rp_selected = selected, rp_physical = filter (\<lambda>d. d \<noteq> DRbac) selected,
                    rp_bundle = (DOperations \<in> set selected \<and> DApprovals \<in> set selected)\<rparr>))))
    | _ \<Rightarrow> Inl dependency_invalid)"

definition string_items :: "js \<Rightarrow> js list option" where
  "string_items v = (case v of JArr xs \<Rightarrow> if xs \<noteq> [] \<and> list_all (\<lambda>x. case x of JStr _ \<Rightarrow> True | _ \<Rightarrow> False) xs then Some xs else None | _ \<Rightarrow> None)"

definition selection_invalid :: restore_fault where "selection_invalid = Coded ''backup_request_invalid''"

definition selectBackupRestoreDomains :: "js \<Rightarrow> js \<Rightarrow> restore_fault + backup_domain list" where
  "selectBackupRestoreDomains manifest requested =
     (case string_items manifest of
        None \<Rightarrow> Inl selection_invalid
      | Some ms \<Rightarrow>
          (case those (map parse_domain ms) of
             None \<Rightarrow> Inl selection_invalid
           | Some domains \<Rightarrow>
               (if \<not> distinct ms \<or> domains \<noteq> canonicalDomains domains then Inl selection_invalid
                else if requested = JUndef then Inr domains
                else (case string_items requested of
                    None \<Rightarrow> Inl selection_invalid
                  | Some rs \<Rightarrow>
                      (if \<not> distinct rs then Inl selection_invalid
                       else (case those (map parse_domain rs) of
                           None \<Rightarrow> Inl selection_invalid
                         | Some ds \<Rightarrow> if list_all (\<lambda>d. d \<in> set domains) ds then Inr (canonicalDomains ds) else Inl selection_invalid))))))"

definition domains_js :: "backup_domain list \<Rightarrow> js" where
  "domains_js ds = JArr (map (\<lambda>d. JStr (domain_name d)) ds)"

section \<open>Secrets and bindings\<close>

text \<open>\<open>/^[A-Za-z0-9_-]{43}$/\<close>\<close>

definition strict_secret :: "string \<Rightarrow> bool" where
  "strict_secret s \<longleftrightarrow> length s = 43 \<and> list_all (\<lambda>c. is_upper c \<or> is_lower c \<or> is_digit c \<or> c = CHR ''_'' \<or> c = CHR ''-'') s"

fun hash_bytes :: "string \<Rightarrow> i32 list" where
  "hash_bytes (a # b # s) = of_nat (16 * hex_val a + hex_val b) # hash_bytes s"
| "hash_bytes _ = []"

definition strict_hash :: "js \<Rightarrow> bool" where
  "strict_hash v = (case v of JStr s \<Rightarrow> hash_pattern s | _ \<Rightarrow> False)"

definition hash_text :: "js \<Rightarrow> string" where
  "hash_text v = (case v of JStr s \<Rightarrow> s | _ \<Rightarrow> [])"

text \<open>The comparison of two digests; \<open>verifyBackupRestoreApprovalToken\<close> is written out the same way.\<close>

definition equalHash :: "js \<Rightarrow> js \<Rightarrow> bool" where
  "equalHash l r =
     (let zeros = replicate 64 (CHR ''0'');
          left = hash_bytes (if strict_hash l then hash_text l else zeros);
          right = hash_bytes (if strict_hash r then hash_text r else zeros)
      in collect_diff (if strict_hash l \<and> strict_hash r then 0 else 1) left right = 0)"

definition verifyBackupRestoreApprovalToken :: "string \<Rightarrow> js \<Rightarrow> bool" where
  "verifyBackupRestoreApprovalToken expected provided = equalHash (JStr expected) provided"

definition stage_fault :: restore_fault where "stage_fault = Coded ''backup_restore_stage_invalid''"

text \<open>\<open>createRestoreStageSecret\<close> of 32 random bytes.\<close>

definition createRestoreStageSecret :: "nat list \<Rightarrow> restore_fault + string" where
  "createRestoreStageSecret bytes = (if length bytes = 32 then Inr (base64Url bytes) else Inl stage_fault)"

definition hashRestoreStageSecret :: "(string \<Rightarrow> string) \<Rightarrow> js \<Rightarrow> restore_fault + string" where
  "hashRestoreStageSecret sha v = (case v of JStr s \<Rightarrow> if strict_secret s then Inr (sha s) else Inl stage_fault | _ \<Rightarrow> Inl stage_fault)"

definition verifyRestoreStageSecret :: "(string \<Rightarrow> string) \<Rightarrow> js \<Rightarrow> js \<Rightarrow> bool" where
  "verifyRestoreStageSecret sha expectedHash secret =
     equalHash expectedHash (JStr (case secret of JStr s \<Rightarrow> if strict_secret s then sha s else [] | _ \<Rightarrow> []))"

definition verifyRestoreStageBinding :: "js \<Rightarrow> js \<Rightarrow> bool" where
  "verifyRestoreStageBinding expectedHash providedHash = equalHash expectedHash providedHash"

datatype stage_operation = OpRestore | OpRollback

fun stage_operation_name :: "stage_operation \<Rightarrow> string" where
  "stage_operation_name OpRestore = ''restore''"
| "stage_operation_name OpRollback = ''rollback''"

definition parse_operation :: "js \<Rightarrow> stage_operation option" where
  "parse_operation v = (if v = JStr ''restore'' then Some OpRestore else if v = JStr ''rollback'' then Some OpRollback else None)"

record stage_binding =
  sb_operation :: stage_operation
  sb_actor :: string
  sb_domains :: "backup_domain list"
  sb_token :: js
  sb_checksum :: string
  sb_sourceVersion :: int
  sb_currentVersion :: int
  sb_expiresAt :: int

definition positive :: "int \<Rightarrow> bool" where
  "positive n \<longleftrightarrow> safe_integer (Num n) \<and> 1 \<le> n"

definition validateBindingInput :: "stage_binding \<Rightarrow> restore_fault + stage_binding" where
  "validateBindingInput b =
     (let actor = js_trim (sb_actor b) in
      if actor \<noteq> [] \<and> length actor \<le> 320 \<and> sb_domains b \<noteq> [] \<and> distinct (sb_domains b) \<and> canonicalDomains (sb_domains b) = sb_domains b
         \<and> strict_hash (sb_token b) \<and> hash_pattern (sb_checksum b)
         \<and> positive (sb_sourceVersion b) \<and> positive (sb_currentVersion b) \<and> positive (sb_expiresAt b)
      then Inr (b\<lparr>sb_actor := actor\<rparr>) else Inl stage_fault)"

definition binding_js :: "stage_binding \<Rightarrow> js" where
  "binding_js b = JObj [(''version'', JInt 1), (''operation'', JStr (stage_operation_name (sb_operation b))), (''actorIdentity'', JStr (sb_actor b)),
     (''selectedDomains'', domains_js (sb_domains b)), (''sourceApprovalToken'', sb_token b), (''recoveryManifestChecksum'', JStr (sb_checksum b)),
     (''sourceSchemaVersion'', JInt (sb_sourceVersion b)), (''currentSchemaVersion'', JInt (sb_currentVersion b)), (''expiresAt'', JInt (sb_expiresAt b))]"

definition createRestoreStageBinding :: "(string \<Rightarrow> string) \<Rightarrow> stage_binding \<Rightarrow> restore_fault + string" where
  "createRestoreStageBinding sha b = bindE (validateBindingInput b) (\<lambda>v.
     case canonicalBackupJson (binding_js v) of Some text \<Rightarrow> Inr (sha256Hex sha text) | None \<Rightarrow> Inl Uncoded)"

section \<open>The table of stages\<close>

record stage_row =
  sr_id :: string
  sr_operation :: string
  sr_actor :: string
  sr_domains_json :: string
  sr_secret_hash :: string
  sr_source_hash :: string
  sr_recovery_hash :: string
  sr_source_version :: int
  sr_current_version :: int
  sr_status :: string
  sr_created_at :: int
  sr_expires_at :: int
  sr_completed_at :: "int option"

text \<open>The stages, and the rows of every table that can be restored, by the name of the table.\<close>

record restore_tables =
  rt_stages :: "stage_row list"
  rt_rows :: "string \<Rightarrow> row list"

type_synonym 'a restore_eff = "(restore_tables database, restore_fault, 'a) eff"

datatype stage_status = Prepared | Committing | Cancelled | Committed | Expired

fun stage_status_name :: "stage_status \<Rightarrow> string" where
  "stage_status_name Prepared = ''prepared''"
| "stage_status_name Committing = ''committing''"
| "stage_status_name Cancelled = ''cancelled''"
| "stage_status_name Committed = ''committed''"
| "stage_status_name Expired = ''expired''"

definition parse_stage_status :: "string \<Rightarrow> stage_status option" where
  "parse_stage_status s = find (\<lambda>x. stage_status_name x = s) [Prepared, Committing, Cancelled, Committed, Expired]"

record stage_data =
  st_id :: string
  st_operation :: stage_operation
  st_actor :: string
  st_domains :: "backup_domain list"
  st_secretHash :: string
  st_sourceBinding :: string
  st_recoveryBinding :: string
  st_sourceVersion :: int
  st_currentVersion :: int
  st_createdAt :: int
  st_expiresAt :: int

record stage_record = stage_data +
  st_status :: stage_status
  st_completedAt :: "int option"

definition stage_id_pattern :: "string \<Rightarrow> bool" where
  "stage_id_pattern s = prefixed_uuid_ci ''restore_'' s"

definition stage_guard :: "bool \<Rightarrow> restore_fault + unit" where
  "stage_guard b = guardE b stage_fault"

definition integer_ok :: "int \<Rightarrow> int \<Rightarrow> bool" where
  "integer_ok n minimum \<longleftrightarrow> safe_integer (Num n) \<and> minimum \<le> n"

text \<open>\<open>normalizeRow\<close>: every check fails with the same error, so their order is not observable.\<close>

definition selectedDomains_of :: "string \<Rightarrow> restore_fault + backup_domain list" where
  "selectedDomains_of text = (case json_parse text of
      None \<Rightarrow> Inl stage_fault
    | Some v \<Rightarrow> (case validateSelectiveRestoreDomains v of Inr p \<Rightarrow> Inr (rp_selected p) | Inl _ \<Rightarrow> Inl stage_fault))"

definition normalize_stage :: "stage_row \<Rightarrow> restore_fault + stage_record" where
  "normalize_stage r =
     bindE (stage_guard (stage_id_pattern (sr_id r) \<and> js_trim (sr_actor r) \<noteq> [] \<and> length (js_trim (sr_actor r)) \<le> 320
       \<and> hash_pattern (sr_secret_hash r) \<and> hash_pattern (sr_source_hash r) \<and> hash_pattern (sr_recovery_hash r)
       \<and> integer_ok (sr_source_version r) 1 \<and> integer_ok (sr_current_version r) 1 \<and> integer_ok (sr_created_at r) 1
       \<and> integer_ok (sr_expires_at r) 1 \<and> (case sr_completed_at r of None \<Rightarrow> True | Some n \<Rightarrow> integer_ok n 0))) (\<lambda>_.
     bindE (case parse_operation (JStr (sr_operation r)) of Some x \<Rightarrow> Inr x | None \<Rightarrow> Inl stage_fault) (\<lambda>operation.
     bindE (selectedDomains_of (sr_domains_json r)) (\<lambda>domains.
     bindE (case parse_stage_status (sr_status r) of Some x \<Rightarrow> Inr x | None \<Rightarrow> Inl stage_fault) (\<lambda>status.
     Inr \<lparr>st_id = sr_id r, st_operation = operation, st_actor = js_trim (sr_actor r), st_domains = domains,
       st_secretHash = sr_secret_hash r, st_sourceBinding = sr_source_hash r, st_recoveryBinding = sr_recovery_hash r,
       st_sourceVersion = sr_source_version r, st_currentVersion = sr_current_version r, st_createdAt = sr_created_at r,
       st_expiresAt = sr_expires_at r, st_status = status, st_completedAt = sr_completed_at r\<rparr>))))"

definition validateCreateInput :: "stage_data \<Rightarrow> restore_fault + stage_data" where
  "validateCreateInput s =
     bindE (stage_guard (stage_id_pattern (st_id s) \<and> js_trim (st_actor s) \<noteq> [] \<and> length (js_trim (st_actor s)) \<le> 320)) (\<lambda>_.
     bindE (validateSelectiveRestoreDomains (domains_js (st_domains s))) (\<lambda>p.
     bindE (stage_guard (hash_pattern (st_secretHash s) \<and> hash_pattern (st_sourceBinding s) \<and> hash_pattern (st_recoveryBinding s)
       \<and> integer_ok (st_sourceVersion s) 1 \<and> integer_ok (st_currentVersion s) 1 \<and> integer_ok (st_createdAt s) 1
       \<and> integer_ok (st_expiresAt s) 1 \<and> st_createdAt s < st_expiresAt s)) (\<lambda>_.
     Inr (s\<lparr>st_actor := js_trim (st_actor s), st_domains := rp_selected p\<rparr>))))"

definition new_stage :: "stage_data \<Rightarrow> stage_row" where
  "new_stage s = \<lparr>sr_id = st_id s, sr_operation = stage_operation_name (st_operation s), sr_actor = st_actor s,
     sr_domains_json = json_print (domains_js (st_domains s)), sr_secret_hash = st_secretHash s, sr_source_hash = st_sourceBinding s,
     sr_recovery_hash = st_recoveryBinding s, sr_source_version = st_sourceVersion s, sr_current_version = st_currentVersion s,
     sr_status = ''prepared'', sr_created_at = st_createdAt s, sr_expires_at = st_expiresAt s, sr_completed_at = None\<rparr>"

definition result_one :: "js \<Rightarrow> bool" where
  "result_one v \<longleftrightarrow> truthy v \<and> to_num (coalesce (jget (jget v ''meta'') ''changes'') (coalesce (jget v ''changes'') (JInt 0))) = Num 1"

text \<open>An \<open>INSERT\<close> of a key that is there throws.\<close>

definition insert_stage :: "stage_row \<Rightarrow> restore_tables \<Rightarrow> js option \<times> restore_tables" where
  "insert_stage r t =
     (if sr_id r \<in> sr_id ` set (rt_stages t) then (None, t) else (Some (d1_result 1), t\<lparr>rt_stages := rt_stages t @ [r]\<rparr>))"

definition createRestoreStage :: "stage_data \<Rightarrow> stage_record restore_eff" where
  "createRestoreStage inp =
     bindM (liftM (validateCreateInput inp)) (\<lambda>s.
     bindM (d1_call stage_fault (insert_stage (new_stage s))) (\<lambda>result.
     bindM (requireM (case result of None \<Rightarrow> False | Some v \<Rightarrow> result_one v) stage_fault) (\<lambda>_.
     returnM (stage_data.extend s \<lparr>st_status = Prepared, st_completedAt = None\<rparr>))))"

definition find_stage :: "string \<Rightarrow> restore_tables \<Rightarrow> stage_row option" where
  "find_stage i t = find (\<lambda>r. sr_id r = i) (rt_stages t)"

definition loadRestoreStage :: "string \<Rightarrow> stage_record option restore_eff" where
  "loadRestoreStage i =
     bindM (requireM (stage_id_pattern i) stage_fault) (\<lambda>_.
     bindM (d1_read stage_fault (find_stage i)) (\<lambda>found.
     case found of
       None \<Rightarrow> returnM None
     | Some r \<Rightarrow> bindM (liftM (normalize_stage r)) (\<lambda>s. returnM (Some s))))"

text \<open>\<open>UPDATE .. SET .. WHERE ..\<close> on the stages.\<close>

definition update_stages :: "(stage_row \<Rightarrow> bool) \<Rightarrow> (stage_row \<Rightarrow> stage_row) \<Rightarrow> restore_tables \<Rightarrow> int \<times> restore_tables" where
  "update_stages P f t = (int (length (filter P (rt_stages t))), t\<lparr>rt_stages := map (\<lambda>r. if P r then f r else r) (rt_stages t)\<rparr>)"

definition run_update :: "(stage_row \<Rightarrow> bool) \<Rightarrow> (stage_row \<Rightarrow> stage_row) \<Rightarrow> js restore_eff" where
  "run_update P f = d1_call stage_fault (\<lambda>t. let (n, t') = update_stages P f t in (d1_result n, t'))"

definition cancelRestoreStage :: "string \<Rightarrow> string \<Rightarrow> string \<Rightarrow> int \<Rightarrow> stage_status restore_eff" where
  "cancelRestoreStage i actorIdentity secretHash now =
     (let actor = js_trim actorIdentity in
      bindM (requireM (stage_id_pattern i \<and> actor \<noteq> [] \<and> length actor \<le> 320 \<and> hash_pattern secretHash \<and> integer_ok now 1) stage_fault) (\<lambda>_.
      bindM (run_update (\<lambda>r. sr_id r = i \<and> sr_actor r = actor \<and> sr_secret_hash r = secretHash \<and> sr_status r = ''prepared'' \<and> now < sr_expires_at r)
               (\<lambda>r. r\<lparr>sr_status := ''cancelled'', sr_completed_at := Some now\<rparr>)) (\<lambda>result.
      if result_one result then returnM Cancelled
      else
        bindM (loadRestoreStage i) (\<lambda>found.
        case found of
          None \<Rightarrow> throwM stage_fault
        | Some s \<Rightarrow>
            if st_actor s \<noteq> actor \<or> st_secretHash s \<noteq> secretHash then throwM stage_fault
            else if st_status s = Cancelled then throwM (Coded ''backup_restore_stage_cancelled'')
            else if st_status s = Committed \<or> st_status s = Committing then throwM (Coded ''backup_restore_stage_committed'')
            else if st_status s = Expired \<or> st_expiresAt s \<le> now then throwM (Coded ''backup_restore_stage_expired'')
            else throwM stage_fault))))"

end
