(* ===== verification/RestoreWrite.thy ===== *)
theory RestoreWrite
  imports RestoreStage
begin

text \<open>
  The statements of a selective restore, \<open>src/backup/restore/backup-selective-write-plan.ts\<close>, and what they do to the
  tables. A statement has its text and its bound values, whose sizes the code limits, and its effect: the claim
  of the stage compares every table with the expected rows, the other statements act only while the stage is
  being committed. \<open>keep\<close> is what a table keeps of an inserted row (SQLite converts values to the type of the
  column), \<open>admits\<close> whether its constraints hold of its rows; both are arguments. The rows of a table are kept in
  the order of the columns of its definition.
\<close>

section \<open>Limits\<close>

definition MAX_SELECTIVE_RESTORE_JSON_BINDING_BYTES :: nat where "MAX_SELECTIVE_RESTORE_JSON_BINDING_BYTES = 1750000"
definition MAX_SELECTIVE_RESTORE_CLAIM_PARAMETERS :: nat where "MAX_SELECTIVE_RESTORE_CLAIM_PARAMETERS = 100"
definition MAX_SELECTIVE_RESTORE_BATCH_STATEMENTS :: nat where "MAX_SELECTIVE_RESTORE_BATCH_STATEMENTS = 48"
definition MAX_SELECTIVE_RESTORE_SQL_BYTES :: nat where "MAX_SELECTIVE_RESTORE_SQL_BYTES = 100000"

definition commit_failed :: restore_fault where "commit_failed = Coded ''backup_restore_commit_failed''"
definition too_large :: restore_fault where "too_large = Coded ''backup_restore_commit_too_large''"
definition admin_required :: restore_fault where "admin_required = Coded ''backup_restore_admin_required''"

definition jsonBytes :: "string \<Rightarrow> nat" where
  "jsonBytes s = length (utf8 s)"

record stage_claim =
  sg_id :: string
  sg_actor :: string
  sg_secretHash :: string
  sg_now :: int

definition validateGuard :: "stage_claim \<Rightarrow> restore_fault + stage_claim" where
  "validateGuard g =
     (let actor = js_trim (sg_actor g) in
      if stage_id_pattern (sg_id g) \<and> hash_pattern (sg_secretHash g) \<and> actor \<noteq> [] \<and> length actor \<le> 320 \<and> integer_ok (sg_now g) 1
      then Inr (g\<lparr>sg_actor := actor\<rparr>) else Inl commit_failed)"

record audit_row =
  ar_id :: string
  ar_createdAt :: int
  ar_correlationId :: string
  ar_actor :: string
  ar_groupsJson :: string
  ar_action :: string
  ar_resourceId :: string
  ar_schemaVersion :: string
  ar_metadataJson :: string

definition strictText :: "string \<Rightarrow> nat \<Rightarrow> string option" where
  "strictText s maximum = (let n = js_trim s in if n \<noteq> [] \<and> length n \<le> maximum then Some n else None)"

text \<open>The role, the resource type and the outcome of the row are constants, which the code checks again.\<close>

definition validateAudit :: "audit_row \<Rightarrow> restore_fault + audit_row" where
  "validateAudit a =
     (if ar_action a \<in> set [''backup.restore.commit'', ''backup.rollback.commit'']
         \<and> json_parse (ar_groupsJson a) \<noteq> None \<and> json_parse (ar_metadataJson a) \<noteq> None \<and> integer_ok (ar_createdAt a) 1
      then (case (strictText (ar_id a) 160, strictText (ar_correlationId a) 160, strictText (ar_actor a) 320,
                 strictText (ar_resourceId a) 160, strictText (ar_schemaVersion a) 40) of
          (Some i, Some c, Some actor, Some r, Some v) \<Rightarrow>
            Inr (a\<lparr>ar_id := i, ar_correlationId := c, ar_actor := actor, ar_resourceId := r, ar_schemaVersion := v\<rparr>)
        | _ \<Rightarrow> Inl commit_failed)
      else Inl commit_failed)"

section \<open>Rows in chunks\<close>

definition flushed :: "string list \<Rightarrow> string list" where
  "flushed rowJson = (if rowJson = [] then [] else [''['' @ js_join '','' rowJson @ '']''])"

fun chunk_loop :: "row list \<Rightarrow> string list \<Rightarrow> nat \<Rightarrow> restore_fault + string list" where
  "chunk_loop [] rowJson bytes = Inr (flushed rowJson)"
| "chunk_loop (r # rs) rowJson bytes =
     (case canonicalBackupJson (JArr r) of
        None \<Rightarrow> Inl Uncoded
      | Some serialized \<Rightarrow>
          (let size = jsonBytes serialized;
               additional = size + (if rowJson \<noteq> [] then 1 else 0)
           in if MAX_SELECTIVE_RESTORE_JSON_BINDING_BYTES < size + 2 then Inl too_large
              else if MAX_SELECTIVE_RESTORE_JSON_BINDING_BYTES < bytes + additional
              then bindE (chunk_loop rs [serialized] (2 + size)) (\<lambda>rest. Inr (flushed rowJson @ rest))
              else chunk_loop rs (rowJson @ [serialized]) (bytes + size + (if rowJson \<noteq> [] then 1 else 0))))"

definition chunkRows :: "row list \<Rightarrow> restore_fault + string list" where
  "chunkRows rows = chunk_loop rows [] 2"

record restore_table =
  rb_domain :: backup_domain
  rb_table :: full_table
  rb_chunks :: "string list"

definition rb_name :: "restore_table \<Rightarrow> string" where
  "rb_name t = td_name (ft_definition (rb_table t))"

type_synonym payloads = "backup_domain \<Rightarrow> js option"

definition tables_of_domain :: "payloads \<Rightarrow> backup_domain \<Rightarrow> restore_fault + restore_table list" where
  "tables_of_domain payloads d = (case payloads d of
      None \<Rightarrow> Inl commit_failed
    | Some source \<Rightarrow>
        (case validateFullBackupDomainPayload d source of
           None \<Rightarrow> Inl (Coded ''backup_full_payload_invalid'')
         | Some p \<Rightarrow> mapE (\<lambda>t. bindE (chunkRows (ft_rows t)) (\<lambda>chunks. Inr \<lparr>rb_domain = d, rb_table = t, rb_chunks = chunks\<rparr>)) (fp_tables p)))"

definition restoreTables :: "restore_policy \<Rightarrow> payloads \<Rightarrow> restore_fault + restore_table list" where
  "restoreTables policy payloads = bindE (mapE (tables_of_domain payloads) (rp_physical policy)) (\<lambda>ts. Inr (concat ts))"

definition column_at :: "table_definition \<Rightarrow> string \<Rightarrow> row \<Rightarrow> js" where
  "column_at td c r = r ! index_of c (td_columns td)"

definition active_administrator :: "table_definition \<Rightarrow> row \<Rightarrow> bool" where
  "active_administrator td r \<longleftrightarrow> column_at td ''role'' r = JStr ''admin'' \<and> to_num (column_at td ''disabled'' r) = Num 0"

definition requireActiveAdministrator :: "restore_table list \<Rightarrow> restore_fault + unit" where
  "requireActiveAdministrator tables = (case find (\<lambda>t. rb_name t = ''portal_users'') tables of
      None \<Rightarrow> Inl admin_required
    | Some users \<Rightarrow> guardE (list_ex (active_administrator (ft_definition (rb_table users))) (ft_rows (rb_table users))) admin_required)"

definition validateBatchSize :: "restore_table list \<Rightarrow> nat \<Rightarrow> restore_fault + unit" where
  "validateBatchSize tables parameters =
     (let inserts = sum_list (map (\<lambda>t. length (rb_chunks t)) (filter (\<lambda>t. rb_name t \<noteq> ''portal_sessions'') tables)) in
      guardE (parameters \<le> MAX_SELECTIVE_RESTORE_CLAIM_PARAMETERS
        \<and> 1 + length tables + inserts + 2 \<le> MAX_SELECTIVE_RESTORE_BATCH_STATEMENTS) too_large)"

definition validateSelectiveRestoreCandidate :: "restore_policy \<Rightarrow> payloads \<Rightarrow> restore_fault + unit" where
  "validateSelectiveRestoreCandidate policy payloads =
     bindE (guardE (DAudit \<notin> set (rp_physical policy) \<and> DRbac \<notin> set (rp_physical policy)) commit_failed) (\<lambda>_.
     bindE (restoreTables policy payloads) (\<lambda>tables.
     bindE (if DLocalAuth \<in> set (rp_selected policy) then requireActiveAdministrator tables else Inr ()) (\<lambda>_.
     validateBatchSize tables (5 + sum_list (map (\<lambda>t. 1 + length (rb_chunks t)) tables)))))"

section \<open>Statements\<close>

datatype restore_statement =
    ClaimStage stage_claim "restore_table list"
  | DeleteRows stage_claim string
  | InsertRows stage_claim table_definition string
  | InsertAudit stage_claim audit_row
  | CommitStage stage_claim

definition guardedStage :: string where
  "guardedStage = ''SELECT 1 FROM portal_backup_restore_stages WHERE id = ? AND actor_identity = ? AND stage_secret_hash = ? AND status = '' @ [CHR 0x27] @ ''committing'' @ [CHR 0x27]"

definition rowProjection :: "table_definition \<Rightarrow> string" where
  "rowProjection td = js_join '', '' (map (\<lambda>i. ''json_extract(value, '' @ [CHR 0x27] @ ''$['' @ nat_to_str i @ '']'' @ [CHR 0x27] @ '')'') [0..<length (td_columns td)])"

definition column_list :: "table_definition \<Rightarrow> string" where
  "column_list td = js_join '', '' (td_columns td)"

definition currentStateGuard_sql :: "restore_table \<Rightarrow> string" where
  "currentStateGuard_sql t =
     (let td = ft_definition (rb_table t) in
      js_join '' AND '' ((''(SELECT COUNT(*) FROM '' @ td_name td @ '') = ?'') #
        map (\<lambda>_. ''NOT EXISTS (SELECT '' @ rowProjection td @ '' FROM json_each(?) EXCEPT SELECT '' @ column_list td @ '' FROM '' @ td_name td @ '')'') (rb_chunks t)))"

definition quoted :: "string \<Rightarrow> string" where "quoted s = [CHR 0x27] @ s @ [CHR 0x27]"

fun statement_sql :: "restore_statement \<Rightarrow> string" where
  "statement_sql (ClaimStage g tables) = js_join '' ''
     ((''UPDATE portal_backup_restore_stages SET status = '' @ quoted ''committing'' @ '', completed_at = ? WHERE id = ? AND actor_identity = ? AND stage_secret_hash = ? AND status = ''
        @ quoted ''prepared'' @ '' AND expires_at > ?'') # map (\<lambda>t. ''AND '' @ currentStateGuard_sql t) tables)"
| "statement_sql (DeleteRows g name) = ''DELETE FROM '' @ name @ '' WHERE EXISTS ('' @ guardedStage @ '')''"
| "statement_sql (InsertRows g td rowsJson) =
     ''INSERT INTO '' @ td_name td @ '' ('' @ column_list td @ '') SELECT '' @ rowProjection td @ '' FROM json_each(?) WHERE EXISTS ('' @ guardedStage @ '')''"
| "statement_sql (InsertAudit g a) =
     ''INSERT INTO portal_audit_events (id, created_at, correlation_id, actor_identity, actor_role, actor_groups_json, action, resource_type, resource_id, event_id, schema_version, approval_id, run_id, job_id, outcome, error_code, metadata_json) SELECT ?, ?, ?, ?, ?, ?, ?, ?, ?, NULL, ?, NULL, NULL, NULL, ?, NULL, ? WHERE EXISTS ('' @ guardedStage @ '')''"
| "statement_sql (CommitStage g) =
     ''UPDATE portal_backup_restore_stages SET status = '' @ quoted ''committed'' @ '', completed_at = ? WHERE id = ? AND actor_identity = ? AND stage_secret_hash = ? AND status = '' @ quoted ''committing''"

fun statement_values :: "restore_statement \<Rightarrow> nat" where
  "statement_values (ClaimStage g tables) = 5 + sum_list (map (\<lambda>t. 1 + length (rb_chunks t)) tables)"
| "statement_values (DeleteRows g name) = 3"
| "statement_values (InsertRows g td rowsJson) = 4"
| "statement_values (InsertAudit g a) = 15"
| "statement_values (CommitStage g) = 4"

definition prepared_ok :: "restore_statement \<Rightarrow> restore_fault + restore_statement" where
  "prepared_ok s =
     (if MAX_SELECTIVE_RESTORE_SQL_BYTES < jsonBytes (statement_sql s) then Inl too_large
      else if MAX_SELECTIVE_RESTORE_CLAIM_PARAMETERS < statement_values s then Inl too_large
      else Inr s)"

definition restore_statements :: "stage_claim \<Rightarrow> restore_table list \<Rightarrow> restore_table list \<Rightarrow> audit_row \<Rightarrow> restore_statement list" where
  "restore_statements g source current a =
     ClaimStage g current # map (\<lambda>t. DeleteRows g (rb_name t)) (rev source)
     @ concat (map (\<lambda>t. if rb_name t = ''portal_sessions'' then [] else map (InsertRows g (ft_definition (rb_table t))) (rb_chunks t)) source)
     @ [InsertAudit g a, CommitStage g]"

definition buildSelectiveRestoreStatements ::
  "stage_claim \<Rightarrow> restore_policy \<Rightarrow> payloads \<Rightarrow> payloads \<Rightarrow> audit_row \<Rightarrow> restore_fault + restore_statement list" where
  "buildSelectiveRestoreStatements guardValue policy source expected auditValue =
     bindE (validateGuard guardValue) (\<lambda>g.
     bindE (validateAudit auditValue) (\<lambda>a.
     bindE (validateSelectiveRestoreCandidate policy source) (\<lambda>_.
     bindE (restoreTables policy source) (\<lambda>sourceTables.
     bindE (restoreTables policy expected) (\<lambda>currentTables.
     bindE (guardE (map rb_name sourceTables = map rb_name currentTables) commit_failed) (\<lambda>_.
     bindE (validateBatchSize sourceTables (statement_values (ClaimStage g currentTables))) (\<lambda>_.
     mapE prepared_ok (restore_statements g sourceTables currentTables a))))))))"

section \<open>What the statements do\<close>

text \<open>The elements of \<open>json_each(?)\<close>, each projected by \<open>json_extract\<close>.\<close>

fun sql_scalar :: "js \<Rightarrow> js" where
  "sql_scalar (JBool b) = JInt (if b then 1 else 0)"
| "sql_scalar JUndef = JNull"
| "sql_scalar v = v"

definition projected :: "nat \<Rightarrow> js \<Rightarrow> row" where
  "projected n v = map (\<lambda>i. case v of JArr xs \<Rightarrow> if i < length xs then sql_scalar (xs ! i) else JNull | _ \<Rightarrow> JNull) [0..<n]"

definition json_each_rows :: "nat \<Rightarrow> string \<Rightarrow> row list" where
  "json_each_rows n text = (case json_parse text of Some (JArr vs) \<Rightarrow> map (projected n) vs | _ \<Rightarrow> [])"

definition table_width :: "restore_table \<Rightarrow> nat" where
  "table_width t = length (td_columns (ft_definition (rb_table t)))"

definition currentStateGuard :: "restore_tables \<Rightarrow> restore_table \<Rightarrow> bool" where
  "currentStateGuard t x \<longleftrightarrow> length (rt_rows t (rb_name x)) = length (ft_rows (rb_table x))
     \<and> list_all (\<lambda>c. list_all (\<lambda>r. r \<in> set (rt_rows t (rb_name x))) (json_each_rows (table_width x) c)) (rb_chunks x)"

definition claims_stage :: "string \<Rightarrow> stage_claim \<Rightarrow> stage_row \<Rightarrow> bool" where
  "claims_stage status g r \<longleftrightarrow> sr_id r = sg_id g \<and> sr_actor r = sg_actor g \<and> sr_secret_hash r = sg_secretHash g \<and> sr_status r = status"

definition committing :: "stage_claim \<Rightarrow> restore_tables \<Rightarrow> bool" where
  "committing g t \<longleftrightarrow> list_ex (claims_stage ''committing'' g) (rt_stages t)"

record sqlite =
  sq_keep :: "string \<Rightarrow> row \<Rightarrow> row"
  sq_admits :: "string \<Rightarrow> row list \<Rightarrow> bool"

definition audit_values :: "audit_row \<Rightarrow> row" where
  "audit_values a = [JStr (ar_id a), JInt (ar_createdAt a), JStr (ar_correlationId a), JStr (ar_actor a), JStr ''admin'', JStr (ar_groupsJson a),
     JStr (ar_action a), JStr ''portal_backup'', JStr (ar_resourceId a), JNull, JStr (ar_schemaVersion a), JNull, JNull, JNull,
     JStr ''success'', JNull, JStr (ar_metadataJson a)]"

definition set_rows :: "string \<Rightarrow> row list \<Rightarrow> restore_tables \<Rightarrow> restore_tables" where
  "set_rows name rows t = t\<lparr>rt_rows := (rt_rows t)(name := rows)\<rparr>"

text \<open>The rows an \<open>INSERT\<close> adds, unless a constraint refuses them; then the batch is undone.\<close>

definition insert_rows :: "sqlite \<Rightarrow> string \<Rightarrow> row list \<Rightarrow> restore_tables \<Rightarrow> (int \<times> restore_tables) option" where
  "insert_rows sq name new t =
     (let rows = rt_rows t name @ map (sq_keep sq name) new in
      if sq_admits sq name rows then Some (int (length new), set_rows name rows t) else None)"

fun run_statement :: "sqlite \<Rightarrow> restore_statement \<Rightarrow> restore_tables \<Rightarrow> (int \<times> restore_tables) option" where
  "run_statement sq (ClaimStage g tables) t =
     Some (update_stages (\<lambda>r. claims_stage ''prepared'' g r \<and> sg_now g < sr_expires_at r \<and> list_all (currentStateGuard t) tables)
       (\<lambda>r. r\<lparr>sr_status := ''committing'', sr_completed_at := Some (sg_now g)\<rparr>) t)"
| "run_statement sq (DeleteRows g name) t =
     Some (if committing g t then (int (length (rt_rows t name)), set_rows name [] t) else (0, t))"
| "run_statement sq (InsertRows g td rowsJson) t =
     (if committing g t then insert_rows sq (td_name td) (json_each_rows (length (td_columns td)) rowsJson) t else Some (0, t))"
| "run_statement sq (InsertAudit g a) t =
     (if committing g t then insert_rows sq ''portal_audit_events'' [audit_values a] t else Some (0, t))"
| "run_statement sq (CommitStage g) t =
     Some (update_stages (claims_stage ''committing'' g) (\<lambda>r. r\<lparr>sr_status := ''committed'', sr_completed_at := Some (sg_now g)\<rparr>) t)"

fun run_statements :: "sqlite \<Rightarrow> restore_statement list \<Rightarrow> restore_tables \<Rightarrow> (int list \<times> restore_tables) option" where
  "run_statements sq [] t = Some ([], t)"
| "run_statements sq (s # ss) t = (case run_statement sq s t of
      None \<Rightarrow> None
    | Some (n, t1) \<Rightarrow> map_option (\<lambda>(ns, t2). (n # ns, t2)) (run_statements sq ss t1))"

text \<open>\<open>db.batch\<close>: all statements or none.\<close>

definition run_batch :: "sqlite \<Rightarrow> restore_statement list \<Rightarrow> js list restore_eff" where
  "run_batch sq ss =
     bindM (d1_call Uncoded (\<lambda>t. case run_statements sq ss t of Some (ns, t') \<Rightarrow> (Some (map d1_result ns), t') | None \<Rightarrow> (None, t))) (\<lambda>r.
     case r of None \<Rightarrow> throwM Uncoded | Some rs \<Rightarrow> returnM rs)"

end
