(* ===== verification/RestoreCommit.thy ===== *)
theory RestoreCommit
  imports RestoreWrite JsNumber
begin

text \<open>
  A selective restore: the export of a domain (\<open>src/backup/export/backup-full-domains.ts\<close>), the approval token of a
  preview (\<open>backup-restore-plan.ts\<close>), the recovery point (\<open>backup-selective-recovery-point.ts\<close>), preparing a stage
  (\<open>backup-selective-restore-prepare.ts\<close>) and committing it (\<open>backup-selective-restore-commit.ts\<close>). As in the code,
  the validation, encryption and decryption of documents and the test restore are dependencies that are
  passed in; so are the digest, random bytes, identifiers and the clock.
\<close>

section \<open>Exports\<close>

fun sql_rank :: "js \<Rightarrow> int" where
  "sql_rank (JNum _) = 1"
| "sql_rank (JBool _) = 1"
| "sql_rank (JStr _) = 2"
| "sql_rank _ = 0"

text \<open>The order of SQLite: nulls, numbers, texts by their bytes.\<close>

definition sql_cmp :: "js \<Rightarrow> js \<Rightarrow> int" where
  "sql_cmp a b = (case (a, b) of
      (JNum x, JNum y) \<Rightarrow> num_cmp x y
    | (JStr x, JStr y) \<Rightarrow> str_cmp x y
    | _ \<Rightarrow> sql_rank a - sql_rank b)"

fun key_cmp :: "js list \<Rightarrow> js list \<Rightarrow> int" where
  "key_cmp (a # as) (b # bs) = (let c = sql_cmp a b in if c \<noteq> 0 then c else key_cmp as bs)"
| "key_cmp _ _ = 0"

definition source_columns :: "table_definition \<Rightarrow> string list" where
  "source_columns td = (case find (\<lambda>d. td_name d = td_source td) (concat (map FULL_BACKUP_TABLES PORTAL_BACKUP_DOMAINS)) of
      Some d \<Rightarrow> td_columns d | None \<Rightarrow> td_columns td)"

definition picked :: "table_definition \<Rightarrow> row \<Rightarrow> row" where
  "picked td r = map (\<lambda>c. r ! index_of c (source_columns td)) (td_columns td)"

definition table_rows :: "table_definition \<Rightarrow> restore_tables \<Rightarrow> row list" where
  "table_rows td t = js_sort (\<lambda>a b. key_cmp (primary_values td a) (primary_values td b)) (map (picked td) (rt_rows t (td_source td)))"

definition schema_incompatible :: restore_fault where "schema_incompatible = Coded ''backup_schema_incompatible''"

definition loadTable :: "table_definition \<Rightarrow> full_table restore_eff" where
  "loadTable td = bindM (d1_read schema_incompatible (table_rows td)) (\<lambda>rows. returnM \<lparr>ft_definition = td, ft_rows = rows\<rparr>)"

fun loadTables :: "table_definition list \<Rightarrow> full_table list restore_eff" where
  "loadTables [] = returnM []"
| "loadTables (td # tds) = bindM (loadTable td) (\<lambda>t. bindM (loadTables tds) (\<lambda>ts. returnM (t # ts)))"

definition record_count :: "full_table list \<Rightarrow> nat" where
  "record_count ts = sum_list (map (\<lambda>t. length (ft_rows t)) ts)"

record exporter =
  ex_domain :: backup_domain
  ex_path :: string
  ex_export :: "int \<Rightarrow> (js \<times> nat) restore_eff"

definition domain_path :: "backup_domain \<Rightarrow> string" where
  "domain_path d = ''domains/'' @ domain_name d @ ''.json''"

definition export_payload :: "backup_domain \<Rightarrow> int \<Rightarrow> full_table list \<Rightarrow> restore_fault + js \<times> nat" where
  "export_payload d version tables =
     (case validateFullBackupDomainPayload d (payload_js \<lparr>fp_domain = d, fp_version = version, fp_tables = tables\<rparr>) of
        None \<Rightarrow> Inl (Coded ''backup_full_payload_invalid'')
      | Some p \<Rightarrow> Inr (payload_js p, record_count (fp_tables p)))"

definition domainExporter :: "backup_domain \<Rightarrow> exporter" where
  "domainExporter d = \<lparr>ex_domain = d, ex_path = domain_path d,
     ex_export = (\<lambda>version.
       bindM (requireM (positive version) schema_incompatible) (\<lambda>_.
       bindM (loadTables (FULL_BACKUP_TABLES d)) (\<lambda>tables. liftM (export_payload d version tables))))\<rparr>"

type_synonym registry = "backup_domain \<Rightarrow> exporter option"

definition FULL_BACKUP_EXPORTERS :: registry where
  "FULL_BACKUP_EXPORTERS d = Some (domainExporter d)"

definition exporter_of :: "registry \<Rightarrow> backup_domain \<Rightarrow> exporter option" where
  "exporter_of registry d = (case registry d of
      Some e \<Rightarrow> if ex_domain e = d \<and> ex_path e = domain_path d then Some e else None | None \<Rightarrow> None)"

text \<open>One domain exported and validated again, with its digest.\<close>

definition current_payload :: "registry \<Rightarrow> int \<Rightarrow> backup_domain \<Rightarrow> restore_fault \<Rightarrow> full_payload restore_eff" where
  "current_payload registry version d fault = (case exporter_of registry d of
      None \<Rightarrow> throwM fault
    | Some e \<Rightarrow>
        bindM (ex_export e version) (\<lambda>(payload, records).
        bindM (liftM (case validateFullBackupDomainPayload d payload of None \<Rightarrow> Inl (Coded ''backup_full_payload_invalid'') | Some p \<Rightarrow> Inr p)) (\<lambda>p.
        bindM (requireM (record_count (fp_tables p) = records) fault) (\<lambda>_.
        returnM p))))"

definition payload_digest :: "(string \<Rightarrow> string) \<Rightarrow> full_payload \<Rightarrow> restore_fault + string" where
  "payload_digest sha p = (case canonicalBackupJson (payload_js p) of Some text \<Rightarrow> Inr (sha256Hex sha text) | None \<Rightarrow> Inl Uncoded)"

section \<open>The approval token\<close>

definition manifest_entry :: "js \<Rightarrow> backup_domain \<Rightarrow> js option" where
  "manifest_entry manifest d = (case jget manifest ''entries'' of
      JArr es \<Rightarrow> (case find (\<lambda>e. jget e ''domain'' = JStr (domain_name d)) es of
          Some e \<Rightarrow> if jget e ''path'' = JStr (domain_path d)
            then Some (JObj (map (\<lambda>k. (k, jget e k)) [''domain'', ''path'', ''sha256'', ''bytes'', ''records''])) else None
        | None \<Rightarrow> None)
    | _ \<Rightarrow> None)"

fun current_states :: "(string \<Rightarrow> string) \<Rightarrow> registry \<Rightarrow> int \<Rightarrow> backup_domain list \<Rightarrow> js list restore_eff" where
  "current_states sha registry version [] = returnM []"
| "current_states sha registry version (d # ds) =
     bindM (current_payload registry version d (OwnFault ''backup_schema_incompatible'' 409)) (\<lambda>p.
     bindM (if d = DAudit then returnM []
            else bindM (liftM (payload_digest sha p)) (\<lambda>digest.
              returnM [JObj [(''domain'', JStr (domain_name d)), (''sha256'', JStr digest), (''records'', JInt (int (record_count (fp_tables p))))]])) (\<lambda>x.
     bindM (current_states sha registry version ds) (\<lambda>xs. returnM (x @ xs))))"

definition token_material :: "js \<Rightarrow> backup_domain list \<Rightarrow> js list \<Rightarrow> int \<Rightarrow> js list \<Rightarrow> js" where
  "token_material manifest selected entries version states = JObj [(''version'', JInt 1),
     (''backup'', JObj [(''format'', jget manifest ''format''), (''version'', jget manifest ''version''), (''mode'', jget manifest ''mode''),
       (''schemaVersion'', jget manifest ''schemaVersion''), (''domains'', domains_js selected), (''entries'', JArr entries)]),
     (''current'', JObj [(''schemaVersion'', JInt version), (''domains'', JArr states)])]"

text \<open>Its own errors keep their code, all others say that the schema is incompatible.\<close>

definition plan_fault :: "restore_fault \<Rightarrow> restore_fault" where
  "plan_fault e = (case e of OwnFault c s \<Rightarrow> Coded c | _ \<Rightarrow> schema_incompatible)"

definition createBackupRestorePlan :: "(string \<Rightarrow> string) \<Rightarrow> registry \<Rightarrow> js \<Rightarrow> js \<Rightarrow> int \<Rightarrow> (backup_domain list \<times> string) restore_eff" where
  "createBackupRestorePlan sha registry manifest domains version = catchM
     (bindM (requireM (manifest \<noteq> JUndef) (OwnFault ''backup_request_invalid'' 400)) (\<lambda>_.
      bindM (requireM (positive version) (OwnFault ''backup_schema_incompatible'' 409)) (\<lambda>_.
      bindM (liftM (selectBackupRestoreDomains (jget manifest ''domains'') domains)) (\<lambda>selected.
      bindM (liftM (case those (map (manifest_entry manifest) selected) of Some es \<Rightarrow> Inr es | None \<Rightarrow> Inl (OwnFault ''backup_request_invalid'' 400))) (\<lambda>entries.
      bindM (current_states sha registry version selected) (\<lambda>states.
      bindM (liftM (case canonicalBackupJson (token_material manifest selected entries version states) of
          Some text \<Rightarrow> Inr (sha256Hex sha text) | None \<Rightarrow> Inl Uncoded)) (\<lambda>token.
      returnM (selected, token))))))))
     (\<lambda>e. throwM (plan_fault e))"

section \<open>Dependencies\<close>

record encrypted_document =
  ed_manifest :: js
  ed_body :: js
  ed_records :: int

record isolated_result =
  iso_selected :: "backup_domain list"
  iso_sourceVersion :: int
  iso_currentVersion :: int
  iso_canCommit :: bool
  iso_summary :: js

record restore_platform =
  rf_sha :: "string \<Rightarrow> string"
  rf_sqlite :: sqlite
  rf_registry :: registry
  rf_validateDocument :: "js \<Rightarrow> restore_fault + encrypted_document"
  rf_decrypt :: "encrypted_document \<Rightarrow> js \<Rightarrow> backup_domain list \<Rightarrow> restore_fault + backup_domain list \<times> payloads"
  rf_export :: "js \<Rightarrow> backup_domain list \<Rightarrow> int \<Rightarrow> encrypted_document restore_eff"
  rf_testRestore :: "js \<Rightarrow> js \<Rightarrow> backup_domain list \<Rightarrow> js \<Rightarrow> isolated_result restore_eff"
  rf_now :: int
  rf_random :: "nat list"
  rf_stageId :: string
  rf_auditId :: string
  rf_correlationId :: string

definition decryptSourceDocument :: "restore_platform \<Rightarrow> js \<Rightarrow> js \<Rightarrow> backup_domain list \<Rightarrow> restore_fault + backup_domain list \<times> payloads" where
  "decryptSourceDocument pf document password domains =
     bindE (rf_validateDocument pf document) (\<lambda>d. rf_decrypt pf d password domains)"

section \<open>Recovery points\<close>

definition recovery_invalid :: restore_fault where "recovery_invalid = OwnFault ''backup_recovery_point_invalid'' 422"
definition recovery_stale :: restore_fault where "recovery_stale = OwnFault ''backup_recovery_point_stale'' 409"
definition recovery_schema :: restore_fault where "recovery_schema = OwnFault ''backup_schema_incompatible'' 409"

definition ensurePolicy :: "restore_policy \<Rightarrow> restore_fault + unit" where
  "ensurePolicy p = guardE (rp_physical p \<noteq> [] \<and> DRbac \<notin> set (rp_physical p) \<and> DAudit \<notin> set (rp_physical p)) recovery_invalid"

definition manifestBinding :: "(string \<Rightarrow> string) \<Rightarrow> encrypted_document \<Rightarrow> restore_fault + string" where
  "manifestBinding sha d = (case canonicalBackupJson (ed_manifest d) of Some text \<Rightarrow> Inr (sha256Hex sha text) | None \<Rightarrow> Inl Uncoded)"

definition manifest_covers :: "encrypted_document \<Rightarrow> restore_policy \<Rightarrow> bool" where
  "manifest_covers d p \<longleftrightarrow> jget (ed_manifest d) ''domains'' = domains_js (rp_physical p)"

definition manifest_version :: "encrypted_document \<Rightarrow> int \<Rightarrow> bool" where
  "manifest_version d v \<longleftrightarrow> jget (ed_manifest d) ''schemaVersion'' = JInt v"

text \<open>While a point is made, the errors of the export keep their code.\<close>

definition createSelectiveRecoveryPoint :: "restore_platform \<Rightarrow> js \<Rightarrow> restore_policy \<Rightarrow> int \<Rightarrow> (encrypted_document \<times> string) restore_eff" where
  "createSelectiveRecoveryPoint pf password policy version = catchM
     (bindM (liftM (ensurePolicy policy)) (\<lambda>_.
      bindM (requireM (positive version) recovery_schema) (\<lambda>_.
      bindM (rf_export pf password (rp_physical policy) version) (\<lambda>document.
      bindM (requireM (manifest_covers document policy \<and> manifest_version document version) recovery_invalid) (\<lambda>_.
      bindM (liftM (manifestBinding (rf_sha pf) document)) (\<lambda>binding.
      returnM (document, binding)))))))
     (\<lambda>e. throwM (case e of OwnFault c s \<Rightarrow> Coded c | Coded c \<Rightarrow> Coded c | Uncoded \<Rightarrow> Coded ''backup_recovery_point_invalid''))"

fun verified_payloads :: "restore_platform \<Rightarrow> int \<Rightarrow> payloads \<Rightarrow> backup_domain list \<Rightarrow> payloads restore_eff" where
  "verified_payloads pf version incoming [] = returnM Map.empty"
| "verified_payloads pf version incoming (d # ds) =
     bindM (requireM (incoming d \<noteq> None \<and> exporter_of (rf_registry pf) d \<noteq> None) recovery_schema) (\<lambda>_.
     bindM (liftM (case validateFullBackupDomainPayload d (the (incoming d)) of None \<Rightarrow> Inl (Coded ''backup_full_payload_invalid'') | Some p \<Rightarrow> Inr p)) (\<lambda>given.
     bindM (current_payload (rf_registry pf) version d recovery_schema) (\<lambda>current.
     bindM (liftM (payload_digest (rf_sha pf) given)) (\<lambda>a.
     bindM (liftM (payload_digest (rf_sha pf) current)) (\<lambda>b.
     bindM (requireM (a = b) recovery_stale) (\<lambda>_.
     bindM (verified_payloads pf version incoming ds) (\<lambda>rest.
     returnM (rest(d \<mapsto> payload_js current)))))))))"

definition recovery_fault :: "restore_fault \<Rightarrow> restore_fault" where
  "recovery_fault e = (case e of OwnFault c s \<Rightarrow> Coded c | _ \<Rightarrow> Coded ''backup_recovery_point_invalid'')"

record verified_point =
  vp_binding :: string
  vp_physical :: "backup_domain list"
  vp_payloads :: payloads

definition verifySelectiveRecoveryPoint :: "restore_platform \<Rightarrow> bool \<Rightarrow> js \<Rightarrow> js \<Rightarrow> restore_policy \<Rightarrow> int \<Rightarrow> verified_point restore_eff" where
  "verifySelectiveRecoveryPoint pf hasDB document password policy version = catchM
     (bindM (liftM (ensurePolicy policy)) (\<lambda>_.
      bindM (requireM hasDB (OwnFault ''backup_database_unavailable'' 503)) (\<lambda>_.
      bindM (requireM (positive version) recovery_schema) (\<lambda>_.
      bindM (liftM (rf_validateDocument pf document)) (\<lambda>d.
      bindM (requireM (manifest_version d version) recovery_schema) (\<lambda>_.
      bindM (requireM (manifest_covers d policy) recovery_invalid) (\<lambda>_.
      bindM (liftM (rf_decrypt pf d password (rp_physical policy))) (\<lambda>(selected, incoming).
      bindM (requireM (selected = rp_physical policy) recovery_invalid) (\<lambda>_.
      bindM (verified_payloads pf version incoming (rp_physical policy)) (\<lambda>payloads.
      bindM (liftM (manifestBinding (rf_sha pf) d)) (\<lambda>binding.
      returnM \<lparr>vp_binding = binding, vp_physical = rp_physical policy, vp_payloads = payloads\<rparr>)))))))))))
     (\<lambda>e. throwM (recovery_fault e))"

end
