(* ===== verification/RestoreRun.thy ===== *)
theory RestoreRun
  imports RestoreCommit MaintenanceGate
begin

text \<open>
  Preparing and committing a selective restore (\<open>src/backup/restore/backup-selective-restore-prepare.ts\<close>,
  \<open>backup-selective-restore-commit.ts\<close>) and the endpoint of both and of the cancellation
  (\<open>worker/backup-selective-restore-entry.ts\<close>). Audit events of the endpoint, whose failures are swallowed, are not
  modelled; the one that is part of a commit is a statement of its batch.
\<close>

section \<open>Input\<close>

definition request_fault :: restore_fault where "request_fault = OwnFault ''backup_request_invalid'' 400"

record schema_info =
  si_state :: string
  si_version :: int

definition validateSchema :: "schema_info \<Rightarrow> restore_fault + unit" where
  "validateSchema s = guardE (si_state s = ''ready'' \<and> positive (si_version s)) (OwnFault ''backup_schema_incompatible'' 409)"

definition has_own :: "js \<Rightarrow> string \<Rightarrow> bool" where
  "has_own v k \<longleftrightarrow> k \<in> set (jkeys v)"

definition prepare_keys :: "string list" where
  "prepare_keys = [''operation'', ''document'', ''password'', ''domains'', ''approvalToken'', ''recoveryPassword'']"

record prepare_input =
  pi_operation :: stage_operation
  pi_document :: js
  pi_password :: js
  pi_domains :: js
  pi_approvalToken :: js
  pi_recoveryPassword :: js

definition validatePrepareInput :: "js \<Rightarrow> restore_fault + prepare_input" where
  "validatePrepareInput v =
     (case parse_operation (jget v ''operation'') of
        None \<Rightarrow> Inl request_fault
      | Some operation \<Rightarrow>
          (if plain_object v \<and> only_keys prepare_keys v
             \<and> list_all (has_own v) [''document'', ''password'', ''domains'', ''approvalToken'', ''recoveryPassword'']
           then Inr \<lparr>pi_operation = operation, pi_document = jget v ''document'', pi_password = jget v ''password'', pi_domains = jget v ''domains'',
             pi_approvalToken = jget v ''approvalToken'', pi_recoveryPassword = jget v ''recoveryPassword''\<rparr>
           else Inl request_fault))"

record commit_input =
  ci_operation :: stage_operation
  ci_document :: js
  ci_password :: js
  ci_domains :: js
  ci_approvalToken :: js
  ci_recoveryDocument :: js
  ci_recoveryPassword :: js
  ci_stageId :: js
  ci_stageSecret :: js
  ci_recoverySaved :: js
  ci_sessionRevocation :: js
  ci_confirmation :: js

definition commit_keys :: "string list" where
  "commit_keys = [''operation'', ''document'', ''password'', ''domains'', ''approvalToken'', ''recoveryDocument'', ''recoveryPassword'', ''stageId'',
     ''stageSecret'', ''acknowledgeRecoverySaved'', ''acknowledgeSessionRevocation'', ''confirmation'']"

definition validateCommitInput :: "js \<Rightarrow> restore_fault + commit_input" where
  "validateCommitInput v =
     (case parse_operation (jget v ''operation'') of
        None \<Rightarrow> Inl request_fault
      | Some operation \<Rightarrow>
          (if plain_object v \<and> only_keys commit_keys v
             \<and> list_all (has_own v) [''document'', ''password'', ''domains'', ''approvalToken'', ''recoveryDocument'', ''recoveryPassword'',
                 ''stageId'', ''stageSecret'', ''acknowledgeRecoverySaved'', ''confirmation'']
           then Inr \<lparr>ci_operation = operation, ci_document = jget v ''document'', ci_password = jget v ''password'', ci_domains = jget v ''domains'',
             ci_approvalToken = jget v ''approvalToken'', ci_recoveryDocument = jget v ''recoveryDocument'',
             ci_recoveryPassword = jget v ''recoveryPassword'', ci_stageId = jget v ''stageId'', ci_stageSecret = jget v ''stageSecret'',
             ci_recoverySaved = jget v ''acknowledgeRecoverySaved'', ci_sessionRevocation = jget v ''acknowledgeSessionRevocation'',
             ci_confirmation = jget v ''confirmation''\<rparr>
           else Inl request_fault))"

definition actor_text :: "js \<Rightarrow> string" where
  "actor_text v = js_trim (to_str (coalesce v (JStr [])))"

text \<open>\<open>actorIdentity\<close> of the preparation and \<open>normalizeActor\<close> of the commit.\<close>

definition prepare_actor :: "js \<Rightarrow> restore_fault + string" where
  "prepare_actor v = (let a = actor_text v in if a = [] \<or> 320 < length a then Inl request_fault else Inr a)"

definition normalizeActor :: "js \<Rightarrow> restore_fault + string \<times> string list" where
  "normalizeActor v =
     (let source = (case v of JStr s \<Rightarrow> JObj [(''identity'', v), (''groups'', JArr [])] | _ \<Rightarrow> v) in
      if \<not> plain_object source then Inl request_fault
      else (let identity = actor_text (jget source ''identity'') in
        if identity = [] \<or> 320 < length identity then Inl request_fault
        else (case coalesce (jget source ''groups'') (JArr []) of
            JArr gs \<Rightarrow>
              (if 128 < length gs then Inl request_fault
               else (let groups = sort_strings (filter (\<lambda>g. g \<noteq> []) (uniq (map actor_text gs))) in
                 if list_ex (\<lambda>g. 320 < length g) groups then Inl request_fault else Inr (identity, groups)))
          | _ \<Rightarrow> Inl request_fault)))"

section \<open>Errors that leave an operation\<close>

definition restore_statuses :: "(string \<times> int) list" where
  "restore_statuses = [(''backup_request_invalid'', 400), (''backup_database_unavailable'', 503), (''backup_schema_incompatible'', 409),
     (''backup_restore_dependency_invalid'', 422), (''backup_restore_domain_unsupported'', 422), (''backup_restore_confirmation_required'', 422),
     (''backup_restore_stage_invalid'', 409), (''backup_restore_stage_expired'', 409), (''backup_restore_stage_cancelled'', 409),
     (''backup_restore_stage_committed'', 409), (''backup_restore_stale'', 409), (''backup_recovery_point_invalid'', 422),
     (''backup_recovery_point_stale'', 409), (''backup_restore_admin_required'', 422)]"

definition prepare_statuses :: "(string \<times> int) list" where
  "prepare_statuses =
     filter (\<lambda>(c, _). c \<notin> set [''backup_restore_confirmation_required'', ''backup_restore_stage_expired'', ''backup_restore_stage_cancelled'',
       ''backup_restore_stage_committed'']) restore_statuses
     @ [(''backup_restore_commit_failed'', 422), (''backup_restore_commit_too_large'', 422)]"

definition commit_statuses :: "(string \<times> int) list" where
  "commit_statuses = restore_statuses @ [(''backup_restore_commit_too_large'', 422), (''backup_restore_commit_failed'', 500)]"

definition normalize_restore_error :: "(string \<times> int) list \<Rightarrow> restore_fault \<Rightarrow> restore_fault" where
  "normalize_restore_error statuses e = (case e of
      OwnFault c s \<Rightarrow> OwnFault c s
    | Coded c \<Rightarrow> (case map_of statuses c of Some s \<Rightarrow> OwnFault c s | None \<Rightarrow> OwnFault ''backup_restore_commit_failed'' 500)
    | Uncoded \<Rightarrow> OwnFault ''backup_restore_commit_failed'' 500)"

section \<open>Preparing\<close>

record prepare_result =
  pr_operation :: stage_operation
  pr_selected :: "backup_domain list"
  pr_stageId :: string
  pr_secret :: string
  pr_expiresAt :: int
  pr_isolated :: isolated_result
  pr_recovery :: encrypted_document

definition own_commit_failed :: "int \<Rightarrow> restore_fault" where "own_commit_failed status = OwnFault ''backup_restore_commit_failed'' status"
definition own_stale :: restore_fault where "own_stale = OwnFault ''backup_restore_stale'' 409"
definition own_stage :: restore_fault where "own_stage = OwnFault ''backup_restore_stage_invalid'' 409"

definition prepared_source :: "restore_platform \<Rightarrow> prepare_input \<Rightarrow> restore_policy \<Rightarrow> schema_info \<Rightarrow> isolated_result restore_eff" where
  "prepared_source pf inp policy schema =
     bindM (rf_testRestore pf (pi_document inp) (pi_password inp) (rp_selected policy) (pi_approvalToken inp)) (\<lambda>isolated.
     bindM (requireM (iso_canCommit isolated \<and> iso_currentVersion isolated = si_version schema \<and> iso_sourceVersion isolated = si_version schema
       \<and> iso_selected isolated = rp_selected policy) (own_commit_failed 422)) (\<lambda>_.
     bindM (liftM (decryptSourceDocument pf (pi_document inp) (pi_password inp) (rp_selected policy))) (\<lambda>(selected, payloads).
     bindM (requireM (selected = rp_selected policy) own_stale) (\<lambda>_.
     bindM (liftM (validateSelectiveRestoreCandidate policy payloads)) (\<lambda>_.
     returnM isolated)))))"

definition prepared_recovery :: "restore_platform \<Rightarrow> prepare_input \<Rightarrow> restore_policy \<Rightarrow> schema_info \<Rightarrow> (encrypted_document \<times> string) restore_eff" where
  "prepared_recovery pf inp policy schema =
     bindM (createSelectiveRecoveryPoint pf (pi_recoveryPassword inp) policy (si_version schema)) (\<lambda>(document, binding).
     bindM (verifySelectiveRecoveryPoint pf True (ed_body document) (pi_recoveryPassword inp) policy (si_version schema)) (\<lambda>verified.
     bindM (requireM (vp_binding verified = binding \<and> vp_physical verified = rp_physical policy) (OwnFault ''backup_recovery_point_invalid'' 422)) (\<lambda>_.
     bindM (liftM (validateSelectiveRestoreCandidate policy (vp_payloads verified))) (\<lambda>_.
     returnM (document, binding)))))"

definition prepareSelectiveProductionRestore :: "restore_platform \<Rightarrow> bool \<Rightarrow> js \<Rightarrow> schema_info \<Rightarrow> js \<Rightarrow> prepare_result restore_eff" where
  "prepareSelectiveProductionRestore pf hasDB inputValue schema actorValue = catchM
     (bindM (liftM (validatePrepareInput inputValue)) (\<lambda>inp.
      bindM (requireM hasDB (OwnFault ''backup_database_unavailable'' 503)) (\<lambda>_.
      bindM (liftM (validateSchema schema)) (\<lambda>_.
      bindM (liftM (prepare_actor actorValue)) (\<lambda>actor.
      bindM (liftM (validateSelectiveRestoreDomains (pi_domains inp))) (\<lambda>policy.
      bindM (prepared_source pf inp policy schema) (\<lambda>isolated.
      bindM (prepared_recovery pf inp policy schema) (\<lambda>(document, recoveryBinding).
      bindM (requireM (integer_ok (rf_now pf) 1 \<and> stage_id_pattern (rf_stageId pf)) own_stage) (\<lambda>_.
      bindM (liftM (createRestoreStageSecret (rf_random pf))) (\<lambda>secret.
      bindM (liftM (hashRestoreStageSecret (rf_sha pf) (JStr secret))) (\<lambda>secretHash.
      let expiresAt = rf_now pf + 15 * 60 * 1000 in
      bindM (liftM (createRestoreStageBinding (rf_sha pf) \<lparr>sb_operation = pi_operation inp, sb_actor = actor, sb_domains = rp_selected policy,
        sb_token = pi_approvalToken inp, sb_checksum = recoveryBinding, sb_sourceVersion = iso_sourceVersion isolated,
        sb_currentVersion = iso_currentVersion isolated, sb_expiresAt = expiresAt\<rparr>)) (\<lambda>sourceBinding.
      bindM (createRestoreStage \<lparr>st_id = rf_stageId pf, st_operation = pi_operation inp, st_actor = actor, st_domains = rp_selected policy,
        st_secretHash = secretHash, st_sourceBinding = sourceBinding, st_recoveryBinding = recoveryBinding,
        st_sourceVersion = iso_sourceVersion isolated, st_currentVersion = iso_currentVersion isolated, st_createdAt = rf_now pf,
        st_expiresAt = expiresAt\<rparr>) (\<lambda>_.
      returnM \<lparr>pr_operation = pi_operation inp, pr_selected = rp_selected policy, pr_stageId = rf_stageId pf, pr_secret = secret,
        pr_expiresAt = expiresAt, pr_isolated = isolated, pr_recovery = document\<rparr>)))))))))))))
     (\<lambda>e. throwM (normalize_restore_error prepare_statuses e))"

section \<open>Committing\<close>

definition validateConfirmation :: "commit_input \<Rightarrow> restore_policy \<Rightarrow> string \<Rightarrow> restore_fault + unit" where
  "validateConfirmation inp policy i =
     (let prefix = (case ci_operation inp of OpRestore \<Rightarrow> ''RESTORE'' | OpRollback \<Rightarrow> ''ROLLBACK'') in
      guardE (ci_recoverySaved inp = JBool True \<and> ci_confirmation inp = JStr (prefix @ '':'' @ i)
        \<and> (DLocalAuth \<in> set (rp_selected policy) \<longrightarrow> ci_sessionRevocation inp = JBool True))
        (OwnFault ''backup_restore_confirmation_required'' 422))"

definition validateStage :: "stage_record option \<Rightarrow> commit_input \<Rightarrow> restore_policy \<Rightarrow> string \<Rightarrow> schema_info \<Rightarrow> string \<Rightarrow> int \<Rightarrow> restore_fault + stage_record" where
  "validateStage found inp policy actor schema i now = (case found of
      None \<Rightarrow> Inl own_stage
    | Some s \<Rightarrow>
        (if st_id s \<noteq> i \<or> st_actor s \<noteq> actor \<or> st_operation s \<noteq> ci_operation inp \<or> st_domains s \<noteq> rp_selected policy
            \<or> st_sourceVersion s \<noteq> si_version schema \<or> st_currentVersion s \<noteq> si_version schema then Inl own_stage
         else if st_status s = Cancelled then Inl (OwnFault ''backup_restore_stage_cancelled'' 409)
         else if st_status s = Committed \<or> st_status s = Committing then Inl (OwnFault ''backup_restore_stage_committed'' 409)
         else if st_status s = Expired \<or> st_expiresAt s \<le> now then Inl (OwnFault ''backup_restore_stage_expired'' 409)
         else if st_status s \<noteq> Prepared then Inl own_stage
         else Inr s))"

definition auditRow :: "restore_platform \<Rightarrow> commit_input \<Rightarrow> stage_record \<Rightarrow> string \<times> string list \<Rightarrow> isolated_result \<Rightarrow> audit_row" where
  "auditRow pf inp stage actor isolated =
     \<lparr>ar_id = rf_auditId pf, ar_createdAt = rf_now pf, ar_correlationId = rf_correlationId pf, ar_actor = fst actor,
      ar_groupsJson = json_print (JArr (map JStr (snd actor))),
      ar_action = (case ci_operation inp of OpRestore \<Rightarrow> ''backup.restore.commit'' | OpRollback \<Rightarrow> ''backup.rollback.commit''),
      ar_resourceId = st_id stage, ar_schemaVersion = int_to_str (iso_currentVersion isolated),
      ar_metadataJson = json_print (JObj ([(''operation'', JStr (stage_operation_name (ci_operation inp))), (''domains'', domains_js (iso_selected isolated)),
        (''sourceSchemaVersion'', JInt (iso_sourceVersion isolated)), (''currentSchemaVersion'', JInt (iso_currentVersion isolated))]
        @ map (\<lambda>k. (k, jget (iso_summary isolated) k)) [''tables'', ''records'', ''checks'', ''warnings'']))\<rparr>"

definition own_recovery_stale :: restore_fault where "own_recovery_stale = OwnFault ''backup_recovery_point_stale'' 409"

text \<open>The stage as it is found, and the secret that opens it.\<close>

definition opened_stage :: "restore_platform \<Rightarrow> commit_input \<Rightarrow> restore_policy \<Rightarrow> string \<Rightarrow> schema_info \<Rightarrow> string \<Rightarrow> stage_record restore_eff" where
  "opened_stage pf inp policy actor schema i =
     bindM (loadRestoreStage i) (\<lambda>found.
     bindM (liftM (validateStage found inp policy actor schema i (rf_now pf))) (\<lambda>stage.
     bindM (requireM (verifyRestoreStageSecret (rf_sha pf) (JStr (st_secretHash stage)) (ci_stageSecret inp)) own_stage) (\<lambda>_.
     returnM stage)))"

text \<open>What is to be written: the test restore, the recovery point and the binding are checked before the source is read.\<close>

definition checked_source ::
  "restore_platform \<Rightarrow> commit_input \<Rightarrow> restore_policy \<Rightarrow> string \<Rightarrow> schema_info \<Rightarrow> stage_record \<Rightarrow> (isolated_result \<times> payloads \<times> payloads) restore_eff" where
  "checked_source pf inp policy actor schema stage =
     bindM (rf_testRestore pf (ci_document inp) (ci_password inp) (rp_selected policy) (ci_approvalToken inp)) (\<lambda>isolated.
     bindM (requireM (iso_canCommit isolated \<and> iso_sourceVersion isolated = st_sourceVersion stage \<and> iso_currentVersion isolated = st_currentVersion stage
       \<and> iso_selected isolated = rp_selected policy) own_stale) (\<lambda>_.
     bindM (verifySelectiveRecoveryPoint pf True (ci_recoveryDocument inp) (ci_recoveryPassword inp) policy (si_version schema)) (\<lambda>recovery.
     bindM (requireM (vp_physical recovery = rp_physical policy
       \<and> verifyRestoreStageBinding (JStr (st_recoveryBinding stage)) (JStr (vp_binding recovery))) own_recovery_stale) (\<lambda>_.
     bindM (liftM (createRestoreStageBinding (rf_sha pf) \<lparr>sb_operation = ci_operation inp, sb_actor = actor, sb_domains = rp_selected policy,
        sb_token = ci_approvalToken inp, sb_checksum = vp_binding recovery, sb_sourceVersion = iso_sourceVersion isolated,
        sb_currentVersion = iso_currentVersion isolated, sb_expiresAt = st_expiresAt stage\<rparr>)) (\<lambda>binding.
     bindM (requireM (verifyRestoreStageBinding (JStr (st_sourceBinding stage)) (JStr binding)) own_stale) (\<lambda>_.
     bindM (liftM (decryptSourceDocument pf (ci_document inp) (ci_password inp) (rp_selected policy))) (\<lambda>(selected, source).
     bindM (requireM (selected = rp_selected policy) own_stale) (\<lambda>_.
     bindM (liftM (validateSelectiveRestoreCandidate policy source)) (\<lambda>_.
     returnM (isolated, source, vp_payloads recovery))))))))))"

definition stage_claim_of :: "restore_platform \<Rightarrow> stage_record \<Rightarrow> string \<Rightarrow> stage_claim" where
  "stage_claim_of pf stage actor = \<lparr>sg_id = st_id stage, sg_actor = actor, sg_secretHash = st_secretHash stage, sg_now = rf_now pf\<rparr>"

text \<open>The batch, and what its first and last result say.\<close>

definition written :: "restore_platform \<Rightarrow> restore_statement list \<Rightarrow> unit restore_eff" where
  "written pf statements =
     bindM (run_batch (rf_sqlite pf) statements) (\<lambda>results.
     bindM (requireM (length results = length statements) (own_commit_failed 500)) (\<lambda>_.
     bindM (requireM (results \<noteq> [] \<and> result_one (hd results)) own_recovery_stale) (\<lambda>_.
     requireM (results \<noteq> [] \<and> result_one (last results)) (own_commit_failed 500))))"

record commit_result =
  cr_operation :: stage_operation
  cr_stageId :: string
  cr_selected :: "backup_domain list"
  cr_isolated :: isolated_result

definition commitSelectiveProductionRestore :: "restore_platform \<Rightarrow> bool \<Rightarrow> js \<Rightarrow> schema_info \<Rightarrow> js \<Rightarrow> commit_result restore_eff" where
  "commitSelectiveProductionRestore pf hasDB inputValue schema actorValue = catchM
     (bindM (liftM (validateCommitInput inputValue)) (\<lambda>inp.
      bindM (requireM hasDB (OwnFault ''backup_database_unavailable'' 503)) (\<lambda>_.
      bindM (liftM (validateSchema schema)) (\<lambda>_.
      bindM (liftM (normalizeActor actorValue)) (\<lambda>actor.
      bindM (liftM (validateSelectiveRestoreDomains (ci_domains inp))) (\<lambda>policy.
      bindM (liftM (case ci_stageId inp of JStr s \<Rightarrow> if stage_id_pattern s then Inr s else Inl request_fault | _ \<Rightarrow> Inl request_fault)) (\<lambda>i.
      bindM (liftM (validateConfirmation inp policy i)) (\<lambda>_.
      bindM (requireM (integer_ok (rf_now pf) 1) own_stage) (\<lambda>_.
      bindM (opened_stage pf inp policy (fst actor) schema i) (\<lambda>stage.
      bindM (checked_source pf inp policy (fst actor) schema stage) (\<lambda>(isolated, source, current).
      bindM (liftM (buildSelectiveRestoreStatements (stage_claim_of pf stage (fst actor)) policy source current
        (auditRow pf inp stage actor isolated))) (\<lambda>statements.
      bindM (written pf statements) (\<lambda>_.
      returnM \<lparr>cr_operation = ci_operation inp, cr_stageId = st_id stage, cr_selected = rp_selected policy, cr_isolated = isolated\<rparr>)))))))))))))
     (\<lambda>e. throwM (normalize_restore_error commit_statuses e))"

section \<open>The endpoint\<close>

datatype restore_answer =
    RestoreRefused int string
  | RestorePrepared prepare_result
  | RestoreCommitted commit_result
  | RestoreCancelled string

definition RESTORE_PREPARE :: string where "RESTORE_PREPARE = ''/api/admin/backups/import/encrypted/prepare-commit''"
definition RESTORE_COMMIT :: string where "RESTORE_COMMIT = ''/api/admin/backups/import/encrypted/commit''"
definition RESTORE_CANCEL :: string where "RESTORE_CANCEL = ''/api/admin/backups/import/encrypted/cancel''"

definition route_statuses :: "(string \<times> int) list" where
  "route_statuses = restore_statuses @ [(''backup_origin_forbidden'', 403), (''backup_method_not_allowed'', 405), (''backup_request_too_large'', 413),
     (''backup_restore_commit_failed'', 500)]"

text \<open>An error of an operation keeps its status only through the table.\<close>

definition route_error :: "restore_fault \<Rightarrow> restore_answer" where
  "route_error e =
     (let code = (case e of OwnFault c _ \<Rightarrow> c | Coded c \<Rightarrow> c | Uncoded \<Rightarrow> []) in
      case map_of route_statuses code of Some s \<Rightarrow> RestoreRefused s code | None \<Rightarrow> RestoreRefused 500 ''backup_restore_commit_failed'')"

definition bodyLimit :: "string \<Rightarrow> nat" where
  "bodyLimit path = (if path = RESTORE_CANCEL then 16 * 1024 else 42 * 1024 * 1024)"

definition declared_length :: "http_request \<Rightarrow> jsnum" where
  "declared_length rq = to_num (case rq_contentLength rq of None \<Rightarrow> JInt 0 | Some s \<Rightarrow> JStr s)"

definition readJson :: "http_request \<Rightarrow> nat \<Rightarrow> restore_fault + js" where
  "readJson rq limit =
     bindE (guardE (\<not> (declared_length rq \<noteq> NaN \<and> \<not> num_le (declared_length rq) (Num (int limit))) \<and> length (utf8 (rq_body rq)) \<le> limit)
       (Coded ''backup_request_too_large'')) (\<lambda>_.
     case json_parse (rq_body rq) of Some v \<Rightarrow> Inr v | None \<Rightarrow> Inl (Coded ''backup_request_invalid''))"

definition cancelInput :: "js \<Rightarrow> restore_fault + string \<times> string" where
  "cancelInput v = (case (jget v ''stageId'', jget v ''stageSecret'') of
      (JStr i, JStr s) \<Rightarrow> if plain_object v \<and> length (jkeys v) = 2 then Inr (i, s) else Inl (Coded ''backup_request_invalid'')
    | _ \<Rightarrow> Inl (Coded ''backup_request_invalid''))"

definition cancel_request :: "restore_platform \<Rightarrow> string \<Rightarrow> js \<Rightarrow> restore_answer restore_eff" where
  "cancel_request pf identity body =
     bindM (liftM (cancelInput body)) (\<lambda>(i, secret).
     bindM (liftM (hashRestoreStageSecret (rf_sha pf) (JStr secret))) (\<lambda>secretHash.
     bindM (cancelRestoreStage i identity secretHash (rf_now pf)) (\<lambda>_.
     returnM (RestoreCancelled i))))"

text \<open>The schema as \<open>inspectPortalSchema\<close> finds it is an argument.\<close>

definition handleSelectiveBackupRestoreRequest ::
  "(string \<Rightarrow> string option) \<Rightarrow> restore_platform \<Rightarrow> bool \<Rightarrow> schema_info restore_eff \<Rightarrow> string \<Rightarrow> string list \<Rightarrow> http_request \<Rightarrow> restore_answer restore_eff" where
  "handleSelectiveBackupRestoreRequest url_origin pf hasDB inspectSchema identity groups rq =
     (if rq_path rq \<notin> set [RESTORE_PREPARE, RESTORE_COMMIT, RESTORE_CANCEL] then returnM (RestoreRefused 404 ''backup_route_not_found'')
      else if rq_method rq \<noteq> ''POST'' then returnM (RestoreRefused 405 ''backup_method_not_allowed'')
      else if \<not> sameOriginAdminMutation url_origin rq then returnM (RestoreRefused 403 ''backup_origin_forbidden'')
      else catchM
        (bindM (liftM (readJson rq (bodyLimit (rq_path rq)))) (\<lambda>body.
         bindM (requireM hasDB (Coded ''backup_database_unavailable'')) (\<lambda>_.
         if rq_path rq = RESTORE_CANCEL then cancel_request pf identity body
         else
           bindM inspectSchema (\<lambda>schema.
           bindM (requireM (si_state schema = ''ready'' \<and> positive (si_version schema)) (Coded ''backup_schema_incompatible'')) (\<lambda>_.
           if rq_path rq = RESTORE_PREPARE
           then bindM (prepareSelectiveProductionRestore pf True body schema (JStr identity)) (\<lambda>r. returnM (RestorePrepared r))
           else bindM (commitSelectiveProductionRestore pf True body schema
               (JObj [(''identity'', JStr identity), (''groups'', JArr (map JStr groups))])) (\<lambda>r. returnM (RestoreCommitted r)))))))
        (\<lambda>e. returnM (route_error e)))"

end
