(* ===== verification/RestoreChunks.thy ===== *)
theory RestoreChunks
  imports RestoreRun
begin

text \<open>
  The rows of a restore travel in chunks of JSON: no chunk is larger than a bound value may be, and reading
  the chunks gives the rows back, in order, as SQLite sees them.
\<close>

section \<open>The text of a row\<close>

lemma plain_has_json: "json_plain v \<Longrightarrow> has_json v"
  by (induction v rule: has_json.induct) (auto simp: list_all_iff)

definition plain_row :: "row \<Rightarrow> bool" where
  "plain_row r \<longleftrightarrow> list_all (\<lambda>v. jsonScalar v \<and> json_plain v) r"

lemma canon_scalar: "jsonScalar v \<Longrightarrow> canon v = v"
  by (cases v) auto

lemma canon_row: "plain_row r \<Longrightarrow> canon (JArr r) = JArr r"
  by (induction r) (auto simp: plain_row_def canon_scalar)

lemma row_json: "plain_row r \<Longrightarrow> canonicalBackupJson (JArr r) = Some (json_print (JArr r))"
proof -
  assume r: "plain_row r"
  then have "has_json (JArr r)" by (auto simp: plain_row_def list_all_iff plain_has_json)
  then show ?thesis
    unfolding canonicalBackupJson_def canonicalJson_def canon_row [OF r] by (simp del: json_print.simps canon.simps has_json.simps)
qed

lemma plain_row_json: "plain_row r \<Longrightarrow> json_plain (JArr r)"
  by (auto simp: plain_row_def list_all_iff)

section \<open>Chunks\<close>

text \<open>What the loop has put together: groups of rows, each printed as one array.\<close>

definition chunk_text :: "row list \<Rightarrow> string" where
  "chunk_text g = ''['' @ js_join '','' (map (\<lambda>r. json_print (JArr r)) g) @ '']''"

lemma chunk_text_print: "chunk_text g = json_print (JArr (map JArr g))"
  by (simp add: chunk_text_def comp_def)

lemma flushed_text: "flushed (map (\<lambda>r. json_print (JArr r)) g) = (if g = [] then [] else [chunk_text g])"
  by (simp add: flushed_def chunk_text_def)

lemma utf8_append: "utf8 (s @ t) = utf8 s @ utf8 t"
  by (simp add: utf8_def)

lemma jsonBytes_append [simp]: "jsonBytes (s @ t) = jsonBytes s + jsonBytes t"
  by (simp add: jsonBytes_def utf8_append)

lemma jsonBytes_simps [simp]: "jsonBytes [] = 0" "jsonBytes ''['' = 1" "jsonBytes '']'' = 1" "jsonBytes '','' = 1"
  by (simp_all add: jsonBytes_def utf8_def utf8_char_def)

lemma js_join_snoc: "xs \<noteq> [] \<Longrightarrow> js_join sep (xs @ [x]) = js_join sep xs @ sep @ x"
  by (induction sep xs rule: js_join.induct) (auto simp: neq_Nil_conv)

lemma chunk_text_snoc:
  "jsonBytes (chunk_text (g @ [r])) = jsonBytes (json_print (JArr r)) + (if g = [] then 2 else jsonBytes (chunk_text g) + 1)"
proof (cases "g = []")
  case True
  have "chunk_text [r] = ''['' @ json_print (JArr r) @ '']''" by (simp add: chunk_text_def del: json_print.simps)
  with True show ?thesis by (simp only: append_Nil jsonBytes_append jsonBytes_simps) simp
next
  case False
  then have "map (\<lambda>r. json_print (JArr r)) g \<noteq> []" by simp
  from js_join_snoc [OF this, of "'',''" "json_print (JArr r)"]
  have "chunk_text (g @ [r]) = ''['' @ (js_join '','' (map (\<lambda>r. json_print (JArr r)) g) @ '','' @ json_print (JArr r)) @ '']''"
    unfolding chunk_text_def map_append list.map by (rule arg_cong)
  moreover have "jsonBytes (chunk_text g) = jsonBytes (js_join '','' (map (\<lambda>r. json_print (JArr r)) g)) + 2"
    unfolding chunk_text_def by (simp only: jsonBytes_append jsonBytes_simps)
  ultimately show ?thesis using False by (simp only: jsonBytes_append jsonBytes_simps if_False)
qed

lemma chunk_loop_groups:
  assumes "chunk_loop rows (map (\<lambda>r. json_print (JArr r)) g) bytes = Inr chunks" "list_all plain_row rows"
    and "bytes = (if g = [] then 2 else jsonBytes (chunk_text g))" "bytes \<le> MAX_SELECTIVE_RESTORE_JSON_BINDING_BYTES"
  shows "\<exists>gs. chunks = map chunk_text gs \<and> concat gs = g @ rows \<and> [] \<notin> set gs
    \<and> (\<forall>x \<in> set gs. jsonBytes (chunk_text x) \<le> MAX_SELECTIVE_RESTORE_JSON_BINDING_BYTES)"
  using assms
proof (induction rows arbitrary: g bytes chunks)
  case Nil
  show ?case
  proof (cases "g = []")
    case True
    with Nil show ?thesis by (intro exI [of _ "[]"]) (simp add: flushed_def del: json_print.simps)
  next
    case False
    with Nil show ?thesis by (intro exI [of _ "[g]"]) (simp add: flushed_text del: json_print.simps)
  qed
next
  case (Cons r rows)
  let ?s = "json_print (JArr r)"
  let ?size = "jsonBytes ?s"
  have j: "canonicalBackupJson (JArr r) = Some ?s" using Cons.prems(2) by (simp add: row_json del: json_print.simps)
  have plain: "list_all plain_row rows" using Cons.prems(2) by simp
  have fits: "?size + 2 \<le> MAX_SELECTIVE_RESTORE_JSON_BINDING_BYTES"
    using Cons.prems(1) j by (simp add: Let_def del: json_print.simps split: if_splits)
  note run = Cons.prems(1) [unfolded chunk_loop.simps j option.case Let_def]
  show ?case
  proof (cases "MAX_SELECTIVE_RESTORE_JSON_BINDING_BYTES < bytes + (?size + (if map (\<lambda>r. json_print (JArr r)) g \<noteq> [] then 1 else 0))")
    case True
    then have g: "g \<noteq> []" using fits Cons.prems(3) by (auto simp del: json_print.simps)
    from run True fits obtain rest where rest: "chunk_loop rows [?s] (2 + ?size) = Inr rest"
      and chunks: "chunks = flushed (map (\<lambda>r. json_print (JArr r)) g) @ rest" by (auto simp del: json_print.simps)
    have size: "2 + ?size = (if [r] = [] then 2 else jsonBytes (chunk_text [r]))"
      using chunk_text_snoc [of "[]" r] by (simp del: json_print.simps)
    have "chunk_loop rows (map (\<lambda>r. json_print (JArr r)) [r]) (2 + ?size) = Inr rest" using rest by (simp del: json_print.simps)
    from Cons.IH [OF this plain size] fits obtain gs where gs: "rest = map chunk_text gs" "concat gs = [r] @ rows" "[] \<notin> set gs"
        "\<forall>x \<in> set gs. jsonBytes (chunk_text x) \<le> MAX_SELECTIVE_RESTORE_JSON_BINDING_BYTES"
      by (auto simp del: json_print.simps)
    show ?thesis
      using gs g chunks Cons.prems(3,4) by (intro exI [of _ "g # gs"]) (simp add: flushed_text del: json_print.simps)
  next
    case False
    let ?bytes = "bytes + ?size + (if map (\<lambda>r. json_print (JArr r)) g \<noteq> [] then 1 else 0)"
    from run False fits have loop: "chunk_loop rows (map (\<lambda>r. json_print (JArr r)) (g @ [r])) ?bytes = Inr chunks"
      by (simp del: json_print.simps split: if_splits)
    have size: "?bytes = (if g @ [r] = [] then 2 else jsonBytes (chunk_text (g @ [r])))"
      using chunk_text_snoc [of g r] Cons.prems(3) by (simp del: json_print.simps)
    from False have le: "?bytes \<le> MAX_SELECTIVE_RESTORE_JSON_BINDING_BYTES" by (simp del: json_print.simps)
    from Cons.IH [OF loop plain size le] show ?thesis by simp
  qed
qed

lemma chunks_groups:
  assumes "chunkRows rows = Inr chunks" "list_all plain_row rows"
  shows "\<exists>gs. chunks = map chunk_text gs \<and> concat gs = rows \<and> [] \<notin> set gs
    \<and> (\<forall>x \<in> set gs. jsonBytes (chunk_text x) \<le> MAX_SELECTIVE_RESTORE_JSON_BINDING_BYTES)"
proof -
  have "chunk_loop rows (map (\<lambda>r. json_print (JArr r)) []) 2 = Inr chunks" using assms(1) by (simp add: chunkRows_def)
  from chunk_loop_groups [OF this assms(2)] show ?thesis by (simp add: MAX_SELECTIVE_RESTORE_JSON_BINDING_BYTES_def)
qed

lemma chunk_reads:
  assumes "list_all plain_row g" "list_all (\<lambda>r. length r = n) g"
  shows "json_each_rows n (chunk_text g) = map (map sql_scalar) g"
proof -
  have "json_plain (JArr (map JArr g))" using assms(1) by (auto simp: list_all_iff plain_row_def)
  then have "json_parse (chunk_text g) = Some (JArr (map JArr g))" unfolding chunk_text_print by (rule json_parse_print)
  moreover have "projected n (JArr r) = map sql_scalar r" if "r \<in> set g" for r
  proof -
    have "length r = n" using assms(2) that by (auto simp: list_all_iff)
    then show ?thesis by (intro nth_equalityI) (auto simp: projected_def)
  qed
  ultimately show ?thesis by (simp add: json_each_rows_def)
qed

lemma chunks_read:
  assumes "chunkRows rows = Inr chunks" "list_all plain_row rows" "list_all (\<lambda>r. length r = n) rows"
  shows "concat (map (json_each_rows n) chunks) = map (map sql_scalar) rows"
proof -
  from chunks_groups [OF assms(1,2)] obtain gs where gs: "chunks = map chunk_text gs" "concat gs = rows" by blast
  have "json_each_rows n (chunk_text g) = map (map sql_scalar) g" if "g \<in> set gs" for g
    using that gs(2) assms(2,3) by (intro chunk_reads) (auto simp: list_all_iff)
  then have "map (json_each_rows n) chunks = map (map (map sql_scalar)) gs" by (simp add: gs(1))
  then show ?thesis using gs(2) by (simp add: map_concat [symmetric])
qed

text \<open>C31: The rows of a table fit the limit of a bound value whatever their size is: no chunk has more than 1,750,000
  bytes, none is empty, and the chunks read one after the other are the rows in their order. The rows hold
  scalars without fractions.\<close>

theorem chunks_bounded:
  assumes "chunkRows rows = Inr chunks" "list_all plain_row rows" "list_all (\<lambda>r. length r = n) rows"
  shows "list_all (\<lambda>c. jsonBytes c \<le> 1750000 \<and> json_each_rows n c \<noteq> []) chunks
    \<and> concat (map (json_each_rows n) chunks) = map (map sql_scalar) rows"
proof -
  from chunks_groups [OF assms(1,2)] obtain gs where gs: "chunks = map chunk_text gs" "concat gs = rows" "[] \<notin> set gs"
    "\<forall>x \<in> set gs. jsonBytes (chunk_text x) \<le> MAX_SELECTIVE_RESTORE_JSON_BINDING_BYTES" by blast
  have "json_each_rows n (chunk_text g) \<noteq> []" if "g \<in> set gs" for g
  proof -
    have "json_each_rows n (chunk_text g) = map (map sql_scalar) g"
      using that gs(2) assms(2,3) by (intro chunk_reads) (auto simp: list_all_iff)
    with that gs(3) show ?thesis by auto
  qed
  with gs have "list_all (\<lambda>c. jsonBytes c \<le> 1750000 \<and> json_each_rows n c \<noteq> []) chunks"
    by (auto simp: list_all_iff MAX_SELECTIVE_RESTORE_JSON_BINDING_BYTES_def)
  with chunks_read [OF assms] show ?thesis by simp
qed

lemma chunks_bounded_witness:
  "\<exists>chunks. chunkRows [[JStr ''a'', JInt 1], [JStr ''b'', JNull]] = Inr chunks
     \<and> concat (map (json_each_rows 2) chunks) = [[JStr ''a'', JInt 1], [JStr ''b'', JNull]]"
proof -
  let ?r = "[JStr ''a'', JInt 1]" and ?q = "[JStr ''b'', JNull]"
  have plain: "plain_row ?r" "plain_row ?q" by (simp_all add: plain_row_def)
  have b: "jsonBytes (json_print (JArr ?r)) = 7" "jsonBytes (json_print (JArr ?q)) = 10" by code_simp+
  have c: "chunkRows [?r, ?q] = Inr [chunk_text [?r, ?q]]"
    by (simp add: chunkRows_def row_json plain b MAX_SELECTIVE_RESTORE_JSON_BINDING_BYTES_def flushed_def chunk_text_def del: json_print.simps)
  show ?thesis using chunks_bounded [OF c, of 2] c plain by simp
qed

end
