(* ===== verification/RestoreSafety.thy ===== *)
theory RestoreSafety
  imports RestoreChunks "HOL-Library.Multiset"
begin

text \<open>
  What the statements of a restore do together: all of it or nothing. The abstract restore replaces the rows of
  every selected table, adds one row to the audit trail and closes the stage; the statements implement it, when
  the stage is open and the tables are the ones the recovery point holds.
\<close>

section \<open>Runs of statements\<close>

lemma run_appendE:
  assumes "run_statements sq (xs @ ys) t = Some (ns, t')"
  obtains as t1 bs where "run_statements sq xs t = Some (as, t1)" "run_statements sq ys t1 = Some (bs, t')" "ns = as @ bs"
proof -
  have "\<exists>as t1 bs. run_statements sq xs t = Some (as, t1) \<and> run_statements sq ys t1 = Some (bs, t') \<and> ns = as @ bs"
    using assms
  proof (induction xs arbitrary: t ns)
    case (Cons x xs)
    from Cons.prems obtain n t1 ms where s: "run_statement sq x t = Some (n, t1)" "run_statements sq (xs @ ys) t1 = Some (ms, t')" "ns = n # ms"
      by (auto split: option.splits)
    from Cons.IH [OF s(2)] s show ?case by force
  qed simp
  then show thesis using that by blast
qed

lemma run_length: "run_statements sq ss t = Some (ns, t') \<Longrightarrow> length ns = length ss"
  by (induction ss arbitrary: t ns) (auto split: option.splits)

lemma run_total: "(\<And>n rows. sq_admits sq n rows) \<Longrightarrow> \<exists>p. run_statements sq ss t = Some p"
proof (induction ss arbitrary: t)
  case (Cons s ss)
  then have "\<exists>p. run_statement sq s t = Some p" by (cases s) (auto simp: insert_rows_def)
  then obtain n t1 where "run_statement sq s t = Some (n, t1)" by auto
  moreover obtain q where "run_statements sq ss t1 = Some q" using Cons by blast
  ultimately show ?case by (cases q) simp
qed simp

fun guarded_by :: "stage_claim \<Rightarrow> restore_statement \<Rightarrow> bool" where
  "guarded_by g (ClaimStage _ _) = False"
| "guarded_by g (DeleteRows h _) = (h = g)"
| "guarded_by g (InsertRows h _ _) = (h = g)"
| "guarded_by g (InsertAudit h _) = (h = g)"
| "guarded_by g (CommitStage h) = (h = g)"

lemma inert_statement:
  assumes "\<not> committing g t" "guarded_by g s"
  shows "run_statement sq s t = Some (0, t)"
proof (cases s)
  case (CommitStage h)
  from assms(1) have "list_all (\<lambda>r. \<not> claims_stage ''committing'' g r) (rt_stages t)" by (auto simp: committing_def list_all_iff list_ex_iff)
  then have "filter (claims_stage ''committing'' g) (rt_stages t) = []"
    "map (\<lambda>r. if claims_stage ''committing'' g r then r\<lparr>sr_status := ''committed'', sr_completed_at := Some (sg_now g)\<rparr> else r) (rt_stages t) = rt_stages t"
    by (auto simp: filter_empty_conv list_all_iff intro: map_idI)
  with CommitStage assms(2) show ?thesis by (simp add: update_stages_def)
qed (use assms in auto)

lemma inert_statements:
  assumes "\<not> committing g t" "list_all (guarded_by g) ss"
  shows "run_statements sq ss t = Some (replicate (length ss) 0, t)"
  using assms(2) by (induction ss) (simp_all add: inert_statement [OF assms(1)])

lemma committing_rows [simp]: "committing g (t\<lparr>rt_rows := rows\<rparr>) = committing g t"
  by (simp add: committing_def)

lemma run_deletes:
  assumes "run_statements sq (map (DeleteRows g) names) t = Some (ns, t')" "committing g t"
  shows "t' = t\<lparr>rt_rows := \<lambda>n. if n \<in> set names then [] else rt_rows t n\<rparr>"
  using assms
proof (induction names arbitrary: t ns)
  case (Cons m names)
  then show ?case by (fastforce simp: set_rows_def fun_eq_iff split: option.splits)
qed simp

definition added :: "string \<Rightarrow> (table_definition \<times> string) list \<Rightarrow> row list" where
  "added n l = concat (map (\<lambda>(td, c). if td_name td = n then json_each_rows (length (td_columns td)) c else []) l)"

lemma added_simps: "added n [] = []"
  "added n ((td, c) # l) = (if td_name td = n then json_each_rows (length (td_columns td)) c else []) @ added n l"
  by (simp_all add: added_def)

lemma run_inserts:
  assumes "run_statements sq (map (\<lambda>(td, c). InsertRows g td c) l) t = Some (ns, t')" "committing g t"
  shows "t' = t\<lparr>rt_rows := \<lambda>n. rt_rows t n @ map (sq_keep sq n) (added n l)\<rparr>"
  using assms
proof (induction l arbitrary: t ns)
  case (Cons p l)
  obtain td c where p: "p = (td, c)" by (cases p)
  let ?rows = "rt_rows t (td_name td) @ map (sq_keep sq (td_name td)) (json_each_rows (length (td_columns td)) c)"
  from Cons.prems p obtain ms where run: "run_statements sq (map (\<lambda>(td, c). InsertRows g td c) l) (set_rows (td_name td) ?rows t) = Some (ms, t')"
    by (auto simp: insert_rows_def Let_def split: option.splits if_splits)
  have "committing g (set_rows (td_name td) ?rows t)" using Cons.prems(2) by (simp add: set_rows_def)
  from Cons.IH [OF run this] p show ?case by (auto simp: set_rows_def added_simps fun_eq_iff)
qed (simp add: added_simps)

section \<open>The tables of a restore\<close>

lemma mapE_map: "mapE f xs = Inr ys \<Longrightarrow> (\<And>x y. x \<in> set xs \<Longrightarrow> f x = Inr y \<Longrightarrow> g y = h x) \<Longrightarrow> map g ys = map h xs"
  by (induction xs arbitrary: ys) auto

lemma domain_tables_props:
  assumes "tables_of_domain payloads d = Inr ts"
  shows "map (\<lambda>t. ft_definition (rb_table t)) ts = FULL_BACKUP_TABLES d
    \<and> (\<forall>t \<in> set ts. chunkRows (ft_rows (rb_table t)) = Inr (rb_chunks t) \<and> (\<exists>u. table_ok (ft_definition (rb_table t)) u = Some (rb_table t)))"
proof -
  from assms obtain v p where p: "validateFullBackupDomainPayload d v = Some p"
    and ts: "mapE (\<lambda>t. bindE (chunkRows (ft_rows t)) (\<lambda>chunks. Inr \<lparr>rb_domain = d, rb_table = t, rb_chunks = chunks\<rparr>)) (fp_tables p) = Inr ts"
    by (auto simp: tables_of_domain_def split: option.splits)
  have "map rb_table ts = map (\<lambda>x. x) (fp_tables p)" by (rule mapE_map [OF ts]) auto
  then have m: "map rb_table ts = fp_tables p" by simp
  have "chunkRows (ft_rows (rb_table t)) = Inr (rb_chunks t)" if "t \<in> set ts" for t
    using mapE_all [OF ts that] by auto
  moreover have "\<exists>u. table_ok (ft_definition (rb_table t)) u = Some (rb_table t)" if "t \<in> set ts" for t
    using payload_tables [OF p] m that by (metis image_eqI list.set_map)
  moreover have "map ft_definition (map rb_table ts) = FULL_BACKUP_TABLES d" using payload_tables [OF p] m by simp
  ultimately show ?thesis by (simp add: comp_def)
qed

definition names_of_domain :: "backup_domain \<Rightarrow> string list" where
  "names_of_domain d = map td_name (FULL_BACKUP_TABLES d)"

lemma table_names:
  assumes "restoreTables policy payloads = Inr S"
  shows "map rb_name S = concat (map names_of_domain (rp_physical policy))"
    and "x \<in> set S \<Longrightarrow> chunkRows (ft_rows (rb_table x)) = Inr (rb_chunks x) \<and> (\<exists>u. table_ok (ft_definition (rb_table x)) u = Some (rb_table x))"
proof -
  from assms obtain tss where t: "mapE (tables_of_domain payloads) (rp_physical policy) = Inr tss" and S: "S = concat tss"
    by (auto simp: restoreTables_def)
  have "map (map rb_name) tss = map names_of_domain (rp_physical policy)"
  proof (rule mapE_map [OF t])
    fix d ts assume "tables_of_domain payloads d = Inr ts"
    from domain_tables_props [OF this] have "map td_name (map (\<lambda>t. ft_definition (rb_table t)) ts) = names_of_domain d"
      by (simp only: names_of_domain_def)
    then show "map rb_name ts = names_of_domain d" by (simp add: comp_def rb_name_def [abs_def])
  qed
  then show "map rb_name S = concat (map names_of_domain (rp_physical policy))" by (simp add: S map_concat)
  show "chunkRows (ft_rows (rb_table x)) = Inr (rb_chunks x) \<and> (\<exists>u. table_ok (ft_definition (rb_table x)) u = Some (rb_table x))" if "x \<in> set S"
  proof -
    from that S obtain ts where "ts \<in> set tss" "x \<in> set ts" by auto
    with mapE_all [OF t] domain_tables_props show ?thesis by blast
  qed
qed

lemma distinct_domain_names: "distinct (names_of_domain d)"
  by (cases d) (simp_all add: names_of_domain_def domain_tables_defs)

lemma disjoint_domain_names: "d \<noteq> e \<Longrightarrow> set (names_of_domain d) \<inter> set (names_of_domain e) = {}"
  by (cases d; cases e) (simp_all add: names_of_domain_def domain_tables_defs)

lemma audit_name: "''portal_audit_events'' \<in> set (names_of_domain d) \<longleftrightarrow> d = DAudit"
  by (cases d) (simp_all add: names_of_domain_def domain_tables_defs)

lemma distinct_names:
  assumes "distinct ds"
  shows "distinct (concat (map names_of_domain ds))"
  using assms
proof (induction ds)
  case (Cons d ds)
  then have "d \<notin> set ds" by simp
  then have "\<forall>e \<in> set ds. set (names_of_domain d) \<inter> set (names_of_domain e) = {}" by (intro ballI disjoint_domain_names) auto
  then have "set (names_of_domain d) \<inter> set (concat (map names_of_domain ds)) = {}" by auto
  with Cons distinct_domain_names show ?case by simp
qed simp

lemma distinct_physical: "validateSelectiveRestoreDomains v = Inr policy \<Longrightarrow> distinct (rp_physical policy) \<and> DAudit \<notin> set (rp_physical policy)"
  by (auto simp: validateSelectiveRestoreDomains_def canonicalDomains_def Let_def split: js.splits option.splits if_splits)

lemma restore_names:
  assumes "validateSelectiveRestoreDomains v = Inr policy" "restoreTables policy payloads = Inr S"
  shows "distinct (map rb_name S)" "''portal_audit_events'' \<notin> set (map rb_name S)"
  unfolding table_names(1) [OF assms(2)] using distinct_names distinct_physical [OF assms(1)] audit_name by auto

lemma row_width: "table_ok td u = Some t \<Longrightarrow> list_all (\<lambda>r. length r = length (td_columns td)) (ft_rows t)"
  using table_ok_props [of td u t] by (auto simp: list_all_iff row_ok_def split: if_splits)

lemma table_reads:
  assumes "chunkRows (ft_rows (rb_table x)) = Inr (rb_chunks x)" "table_ok (ft_definition (rb_table x)) u = Some (rb_table x)"
    and "list_all plain_row (ft_rows (rb_table x))"
  shows "concat (map (json_each_rows (table_width x)) (rb_chunks x)) = map (map sql_scalar) (ft_rows (rb_table x))"
  unfolding table_width_def by (rule chunks_read [OF assms(1,3) row_width [OF assms(2)]])

section \<open>The abstract restore\<close>

definition table_content :: "sqlite \<Rightarrow> restore_table list \<Rightarrow> string \<Rightarrow> row list option" where
  "table_content sq S n = (case find (\<lambda>x. rb_name x = n) S of
      None \<Rightarrow> None
    | Some x \<Rightarrow> Some (if n = ''portal_sessions'' then [] else map (\<lambda>r. sq_keep sq n (map sql_scalar r)) (ft_rows (rb_table x))))"

definition closed_stages :: "stage_claim \<Rightarrow> stage_row list \<Rightarrow> stage_row list" where
  "closed_stages g = map (\<lambda>r. if sr_id r = sg_id g then r\<lparr>sr_status := ''committed'', sr_completed_at := Some (sg_now g)\<rparr> else r)"

definition restored :: "sqlite \<Rightarrow> stage_claim \<Rightarrow> audit_row \<Rightarrow> restore_table list \<Rightarrow> restore_tables \<Rightarrow> restore_tables" where
  "restored sq g a S t = \<lparr>rt_stages = closed_stages g (rt_stages t),
     rt_rows = (\<lambda>n. if n = ''portal_audit_events'' then rt_rows t n @ [sq_keep sq n (audit_values a)]
       else case table_content sq S n of None \<Rightarrow> rt_rows t n | Some rows \<Rightarrow> rows)\<rparr>"

definition open_stage :: "stage_claim \<Rightarrow> restore_tables \<Rightarrow> bool" where
  "open_stage g t \<longleftrightarrow> list_ex (\<lambda>r. claims_stage ''prepared'' g r \<and> sg_now g < sr_expires_at r) (rt_stages t)"

definition source_pairs :: "restore_table list \<Rightarrow> (table_definition \<times> string) list" where
  "source_pairs S = concat (map (\<lambda>x. if rb_name x = ''portal_sessions'' then [] else map (Pair (ft_definition (rb_table x))) (rb_chunks x)) S)"

definition read_back :: "restore_table \<Rightarrow> bool" where
  "read_back x \<longleftrightarrow> concat (map (json_each_rows (table_width x)) (rb_chunks x)) = map (map sql_scalar) (ft_rows (rb_table x))"

lemma added_append: "added n (l @ m) = added n l @ added n m"
  by (simp add: added_def)

lemma added_table:
  assumes "read_back x"
  shows "added n (map (Pair (ft_definition (rb_table x))) (rb_chunks x))
    = (if rb_name x = n then map (map sql_scalar) (ft_rows (rb_table x)) else [])"
proof -
  have "added n (map (Pair (ft_definition (rb_table x))) cs)
      = (if rb_name x = n then concat (map (json_each_rows (table_width x)) cs) else [])" for cs
    by (induction cs) (auto simp: added_simps rb_name_def table_width_def)
  with assms show ?thesis by (simp add: read_back_def)
qed

lemma added_absent: "n \<notin> set (map rb_name S) \<Longrightarrow> list_all read_back S \<Longrightarrow> added n (source_pairs S) = []"
  by (induction S) (auto simp: source_pairs_def added_simps added_append added_table)

lemma added_source:
  assumes "distinct (map rb_name S)" "list_all read_back S"
  shows "added n (source_pairs S) = (case find (\<lambda>x. rb_name x = n) S of
      None \<Rightarrow> [] | Some x \<Rightarrow> if n = ''portal_sessions'' then [] else map (map sql_scalar) (ft_rows (rb_table x)))"
  using assms
proof (induction S)
  case (Cons x S)
  have split: "added n (source_pairs (x # S)) = (if rb_name x = ''portal_sessions'' then [] else
      (if rb_name x = n then map (map sql_scalar) (ft_rows (rb_table x)) else [])) @ added n (source_pairs S)"
    using Cons.prems(2) added_table [of x n] by (simp add: source_pairs_def added_append added_simps)
  show ?case
  proof (cases "rb_name x = n")
    case True
    with Cons.prems have "added n (source_pairs S) = []" by (intro added_absent) auto
    with True split show ?thesis by simp
  next
    case False
    with Cons split show ?thesis by simp
  qed
qed (simp add: source_pairs_def added_simps)

lemma inserts_source:
  "concat (map (\<lambda>t. if rb_name t = ''portal_sessions'' then [] else map (InsertRows g (ft_definition (rb_table t))) (rb_chunks t)) S)
    = map (\<lambda>(td, c). InsertRows g td c) (source_pairs S)"
  by (induction S) (simp_all add: source_pairs_def comp_def)

lemma find_name: "find (\<lambda>x. rb_name x = n) S = None \<longleftrightarrow> n \<notin> set (map rb_name S)"
  by (auto simp: find_None_iff)

lemma restored_content:
  assumes "distinct (map rb_name S)" "list_all read_back S"
  shows "(if n \<in> set (map rb_name S) then [] else rows) @ map (sq_keep sq n) (added n (source_pairs S))
    = (case table_content sq S n of None \<Rightarrow> rows | Some rs \<Rightarrow> rs)"
proof (cases "find (\<lambda>x. rb_name x = n) S")
  case None
  then have "n \<notin> set (map rb_name S)" by (rule find_name [THEN iffD1])
  with None show ?thesis unfolding table_content_def added_source [OF assms] by simp
next
  case (Some x)
  then have "n \<in> set (map rb_name S)" using find_name [of n S] by force
  with Some show ?thesis unfolding table_content_def added_source [OF assms] by (simp add: comp_def)
qed

section \<open>The batch\<close>

text \<open>With the stage claimed, the remaining statements write the abstract restore.\<close>

lemma run_claimed:
  assumes "run_statements sq (map (\<lambda>t. DeleteRows g (rb_name t)) (rev S) @ map (\<lambda>(td, c). InsertRows g td c) (source_pairs S)
      @ [InsertAudit g a, CommitStage g]) t = Some (ns, t')"
    and "committing g t" "distinct (map rb_name S)" "list_all read_back S" "''portal_audit_events'' \<notin> set (map rb_name S)"
  shows "t' = \<lparr>rt_stages = map (\<lambda>r. if claims_stage ''committing'' g r then r\<lparr>sr_status := ''committed'', sr_completed_at := Some (sg_now g)\<rparr> else r) (rt_stages t),
      rt_rows = rt_rows (restored sq g a S t)\<rparr>
    \<and> last ns = int (length (filter (claims_stage ''committing'' g) (rt_stages t)))"
proof -
  from run_appendE [OF assms(1)] obtain ds t1 ms where d: "run_statements sq (map (\<lambda>t. DeleteRows g (rb_name t)) (rev S)) t = Some (ds, t1)"
    and m: "run_statements sq (map (\<lambda>(td, c). InsertRows g td c) (source_pairs S) @ [InsertAudit g a, CommitStage g]) t1 = Some (ms, t')"
    and ns: "ns = ds @ ms" .
  from run_appendE [OF m] obtain zs t2 ks where i: "run_statements sq (map (\<lambda>(td, c). InsertRows g td c) (source_pairs S)) t1 = Some (zs, t2)"
    and k: "run_statements sq [InsertAudit g a, CommitStage g] t2 = Some (ks, t')" and ms: "ms = zs @ ks" .
  have d': "run_statements sq (map (DeleteRows g) (map rb_name (rev S))) t = Some (ds, t1)" using d by (simp add: comp_def)
  note t1 = run_deletes [OF d' assms(2)]
  then have c1: "committing g t1" using assms(2) by simp
  note t2 = run_inserts [OF i c1]
  have rows: "rt_rows t2 n = (case table_content sq S n of None \<Rightarrow> rt_rows t n | Some rs \<Rightarrow> rs)" for n
    unfolding restored_content [OF assms(3,4), symmetric] t2 t1 by simp
  have stages: "rt_stages t2 = rt_stages t" by (simp add: t2 t1)
  have c2: "committing g t2" using c1 by (simp add: t2)
  have none: "table_content sq S ''portal_audit_events'' = None" 
    using find_name [THEN iffD2, OF assms(5)] by (simp add: table_content_def)
  from k c2 have ks: "last ks = int (length (filter (claims_stage ''committing'' g) (rt_stages t2)))" "ks \<noteq> []"
    and t': "t' = snd (update_stages (claims_stage ''committing'' g) (\<lambda>r. r\<lparr>sr_status := ''committed'', sr_completed_at := Some (sg_now g)\<rparr>)
      (set_rows ''portal_audit_events'' (rt_rows t2 ''portal_audit_events'' @ [sq_keep sq ''portal_audit_events'' (audit_values a)]) t2))"
    by (auto simp: insert_rows_def Let_def update_stages_def set_rows_def split: if_splits)
  have "rt_rows t' n = rt_rows (restored sq g a S t) n" for n
    unfolding t' by (simp add: update_stages_def set_rows_def rows restored_def none)
  moreover have "rt_stages t' = map (\<lambda>r. if claims_stage ''committing'' g r then r\<lparr>sr_status := ''committed'', sr_completed_at := Some (sg_now g)\<rparr> else r) (rt_stages t)"
    unfolding t' by (simp add: update_stages_def set_rows_def stages)
  ultimately show ?thesis using ks ms ns stages by (cases t') (simp add: fun_eq_iff)
qed

text \<open>The claim takes the one stage it names, or nothing.\<close>

definition claimable :: "stage_claim \<Rightarrow> restore_table list \<Rightarrow> restore_tables \<Rightarrow> stage_row \<Rightarrow> bool" where
  "claimable g C t r \<longleftrightarrow> claims_stage ''prepared'' g r \<and> sg_now g < sr_expires_at r \<and> list_all (currentStateGuard t) C"

definition stages_settled :: "restore_tables \<Rightarrow> bool" where
  "stages_settled t \<longleftrightarrow> distinct (map sr_id (rt_stages t)) \<and> list_all (\<lambda>r. sr_status r \<noteq> ''committing'') (rt_stages t)"

definition claimed_stages :: "stage_claim \<Rightarrow> restore_table list \<Rightarrow> restore_tables \<Rightarrow> stage_row list" where
  "claimed_stages g C t = map (\<lambda>r. if claimable g C t r then r\<lparr>sr_status := ''committing'', sr_completed_at := Some (sg_now g)\<rparr> else r) (rt_stages t)"

lemma run_claim: "run_statement sq (ClaimStage g C) t =
    Some (int (length (filter (claimable g C t) (rt_stages t))), t\<lparr>rt_stages := claimed_stages g C t\<rparr>)"
  by (simp add: update_stages_def claimed_stages_def claimable_def [abs_def])

lemma settled_not_committing: "stages_settled t \<Longrightarrow> \<not> committing g t"
  by (auto simp: stages_settled_def committing_def list_ex_iff list_all_iff claims_stage_def)

lemma claim_nothing:
  assumes "filter (claimable g C t) (rt_stages t) = []"
  shows "t\<lparr>rt_stages := claimed_stages g C t\<rparr> = t"
proof -
  have "claimed_stages g C t = rt_stages t" unfolding claimed_stages_def using assms by (intro map_idI) (auto simp: filter_empty_conv)
  then show ?thesis by simp
qed

lemma claim_unique:
  assumes "stages_settled t" "r \<in> set (rt_stages t)" "claimable g C t r"
  shows "filter (claimable g C t) (rt_stages t) = [r]"
    and "r' \<in> set (rt_stages t) \<Longrightarrow> claimable g C t r' \<longleftrightarrow> sr_id r' = sg_id g"
proof -
  have d: "distinct (map sr_id (rt_stages t))" using assms(1) by (simp add: stages_settled_def)
  have ids: "x = y" if "x \<in> set (rt_stages t)" "y \<in> set (rt_stages t)" "sr_id x = sr_id y" for x y
    using d that by (auto simp: distinct_map dest: inj_onD)
  have i: "claimable g C t x \<Longrightarrow> sr_id x = sg_id g" for x by (simp add: claimable_def claims_stage_def)
  have "set (filter (claimable g C t) (rt_stages t)) = {r}" using assms(2,3) ids i by auto
  moreover have "distinct (filter (claimable g C t) (rt_stages t))" using d by (simp add: distinct_map)
  ultimately show "filter (claimable g C t) (rt_stages t) = [r]"
    by (metis distinct_card card_1_singleton_iff One_nat_def length_Suc_conv length_0_conv list.set(1,2) singleton_insert_inj_eq')
  show "claimable g C t r' \<longleftrightarrow> sr_id r' = sg_id g" if "r' \<in> set (rt_stages t)"
    using ids [OF assms(2) that] i assms(3) by metis
qed

lemma claimed_then_closed:
  assumes "stages_settled t" "r \<in> set (rt_stages t)" "claimable g C t r"
  shows "map (\<lambda>r. if claims_stage ''committing'' g r then r\<lparr>sr_status := ''committed'', sr_completed_at := Some (sg_now g)\<rparr> else r) (claimed_stages g C t)
      = closed_stages g (rt_stages t)"
    and "length (filter (claims_stage ''committing'' g) (claimed_stages g C t)) = 1"
    and "committing g (t\<lparr>rt_stages := claimed_stages g C t\<rparr>)"
proof -
  have c: "claims_stage ''committing'' g (if claimable g C t x then x\<lparr>sr_status := ''committing'', sr_completed_at := Some (sg_now g)\<rparr> else x)
      \<longleftrightarrow> claimable g C t x" if "x \<in> set (rt_stages t)" for x
    using assms(1) that by (auto simp: claimable_def claims_stage_def stages_settled_def list_all_iff)
  show "map (\<lambda>r. if claims_stage ''committing'' g r then r\<lparr>sr_status := ''committed'', sr_completed_at := Some (sg_now g)\<rparr> else r) (claimed_stages g C t)
      = closed_stages g (rt_stages t)"
    unfolding claimed_stages_def closed_stages_def map_map using c claim_unique(2) [OF assms] by (intro map_cong) auto
  have "filter (\<lambda>x. claims_stage ''committing'' g (if claimable g C t x then x\<lparr>sr_status := ''committing'', sr_completed_at := Some (sg_now g)\<rparr> else x)) (rt_stages t)
      = filter (claimable g C t) (rt_stages t)"
    using c by (intro filter_cong) auto
  then show "length (filter (claims_stage ''committing'' g) (claimed_stages g C t)) = 1"
    by (simp add: claimed_stages_def filter_map comp_def claim_unique(1) [OF assms])
  then show "committing g (t\<lparr>rt_stages := claimed_stages g C t\<rparr>)"
    by (auto simp: committing_def list_ex_iff length_Suc_conv filter_eq_Cons_iff)
qed

text \<open>Counting rows and looking for each of them is comparing the tables: the expected rows differ in their keys.\<close>

definition sql_row :: "row \<Rightarrow> bool" where
  "sql_row r \<longleftrightarrow> plain_row r \<and> map sql_scalar r = r"

lemma mset_of_distinct:
  assumes "distinct ys" "set ys \<subseteq> set xs" "length xs = length ys"
  shows "mset xs = mset ys"
proof -
  have "mset ys \<subseteq># mset xs"
    using assms(1,2) by (intro mset_subset_eqI) (auto simp: distinct_count_atmost_1 Suc_le_eq)
  then show ?thesis using assms(3) mset_subset_size [of "mset ys" "mset xs"] by (metis nat_neq_iff size_mset subset_mset.le_imp_less_or_eq)
qed

lemma guard_exact:
  assumes "currentStateGuard t x" "read_back x" "list_all sql_row (ft_rows (rb_table x))" "table_ok (ft_definition (rb_table x)) u = Some (rb_table x)"
  shows "mset (rt_rows t (rb_name x)) = mset (ft_rows (rb_table x))"
proof (rule mset_of_distinct)
  show "distinct (ft_rows (rb_table x))" using table_ok_props [OF assms(4)] by simp
  have "map (map sql_scalar) (ft_rows (rb_table x)) = ft_rows (rb_table x)" using assms(3) unfolding list_all_iff sql_row_def by - (rule map_idI, blast)
  then have "set (concat (map (json_each_rows (table_width x)) (rb_chunks x))) = set (ft_rows (rb_table x))" using assms(2) by (simp add: read_back_def)
  then show "set (ft_rows (rb_table x)) \<subseteq> set (rt_rows t (rb_name x))" using assms(1) by (fastforce simp: currentStateGuard_def list_all_iff)
  show "length (rt_rows t (rb_name x)) = length (ft_rows (rb_table x))" using assms(1) by (simp add: currentStateGuard_def)
qed

section \<open>All or nothing\<close>

lemma prepared_same: "prepared_ok s = Inr s' \<Longrightarrow> s' = s"
  by (auto simp: prepared_ok_def split: if_splits)

lemma built_statements:
  assumes "buildSelectiveRestoreStatements gd policy incoming expected ad = Inr ss"
    and "validateGuard gd = Inr g" "validateAudit ad = Inr a" "restoreTables policy incoming = Inr S" "restoreTables policy expected = Inr C"
  shows "ss = ClaimStage g C # map (\<lambda>t. DeleteRows g (rb_name t)) (rev S) @ map (\<lambda>(td, c). InsertRows g td c) (source_pairs S)
      @ [InsertAudit g a, CommitStage g]"
proof -
  from assms have m: "mapE prepared_ok (restore_statements g S C a) = Inr ss" by (simp add: buildSelectiveRestoreStatements_def)
  have "map (\<lambda>x. x) ss = map (\<lambda>x. x) (restore_statements g S C a)" by (rule mapE_map [OF m]) (rule prepared_same)
  then show ?thesis by (simp add: restore_statements_def inserts_source)
qed

lemma tables_read_back:
  assumes "restoreTables policy payloads = Inr S" "list_all (\<lambda>x. list_all plain_row (ft_rows (rb_table x))) S"
  shows "list_all read_back S"
  using table_names(2) [OF assms(1)] table_reads assms(2) by (fastforce simp: list_all_iff read_back_def)

lemma settled_closed: "stages_settled t \<Longrightarrow> stages_settled (restored sq g a S t)"
  by (auto simp: stages_settled_def restored_def closed_stages_def list_all_iff comp_def if_distrib [of sr_id] cong: if_cong)

text \<open>The results of the batch: the first one counts the claimed stages.\<close>

lemma batch_head:
  assumes "run_statements sq (ClaimStage g C # ss) t = Some (ns, t')"
  shows "hd ns = int (length (filter (claimable g C t) (rt_stages t)))"
  using assms by (auto simp del: run_statement.simps simp: run_claim split: option.splits)

lemma batch_effect:
  assumes run: "run_statements sq (ClaimStage g C # map (\<lambda>t. DeleteRows g (rb_name t)) (rev S) @ map (\<lambda>(td, c). InsertRows g td c) (source_pairs S)
      @ [InsertAudit g a, CommitStage g]) t = Some (ns, t')"
    and "stages_settled t" "distinct (map rb_name S)" "list_all read_back S" "''portal_audit_events'' \<notin> set (map rb_name S)"
  shows "hd ns = 0 \<and> t' = t \<or> hd ns = 1 \<and> last ns = 1 \<and> (\<exists>r \<in> set (rt_stages t). claimable g C t r) \<and> t' = restored sq g a S t"
proof -
  let ?rest = "map (\<lambda>t. DeleteRows g (rb_name t)) (rev S) @ map (\<lambda>(td, c). InsertRows g td c) (source_pairs S) @ [InsertAudit g a, CommitStage g]"
  let ?t1 = "t\<lparr>rt_stages := claimed_stages g C t\<rparr>"
  from run obtain ms where ms: "run_statements sq ?rest ?t1 = Some (ms, t')" "ns = hd ns # ms"
    by (auto simp del: run_statement.simps simp: run_claim split: option.splits)
  show ?thesis
  proof (cases "\<exists>r \<in> set (rt_stages t). claimable g C t r")
    case False
    then have none: "filter (claimable g C t) (rt_stages t) = []" by (auto simp: filter_empty_conv)
    note t1 = claim_nothing [OF none]
    have g: "list_all (guarded_by g) ?rest" by (auto simp: list_all_iff)
    have "t' = t" using ms(1) inert_statements [OF settled_not_committing [OF assms(2)] g] by (simp add: t1)
    with none batch_head [OF run] show ?thesis by simp
  next
    case True
    then obtain r where r: "r \<in> set (rt_stages t)" "claimable g C t r" by blast
    note c = claimed_then_closed [OF assms(2) r]
    note e = run_claimed [OF ms(1) c(3) assms(3,4,5)]
    have "t' = restored sq g a S t" using e c(1) by (simp add: restored_def cong: option.case_cong if_cong)
    moreover have "last ns = 1"
    proof -
      have "length ms = length ?rest" by (rule run_length [OF ms(1)])
      then have "ms \<noteq> []" by auto
      then have "last ns = last ms" by (subst ms(2)) simp
      then show ?thesis using e c(2) by simp
    qed
    ultimately show ?thesis using batch_head [OF run] claim_unique(1) [OF assms(2) r] True by simp
  qed
qed

section \<open>A restore of the policies\<close>

definition ex_payload :: "row list \<Rightarrow> js" where
  "ex_payload rows = payload_js \<lparr>fp_domain = DPolicies, fp_version = 1,
     fp_tables = map (\<lambda>(td, rs). \<lparr>ft_definition = td, ft_rows = rs\<rparr>) (zip policies_tables [rows, [], []])\<rparr>"

definition ex_row :: row where "ex_row = [JStr ''default'', JStr ''p'', JInt 1]"

definition ex_policy :: restore_policy where "ex_policy = \<lparr>rp_selected = [DPolicies], rp_physical = [DPolicies], rp_bundle = False\<rparr>"

definition ex_claim :: stage_claim where
  "ex_claim = \<lparr>sg_id = ''restore_11111111-1111-4111-8111-111111111111'', sg_actor = ''ann'', sg_secretHash = replicate 64 (CHR ''a''), sg_now = 5\<rparr>"

definition ex_audit :: audit_row where
  "ex_audit = \<lparr>ar_id = ''a'', ar_createdAt = 5, ar_correlationId = ''c'', ar_actor = ''ann'', ar_groupsJson = ''[]'', ar_action = ''backup.restore.commit'',
     ar_resourceId = ''r'', ar_schemaVersion = ''1'', ar_metadataJson = ''{}''\<rparr>"

definition ex_tables :: "row list \<Rightarrow> string list \<Rightarrow> restore_table list" where
  "ex_tables rows chunks = map (\<lambda>(td, rs, cs). \<lparr>rb_domain = DPolicies, rb_table = \<lparr>ft_definition = td, ft_rows = rs\<rparr>, rb_chunks = cs\<rparr>)
     (zip policies_tables [(rows, chunks), ([], []), ([], [])])"

lemma ex_valid:
  "validateGuard ex_claim = Inr ex_claim" "validateAudit ex_audit = Inr ex_audit"
  "validateSelectiveRestoreDomains (JArr [JStr ''policies'']) = Inr ex_policy"
  by code_simp+

lemma ex_payload_ok: "validateFullBackupDomainPayload DPolicies (ex_payload [ex_row]) = Some \<lparr>fp_domain = DPolicies, fp_version = 1,
     fp_tables = map (\<lambda>(td, rs). \<lparr>ft_definition = td, ft_rows = rs\<rparr>) (zip policies_tables [[ex_row], [], []])\<rparr>"
  "validateFullBackupDomainPayload DPolicies (ex_payload []) = Some \<lparr>fp_domain = DPolicies, fp_version = 1,
     fp_tables = map (\<lambda>(td, rs). \<lparr>ft_definition = td, ft_rows = rs\<rparr>) (zip policies_tables [[], [], []])\<rparr>"
  by code_simp+

lemma ex_chunks: "chunkRows [] = Inr []" "chunkRows [ex_row] = Inr [chunk_text [ex_row]]"
proof -
  have p: "plain_row ex_row" by (simp add: plain_row_def ex_row_def)
  have b: "jsonBytes (json_print (JArr ex_row)) = 17" by code_simp
  show "chunkRows [ex_row] = Inr [chunk_text [ex_row]]"
    by (simp add: chunkRows_def row_json p b MAX_SELECTIVE_RESTORE_JSON_BINDING_BYTES_def flushed_def chunk_text_def del: json_print.simps)
qed (simp add: chunkRows_def flushed_def)

lemma ex_restoreTables:
  "restoreTables ex_policy [DPolicies \<mapsto> ex_payload [ex_row]] = Inr (ex_tables [ex_row] [chunk_text [ex_row]])"
  "restoreTables ex_policy [DPolicies \<mapsto> ex_payload []] = Inr (ex_tables [] [])"
  by (simp_all add: restoreTables_def ex_policy_def tables_of_domain_def ex_payload_ok ex_chunks ex_tables_def policies_tables_def)

definition ex_statements :: "restore_statement list" where
  "ex_statements = restore_statements ex_claim (ex_tables [ex_row] [chunk_text [ex_row]]) (ex_tables [] []) ex_audit"

lemma ex_sql: "list_all (\<lambda>s. jsonBytes (statement_sql s) \<le> 1500 \<and> statement_values s \<le> 20) ex_statements"
  by code_simp

lemma ex_policy_simps: "rp_selected ex_policy = [DPolicies]" "rp_physical ex_policy = [DPolicies]"
  by (simp_all add: ex_policy_def)

lemmas batch_limits = MAX_SELECTIVE_RESTORE_CLAIM_PARAMETERS_def MAX_SELECTIVE_RESTORE_BATCH_STATEMENTS_def MAX_SELECTIVE_RESTORE_SQL_BYTES_def

lemma ex_table_names: "map rb_name (ex_tables rows cs) = [''catalog_visibility_policies'', ''approval_policy_sets'', ''process_presentation_sets'']"
  by (simp add: ex_tables_def policies_tables_def rb_name_def table_def_def table_def_from_def)

lemma ex_batch: "n \<le> 20 \<Longrightarrow> validateBatchSize (ex_tables [ex_row] [c]) n = Inr ()"
  by (simp add: validateBatchSize_def batch_limits ex_tables_def policies_tables_def rb_name_def table_def_def table_def_from_def guardE_def)

lemma ex_candidate: "validateSelectiveRestoreCandidate ex_policy [DPolicies \<mapsto> ex_payload [ex_row]] = Inr ()"
proof -
  have "5 + sum_list (map (\<lambda>t. 1 + length (rb_chunks t)) (ex_tables [ex_row] [chunk_text [ex_row]])) \<le> 20"
    by (simp add: ex_tables_def policies_tables_def)
  then show ?thesis unfolding validateSelectiveRestoreCandidate_def ex_restoreTables by (simp add: ex_policy_simps ex_batch guardE_def)
qed

lemma small_statements:
  assumes "list_all (\<lambda>s. jsonBytes (statement_sql s) \<le> 1500 \<and> statement_values s \<le> 20) ss"
  shows "mapE prepared_ok ss = Inr ss"
  using assms by (induction ss) (auto simp: prepared_ok_def batch_limits)

lemma ex_built: "buildSelectiveRestoreStatements ex_claim ex_policy [DPolicies \<mapsto> ex_payload [ex_row]] [DPolicies \<mapsto> ex_payload []] ex_audit = Inr ex_statements"
proof -
  have "statement_values (ClaimStage ex_claim (ex_tables [] [])) \<le> 20" by (simp add: ex_tables_def policies_tables_def)
  with small_statements [OF ex_sql] show ?thesis
    unfolding buildSelectiveRestoreStatements_def ex_valid ex_candidate ex_restoreTables ex_statements_def
    by (simp add: ex_table_names ex_batch guardE_def del: statement_values.simps)
qed

text \<open>C9: A selective restore happens completely or not at all: when the batch runs, either its first statement
  claims nothing and every table is as before, or the stage was prepared for this actor and secret and has not
  expired, every table still has exactly the rows of the recovery point, and afterwards the selected tables have
  the rows of the backup (sessions are dropped), the audit trail has one row more, the stage is committed and
  nothing else has changed. The rows of the backup are scalars without fractions.\<close>

theorem restore_all_or_nothing:
  assumes "buildSelectiveRestoreStatements gd policy incoming expected ad = Inr ss"
    and "validateSelectiveRestoreDomains v = Inr policy" "validateGuard gd = Inr g" "validateAudit ad = Inr a"
    and "restoreTables policy incoming = Inr S" "list_all (\<lambda>x. list_all plain_row (ft_rows (rb_table x))) S"
    and "restoreTables policy expected = Inr C" "list_all (\<lambda>x. list_all sql_row (ft_rows (rb_table x))) C"
    and "stages_settled t" "run_statements sq ss t = Some (ns, t')"
  shows "hd ns = 0 \<and> t' = t \<or>
    hd ns = 1 \<and> last ns = 1 \<and> open_stage g t \<and> (\<forall>x \<in> set C. mset (rt_rows t (rb_name x)) = mset (ft_rows (rb_table x)))
      \<and> t' = restored sq g a S t \<and> stages_settled t'"
proof -
  note ss = built_statements [OF assms(1,3,4,5,7)]
  note S = tables_read_back [OF assms(5,6)]
  have "list_all (\<lambda>x. list_all plain_row (ft_rows (rb_table x))) C" using assms(8) by (auto simp: list_all_iff sql_row_def)
  note C = tables_read_back [OF assms(7) this]
  note n = restore_names [OF assms(2,5)]
  have exact: "mset (rt_rows t (rb_name x)) = mset (ft_rows (rb_table x))" if "claimable g C t r" "x \<in> set C" for x r
    using guard_exact table_names(2) [OF assms(7) that(2)] that C assms(8) by (fastforce simp: claimable_def list_all_iff)
  from batch_effect [OF assms(10) [unfolded ss] assms(9) n(1) S n(2)] exact settled_closed [OF assms(9)] show ?thesis
    by (auto simp: open_stage_def claimable_def list_ex_iff)
qed

definition ex_stage :: stage_row where
  "ex_stage = \<lparr>sr_id = sg_id ex_claim, sr_operation = ''restore'', sr_actor = ''ann'', sr_domains_json = ''[]'', sr_secret_hash = sg_secretHash ex_claim,
     sr_source_hash = [], sr_recovery_hash = [], sr_source_version = 1, sr_current_version = 1, sr_status = ''prepared'', sr_created_at = 1,
     sr_expires_at = 9, sr_completed_at = None\<rparr>"

lemma restore_all_or_nothing_witness:
  "\<exists>ns t'. run_statements \<lparr>sq_keep = \<lambda>_ r. r, sq_admits = \<lambda>_ _. True\<rparr> ex_statements \<lparr>rt_stages = [ex_stage], rt_rows = \<lambda>_. []\<rparr> = Some (ns, t')
     \<and> rt_rows t' ''catalog_visibility_policies'' = [ex_row] \<and> rt_rows t' ''portal_audit_events'' = [audit_values ex_audit]
     \<and> sr_status (hd (rt_stages t')) = ''committed''"
proof -
  let ?sq = "\<lparr>sq_keep = \<lambda>_ r. r, sq_admits = \<lambda>_ _. True\<rparr>" and ?t = "\<lparr>rt_stages = [ex_stage], rt_rows = \<lambda>_. []\<rparr>"
  obtain ns t' where run: "run_statements ?sq ex_statements ?t = Some (ns, t')" using run_total [of ?sq ex_statements ?t] by auto
  have plain: "list_all (\<lambda>x. list_all plain_row (ft_rows (rb_table x))) (ex_tables [ex_row] [chunk_text [ex_row]])"
    "list_all (\<lambda>x. list_all sql_row (ft_rows (rb_table x))) (ex_tables [] [])"
    by (simp_all add: ex_tables_def policies_tables_def plain_row_def ex_row_def)
  have settled: "stages_settled ?t" by (simp add: stages_settled_def ex_stage_def)
  have one: "hd ns = 1"
    using batch_head [OF run [unfolded ex_statements_def restore_statements_def]]
    by (simp add: claimable_def claims_stage_def ex_stage_def ex_claim_def ex_tables_def policies_tables_def currentStateGuard_def)
  from restore_all_or_nothing [OF ex_built ex_valid(3,1,2) ex_restoreTables(1) plain(1) ex_restoreTables(2) plain(2) settled run] one
  have t': "t' = restored ?sq ex_claim ex_audit (ex_tables [ex_row] [chunk_text [ex_row]]) ?t" by simp
  have "rt_rows t' ''catalog_visibility_policies'' = [ex_row]" "rt_rows t' ''portal_audit_events'' = [audit_values ex_audit]"
    by (simp_all add: t' restored_def table_content_def ex_tables_def policies_tables_def rb_name_def table_def_def table_def_from_def ex_row_def)
  moreover have "sr_status (hd (rt_stages t')) = ''committed''" by (simp add: t' restored_def closed_stages_def ex_stage_def)
  ultimately show ?thesis using run by blast
qed

end
