(* ===== verification/RestoreApproval.thy ===== *)
theory RestoreApproval
  imports RestoreSafety
begin

text \<open>
  What a commit of a restore needs: the secret of its stage, the confirmation that names it, and a stage that
  is still prepared in the moment the batch runs, whatever other requests did in the meantime.
\<close>

section \<open>Equal digests\<close>

lemma hex_lower_val: "is_hex_lower c \<Longrightarrow> hex_val c < 16"
  by (auto simp: is_hex_lower_def is_digit_def hex_val_def)

lemma hex_digit_val:
  assumes "is_hex_lower c"
  shows "hex_digit (hex_val c) = c"
proof (cases "is_digit c")
  case True
  then have "48 \<le> (of_char c :: nat)" "(of_char c :: nat) \<le> 57" "hex_val c = of_char c - 48" by (simp_all add: is_digit_def hex_val_def)
  then have "hex_val c < 10" "48 + hex_val c = of_char c" by linarith+
  then show ?thesis by (simp add: hex_digit_def)
next
  case False
  with assms have "97 \<le> (of_char c :: nat)" by (simp add: is_hex_lower_def)
  with False have "\<not> hex_val c < 10" "87 + hex_val c = of_char c" by (simp_all add: hex_val_def)
  then show ?thesis by (simp add: hex_digit_def)
qed

lemma hex_val_inj: "is_hex_lower c \<Longrightarrow> is_hex_lower d \<Longrightarrow> hex_val c = hex_val d \<Longrightarrow> c = d"
  using hex_digit_val by metis

lemma hex_pair_inj:
  assumes "(of_nat (16 * a + b) :: i32) = of_nat (16 * c + d)" "a < 16" "b < 16" "c < 16" "d < 16"
  shows "a = c \<and> b = d"
proof -
  have small: "unat (of_nat (16 * x + y) :: i32) = 16 * x + y" if "x < 16" "y < 16" for x y
    using that by (subst unat_of_nat) simp
  have "16 * a + b = unat (of_nat (16 * a + b) :: i32)" by (rule small [OF assms(2,3), symmetric])
  also have "\<dots> = unat (of_nat (16 * c + d) :: i32)" by (simp only: assms(1))
  also have "\<dots> = 16 * c + d" by (rule small [OF assms(4,5)])
  finally have "16 * a + b = 16 * c + d" .
  then have "(16 * a + b) div 16 = (16 * c + d) div 16" "(16 * a + b) mod 16 = (16 * c + d) mod 16" by simp_all
  with assms(2-5) show ?thesis by simp
qed

lemma hash_bytes_inj:
  "hash_bytes s = hash_bytes t \<Longrightarrow> length s = length t \<Longrightarrow> even (length s) \<Longrightarrow> list_all is_hex_lower s \<Longrightarrow> list_all is_hex_lower t \<Longrightarrow> s = t"
proof (induction s arbitrary: t rule: hash_bytes.induct)
  case (1 a b s)
  then obtain c d t' where t: "t = c # d # t'" by (cases t rule: hash_bytes.cases) auto
  from 1 t have "hex_val a = hex_val c \<and> hex_val b = hex_val d" by (intro hex_pair_inj) (auto simp: hex_lower_val)
  with 1 t hex_val_inj show ?case by auto
qed auto

lemma equalHash_same: "equalHash (JStr l) (JStr r) \<Longrightarrow> l = r \<and> hash_pattern l"
proof -
  assume e: "equalHash (JStr l) (JStr r)"
  have len: "length (hash_bytes s) = length s div 2" for s by (induction s rule: hash_bytes.induct) auto
  have h: "length (if hash_pattern x then x else replicate 64 (CHR ''0'')) = 64" for x by (simp add: hash_pattern_def)
  from e have "hash_pattern l \<and> hash_pattern r \<and> hash_bytes l = hash_bytes r"
    by (auto simp: equalHash_def Let_def strict_hash_def hash_text_def collect_diff_zero len hash_pattern_def split: if_splits)
  then show ?thesis by (auto simp: hash_pattern_def intro: hash_bytes_inj)
qed

lemma secret_opens:
  assumes "verifyRestoreStageSecret sha (JStr h) v"
  shows "\<exists>s. v = JStr s \<and> (strict_secret s \<and> h = sha s)"
proof -
  have "\<not> equalHash (JStr h) (JStr [])"
    using equalHash_same [of h "[]"] by (auto simp: hash_pattern_def)
  with assms show ?thesis by (auto simp: verifyRestoreStageSecret_def split: js.splits if_splits dest: equalHash_same)
qed

section \<open>A commit that succeeds\<close>

lemma rethrow_Inr: "catchM m (\<lambda>e. throwM (h e)) w = (Inr x, w') \<longleftrightarrow> m w = (Inr x, w')"
  by (simp add: catchM_Inr_iff throwM_run)

definition anything :: "restore_tables \<Rightarrow> restore_tables \<Rightarrow> bool" where "anything t t' \<longleftrightarrow> True"

lemma env_anything: "env_follows anything w"
  by (auto simp: env_follows_def anything_def)

lemma result_one_changes: "result_one (d1_result n) \<longleftrightarrow> n = 1"
  by (simp add: result_one_def d1_result_def)

lemma batch_written:
  assumes "written pf ss w = (Inr u, w')"
  shows "\<exists>t ns. run_statements (rf_sqlite pf) ss t = Some (ns, db_tables w') \<and> ns \<noteq> [] \<and> hd ns = 1 \<and> last ns = 1"
proof -
  from assms obtain rs where b: "run_batch (rf_sqlite pf) ss w = (Inr rs, w')"
    and r: "rs \<noteq> []" "result_one (hd rs)" "result_one (last rs)"
    by (auto simp: written_def bindM_Inr_iff requireM_Inr_iff)
  let ?f = "\<lambda>t. case run_statements (rf_sqlite pf) ss t of Some (ns, t') \<Rightarrow> (Some (map d1_result ns), t') | None \<Rightarrow> (None, t)"
  from b have "d1_call Uncoded ?f w = (Inr (Some rs), w')"
    by (auto simp: run_batch_def bindM_Inr_iff throwM_run returnM_run split: option.splits)
  from d1_call_Inr [OF this env_anything] obtain t where "?f t = (Some rs, db_tables w')" by blast
  then obtain ns where ns: "run_statements (rf_sqlite pf) ss t = Some (ns, db_tables w')" "rs = map d1_result ns"
    by (auto split: option.splits prod.splits)
  with r have "ns \<noteq> []" "hd ns = 1" "last ns = 1" by (auto simp: hd_map last_map result_one_changes)
  with ns show ?thesis by blast
qed

lemma written_claims:
  assumes "written pf ss w = (Inr u, w')" "buildSelectiveRestoreStatements gd policy incoming expected ad = Inr ss"
  shows "\<exists>t ns g. validateGuard gd = Inr g \<and> run_statements (rf_sqlite pf) ss t = Some (ns, db_tables w') \<and> open_stage g t"
proof -
  from assms(2) obtain g a S C where v: "validateGuard gd = Inr g" "validateAudit ad = Inr a"
    "restoreTables policy incoming = Inr S" "restoreTables policy expected = Inr C"
    by (auto simp: buildSelectiveRestoreStatements_def)
  note ss = built_statements [OF assms(2) v]
  from batch_written [OF assms(1)] obtain t ns where r: "run_statements (rf_sqlite pf) ss t = Some (ns, db_tables w')" "hd ns = 1" by blast
  from batch_head [OF r(1) [unfolded ss]] r(2) have "filter (claimable g C t) (rt_stages t) \<noteq> []" by auto
  then have "open_stage g t" by (auto simp: open_stage_def claimable_def list_ex_iff filter_empty_conv)
  with v(1) r(1) show ?thesis by blast
qed

lemma opened_secret:
  assumes "opened_stage pf inp policy actor schema i w = (Inr stage, w')"
  shows "st_id stage = i \<and> st_actor stage = actor \<and> (\<exists>secret. ci_stageSecret inp = JStr secret \<and> st_secretHash stage = rf_sha pf secret)"
proof -
  from assms obtain found where v: "validateStage found inp policy actor schema i (rf_now pf) = Inr stage"
    and secret: "verifyRestoreStageSecret (rf_sha pf) (JStr (st_secretHash stage)) (ci_stageSecret inp)"
    by (auto simp: opened_stage_def bindM_Inr_iff requireM_Inr_iff liftM_Inr_iff returnM_Inr_iff)
  from v have "st_id stage = i \<and> st_actor stage = actor" by (auto simp: validateStage_def split: option.splits if_splits)
  with secret_opens [OF secret] show ?thesis by blast
qed

lemma commit_input_fields: "validateCommitInput v = Inr inp \<Longrightarrow> ci_stageSecret inp = jget v ''stageSecret'' \<and> ci_confirmation inp = jget v ''confirmation''
    \<and> ci_recoverySaved inp = jget v ''acknowledgeRecoverySaved'' \<and> ci_sessionRevocation inp = jget v ''acknowledgeSessionRevocation''
    \<and> ci_domains inp = jget v ''domains''"
  by (auto simp: validateCommitInput_def split: option.splits if_splits)

lemma normalized_trimmed: "normalizeActor v = Inr actor \<Longrightarrow> js_trim (fst actor) = fst actor"
  by (auto simp: normalizeActor_def actor_text_def Let_def split: js.splits if_splits)

lemma commit_steps:
  assumes "commitSelectiveProductionRestore pf hasDB inputValue schema actorValue w = (Inr res, w')"
  shows "\<exists>inp actor policy i stage isolated incoming current ss u v.
    validateCommitInput inputValue = Inr inp \<and> normalizeActor actorValue = Inr actor
    \<and> validateSelectiveRestoreDomains (ci_domains inp) = Inr policy \<and> validateConfirmation inp policy i = Inr ()
    \<and> (\<exists>a b. opened_stage pf inp policy (fst actor) schema i a = (Inr stage, b))
    \<and> buildSelectiveRestoreStatements (stage_claim_of pf stage (fst actor)) policy incoming current (auditRow pf inp stage actor isolated) = Inr ss
    \<and> written pf ss v = (Inr u, w')
    \<and> res = \<lparr>cr_operation = ci_operation inp, cr_stageId = st_id stage, cr_selected = rp_selected policy, cr_isolated = isolated\<rparr>"
  using assms unfolding commitSelectiveProductionRestore_def rethrow_Inr bindM_Inr_iff liftM_Inr_iff requireM_Inr_iff returnM_Inr_iff
  by (clarsimp simp: bindM_Inr_iff liftM_Inr_iff returnM_Inr_iff split: prod.splits) blast

section \<open>A commit of the policies\<close>

definition cx_hash :: string where "cx_hash = replicate 64 (CHR ''a'')"
definition cx_id :: string where "cx_id = ''restore_11111111-1111-4111-8111-111111111111''"
definition cx_secret :: string where "cx_secret = replicate 43 (CHR ''b'')"

definition cx_document :: encrypted_document where
  "cx_document = \<lparr>ed_manifest = JObj [(''domains'', domains_js [DPolicies]), (''schemaVersion'', JInt 1)], ed_body = JNull, ed_records = 1\<rparr>"

definition cx_isolated :: isolated_result where
  "cx_isolated = \<lparr>iso_selected = [DPolicies], iso_sourceVersion = 1, iso_currentVersion = 1, iso_canCommit = True, iso_summary = JObj []\<rparr>"

definition cx_sqlite :: sqlite where "cx_sqlite = \<lparr>sq_keep = \<lambda>_ r. r, sq_admits = \<lambda>_ _. True\<rparr>"

definition cx_platform :: restore_platform where
  "cx_platform = \<lparr>rf_sha = \<lambda>_. cx_hash, rf_sqlite = cx_sqlite, rf_registry = FULL_BACKUP_EXPORTERS, rf_validateDocument = \<lambda>_. Inr cx_document,
     rf_decrypt = \<lambda>_ _ ds. Inr (ds, [DPolicies \<mapsto> ex_payload [ex_row]]), rf_export = \<lambda>_ _ _. returnM cx_document,
     rf_testRestore = \<lambda>_ _ _ _. returnM cx_isolated, rf_now = 5, rf_random = [], rf_stageId = cx_id, rf_auditId = ''a'', rf_correlationId = ''c''\<rparr>"

definition cx_input :: js where
  "cx_input = JObj [(''operation'', JStr ''restore''), (''document'', JNull), (''password'', JNull), (''domains'', JArr [JStr ''policies'']),
     (''approvalToken'', JStr cx_hash), (''recoveryDocument'', JNull), (''recoveryPassword'', JNull), (''stageId'', JStr cx_id),
     (''stageSecret'', JStr cx_secret), (''acknowledgeRecoverySaved'', JBool True), (''confirmation'', JStr (''RESTORE:'' @ cx_id))]"

definition cx_inp :: commit_input where
  "cx_inp = \<lparr>ci_operation = OpRestore, ci_document = JNull, ci_password = JNull, ci_domains = JArr [JStr ''policies''], ci_approvalToken = JStr cx_hash,
     ci_recoveryDocument = JNull, ci_recoveryPassword = JNull, ci_stageId = JStr cx_id, ci_stageSecret = JStr cx_secret, ci_recoverySaved = JBool True,
     ci_sessionRevocation = JUndef, ci_confirmation = JStr (''RESTORE:'' @ cx_id)\<rparr>"

definition cx_stage :: stage_row where
  "cx_stage = \<lparr>sr_id = cx_id, sr_operation = ''restore'', sr_actor = ''ann'', sr_domains_json = json_print (domains_js [DPolicies]),
     sr_secret_hash = cx_hash, sr_source_hash = cx_hash, sr_recovery_hash = cx_hash, sr_source_version = 1, sr_current_version = 1,
     sr_status = ''prepared'', sr_created_at = 1, sr_expires_at = 9, sr_completed_at = None\<rparr>"

definition cx_record :: stage_record where
  "cx_record = \<lparr>st_id = cx_id, st_operation = OpRestore, st_actor = ''ann'', st_domains = [DPolicies], st_secretHash = cx_hash, st_sourceBinding = cx_hash,
     st_recoveryBinding = cx_hash, st_sourceVersion = 1, st_currentVersion = 1, st_createdAt = 1, st_expiresAt = 9, st_status = Prepared, st_completedAt = None\<rparr>"

definition cx_schema :: schema_info where "cx_schema = \<lparr>si_state = ''ready'', si_version = 1\<rparr>"

definition cx_tables :: restore_tables where
  "cx_tables = \<lparr>rt_stages = [cx_stage], rt_rows = \<lambda>n. if n = ''catalog_visibility_policies'' then [ex_row] else []\<rparr>"

definition cx_world :: "restore_tables database" where "cx_world = \<lparr>db_tables = cx_tables, db_schedule = []\<rparr>"

lemma cx_parsed:
  "validateCommitInput cx_input = Inr cx_inp" "normalizeActor (JStr ''ann'') = Inr (''ann'', [])" "validateSchema cx_schema = Inr ()"
  "validateConfirmation cx_inp ex_policy cx_id = Inr ()" "stage_id_pattern cx_id" "normalize_stage cx_stage = Inr cx_record" "strict_secret cx_secret"
  by code_simp+

lemma equalHash_refl: "hash_pattern h \<Longrightarrow> equalHash (JStr h) (JStr h)"
  by (simp add: equalHash_def Let_def strict_hash_def hash_text_def collect_diff_zero)

lemma cx_hash_pattern: "hash_pattern cx_hash"
  by code_simp

lemma cx_read: "d1_read e f cx_world = (Inr (f cx_tables), cx_world)"
  by (simp add: cx_world_def d1_read_quiet)

lemma cx_opened: "opened_stage cx_platform cx_inp ex_policy ''ann'' cx_schema cx_id cx_world = (Inr cx_record, cx_world)"
proof -
  have found: "find_stage cx_id cx_tables = Some cx_stage" by (simp add: find_stage_def cx_tables_def cx_stage_def)
  have valid: "validateStage (Some cx_record) cx_inp ex_policy ''ann'' cx_schema cx_id 5 = Inr cx_record"
    by (simp add: validateStage_def cx_record_def cx_inp_def ex_policy_def cx_schema_def)
  have load: "loadRestoreStage cx_id cx_world = (Inr (Some cx_record), cx_world)"
    by (simp add: loadRestoreStage_def bindM_run requireM_run cx_parsed cx_read found liftM_run returnM_run)
  have secret: "verifyRestoreStageSecret (\<lambda>_. cx_hash) (JStr cx_hash) (JStr cx_secret)"
    using equalHash_refl [OF cx_hash_pattern] by (simp add: verifyRestoreStageSecret_def cx_parsed)
  show ?thesis
    unfolding opened_stage_def bindM_run load using valid secret
    by (simp add: cx_platform_def bindM_run liftM_run requireM_run returnM_run) (simp add: cx_record_def cx_inp_def)
qed

definition cx_full :: full_payload where
  "cx_full = \<lparr>fp_domain = DPolicies, fp_version = 1,
     fp_tables = map (\<lambda>(td, rs). \<lparr>ft_definition = td, ft_rows = rs\<rparr>) (zip policies_tables [[ex_row], [], []])\<rparr>"

lemma cx_full_js: "payload_js cx_full = ex_payload [ex_row]"
  by (simp add: cx_full_def ex_payload_def)

lemma cx_table_rows: "map (\<lambda>td. table_rows td cx_tables) policies_tables = [[ex_row], [], []]"
  by code_simp

lemma cx_load: "loadTables policies_tables cx_world = (Inr (fp_tables cx_full), cx_world)"
proof -
  have l: "loadTables tds cx_world = (Inr (map (\<lambda>td. \<lparr>ft_definition = td, ft_rows = table_rows td cx_tables\<rparr>) tds), cx_world)" for tds
    by (induction tds) (simp_all add: loadTable_def bindM_run cx_read returnM_run)
  show ?thesis unfolding l cx_full_def using cx_table_rows by (simp add: policies_tables_def)
qed

lemma cx_current: "current_payload FULL_BACKUP_EXPORTERS 1 DPolicies e cx_world = (Inr cx_full, cx_world)"
proof -
  have ok: "validateFullBackupDomainPayload DPolicies (ex_payload [ex_row]) = Some cx_full" by (simp only: ex_payload_ok cx_full_def)
  have "export_payload DPolicies 1 (fp_tables cx_full) = Inr (ex_payload [ex_row], record_count (fp_tables cx_full))"
    using ok cx_full_js by (simp add: export_payload_def cx_full_def)
  moreover have "positive 1" by code_simp
  ultimately show ?thesis
    by (simp add: current_payload_def exporter_of_def FULL_BACKUP_EXPORTERS_def domainExporter_def bindM_run requireM_run cx_load liftM_run ok returnM_run)
qed

lemma cx_digest: "payload_digest (\<lambda>_. cx_hash) cx_full = Inr cx_hash" "manifestBinding (\<lambda>_. cx_hash) cx_document = Inr cx_hash"
  by code_simp+

definition cx_point :: verified_point where
  "cx_point = \<lparr>vp_binding = cx_hash, vp_physical = [DPolicies], vp_payloads = [DPolicies \<mapsto> ex_payload [ex_row]]\<rparr>"

lemma cx_verified: "verifySelectiveRecoveryPoint cx_platform True JNull JNull ex_policy 1 cx_world = (Inr cx_point, cx_world)"
proof -
  have ok: "validateFullBackupDomainPayload DPolicies (ex_payload [ex_row]) = Some cx_full" by (simp only: ex_payload_ok cx_full_def)
  have "verified_payloads cx_platform 1 [DPolicies \<mapsto> ex_payload [ex_row]] [DPolicies] cx_world = (Inr [DPolicies \<mapsto> ex_payload [ex_row]], cx_world)"
    using ok by (simp add: bindM_run requireM_run liftM_run returnM_run cx_platform_def cx_current cx_digest cx_full_js exporter_of_def
      FULL_BACKUP_EXPORTERS_def domainExporter_def)
  moreover have "ensurePolicy ex_policy = Inr ()" "manifest_version cx_document 1" "manifest_covers cx_document ex_policy" "positive 1" by code_simp+
  ultimately show ?thesis
    by (simp add: verifySelectiveRecoveryPoint_def rethrow_Inr bindM_run requireM_run liftM_run returnM_run ex_policy_simps cx_point_def
      cx_digest cx_platform_def)
qed

lemma cx_binding: "createRestoreStageBinding (\<lambda>_. cx_hash) \<lparr>sb_operation = OpRestore, sb_actor = ''ann'', sb_domains = [DPolicies],
    sb_token = JStr cx_hash, sb_checksum = cx_hash, sb_sourceVersion = 1, sb_currentVersion = 1, sb_expiresAt = 9\<rparr> = Inr cx_hash"
  by code_simp

lemma cx_checked: "checked_source cx_platform cx_inp ex_policy ''ann'' cx_schema cx_record cx_world
    = (Inr (cx_isolated, [DPolicies \<mapsto> ex_payload [ex_row]], [DPolicies \<mapsto> ex_payload [ex_row]]), cx_world)"
proof -
  have same: "verifyRestoreStageBinding (JStr cx_hash) (JStr cx_hash)" using equalHash_refl [OF cx_hash_pattern] by (simp add: verifyRestoreStageBinding_def)
  have sha: "rf_sha cx_platform = (\<lambda>_. cx_hash)" "rf_testRestore cx_platform = (\<lambda>_ _ _ _. returnM cx_isolated)" by (simp_all add: cx_platform_def)
  have "decryptSourceDocument cx_platform JNull JNull [DPolicies] = Inr ([DPolicies], [DPolicies \<mapsto> ex_payload [ex_row]])"
    by (simp add: decryptSourceDocument_def cx_platform_def)
  then show ?thesis
    unfolding checked_source_def sha
    by (simp add: bindM_run requireM_run liftM_run returnM_run cx_isolated_def cx_record_def cx_inp_def cx_schema_def cx_verified cx_point_def
      same cx_binding ex_policy_simps ex_candidate)
qed

definition cx_audit :: audit_row where "cx_audit = auditRow cx_platform cx_inp cx_record (''ann'', []) cx_isolated"

definition cx_statements :: "restore_statement list" where
  "cx_statements = restore_statements ex_claim (ex_tables [ex_row] [chunk_text [ex_row]]) (ex_tables [ex_row] [chunk_text [ex_row]]) cx_audit"

lemma cx_claim: "stage_claim_of cx_platform cx_record ''ann'' = ex_claim"
  by (simp add: stage_claim_of_def cx_platform_def cx_record_def ex_claim_def cx_id_def cx_hash_def)

lemma cx_audit_valid: "validateAudit cx_audit = Inr cx_audit"
  by code_simp

lemma cx_sql: "list_all (\<lambda>s. jsonBytes (statement_sql s) \<le> 1500 \<and> statement_values s \<le> 20) cx_statements"
  by code_simp

lemma cx_built: "buildSelectiveRestoreStatements ex_claim ex_policy [DPolicies \<mapsto> ex_payload [ex_row]] [DPolicies \<mapsto> ex_payload [ex_row]] cx_audit = Inr cx_statements"
proof -
  have "statement_values (ClaimStage ex_claim (ex_tables [ex_row] [chunk_text [ex_row]])) \<le> 20" by (simp add: ex_tables_def policies_tables_def)
  with small_statements [OF cx_sql] show ?thesis
    unfolding buildSelectiveRestoreStatements_def ex_valid cx_audit_valid ex_candidate ex_restoreTables cx_statements_def
    by (simp add: ex_batch guardE_def del: statement_values.simps)
qed

lemma cx_claimable: "claimable ex_claim (ex_tables [ex_row] [chunk_text [ex_row]]) cx_tables cx_stage"
proof -
  have "json_each_rows 3 (chunk_text [ex_row]) = map (map sql_scalar) [ex_row]"
    by (rule chunk_reads) (simp_all add: plain_row_def ex_row_def)
  then have "json_each_rows (Suc (Suc (Suc 0))) (chunk_text [ex_row]) = [ex_row]" by (simp add: ex_row_def numeral_3_eq_3)
  then show ?thesis
    by (simp add: claimable_def claims_stage_def cx_stage_def ex_claim_def ex_tables_def policies_tables_def currentStateGuard_def cx_tables_def
      rb_name_def table_def_def table_def_from_def table_width_def cx_id_def cx_hash_def)
qed

lemma cx_written: "\<exists>w'. written cx_platform cx_statements cx_world = (Inr (), w')"
proof -
  obtain ns t' where run: "run_statements cx_sqlite cx_statements cx_tables = Some (ns, t')"
    using run_total [of cx_sqlite cx_statements cx_tables] by (auto simp: cx_sqlite_def)
  have settled: "stages_settled cx_tables" by (simp add: stages_settled_def cx_tables_def cx_stage_def)
  note n = restore_names [OF ex_valid(3) ex_restoreTables(1)]
  have "list_all read_back (ex_tables [ex_row] [chunk_text [ex_row]])"
    by (rule tables_read_back [OF ex_restoreTables(1)]) (simp add: ex_tables_def policies_tables_def plain_row_def ex_row_def)
  from batch_effect [OF run [unfolded built_statements [OF cx_built ex_valid(1) cx_audit_valid ex_restoreTables(1) ex_restoreTables(1)]] settled n(1) this n(2)]
    batch_head [OF run [unfolded cx_statements_def restore_statements_def]] cx_claimable
  have ends: "hd ns = 1" "last ns = 1" by (simp_all add: cx_tables_def)
  have "ns \<noteq> []" using run_length [OF run] by (auto simp: cx_statements_def restore_statements_def)
  moreover have "length ns = length cx_statements" by (rule run_length [OF run])
  ultimately show ?thesis using run ends
    by (simp add: written_def run_batch_def cx_platform_def bindM_run cx_world_def d1_call_quiet requireM_run returnM_run hd_map last_map result_one_changes)
qed

text \<open>C10: A restore is committed only by its own stage: when the request for a commit succeeds, it carried the secret the
  stage was made with and a confirmation that names the stage, and in the moment its statements ran the stage of
  that id was still prepared, for that secret and for the caller's own identity, and not expired at the time of the
  request, whatever others did to the database before; the answer names that stage and the domains that were
  written.\<close>

theorem commit_needs_open_stage:
  assumes "commitSelectiveProductionRestore pf hasDB inputValue schema actorValue w = (Inr res, w')"
  shows "\<exists>secret identity groups policy incoming expected g ad ss t ns.
    jget inputValue ''stageSecret'' = JStr secret \<and> normalizeActor actorValue = Inr (identity, groups)
    \<and> g = \<lparr>sg_id = cr_stageId res, sg_actor = identity, sg_secretHash = rf_sha pf secret, sg_now = rf_now pf\<rparr>
    \<and> jget inputValue ''confirmation'' = JStr ((case cr_operation res of OpRestore \<Rightarrow> ''RESTORE'' | OpRollback \<Rightarrow> ''ROLLBACK'') @ '':'' @ cr_stageId res)
    \<and> jget inputValue ''acknowledgeRecoverySaved'' = JBool True
    \<and> validateSelectiveRestoreDomains (jget inputValue ''domains'') = Inr policy \<and> cr_selected res = rp_selected policy
    \<and> buildSelectiveRestoreStatements g policy incoming expected ad = Inr ss
    \<and> run_statements (rf_sqlite pf) ss t = Some (ns, db_tables w') \<and> open_stage g t"
proof -
  from commit_steps [OF assms] obtain inp actor policy i stage isolated incoming current ss u v a b where
    inp: "validateCommitInput inputValue = Inr inp" and actor: "normalizeActor actorValue = Inr actor"
    and policy: "validateSelectiveRestoreDomains (ci_domains inp) = Inr policy"
    and conf: "validateConfirmation inp policy i = Inr ()" and opened: "opened_stage pf inp policy (fst actor) schema i a = (Inr stage, b)"
    and built: "buildSelectiveRestoreStatements (stage_claim_of pf stage (fst actor)) policy incoming current (auditRow pf inp stage actor isolated) = Inr ss"
    and w: "written pf ss v = (Inr u, w')"
    and res: "res = \<lparr>cr_operation = ci_operation inp, cr_stageId = st_id stage, cr_selected = rp_selected policy, cr_isolated = isolated\<rparr>"
    by (elim exE conjE) blast
  let ?g = "stage_claim_of pf stage (fst actor)"
  from written_claims [OF w built] obtain t ns g where g: "validateGuard ?g = Inr g"
    and run: "run_statements (rf_sqlite pf) ss t = Some (ns, db_tables w')" "open_stage g t" by blast
  have "js_trim (fst actor) = fst actor" by (rule normalized_trimmed [OF actor])
  with g have same: "g = ?g" by (auto simp: validateGuard_def stage_claim_of_def Let_def split: if_splits)
  from opened_secret [OF opened] obtain secret where s: "ci_stageSecret inp = JStr secret" "st_secretHash stage = rf_sha pf secret" "st_id stage = i" by blast
  then have "?g = \<lparr>sg_id = cr_stageId res, sg_actor = fst actor, sg_secretHash = rf_sha pf secret, sg_now = rf_now pf\<rparr>"
    by (simp add: stage_claim_of_def res)
  moreover note commit_input_fields [OF inp]
  moreover from conf have "ci_recoverySaved inp = JBool True \<and>
      ci_confirmation inp = JStr ((case ci_operation inp of OpRestore \<Rightarrow> ''RESTORE'' | OpRollback \<Rightarrow> ''ROLLBACK'') @ '':'' @ i)"
    by (auto simp: validateConfirmation_def guardE_def Let_def split: if_splits)
  ultimately show ?thesis using s actor built run policy same
    by (intro exI [of _ secret] exI [of _ "fst actor"] exI [of _ "snd actor"] exI [of _ policy] exI [of _ incoming] exI [of _ current] exI [of _ ?g]
      exI [of _ "auditRow pf inp stage actor isolated"] exI [of _ ss] exI [of _ t] exI [of _ ns]) (simp add: res)
qed

lemma commit_needs_open_stage_witness:
  "\<exists>res w' g t. commitSelectiveProductionRestore cx_platform True cx_input cx_schema (JStr ''ann'') cx_world = (Inr res, w')
     \<and> sg_id g = cx_id \<and> sg_secretHash g = cx_hash \<and> open_stage g t"
proof -
  obtain w' where w: "written cx_platform cx_statements cx_world = (Inr (), w')" using cx_written by blast
  let ?res = "\<lparr>cr_operation = OpRestore, cr_stageId = cx_id, cr_selected = [DPolicies], cr_isolated = cx_isolated\<rparr>"
  have now: "integer_ok (rf_now cx_platform) 1" by code_simp
  have i: "ci_domains cx_inp = JArr [JStr ''policies'']" "ci_stageId cx_inp = JStr cx_id" "ci_operation cx_inp = OpRestore" "st_id cx_record = cx_id"
    by (simp_all add: cx_inp_def cx_record_def)
  have run: "commitSelectiveProductionRestore cx_platform True cx_input cx_schema (JStr ''ann'') cx_world = (Inr ?res, w')"
    unfolding commitSelectiveProductionRestore_def rethrow_Inr
    by (simp add: bindM_run liftM_run requireM_run returnM_run cx_parsed i ex_valid now cx_opened cx_checked cx_claim cx_audit_def [symmetric]
      cx_built w ex_policy_simps)
  have sha: "rf_sha cx_platform s = cx_hash" for s by (simp add: cx_platform_def)
  from commit_needs_open_stage [OF run] obtain g identity t where
    "g = \<lparr>sg_id = cr_stageId ?res, sg_actor = identity, sg_secretHash = cx_hash, sg_now = rf_now cx_platform\<rparr>" "open_stage g t"
    unfolding sha by (elim exE conjE) blast
  then have "sg_id g = cx_id \<and> sg_secretHash g = cx_hash \<and> open_stage g t" by simp
  with run show ?thesis by blast
qed

end
