(* ===== verification/Spec2Isabelle.thy ===== *)
theory Spec2Isabelle
  imports Permissions RouteContract MaintenanceGate RecoveryRestart LoginRateLimit ApprovedLaunch RoutingSafety BackupAccess RestoreApproval
begin

text \<open>
  The FreeIPA administration portal: a worker (\<open>src/worker/\<close>) that answers HTTP requests over one SQLite
  database, calls an automation service and a directory service, and is repaired offline by a recovery
  command. The development models the parts that decide something - who a request is, what it may do, what
  is launched, which state the portal is in and which file is the live database - and leaves the calls of
  the services, the rendering and the scripts aside. Each definition carries the name of the code it
  translates, or names the part of a function it is.

  \<^bold>\<open>The program.\<close> A request passes the gate of maintenance mode, is given an identity by the local security
  routing (a session, a service token, or none), is matched with a route and its permission, and reaches a
  handler. The handler of a launch loads the catalog from the automation service, presents it, reads the
  form, asks the approval gate, sends the launch and keeps a record of the run. The approval endpoint decides
  requests and launches the approved ones through the same handler. Administrators control maintenance mode;
  behind it, a recovery replaces the live database by a candidate, with a receipt on disk that tells where a
  crash has left it.

  \<^bold>\<open>Foundations.\<close>
  \<^item> \<open>Prelude\<close>: exceptions as sums (\<open>bindE\<close>), effects as state passing (\<open>eff\<close>, \<open>bindM\<close>, \<open>catchM\<close>), \<open>keeps\<close>.
  \<^item> \<open>JsValue\<close>, \<open>JsNumber\<close>, \<open>JsSort\<close>, \<open>Json\<close>, \<open>IsoTime\<close>, \<open>Base64\<close>, \<open>ConstantTime\<close>: the standard library of
    the language as far as it is used: values and their conversions, the order of numbers, the stable sort
    (locale \<open>comparator\<close>, interpreted on every comparison function of the code), printing and parsing of JSON
    with its round trip, ISO times, base 64, and the comparison in constant time on 32-bit words.
  \<^item> \<open>Database\<close>, \<open>RelyGuarantee\<close>: a database call is atomic, may fail or lose its reply, and before each one
    other requests may have changed the tables (a schedule in the world). \<open>follows\<close> and \<open>ensures\<close> are
    rely-guarantee judgements with rules collected in \<open>named_theorems\<close>, \<open>changes_once\<close> tells the one change of an
    operation from those of the others; the locale \<open>table_protocol\<close> is what a
    component promises of its rows and is interpreted by every component with tables.

  \<^bold>\<open>Components.\<close>
  \<^item> \<open>Permissions\<close>, \<open>RouteContract\<close>: \<open>src/auth/portal-permissions.ts\<close>, \<open>portal-route-contract.ts\<close>,
    \<open>portal-route-router.ts\<close>, \<open>portal-route-security-plan.ts\<close>: roles as a linear order, the table of routes,
    the compiled matcher (most specific route first) and the stages a route asks for.
  \<^item> \<open>MaintenanceMode\<close>, \<open>MaintenanceRepository\<close>, \<open>MaintenanceProtocol\<close>, \<open>MaintenanceSafety\<close>, \<open>MaintenanceGate\<close>:
    \<open>src/recovery/maintenance/maintenance-mode.ts\<close>, \<open>maintenance-repository.ts\<close>,
    \<open>worker/maintenance-mode-gate.ts\<close>, \<open>worker/maintenance-control-entry.ts\<close>. The stored row refines the
    abstract machine \<open>mode_step\<close>; a transition takes the controller's secret and happens in one batch, and a
    request makes at most the one change it asks for; a state that cannot be read, because the database fails or
    because the row is not one the reader accepts, closes the gate.
  \<^item> \<open>RecoveryReceipt\<close>, \<open>RecoveryFiles\<close>, \<open>RecoverySwap\<close>, \<open>RecoveryCrash\<close>, \<open>RecoveryRestart\<close>:
    \<open>src/recovery/foundation/recovery-receipt.ts\<close>, \<open>src/recovery/orchestration/recovery-swap.ts\<close>,
    \<open>recovery-reconcile.ts\<close>. Every system call may fail or be the last before a crash; whatever the moment, the
    original database survives, and a reconciliation that runs undisturbed ends in a consistent state. Two
    phases in which the commands get stuck are stated as theorems.
  \<^item> \<open>LoginRateLimit\<close>: \<open>login-rate-limit.ts\<close>, a locale-based protocol on the rows of subjects: a block is enforced and
    never shortened.
  \<^item> \<open>LocalAuth\<close>, \<open>AuthApi\<close>, \<open>LocalRouting\<close>: \<open>src/auth/local-auth.ts\<close>, \<open>local-session-management.ts\<close>,
    \<open>worker/local-secure-entry.ts\<close>, \<open>worker/session-management-entry.ts\<close>,
    \<open>worker/middleware/local-security-routing.ts\<close>, \<open>service-admin-authentication.ts\<close>. \<open>SessionRules\<close> has the judgement
    over the two databases of the authentication, \<open>SessionSafety\<close>, \<open>AccountSafety\<close>, \<open>LoginSafety\<close>,
    \<open>RoutingSafety\<close> the theorems: sessions end when they should, an account is administered by administrators
    only, a login is granted on valid credentials that were not blocked, an identity handed to a handler was
    earned.
  \<^item> \<open>CatalogPolicies\<close>, \<open>ApprovalPolicies\<close>: the two sets of rules of an administrator, their sanitisers, what
    they decide and their storage (\<open>src/operations/catalog/catalog-policies.ts\<close>,
    \<open>src/operations/approvals/approval-gates.ts\<close>).
  \<^item> \<open>AutomationTypes\<close>, \<open>FieldConditions\<close>, \<open>CatalogSchema\<close>, \<open>ProcessPresentation\<close>: the catalog of processes, the
    conditions of form fields, the fields read from the service with a 32-bit fingerprint, and the texts put over them.
  \<^item> \<open>ApprovalSpec\<close>, \<open>ApprovalGates\<close>, \<open>ApprovalProtocol\<close>, \<open>ApprovalSafety\<close>, \<open>ApprovalRun\<close>: the encrypted
    specification that binds an approval to what was approved, the requests and decisions in the database,
    the protocol of their rows with its invariant, and the runs of a request alone.
  \<^item> \<open>PortalAccess\<close>, \<open>OperationRuns\<close>, \<open>RunReplays\<close>, \<open>CatalogRun\<close>, \<open>LaunchSafety\<close>, \<open>ApprovalAction\<close>, \<open>ApprovedLaunch\<close>:
    the subject of a request, the record of a run and of its replay, the launch and the approval endpoint of
    \<open>worker/operations-http-entry.ts\<close>, and the end-to-end theorems: nothing is sent that needs an approval without
    a claimed one, and what is sent is what was approved.
  \<^item> \<open>SecureContext\<close>, \<open>BackupAccess\<close>: \<open>worker/secure-entry.ts\<close>, the identity of a request in the modes without
    local accounts, and the dispatch of maintenance, backups and restores in front of the local security routing
    (\<open>worker/backup-encrypted-root-entry.ts\<close>, \<open>backup-import-preview-root-entry.ts\<close>,
    \<open>backup-selective-restore-dispatch.ts\<close>, \<open>maintenance-control-dispatch.ts\<close>, \<open>security-composition.ts\<close>). Headers of
    a caller are not believed by the first; what the second believes in local mode is a theorem of its own.
  \<^item> \<open>BackupDomains\<close>, \<open>RestoreStage\<close>, \<open>RestoreWrite\<close>, \<open>RestoreCommit\<close>, \<open>RestoreRun\<close>: the domains and payloads of a
    backup (\<open>src/backup/backup-manifest.ts\<close>, \<open>export/backup-full-domains.ts\<close>), the stage of a restore with its
    secret, binding and table, the statements a restore runs with their text, sizes and effect, the recovery
    point, the preparation, the commit and the endpoint (\<open>src/backup/restore/\<close>,
    \<open>worker/backup-selective-restore-entry.ts\<close>). \<open>RestoreChunks\<close> shows that rows travel in bounded chunks and come
    back unchanged, \<open>RestoreSafety\<close> that the statements implement the abstract \<open>restored\<close> or change nothing,
    \<open>RestoreApproval\<close> what a successful commit has been given.

  \<^bold>\<open>How the lemmas are grouped.\<close> In each component: the steps its operations make (collected in a
  \<open>named_theorems\<close> bundle), the invariant of the tables kept by the steps, then the facts a returned value
  stands for at the moment of the read or write it rests on. Other requests are a relation. Where an invariant
  needs their discipline (approvals, maintenance rows, login blocks, the end of sessions), the theorem has the
  hypothesis that the others make steps of a protocol, and each operation of the component is proved to make
  only such steps, so the hypothesis is what the component itself guarantees. Where a theorem says what tables a
  request has read or what it changed itself, the relation \<open>R\<close> of the others is arbitrary (for maintenance:
  any relation within the protocol) and the tables are reached from those the request began with by \<open>R\<close> alone, up to the
  account of the configuration (\<open>or_bootstrapped\<close>) or up to one change of the request's own (\<open>changes_once\<close>);
  with the empty relation these are statements about a request that runs alone.
  Theorems on what an operation achieves assume a quiet schedule. Witnesses apply the theorems to concrete
  tables, evaluated by the simplifier.

  \<^bold>\<open>Bounds and fuel.\<close> The parser of JSON runs on as much fuel as the text is long, and \<open>pval_adequate\<close> shows
  that fuel is never why it fails. Conditions of fields recurse to the code's own depth of eight, groups of
  fields to the nesting of the value. A date is counted from 1970 to the year 9999. All other recursions are
  structural.

  \<^bold>\<open>Arguments of the model.\<close> SHA-256, PBKDF2, AES-GCM, random bytes, identifiers, the clock, the parser of
  URLs, the decoder of percent-encoded text, \<open>Intl.getCanonicalLocales\<close>, \<open>localeCompare\<close>, \<open>Date.parse\<close> on
  texts of unknown form and the answers of the automation service are arguments,
  and so are, for a restore, what SQLite keeps of a row and admits in a table, the cipher of archives and the
  test restore; what is relied on is a named hypothesis (\<open>good_cipher\<close>: decryption undoes encryption) with an instance that meets it.

  \<^bold>\<open>Limits.\<close> A character is a code unit below 256, so the Russian titles and messages are left out or
  transliterated, and an em dash is a hyphen. Numbers are exact decimal fractions without rounding and
  infinities. Members of an object keep their order, also those whose key is an integer; a lookup sees own
  members only. Audit events and notifications, whose failure the code swallows, are left out; reads that
  the code starts in parallel are made one after the other. The calls of \<open>fsync\<close> can fail but do not model
  what survives a loss of power.

  \<^bold>\<open>Not modelled.\<close> The directory service, settings, health and the pages: calls of other services and
  rendering. The encryption and the preview of archives, the test restore, storage inspection and schema
  migrations: streams and work of SQLite. The synchronisation of runs with the service, notifications and
  downloads. The construction of a recovery candidate and the offline step of maintenance. Scripts and process
  start-up.
\<close>

end
